(* ===== verification/Prelude.thy ===== *)
theory Prelude
  imports Main "HOL-Library.Sublist"
begin

text \<open>
  Vocabulary shared by every component.  The server is TypeScript: a string
  that is only compared or hashed is a HOL \<open>string\<close>; text that is measured,
  truncated or escaped is a \<open>utext\<close>, a list of Unicode code points, so that the
  UTF-16 length the language reports and the code-point view
  \<open>Array.from\<close> gives can both be expressed.  Instants and durations are
  integers in milliseconds.  A \<open>Map\<close> is a partial function, an optional field
  an \<open>option\<close>.
\<close>

type_synonym utext = "nat list"
type_synonym millis = int

definition utf :: "string \<Rightarrow> utext" where
  "utf s = map of_char s"

lemma utf_Nil [simp]: "utf [] = []"
  by (simp add: utf_def)

lemma utf_Cons [simp]: "utf (c # s) = of_char c # utf s"
  by (simp add: utf_def)

text \<open>The length the language reports: UTF-16 code units.\<close>

definition utf16_length :: "utext \<Rightarrow> nat" where
  "utf16_length s = sum_list (map (\<lambda>c. if 65536 \<le> c then 2 else 1) s)"

lemma utf16_length_ge: "length s \<le> utf16_length s"
  by (induction s) (auto simp: utf16_length_def)

lemma utf16_length_le: "utf16_length s \<le> 2 * length s"
  by (induction s) (auto simp: utf16_length_def)

lemma utf16_length_append: "utf16_length (s @ t) = utf16_length s + utf16_length t"
  by (simp add: utf16_length_def)

text \<open>Whether a sign-in created the account.\<close>

datatype account_status = Created | Existing

section \<open>Characters\<close>

definition hex_digit :: "char \<Rightarrow> bool" where
  "hex_digit c = (let n = (of_char c :: nat) in
     (48 \<le> n \<and> n \<le> 57) \<or> (97 \<le> n \<and> n \<le> 102) \<or> (65 \<le> n \<and> n \<le> 70))"

definition toLower :: "char \<Rightarrow> char" where
  "toLower c = (if 65 \<le> (of_char c :: nat) \<and> (of_char c :: nat) \<le> 90
                then char_of ((of_char c :: nat) + 32) else c)"

definition key_char :: "char \<Rightarrow> bool" where
  \<comment> \<open>\<open>[A-Za-z0-9_-]\<close>\<close>
  "key_char c = (let n = (of_char c :: nat) in
     (65 \<le> n \<and> n \<le> 90) \<or> (97 \<le> n \<and> n \<le> 122) \<or> (48 \<le> n \<and> n \<le> 57) \<or> n = 95 \<or> n = 45)"

definition projectKeySchema :: "string \<Rightarrow> bool" where
  "projectKeySchema s \<longleftrightarrow> take 7 s = ''prj_v1_'' \<and> length s = 50 \<and> list_all key_char (drop 7 s)"

section \<open>Decoded JSON\<close>

datatype jvalue = JStr string | JNum int | JNull | JObj "(string \<times> jvalue) list" | JOther

definition member :: "string \<Rightarrow> jvalue \<Rightarrow> jvalue option" where
  "member k v = (case v of JObj ms \<Rightarrow> map_of ms k | _ \<Rightarrow> None)"

definition strict_keys :: "string list \<Rightarrow> jvalue \<Rightarrow> bool" where
  \<comment> \<open>\<open>.strict()\<close>: an object without other members\<close>
  "strict_keys ks v = (case v of JObj ms \<Rightarrow> list_all (\<lambda>(k, _). k \<in> set ks) ms | _ \<Rightarrow> False)"

section \<open>Maps that are updated by several steps\<close>

definition injective_index :: "('v \<Rightarrow> 'k) \<Rightarrow> ('h \<rightharpoonup> 'v) \<Rightarrow> ('k \<rightharpoonup> 'h) \<Rightarrow> bool" where
  \<comment> \<open>\<open>idx\<close> is the reverse index of \<open>m\<close> under \<open>key\<close>: it names exactly the live entries.\<close>
  "injective_index key m idx \<longleftrightarrow>
     (\<forall>h v. m h = Some v \<longrightarrow> idx (key v) = Some h) \<and>
     (\<forall>k h. idx k = Some h \<longrightarrow> (\<exists>v. m h = Some v \<and> key v = k))"

lemma injective_indexI:
  assumes "\<And>h v. m h = Some v \<Longrightarrow> idx (key v) = Some h"
    and "\<And>k h. idx k = Some h \<Longrightarrow> \<exists>v. m h = Some v \<and> key v = k"
  shows "injective_index key m idx"
  using assms by (simp add: injective_index_def)

lemma injective_index_lookup:
  "injective_index key m idx \<Longrightarrow> m h = Some v \<Longrightarrow> idx (key v) = Some h"
  by (simp add: injective_index_def)

lemma injective_index_back:
  assumes "injective_index key m idx" and "idx k = Some h"
  obtains v where "m h = Some v" and "key v = k"
  using assms unfolding injective_index_def by blast

lemma injective_index_inj:
  "injective_index key m idx \<Longrightarrow> m h = Some v \<Longrightarrow> m h' = Some v' \<Longrightarrow> key v = key v' \<Longrightarrow> h = h'"
  unfolding injective_index_def by (metis option.inject)

lemma injective_index_empty [simp]: "injective_index key Map.empty Map.empty"
  by (simp add: injective_index_def)

lemma injective_index_delete:
  assumes "injective_index key m idx" and "m h = Some v"
  shows "injective_index key (m(h := None)) (idx(key v := None))"
proof (rule injective_indexI)
  fix h' v' assume "(m(h := None)) h' = Some v'"
  then have "h' \<noteq> h" and m': "m h' = Some v'" by (auto split: if_splits)
  then have "key v' \<noteq> key v" using injective_index_inj [OF assms(1) m' assms(2)] by blast
  then show "(idx(key v := None)) (key v') = Some h'"
    using injective_index_lookup [OF assms(1) m'] by simp
next
  fix k h' assume "(idx(key v := None)) k = Some h'"
  then have k: "k \<noteq> key v" and "idx k = Some h'" by (auto split: if_splits)
  from injective_index_back [OF assms(1) this(2)] obtain v' where
    "m h' = Some v'" "key v' = k" by blast
  with k assms(2) show "\<exists>v'. (m(h := None)) h' = Some v' \<and> key v' = k" by fastforce
qed

lemma injective_index_insert:
  assumes "injective_index key m idx" and "m h = None" and "idx (key v) = None"
  shows "injective_index key (m(h \<mapsto> v)) (idx(key v \<mapsto> h))"
proof (rule injective_indexI)
  fix h' v' assume "(m(h \<mapsto> v)) h' = Some v'"
  then show "(idx(key v \<mapsto> h)) (key v') = Some h'"
    using assms by (fastforce simp: injective_index_def split: if_splits)
next
  fix k h' assume "(idx(key v \<mapsto> h)) k = Some h'"
  then show "\<exists>v'. (m(h \<mapsto> v)) h' = Some v' \<and> key v' = k"
    using assms by (fastforce simp: injective_index_def split: if_splits)
qed

lemma injective_index_update:
  assumes "injective_index key m idx" and "m h = Some v" and "key v' = key v"
  shows "injective_index key (m(h \<mapsto> v')) idx"
  using assms by (fastforce simp: injective_index_def split: if_splits)

section \<open>Lists and results\<close>

lemma map_filter_id [simp]: "map fst (filter (\<lambda>x. P (fst x)) xs) = filter P (map fst xs)"
  by (induction xs) auto

lemma distinct_subseq: "subseq xs ys \<Longrightarrow> distinct ys \<Longrightarrow> distinct xs"
proof (induction xs ys rule: list_emb.induct)
  case (list_emb_Cons2 x y xs ys)
  then show ?case using list_emb_set [of "(=)" xs ys] by auto
qed simp_all

text \<open>\<open>String.split\<close> with a one-character separator.\<close>

fun split_on :: "'a \<Rightarrow> 'a list \<Rightarrow> 'a list list" where
  "split_on sep [] = [[]]"
| "split_on sep (x # xs) =
     (if x = sep then [] # split_on sep xs
      else case split_on sep xs of [] \<Rightarrow> [[x]] | w # ws \<Rightarrow> (x # w) # ws)"

lemma split_on_not_Nil [simp]: "split_on sep xs \<noteq> []"
  by (induction xs) (auto split: list.splits)

lemma split_on_none: "sep \<notin> set xs \<Longrightarrow> split_on sep xs = [xs]"
  by (induction xs) auto

lemma split_on_append: "sep \<notin> set xs \<Longrightarrow> split_on sep (xs @ sep # ys) = xs # split_on sep ys"
  by (induction xs) auto

definition is_ok :: "'e + 'a \<Rightarrow> bool" where
  "is_ok r = (case r of Inl _ \<Rightarrow> False | Inr _ \<Rightarrow> True)"

lemma is_ok_simps [simp]: "is_ok (Inr a)" "\<not> is_ok (Inl e)"
  by (simp_all add: is_ok_def)

end
