(* ===== verification/PendingAuth.thy ===== *)
theory PendingAuth
  imports Prelude
begin

text \<open>
  The in-memory store of pending OAuth sign-ins,
  \<open>src/services/pending-auth-store.ts\<close>.  A session is found by the hash of the
  client's token, by the OAuth \<open>state\<close> and by the user code; two reverse indexes
  follow the session table.  Long polls are waiters: a waiter is a promise,
  identified here by a number, and the store's \<open>resolutions\<close> is the log of the
  promises settled so far, oldest first.

  Outside the repository: the clock (every reading the code makes is an
  argument, in the order of the readings), the user-code generator (the code of
  each attempt is an argument), the hash, and the \<open>lru-cache\<close> package.  Of the
  cache the store relies on this: \<open>set\<close> may first drop other entries, calling
  \<open>dispose\<close> on each (which entries is an argument, \<open>victims\<close>); \<open>set\<close> on a key
  that is present replaces the value without \<open>dispose\<close>; \<open>delete\<close> calls
  \<open>dispose\<close>; and iteration visits the keys in some order (an argument).
\<close>

section \<open>Sessions\<close>

datatype oauth_provider = Github | Google | Apple

datatype oauth_client_type =
  ClientBridge | ClientApp | BridgeMacOS | BridgeWindows | BridgeLinux
| AppIOS | AppAndroid | AppMacOS | AppWindows | AppLinux

datatype pending_auth_status =
  Pending | AwaitingConfirmation | Complete | Consumed | Denied | Expired | Error | Shutdown

record pending_auth_tokens =
  accessToken :: string
  refreshToken :: string

record user_profile =
  profile_id :: string
  profile_provider :: string
  profile_providerUserId :: string
  profile_providerUsername :: "string option"

record device_info =
  device_name :: utext
  device_osVersion :: "utext option"
  device_appVersion :: "utext option"

record pending_auth_session =
  tokenHash :: string
  provider :: oauth_provider
  pkceVerifier :: string
  oauthState :: string
  userCode :: string
  status :: pending_auth_status
  createdAt :: millis
  expiresAt :: millis
  tokens :: "pending_auth_tokens option"
  user :: "user_profile option"
  accountStatus :: "account_status option"
  errorMessage :: "utext option"
  clientType :: "oauth_client_type option"
  device :: "device_info option"

record pending_auth_session_record = pending_auth_session +
  stagedTokens :: "pending_auth_tokens option"
  stagedUser :: "user_profile option"
  stagedAccountStatus :: "account_status option"

definition cloneSession :: "pending_auth_session_record \<Rightarrow> pending_auth_session" where
  "cloneSession r = pending_auth_session.truncate r"

lemma cloneSession_sel [simp]:
  "tokenHash (cloneSession r) = tokenHash r"
  "provider (cloneSession r) = provider r"
  "pkceVerifier (cloneSession r) = pkceVerifier r"
  "oauthState (cloneSession r) = oauthState r"
  "userCode (cloneSession r) = userCode r"
  "status (cloneSession r) = status r"
  "createdAt (cloneSession r) = createdAt r"
  "expiresAt (cloneSession r) = expiresAt r"
  "tokens (cloneSession r) = tokens r"
  "user (cloneSession r) = user r"
  "accountStatus (cloneSession r) = accountStatus r"
  "errorMessage (cloneSession r) = errorMessage r"
  "clientType (cloneSession r) = clientType r"
  "device (cloneSession r) = device r"
  by (simp_all add: cloneSession_def pending_auth_session.defs)

record status_waiter =
  waiterId :: nat
  initialStatus :: pending_auth_status

record pending_auth_store =
  sessions :: "string \<rightharpoonup> pending_auth_session_record"
  tokenHashesByState :: "string \<rightharpoonup> string"
  tokenHashesByUserCode :: "string \<rightharpoonup> string"
  waitersByTokenHash :: "string \<rightharpoonup> status_waiter list"
  released :: bool
  resolutions :: "(nat \<times> pending_auth_session option) list"

definition DEFAULT_SESSION_TTL_MS :: millis where
  "DEFAULT_SESSION_TTL_MS = 5 * 60 * 1000"

definition empty_store :: pending_auth_store where
  "empty_store = \<lparr>sessions = Map.empty, tokenHashesByState = Map.empty,
     tokenHashesByUserCode = Map.empty, waitersByTokenHash = Map.empty,
     released = False, resolutions = []\<rparr>"

section \<open>Waiters\<close>

definition settle :: "nat \<Rightarrow> pending_auth_session option \<Rightarrow> pending_auth_store \<Rightarrow> pending_auth_store" where
  \<comment> \<open>\<open>resolve\<close> of a promise: only the first call counts\<close>
  "settle w v s =
     (if w \<in> fst ` set (resolutions s) then s
      else s\<lparr>resolutions := resolutions s @ [(w, v)]\<rparr>)"

definition set_waiters :: "string \<Rightarrow> status_waiter list \<Rightarrow> pending_auth_store \<Rightarrow> pending_auth_store" where
  \<comment> \<open>an emptied waiter set is removed from the map\<close>
  "set_waiters h ws s =
     s\<lparr>waitersByTokenHash := (waitersByTokenHash s)(h := if ws = [] then None else Some ws)\<rparr>"

definition skips :: "bool \<Rightarrow> pending_auth_session option \<Rightarrow> status_waiter \<Rightarrow> bool" where
  "skips includeSameStatus next w =
     (\<not> includeSameStatus \<and>
      (case next of None \<Rightarrow> False | Some n \<Rightarrow> initialStatus w = status n))"

definition notifyWaiters ::
  "bool \<Rightarrow> string \<Rightarrow> pending_auth_session_record option \<Rightarrow> pending_auth_store \<Rightarrow> pending_auth_store" where
  "notifyWaiters includeSameStatus h session s =
     (case waitersByTokenHash s h of
        None \<Rightarrow> s
      | Some ws \<Rightarrow>
          let next = map_option cloneSession session;
              keep = filter (skips includeSameStatus next) ws;
              fire = filter (\<lambda>w. \<not> skips includeSameStatus next w) ws
          in set_waiters h keep (fold (\<lambda>w. settle (waiterId w) next) fire s))"

definition removeWaiter :: "string \<Rightarrow> nat \<Rightarrow> pending_auth_store \<Rightarrow> pending_auth_store" where
  "removeWaiter h w s =
     (case waitersByTokenHash s h of
        None \<Rightarrow> s
      | Some ws \<Rightarrow> set_waiters h (filter (\<lambda>x. waiterId x \<noteq> w) ws) s)"

section \<open>The session table\<close>

definition dispose :: "pending_auth_session_record \<Rightarrow> pending_auth_store \<Rightarrow> pending_auth_store" where
  "dispose r s =
     notifyWaiters True (tokenHash r) None
       (s\<lparr>tokenHashesByState := (tokenHashesByState s)(oauthState r := None),
          tokenHashesByUserCode := (tokenHashesByUserCode s)(userCode r := None)\<rparr>)"

definition cache_delete :: "string \<Rightarrow> pending_auth_store \<Rightarrow> pending_auth_store" where
  "cache_delete h s =
     (case sessions s h of
        None \<Rightarrow> s
      | Some r \<Rightarrow> dispose r (s\<lparr>sessions := (sessions s)(h := None)\<rparr>))"

definition wipe :: "pending_auth_status \<Rightarrow> pending_auth_session_record \<Rightarrow> pending_auth_session_record" where
  \<comment> \<open>the copy handed to waiters when a session expires or is consumed\<close>
  "wipe st r = r\<lparr>status := st, stagedTokens := None, stagedUser := None,
     stagedAccountStatus := None, tokens := None, user := None,
     accountStatus := None, errorMessage := None\<rparr>"

definition expireSession ::
  "string \<Rightarrow> pending_auth_session_record \<Rightarrow> pending_auth_store \<Rightarrow> pending_auth_store" where
  "expireSession h r s = cache_delete h (notifyWaiters True h (Some (wipe Expired r)) s)"

definition getActiveEntry ::
  "millis \<Rightarrow> string \<Rightarrow> pending_auth_store \<Rightarrow> pending_auth_session_record option \<times> pending_auth_store" where
  "getActiveEntry now h s =
     (case sessions s h of
        None \<Rightarrow> (None, s)
      | Some r \<Rightarrow> if expiresAt r \<le> now then (None, expireSession h r s) else (Some r, s))"

definition getSessionByTokenHash ::
  "millis \<Rightarrow> string \<Rightarrow> pending_auth_store \<Rightarrow> pending_auth_session option \<times> pending_auth_store" where
  "getSessionByTokenHash now h s = apfst (map_option cloneSession) (getActiveEntry now h s)"

definition getSessionByState ::
  "millis \<Rightarrow> string \<Rightarrow> pending_auth_store \<Rightarrow> pending_auth_session option \<times> pending_auth_store" where
  "getSessionByState now st s =
     (case tokenHashesByState s st of
        None \<Rightarrow> (None, s)
      | Some h \<Rightarrow> if h = [] then (None, s) else getSessionByTokenHash now h s)"

definition getSessionByUserCode ::
  "millis \<Rightarrow> string \<Rightarrow> pending_auth_store \<Rightarrow> pending_auth_session option \<times> pending_auth_store" where
  "getSessionByUserCode now code s =
     (case tokenHashesByUserCode s code of
        None \<Rightarrow> (None, s)
      | Some h \<Rightarrow> if h = [] then (None, s) else getSessionByTokenHash now h s)"

section \<open>Creating a session\<close>

datatype store_error = InvalidUserCode | NoUniqueUserCode

definition USER_CODE_ALPHABET :: string where
  "USER_CODE_ALPHABET = ''ABCDEFGHJKLMNPQRSTUVWXYZ23456789''"

definition USER_CODE_LENGTH :: nat where
  "USER_CODE_LENGTH = 4"

definition toUpper :: "char \<Rightarrow> char" where
  "toUpper c = (if 97 \<le> (of_char c :: nat) \<and> (of_char c :: nat) \<le> 122
                then char_of ((of_char c :: nat) - 32) else c)"

definition user_code_char :: "char \<Rightarrow> bool" where
  "user_code_char c =
     (let n = (of_char c :: nat) in (65 \<le> n \<and> n \<le> 90) \<or> (48 \<le> n \<and> n \<le> 57))"

definition valid_user_code :: "string \<Rightarrow> bool" where
  "valid_user_code code = (length code = USER_CODE_LENGTH \<and> list_all user_code_char code)"

definition createUserCode :: "(nat \<Rightarrow> nat) \<Rightarrow> string" where
  \<comment> \<open>\<open>rnd i\<close> is the i-th \<open>crypto.randomInt(0, alphabet.length)\<close>\<close>
  "createUserCode rnd = map (\<lambda>i. USER_CODE_ALPHABET ! rnd i) [0..<USER_CODE_LENGTH]"

fun try_user_codes :: "string list \<Rightarrow> pending_auth_store \<Rightarrow> store_error + string" where
  "try_user_codes [] s = Inl NoUniqueUserCode"
| "try_user_codes (c # cs) s =
     (let code = map toUpper c in
      if \<not> valid_user_code code then Inl InvalidUserCode
      else if tokenHashesByUserCode s code = None then Inr code
      else try_user_codes cs s)"

definition generateUniqueUserCode :: "(nat \<Rightarrow> string) \<Rightarrow> pending_auth_store \<Rightarrow> store_error + string" where
  "generateUniqueUserCode gen s = try_user_codes (map gen [0..<32]) s"

definition setSession ::
  "string list \<Rightarrow> pending_auth_session_record \<Rightarrow> pending_auth_store \<Rightarrow> pending_auth_store" where
  "setSession victims r s =
     (let h = tokenHash r;
          s1 = (case sessions s h of
                  None \<Rightarrow> s
                | Some old \<Rightarrow>
                    s\<lparr>tokenHashesByState :=
                        (if oauthState old \<noteq> oauthState r
                         then (tokenHashesByState s)(oauthState old := None) else tokenHashesByState s),
                      tokenHashesByUserCode :=
                        (if userCode old \<noteq> userCode r
                         then (tokenHashesByUserCode s)(userCode old := None) else tokenHashesByUserCode s)\<rparr>);
          s2 = s1\<lparr>tokenHashesByState := (tokenHashesByState s1)(oauthState r \<mapsto> h),
                  tokenHashesByUserCode := (tokenHashesByUserCode s1)(userCode r \<mapsto> h)\<rparr>;
          s3 = fold cache_delete victims s2
      in s3\<lparr>sessions := (sessions s3)(h \<mapsto> r)\<rparr>)"

record session_params =
  p_tokenHash :: string
  p_provider :: oauth_provider
  p_pkceVerifier :: string
  p_state :: string
  p_clientType :: "oauth_client_type option"
  p_device :: "device_info option"

definition new_session :: "millis \<Rightarrow> millis \<Rightarrow> string \<Rightarrow> session_params \<Rightarrow> pending_auth_session_record" where
  "new_session ttl now code p =
     \<lparr>tokenHash = p_tokenHash p, provider = p_provider p, pkceVerifier = p_pkceVerifier p,
      oauthState = p_state p, userCode = code, status = Pending,
      createdAt = now, expiresAt = now + ttl,
      tokens = None, user = None, accountStatus = None, errorMessage = None,
      clientType = p_clientType p, device = p_device p,
      stagedTokens = None, stagedUser = None, stagedAccountStatus = None\<rparr>"

definition createSession ::
  "millis \<Rightarrow> millis \<Rightarrow> (nat \<Rightarrow> string) \<Rightarrow> string list \<Rightarrow> session_params \<Rightarrow> pending_auth_store
   \<Rightarrow> store_error + pending_auth_session \<times> pending_auth_store" where
  "createSession ttl now gen victims p s =
     (case generateUniqueUserCode gen s of
        Inl e \<Rightarrow> Inl e
      | Inr code \<Rightarrow>
          let r = new_session ttl now code p in Inr (cloneSession r, setSession victims r s))"

section \<open>Transitions of a session\<close>

record session_update =
  u_status :: pending_auth_status
  u_stagedTokens :: "pending_auth_tokens option"
  u_stagedUser :: "user_profile option"
  u_stagedAccountStatus :: "account_status option"
  u_tokens :: "pending_auth_tokens option"
  u_user :: "user_profile option"
  u_accountStatus :: "account_status option"
  u_errorMessage :: "utext option"

definition blank_update :: "pending_auth_status \<Rightarrow> session_update" where
  \<comment> \<open>a parameter object that leaves out every optional field\<close>
  "blank_update st = \<lparr>u_status = st, u_stagedTokens = None, u_stagedUser = None,
     u_stagedAccountStatus = None, u_tokens = None, u_user = None,
     u_accountStatus = None, u_errorMessage = None\<rparr>"

definition apply_update :: "session_update \<Rightarrow> pending_auth_session_record \<Rightarrow> pending_auth_session_record" where
  "apply_update u r = r\<lparr>status := u_status u, stagedTokens := u_stagedTokens u,
     stagedUser := u_stagedUser u, stagedAccountStatus := u_stagedAccountStatus u,
     tokens := u_tokens u, user := u_user u, accountStatus := u_accountStatus u,
     errorMessage := u_errorMessage u\<rparr>"

definition updateSession ::
  "millis \<Rightarrow> string \<Rightarrow> session_update \<Rightarrow> pending_auth_store
   \<Rightarrow> pending_auth_session option \<times> pending_auth_store" where
  "updateSession now h u s =
     (case getActiveEntry now h s of
        (None, s') \<Rightarrow> (None, s')
      | (Some r, s') \<Rightarrow>
          let r' = apply_update u r
          in (Some (cloneSession r'),
              notifyWaiters False h (Some r') (s'\<lparr>sessions := (sessions s')(h \<mapsto> r')\<rparr>)))"

definition guarded_update ::
  "(pending_auth_session_record \<Rightarrow> session_update option) \<Rightarrow> millis \<Rightarrow> millis \<Rightarrow> string
   \<Rightarrow> pending_auth_store \<Rightarrow> pending_auth_session option \<times> pending_auth_store" where
  \<comment> \<open>the shape every transition has: read the live entry, refuse or update\<close>
  "guarded_update f t1 t2 h s =
     (case getActiveEntry t1 h s of
        (None, s') \<Rightarrow> (None, s')
      | (Some r, s') \<Rightarrow> (case f r of None \<Rightarrow> (None, s') | Some u \<Rightarrow> updateSession t2 h u s'))"

definition settled :: "pending_auth_status \<Rightarrow> bool" where
  "settled st = (st = Complete \<or> st = Consumed \<or> st = Denied \<or> st = Error)"

definition markAwaitingConfirmation ::
  "millis \<Rightarrow> millis \<Rightarrow> string \<Rightarrow> pending_auth_store \<Rightarrow> pending_auth_session option \<times> pending_auth_store" where
  "markAwaitingConfirmation = guarded_update (\<lambda>r.
     if settled (status r) then None else Some (blank_update AwaitingConfirmation))"

definition stageCompletion ::
  "pending_auth_tokens \<Rightarrow> user_profile \<Rightarrow> account_status \<Rightarrow> millis \<Rightarrow> millis \<Rightarrow> string
   \<Rightarrow> pending_auth_store \<Rightarrow> pending_auth_session option \<times> pending_auth_store" where
  "stageCompletion tk us ac = guarded_update (\<lambda>r.
     if settled (status r) then None
     else Some ((blank_update AwaitingConfirmation)
            \<lparr>u_stagedTokens := Some tk, u_stagedUser := Some us, u_stagedAccountStatus := Some ac\<rparr>))"

definition confirmSession ::
  "millis \<Rightarrow> millis \<Rightarrow> string \<Rightarrow> pending_auth_store \<Rightarrow> pending_auth_session option \<times> pending_auth_store" where
  "confirmSession = guarded_update (\<lambda>r.
     if status r \<noteq> AwaitingConfirmation then None
     else if stagedTokens r = None \<or> stagedUser r = None \<or> stagedAccountStatus r = None then None
     else Some ((blank_update Complete)
            \<lparr>u_tokens := stagedTokens r, u_user := stagedUser r,
             u_accountStatus := stagedAccountStatus r\<rparr>))"

definition completeSession ::
  "pending_auth_tokens \<Rightarrow> user_profile \<Rightarrow> account_status \<Rightarrow> millis \<Rightarrow> millis \<Rightarrow> string
   \<Rightarrow> pending_auth_store \<Rightarrow> pending_auth_session option \<times> pending_auth_store" where
  "completeSession tk us ac = guarded_update (\<lambda>r.
     if status r = Denied \<or> status r = Error then None
     else Some ((blank_update Complete)
            \<lparr>u_tokens := Some tk, u_user := Some us, u_accountStatus := Some ac\<rparr>))"

definition denySession ::
  "millis \<Rightarrow> millis \<Rightarrow> string \<Rightarrow> pending_auth_store \<Rightarrow> pending_auth_session option \<times> pending_auth_store" where
  "denySession = guarded_update (\<lambda>r.
     if settled (status r) then None else Some (blank_update Denied))"

definition failSession ::
  "utext \<Rightarrow> millis \<Rightarrow> millis \<Rightarrow> string \<Rightarrow> pending_auth_store \<Rightarrow> pending_auth_session option \<times> pending_auth_store" where
  "failSession msg = guarded_update (\<lambda>r.
     if settled (status r) then None else Some ((blank_update Error)\<lparr>u_errorMessage := Some msg\<rparr>))"

section \<open>Completion\<close>

record completion =
  c_tokens :: pending_auth_tokens
  c_user :: user_profile
  c_accountStatus :: account_status

definition completion_of :: "pending_auth_session_record \<Rightarrow> completion option" where
  "completion_of r =
     (if status r \<noteq> Complete then None
      else case (tokens r, user r, accountStatus r) of
             (Some tk, Some us, Some ac) \<Rightarrow> Some \<lparr>c_tokens = tk, c_user = us, c_accountStatus = ac\<rparr>
           | _ \<Rightarrow> None)"

definition getCompletion ::
  "millis \<Rightarrow> string \<Rightarrow> pending_auth_store \<Rightarrow> completion option \<times> pending_auth_store" where
  "getCompletion now h s =
     (case getActiveEntry now h s of
        (None, s') \<Rightarrow> (None, s')
      | (Some r, s') \<Rightarrow> (completion_of r, s'))"

definition consumeCompletion ::
  "millis \<Rightarrow> string \<Rightarrow> pending_auth_store \<Rightarrow> completion option \<times> pending_auth_store" where
  "consumeCompletion now h s =
     (case getActiveEntry now h s of
        (None, s') \<Rightarrow> (None, s')
      | (Some r, s') \<Rightarrow>
          (case completion_of r of
             None \<Rightarrow> (None, s')
           | Some c \<Rightarrow>
               (Some c, cache_delete h (notifyWaiters True h (Some (wipe Consumed r)) s'))))"

section \<open>Long polls\<close>

definition add_waiter :: "string \<Rightarrow> status_waiter \<Rightarrow> pending_auth_store \<Rightarrow> pending_auth_store" where
  "add_waiter h w s =
     s\<lparr>waitersByTokenHash := (waitersByTokenHash s)
         (h \<mapsto> (case waitersByTokenHash s h of None \<Rightarrow> [] | Some ws \<Rightarrow> ws) @ [w])\<rparr>"

definition waitForStatusChange ::
  "millis \<Rightarrow> millis \<Rightarrow> millis \<Rightarrow> bool \<Rightarrow> nat \<Rightarrow> string \<Rightarrow> millis \<Rightarrow> pending_auth_store
   \<Rightarrow> millis option \<times> pending_auth_store" where
  \<comment> \<open>the result is the delay of the timer that was armed, if one was\<close>
  "waitForStatusChange t1 t2 t3 aborted w h timeoutMs s =
     (case getSessionByTokenHash t1 h s of
        (None, s') \<Rightarrow> (None, settle w None s')
      | (Some se, s') \<Rightarrow>
          if aborted then (None, settle w None s')
          else if released s' then (None, settle w (Some (se\<lparr>status := Shutdown\<rparr>)) s')
          else if timeoutMs \<le> 0 then (None, settle w (Some se) s')
          else
            let msUntilExpiry = max 0 (expiresAt se - t2);
                effectiveTimeoutMs = min timeoutMs (msUntilExpiry + 1);
                s1 = add_waiter h \<lparr>waiterId = w, initialStatus = status se\<rparr> s';
                (latest, s2) = getSessionByTokenHash t3 h s1
            in (case latest of
                  Some l \<Rightarrow>
                    if status l = status se then (Some effectiveTimeoutMs, s2)
                    else (None, settle w latest (removeWaiter h w s2))
                | None \<Rightarrow> (None, settle w None (removeWaiter h w s2))))"

definition waiterTimeout ::
  "millis \<Rightarrow> millis \<Rightarrow> nat \<Rightarrow> string \<Rightarrow> pending_auth_store \<Rightarrow> pending_auth_store" where
  "waiterTimeout t1 t2 w h s =
     (let s1 = removeWaiter h w s in
      case sessions s1 h of
        Some r \<Rightarrow>
          if expiresAt r \<le> t1
          then settle w (Some ((cloneSession r)\<lparr>status := Expired\<rparr>)) (expireSession h r s1)
          else (let (v, s2) = getSessionByTokenHash t2 h s1 in settle w v s2)
      | None \<Rightarrow> (let (v, s2) = getSessionByTokenHash t2 h s1 in settle w v s2))"

definition waiterAbort :: "nat \<Rightarrow> string \<Rightarrow> pending_auth_store \<Rightarrow> pending_auth_store" where
  "waiterAbort w h s = settle w None (removeWaiter h w s)"

definition sweepKey :: "millis \<Rightarrow> string \<Rightarrow> pending_auth_store \<Rightarrow> pending_auth_store" where
  "sweepKey now h s =
     (case sessions s h of
        None \<Rightarrow> s
      | Some r \<Rightarrow> if expiresAt r \<le> now then expireSession h r s else s)"

definition expireExpiredSessions :: "millis \<Rightarrow> string list \<Rightarrow> pending_auth_store \<Rightarrow> pending_auth_store" where
  \<comment> \<open>\<open>order\<close> is the cache's iteration order\<close>
  "expireExpiredSessions now order s = fold (sweepKey now) order s"

definition releaseKey :: "(string \<Rightarrow> millis) \<Rightarrow> string \<Rightarrow> pending_auth_store \<Rightarrow> pending_auth_store" where
  "releaseKey clk h s =
     (case getActiveEntry (clk h) h s of
        (Some r, s') \<Rightarrow> notifyWaiters True h (Some (r\<lparr>status := Shutdown\<rparr>)) s'
      | (None, s') \<Rightarrow> notifyWaiters True h None s')"

definition releaseWaiters :: "(string \<Rightarrow> millis) \<Rightarrow> string list \<Rightarrow> pending_auth_store \<Rightarrow> pending_auth_store" where
  \<comment> \<open>\<open>keys\<close> are the keys of the waiter map, \<open>clk h\<close> the clock when \<open>h\<close> is reached\<close>
  "releaseWaiters clk keys s =
     (if released s then s else fold (releaseKey clk) keys (s\<lparr>released := True\<rparr>))"

section \<open>What each primitive touches\<close>

named_theorems store_frame \<open>the fields of the store that a primitive leaves alone\<close>

lemma settle_frame [simp, store_frame]:
  "sessions (settle w v s) = sessions s"
  "tokenHashesByState (settle w v s) = tokenHashesByState s"
  "tokenHashesByUserCode (settle w v s) = tokenHashesByUserCode s"
  "waitersByTokenHash (settle w v s) = waitersByTokenHash s"
  "released (settle w v s) = released s"
  by (simp_all add: settle_def)

lemma fold_settle_frame [simp, store_frame]:
  "sessions (fold (\<lambda>w. settle (f w) v) ws s) = sessions s"
  "tokenHashesByState (fold (\<lambda>w. settle (f w) v) ws s) = tokenHashesByState s"
  "tokenHashesByUserCode (fold (\<lambda>w. settle (f w) v) ws s) = tokenHashesByUserCode s"
  "waitersByTokenHash (fold (\<lambda>w. settle (f w) v) ws s) = waitersByTokenHash s"
  "released (fold (\<lambda>w. settle (f w) v) ws s) = released s"
  by (induction ws arbitrary: s) simp_all

lemma set_waiters_frame [simp, store_frame]:
  "sessions (set_waiters h ws s) = sessions s"
  "tokenHashesByState (set_waiters h ws s) = tokenHashesByState s"
  "tokenHashesByUserCode (set_waiters h ws s) = tokenHashesByUserCode s"
  "resolutions (set_waiters h ws s) = resolutions s"
  "released (set_waiters h ws s) = released s"
  by (simp_all add: set_waiters_def)

lemma notifyWaiters_frame [simp, store_frame]:
  "sessions (notifyWaiters b h se s) = sessions s"
  "tokenHashesByState (notifyWaiters b h se s) = tokenHashesByState s"
  "tokenHashesByUserCode (notifyWaiters b h se s) = tokenHashesByUserCode s"
  "released (notifyWaiters b h se s) = released s"
  by (simp_all add: notifyWaiters_def Let_def split: option.split)

lemma removeWaiter_frame [simp, store_frame]:
  "sessions (removeWaiter h w s) = sessions s"
  "tokenHashesByState (removeWaiter h w s) = tokenHashesByState s"
  "tokenHashesByUserCode (removeWaiter h w s) = tokenHashesByUserCode s"
  "resolutions (removeWaiter h w s) = resolutions s"
  "released (removeWaiter h w s) = released s"
  by (simp_all add: removeWaiter_def split: option.split)

lemma add_waiter_frame [simp, store_frame]:
  "sessions (add_waiter h w s) = sessions s"
  "tokenHashesByState (add_waiter h w s) = tokenHashesByState s"
  "tokenHashesByUserCode (add_waiter h w s) = tokenHashesByUserCode s"
  "resolutions (add_waiter h w s) = resolutions s"
  "released (add_waiter h w s) = released s"
  by (simp_all add: add_waiter_def)

lemma cache_delete_frame [simp, store_frame]:
  "sessions (cache_delete h s) = (sessions s)(h := None)"
  "released (cache_delete h s) = released s"
  by (auto simp: cache_delete_def dispose_def split: option.split)

lemma notifyWaiters_waiters:
  "waitersByTokenHash (notifyWaiters b h se s) =
     (waitersByTokenHash s)(h := (case waitersByTokenHash s h of None \<Rightarrow> None
        | Some ws \<Rightarrow> (let ks = filter (skips b (map_option cloneSession se)) ws
                       in if ks = [] then None else Some ks)))"
  by (auto simp: notifyWaiters_def Let_def set_waiters_def fun_upd_idem split: option.split)

lemma notify_all_waiters [simp]:
  "waitersByTokenHash (notifyWaiters True h se s) = (waitersByTokenHash s)(h := None)"
  by (simp add: notifyWaiters_waiters skips_def split: option.split)

lemma removeWaiter_waiters:
  "waitersByTokenHash (removeWaiter h w s) =
     (waitersByTokenHash s)(h := (case waitersByTokenHash s h of None \<Rightarrow> None
        | Some ws \<Rightarrow> (let ks = filter (\<lambda>x. waiterId x \<noteq> w) ws in if ks = [] then None else Some ks)))"
  by (auto simp: removeWaiter_def Let_def set_waiters_def fun_upd_idem split: option.split)

section \<open>Which promises are pending\<close>

definition waiters_at :: "string \<Rightarrow> pending_auth_store \<Rightarrow> status_waiter list" where
  "waiters_at h s = (case waitersByTokenHash s h of None \<Rightarrow> [] | Some ws \<Rightarrow> ws)"

definition waiting :: "string \<Rightarrow> nat \<Rightarrow> pending_auth_store \<Rightarrow> bool" where
  "waiting h w s = (w \<in> waiterId ` set (waiters_at h s))"

definition resolved :: "pending_auth_store \<Rightarrow> nat set" where
  "resolved s = fst ` set (resolutions s)"

definition idle :: "nat \<Rightarrow> pending_auth_store \<Rightarrow> bool" where
  "idle w s \<longleftrightarrow> (\<forall>h. \<not> waiting h w s)"

definition fresh_waiter :: "nat \<Rightarrow> pending_auth_store \<Rightarrow> bool" where
  "fresh_waiter w s \<longleftrightarrow> idle w s \<and> w \<notin> resolved s"

definition ids_ok :: "pending_auth_store \<Rightarrow> bool" where
  \<comment> \<open>every promise is pending at most once, and is pending or settled, never both\<close>
  "ids_ok s \<longleftrightarrow>
     (\<forall>h. distinct (map waiterId (waiters_at h s))) \<and>
     (\<forall>h w. waiting h w s \<longrightarrow> w \<notin> resolved s) \<and>
     (\<forall>h h' w. waiting h w s \<longrightarrow> waiting h' w s \<longrightarrow> h = h') \<and>
     distinct (map fst (resolutions s))"

lemma waiters_at_frame [simp]:
  "waiters_at h (settle w v s) = waiters_at h s"
  "waiters_at h (s\<lparr>sessions := m\<rparr>) = waiters_at h s"
  "waiters_at h (s\<lparr>tokenHashesByState := i\<rparr>) = waiters_at h s"
  "waiters_at h (s\<lparr>tokenHashesByUserCode := j\<rparr>) = waiters_at h s"
  "waiters_at h (s\<lparr>released := b\<rparr>) = waiters_at h s"
  by (simp_all add: waiters_at_def)

lemma waiters_at_notify:
  "waiters_at h' (notifyWaiters b h se s) =
     (if h' = h then filter (skips b (map_option cloneSession se)) (waiters_at h s) else waiters_at h' s)"
  by (simp add: waiters_at_def notifyWaiters_waiters Let_def split: option.split)

lemma waiters_at_remove:
  "waiters_at h' (removeWaiter h w s) =
     (if h' = h then filter (\<lambda>x. waiterId x \<noteq> w) (waiters_at h s) else waiters_at h' s)"
  by (simp add: waiters_at_def removeWaiter_waiters Let_def split: option.split)

lemma waiters_at_add:
  "waiters_at h' (add_waiter h w s) = (if h' = h then waiters_at h s @ [w] else waiters_at h' s)"
  by (simp add: waiters_at_def add_waiter_def split: option.split)

lemma waiters_at_delete:
  "waiters_at h' (cache_delete h s) =
     (if sessions s h = None then waiters_at h' s
      else if h' = tokenHash (the (sessions s h)) then [] else waiters_at h' s)"
  by (auto simp: cache_delete_def dispose_def waiters_at_notify skips_def split: option.split)

lemmas waiters_at_simps = waiters_at_notify waiters_at_remove waiters_at_add waiters_at_delete

lemma waiting_shrinks:
  "waiting h' w (notifyWaiters b h se s) \<Longrightarrow> waiting h' w s"
  "waiting h' w (removeWaiter h x s) \<Longrightarrow> waiting h' w s"
  "waiting h' w (cache_delete h s) \<Longrightarrow> waiting h' w s"
  by (auto simp: waiting_def waiters_at_simps split: if_splits)

lemma waiting_settle [simp]: "waiting h w (settle x v s) = waiting h w s"
  by (simp add: waiting_def)

lemma idle_shrinks [simp]:
  "idle w s \<Longrightarrow> idle w (notifyWaiters b h se s)"
  "idle w s \<Longrightarrow> idle w (removeWaiter h x s)"
  "idle w s \<Longrightarrow> idle w (cache_delete h s)"
  "idle w s \<Longrightarrow> idle w (settle x v s)"
  unfolding idle_def by (blast dest: waiting_shrinks)+ simp

lemma idle_expireSession [simp]: "idle w s \<Longrightarrow> idle w (expireSession h r s)"
  by (simp add: expireSession_def)

lemma removeWaiter_idle:
  "ids_ok s \<Longrightarrow> waiting h w s \<Longrightarrow> idle w (removeWaiter h w s)"
  unfolding idle_def ids_ok_def
  by (auto simp: waiting_def waiters_at_remove split: if_splits) blast

lemma fold_settle_log:
  assumes "distinct (map waiterId ws)" and "\<forall>w \<in> set ws. waiterId w \<notin> fst ` set (resolutions s)"
  shows "resolutions (fold (\<lambda>w. settle (waiterId w) v) ws s) =
           resolutions s @ map (\<lambda>w. (waiterId w, v)) ws"
  using assms
proof (induction ws arbitrary: s)
  case Nil
  then show ?case by simp
next
  case (Cons w ws)
  let ?s = "s\<lparr>resolutions := resolutions s @ [(waiterId w, v)]\<rparr>"
  from Cons.prems have "settle (waiterId w) v s = ?s"
    by (simp add: settle_def)
  moreover have "resolutions (fold (\<lambda>w. settle (waiterId w) v) ws ?s) =
      resolutions ?s @ map (\<lambda>w. (waiterId w, v)) ws"
    using Cons.prems by (intro Cons.IH) (auto simp: image_iff)
  ultimately show ?case by simp
qed

lemma notifyWaiters_log:
  assumes "ids_ok s"
  shows "resolutions (notifyWaiters b h se s) = resolutions s @
     map (\<lambda>w. (waiterId w, map_option cloneSession se))
       (filter (\<lambda>w. \<not> skips b (map_option cloneSession se) w) (waiters_at h s))"
proof -
  have d: "distinct (map waiterId (waiters_at h s))"
    and f: "\<forall>w \<in> set (waiters_at h s). waiterId w \<notin> fst ` set (resolutions s)"
    using assms by (auto simp: ids_ok_def waiting_def resolved_def)
  let ?fire = "filter (\<lambda>w. \<not> skips b (map_option cloneSession se) w) (waiters_at h s)"
  have "resolutions (fold (\<lambda>w. settle (waiterId w) (map_option cloneSession se)) ?fire s) =
      resolutions s @ map (\<lambda>w. (waiterId w, map_option cloneSession se)) ?fire"
    using d f by (intro fold_settle_log) (auto simp: distinct_map_filter)
  then show ?thesis
    by (auto simp: notifyWaiters_def waiters_at_def Let_def split: option.splits)
qed

end
