(* ===== verification/PendingAuthInv.thy ===== *)
theory PendingAuthInv
  imports PendingAuth
begin

text \<open>
  Invariants of the pending-auth store.  Every operation is built from a few
  primitives (notify, remove, settle, delete, add a waiter, replace a record,
  insert a session); the locale \<open>store_invariant\<close> states what those primitives
  owe an invariant, and derives that every public operation, and so every
  reachable store, keeps it.  It is interpreted twice: for the structure of the
  store (indexes, waiters) and for the shape of the session records.
\<close>

section \<open>Shape of a record, steps of the store\<close>

definition record_ok :: "pending_auth_session_record \<Rightarrow> bool" where
  "record_ok r \<longleftrightarrow>
     status r \<in> {Pending, AwaitingConfirmation, Complete, Denied, Error} \<and>
     (tokens r \<noteq> None \<longleftrightarrow> status r = Complete) \<and>
     (user r \<noteq> None \<longleftrightarrow> status r = Complete) \<and>
     (accountStatus r \<noteq> None \<longleftrightarrow> status r = Complete) \<and>
     (stagedTokens r \<noteq> None \<or> stagedUser r \<noteq> None \<or> stagedAccountStatus r \<noteq> None
        \<longrightarrow> status r = AwaitingConfirmation) \<and>
     (errorMessage r \<noteq> None \<longleftrightarrow> status r = Error)"

lemma record_ok_new_session [simp]: "record_ok (new_session ttl now code p)"
  by (simp add: record_ok_def new_session_def)

definition good_transition :: "(pending_auth_session_record \<Rightarrow> session_update option) \<Rightarrow> bool" where
  "good_transition f \<longleftrightarrow> (\<forall>r u. f r = Some u \<longrightarrow> record_ok (apply_update u r))"

inductive auth_step :: "pending_auth_store \<Rightarrow> pending_auth_store \<Rightarrow> bool" where
  create: "createSession ttl now gen victims p s = Inr (se, t) \<Longrightarrow>
     tokenHashesByState s (p_state p) = None \<Longrightarrow> auth_step s t"
| lookup: "auth_step s (snd (getSessionByTokenHash now h s))"
| stage: "auth_step s (snd (stageCompletion tk us ac t1 t2 h s))"
| confirm: "auth_step s (snd (confirmSession t1 t2 h s))"
| deny: "auth_step s (snd (denySession t1 t2 h s))"
| fail: "auth_step s (snd (failSession msg t1 t2 h s))"
| consume: "auth_step s (snd (consumeCompletion now h s))"
| poll: "fresh_waiter w s \<Longrightarrow> auth_step s (snd (waitForStatusChange t1 t2 t3 ab w h tm s))"
| timeout: "waiting h w s \<Longrightarrow> auth_step s (waiterTimeout t1 t2 w h s)"
| abort: "waiting h w s \<Longrightarrow> auth_step s (waiterAbort w h s)"
| sweep: "auth_step s (expireExpiredSessions now order s)"
| release: "set keys = dom (waitersByTokenHash s) \<Longrightarrow> auth_step s (releaseWaiters clk keys s)"

inductive auth_reachable :: "pending_auth_store \<Rightarrow> bool" where
  start: "auth_reachable empty_store"
| step: "auth_reachable s \<Longrightarrow> auth_step s t \<Longrightarrow> auth_reachable t"

section \<open>Reading an entry\<close>

lemma getSession_Some:
  "getSessionByTokenHash now h s = (Some se, s') \<longleftrightarrow>
     s' = s \<and> (\<exists>r. sessions s h = Some r \<and> se = cloneSession r \<and> now < expiresAt r)"
  by (auto simp: getSessionByTokenHash_def getActiveEntry_def split: option.split)

lemma getActive_Some:
  "getActiveEntry now h s = (Some r, s') \<longleftrightarrow> s' = s \<and> sessions s h = Some r \<and> now < expiresAt r"
  by (auto simp: getActiveEntry_def split: option.split)

lemma getActive_None:
  "getActiveEntry now h s = (None, s') \<longleftrightarrow>
     (case sessions s h of None \<Rightarrow> s' = s
      | Some r \<Rightarrow> expiresAt r \<le> now \<and> s' = expireSession h r s)"
  by (auto simp: getActiveEntry_def split: option.split)

lemma waiting_lookup: "waiting h' w (snd (getSessionByTokenHash now h s)) \<Longrightarrow> waiting h' w s"
  by (auto simp: getSessionByTokenHash_def getActiveEntry_def expireSession_def
      dest!: waiting_shrinks split: option.splits if_splits)

lemma idle_lookup [simp]: "idle w s \<Longrightarrow> idle w (snd (getSessionByTokenHash now h s))"
  unfolding idle_def by (blast dest: waiting_lookup)

lemma removeWaiter_only:
  "(\<And>h'. waiting h' w s \<Longrightarrow> h' = h) \<Longrightarrow> idle w (removeWaiter h w s)"
  unfolding idle_def
  by (auto simp: waiting_def waiters_at_remove split: if_splits)

section \<open>The interface of an invariant\<close>

locale store_invariant =
  fixes I :: "pending_auth_store \<Rightarrow> bool"
  assumes ids: "I s \<Longrightarrow> ids_ok s"
    and empty: "I empty_store"
    and notify: "I s \<Longrightarrow> I (notifyWaiters b h se s)"
    and remove: "I s \<Longrightarrow> I (removeWaiter h w s)"
    and settle: "I s \<Longrightarrow> idle w s \<Longrightarrow> I (settle w v s)"
    and delete: "I s \<Longrightarrow> I (cache_delete h s)"
    and add: "I s \<Longrightarrow> fresh_waiter (waiterId x) s \<Longrightarrow> sessions s h \<noteq> None \<Longrightarrow> I (add_waiter h x s)"
    and replace: "I s \<Longrightarrow> sessions s h = Some r \<Longrightarrow> record_ok (apply_update u r) \<Longrightarrow>
        I (s\<lparr>sessions := (sessions s)(h \<mapsto> apply_update u r)\<rparr>)"
    and insert: "I s \<Longrightarrow> record_ok r \<Longrightarrow> tokenHashesByState s (oauthState r) = None \<Longrightarrow>
        tokenHashesByUserCode s (userCode r) = None \<Longrightarrow> I (setSession victims r s)"
    and flag: "I s \<Longrightarrow> I (s\<lparr>released := b'\<rparr>)"
begin

lemma expire: "I s \<Longrightarrow> I (expireSession h r s)"
  by (simp add: expireSession_def notify delete)

lemma active: "I s \<Longrightarrow> I (snd (getActiveEntry now h s))"
  by (simp add: getActiveEntry_def expire split: option.split)

lemma lookup: "I s \<Longrightarrow> I (snd (getSessionByTokenHash now h s))"
  by (simp add: getSessionByTokenHash_def active)

lemma update:
  assumes "I s" and "\<And>r. sessions s h = Some r \<Longrightarrow> record_ok (apply_update u r)"
  shows "I (snd (updateSession now h u s))"
  using assms
  by (auto simp: updateSession_def getActiveEntry_def Let_def expire
      intro!: notify replace split: option.split)

lemma guarded:
  assumes "I s" and "good_transition f"
  shows "I (snd (guarded_update f t1 t2 h s))"
  using assms
  by (auto simp: guarded_update_def getActiveEntry_def good_transition_def expire
      intro!: update split: option.split)

lemma consume: "I s \<Longrightarrow> I (snd (consumeCompletion now h s))"
  using active [of s now h]
  by (auto simp: consumeCompletion_def notify delete split: option.split prod.split)

lemma create:
  assumes "I s" and "createSession ttl now gen victims p s = Inr (se, t)"
    and "tokenHashesByState s (p_state p) = None"
  shows "I t"
proof -
  from assms(2) obtain code where g: "generateUniqueUserCode gen s = Inr code"
    and t: "t = setSession victims (new_session ttl now code p) s"
    by (auto simp: createSession_def Let_def split: sum.splits)
  have "try_user_codes cs s = Inr code \<Longrightarrow> tokenHashesByUserCode s code = None" for cs
    by (induction cs) (auto simp: Let_def split: if_splits)
  with g have "tokenHashesByUserCode s code = None"
    by (simp add: generateUniqueUserCode_def)
  with assms(1,3) t show ?thesis
    by (auto intro!: insert simp: new_session_def [of ttl now code p] record_ok_def)
qed

lemma poll:
  assumes "I s" and "fresh_waiter w s"
  shows "I (snd (waitForStatusChange t1 t2 t3 ab w h tm s))"
proof (cases "getSessionByTokenHash t1 h s")
  case (Pair o1 s')
  have w: "idle w s" using assms(2) by (simp add: fresh_waiter_def)
  have I': "I s'" and w': "idle w s'"
    using lookup [OF assms(1), of t1 h] idle_lookup [OF w, of t1 h] Pair by simp_all
  show ?thesis
  proof (cases o1)
    case None
    with Pair I' w' show ?thesis by (simp add: waitForStatusChange_def settle)
  next
    case (Some se)
    with Pair have s': "s' = s" and live: "sessions s h \<noteq> None"
      by (auto simp: getSession_Some)
    let ?s1 = "add_waiter h \<lparr>waiterId = w, initialStatus = status se\<rparr> s"
    let ?s2 = "snd (getSessionByTokenHash t3 h ?s1)"
    have I2: "I ?s2" using assms live by (intro lookup add) simp_all
    have "waiting h' w ?s2 \<Longrightarrow> h' = h" for h'
      using w waiting_lookup [of h' w t3 h ?s1]
      by (auto simp: idle_def waiting_def waiters_at_add split: if_splits)
    then have "idle w (removeWaiter h w ?s2)" by (rule removeWaiter_only)
    with I2 I' w' Some Pair s' show ?thesis
      by (auto simp: waitForStatusChange_def Let_def settle remove split: prod.split option.split)
  qed
qed

lemma leave:
  assumes "I s" and "waiting h w s"
  shows "I (removeWaiter h w s)" and "idle w (removeWaiter h w s)"
  using assms remove ids removeWaiter_idle by blast+

lemma timeout:
  assumes "I s" and "waiting h w s"
  shows "I (waiterTimeout t1 t2 w h s)"
proof -
  have "I (settle w v (snd (getSessionByTokenHash t2 h (removeWaiter h w s))))" for v
    using leave [OF assms] by (simp add: lookup settle)
  moreover have "I (settle w v (expireSession h r (removeWaiter h w s)))" for v r
    using leave [OF assms] by (simp add: expire settle)
  ultimately show ?thesis
    by (simp add: waiterTimeout_def Let_def split_def split: option.split)
qed

lemma abort: "I s \<Longrightarrow> waiting h w s \<Longrightarrow> I (waiterAbort w h s)"
  by (simp add: waiterAbort_def leave settle)

lemma fold_keeps: "(\<And>x s. I s \<Longrightarrow> I (f x s)) \<Longrightarrow> I s \<Longrightarrow> I (fold f xs s)"
  by (induction xs arbitrary: s) simp_all

lemma sweep: "I s \<Longrightarrow> I (expireExpiredSessions now order s)"
  unfolding expireExpiredSessions_def
  by (rule fold_keeps) (simp_all add: sweepKey_def expire split: option.split)

lemma release_key: "I s \<Longrightarrow> I (releaseKey clk h s)"
  using active [of s "clk h" h]
  by (cases "getActiveEntry (clk h) h s") (simp add: releaseKey_def notify split: option.split)

lemma release: "I s \<Longrightarrow> I (releaseWaiters clk keys s)"
  by (simp add: releaseWaiters_def fold_keeps release_key flag)

lemmas transitions = good_transition_def record_ok_def apply_update_def blank_update_def settled_def

lemma stage: "I s \<Longrightarrow> I (snd (stageCompletion tk us ac t1 t2 h s))"
  unfolding stageCompletion_def by (rule guarded) (auto simp: transitions)

lemma confirm: "I s \<Longrightarrow> I (snd (confirmSession t1 t2 h s))"
  unfolding confirmSession_def by (rule guarded) (auto simp: transitions split: if_splits)

lemma deny: "I s \<Longrightarrow> I (snd (denySession t1 t2 h s))"
  unfolding denySession_def by (rule guarded) (auto simp: transitions)

lemma fail: "I s \<Longrightarrow> I (snd (failSession msg t1 t2 h s))"
  unfolding failSession_def by (rule guarded) (auto simp: transitions)

lemma seams:
  "I s \<Longrightarrow> I (snd (markAwaitingConfirmation t1 t2 h s))"
  "I s \<Longrightarrow> I (snd (completeSession tk us ac t1 t2 h s))"
  unfolding markAwaitingConfirmation_def completeSession_def
  by (rule guarded; auto simp: transitions)+

lemma step: "auth_step s t \<Longrightarrow> I s \<Longrightarrow> I t"
  by (induction rule: auth_step.induct)
    (auto intro: create lookup stage confirm deny fail consume poll timeout abort sweep release)

lemma always: "auth_reachable s \<Longrightarrow> I s"
  by (induction rule: auth_reachable.induct) (auto intro: empty step)

end

section \<open>Promises: the primitives keep them apart\<close>

lemma ids_okD:
  assumes "ids_ok s"
  shows "distinct (map waiterId (waiters_at h s))"
    and "waiting h w s \<Longrightarrow> w \<notin> resolved s"
    and "waiting h w s \<Longrightarrow> waiting h' w s \<Longrightarrow> h = h'"
    and "distinct (map fst (resolutions s))"
  using assms unfolding ids_ok_def by blast+

lemma ids_ok_shrink:
  assumes "ids_ok s"
    and "\<And>h. distinct (map waiterId (waiters_at h t))"
    and "\<And>h w. waiting h w t \<Longrightarrow> waiting h w s \<and> w \<notin> resolved t"
    and "distinct (map fst (resolutions t))"
  shows "ids_ok t"
  using assms unfolding ids_ok_def by meson

lemma ids_ok_notify:
  assumes ok: "ids_ok s"
  shows "ids_ok (notifyWaiters b h se s)"
proof (rule ids_ok_shrink [OF ok])
  let ?t = "notifyWaiters b h se s" and ?nx = "map_option cloneSession se"
  let ?fire = "filter (\<lambda>w. \<not> skips b ?nx w) (waiters_at h s)"
  have res: "resolved ?t = resolved s \<union> waiterId ` set ?fire"
    by (simp add: resolved_def notifyWaiters_log [OF ok] image_Un image_image)
  show "distinct (map waiterId (waiters_at h' ?t))" for h'
    using ids_okD(1) [OF ok] by (simp add: waiters_at_notify distinct_map_filter)
  have fire: "set (map waiterId ?fire) \<inter> resolved s = {}"
    using ids_okD(2) [OF ok, of h] by (auto simp: waiting_def)
  have d: "distinct (map waiterId ?fire)"
    using ids_okD(1) [OF ok, of h] by (simp add: distinct_map_filter)
  have "map fst (resolutions ?t) = map fst (resolutions s) @ map waiterId ?fire"
    by (simp add: notifyWaiters_log [OF ok])
  with ids_okD(4) [OF ok] d fire show "distinct (map fst (resolutions ?t))"
    by (auto simp: resolved_def)
  fix h' w assume w: "waiting h' w ?t"
  then have ws: "waiting h' w s" by (rule waiting_shrinks)
  have "w \<notin> waiterId ` set ?fire"
  proof
    assume "w \<in> waiterId ` set ?fire"
    then have "waiting h w s" by (auto simp: waiting_def)
    with ws have "h' = h" using ids_okD(3) [OF ok] by blast
    with w \<open>w \<in> waiterId ` set ?fire\<close> ids_okD(1) [OF ok, of h] show False
      by (auto simp: waiting_def waiters_at_notify distinct_map inj_on_def)
  qed
  with res ws ids_okD(2) [OF ok ws] show "waiting h' w s \<and> w \<notin> resolved ?t" by blast
qed

lemma ids_ok_other [simp]:
  "ids_ok (s\<lparr>sessions := m\<rparr>) = ids_ok s"
  "ids_ok (s\<lparr>tokenHashesByState := i\<rparr>) = ids_ok s"
  "ids_ok (s\<lparr>tokenHashesByUserCode := j\<rparr>) = ids_ok s"
  "ids_ok (s\<lparr>released := b\<rparr>) = ids_ok s"
  by (simp_all add: ids_ok_def waiting_def resolved_def)

lemma ids_ok_remove: "ids_ok s \<Longrightarrow> ids_ok (removeWaiter h w s)"
proof (rule ids_ok_shrink [of s])
  assume ok: "ids_ok s"
  show "distinct (map waiterId (waiters_at h' (removeWaiter h w s)))" for h'
    using ids_okD(1) [OF ok] by (simp add: waiters_at_remove distinct_map_filter)
  show "distinct (map fst (resolutions (removeWaiter h w s)))"
    using ids_okD(4) [OF ok] by simp
  fix h' x assume "waiting h' x (removeWaiter h w s)"
  then have "waiting h' x s" by (rule waiting_shrinks)
  with ids_okD(2) [OF ok] show "waiting h' x s \<and> x \<notin> resolved (removeWaiter h w s)"
    by (simp add: resolved_def)
qed

lemma ids_ok_settle: "ids_ok s \<Longrightarrow> idle w s \<Longrightarrow> ids_ok (settle w v s)"
  by (auto simp: ids_ok_def waiting_def idle_def settle_def resolved_def waiters_at_def)

lemma ids_ok_delete: "ids_ok s \<Longrightarrow> ids_ok (cache_delete h s)"
  by (auto simp: cache_delete_def dispose_def intro!: ids_ok_notify split: option.split)

lemma waiting_add: "waiting h' w (add_waiter h x s) \<longleftrightarrow> (h' = h \<and> w = waiterId x) \<or> waiting h' w s"
  by (auto simp: waiting_def waiters_at_add)

lemma ids_ok_add:
  assumes ok: "ids_ok s" and fresh: "fresh_waiter (waiterId x) s"
  shows "ids_ok (add_waiter h x s)"
proof -
  have "waiterId x \<notin> set (map waiterId (waiters_at h s))" "waiterId x \<notin> resolved s"
    using fresh by (auto simp: fresh_waiter_def idle_def waiting_def)
  moreover have "\<not> waiting h' (waiterId x) s" for h'
    using fresh by (simp add: fresh_waiter_def idle_def)
  ultimately show ?thesis
    using ids_okD [OF ok]
    unfolding ids_ok_def by (auto simp: waiters_at_add waiting_add resolved_def)
qed

lemma fold_cache_delete_keeps:
  assumes "P s" and "\<And>h s. P s \<Longrightarrow> P (cache_delete h s)"
  shows "P (fold cache_delete victims s)"
  using assms(1) by (induction victims arbitrary: s) (simp_all add: assms(2))

lemma ids_ok_insert: "ids_ok s \<Longrightarrow> ids_ok (setSession victims r s)"
  using ids_ok_delete
  by (auto simp: setSession_def Let_def intro: fold_cache_delete_keeps [where P = ids_ok]
      split: option.split)

lemma ids_ok_empty: "ids_ok empty_store"
  by (simp add: ids_ok_def empty_store_def waiting_def waiters_at_def resolved_def)

lemmas ids_ok_steps = ids_ok_empty ids_ok_notify ids_ok_remove ids_ok_settle ids_ok_delete
  ids_ok_add ids_ok_insert

section \<open>Records keep their shape\<close>

definition shape_inv :: "pending_auth_store \<Rightarrow> bool" where
  "shape_inv s \<longleftrightarrow> ids_ok s \<and> (\<forall>h r. sessions s h = Some r \<longrightarrow> record_ok r)"

lemma sessions_fold_delete:
  "sessions (fold cache_delete victims s) h = (if h \<in> set victims then None else sessions s h)"
  by (induction victims arbitrary: s) auto

lemma sessions_setSession:
  "sessions (setSession victims r s) h =
     (if h = tokenHash r then Some r else if h \<in> set victims then None else sessions s h)"
  by (simp add: setSession_def Let_def sessions_fold_delete split: option.split)

interpretation shape: store_invariant shape_inv
  by unfold_locales
    (auto simp: shape_inv_def ids_ok_steps ids_ok_empty [unfolded empty_store_def]
      sessions_setSession empty_store_def split: if_splits)

section \<open>Indexes and waiters follow the table\<close>

definition index_ok :: "pending_auth_store \<Rightarrow> bool" where
  "index_ok s \<longleftrightarrow>
     (\<forall>h r. sessions s h = Some r \<longrightarrow> tokenHash r = h) \<and>
     injective_index oauthState (sessions s) (tokenHashesByState s) \<and>
     injective_index userCode (sessions s) (tokenHashesByUserCode s)"

definition live_waiters :: "pending_auth_store \<Rightarrow> bool" where
  "live_waiters s \<longleftrightarrow> (\<forall>h. waitersByTokenHash s h \<noteq> None \<longrightarrow> sessions s h \<noteq> None) \<and>
     (\<forall>h. waitersByTokenHash s h \<noteq> Some [])"

definition structure_inv :: "pending_auth_store \<Rightarrow> bool" where
  "structure_inv s \<longleftrightarrow> ids_ok s \<and> index_ok s \<and> live_waiters s"

lemma index_ok_frame:
  "sessions t = sessions s \<Longrightarrow> tokenHashesByState t = tokenHashesByState s \<Longrightarrow>
   tokenHashesByUserCode t = tokenHashesByUserCode s \<Longrightarrow> index_ok t = index_ok s"
  by (simp add: index_ok_def)

lemma cache_delete_indexes:
  "tokenHashesByState (cache_delete h s) = (case sessions s h of None \<Rightarrow> tokenHashesByState s
     | Some r \<Rightarrow> (tokenHashesByState s)(oauthState r := None))"
  "tokenHashesByUserCode (cache_delete h s) = (case sessions s h of None \<Rightarrow> tokenHashesByUserCode s
     | Some r \<Rightarrow> (tokenHashesByUserCode s)(userCode r := None))"
  by (simp_all add: cache_delete_def dispose_def split: option.split)

lemma cache_delete_waiters:
  "waitersByTokenHash (cache_delete h s) = (case sessions s h of None \<Rightarrow> waitersByTokenHash s
     | Some r \<Rightarrow> (waitersByTokenHash s)(tokenHash r := None))"
  by (simp add: cache_delete_def dispose_def split: option.split)

lemma index_ok_delete: "index_ok s \<Longrightarrow> index_ok (cache_delete h s)"
  by (cases "sessions s h")
    (auto simp: index_ok_def cache_delete_indexes fun_upd_idem intro: injective_index_delete
      split: if_splits)

lemma live_waiters_delete: "index_ok s \<Longrightarrow> live_waiters s \<Longrightarrow> live_waiters (cache_delete h s)"
  by (cases "sessions s h")
    (auto simp: index_ok_def live_waiters_def cache_delete_waiters fun_upd_idem)

lemma live_waiters_notify: "live_waiters s \<Longrightarrow> live_waiters (notifyWaiters b h se s)"
  by (auto simp: live_waiters_def notifyWaiters_waiters Let_def split: option.split)

lemma live_waiters_remove: "live_waiters s \<Longrightarrow> live_waiters (removeWaiter h w s)"
  by (auto simp: live_waiters_def removeWaiter_waiters Let_def split: option.split)

lemma live_waiters_add:
  "live_waiters s \<Longrightarrow> sessions s h \<noteq> None \<Longrightarrow> live_waiters (add_waiter h x s)"
  by (auto simp: live_waiters_def add_waiter_def)

lemma live_waiters_settle [simp]: "live_waiters (settle w v s) = live_waiters s"
  by (simp add: live_waiters_def)

text \<open>
  \<open>setSession\<close> first frees the keys of the session it replaces and of the
  victims, then enters the new keys: with both keys fresh the order in which the
  code writes the indexes does not matter.
\<close>

definition ahead :: "pending_auth_session_record \<Rightarrow> pending_auth_store \<Rightarrow> pending_auth_store \<Rightarrow> bool" where
  \<comment> \<open>\<open>a\<close> has the keys of \<open>r\<close> entered already, \<open>b\<close> is the store before that\<close>
  "ahead r a b \<longleftrightarrow> index_ok b \<and>
     tokenHashesByState b (oauthState r) = None \<and> tokenHashesByUserCode b (userCode r) = None \<and>
     sessions b = (sessions a)(tokenHash r := None) \<and>
     tokenHashesByState a = (tokenHashesByState b)(oauthState r \<mapsto> tokenHash r) \<and>
     tokenHashesByUserCode a = (tokenHashesByUserCode b)(userCode r \<mapsto> tokenHash r) \<and>
     (\<forall>old. sessions a (tokenHash r) = Some old \<longrightarrow>
        tokenHashesByState b (oauthState old) = None \<and> oauthState old \<noteq> oauthState r \<and>
        tokenHashesByUserCode b (userCode old) = None \<and> userCode old \<noteq> userCode r)"

lemma aheadD:
  assumes "ahead r a b"
  shows "index_ok b" and "tokenHashesByState b (oauthState r) = None"
    and "tokenHashesByUserCode b (userCode r) = None"
    and "sessions b = (sessions a)(tokenHash r := None)"
    and "tokenHashesByState a = (tokenHashesByState b)(oauthState r \<mapsto> tokenHash r)"
    and "tokenHashesByUserCode a = (tokenHashesByUserCode b)(userCode r \<mapsto> tokenHash r)"
  using assms by (simp_all add: ahead_def)

lemma ahead_old:
  assumes "ahead r a b" and "sessions a (tokenHash r) = Some old"
  shows "tokenHashesByState b (oauthState old) = None" "oauthState old \<noteq> oauthState r"
    "tokenHashesByUserCode b (userCode old) = None" "userCode old \<noteq> userCode r"
  using assms by (simp_all add: ahead_def)

lemma upd_absent: "m x = None \<Longrightarrow> x \<noteq> k \<Longrightarrow> (m(k \<mapsto> y))(x := None) = m(k \<mapsto> y)"
  by (simp add: fun_upd_idem)

lemma ahead_delete:
  assumes R: "ahead r a b"
  shows "ahead r (cache_delete v a) (cache_delete v b)"
proof (cases "sessions a v")
  case None
  then have "sessions b v = None" using aheadD(4) [OF R] by simp
  with None have "cache_delete v a = a" "cache_delete v b = b"
    by (simp_all add: cache_delete_def)
  with R show ?thesis by simp
next
  case (Some q)
  note D = aheadD [OF R]
  have ok: "index_ok (cache_delete v b)" using D(1) by (rule index_ok_delete)
  show ?thesis
  proof (cases "v = tokenHash r")
    case True
    then have old: "sessions a (tokenHash r) = Some q" and none: "sessions b v = None"
      using Some D(4) by simp_all
    then have "cache_delete v b = b" by (simp add: cache_delete_def)
    moreover have "tokenHashesByState (cache_delete v a) = tokenHashesByState a"
      "tokenHashesByUserCode (cache_delete v a) = tokenHashesByUserCode a"
      using ahead_old [OF R old] Some by (simp_all add: cache_delete_indexes D(5,6) upd_absent)
    ultimately show ?thesis using D True by (simp add: ahead_def)
  next
    case False
    then have q: "sessions b v = Some q" using Some D(4) by simp
    then have "tokenHashesByState b (oauthState q) = Some v" "tokenHashesByUserCode b (userCode q) = Some v"
      using D(1) by (auto simp: index_ok_def dest: injective_index_lookup)
    then have "oauthState q \<noteq> oauthState r" "userCode q \<noteq> userCode r" using D(2,3) by auto
    then have "tokenHashesByState (cache_delete v a) =
        (tokenHashesByState (cache_delete v b))(oauthState r \<mapsto> tokenHash r)"
      "tokenHashesByUserCode (cache_delete v a) =
        (tokenHashesByUserCode (cache_delete v b))(userCode r \<mapsto> tokenHash r)"
      using Some q by (simp_all add: cache_delete_indexes D(5,6) fun_upd_twist)
    moreover have "sessions (cache_delete v b) = (sessions (cache_delete v a))(tokenHash r := None)"
      using False by (simp add: D(4) fun_upd_twist)
    ultimately show ?thesis
      using ok False D(2,3) ahead_old [OF R] q by (simp add: ahead_def cache_delete_indexes)
  qed
qed

lemma ahead_insert:
  assumes R: "ahead r a b"
  shows "index_ok (a\<lparr>sessions := (sessions a)(tokenHash r \<mapsto> r)\<rparr>)"
proof -
  note D = aheadD [OF R]
  have b: "sessions b (tokenHash r) = None" using D(4) by simp
  have eq: "(sessions a)(tokenHash r \<mapsto> r) = (sessions b)(tokenHash r \<mapsto> r)" using D(4) by simp
  have "injective_index oauthState ((sessions b)(tokenHash r \<mapsto> r)) (tokenHashesByState a)"
    unfolding D(5) using D(1,2) b by (intro injective_index_insert) (simp_all add: index_ok_def)
  moreover have "injective_index userCode ((sessions b)(tokenHash r \<mapsto> r)) (tokenHashesByUserCode a)"
    unfolding D(6) using D(1,3) b by (intro injective_index_insert) (simp_all add: index_ok_def)
  ultimately show ?thesis using D(1) by (simp add: index_ok_def eq)
qed

lemma index_ok_insert:
  assumes "index_ok s" and "tokenHashesByState s (oauthState r) = None"
    and "tokenHashesByUserCode s (userCode r) = None"
  shows "index_ok (setSession victims r s)"
proof -
  let ?b = "cache_delete (tokenHash r) s"
  have fold: "ahead r (fold cache_delete victims a) (fold cache_delete victims b)"
    if "ahead r a b" for a b
    using that by (induction victims arbitrary: a b) (simp_all add: ahead_delete)
  have ok: "index_ok ?b" using assms(1) by (rule index_ok_delete)
  show ?thesis
  proof (cases "sessions s (tokenHash r)")
    case None
    with assms ok show ?thesis
      unfolding setSession_def Let_def
      by (intro ahead_insert [OF fold [of _ ?b]]) (auto simp: ahead_def cache_delete_def fun_upd_idem)
  next
    case (Some old)
    then have "oauthState old \<noteq> oauthState r" "userCode old \<noteq> userCode r"
      using assms by (auto simp: index_ok_def dest!: injective_index_lookup)
    with Some assms ok show ?thesis
      unfolding setSession_def Let_def
      by (intro ahead_insert [OF fold [of _ ?b]]) (auto simp: ahead_def cache_delete_indexes)
  qed
qed

lemma live_waiters_insert:
  assumes "index_ok s" and "live_waiters s"
  shows "live_waiters (setSession victims r s)"
proof -
  have fold: "live_waiters (fold cache_delete victims a)"
    if "live_waiters a" and "\<forall>h q. sessions a h = Some q \<longrightarrow> tokenHash q = h" for a
    using that
  proof (induction victims arbitrary: a)
    case (Cons v vs)
    have "live_waiters (cache_delete v a)"
      using Cons.prems by (cases "sessions a v") (auto simp: live_waiters_def cache_delete_waiters)
    with Cons show ?case by simp
  qed simp
  show ?thesis
  proof (cases "sessions s (tokenHash r)")
    case None
    have "live_waiters (fold cache_delete victims
        (s\<lparr>tokenHashesByState := i, tokenHashesByUserCode := j\<rparr>))" for i j
      using assms by (intro fold) (auto simp: index_ok_def live_waiters_def)
    then show ?thesis
      by (auto simp: setSession_def Let_def None live_waiters_def)
  next
    case (Some old)
    have "live_waiters (fold cache_delete victims
        (s\<lparr>tokenHashesByState := i, tokenHashesByUserCode := j\<rparr>))" for i j
      using assms by (intro fold) (auto simp: index_ok_def live_waiters_def)
    then show ?thesis
      by (auto simp: setSession_def Let_def Some live_waiters_def)
  qed
qed

lemma index_ok_replace:
  assumes "index_ok s" and "sessions s h = Some r"
  shows "index_ok (s\<lparr>sessions := (sessions s)(h \<mapsto> apply_update u r)\<rparr>)"
  using assms unfolding index_ok_def
  by (auto intro!: injective_index_update simp: apply_update_def)

lemma live_waiters_replace:
  "live_waiters s \<Longrightarrow> live_waiters (s\<lparr>sessions := (sessions s)(h \<mapsto> r)\<rparr>)"
  by (auto simp: live_waiters_def)

lemma structure_empty: "structure_inv empty_store"
  using ids_ok_empty by (simp add: structure_inv_def index_ok_def live_waiters_def empty_store_def)

lemmas table_frames = index_ok_frame [of "_\<lparr>released := _\<rparr>"]
  index_ok_frame [of "settle _ _ _"] index_ok_frame [of "notifyWaiters _ _ _ _"]
  index_ok_frame [of "removeWaiter _ _ _"] index_ok_frame [of "add_waiter _ _ _"]

interpretation table: store_invariant structure_inv
proof unfold_locales
  show "structure_inv empty_store" by (rule structure_empty)
  show "structure_inv s \<Longrightarrow> ids_ok s" for s by (simp add: structure_inv_def)
  show "structure_inv s \<Longrightarrow> structure_inv (notifyWaiters b h se s)" for s b h se
    by (simp add: structure_inv_def ids_ok_notify live_waiters_notify table_frames)
  show "structure_inv s \<Longrightarrow> structure_inv (removeWaiter h w s)" for s h w
    by (simp add: structure_inv_def ids_ok_remove live_waiters_remove table_frames)
  show "structure_inv s \<Longrightarrow> idle w s \<Longrightarrow> structure_inv (settle w v s)" for s w v
    by (simp add: structure_inv_def ids_ok_settle table_frames)
  show "structure_inv s \<Longrightarrow> structure_inv (cache_delete h s)" for s h
    by (simp add: structure_inv_def ids_ok_delete index_ok_delete live_waiters_delete)
  show "structure_inv s \<Longrightarrow> fresh_waiter (waiterId x) s \<Longrightarrow> sessions s h \<noteq> None \<Longrightarrow>
      structure_inv (add_waiter h x s)" for s x h
    by (simp add: structure_inv_def ids_ok_add live_waiters_add table_frames)
  show "structure_inv s \<Longrightarrow> sessions s h = Some r \<Longrightarrow>
      structure_inv (s\<lparr>sessions := (sessions s)(h \<mapsto> apply_update u r)\<rparr>)" for s h r u
    by (simp add: structure_inv_def index_ok_replace live_waiters_replace)
  show "structure_inv s \<Longrightarrow> tokenHashesByState s (oauthState r) = None \<Longrightarrow>
      tokenHashesByUserCode s (userCode r) = None \<Longrightarrow> structure_inv (setSession victims r s)"
    for s r victims
    by (simp add: structure_inv_def ids_ok_insert index_ok_insert live_waiters_insert)
  show "structure_inv s \<Longrightarrow> structure_inv (s\<lparr>released := b'\<rparr>)" for s b'
    by (simp add: structure_inv_def table_frames live_waiters_def)
qed

section \<open>The state machine of a session\<close>

inductive session_move :: "pending_auth_session_record \<Rightarrow> pending_auth_session_record \<Rightarrow> bool" where
  move_stage: "status r \<in> {Pending, AwaitingConfirmation} \<Longrightarrow>
     session_move r (r\<lparr>status := AwaitingConfirmation, stagedTokens := Some tk, stagedUser := Some us,
       stagedAccountStatus := Some ac, tokens := None, user := None, accountStatus := None,
       errorMessage := None\<rparr>)"
| move_confirm: "status r = AwaitingConfirmation \<Longrightarrow> stagedTokens r = Some tk \<Longrightarrow>
     stagedUser r = Some us \<Longrightarrow> stagedAccountStatus r = Some ac \<Longrightarrow>
     session_move r (r\<lparr>status := Complete, stagedTokens := None, stagedUser := None,
       stagedAccountStatus := None, tokens := Some tk, user := Some us, accountStatus := Some ac,
       errorMessage := None\<rparr>)"
| move_deny: "status r \<in> {Pending, AwaitingConfirmation} \<Longrightarrow> session_move r (wipe Denied r)"
| move_fail: "status r \<in> {Pending, AwaitingConfirmation} \<Longrightarrow>
     session_move r ((wipe Error r)\<lparr>errorMessage := Some msg\<rparr>)"

inductive_cases session_move_from: "session_move r r'"

definition newly_created :: "pending_auth_session_record \<Rightarrow> bool" where
  "newly_created r \<longleftrightarrow> (\<exists>ttl now code p. r = new_session ttl now code p)"

definition follows :: "pending_auth_session_record option \<Rightarrow> pending_auth_session_record \<Rightarrow> bool" where
  "follows old r' \<longleftrightarrow> newly_created r' \<or>
     (\<exists>r. old = Some r \<and> (r' = r \<or> session_move r r'))"

definition evolves :: "pending_auth_store \<Rightarrow> pending_auth_store \<Rightarrow> bool" where
  "evolves s t \<longleftrightarrow> (\<forall>h r'. sessions t h = Some r' \<longrightarrow> follows (sessions s h) r')"

lemma evolves_shrink:
  "(\<And>h r. sessions t h = Some r \<Longrightarrow> sessions s h = Some r) \<Longrightarrow> evolves s t"
  by (simp add: evolves_def follows_def)

lemma sessions_expire [simp]: "sessions (expireSession h r s) = (sessions s)(h := None)"
  by (simp add: expireSession_def)

lemma sessions_active:
  "sessions (snd (getActiveEntry now h s)) h' = Some r \<Longrightarrow> sessions s h' = Some r"
  by (auto simp: getActiveEntry_def split: option.splits if_splits)

lemma sessions_lookup:
  "sessions (snd (getSessionByTokenHash now h s)) h' = Some r \<Longrightarrow> sessions s h' = Some r"
  by (auto simp: getSessionByTokenHash_def dest: sessions_active)

lemma evolves_guarded:
  assumes "\<And>r u. record_ok r \<Longrightarrow> f r = Some u \<Longrightarrow> session_move r (apply_update u r)"
    and "shape_inv s"
  shows "evolves s (snd (guarded_update f t1 t2 h s))"
proof -
  have "sessions s h = Some r \<Longrightarrow> record_ok r" for r
    using assms(2) by (simp add: shape_inv_def)
  then show ?thesis
    using assms(1)
    by (auto simp: evolves_def follows_def guarded_update_def getActiveEntry_def updateSession_def
        Let_def split: option.splits if_splits)
qed

lemma sessions_poll:
  assumes "sessions (snd (waitForStatusChange t1 t2 t3 ab w h tm s)) h' = Some r"
  shows "sessions s h' = Some r"
proof (cases "getSessionByTokenHash t1 h s")
  case (Pair o1 s')
  have 1: "sessions s' h' = Some r \<Longrightarrow> sessions s h' = Some r"
    using sessions_lookup [of t1 h s h' r] Pair by simp
  have 2: "sessions (snd (getSessionByTokenHash t3 h (add_waiter h x s'))) h' = Some r
      \<Longrightarrow> sessions s' h' = Some r" for x
    using sessions_lookup [of t3 h "add_waiter h x s'" h' r] by simp
  from assms Pair have "sessions s' h' = Some r"
    by (auto simp: waitForStatusChange_def Let_def split_def dest!: 2 split: option.splits if_splits)
  then show ?thesis by (rule 1)
qed

lemma sessions_timeout:
  "sessions (waiterTimeout t1 t2 w h s) h' = Some r \<Longrightarrow> sessions s h' = Some r"
  using sessions_lookup [of t2 h "removeWaiter h w s" h' r]
  by (auto simp: waiterTimeout_def Let_def split_def split: option.splits if_splits)

lemma sessions_fold:
  assumes "\<And>x s. sessions (f x s) h' = Some r \<Longrightarrow> sessions s h' = Some r"
  shows "sessions (fold f xs s) h' = Some r \<Longrightarrow> sessions s h' = Some r"
  by (induction xs arbitrary: s) (auto dest: assms)

lemma sessions_sweep:
  "sessions (expireExpiredSessions now order s) h' = Some r \<Longrightarrow> sessions s h' = Some r"
  unfolding expireExpiredSessions_def
  by (erule sessions_fold [rotated]) (auto simp: sweepKey_def split: option.splits if_splits)

lemma sessions_release:
  assumes "sessions (releaseWaiters clk keys s) h' = Some r"
  shows "sessions s h' = Some r"
proof -
  have "sessions (releaseKey clk h s) h' = Some r \<Longrightarrow> sessions s h' = Some r" for h s
    using sessions_active [of "clk h" h s h' r]
    by (auto simp: releaseKey_def split_def split: option.splits)
  from sessions_fold [OF this] assms show ?thesis
    by (fastforce simp: releaseWaiters_def split: if_splits)
qed

lemma sessions_consume:
  "sessions (snd (consumeCompletion now h s)) h' = Some r \<Longrightarrow> sessions s h' = Some r"
  using sessions_active [of now h s h' r]
  by (auto simp: consumeCompletion_def split: option.splits prod.splits if_splits)

lemma evolves_create:
  assumes "createSession ttl now gen victims p s = Inr (se, t)"
  shows "evolves s t"
  using assms
  unfolding evolves_def follows_def newly_created_def
  by (fastforce simp: createSession_def Let_def sessions_setSession split: sum.splits if_splits)

lemmas move_simps = apply_update_def blank_update_def settled_def wipe_def

lemma auth_step_evolves:
  assumes "auth_step s t" and "shape_inv s"
  shows "evolves s t"
  using assms
proof (induction rule: auth_step.induct)
  case (stage s tk us ac t1 t2 h)
  show ?case unfolding stageCompletion_def
    by (rule evolves_guarded [OF _ stage])
      (auto simp: move_simps record_ok_def split: if_splits
        intro!: session_move.move_stage [unfolded wipe_def])
next
  case (confirm s t1 t2 h)
  show ?case unfolding confirmSession_def
    by (rule evolves_guarded [OF _ confirm])
      (auto simp: move_simps split: if_splits intro: session_move.move_confirm)
next
  case (deny s t1 t2 h)
  show ?case unfolding denySession_def
  proof (rule evolves_guarded [OF _ deny])
    fix r u assume "record_ok r" "(if settled (status r) then None else Some (blank_update Denied)) = Some u"
    then show "session_move r (apply_update u r)"
      using session_move.move_deny [of r] by (auto simp: move_simps record_ok_def split: if_splits)
  qed
next
  case (fail s msg t1 t2 h)
  show ?case unfolding failSession_def
  proof (rule evolves_guarded [OF _ fail])
    fix r u assume "record_ok r"
      "(if settled (status r) then None else Some ((blank_update Error)\<lparr>u_errorMessage := Some msg\<rparr>)) = Some u"
    then show "session_move r (apply_update u r)"
      using session_move.move_fail [of r msg] by (auto simp: move_simps record_ok_def split: if_splits)
  qed
qed (auto intro: evolves_create evolves_shrink sessions_lookup sessions_consume sessions_poll
    sessions_timeout sessions_sweep sessions_release simp: waiterAbort_def)

end
