(* ===== verification/OAuthFlow.thy ===== *)
theory OAuthFlow
  imports PendingAuthInv
begin

text \<open>
  The HTTP handlers of the anti-phishing sign-in:
  \<open>src/routes/auth/init.ts\<close> (parsing, creating the pending session),
  \<open>src/routes/auth/provider-callback.ts\<close> (the provider redirect, the
  confirmation form, the pages) and \<open>src/routes/auth/session-status.ts\<close> (the
  long poll and its acknowledgement).  A handler that awaits is split at the
  \<open>await\<close>, so that other requests may run in between.  Random bytes, SHA-256,
  base64url, the clock, the state of the client's connection and the outcome of
  the code exchange are arguments.  A page is modelled by its status, its kind
  and the text that is interpolated into it; the fixed markup around that text
  is not.
\<close>

section \<open>Request values\<close>

datatype 'a raw = Undefined | Str "'a list" | NotString

datatype header = NoHeader | One string | Many "string list"

datatype http_error = BadRequest | Unauthenticated | NotFound | BadGateway

definition hex64 :: "string \<Rightarrow> bool" where
  "hex64 s = (length s = 64 \<and> list_all hex_digit s)"

definition parseSessionTokenHeader :: "header \<Rightarrow> http_error + string" where
  "parseSessionTokenHeader v =
     (let token = (case v of NoHeader \<Rightarrow> None | One s \<Rightarrow> Some s
                   | Many ss \<Rightarrow> (case ss of [] \<Rightarrow> None | s # _ \<Rightarrow> Some s)) in
      case token of
        None \<Rightarrow> Inl BadRequest
      | Some s \<Rightarrow> if s = [] \<or> \<not> hex64 s then Inl BadRequest else Inr (map toLower s))"

section \<open>Starting a sign-in\<close>

definition createPendingOAuthInit ::
  "(string \<Rightarrow> string) \<Rightarrow> (string \<Rightarrow> string) \<Rightarrow> millis \<Rightarrow> millis \<Rightarrow> (nat \<Rightarrow> string) \<Rightarrow> string list
   \<Rightarrow> string \<Rightarrow> string \<Rightarrow> oauth_provider \<Rightarrow> string \<Rightarrow> oauth_client_type option \<Rightarrow> device_info option
   \<Rightarrow> pending_auth_store \<Rightarrow> store_error + (pending_auth_session \<times> string) \<times> pending_auth_store" where
  \<comment> \<open>\<open>hash\<close> is \<open>PendingAuthStore.hashToken\<close>, \<open>challenge\<close> the base64url SHA-256 of the verifier\<close>
  "createPendingOAuthInit hash challenge ttl now gen victims verifier st prov sessionToken ct dev s =
     (case createSession ttl now gen victims
             \<lparr>p_tokenHash = hash sessionToken, p_provider = prov, p_pkceVerifier = verifier,
              p_state = st, p_clientType = ct, p_device = dev\<rparr> s of
        Inl e \<Rightarrow> Inl e
      | Inr (se, s') \<Rightarrow> Inr ((se, challenge verifier), s'))"

record oauth_pending_init_reply =
  ir_authUrl :: string
  ir_state :: string
  ir_userCode :: string
  ir_expiresIn :: int

definition createOAuthPendingInitReply ::
  "millis \<Rightarrow> string \<Rightarrow> pending_auth_session \<Rightarrow> oauth_pending_init_reply" where
  "createOAuthPendingInitReply now authUrl se =
     \<lparr>ir_authUrl = authUrl, ir_state = oauthState se, ir_userCode = userCode se,
      ir_expiresIn = max 0 (- ((- (expiresAt se - now)) div 1000))\<rparr>"

fun provider_name :: "oauth_provider \<Rightarrow> string" where
  "provider_name Github = ''github''"
| "provider_name Google = ''google''"
| "provider_name Apple = ''apple''"

definition getProviderCallbackPath :: "string \<Rightarrow> oauth_provider \<Rightarrow> string" where
  \<comment> \<open>the pathname of \<open>getProviderCallbackRedirectUri\<close>: trailing slashes of the base path go\<close>
  "getProviderCallbackPath pathname prov =
     rev (dropWhile (\<lambda>c. c = CHR ''/'') (rev pathname)) @ ''/auth/'' @ provider_name prov @ ''/callback''"

section \<open>Text on a page\<close>

definition replaceAll :: "nat \<Rightarrow> utext \<Rightarrow> utext \<Rightarrow> utext" where
  "replaceAll c r s = concat (map (\<lambda>x. if x = c then r else [x]) s)"

definition escapeHtml :: "utext \<Rightarrow> utext" where
  "escapeHtml value =
     replaceAll 39 (utf ''&#39;'')
       (replaceAll 34 (utf ''&quot;'')
         (replaceAll 62 (utf ''&gt;'')
           (replaceAll 60 (utf ''&lt;'')
             (replaceAll 38 (utf ''&amp;'') value))))"

definition MAX_REFLECTED_ERROR_LENGTH :: nat where
  "MAX_REFLECTED_ERROR_LENGTH = 200"

definition truncateForDisplay :: "utext \<Rightarrow> nat \<Rightarrow> utext" where
  "truncateForDisplay value maxLength =
     (if utf16_length value \<le> maxLength then value else take maxLength value @ [8230])"

fun describeClientType :: "oauth_client_type option \<Rightarrow> utext" where
  "describeClientType (Some BridgeMacOS) = utf ''macOS desktop''"
| "describeClientType (Some AppMacOS) = utf ''macOS desktop''"
| "describeClientType (Some BridgeWindows) = utf ''Windows desktop''"
| "describeClientType (Some AppWindows) = utf ''Windows desktop''"
| "describeClientType (Some BridgeLinux) = utf ''Linux desktop''"
| "describeClientType (Some AppLinux) = utf ''Linux desktop''"
| "describeClientType (Some AppIOS) = utf ''iPhone or iPad''"
| "describeClientType (Some AppAndroid) = utf ''Android device''"
| "describeClientType (Some ClientBridge) = utf ''desktop app''"
| "describeClientType (Some ClientApp) = utf ''mobile app''"
| "describeClientType None = utf ''device''"

definition device_meta :: "utext \<Rightarrow> device_info \<Rightarrow> utext list" where
  \<comment> \<open>an absent, null or empty version is skipped\<close>
  "device_meta typeLabel d =
     [typeLabel] @
     (case device_osVersion d of None \<Rightarrow> [] | Some v \<Rightarrow> if v = [] then [] else [v]) @
     (case device_appVersion d of None \<Rightarrow> [] | Some v \<Rightarrow> if v = [] then [] else [utf ''Sesori '' @ v])"

fun join :: "'a list \<Rightarrow> 'a list list \<Rightarrow> 'a list" where
  "join sep [] = []"
| "join sep [x] = x"
| "join sep (x # y # ys) = x @ sep @ join sep (y # ys)"

definition renderRequestingDeviceHtml :: "pending_auth_session \<Rightarrow> utext" where
  "renderRequestingDeviceHtml se =
     (let typeLabel = describeClientType (clientType se) in
      case device se of
        None \<Rightarrow> utf ''<div class=\"device\"><div class=\"device-meta\">A '' @ escapeHtml typeLabel @
                utf '' is requesting to sign in.</div></div>''
      | Some d \<Rightarrow> utf ''<div class=\"device\"><div class=\"device-name\">'' @ escapeHtml (device_name d) @
                utf ''</div><div class=\"device-meta\">'' @
                escapeHtml (join [32, 183, 32] (device_meta typeLabel d)) @ utf ''</div></div>'')"

datatype page =
  ConfirmationPage oauth_provider pending_auth_session
| SuccessPage utext utext
| DeniedPage utext utext
| ErrorPage nat utext utext

fun page_status :: "page \<Rightarrow> nat" where
  "page_status (ConfirmationPage _ _) = 200"
| "page_status (SuccessPage _ _) = 200"
| "page_status (DeniedPage _ _) = 200"
| "page_status (ErrorPage st _ _) = st"

fun page_texts :: "page \<Rightarrow> utext list" where
  \<comment> \<open>what is interpolated into the fixed markup, in order, after escaping\<close>
  "page_texts (ConfirmationPage prov se) =
     [escapeHtml (utf (provider_name prov)), renderRequestingDeviceHtml se,
      escapeHtml (utf (''/auth/'' @ provider_name prov @ ''/callback/confirm'')), escapeHtml (utf (oauthState se)),
      escapeHtml (utf (''/auth/'' @ provider_name prov @ ''/callback/confirm'')), escapeHtml (utf (oauthState se))]"
| "page_texts (SuccessPage t msg) = [escapeHtml t, escapeHtml t, escapeHtml msg]"
| "page_texts (DeniedPage t msg) = [escapeHtml t, escapeHtml t, escapeHtml msg]"
| "page_texts (ErrorPage _ t msg) = [escapeHtml t, escapeHtml t, escapeHtml msg]"

section \<open>The provider redirect\<close>

record callback_query =
  q_code :: "char raw"
  q_state :: "char raw"
  q_error :: "nat raw"
  q_error_description :: "nat raw"

record callback_params =
  cb_code :: "string option"
  cb_state :: string
  cb_error :: "utext option"
  cb_error_description :: "utext option"

fun optional_nonempty :: "'a raw \<Rightarrow> 'a list option option" where
  "optional_nonempty Undefined = Some None"
| "optional_nonempty (Str s) = (if s = [] then None else Some (Some s))"
| "optional_nonempty NotString = None"

definition oauthCallbackQuerySchema :: "callback_query \<Rightarrow> callback_params option" where
  "oauthCallbackQuerySchema q =
     (case (optional_nonempty (q_code q), optional_nonempty (q_state q),
            optional_nonempty (q_error q), optional_nonempty (q_error_description q)) of
        (Some c, Some (Some st), Some e, Some ed) \<Rightarrow>
          if c = None \<and> e = None then None
          else Some \<lparr>cb_code = c, cb_state = st, cb_error = e, cb_error_description = ed\<rparr>
      | _ \<Rightarrow> None)"

definition expired_page :: page where
  "expired_page = ErrorPage 410 (utf ''Sign-in request expired'')
     (utf ''This sign-in request has expired or is no longer available. Please start again from Sesori.'')"

definition already_confirmed_page :: page where
  "already_confirmed_page = SuccessPage (utf ''Sign-in already confirmed'')
     (utf ''This sign-in request has already been confirmed in Sesori.'')"

definition failed_page :: "pending_auth_session \<Rightarrow> page" where
  "failed_page se = ErrorPage 400 (utf ''Sign-in failed'')
     (case errorMessage se of Some e \<Rightarrow> e
      | None \<Rightarrow> utf ''This sign-in request could not be completed.'')"

definition handleProviderErrorCallback ::
  "utext \<Rightarrow> utext option \<Rightarrow> pending_auth_session \<Rightarrow> millis \<Rightarrow> millis \<Rightarrow> pending_auth_store
   \<Rightarrow> page \<times> pending_auth_store" where
  "handleProviderErrorCallback err desc se t1 t2 s =
     (if status se = Complete \<or> status se = Consumed then (already_confirmed_page, s)
      else if err = utf ''access_denied'' then
        (DeniedPage (utf ''Sign-in cancelled'')
           (utf ''You cancelled this sign-in request. You can return to Sesori and try again.''),
         snd (denySession t1 t2 (tokenHash se) s))
      else
        let safeMessage = truncateForDisplay (case desc of Some d \<Rightarrow> d | None \<Rightarrow> err) MAX_REFLECTED_ERROR_LENGTH
        in (ErrorPage 400 (utf ''Sign-in failed'') safeMessage,
            snd (failSession safeMessage t1 t2 (tokenHash se) s)))"

datatype callback_outcome =
  Reply page
| Exchange string pending_auth_session

definition callbackRedirect ::
  "oauth_provider \<Rightarrow> callback_query \<Rightarrow> millis \<Rightarrow> millis \<Rightarrow> millis \<Rightarrow> pending_auth_store
   \<Rightarrow> callback_outcome \<times> pending_auth_store" where
  \<comment> \<open>\<open>handleProviderCallbackRedirect\<close> up to the code exchange\<close>
  "callbackRedirect prov q t0 t1 t2 s =
     (case oauthCallbackQuerySchema q of
        None \<Rightarrow> (Reply (ErrorPage 400 (utf ''Invalid sign-in callback'')
                   (utf ''The provider callback was missing required information.'')), s)
      | Some p \<Rightarrow>
        if \<not> hex64 (cb_state p)
        then (Reply (ErrorPage 400 (utf ''Invalid sign-in callback'')
                (utf ''The sign-in request state was invalid.'')), s)
        else (case getSessionByState t0 (cb_state p) s of
          (None, s') \<Rightarrow> (Reply expired_page, s')
        | (Some se, s') \<Rightarrow>
            if provider se \<noteq> prov then (Reply expired_page, s')
            else (case cb_error p of
              Some err \<Rightarrow> apfst Reply (handleProviderErrorCallback err (cb_error_description p) se t1 t2 s')
            | None \<Rightarrow>
                if status se = AwaitingConfirmation then (Reply (ConfirmationPage prov se), s')
                else if status se = Complete \<or> status se = Consumed then (Reply already_confirmed_page, s')
                else if status se = Denied then
                  (Reply (DeniedPage (utf ''Sign-in cancelled'')
                     (utf ''This sign-in request was cancelled. Return to Sesori to start again.'')), s')
                else if status se = Expired then
                  (Reply (ErrorPage 410 (utf ''Sign-in request expired'')
                     (utf ''This sign-in request has expired. Please start again from Sesori.'')), s')
                else if status se = Error then (Reply (failed_page se), s')
                else (case cb_code p of
                  None \<Rightarrow> (Reply (ErrorPage 400 (utf ''Invalid sign-in callback'')
                            (utf ''The provider callback was missing the authorization code.'')), s')
                | Some code \<Rightarrow> (Exchange code se, s')))))"

record auth_result =
  ar_accessToken :: string
  ar_refreshToken :: string
  ar_user :: user_profile
  ar_accountStatus :: account_status

definition callbackExchanged ::
  "oauth_provider \<Rightarrow> pending_auth_session \<Rightarrow> http_error + auth_result \<Rightarrow> millis \<Rightarrow> millis
   \<Rightarrow> pending_auth_store \<Rightarrow> page \<times> pending_auth_store" where
  \<comment> \<open>\<open>handleProviderCallbackRedirect\<close> after the code exchange settled\<close>
  "callbackExchanged prov se result t1 t2 s =
     (case result of
        Inl _ \<Rightarrow>
          (ErrorPage 502 (utf ''Sign-in failed'')
             (utf ''Sesori could not finish the provider sign-in. Please return to the app and try again.''),
           snd (failSession (utf ''oauth_exchange_failed'') t1 t2 (tokenHash se) s))
      | Inr r \<Rightarrow>
          (case stageCompletion \<lparr>accessToken = ar_accessToken r, refreshToken = ar_refreshToken r\<rparr>
                  (ar_user r) (ar_accountStatus r) t1 t2 (tokenHash se) s of
             (None, s') \<Rightarrow>
               (ErrorPage 410 (utf ''Sign-in request expired'')
                  (utf ''This sign-in request expired before it could be confirmed. Please start again from Sesori.''), s')
           | (Some staged, s') \<Rightarrow> (ConfirmationPage prov staged, s')))"

section \<open>The confirmation form\<close>

datatype callback_action = ConfirmAction | DenyAction

record action_body =
  b_state :: "char raw"
  b_action :: "char raw"

definition callbackActionBodySchema :: "action_body \<Rightarrow> (string \<times> callback_action) option" where
  "callbackActionBodySchema b =
     (case (b_state b, b_action b) of
        (Str st, Str ac) \<Rightarrow>
          if st = [] then None
          else if ac = ''confirm'' then Some (st, ConfirmAction)
          else if ac = ''deny'' then Some (st, DenyAction)
          else None
      | _ \<Rightarrow> None)"

definition handleProviderCallbackAction ::
  "action_body \<Rightarrow> millis \<Rightarrow> millis \<Rightarrow> millis \<Rightarrow> pending_auth_store \<Rightarrow> page \<times> pending_auth_store" where
  "handleProviderCallbackAction b t0 t1 t2 s =
     (case callbackActionBodySchema b of
        None \<Rightarrow> (ErrorPage 400 (utf ''Invalid confirmation request'')
                  (utf ''The confirmation action was missing required information.''), s)
      | Some (st, ac) \<Rightarrow>
        if \<not> hex64 st
        then (ErrorPage 400 (utf ''Invalid confirmation request'')
                (utf ''The sign-in request state was invalid.''), s)
        else (case getSessionByState t0 st s of
          (None, s') \<Rightarrow> (expired_page, s')
        | (Some se, s') \<Rightarrow>
            if ac = DenyAction then
              (if status se = Complete \<or> status se = Consumed then (already_confirmed_page, s')
               else (DeniedPage (utf ''Sign-in cancelled'')
                       (utf ''This sign-in request was cancelled. Return to Sesori and try again when you're ready.''),
                     snd (denySession t1 t2 (tokenHash se) s')))
            else if status se = Complete \<or> status se = Consumed then (already_confirmed_page, s')
            else if status se = Denied then
              (DeniedPage (utf ''Sign-in cancelled'') (utf ''This sign-in request was already cancelled.''), s')
            else if status se = Error then (failed_page se, s')
            else (case confirmSession t1 t2 (tokenHash se) s' of
              (None, s'') \<Rightarrow>
                (ErrorPage 400 (utf ''Sign-in not ready'')
                   (utf ''This sign-in request is not ready for confirmation yet. Return to Sesori and try again.''), s'')
            | (Some _, s'') \<Rightarrow>
                (SuccessPage (utf ''Sign-in confirmed'')
                   (utf ''You're all set. Return to Sesori to finish signing in.''), s''))))"

section \<open>Polling for the result\<close>

datatype status_reply =
  ReplyPending
| ReplyComplete completion
| ReplyDenied
| ReplyExpired
| ReplyError nat utext
| ReplyNotFound
| Hijacked

fun reply_code :: "status_reply \<Rightarrow> nat option" where
  "reply_code ReplyPending = Some 200"
| "reply_code (ReplyComplete _) = Some 200"
| "reply_code ReplyDenied = Some 200"
| "reply_code ReplyExpired = Some 410"
| "reply_code (ReplyError st _) = Some st"
| "reply_code ReplyNotFound = Some 404"
| "reply_code Hijacked = None"

definition createCompleteReply :: "millis \<Rightarrow> string \<Rightarrow> pending_auth_store \<Rightarrow> status_reply \<times> pending_auth_store" where
  "createCompleteReply now h s =
     (case getCompletion now h s of
        (None, s') \<Rightarrow> (ReplyNotFound, s')
      | (Some c, s') \<Rightarrow> (ReplyComplete c, s'))"

definition undecided :: "pending_auth_status \<Rightarrow> bool" where
  "undecided st = (st = Pending \<or> st = AwaitingConfirmation)"

datatype poll_progress =
  Settled "pending_auth_session option"
| Await millis

fun waitForTerminalOrTimeout ::
  "millis \<Rightarrow> (millis \<times> pending_auth_session option) list \<Rightarrow> millis \<Rightarrow> pending_auth_session \<Rightarrow> poll_progress" where
  \<comment> \<open>the waits made so far, each with the clock before it and what it returned;
     \<open>now\<close> is the clock at the next test of the loop\<close>
  "waitForTerminalOrTimeout deadline [] now se =
     (if \<not> undecided (status se) then Settled (Some se)
      else if deadline - now \<le> 0 then Settled (Some se)
      else Await (deadline - now))"
| "waitForTerminalOrTimeout deadline ((t, res) # rest) now se =
     (if \<not> undecided (status se) then Settled (Some se)
      else if deadline - t \<le> 0 then Settled (Some se)
      else (case res of
              None \<Rightarrow> Settled None
            | Some n \<Rightarrow> if status n \<noteq> AwaitingConfirmation then Settled (Some n)
                        else waitForTerminalOrTimeout deadline rest now n))"

definition statusBegin ::
  "(string \<Rightarrow> string) \<Rightarrow> header \<Rightarrow> millis \<Rightarrow> millis \<Rightarrow> millis \<Rightarrow> millis \<Rightarrow> pending_auth_store
   \<Rightarrow> (http_error + string \<times> pending_auth_session \<times> millis \<times> poll_progress) \<times> pending_auth_store" where
  \<comment> \<open>the handler of \<open>GET /auth/session/status\<close> up to its first await; the result
     carries the token hash, the session read, the deadline and the first test\<close>
  "statusBegin hash v pollTimeout t0 t1 t2 s =
     (case parseSessionTokenHeader v of
        Inl e \<Rightarrow> (Inl e, s)
      | Inr token \<Rightarrow> (case getSessionByTokenHash t0 (hash token) s of
          (None, s') \<Rightarrow> (Inl NotFound, s')
        | (Some se, s') \<Rightarrow>
            let deadline = t1 + pollTimeout
            in (Inr (hash token, se, deadline, waitForTerminalOrTimeout deadline [] t2 se), s')))"

definition statusReply ::
  "bool \<Rightarrow> millis \<Rightarrow> string \<Rightarrow> pending_auth_session option \<Rightarrow> pending_auth_store
   \<Rightarrow> status_reply \<times> pending_auth_store" where
  \<comment> \<open>the handler of \<open>GET /auth/session/status\<close> once the wait is over\<close>
  "statusReply open_conn now h next s =
     (case next of
        None \<Rightarrow> (if \<not> open_conn then (Hijacked, s) else (ReplyNotFound, s))
      | Some se \<Rightarrow> (case status se of
          Pending \<Rightarrow> (ReplyPending, s)
        | AwaitingConfirmation \<Rightarrow> (ReplyPending, s)
        | Complete \<Rightarrow> if \<not> open_conn then (Hijacked, s) else createCompleteReply now h s
        | Denied \<Rightarrow> (ReplyDenied, s)
        | Expired \<Rightarrow> (ReplyExpired, s)
        | Error \<Rightarrow> (ReplyError 200 (case errorMessage se of Some e \<Rightarrow> e | None \<Rightarrow> utf ''authentication_failed''), s)
        | Shutdown \<Rightarrow> (ReplyError 503 (utf ''service_restarting''), s)
        | Consumed \<Rightarrow> (ReplyNotFound, s)))"

definition acknowledge ::
  "(string \<Rightarrow> string) \<Rightarrow> header \<Rightarrow> millis \<Rightarrow> pending_auth_store \<Rightarrow> (http_error + unit) \<times> pending_auth_store" where
  \<comment> \<open>\<open>POST /auth/session/status/ack\<close>\<close>
  "acknowledge hash v now s =
     (case parseSessionTokenHeader v of
        Inl e \<Rightarrow> (Inl e, s)
      | Inr token \<Rightarrow> (case consumeCompletion now (hash token) s of
          (None, s') \<Rightarrow> (Inl NotFound, s')
        | (Some _, s') \<Rightarrow> (Inr (), s')))"

end
