(* ===== verification/PendingAuthProps.thy ===== *)
theory PendingAuthProps
  imports PendingAuthInv
begin

text \<open>
  What the pending-auth store promises its callers, stated for every reachable
  store: the life of a session, the confirmation gate, exact lookups, delivery
  of a completion at most once, and the fate of every long poll.
\<close>

section \<open>A store to evaluate\<close>

definition demo_params :: session_params where
  "demo_params = \<lparr>p_tokenHash = ''h1'', p_provider = Github, p_pkceVerifier = ''v'',
     p_state = ''s1'', p_clientType = Some AppIOS, p_device = None\<rparr>"

definition demo_tokens :: pending_auth_tokens where
  "demo_tokens = \<lparr>accessToken = ''at'', refreshToken = ''rt''\<rparr>"

definition demo_user :: user_profile where
  "demo_user = \<lparr>profile_id = ''u1'', profile_provider = ''github'',
     profile_providerUserId = ''7'', profile_providerUsername = None\<rparr>"

definition demo_pending :: pending_auth_store where
  "demo_pending = setSession [] (new_session 300000 0 ''ABCD'' demo_params) empty_store"

definition demo_staged :: pending_auth_store where
  "demo_staged = snd (stageCompletion demo_tokens demo_user Created 10 10 ''h1'' demo_pending)"

definition demo_complete :: pending_auth_store where
  "demo_complete = snd (confirmSession 20 20 ''h1'' demo_staged)"

lemma generate_first:
  assumes "map toUpper c = code" and "valid_user_code code" and "tokenHashesByUserCode s code = None"
  shows "generateUniqueUserCode (\<lambda>_. c) s = Inr code"
  using assms by (simp add: generateUniqueUserCode_def upt_rec [of 0 32] Let_def)

lemma demo_codes:
  "map toUpper ''abcd'' = ''ABCD''" "valid_user_code ''ABCD''"
  "map toUpper ''abce'' = ''ABCE''" "valid_user_code ''ABCE''"
  by code_simp+

lemma generate_ABCD:
  "tokenHashesByUserCode s ''ABCD'' = None \<Longrightarrow> generateUniqueUserCode (\<lambda>_. ''abcd'') s = Inr ''ABCD''"
  by (rule generate_first [OF demo_codes(1,2)])

lemma generate_ABCE:
  "tokenHashesByUserCode s ''ABCE'' = None \<Longrightarrow> generateUniqueUserCode (\<lambda>_. ''abce'') s = Inr ''ABCE''"
  by (rule generate_first [OF demo_codes(3,4)])

lemma demo_pending_reachable: "auth_reachable demo_pending"
proof (rule auth_reachable.step [OF auth_reachable.start])
  have "createSession 300000 0 (\<lambda>_. ''abcd'') [] demo_params empty_store =
      Inr (cloneSession (new_session 300000 0 ''ABCD'' demo_params), demo_pending)"
    using generate_ABCD [of empty_store]
    by (simp add: createSession_def demo_pending_def empty_store_def Let_def)
  then show "auth_step empty_store demo_pending"
    by (rule auth_step.create) (simp add: empty_store_def)
qed

lemma demo_staged_reachable: "auth_reachable demo_staged"
  unfolding demo_staged_def by (rule auth_reachable.step [OF demo_pending_reachable auth_step.stage])

lemma demo_complete_reachable: "auth_reachable demo_complete"
  unfolding demo_complete_def by (rule auth_reachable.step [OF demo_staged_reachable auth_step.confirm])

lemmas store_eval = empty_store_def setSession_def new_session_def demo_params_def demo_tokens_def
  demo_user_def demo_pending_def demo_staged_def demo_complete_def
  stageCompletion_def confirmSession_def guarded_update_def getActiveEntry_def updateSession_def
  apply_update_def blank_update_def settled_def notifyWaiters_def Let_def

lemma demo_pending_session:
  "sessions demo_pending ''h1'' = Some (new_session 300000 0 ''ABCD'' demo_params)"
  by (simp add: demo_pending_def sessions_setSession demo_params_def new_session_def)

lemma demo_staged_session:
  "sessions demo_staged ''h1'' = Some ((new_session 300000 0 ''ABCD'' demo_params)
     \<lparr>status := AwaitingConfirmation, stagedTokens := Some demo_tokens,
      stagedUser := Some demo_user, stagedAccountStatus := Some Created\<rparr>)"
  by (simp add: store_eval)

lemma demo_complete_session:
  "sessions demo_complete ''h1'' = Some ((new_session 300000 0 ''ABCD'' demo_params)
     \<lparr>status := Complete, tokens := Some demo_tokens, user := Some demo_user,
      accountStatus := Some Created\<rparr>)"
  by (simp add: store_eval)

section \<open>The life of a session\<close>

lemma session_lifecycle_lemma:
  assumes "auth_reachable s" and "auth_step s t" and "sessions t h = Some r'"
  shows "newly_created r' \<or> (\<exists>r. sessions s h = Some r \<and> (r' = r \<or> session_move r r'))"
  using auth_step_evolves [OF assms(2) shape.always [OF assms(1)]] assms(3)
  by (auto simp: evolves_def follows_def)

text \<open>C3: In every reachable store, whatever one operation does to the session of a
  token hash is one of the documented moves: the record is unchanged, it is a
  new pending session, or it moved pending/awaiting to awaiting (staged), awaiting
  to complete (confirmed, the staged data promoted), pending/awaiting to denied,
  or pending/awaiting to error.\<close>
theorem session_lifecycle:
  assumes "auth_reachable s" and "auth_step s t" and "sessions t h = Some r'"
  shows "newly_created r' \<or> (\<exists>r. sessions s h = Some r \<and> (r' = r \<or> session_move r r'))"
  using assms by (rule session_lifecycle_lemma)

theorem session_lifecycle_witness:
  "\<not> newly_created (the (sessions demo_complete ''h1'')) \<and>
   session_move (the (sessions demo_staged ''h1'')) (the (sessions demo_complete ''h1''))"
proof -
  have step: "auth_step demo_staged demo_complete"
    unfolding demo_complete_def by (rule auth_step.confirm)
  have "\<not> newly_created (the (sessions demo_complete ''h1''))"
    by (auto simp: newly_created_def demo_complete_session) (simp add: new_session_def)
  then show ?thesis
    using session_lifecycle [OF demo_staged_reachable step demo_complete_session]
    by (auto simp: demo_staged_session demo_complete_session new_session_def)
qed

lemma move_tokens:
  assumes "session_move r r'" and "tokens r' = Some tk"
  shows "status r = AwaitingConfirmation \<and> stagedTokens r = Some tk \<and>
     stagedUser r = user r' \<and> stagedAccountStatus r = accountStatus r' \<and>
     oauthState r = oauthState r' \<and> provider r = provider r'"
  using assms by (cases rule: session_move.cases) (simp_all add: wipe_def)

text \<open>C1: The confirmation gate.  In a reachable store a session offers tokens only
  while it is complete, and an operation makes a session offer tokens it did not
  offer before only by promoting exactly the tokens, user and account status that
  were staged on it while it was awaiting confirmation.\<close>
theorem tokens_need_confirmation:
  assumes "auth_reachable s" and "auth_step s t"
    and "sessions t h = Some r'" and "tokens r' = Some tk"
  shows "status r' = Complete \<and> (\<exists>r. sessions s h = Some r \<and>
     (r' = r \<or> status r = AwaitingConfirmation \<and> stagedTokens r = Some tk \<and>
        stagedUser r = user r' \<and> stagedAccountStatus r = accountStatus r' \<and>
        oauthState r = oauthState r' \<and> provider r = provider r'))"
proof -
  have "record_ok r'"
    using shape.always [OF auth_reachable.step [OF assms(1,2)]] assms(3) by (simp add: shape_inv_def)
  then have st: "status r' = Complete" using assms(4) by (simp add: record_ok_def)
  have "\<not> newly_created r'" using assms(4) by (auto simp: newly_created_def new_session_def)
  then obtain r where "sessions s h = Some r" "r' = r \<or> session_move r r'"
    using session_lifecycle_lemma [OF assms(1-3)] by blast
  with st move_tokens [OF _ assms(4), of r] show ?thesis by blast
qed

theorem tokens_need_confirmation_witness:
  "tokens (the (sessions demo_complete ''h1'')) = Some demo_tokens \<and>
   stagedTokens (the (sessions demo_staged ''h1'')) = Some demo_tokens"
proof -
  have step: "auth_step demo_staged demo_complete"
    unfolding demo_complete_def by (rule auth_step.confirm)
  show ?thesis
    using tokens_need_confirmation [OF demo_staged_reachable step demo_complete_session, of demo_tokens]
    by (auto simp: demo_staged_session demo_complete_session new_session_def)
qed

text \<open>Complete, denied and failed sessions are final: no operation changes such a
  record; it can only disappear or be replaced by a new pending session without
  tokens (the client starting over with the same token).\<close>
lemma final_sessions_immutable:
  assumes "auth_reachable s" and "auth_step s t" and "sessions s h = Some r"
    and "status r \<in> {Complete, Denied, Error}" and "sessions t h = Some r'" and "r' \<noteq> r"
  shows "status r' = Pending \<and> tokens r' = None \<and> stagedTokens r' = None"
proof -
  have "\<not> session_move r r'"
    using assms(4) by (auto elim: session_move_from)
  then have "newly_created r'"
    using session_lifecycle_lemma [OF assms(1,2,5)] assms(3,6) by auto
  then show ?thesis by (auto simp: newly_created_def new_session_def)
qed

definition demo_restarted :: pending_auth_store where
  "demo_restarted = setSession []
     (new_session 300000 30 ''ABCE'' (demo_params\<lparr>p_state := ''s2''\<rparr>)) demo_complete"

lemma final_sessions_immutable_witness:
  "status (the (sessions demo_complete ''h1'')) = Complete \<and>
   tokens (the (sessions demo_restarted ''h1'')) = None"
proof -
  let ?p = "demo_params\<lparr>p_state := ''s2''\<rparr>"
  have "generateUniqueUserCode (\<lambda>_. ''abce'') demo_complete = Inr ''ABCE''"
    by (rule generate_ABCE) (simp add: store_eval)
  then have "createSession 300000 30 (\<lambda>_. ''abce'') [] ?p demo_complete =
      Inr (cloneSession (new_session 300000 30 ''ABCE'' ?p), demo_restarted)"
    by (simp add: createSession_def demo_restarted_def Let_def)
  moreover have "tokenHashesByState demo_complete (p_state ?p) = None"
    by (simp add: store_eval)
  ultimately have step: "auth_step demo_complete demo_restarted" by (rule auth_step.create)
  have r': "sessions demo_restarted ''h1'' = Some (new_session 300000 30 ''ABCE'' ?p)"
    by (simp add: demo_restarted_def sessions_setSession demo_params_def new_session_def)
  show ?thesis
    using final_sessions_immutable [OF demo_complete_reachable step demo_complete_session _ r']
    by (auto simp: demo_complete_session r' new_session_def)
qed

section \<open>Lookups and delivery\<close>

lemma lookup_state_lemma:
  assumes "auth_reachable s"
  shows "fst (getSessionByState now st s) = Some se \<longleftrightarrow>
     (\<exists>h r. h \<noteq> [] \<and> sessions s h = Some r \<and> oauthState r = st \<and> now < expiresAt r \<and>
        se = cloneSession r)"
proof -
  have idx: "injective_index oauthState (sessions s) (tokenHashesByState s)"
    using table.always [OF assms] by (simp add: structure_inv_def index_ok_def)
  have look: "fst (getSessionByTokenHash now h s) = Some se \<longleftrightarrow>
      (\<exists>r. sessions s h = Some r \<and> now < expiresAt r \<and> se = cloneSession r)" for h
    by (auto simp: getSessionByTokenHash_def getActiveEntry_def split: option.split)
  show ?thesis
  proof (cases "tokenHashesByState s st")
    case None
    then show ?thesis
      using injective_index_lookup [OF idx] by (fastforce simp: getSessionByState_def)
  next
    case (Some h)
    then obtain r where r: "sessions s h = Some r" "oauthState r = st"
      using injective_index_back [OF idx] by blast
    have uniq: "h' = h \<and> r' = r" if "sessions s h' = Some r'" "oauthState r' = st" for h' r'
      using injective_index_inj [OF idx that(1) r(1)] that r by simp
    have "(\<exists>h r. h \<noteq> [] \<and> sessions s h = Some r \<and> oauthState r = st \<and> now < expiresAt r \<and>
        se = cloneSession r) \<longleftrightarrow> h \<noteq> [] \<and> now < expiresAt r \<and> se = cloneSession r"
      by (metis uniq r)
    with Some r look [of h] show ?thesis by (simp add: getSessionByState_def)
  qed
qed

text \<open>C0: In every reachable store the provider callback finds exactly the session its
  \<open>state\<close> parameter belongs to: the lookup by state returns a session if and
  only if it is the stored session of its token hash, carries that state, and has
  not expired (an empty token hash is treated as absent).\<close>
theorem lookup_by_state_exact:
  assumes "auth_reachable s"
  shows "fst (getSessionByState now st s) = Some se \<longleftrightarrow>
     (\<exists>h r. h \<noteq> [] \<and> sessions s h = Some r \<and> oauthState r = st \<and> now < expiresAt r \<and>
        se = cloneSession r)"
  using assms by (rule lookup_state_lemma)

lemma lookup_by_state_exact_witness:
  "fst (getSessionByState 5 ''s1'' demo_pending) =
     Some (cloneSession (new_session 300000 0 ''ABCD'' demo_params))"
  using lookup_by_state_exact [OF demo_pending_reachable, of 5 "''s1''"] demo_pending_session
  by (fastforce simp: new_session_def demo_params_def)

lemma consume_result:
  assumes "consumeCompletion now h s = (Some c, t)"
  obtains r where "sessions s h = Some r" "now < expiresAt r" "completion_of r = Some c"
    "t = cache_delete h (notifyWaiters True h (Some (wipe Consumed r)) s)"
  using assms
  by (auto simp: consumeCompletion_def getActiveEntry_def split: option.splits if_splits)

text \<open>A completion is delivered for good at most once.  When the acknowledgement
  consumes a completion from a reachable store, the session is gone: it can be
  found neither by token hash nor by its state nor by its user code, reading or
  consuming the completion again yields nothing at any later time, and no long
  poll is left waiting on it.\<close>
lemma completion_consumed_once:
  assumes "auth_reachable s" and "sessions s h = Some r" and "consumeCompletion now h s = (Some c, t)"
  shows "sessions t h = None \<and> tokenHashesByState t (oauthState r) = None \<and>
     tokenHashesByUserCode t (userCode r) = None \<and> waiters_at h t = [] \<and>
     fst (getCompletion later h t) = None \<and> fst (consumeCompletion later h t) = None"
proof -
  from assms(3) obtain r' where "sessions s h = Some r'"
    and t: "t = cache_delete h (notifyWaiters True h (Some (wipe Consumed r')) s)"
    by (rule consume_result)
  with assms(2) have r': "r' = r" by simp
  have "tokenHash r = h"
    using table.always [OF assms(1)] assms(2) by (simp add: structure_inv_def index_ok_def)
  then have "sessions t h = None" "tokenHashesByState t (oauthState r) = None"
    "tokenHashesByUserCode t (userCode r) = None" "waiters_at h t = []"
    using assms(2) by (simp_all add: t r' cache_delete_indexes waiters_at_delete)
  then show ?thesis
    by (simp add: getCompletion_def consumeCompletion_def getActiveEntry_def)
qed

lemma completion_consumed_once_witness:
  "fst (consumeCompletion 30 ''h1'' demo_complete) =
     Some \<lparr>c_tokens = demo_tokens, c_user = demo_user, c_accountStatus = Created\<rparr> \<and>
   fst (consumeCompletion 31 ''h1'' (snd (consumeCompletion 30 ''h1'' demo_complete))) = None"
proof -
  have c: "fst (consumeCompletion 30 ''h1'' demo_complete) =
     Some \<lparr>c_tokens = demo_tokens, c_user = demo_user, c_accountStatus = Created\<rparr>"
    by (simp add: consumeCompletion_def getActiveEntry_def demo_complete_session new_session_def
        completion_of_def)
  then have "consumeCompletion 30 ''h1'' demo_complete =
      (Some \<lparr>c_tokens = demo_tokens, c_user = demo_user, c_accountStatus = Created\<rparr>,
       snd (consumeCompletion 30 ''h1'' demo_complete))"
    by (metis prod.collapse)
  with c completion_consumed_once [OF demo_complete_reachable demo_complete_session this] show ?thesis
    by simp
qed

section \<open>Long polls\<close>

text \<open>C5: No long poll is lost.  In every reachable store a pending poll waits on exactly
  one token hash, the session it waits on is still stored, its promise has not
  been settled, and no promise has been settled twice.\<close>
theorem polls_not_lost:
  assumes "auth_reachable s"
  shows "(waiting h w s \<longrightarrow> sessions s h \<noteq> None \<and> w \<notin> resolved s \<and> (\<forall>h'. waiting h' w s \<longrightarrow> h' = h)) \<and>
     distinct (map fst (resolutions s))"
proof -
  have inv: "ids_ok s" "live_waiters s"
    using table.always [OF assms] by (simp_all add: structure_inv_def)
  have "waiting h w s \<Longrightarrow> waitersByTokenHash s h \<noteq> None"
    by (cases "waitersByTokenHash s h") (simp_all add: waiting_def waiters_at_def)
  then have "waiting h w s \<Longrightarrow> sessions s h \<noteq> None"
    using inv(2) by (simp add: live_waiters_def)
  with ids_okD [OF inv(1)] show ?thesis by blast
qed

definition demo_waiting :: pending_auth_store where
  "demo_waiting = snd (waitForStatusChange 5 5 5 False 0 ''h1'' 1000 demo_pending)"

lemma demo_waiting_reachable: "auth_reachable demo_waiting"
  unfolding demo_waiting_def
  by (rule auth_reachable.step [OF demo_pending_reachable auth_step.poll])
    (simp add: fresh_waiter_def idle_def waiting_def waiters_at_def resolved_def store_eval)

lemma demo_waiting_waits: "waiting ''h1'' 0 demo_waiting"
  by (simp add: demo_waiting_def waitForStatusChange_def getSessionByTokenHash_def getActiveEntry_def
      demo_pending_session new_session_def Let_def waiting_def waiters_at_def add_waiter_def)
    (simp add: store_eval)

theorem polls_not_lost_witness:
  "waiting ''h1'' 0 demo_waiting \<and> sessions demo_waiting ''h1'' \<noteq> None \<and> 0 \<notin> resolved demo_waiting"
  using polls_not_lost [OF demo_waiting_reachable, of "''h1''" 0] demo_waiting_waits by blast

lemma notify_settles:
  assumes "ids_ok s" and "x \<in> set (waiters_at h s)" and "\<not> skips b (map_option cloneSession se) x"
  shows "(waiterId x, map_option cloneSession se) \<in> set (resolutions (notifyWaiters b h se s)) \<and>
     \<not> waiting h (waiterId x) (notifyWaiters b h se s)"
proof -
  have "waiterId x \<notin> waiterId ` set (filter (skips b (map_option cloneSession se)) (waiters_at h s))"
    using ids_okD(1) [OF assms(1), of h] assms(2,3) by (auto simp: distinct_map inj_on_def)
  then show ?thesis
    using assms(2,3) by (auto simp: notifyWaiters_log [OF assms(1)] waiting_def waiters_at_notify)
qed

text \<open>A status change wakes its pollers: when an update of a reachable store moves a
  session to a new status, every poll that had started from a different status is
  settled at once with the new snapshot and waits no longer.\<close>
lemma status_change_wakes_pollers:
  assumes "auth_reachable s" and "updateSession now h u s = (Some se, t)"
    and "x \<in> set (waiters_at h s)" and "initialStatus x \<noteq> status se"
  shows "(waiterId x, Some se) \<in> set (resolutions t) \<and> \<not> waiting h (waiterId x) t"
proof -
  from assms(2) obtain r where se: "se = cloneSession (apply_update u r)"
    and t: "t = notifyWaiters False h (Some (apply_update u r))
                  (s\<lparr>sessions := (sessions s)(h \<mapsto> apply_update u r)\<rparr>)"
    by (auto simp: updateSession_def getActiveEntry_def Let_def split: option.splits if_splits)
  have "ids_ok (s\<lparr>sessions := (sessions s)(h \<mapsto> apply_update u r)\<rparr>)"
    using table.ids [OF table.always [OF assms(1)]] by simp
  from notify_settles [OF this, of x h False "Some (apply_update u r)"] assms(3,4) show ?thesis
    by (simp add: t se skips_def)
qed

lemma status_change_wakes_pollers_witness:
  "(0, fst (updateSession 6 ''h1'' (blank_update Denied) demo_waiting)) \<in>
     set (resolutions (snd (updateSession 6 ''h1'' (blank_update Denied) demo_waiting)))"
proof -
  have s: "sessions demo_waiting ''h1'' = Some (new_session 300000 0 ''ABCD'' demo_params)"
    and w: "waiters_at ''h1'' demo_waiting = [\<lparr>waiterId = 0, initialStatus = Pending\<rparr>]"
    by (simp_all add: demo_waiting_def waitForStatusChange_def getSessionByTokenHash_def
        getActiveEntry_def demo_pending_session new_session_def Let_def waiters_at_add)
      (simp add: waiters_at_def store_eval)
  let ?se = "cloneSession (apply_update (blank_update Denied) (new_session 300000 0 ''ABCD'' demo_params))"
  have u: "updateSession 6 ''h1'' (blank_update Denied) demo_waiting =
      (Some ?se, snd (updateSession 6 ''h1'' (blank_update Denied) demo_waiting))"
    by (simp add: updateSession_def getActiveEntry_def s Let_def) (simp add: new_session_def)
  have "status ?se \<noteq> Pending" by (simp add: apply_update_def blank_update_def)
  then have "(0, Some ?se) \<in> set (resolutions (snd (updateSession 6 ''h1'' (blank_update Denied) demo_waiting)))"
    using status_change_wakes_pollers [OF demo_waiting_reachable u, of "\<lparr>waiterId = 0, initialStatus = Pending\<rparr>"] w
    by simp
  then show ?thesis by (metis u fst_conv)
qed

lemma resolved_settle: "resolved s \<subseteq> resolved (settle w v s)"
  by (auto simp: resolved_def settle_def)

lemma resolved_notify: "resolved s \<subseteq> resolved (notifyWaiters b h se s)"
proof -
  have "resolved s \<subseteq> resolved (fold (\<lambda>w. settle (waiterId w) v) ws s)" for v ws
    by (induction ws arbitrary: s) (auto dest: subsetD [OF resolved_settle])
  moreover have "resolved (set_waiters h ws s') = resolved s'" for ws s'
    by (simp add: resolved_def)
  ultimately show ?thesis
    by (auto simp: notifyWaiters_def Let_def split: option.split)
qed

lemma resolved_delete: "resolved s \<subseteq> resolved (cache_delete h s)"
proof -
  have "resolved (s\<lparr>sessions := m\<rparr>) = resolved s"
    "resolved (s\<lparr>tokenHashesByState := i\<rparr>) = resolved s"
    "resolved (s\<lparr>tokenHashesByUserCode := i\<rparr>) = resolved s" for m i s
    by (simp_all add: resolved_def)
  then show ?thesis
    using resolved_notify
    by (simp add: cache_delete_def dispose_def split: option.split) metis
qed

lemma notify_all_settles:
  "ids_ok s \<Longrightarrow> waiting h w s \<Longrightarrow> w \<in> resolved (notifyWaiters True h se s)"
  by (auto simp: resolved_def waiting_def notifyWaiters_log skips_def image_Un image_image)

lemma waiters_fold_none:
  assumes "\<And>h s. structure_inv s \<Longrightarrow> structure_inv (f h s)"
    and "\<And>h s. structure_inv s \<Longrightarrow> waitersByTokenHash (f h s) = (waitersByTokenHash s)(h := None)"
    and "structure_inv s"
  shows "waitersByTokenHash (fold f keys s) h = (if h \<in> set keys then None else waitersByTokenHash s h)"
  using assms(3) by (induction keys arbitrary: s) (simp_all add: assms(1,2))

lemma releaseKey_effect:
  assumes "structure_inv s"
  shows "waitersByTokenHash (releaseKey clk h s) = (waitersByTokenHash s)(h := None)"
    and "resolved s \<subseteq> resolved (releaseKey clk h s)"
    and "waiting h w s \<Longrightarrow> w \<in> resolved (releaseKey clk h s)"
proof -
  have ids: "ids_ok s" and hash: "\<And>r. sessions s h = Some r \<Longrightarrow> tokenHash r = h"
    using assms by (simp_all add: structure_inv_def index_ok_def)
  note mono = subsetD [OF resolved_notify] subsetD [OF resolved_delete]
  show "waitersByTokenHash (releaseKey clk h s) = (waitersByTokenHash s)(h := None)"
    using hash by (auto simp: releaseKey_def getActiveEntry_def expireSession_def cache_delete_waiters
        split: option.split)
  show "resolved s \<subseteq> resolved (releaseKey clk h s)"
    by (auto simp: releaseKey_def getActiveEntry_def expireSession_def intro: mono split: option.split)
  assume "waiting h w s"
  then have now: "w \<in> resolved (notifyWaiters True h se s)" for se
    by (rule notify_all_settles [OF ids])
  have "w \<in> resolved (notifyWaiters True h None (cache_delete h (notifyWaiters True h se s)))" for se
    by (rule mono(1), rule mono(2), rule now)
  with now show "w \<in> resolved (releaseKey clk h s)"
    by (simp add: releaseKey_def getActiveEntry_def expireSession_def split: option.split)
qed

lemma release_fold:
  assumes "structure_inv s" and "h \<in> set keys" and "waiting h w s"
  shows "w \<in> resolved (fold (releaseKey clk) keys s)"
proof -
  have keep: "resolved s' \<subseteq> resolved (fold (releaseKey clk) ks s')" if "structure_inv s'" for ks s'
    using that
  proof (induction ks arbitrary: s')
    case (Cons k ks)
    from releaseKey_effect(2) [OF Cons.prems] Cons.IH [OF table.release_key [OF Cons.prems]]
    show ?case by fastforce
  qed simp
  show ?thesis
    using assms
  proof (induction keys arbitrary: s)
    case (Cons k ks)
    note inv = table.release_key [OF Cons.prems(1), of clk k]
    show ?case
    proof (cases "k = h")
      case True
      with releaseKey_effect(3) [OF Cons.prems(1)] keep [OF inv, of ks] Cons.prems(3) show ?thesis
        by (simp add: subset_iff)
    next
      case False
      then have "waiting h w (releaseKey clk k s)"
        using Cons.prems(3) releaseKey_effect(1) [OF Cons.prems(1), of clk k]
        by (simp add: waiting_def waiters_at_def)
      with Cons.IH [OF inv] Cons.prems(2) False show ?thesis by simp
    qed
  qed simp
qed

text \<open>C0: Shutdown drains the long polls: after \<open>releaseWaiters\<close> on a reachable store
  that was not released yet no poll is pending and every poll that was pending
  has been settled; and from then on a poll is never parked: it is answered at
  once, whatever its timeout.\<close>
theorem release_drains_polls:
  assumes "auth_reachable s" and "\<not> released s" and "set keys = dom (waitersByTokenHash s)"
    and "t = releaseWaiters clk keys s"
  shows "waitersByTokenHash t = Map.empty \<and> (\<forall>h w. waiting h w s \<longrightarrow> w \<in> resolved t) \<and>
     fst (waitForStatusChange t1 t2 t3 ab w' h' tm t) = None"
proof -
  let ?s = "s\<lparr>released := True\<rparr>"
  have inv: "structure_inv ?s" by (rule table.flag [OF table.always [OF assms(1)]])
  have t: "t = fold (releaseKey clk) keys ?s" using assms(2,4) by (simp add: releaseWaiters_def)
  have "waitersByTokenHash t h = None" for h
    using waiters_fold_none [of "releaseKey clk", OF table.release_key releaseKey_effect(1) inv] assms(3)
    by (auto simp: t)
  moreover have "w \<in> resolved t" if "waiting h w s" for h w
  proof -
    have "h \<in> set keys" using that assms(3)
      by (cases "waitersByTokenHash s h") (auto simp: waiting_def waiters_at_def)
    then show ?thesis using release_fold [OF inv] that by (simp add: t waiting_def)
  qed
  moreover have "released t"
  proof -
    have "released s' \<Longrightarrow> released (fold (releaseKey clk) ks s')" for ks s'
      by (induction ks arbitrary: s')
        (auto simp: releaseKey_def getActiveEntry_def expireSession_def split: option.split)
    then show ?thesis by (simp add: t)
  qed
  then have "fst (waitForStatusChange t1 t2 t3 ab w' h' tm t) = None"
    by (auto simp: waitForStatusChange_def getSessionByTokenHash_def getActiveEntry_def expireSession_def
        split: option.split)
  ultimately show ?thesis by blast
qed

lemma demo_waiting_keys: "dom (waitersByTokenHash demo_waiting) = {''h1''}"
  by (simp add: demo_waiting_def waitForStatusChange_def getSessionByTokenHash_def getActiveEntry_def
      demo_pending_session new_session_def Let_def add_waiter_def)
    (simp add: store_eval)

lemma release_drains_polls_witness:
  "waitersByTokenHash (releaseWaiters (\<lambda>_. 7) [''h1''] demo_waiting) = Map.empty \<and>
   0 \<in> resolved (releaseWaiters (\<lambda>_. 7) [''h1''] demo_waiting)"
proof -
  have "\<not> released demo_waiting"
    by (simp add: demo_waiting_def waitForStatusChange_def getSessionByTokenHash_def getActiveEntry_def
      demo_pending_session new_session_def Let_def) (simp add: store_eval)
  from release_drains_polls [OF demo_waiting_reachable this _ refl, of "[''h1'']"] demo_waiting_keys
    demo_waiting_waits show ?thesis by simp
qed

text \<open>C0: A parked poll is bounded: the timer armed for it never exceeds the requested
  timeout nor the session's remaining time to live by more than one millisecond,
  and at the moment that timer would fire for an expired session the poll is
  answered \<open>Expired\<close> and the session is removed.\<close>
theorem poll_timer_bounds:
  assumes "waitForStatusChange t1 t2 t3 ab w h tm s = (Some d, t)" and "sessions s h = Some r"
  shows "0 < d \<and> d \<le> tm \<and> d \<le> max 0 (expiresAt r - t2) + 1 \<and> sessions t h = Some r \<and>
    (t2 + max 0 (expiresAt r - t2) + 1 \<le> u1 \<longrightarrow> sessions (waiterTimeout u1 u2 w h t) h = None)"
proof -
  from assms have d: "d = min tm (max 0 (expiresAt r - t2) + 1)" "0 < tm" and t: "sessions t h = Some r"
    by (auto simp: waitForStatusChange_def getSessionByTokenHash_def getActiveEntry_def Let_def
        split: option.splits if_splits prod.splits)
  have "t2 + max 0 (expiresAt r - t2) + 1 \<le> u1 \<Longrightarrow> expiresAt r \<le> u1" by (simp add: max_def split: if_splits)
  with t have "t2 + max 0 (expiresAt r - t2) + 1 \<le> u1 \<Longrightarrow> sessions (waiterTimeout u1 u2 w h t) h = None"
    by (simp add: waiterTimeout_def Let_def)
  with d t show ?thesis by auto
qed

lemma poll_timer_bounds_witness:
  "fst (waitForStatusChange 5 5 5 False 0 ''h1'' 1000 demo_pending) = Some 1000 \<and>
   sessions demo_waiting ''h1'' \<noteq> None"
proof -
  have f: "fst (waitForStatusChange 5 5 5 False 0 ''h1'' 1000 demo_pending) = Some 1000"
    by (simp add: waitForStatusChange_def getSessionByTokenHash_def getActiveEntry_def
        demo_pending_session new_session_def Let_def) (simp add: store_eval)
  then have "waitForStatusChange 5 5 5 False 0 ''h1'' 1000 demo_pending = (Some 1000, demo_waiting)"
    by (simp add: demo_waiting_def prod_eq_iff)
  from f poll_timer_bounds [OF this demo_pending_session] show ?thesis by simp
qed

end
