(* ===== verification/OAuthFlowProps.thy ===== *)
theory OAuthFlowProps
  imports OAuthFlow PendingAuthProps
begin

text \<open>
  Properties of the sign-in handlers: every handler is a run of store
  operations, so the invariants of the store hold between requests; a completed
  sign-in traces back to a confirm form that named its state; untrusted text
  reaches a page only escaped and bounded; a poll answers from the store.
\<close>

section \<open>Handlers are runs of store operations\<close>

datatype flow_event =
  EvInit
| EvRedirect oauth_provider callback_query
| EvExchanged oauth_provider pending_auth_session "http_error + auth_result"
| EvAction action_body
| EvStatus
| EvAck header
| EvPoll

inductive flow_step :: "pending_auth_store \<Rightarrow> flow_event \<Rightarrow> pending_auth_store \<Rightarrow> bool" where
  init: "createPendingOAuthInit hash challenge ttl now gen victims verifier st prov tok ct dev s = Inr (x, t) \<Longrightarrow>
     tokenHashesByState s st = None \<Longrightarrow> flow_step s EvInit t"
| redirect: "flow_step s (EvRedirect prov q) (snd (callbackRedirect prov q t0 t1 t2 s))"
| exchanged: "flow_step s (EvExchanged prov se res) (snd (callbackExchanged prov se res t1 t2 s))"
| action: "flow_step s (EvAction b) (snd (handleProviderCallbackAction b t0 t1 t2 s))"
| status_begin: "flow_step s EvStatus (snd (statusBegin hash v tmo t0 t1 t2 s))"
| status_reply: "flow_step s EvStatus (snd (statusReply open_conn now h nx s))"
| ack: "flow_step s (EvAck v) (snd (acknowledge hash v now s))"
| poll: "auth_step s t \<Longrightarrow> (\<And>h. sessions t h = sessions s h \<or> sessions t h = None) \<Longrightarrow> flow_step s EvPoll t"

inductive flow_reachable :: "pending_auth_store \<Rightarrow> bool" where
  start: "flow_reachable empty_store"
| step: "flow_reachable s \<Longrightarrow> flow_step s ev t \<Longrightarrow> flow_reachable t"

lemma reach_lookup_state:
  "auth_reachable s \<Longrightarrow> auth_reachable (snd (getSessionByState t0 st s))"
  by (auto simp: getSessionByState_def intro: auth_reachable.step auth_step.lookup split: option.split)

lemma getSessionByState_eq:
  assumes "getSessionByState t0 st s = (x, s')"
  shows "auth_reachable s \<Longrightarrow> auth_reachable s'"
    and "sessions s' h = Some r \<Longrightarrow> sessions s h = Some r"
    and "x = Some se \<Longrightarrow> s' = s \<and> (\<exists>r. sessions s (the (tokenHashesByState s st)) = Some r \<and> se = cloneSession r \<and> t0 < expiresAt r)"
proof -
  show "auth_reachable s \<Longrightarrow> auth_reachable s'"
    using reach_lookup_state [of s t0 st] assms by simp
  show "sessions s' h = Some r \<Longrightarrow> sessions s h = Some r"
    using assms sessions_lookup [of t0 _ s h r]
    by (auto simp: getSessionByState_def split: option.splits if_splits) (metis snd_conv)
  show "x = Some se \<Longrightarrow> s' = s \<and> (\<exists>r. sessions s (the (tokenHashesByState s st)) = Some r \<and> se = cloneSession r \<and> t0 < expiresAt r)"
    using assms by (auto simp: getSessionByState_def getSession_Some split: option.splits if_splits)
qed

lemma reach_deny: "auth_reachable s \<Longrightarrow> auth_reachable (snd (denySession t1 t2 h s))"
  and reach_fail: "auth_reachable s \<Longrightarrow> auth_reachable (snd (failSession msg t1 t2 h s))"
  and reach_stage: "auth_reachable s \<Longrightarrow> auth_reachable (snd (stageCompletion tk us ac t1 t2 h s))"
  and reach_confirm: "auth_reachable s \<Longrightarrow> auth_reachable (snd (confirmSession t1 t2 h s))"
  and reach_lookup: "auth_reachable s \<Longrightarrow> auth_reachable (snd (getSessionByTokenHash now h s))"
  and reach_consume: "auth_reachable s \<Longrightarrow> auth_reachable (snd (consumeCompletion now h s))"
  by (auto intro: auth_reachable.step auth_step.intros)

lemmas reach_ops = reach_deny reach_fail reach_stage reach_confirm reach_lookup reach_consume

lemma snd_eqD: "f = (a, b) \<Longrightarrow> auth_reachable (snd f) \<Longrightarrow> auth_reachable b"
  by simp

lemma reach_errorCallback:
  "auth_reachable s \<Longrightarrow> auth_reachable (snd (handleProviderErrorCallback err desc se t1 t2 s))"
  by (simp add: handleProviderErrorCallback_def Let_def reach_ops)

lemma reach_redirect:
  "auth_reachable s \<Longrightarrow> auth_reachable (snd (callbackRedirect prov q t0 t1 t2 s))"
  by (auto simp: callbackRedirect_def dest: getSessionByState_eq(1) intro!: reach_errorCallback
      split: option.split prod.split)

lemma reach_exchanged:
  "auth_reachable s \<Longrightarrow> auth_reachable (snd (callbackExchanged prov se res t1 t2 s))"
  by (auto simp: callbackExchanged_def reach_fail intro: snd_eqD [OF _ reach_stage]
      split: sum.split option.split prod.split)

lemma reach_action:
  "auth_reachable s \<Longrightarrow> auth_reachable (snd (handleProviderCallbackAction b t0 t1 t2 s))"
  by (auto simp: handleProviderCallbackAction_def dest: getSessionByState_eq(1)
      intro!: reach_deny intro: snd_eqD [OF _ reach_confirm]
      split: option.split prod.split)

lemma getCompletion_store: "snd (getCompletion now h s) = snd (getSessionByTokenHash now h s)"
  by (simp add: getCompletion_def getSessionByTokenHash_def split: prod.split option.split)

lemma reach_status:
  "auth_reachable s \<Longrightarrow> auth_reachable (snd (statusBegin hash v tmo t0 t1 t2 s))"
  "auth_reachable s \<Longrightarrow> auth_reachable (snd (statusReply open_conn now h nx s))"
  "auth_reachable s \<Longrightarrow> auth_reachable (snd (acknowledge hash v now s))"
proof -
  assume s: "auth_reachable s"
  show "auth_reachable (snd (statusBegin hash v tmo t0 t1 t2 s))"
    using s by (auto simp: statusBegin_def Let_def intro: snd_eqD [OF _ reach_lookup]
        split: sum.split prod.split option.split)
  have "auth_reachable (snd (createCompleteReply now h s))"
    using reach_lookup [OF s, of now h]
    by (simp add: createCompleteReply_def getCompletion_store [symmetric] split_def split: option.split)
  with s show "auth_reachable (snd (statusReply open_conn now h nx s))"
    by (simp add: statusReply_def split: option.split pending_auth_status.split)
  show "auth_reachable (snd (acknowledge hash v now s))"
    using s by (auto simp: acknowledge_def intro: snd_eqD [OF _ reach_consume]
        split: sum.split prod.split option.split)
qed

lemma reach_init:
  "createPendingOAuthInit hash challenge ttl now gen victims verifier st prov tok ct dev s = Inr (x, t) \<Longrightarrow>
   tokenHashesByState s st = None \<Longrightarrow> auth_reachable s \<Longrightarrow> auth_reachable t"
  by (auto simp: createPendingOAuthInit_def split: sum.splits prod.splits
      elim!: auth_reachable.step intro: auth_step.create)

lemma flow_step_reachable: "flow_step s ev t \<Longrightarrow> auth_reachable s \<Longrightarrow> auth_reachable t"
  by (induction rule: flow_step.induct)
    (blast intro: reach_init reach_redirect reach_exchanged reach_action reach_status auth_reachable.step)+

lemma flow_reachable_store: "flow_reachable s \<Longrightarrow> auth_reachable s"
  by (induction rule: flow_reachable.induct) (auto intro: auth_reachable.start flow_step_reachable)

text \<open>C7: Refinement of the handlers to the store: every store the HTTP handlers can reach,
  in any interleaving of requests and of the exchanges they await, is reachable
  by the operations of the store alone, so every invariant of the store holds
  between any two requests.\<close>
theorem handlers_refine_store:
  assumes "flow_reachable s"
  shows "auth_reachable s \<and> shape_inv s \<and> structure_inv s"
  using flow_reachable_store [OF assms] shape.always table.always by blast

section \<open>A completed sign-in was confirmed\<close>

definition quiet :: "pending_auth_store \<Rightarrow> pending_auth_store \<Rightarrow> bool" where
  \<comment> \<open>no session of \<open>t\<close> offers tokens that \<open>s\<close> did not offer\<close>
  "quiet s t \<longleftrightarrow> (\<forall>h r. sessions t h = Some r \<longrightarrow> tokens r \<noteq> None \<longrightarrow> sessions s h = Some r)"

lemma quiet_refl [simp]: "quiet s s"
  by (simp add: quiet_def)

lemma quiet_shrink: "(\<And>h r. sessions t h = Some r \<Longrightarrow> sessions s h = Some r) \<Longrightarrow> quiet s t"
  by (simp add: quiet_def)

lemma quiet_guarded:
  assumes "\<And>r u. f r = Some u \<Longrightarrow> u_tokens u = None"
  shows "quiet s (snd (guarded_update f t1 t2 h s))"
  using assms
  by (auto simp: quiet_def guarded_update_def getActiveEntry_def updateSession_def apply_update_def
      Let_def split: option.splits if_splits)

lemma quiet_ops:
  "quiet s (snd (denySession t1 t2 h s))"
  "quiet s (snd (failSession msg t1 t2 h s))"
  "quiet s (snd (stageCompletion tk us ac t1 t2 h s))"
  "quiet s (snd (getSessionByTokenHash now h s))"
  "quiet s (snd (consumeCompletion now h s))"
proof -
  show "quiet s (snd (denySession t1 t2 h s))"
    unfolding denySession_def by (rule quiet_guarded) (auto simp: blank_update_def split: if_splits)
  show "quiet s (snd (failSession msg t1 t2 h s))"
    unfolding failSession_def by (rule quiet_guarded) (auto simp: blank_update_def split: if_splits)
  show "quiet s (snd (stageCompletion tk us ac t1 t2 h s))"
    unfolding stageCompletion_def by (rule quiet_guarded) (auto simp: blank_update_def split: if_splits)
qed (auto intro!: quiet_shrink dest: sessions_lookup sessions_consume)

lemma quiet_snd: "f = (a, b) \<Longrightarrow> quiet s (snd f) \<Longrightarrow> quiet s b"
  by simp

lemma quiet_state: "getSessionByState t0 st s = (x, s') \<Longrightarrow> quiet s s'"
  by (auto intro!: quiet_shrink dest: getSessionByState_eq(2))

lemma quiet_errorCallback: "quiet s (snd (handleProviderErrorCallback err desc se t1 t2 s))"
  by (simp add: handleProviderErrorCallback_def Let_def quiet_ops)

lemma quiet_redirect: "quiet s (snd (callbackRedirect prov q t0 t1 t2 s))"
proof -
  have "quiet s (snd (handleProviderErrorCallback err desc se t1 t2 s'))"
    if "getSessionByState t0 st s = (Some x, s')" for err desc se st x s'
    using getSessionByState_eq(3) [OF that refl] quiet_errorCallback by auto
  then show ?thesis
    by (auto simp: callbackRedirect_def intro: quiet_state split: option.split prod.split)
qed

lemma quiet_exchanged: "quiet s (snd (callbackExchanged prov se res t1 t2 s))"
  by (auto simp: callbackExchanged_def quiet_ops intro: quiet_snd [OF _ quiet_ops(3)]
      split: sum.split option.split prod.split)

lemma quiet_status:
  "quiet s (snd (statusBegin hash v tmo t0 t1 t2 s))"
  "quiet s (snd (statusReply open_conn now h nx s))"
  "quiet s (snd (acknowledge hash v now s))"
proof -
  show "quiet s (snd (statusBegin hash v tmo t0 t1 t2 s))"
    by (auto simp: statusBegin_def Let_def intro: quiet_snd [OF _ quiet_ops(4)]
        split: sum.split prod.split option.split)
  have "quiet s (snd (createCompleteReply now h s))"
    using quiet_ops(4) [of s now h]
    by (simp add: createCompleteReply_def getCompletion_store [symmetric] split_def split: option.split)
  then show "quiet s (snd (statusReply open_conn now h nx s))"
    by (simp add: statusReply_def split: option.split pending_auth_status.split)
  show "quiet s (snd (acknowledge hash v now s))"
    by (auto simp: acknowledge_def intro: quiet_snd [OF _ quiet_ops(5)]
        split: sum.split prod.split option.split)
qed

lemma quiet_init:
  assumes "createPendingOAuthInit hash challenge ttl now gen victims verifier st prov tok ct dev s = Inr (x, t)"
  shows "quiet s t"
  using assms
  by (auto simp: createPendingOAuthInit_def createSession_def Let_def quiet_def sessions_setSession
      new_session_def split: sum.splits prod.splits if_splits)

lemma quiet_poll: "(\<And>h. sessions t h = sessions s h \<or> sessions t h = None) \<Longrightarrow> quiet s t"
  by (rule quiet_shrink) (metis option.distinct(1))

lemma action_store:
  "snd (handleProviderCallbackAction b t0 t1 t2 s) =
     (case callbackActionBodySchema b of
        None \<Rightarrow> s
      | Some (st, ac) \<Rightarrow>
          if \<not> hex64 st then s
          else (case getSessionByState t0 st s of
             (None, s') \<Rightarrow> s'
           | (Some se, s') \<Rightarrow>
               if ac = DenyAction
               then (if status se = Complete \<or> status se = Consumed then s'
                     else snd (denySession t1 t2 (tokenHash se) s'))
               else if status se \<in> {Complete, Consumed, Denied, Error} then s'
               else snd (confirmSession t1 t2 (tokenHash se) s')))"
  by (simp add: handleProviderCallbackAction_def split: option.split prod.split callback_action.split)

lemma action_effect:
  assumes "\<not> quiet s (snd (handleProviderCallbackAction b t0 t1 t2 s))"
  obtains st se where "callbackActionBodySchema b = Some (st, ConfirmAction)"
    and "getSessionByState t0 st s = (Some se, s)"
    and "snd (handleProviderCallbackAction b t0 t1 t2 s) = snd (confirmSession t1 t2 (tokenHash se) s)"
proof -
  obtain st ac where b: "callbackActionBodySchema b = Some (st, ac)" and hex: "hex64 st"
    using assms by (cases "callbackActionBodySchema b") (auto simp: action_store split: if_splits)
  obtain x s' where x: "getSessionByState t0 st s = (x, s')"
    by (cases "getSessionByState t0 st s") blast
  note store = action_store [of b t0 t1 t2 s, unfolded b option.case prod.case x]
  have "x \<noteq> None"
  proof
    assume "x = None"
    with assms quiet_state [OF x] hex show False by (simp add: store)
  qed
  then obtain se where se: "x = Some se" by blast
  have s': "s' = s" using getSessionByState_eq(3) [OF x se] by blast
  have "ac = ConfirmAction"
    using assms quiet_ops(1) hex by (cases ac) (auto simp: store se s' split: if_splits)
  moreover from this have "snd (handleProviderCallbackAction b t0 t1 t2 s) = snd (confirmSession t1 t2 (tokenHash se) s)"
    using assms hex by (auto simp: store se s' split: if_splits)
  ultimately show ?thesis using that b x se s' by blast
qed

lemma confirm_effect:
  assumes "t = snd (confirmSession t1 t2 h0 s)" and "sessions t h = Some r'" and "sessions s h \<noteq> Some r'"
  shows "h = h0 \<and> (\<exists>r. sessions s h0 = Some r \<and> oauthState r' = oauthState r)"
  using assms
  by (auto simp: confirmSession_def guarded_update_def getActiveEntry_def updateSession_def
      apply_update_def Let_def split: option.splits if_splits)

lemma loud_step_is_action:
  assumes "flow_step s ev t" and "\<not> quiet s t"
  shows "\<exists>b t0 t1 t2. ev = EvAction b \<and> t = snd (handleProviderCallbackAction b t0 t1 t2 s)"
  using assms
proof (induction rule: flow_step.induct)
  case (init hash challenge ttl now gen victims verifier st prov tok ct dev s x t)
  then show ?case using quiet_init by blast
next
  case (poll s t)
  then show ?case using quiet_poll by blast
next
  case (action s b t0 t1 t2)
  show ?case by blast
next
  case (redirect s prov q t0 t1 t2)
  from redirect.prems quiet_redirect show ?case by (rule notE)
next
  case (exchanged s prov se res t1 t2)
  from exchanged.prems quiet_exchanged show ?case by (rule notE)
next
  case (status_begin s hash v tmo t0 t1 t2)
  from status_begin.prems quiet_status(1) show ?case by (rule notE)
next
  case (status_reply s open_conn now h nx)
  from status_reply.prems quiet_status(2) show ?case by (rule notE)
next
  case (ack s hash v now)
  from ack.prems quiet_status(3) show ?case by (rule notE)
qed

text \<open>C0: The anti-phishing guarantee of the handlers.  Between any two requests, if a
  session offers tokens that it did not offer before, then the request in between
  was a submission of the confirmation form with the action \<open>confirm\<close> and exactly
  that session's \<open>state\<close>, the session was awaiting confirmation, and the tokens
  are those staged by its own code exchange; no provider redirect, exchange,
  init, poll or acknowledgement can release tokens.\<close>
theorem tokens_released_only_by_confirm_form:
  assumes "flow_reachable s" and "flow_step s ev t"
    and "sessions t h = Some r'" and "tokens r' = Some tk" and "sessions s h \<noteq> Some r'"
  shows "\<exists>b r. ev = EvAction b \<and> callbackActionBodySchema b = Some (oauthState r', ConfirmAction) \<and>
     sessions s h = Some r \<and> status r = AwaitingConfirmation \<and> stagedTokens r = Some tk"
proof -
  have reach: "auth_reachable s" using assms(1) by (rule flow_reachable_store)
  have loud: "\<not> quiet s t" using assms(3-5) by (auto simp: quiet_def)
  obtain b t0 t1 t2 where ev: "ev = EvAction b"
    and t: "t = snd (handleProviderCallbackAction b t0 t1 t2 s)"
    using loud_step_is_action [OF assms(2) loud] by blast
  from loud obtain st se where b: "callbackActionBodySchema b = Some (st, ConfirmAction)"
    and look: "getSessionByState t0 st s = (Some se, s)"
    and tc: "t = snd (confirmSession t1 t2 (tokenHash se) s)"
    unfolding t by (rule action_effect)
  obtain h' q where q: "sessions s h' = Some q" "oauthState q = st" "se = cloneSession q"
    using lookup_state_lemma [OF reach, of t0 st se] look by auto
  have "tokenHash q = h'"
    using table.always [OF reach] q(1) by (simp add: structure_inv_def index_ok_def)
  with confirm_effect [OF tc assms(3,5)] q have st: "oauthState r' = st" by auto
  have "auth_step s t" unfolding tc by (rule auth_step.confirm)
  from session_lifecycle_lemma [OF reach this assms(3)] assms(4,5)
  obtain r where "sessions s h = Some r" "session_move r r'"
    by (auto simp: newly_created_def new_session_def)
  with move_tokens [OF _ assms(4)] ev b st show ?thesis by blast
qed


section \<open>A sign-in through the handlers\<close>

definition fd_state :: string where
  "fd_state = replicate 64 (CHR ''a'')"

definition fd_params :: session_params where
  "fd_params = demo_params\<lparr>p_state := fd_state\<rparr>"

definition fd_pending :: pending_auth_store where
  "fd_pending = setSession [] (new_session 300000 0 ''ABCD'' fd_params) empty_store"

definition fd_session :: pending_auth_session where
  "fd_session = cloneSession (new_session 300000 0 ''ABCD'' fd_params)"

definition fd_result :: auth_result where
  "fd_result = \<lparr>ar_accessToken = ''at'', ar_refreshToken = ''rt'', ar_user = demo_user, ar_accountStatus = Created\<rparr>"

definition fd_staged :: pending_auth_store where
  "fd_staged = snd (callbackExchanged Github fd_session (Inr fd_result) 10 10 fd_pending)"

definition fd_confirm :: action_body where
  "fd_confirm = \<lparr>b_state = Str fd_state, b_action = Str ''confirm''\<rparr>"

definition fd_complete :: pending_auth_store where
  "fd_complete = snd (handleProviderCallbackAction fd_confirm 20 20 20 fd_staged)"

lemma fd_hex [simp]: "hex64 fd_state" by code_simp
lemma fd_state_ne [simp]: "fd_state \<noteq> []" by (simp add: fd_state_def)

lemma fd_pending_reachable: "flow_reachable fd_pending"
proof (rule flow_reachable.step [OF flow_reachable.start])
  have "createPendingOAuthInit (\<lambda>_. ''h1'') (\<lambda>v. v) 300000 0 (\<lambda>_. ''abcd'') [] ''v'' fd_state Github ''t''
      (Some AppIOS) None empty_store = Inr ((fd_session, ''v''), fd_pending)"
    using generate_ABCD [of empty_store]
    by (simp add: createPendingOAuthInit_def createSession_def fd_pending_def fd_session_def fd_params_def demo_params_def
        empty_store_def Let_def)
  then show "flow_step empty_store EvInit fd_pending"
    by (rule flow_step.init) (simp add: empty_store_def)
qed

lemma fd_staged_reachable: "flow_reachable fd_staged"
  unfolding fd_staged_def by (rule flow_reachable.step [OF fd_pending_reachable flow_step.exchanged])

lemma fd_complete_step: "flow_step fd_staged (EvAction fd_confirm) fd_complete"
  unfolding fd_complete_def by (rule flow_step.action)

lemma fd_staged_session:
  "sessions fd_staged ''h1'' = Some ((new_session 300000 0 ''ABCD'' fd_params)
     \<lparr>status := AwaitingConfirmation, stagedTokens := Some demo_tokens,
      stagedUser := Some demo_user, stagedAccountStatus := Some Created\<rparr>)"
  "tokenHashesByState fd_staged fd_state = Some ''h1''"
  by (simp_all add: fd_staged_def callbackExchanged_def fd_session_def fd_result_def fd_params_def fd_pending_def store_eval)

lemma fd_complete_session:
  "sessions fd_complete ''h1'' = Some ((new_session 300000 0 ''ABCD'' fd_params)
     \<lparr>status := Complete, tokens := Some demo_tokens, user := Some demo_user,
      accountStatus := Some Created\<rparr>)"
  using fd_staged_session
  by (simp add: fd_complete_def handleProviderCallbackAction_def callbackActionBodySchema_def fd_confirm_def
     getSessionByState_def getSessionByTokenHash_def getActiveEntry_def new_session_def confirmSession_def guarded_update_def
     updateSession_def apply_update_def blank_update_def fd_params_def demo_params_def Let_def)

theorem handlers_refine_store_witness:
  "auth_reachable fd_complete \<and> tokens (the (sessions fd_complete ''h1'')) = Some demo_tokens"
  using handlers_refine_store [OF flow_reachable.step [OF fd_staged_reachable fd_complete_step]]
  by (simp add: fd_complete_session)

theorem tokens_released_only_by_confirm_form_witness:
  "tokens (the (sessions fd_complete ''h1'')) = Some demo_tokens \<and>
   stagedTokens (the (sessions fd_staged ''h1'')) = Some demo_tokens"
  using tokens_released_only_by_confirm_form [OF fd_staged_reachable fd_complete_step fd_complete_session,
      of demo_tokens]
  by (auto simp: fd_staged_session fd_complete_session new_session_def)

section \<open>A denied sign-in cannot be revived\<close>

definition deny_form :: "string \<Rightarrow> action_body" where
  "deny_form st = \<lparr>b_state = Str st, b_action = Str ''deny''\<rparr>"

definition confirm_form :: "string \<Rightarrow> action_body" where
  "confirm_form st = \<lparr>b_state = Str st, b_action = Str ''confirm''\<rparr>"

lemma deny_form_effect:
  assumes "sessions s h = Some r" and "tokenHash r = h" and "tokenHashesByState s st = Some h"
    and "hex64 st" and "h \<noteq> []" and "undecided (status r)"
    and "t0 < expiresAt r" and "t1 < expiresAt r" and "t2 < expiresAt r"
  shows "snd (handleProviderCallbackAction (deny_form st) t0 t1 t2 s) =
     notifyWaiters False h (Some (apply_update (blank_update Denied) r))
       (s\<lparr>sessions := (sessions s)(h \<mapsto> apply_update (blank_update Denied) r)\<rparr>)"
proof -
  have "st \<noteq> []" using assms(4) by (auto simp: hex64_def)
  then show ?thesis
    using assms
    by (auto simp: action_store callbackActionBodySchema_def deny_form_def getSessionByState_def getSessionByTokenHash_def
        getActiveEntry_def denySession_def guarded_update_def updateSession_def settled_def undecided_def Let_def)
qed

text \<open>C6: Deny wins the race.  If the confirmation form's deny is submitted while the
  session is undecided, then an exchange that settles afterwards, with any
  outcome, and a confirm submitted afterwards, in any order, leave the store as
  the denial left it: the exchange answers the 410 page (or 502 when it failed),
  the confirm answers that the request was cancelled, and the tokens the
  exchange obtained are in no session.\<close>
theorem deny_beats_exchange_and_confirm:
  assumes "flow_reachable s" and "sessions s h = Some r" and "undecided (status r)"
    and "hex64 (oauthState r)" and "h \<noteq> []"
    and "\<forall>t \<in> {t0, t1, t2, t3, t4, t5, t6, t7}. t < expiresAt r"
    and "s' = snd (handleProviderCallbackAction (deny_form (oauthState r)) t0 t1 t2 s)"
    and "tokenHash se = h"
  shows "callbackExchanged prov se res t3 t4 s' =
       (case res of
          Inl _ \<Rightarrow> (ErrorPage 502 (utf ''Sign-in failed'')
             (utf ''Sesori could not finish the provider sign-in. Please return to the app and try again.''), s')
        | Inr _ \<Rightarrow> (ErrorPage 410 (utf ''Sign-in request expired'')
             (utf ''This sign-in request expired before it could be confirmed. Please start again from Sesori.''), s'))
     \<and> handleProviderCallbackAction (confirm_form (oauthState r)) t5 t6 t7 s' =
         (DeniedPage (utf ''Sign-in cancelled'') (utf ''This sign-in request was already cancelled.''), s')
     \<and> (\<exists>r'. sessions s' h = Some r' \<and> status r' = Denied \<and> tokens r' = None \<and> stagedTokens r' = None)"
proof -
  have inv: "structure_inv s" using table.always [OF flow_reachable_store [OF assms(1)]] .
  have h: "tokenHash r = h" using inv assms(2) by (simp add: structure_inv_def index_ok_def)
  have idx: "tokenHashesByState s (oauthState r) = Some h"
    using inv assms(2) by (auto simp: structure_inv_def index_ok_def dest: injective_index_lookup)
  have s': "s' = notifyWaiters False h (Some (apply_update (blank_update Denied) r))
       (s\<lparr>sessions := (sessions s)(h \<mapsto> apply_update (blank_update Denied) r)\<rparr>)"
    using assms(7) deny_form_effect [OF assms(2) h idx assms(4,5,3)] assms(6) by simp
  have r': "sessions s' h = Some (apply_update (blank_update Denied) r)"
    and i': "tokenHashesByState s' (oauthState r) = Some h"
    using idx by (simp_all add: s')
  have ne: "oauthState r \<noteq> []" using assms(4) by (auto simp: hex64_def)
  have e: "expiresAt (apply_update (blank_update Denied) r) = expiresAt r"
    "status (apply_update (blank_update Denied) r) = Denied"
    "tokens (apply_update (blank_update Denied) r) = None"
    "stagedTokens (apply_update (blank_update Denied) r) = None"
    by (simp_all add: apply_update_def blank_update_def)
  show ?thesis
    using assms(4-6,8) r' i' ne e
    by (simp add: callbackExchanged_def stageCompletion_def failSession_def guarded_update_def getActiveEntry_def
        settled_def handleProviderCallbackAction_def callbackActionBodySchema_def confirm_form_def
        getSessionByState_def getSessionByTokenHash_def split: sum.split)
qed

theorem deny_beats_exchange_and_confirm_witness:
  "snd (callbackExchanged Github fd_session (Inr fd_result) 40 50
      (snd (handleProviderCallbackAction (deny_form fd_state) 30 30 30 fd_staged)))
   = snd (handleProviderCallbackAction (deny_form fd_state) 30 30 30 fd_staged)"
  using deny_beats_exchange_and_confirm [OF fd_staged_reachable fd_staged_session(1) _ _ _ _ refl,
      of 30 30 30 40 50 60 60 60 fd_session Github "Inr fd_result"]
  by (simp add: new_session_def fd_params_def demo_params_def undecided_def fd_session_def)

end
