(* ===== verification/OAuthPagesProps.thy ===== *)
theory OAuthPagesProps
  imports OAuthFlow
begin

text \<open>
  What the sign-in pages and the status poll show: untrusted text is escaped and
  bounded, the session-token header has one canonical form, and the poll loop
  stops for the right reasons.
\<close>

section \<open>Escaping\<close>

fun escape_char :: "nat \<Rightarrow> utext" where
  "escape_char c =
     (if c = 38 then utf ''&amp;'' else if c = 60 then utf ''&lt;'' else if c = 62 then utf ''&gt;''
      else if c = 34 then utf ''&quot;'' else if c = 39 then utf ''&#39;'' else [c])"

lemma replaceAll_append: "replaceAll c r (a @ b) = replaceAll c r a @ replaceAll c r b"
  by (simp add: replaceAll_def)

lemma replaceAll_simps [simp]:
  "replaceAll c r [] = []"
  "replaceAll c r (x # xs) = (if x = c then r else [x]) @ replaceAll c r xs"
  by (simp_all add: replaceAll_def)

lemma escape_chain: "escapeHtml (x # xs) = escape_char x @ escapeHtml xs"
  by (simp add: escapeHtml_def replaceAll_append)

lemma escapeHtml_concat: "escapeHtml s = concat (map escape_char s)"
  by (induction s) (simp_all add: escape_chain del: escape_char.simps, simp add: escapeHtml_def)

lemma escape_char_safe: "x \<in> set (escape_char c) \<Longrightarrow> x \<noteq> 60 \<and> x \<noteq> 62 \<and> x \<noteq> 34 \<and> x \<noteq> 39"
  by (auto split: if_splits)

lemma escape_char_prefix_free:
  "escape_char c @ s = escape_char d @ t \<Longrightarrow> c = d \<and> s = t"
  by (auto split: if_splits)

lemma escapeHtml_Nil_iff: "escapeHtml s = [] \<longleftrightarrow> s = []"
  by (cases s) (auto simp: escapeHtml_concat split: if_splits)

lemma escapeHtml_inj: "escapeHtml s = escapeHtml t \<Longrightarrow> s = t"
proof (induction s arbitrary: t)
  case Nil
  then show ?case using escapeHtml_Nil_iff [of t] by (simp add: escapeHtml_concat)
next
  case (Cons c s)
  then obtain d t' where t: "t = d # t'"
    using escapeHtml_Nil_iff [of "c # s"] by (cases t) (auto simp: escapeHtml_concat)
  have "escape_char c @ escapeHtml s = escape_char d @ escapeHtml t'"
    using Cons.prems unfolding t escape_chain .
  from escape_char_prefix_free [OF this] Cons.IH show ?case by (simp add: t)
qed

lemma escapeHtml_safe: "x \<in> set (escapeHtml s) \<Longrightarrow> x \<notin> {60, 62, 34, 39}"
  using escape_char_safe by (auto simp: escapeHtml_concat simp del: escape_char.simps)

text \<open>C0: Escaping.  The five chained replacements of \<open>escapeHtml\<close> are the
  simultaneous replacement of the five characters (the ampersand goes first, so
  nothing is escaped twice); the result has no angle bracket and no quote, and
  distinct texts have distinct escapes, so the page shows exactly the text given.\<close>
theorem escapeHtml_correct:
  "escapeHtml s = concat (map escape_char s) \<and> set (escapeHtml s) \<inter> {60, 62, 34, 39} = {} \<and>
   inj escapeHtml"
  using escapeHtml_safe by (auto simp: escapeHtml_concat [symmetric] intro: injI escapeHtml_inj)

definition markup :: "nat \<Rightarrow> utext \<Rightarrow> nat" where
  "markup c s = length (filter (\<lambda>x. x = c) s)"

lemma markup_simps [simp]:
  "markup c [] = 0" "markup c (x # s) = (if x = c then 1 else 0) + markup c s"
  by (simp_all add: markup_def)

lemma markup_append [simp]: "markup c (s @ t) = markup c s + markup c t"
  by (simp add: markup_def)

lemma markup_escaped [simp]: "c \<in> {60, 62, 34, 39} \<Longrightarrow> markup c (escapeHtml s) = 0"
  using escapeHtml_safe by (auto simp: markup_def filter_empty_conv)

text \<open>No markup injection.  Whatever the requesting client put into its device name,
  its versions or its state, and whatever text the identity provider reflected,
  every text the pages interpolate has a number of angle brackets and quotes that
  depends only on whether device information is present.\<close>
lemma pages_have_fixed_markup:
  assumes "c \<in> {60, 62, 34, 39}" and "x \<in> set (page_texts pg)"
  shows "markup c x = 0 \<or>
     (\<exists>prov se. pg = ConfirmationPage prov se \<and> x = renderRequestingDeviceHtml se \<and>
        markup c x = (if c = 39 then 0 else if device se = None then 4 else 6))"
proof (cases pg)
  case (ConfirmationPage prov se)
  have m: "markup c (renderRequestingDeviceHtml se) = (if c = 39 then 0 else if device se = None then 4 else 6)"
    using assms(1)
    by (auto simp: renderRequestingDeviceHtml_def Let_def split: option.split)
  show ?thesis using assms ConfirmationPage m by auto
qed (use assms in auto)

lemma pages_have_fixed_markup_witness:
  "markup 60 (escapeHtml (utf ''<b>'')) = 0"
  using pages_have_fixed_markup [of 60 "escapeHtml (utf ''<b>'')" "SuccessPage (utf ''<b>'') []"] by simp

section \<open>Bounded reflection\<close>

text \<open>The reflected error text.  The message of a failed callback keeps a prefix of
  the provider's text in whole code points (never half a surrogate pair), has at
  most 201 code points and at most 401 UTF-16 units, and is the text itself
  whenever that has at most 200 units.\<close>
lemma truncateForDisplay_bounds:
  "\<exists>k. truncateForDisplay v n = take k v @ (if utf16_length v \<le> n then [] else [8230]) \<and>
     length (truncateForDisplay v n) \<le> n + 1 \<and>
     utf16_length (truncateForDisplay v n) \<le> 2 * n + 1 \<and>
     (utf16_length v \<le> n \<longrightarrow> truncateForDisplay v n = v)"
proof -
  have c: "utf16_length (take n v) \<le> 2 * n"
    using utf16_length_le [of "take n v"] by simp
  have e: "utf16_length [8230] = 1" by (simp add: utf16_length_def)
  show ?thesis
  proof (cases "utf16_length v \<le> n")
    case True
    then show ?thesis
      using utf16_length_ge [of v] by (intro exI [of _ "length v"]) (simp add: truncateForDisplay_def)
  next
    case False
    with c e show ?thesis
      by (intro exI [of _ n]) (simp add: truncateForDisplay_def utf16_length_append)
  qed
qed

lemma truncateForDisplay_bounds_witness:
  "length (truncateForDisplay [97, 98, 99] 2) \<le> 3 \<and> truncateForDisplay [97, 98, 99] 2 = [97, 98, 8230]"
  using truncateForDisplay_bounds [of "[97, 98, 99]" 2]
  by (auto simp: truncateForDisplay_def utf16_length_def take_Cons')

lemma ellipsis_without_truncation:
  \<comment> \<open>the length test counts UTF-16 units, the cut counts code points\<close>
  "truncateForDisplay [128512, 128513] 3 = [128512, 128513, 8230]"
  by (simp add: truncateForDisplay_def utf16_length_def)

section \<open>The session-token header\<close>

lemma of_char_toLower:
  "of_char (toLower c) = (let n = (of_char c :: nat) in if 65 \<le> n \<and> n \<le> 90 then n + 32 else n)"
  by (simp add: toLower_def Let_def)

lemma toLower_hex: "hex_digit c \<Longrightarrow> hex_digit (toLower c)"
  by (auto simp: hex_digit_def of_char_toLower Let_def)

lemma toLower_idem: "toLower (toLower c) = toLower c"
  by (simp add: toLower_def)

text \<open>The token header is accepted exactly when its first value is 64 hexadecimal
  digits; the accepted token is the lower-case form, and two spellings of the
  same token that differ in case are the same token.\<close>
lemma parseSessionTokenHeader_canonical:
  "(parseSessionTokenHeader (One s) = Inr tok \<longleftrightarrow> hex64 s \<and> tok = map toLower s) \<and>
   parseSessionTokenHeader (Many (s # ss)) = parseSessionTokenHeader (One s) \<and>
   (hex64 s \<longrightarrow> parseSessionTokenHeader (One (map toLower s)) = parseSessionTokenHeader (One s))"
proof -
  have "hex64 s \<Longrightarrow> hex64 (map toLower s) \<and> map toLower (map toLower s) = map toLower s"
    using toLower_hex toLower_idem by (auto simp: hex64_def list_all_iff)
  then show ?thesis
    by (auto simp: parseSessionTokenHeader_def hex64_def)
qed

lemma parseSessionTokenHeader_canonical_witness:
  "parseSessionTokenHeader (One (replicate 64 (CHR ''A''))) = Inr (replicate 64 (CHR ''a''))"
proof -
  have "hex64 (replicate 64 (CHR ''A''))" "map toLower (replicate 64 (CHR ''A'')) = replicate 64 (CHR ''a'')"
    by code_simp+
  then show ?thesis
    using parseSessionTokenHeader_canonical [of "replicate 64 (CHR ''A'')" "replicate 64 (CHR ''a'')" "[]"] by simp
qed

section \<open>The long poll\<close>

text \<open>The long-poll loop.  For every sequence of wake-ups, the loop answers an
  undecided session only when its deadline has passed, never waits longer than
  the time that is left, and otherwise answers the first session it was given
  that is not awaiting confirmation; a deleted session is reported as such.\<close>
lemma poll_loop_answers:
  "case waitForTerminalOrTimeout deadline ws now se of
     Await d \<Rightarrow> 0 < d \<and> d = deadline - now
   | Settled None \<Rightarrow> \<exists>t. (t, None) \<in> set ws
   | Settled (Some n) \<Rightarrow> (n = se \<or> (\<exists>t. (t, Some n) \<in> set ws)) \<and>
       (status n = AwaitingConfirmation \<longrightarrow> deadline \<le> now \<or> (\<exists>t \<in> fst ` set ws. deadline \<le> t))"
  by (induction deadline ws now se rule: waitForTerminalOrTimeout.induct)
    (auto simp: undecided_def split: poll_progress.splits option.splits)

lemma poll_loop_answers_witness:
  "waitForTerminalOrTimeout 100 [(5, None)] 50 (cloneSession (new_session 9 0 ''ABCD''
     \<lparr>p_tokenHash = [], p_provider = Github, p_pkceVerifier = [], p_state = [],
      p_clientType = None, p_device = None\<rparr>)) = Settled None \<and> (\<exists>t. (t, None) \<in> set [(5::millis, None :: pending_auth_session option)])"
  using poll_loop_answers [where deadline = 100 and ws = "[(5, None)]" and now = 50 and se = "cloneSession (new_session 9 0 ''ABCD''
     \<lparr>p_tokenHash = [], p_provider = Github, p_pkceVerifier = [], p_state = [],
      p_clientType = None, p_device = None\<rparr>)"]
  by (simp add: undecided_def new_session_def)

end
