(* ===== verification/Documents.thy ===== *)
theory Documents
  imports Prelude
begin

text \<open>
  The document collections of the server.  The database is outside the
  repository; what the repositories rely on is that every query reads, and every
  single-document update changes, a collection atomically.  A collection is the
  list of its documents in natural order; a filter is a predicate, an update a
  function, both translated from the query the source writes.  A query returns
  the first match in natural order or in the order of its sort key, an insert
  that a unique index forbids fails.  A field that may be missing or null keeps
  both cases apart, because \<open>$exists\<close> does.

  The two locales at the end are the contracts many fields share: a field that
  is written once, and a field that only grows.
\<close>

section \<open>Fields\<close>

datatype 'a field = Missing | Null | Val 'a

fun is_null :: "'a field \<Rightarrow> bool" where
  \<comment> \<open>the filter \<open>{field: null}\<close>, and falsiness of a document or date field\<close>
  "is_null (Val _) = False"
| "is_null _ = True"

fun val :: "'a field \<Rightarrow> 'a option" where
  "val (Val x) = Some x"
| "val _ = None"

lemma is_null_val: "is_null f \<longleftrightarrow> val f = None"
  by (cases f) simp_all

fun if_null :: "'a field \<Rightarrow> 'a field \<Rightarrow> 'a field" where
  \<comment> \<open>\<open>$ifNull\<close>\<close>
  "if_null (Val x) _ = Val x"
| "if_null _ d = d"

section \<open>Queries and updates\<close>

definition findOne :: "('d \<Rightarrow> bool) \<Rightarrow> 'd list \<Rightarrow> 'd option" where
  "findOne p c = List.find p c"

fun updateFirst :: "('d \<Rightarrow> bool) \<Rightarrow> ('d \<Rightarrow> 'd) \<Rightarrow> 'd list \<Rightarrow> 'd list" where
  "updateFirst p f [] = []"
| "updateFirst p f (d # c) = (if p d then f d # c else d # updateFirst p f c)"

definition findOneAndUpdate :: "('d \<Rightarrow> bool) \<Rightarrow> ('d \<Rightarrow> 'd) \<Rightarrow> 'd list \<Rightarrow> ('d \<times> 'd) option \<times> 'd list" where
  \<comment> \<open>the document before and after, when one matched\<close>
  "findOneAndUpdate p f c =
     (case findOne p c of None \<Rightarrow> (None, c) | Some d \<Rightarrow> (Some (d, f d), updateFirst p f c))"

definition updateMany :: "('d \<Rightarrow> bool) \<Rightarrow> ('d \<Rightarrow> 'd) \<Rightarrow> 'd list \<Rightarrow> 'd list" where
  "updateMany p f c = map (\<lambda>d. if p d then f d else d) c"

definition insertOne :: "('d \<Rightarrow> 'k) \<Rightarrow> 'd \<Rightarrow> 'd list \<Rightarrow> 'd list option" where
  \<comment> \<open>\<open>key\<close> is the unique index; \<open>None\<close> is the duplicate-key error\<close>
  "insertOne key d c = (if \<exists>x \<in> set c. key x = key d then None else Some (c @ [d]))"

definition find_page :: "('d \<Rightarrow> 'k::linorder) \<Rightarrow> 'k option \<Rightarrow> ('d \<Rightarrow> bool) \<Rightarrow> nat \<Rightarrow> 'd list \<Rightarrow> 'd list" where
  \<comment> \<open>\<open>find({key > after, p}).sort({key: 1}).limit(n)\<close>\<close>
  "find_page key after p n c =
     take n (sort_key key (filter (\<lambda>d. (case after of None \<Rightarrow> True | Some a \<Rightarrow> a < key d) \<and> p d) c))"

section \<open>Laws\<close>

named_theorems documents \<open>what queries and updates do to a collection\<close>

lemma findOne_Some: "findOne p c = Some d \<Longrightarrow> d \<in> set c \<and> p d"
  by (auto simp: findOne_def find_Some_iff)

lemma findOne_None: "findOne p c = None \<longleftrightarrow> (\<forall>d \<in> set c. \<not> p d)"
  by (auto simp: findOne_def find_None_iff)

lemma findOne_simps [simp]:
  "findOne p [] = None"
  "findOne p (d # c) = (if p d then Some d else findOne p c)"
  by (simp_all add: findOne_def)

lemma findOne_append:
  "findOne p (c @ c') = (case findOne p c of None \<Rightarrow> findOne p c' | Some d \<Rightarrow> Some d)"
  by (induction c) simp_all

lemma findOne_unique:
  "distinct (map key c) \<Longrightarrow> d \<in> set c \<Longrightarrow> findOne (\<lambda>x. key x = key d) c = Some d"
  by (induction c) (auto simp: image_iff)

lemma findOne_updateFirst:
  "findOne p c = Some d \<Longrightarrow> p (f d) \<Longrightarrow> findOne p (updateFirst p f c) = Some (f d)"
  by (induction c) auto

lemma findOne_updateFirst_other:
  assumes "\<And>d. p d \<Longrightarrow> \<not> q d" and "\<And>d. p d \<Longrightarrow> \<not> q (f d)"
  shows "findOne q (updateFirst p f c) = findOne q c"
  using assms by (induction c) auto

lemma updateFirst_none: "findOne p c = None \<Longrightarrow> updateFirst p f c = c"
  by (induction c) (auto split: if_splits)

lemma updateFirst_id: "findOne p c = Some d \<Longrightarrow> f d = d \<Longrightarrow> updateFirst p f c = c"
  by (induction c) (auto split: if_splits)

lemma map_updateFirst: "(\<And>d. p d \<Longrightarrow> key (f d) = key d) \<Longrightarrow> map key (updateFirst p f c) = map key c"
  by (induction c) auto

lemma map_updateMany: "(\<And>d. p d \<Longrightarrow> key (f d) = key d) \<Longrightarrow> map key (updateMany p f c) = map key c"
  by (simp add: updateMany_def)

lemma set_updateFirst: "x \<in> set (updateFirst p f c) \<Longrightarrow> x \<in> set c \<or> (\<exists>d \<in> set c. p d \<and> x = f d)"
  by (induction c) (auto split: if_splits)

lemma updateFirst_key:
  assumes "distinct (map key c)" and "findOne p c = Some d" and "key (f d) = key d"
  shows "set (updateFirst p f c) = insert (f d) (set c - {d}) \<and> distinct (map key (updateFirst p f c))"
  using assms by (induction c) (auto split: if_splits simp: image_iff dest: findOne_Some)

lemma insertOne_distinct: "insertOne key d c = Some c' \<Longrightarrow> distinct (map key c) \<Longrightarrow> distinct (map key c')"
proof -
  assume i: "insertOne key d c = Some c'" and c: "distinct (map key c)"
  then have "key d \<notin> key ` set c" "c' = c @ [d]"
    by (auto simp: insertOne_def split: if_splits)
  with c show ?thesis by simp
qed

lemma snd_findOneAndUpdate: "snd (findOneAndUpdate p f c) = updateFirst p f c"
  by (simp add: findOneAndUpdate_def updateFirst_none split: option.split)

section \<open>Following one document\<close>

text \<open>A collection evolves document by document: an update keeps the number and the
  keys of the documents and changes each along a relation, an insert appends.\<close>

fun evolves_by :: "('d \<Rightarrow> 'd \<Rightarrow> bool) \<Rightarrow> 'd list \<Rightarrow> 'd list \<Rightarrow> bool" where
  "evolves_by r [] c' = True"
| "evolves_by r (d # c) [] = False"
| "evolves_by r (d # c) (d' # c') = (r d d' \<and> evolves_by r c c')"

lemma evolves_by_append: "(\<And>d. r d d) \<Longrightarrow> evolves_by r c (c @ new)"
  by (induction c) simp_all

lemma evolves_by_refl: "(\<And>d. r d d) \<Longrightarrow> evolves_by r c c"
  using evolves_by_append [of r c "[]"] by simp

lemma evolves_by_updateFirst:
  "(\<And>d. r d d) \<Longrightarrow> (\<And>d. p d \<Longrightarrow> r d (f d)) \<Longrightarrow> evolves_by r c (updateFirst p f c)"
  by (induction c) (simp_all add: evolves_by_refl)

lemma evolves_by_updateMany:
  "(\<And>d. r d d) \<Longrightarrow> (\<And>d. p d \<Longrightarrow> r d (f d)) \<Longrightarrow> evolves_by r c (updateMany p f c)"
  by (induction c) (simp_all add: updateMany_def)

lemma evolves_by_insertOne:
  "(\<And>d. r d d) \<Longrightarrow> insertOne key d c = Some c' \<Longrightarrow> evolves_by r c c'"
  by (auto simp: insertOne_def intro: evolves_by_append split: if_splits)

lemma evolves_by_findOneAndUpdate:
  "(\<And>d. r d d) \<Longrightarrow> (\<And>d. p d \<Longrightarrow> r d (f d)) \<Longrightarrow> evolves_by r c (snd (findOneAndUpdate p f c))"
  by (simp add: snd_findOneAndUpdate evolves_by_updateFirst)

lemma evolves_by_nth:
  "evolves_by r c c' \<Longrightarrow> i < length c \<Longrightarrow> i < length c' \<and> r (c ! i) (c' ! i)"
  by (induction r c c' arbitrary: i rule: evolves_by.induct) (auto simp: nth_Cons split: nat.splits)

lemma evolves_by_mem:
  assumes "evolves_by r c c'" and "d \<in> set c"
  obtains d' where "d' \<in> set c'" and "r d d'"
  using assms evolves_by_nth [OF assms(1)] by (metis in_set_conv_nth)

lemma evolves_by_find:
  assumes "evolves_by r c c'" and "findOne (\<lambda>d. key d = k) c = Some d" and "\<And>x y. r x y \<Longrightarrow> key y = key x"
  shows "\<exists>d'. findOne (\<lambda>d. key d = k) c' = Some d' \<and> r d d'"
  using assms(1,2)
proof (induction c arbitrary: c')
  case Nil
  then show ?case by simp
next
  case (Cons x c)
  from Cons.prems(1) obtain y c'' where "c' = y # c''" "r x y" "evolves_by r c c''"
    by (cases c') auto
  with Cons assms(3) show ?case by (auto split: if_splits)
qed

section \<open>Contracts of fields\<close>

locale growing =
  fixes step :: "'s \<Rightarrow> 's \<Rightarrow> bool" and le :: "'v \<Rightarrow> 'v \<Rightarrow> bool" and look :: "'k \<Rightarrow> 's \<Rightarrow> 'v option"
  assumes le_refl: "le v v"
    and le_trans: "le u v \<Longrightarrow> le v w \<Longrightarrow> le u w"
    and grows: "step s t \<Longrightarrow> look k s = Some v \<Longrightarrow> \<exists>w. look k t = Some w \<and> le v w"
begin

lemma grows_many: "step\<^sup>*\<^sup>* s t \<Longrightarrow> look k s = Some v \<Longrightarrow> \<exists>w. look k t = Some w \<and> le v w"
proof (induction rule: rtranclp_induct)
  case base
  then show ?case using le_refl by blast
next
  case (step t u)
  then show ?case using grows le_trans by blast
qed

end

locale write_once =
  fixes step :: "'s \<Rightarrow> 's \<Rightarrow> bool" and look :: "'k \<Rightarrow> 's \<Rightarrow> 'v option"
  assumes keeps: "step s t \<Longrightarrow> look k s = Some v \<Longrightarrow> look k t = Some v"

sublocale write_once \<subseteq> growing step "(=)" look
  by unfold_locales (use keeps in auto)

context write_once begin

lemma keeps_many: "step\<^sup>*\<^sup>* s t \<Longrightarrow> look k s = Some v \<Longrightarrow> look k t = Some v"
  using grows_many by blast

lemma observers_agree:
  "step\<^sup>*\<^sup>* s t \<Longrightarrow> step\<^sup>*\<^sup>* t u \<Longrightarrow> look k s = Some v \<Longrightarrow> look k u = Some v \<and> look k t = Some v"
  by (meson keeps_many rtranclp_trans)

end

section \<open>Cursor pagination\<close>

fun last_key :: "('d \<Rightarrow> 'k) \<Rightarrow> 'k option \<Rightarrow> 'd list \<Rightarrow> 'k option" where
  "last_key key after [] = after"
| "last_key key after (d # ds) = last_key key (Some (key d)) ds"

fun pages :: "nat \<Rightarrow> ('d \<Rightarrow> 'k::linorder) \<Rightarrow> 'k option \<Rightarrow> ('d \<Rightarrow> bool) \<Rightarrow> nat \<Rightarrow> 'd list \<Rightarrow> 'd list" where
  \<comment> \<open>what a caller reads that asks for pages until one is empty, at most \<open>fuel\<close> times\<close>
  "pages 0 key after p n c = []"
| "pages (Suc fuel) key after p n c =
     (let b = find_page key after p n c in
      if b = [] then [] else b @ pages fuel key (last_key key after b) p n c)"

definition beyond :: "('d \<Rightarrow> 'k::linorder) \<Rightarrow> 'k option \<Rightarrow> ('d \<Rightarrow> bool) \<Rightarrow> 'd list \<Rightarrow> 'd list" where
  "beyond key after p c =
     sort_key key (filter (\<lambda>d. (case after of None \<Rightarrow> True | Some a \<Rightarrow> a < key d) \<and> p d) c)"

lemma page_beyond: "find_page key after p n c = take n (beyond key after p c)"
  by (simp add: find_page_def beyond_def)

lemma last_key_last: "b \<noteq> [] \<Longrightarrow> last_key key after b = Some (key (last b))"
  by (induction b arbitrary: after) auto

lemma beyond_sorted: "distinct (map key c) \<Longrightarrow> sorted_wrt (\<lambda>x y. key x < key y) (beyond key after p c)"
proof -
  assume d: "distinct (map key c)"
  have "sorted (map key (beyond key after p c))" by (simp add: beyond_def)
  moreover have "distinct (map key (beyond key after p c))"
    using d by (simp add: beyond_def distinct_map inj_on_def)
  ultimately have "sorted_wrt (<) (map key (beyond key after p c))"
    by (simp add: strict_sorted_iff)
  then show ?thesis by (simp add: sorted_wrt_map)
qed

lemma beyond_set: "set (beyond key after p c) = {d \<in> set c. (case after of None \<Rightarrow> True | Some a \<Rightarrow> a < key d) \<and> p d}"
  by (auto simp: beyond_def)

lemma beyond_drop:
  assumes "distinct (map key c)" and "beyond key after p c = b @ r" and "b \<noteq> []"
  shows "beyond key (Some (key (last b))) p c = r"
proof -
  have s: "sorted_wrt (\<lambda>x y. key x < key y) (b @ r)"
    using beyond_sorted [OF assms(1), of after p] assms(2) by simp
  have l: "\<forall>x \<in> set b. key x \<le> key (last b)"
  proof (cases b rule: rev_cases)
    case (snoc b' z)
    then show ?thesis using s by (auto simp: sorted_wrt_append intro: less_imp_le)
  qed (use assms(3) in simp)
  have g: "\<forall>x \<in> set r. key (last b) < key x"
    using s assms(3) by (simp add: sorted_wrt_append)
  have after: "(case after of None \<Rightarrow> True | Some a \<Rightarrow> a < key (last b))"
  proof -
    have "last b \<in> set (beyond key after p c)" using assms(2,3) by simp
    then show ?thesis unfolding beyond_set by blast
  qed
  have "set (beyond key (Some (key (last b))) p c) = set r"
  proof (rule set_eqI)
    fix x
    have "x \<in> set r \<longleftrightarrow> x \<in> set (b @ r) \<and> key (last b) < key x"
      using l g by fastforce
    also have "\<dots> \<longleftrightarrow> x \<in> set (beyond key after p c) \<and> key (last b) < key x"
      by (simp only: assms(2))
    also have "\<dots> \<longleftrightarrow> x \<in> set (beyond key (Some (key (last b))) p c)"
      unfolding beyond_set using after by (cases after) auto
    finally show "x \<in> set (beyond key (Some (key (last b))) p c) \<longleftrightarrow> x \<in> set r" by simp
  qed
  moreover have "sorted_wrt (\<lambda>x y. key x < key y) r" using s by (simp add: sorted_wrt_append)
  moreover note beyond_sorted [OF assms(1), of "Some (key (last b))" p]
  ultimately have m: "map key (beyond key (Some (key (last b))) p c) = map key r"
    by (intro strict_sorted_equal) (simp_all add: sorted_wrt_map)
  have "set r \<subseteq> set (beyond key after p c)" by (simp add: assms(2))
  then have "set (beyond key (Some (key (last b))) p c) \<union> set r \<subseteq> set c"
    by (auto simp: beyond_set)
  then have "inj_on key (set (beyond key (Some (key (last b))) p c) \<union> set r)"
    using assms(1) by (meson distinct_map inj_on_subset)
  with m show ?thesis by (rule map_inj_on)
qed

lemma pages_complete:
  assumes "distinct (map key c)" and "0 < n" and "length (beyond key after p c) \<le> fuel"
  shows "pages fuel key after p n c = beyond key after p c"
  using assms(3)
proof (induction fuel arbitrary: after)
  case 0
  then show ?case by simp
next
  case (Suc fuel)
  let ?B = "beyond key after p c"
  show ?case
  proof (cases "?B = []")
    case True
    then show ?thesis by (simp add: page_beyond)
  next
    case False
    then have b: "take n ?B \<noteq> []" using assms(2) by simp
    have r: "beyond key (Some (key (last (take n ?B)))) p c = drop n ?B"
      using assms(1) _ b by (rule beyond_drop) simp
    have "pages fuel key (Some (key (last (take n ?B)))) p n c = drop n ?B"
      using Suc.IH [of "Some (key (last (take n ?B)))"] Suc.prems False assms(2) unfolding r by simp
    then show ?thesis
      using False assms(2) b by (simp add: page_beyond last_key_last [OF b] Let_def)
  qed
qed

end
