(* ===== verification/Errors.thy ===== *)
theory Errors
  imports Prelude
begin

text \<open>
  The error classes of \<open>src/lib/errors.ts\<close> and the reply the error handler of
  \<open>src/server.ts\<close> makes of a thrown value.  A JavaScript number that the code
  tests with \<open>Number.isSafeInteger\<close> is a \<open>js_number\<close>: an integer, or something
  else (a fraction, an infinity, NaN).  The debug message and the nested error
  only go to the log and are not modelled.
\<close>

datatype js_number = Integer int | NotAnInteger

definition MAX_SAFE_INTEGER :: int where
  "MAX_SAFE_INTEGER = 2 ^ 53 - 1"

fun isSafeInteger :: "js_number \<Rightarrow> bool" where
  "isSafeInteger (Integer i) = (\<bar>i\<bar> \<le> MAX_SAFE_INTEGER)"
| "isSafeInteger NotAnInteger = False"

definition DEFAULT_RETRY_AFTER_SECONDS :: int where
  "DEFAULT_RETRY_AFTER_SECONDS = 1"

definition MAX_RETRY_AFTER_SECONDS :: int where
  "MAX_RETRY_AFTER_SECONDS = 300"

fun clampRetryAfterSeconds :: "js_number option \<Rightarrow> int" where
  "clampRetryAfterSeconds (Some (Integer s)) =
     (if \<not> isSafeInteger (Integer s) \<or> s < DEFAULT_RETRY_AFTER_SECONDS then DEFAULT_RETRY_AFTER_SECONDS
      else min s MAX_RETRY_AFTER_SECONDS)"
| "clampRetryAfterSeconds _ = DEFAULT_RETRY_AFTER_SECONDS"

datatype api_error =
  BadRequestError
| UnauthenticatedError
| NotFoundError
| InternalServerError
| QuotaExceededError string "bool option"
| BadGatewayError
| ServiceRestartingError "js_number option"
| TranscriptionInvalidInputError
| TranscriptionRequestError string nat
| TranscriptionRateLimitError string
| TranscriptionUnusableAudioError
| TranscriptionQuotaExhaustedError
| TranscriptionInternalError
| LegacyTranscriptionError bool
| TranscriptionUnavailableError "js_number option"
| TranscriptionTimeoutError "js_number option"
| TranscriptionProviderError "js_number option"
| TranscriptionConfigurationError

fun message :: "api_error \<Rightarrow> string" where
  "message BadRequestError = ''bad_request''"
| "message UnauthenticatedError = ''unauthenticated''"
| "message NotFoundError = ''not_found''"
| "message InternalServerError = ''internal_server_error''"
| "message (QuotaExceededError _ _) = ''quota_exceeded''"
| "message BadGatewayError = ''bad_gateway''"
| "message (ServiceRestartingError _) = ''service_restarting''"
| "message TranscriptionInvalidInputError = ''bad_request''"
| "message (TranscriptionRequestError e _) = e"
| "message (TranscriptionRateLimitError e) = e"
| "message TranscriptionUnusableAudioError = ''transcription_provider_error''"
| "message TranscriptionQuotaExhaustedError = ''transcription_unavailable''"
| "message TranscriptionInternalError = ''internal_server_error''"
| "message (LegacyTranscriptionError _) = ''internal_server_error''"
| "message (TranscriptionUnavailableError _) = ''transcription_unavailable''"
| "message (TranscriptionTimeoutError _) = ''transcription_timeout''"
| "message (TranscriptionProviderError _) = ''transcription_provider_error''"
| "message TranscriptionConfigurationError = ''transcription_configuration_error''"

fun errorCode :: "api_error \<Rightarrow> nat" where
  "errorCode BadRequestError = 400"
| "errorCode UnauthenticatedError = 401"
| "errorCode NotFoundError = 404"
| "errorCode InternalServerError = 500"
| "errorCode (QuotaExceededError _ _) = 429"
| "errorCode BadGatewayError = 502"
| "errorCode (ServiceRestartingError _) = 503"
| "errorCode TranscriptionInvalidInputError = 400"
| "errorCode (TranscriptionRequestError _ c) = c"
| "errorCode (TranscriptionRateLimitError _) = 429"
| "errorCode TranscriptionUnusableAudioError = 502"
| "errorCode TranscriptionQuotaExhaustedError = 503"
| "errorCode TranscriptionInternalError = 500"
| "errorCode (LegacyTranscriptionError _) = 500"
| "errorCode (TranscriptionUnavailableError _) = 503"
| "errorCode (TranscriptionTimeoutError _) = 504"
| "errorCode (TranscriptionProviderError _) = 502"
| "errorCode TranscriptionConfigurationError = 500"

record response_body =
  rb_service :: "string option"
  rb_retryable :: "bool option"

definition only_retryable :: "bool \<Rightarrow> response_body" where
  "only_retryable b = \<lparr>rb_service = None, rb_retryable = Some b\<rparr>"

fun responseBody :: "api_error \<Rightarrow> response_body option" where
  "responseBody (QuotaExceededError s r) = Some \<lparr>rb_service = Some s, rb_retryable = r\<rparr>"
| "responseBody (ServiceRestartingError _) = Some (only_retryable True)"
| "responseBody TranscriptionInvalidInputError = Some (only_retryable False)"
| "responseBody (TranscriptionRequestError _ _) = Some (only_retryable False)"
| "responseBody (TranscriptionRateLimitError _) = Some (only_retryable True)"
| "responseBody TranscriptionUnusableAudioError = Some (only_retryable False)"
| "responseBody TranscriptionQuotaExhaustedError = Some (only_retryable False)"
| "responseBody TranscriptionInternalError = Some (only_retryable False)"
| "responseBody (LegacyTranscriptionError b) = Some (only_retryable b)"
| "responseBody (TranscriptionUnavailableError _) = Some (only_retryable True)"
| "responseBody (TranscriptionTimeoutError _) = Some (only_retryable True)"
| "responseBody (TranscriptionProviderError _) = Some (only_retryable True)"
| "responseBody TranscriptionConfigurationError = Some (only_retryable False)"
| "responseBody _ = None"

fun retryAfterSeconds :: "api_error \<Rightarrow> js_number option" where
  \<comment> \<open>the field is set by the constructors of four classes only\<close>
  "retryAfterSeconds (ServiceRestartingError s) = Some (Integer (clampRetryAfterSeconds s))"
| "retryAfterSeconds (TranscriptionUnavailableError s) = Some (Integer (clampRetryAfterSeconds s))"
| "retryAfterSeconds (TranscriptionTimeoutError s) = Some (Integer (clampRetryAfterSeconds s))"
| "retryAfterSeconds (TranscriptionProviderError s) = Some (Integer (clampRetryAfterSeconds s))"
| "retryAfterSeconds _ = None"

section \<open>The error handler\<close>

datatype thrown =
  Api api_error
| Framework nat "string option"
| Unknown

record error_reply =
  er_status :: nat
  er_error :: string
  er_service :: "string option"
  er_retryable :: "bool option"
  er_retryAfter :: "int option"

fun retry_after_header :: "js_number option \<Rightarrow> int option" where
  "retry_after_header (Some (Integer s)) = (if isSafeInteger (Integer s) \<and> 0 < s then Some s else None)"
| "retry_after_header _ = None"

fun errorHandler :: "thrown \<Rightarrow> error_reply" where
  "errorHandler (Api e) =
     \<lparr>er_status = errorCode e, er_error = message e,
      er_service = (case responseBody e of None \<Rightarrow> None | Some b \<Rightarrow> rb_service b),
      er_retryable = (case responseBody e of None \<Rightarrow> None | Some b \<Rightarrow> rb_retryable b),
      er_retryAfter = retry_after_header (retryAfterSeconds e)\<rparr>"
| "errorHandler (Framework st msg) =
     (if 400 \<le> st \<and> st < 500
      then \<lparr>er_status = st, er_error = (case msg of None \<Rightarrow> ''bad_request'' | Some m \<Rightarrow> m),
            er_service = None, er_retryable = None, er_retryAfter = None\<rparr>
      else \<lparr>er_status = 500, er_error = ''internal_server_error'',
            er_service = None, er_retryable = None, er_retryAfter = None\<rparr>)"
| "errorHandler Unknown =
     \<lparr>er_status = 500, er_error = ''internal_server_error'',
      er_service = None, er_retryable = None, er_retryAfter = None\<rparr>"

section \<open>What a client sees\<close>

lemma clamp_bounds: "1 \<le> clampRetryAfterSeconds s \<and> clampRetryAfterSeconds s \<le> 300"
  by (induction s rule: clampRetryAfterSeconds.induct)
    (auto simp: DEFAULT_RETRY_AFTER_SECONDS_def MAX_RETRY_AFTER_SECONDS_def)

lemma clamp_safe: "isSafeInteger (Integer (clampRetryAfterSeconds s))"
  using clamp_bounds [of s] by (simp add: MAX_SAFE_INTEGER_def)

text \<open>C0: The Retry-After contract.  Whatever value the code or a provider throws, the
  error handler sends a Retry-After header only together with the body field
  \<open>retryable: true\<close> and a status of 502, 503 or 504, and its value is a whole
  number between 1 and 300 seconds; an error that says it is not retryable never
  carries the header.\<close>
theorem retry_after_contract:
  assumes "er_retryAfter (errorHandler x) = Some s"
  shows "1 \<le> s \<and> s \<le> 300 \<and> er_retryable (errorHandler x) = Some True \<and>
     er_status (errorHandler x) \<in> {502, 503, 504}"
proof (cases x)
  case (Api e)
  then show ?thesis using assms
    by (cases e) (auto simp: only_retryable_def clamp_bounds split: if_splits)
qed (use assms in \<open>auto split: if_splits\<close>)

lemma retry_after_contract_witness:
  "er_retryAfter (errorHandler (Api (TranscriptionUnavailableError (Some (Integer 9000))))) = Some 300"
  using retry_after_contract [of "Api (TranscriptionUnavailableError (Some (Integer 9000)))" 300]
  by (simp add: DEFAULT_RETRY_AFTER_SECONDS_def MAX_RETRY_AFTER_SECONDS_def MAX_SAFE_INTEGER_def)

end
