(* ===== verification/UserRepo.thy ===== *)
theory UserRepo
  imports Documents Errors "HOL-Library.List_Lexorder" "HOL-Library.Char_ord"
begin

text \<open>
  The users collection, \<open>src/repositories/user-repo.ts\<close>, with the product
  analytics preference that lives on the user document, and the preference
  service \<open>src/services/product-analytics-preference-service.ts\<close>.  An ObjectId is
  its hexadecimal string; \<open>oid\<close> is the driver's parser, \<open>None\<close> when it rejects
  the input.  A method that awaits twice takes \<open>env\<close>, what other requests do to
  the collection between its two queries.  A \<open>Date\<close> argument is \<open>None\<close> when it is
  an invalid date.
\<close>

section \<open>The user document\<close>

datatype preference = Enabled | Disabled

fun preference_name :: "preference \<Rightarrow> string" where
  "preference_name Enabled = ''enabled''"
| "preference_name Disabled = ''disabled''"

definition preferenceSchema :: "string \<Rightarrow> preference option" where
  "preferenceSchema s =
     (if s = ''enabled'' then Some Enabled else if s = ''disabled'' then Some Disabled else None)"

record user =
  u_id :: string
  u_tokenVersion :: "int option"
  u_createdAt :: millis
  u_updatedAt :: millis
  u_preference :: "string field"
  u_preferenceUpdatedAt :: "millis field"
  u_preferenceRevision :: "int field"
  u_lastOperationId :: "string field"
  u_exportSuppressedAt :: "millis field"

record preference_record =
  pr_preference :: preference
  pr_updatedAt :: millis
  pr_revision :: int

definition productAnalyticsPreferenceRecordFrom :: "user \<Rightarrow> api_error + preference_record" where
  "productAnalyticsPreferenceRecordFrom d =
     (let pref = (if \<not> is_null (u_exportSuppressedAt d) then Some Disabled
                  else case u_preference d of Val s \<Rightarrow> preferenceSchema s | _ \<Rightarrow> None)
      in case (pref, u_preferenceRevision d, u_preferenceUpdatedAt d) of
           (Some p, Val r, Val t) \<Rightarrow>
             if 0 < r \<and> r \<le> MAX_SAFE_INTEGER
             then Inr \<lparr>pr_preference = p, pr_updatedAt = t, pr_revision = r\<rparr>
             else Inl InternalServerError
         | _ \<Rightarrow> Inl InternalServerError)"

section \<open>Accounts\<close>

definition findById :: "(string \<Rightarrow> string option) \<Rightarrow> string \<Rightarrow> user list \<Rightarrow> user option" where
  "findById oid userId c =
     (case oid userId of None \<Rightarrow> None | Some i \<Rightarrow> findOne (\<lambda>d. u_id d = i) c)"

definition createUser :: "millis \<Rightarrow> string \<Rightarrow> user list \<Rightarrow> user list option" where
  \<comment> \<open>\<open>create\<close>; the id is given or freshly generated, \<open>None\<close> is the duplicate-key error\<close>
  "createUser now i c = insertOne u_id
     \<lparr>u_id = i, u_tokenVersion = Some 0, u_createdAt = now, u_updatedAt = now,
      u_preference = Val (preference_name Enabled), u_preferenceUpdatedAt = Val now,
      u_preferenceRevision = Val 1, u_lastOperationId = Null, u_exportSuppressedAt = Missing\<rparr> c"

definition incrementTokenVersion ::
  "(string \<Rightarrow> string option) \<Rightarrow> millis \<Rightarrow> string \<Rightarrow> user list \<Rightarrow> user list option" where
  \<comment> \<open>\<open>None\<close> is the exception of the ObjectId constructor\<close>
  "incrementTokenVersion oid now userId c =
     (case oid userId of
        None \<Rightarrow> None
      | Some i \<Rightarrow> Some (updateFirst (\<lambda>d. u_id d = i)
          (\<lambda>d. d\<lparr>u_tokenVersion := Some (case u_tokenVersion d of None \<Rightarrow> 1 | Some v \<Rightarrow> v + 1),
                 u_updatedAt := now\<rparr>) c))"

section \<open>Reading and changing the preference\<close>

definition findProductAnalyticsPreference ::
  "(string \<Rightarrow> string option) \<Rightarrow> string \<Rightarrow> user list \<Rightarrow> api_error + preference_record option" where
  "findProductAnalyticsPreference oid userId c =
     (case findById oid userId c of
        None \<Rightarrow> Inr None
      | Some d \<Rightarrow> map_sum id Some (productAnalyticsPreferenceRecordFrom d))"

definition isProductAnalyticsExportSuppressedOnPrimary ::
  "(string \<Rightarrow> string option) \<Rightarrow> string \<Rightarrow> user list \<Rightarrow> bool" where
  "isProductAnalyticsExportSuppressedOnPrimary oid userId c =
     (case findById oid userId c of None \<Rightarrow> False | Some d \<Rightarrow> \<not> is_null (u_exportSuppressedAt d))"

datatype update_result =
  Updated preference_record
| Conflict preference_record

definition isMatchingDuplicateOperation :: "string \<Rightarrow> preference \<Rightarrow> int \<Rightarrow> user \<Rightarrow> bool" where
  "isMatchingDuplicateOperation op p expected d \<longleftrightarrow>
     u_lastOperationId d = Val op \<and> u_preference d = Val (preference_name p) \<and>
     u_preferenceRevision d = Val (expected + 1)"

definition isNewOperationAtExpectedRevision :: "string \<Rightarrow> int \<Rightarrow> user \<Rightarrow> bool" where
  "isNewOperationAtExpectedRevision op expected d \<longleftrightarrow>
     u_lastOperationId d \<noteq> Val op \<and> u_preferenceRevision d = Val expected"

definition preference_filter :: "string \<Rightarrow> string \<Rightarrow> preference \<Rightarrow> int \<Rightarrow> user \<Rightarrow> bool" where
  "preference_filter i op p expected d \<longleftrightarrow>
     u_id d = i \<and> (p = Enabled \<longrightarrow> is_null (u_exportSuppressedAt d)) \<and>
     (isMatchingDuplicateOperation op p expected d \<or> isNewOperationAtExpectedRevision op expected d)"

definition preference_update :: "string \<Rightarrow> preference \<Rightarrow> int \<Rightarrow> millis \<Rightarrow> user \<Rightarrow> user" where
  "preference_update op p expected now d =
     (if isMatchingDuplicateOperation op p expected d then d
      else d\<lparr>u_preference := Val (preference_name p), u_preferenceUpdatedAt := Val now,
             u_preferenceRevision := (case u_preferenceRevision d of Val r \<Rightarrow> Val (r + 1) | _ \<Rightarrow> Null),
             u_lastOperationId := Val op, u_updatedAt := now\<rparr>)"

definition updateProductAnalyticsPreference ::
  "(string \<Rightarrow> string option) \<Rightarrow> (string \<Rightarrow> bool) \<Rightarrow> (user list \<Rightarrow> user list) \<Rightarrow> millis
   \<Rightarrow> string \<Rightarrow> preference \<Rightarrow> int \<Rightarrow> string \<Rightarrow> user list
   \<Rightarrow> (api_error + update_result option) \<times> user list" where
  "updateProductAnalyticsPreference oid is_uuid env now userId p expected op c =
     (case oid userId of
        None \<Rightarrow> (Inr None, c)
      | Some i \<Rightarrow>
          if \<not> (0 < expected \<and> expected \<le> MAX_SAFE_INTEGER - 1) \<or> \<not> is_uuid op
          then (Inl InternalServerError, c)
          else (case findOneAndUpdate (preference_filter i op p expected)
                       (preference_update op p expected now) c of
            (Some (_, updated), c') \<Rightarrow>
              (map_sum id (Some \<circ> Updated) (productAnalyticsPreferenceRecordFrom updated), c')
          | (None, c') \<Rightarrow>
              let c'' = env c' in
              (case findOne (\<lambda>d. u_id d = i) c'' of
                 None \<Rightarrow> Inr None
               | Some current \<Rightarrow> map_sum id (Some \<circ> Conflict) (productAnalyticsPreferenceRecordFrom current), c'')))"

section \<open>The suppression tombstone\<close>

definition suppression_update :: "millis \<Rightarrow> user \<Rightarrow> user" where
  "suppression_update at d =
     d\<lparr>u_preference := Val (preference_name Disabled), u_preferenceUpdatedAt := Val at,
       u_preferenceRevision := (case u_preferenceRevision d of
           Val r \<Rightarrow> Val (if r < MAX_SAFE_INTEGER then r + 1 else r)
         | _ \<Rightarrow> Null),
       u_lastOperationId := Null, u_exportSuppressedAt := Val at, u_updatedAt := at\<rparr>"

definition suppressProductAnalyticsExport ::
  "(string \<Rightarrow> string option) \<Rightarrow> (user list \<Rightarrow> user list) \<Rightarrow> (user list \<Rightarrow> user list)
   \<Rightarrow> string \<Rightarrow> millis option \<Rightarrow> user list
   \<Rightarrow> (api_error + (preference_record \<times> millis) option) \<times> user list" where
  \<comment> \<open>\<open>env1\<close> runs between the validation and the update, \<open>env2\<close> before the last read\<close>
  "suppressProductAnalyticsExport oid env1 env2 userId suppressedAt c =
     (case (oid userId, suppressedAt) of
        (Some i, Some at) \<Rightarrow>
          (case findProductAnalyticsPreference oid userId c of
             Inl e \<Rightarrow> (Inl e, c)
           | Inr None \<Rightarrow> (Inr None, c)
           | Inr (Some _) \<Rightarrow>
               (case findOneAndUpdate (\<lambda>d. u_id d = i \<and> is_null (u_exportSuppressedAt d))
                       (suppression_update at) (env1 c) of
                  (Some (_, updated), c') \<Rightarrow>
                    (map_sum id (\<lambda>r. Some (r, at)) (productAnalyticsPreferenceRecordFrom updated), c')
                | (None, c') \<Rightarrow>
                    let c'' = env2 c' in
                    (case findOne (\<lambda>d. u_id d = i) c'' of
                       None \<Rightarrow> Inr None
                     | Some existing \<Rightarrow>
                         (case u_exportSuppressedAt existing of
                            Val t \<Rightarrow> map_sum id (\<lambda>r. Some (r, t)) (productAnalyticsPreferenceRecordFrom existing)
                          | _ \<Rightarrow> Inl InternalServerError), c'')))
      | _ \<Rightarrow> (Inl InternalServerError, c))"

section \<open>The backfill\<close>

definition MAX_BATCH_LIMIT :: int where
  "MAX_BATCH_LIMIT = 1000"

definition backfillCandidate :: "user \<Rightarrow> bool" where
  "backfillCandidate d \<longleftrightarrow>
     u_preference d = Missing \<or> u_preferenceUpdatedAt d = Missing \<or>
     u_preferenceRevision d = Missing \<or> u_lastOperationId d = Missing \<or>
     (\<not> is_null (u_exportSuppressedAt d) \<and> u_preference d \<noteq> Val (preference_name Disabled))"

definition backfill_update :: "user \<Rightarrow> user" where
  "backfill_update d =
     d\<lparr>u_preference := (if \<not> is_null (u_exportSuppressedAt d) then Val (preference_name Disabled)
                        else if_null (u_preference d) (Val (preference_name Enabled))),
       u_preferenceUpdatedAt := if_null (u_preferenceUpdatedAt d) (Val (u_createdAt d)),
       u_preferenceRevision := if_null (u_preferenceRevision d) (Val 1),
       u_lastOperationId := if_null (u_lastOperationId d) Null\<rparr>"

definition assertProductAnalyticsPreferenceBackfillComplete :: "user list \<Rightarrow> api_error + unit" where
  "assertProductAnalyticsPreferenceBackfillComplete c =
     (if list_ex backfillCandidate c then Inl InternalServerError else Inr ())"

definition cursor :: "(string \<Rightarrow> string option) \<Rightarrow> string option \<Rightarrow> string option option" where
  \<comment> \<open>the parsed pagination cursor; the outer \<open>None\<close> is an invalid one\<close>
  "cursor oid after = (case after of None \<Rightarrow> Some None | Some a \<Rightarrow> map_option Some (oid a))"

definition findProductAnalyticsPreferenceBackfillBatch ::
  "(string \<Rightarrow> string option) \<Rightarrow> string option \<Rightarrow> int \<Rightarrow> user list \<Rightarrow> api_error + string list" where
  "findProductAnalyticsPreferenceBackfillBatch oid after batchLimit c =
     (if batchLimit < 1 \<or> MAX_BATCH_LIMIT < batchLimit then Inl InternalServerError
      else case cursor oid after of
             None \<Rightarrow> Inl InternalServerError
           | Some a \<Rightarrow> Inr (map u_id (find_page u_id a backfillCandidate (nat batchLimit) c)))"

definition backfillProductAnalyticsPreferenceBatch ::
  "(string \<Rightarrow> string option) \<Rightarrow> string list \<Rightarrow> user list \<Rightarrow> api_error + (nat \<times> nat) \<times> user list" where
  \<comment> \<open>the matched and the modified count, and the collection\<close>
  "backfillProductAnalyticsPreferenceBatch oid userIds c =
     (if length userIds < 1 \<or> MAX_BATCH_LIMIT < int (length userIds) then Inl InternalServerError
      else if list_ex (\<lambda>u. oid u = None) userIds then Inl InternalServerError
      else let q = (\<lambda>d. backfillCandidate d \<and> Some (u_id d) \<in> set (map oid userIds))
           in Inr ((length (filter q c), length (filter (\<lambda>d. q d \<and> backfill_update d \<noteq> d) c)),
                   updateMany q backfill_update c))"

fun preferenceBackfillRun ::
  "nat \<Rightarrow> (string \<Rightarrow> string option) \<Rightarrow> bool \<Rightarrow> int \<Rightarrow> string option \<Rightarrow> nat \<Rightarrow> user list
   \<Rightarrow> (api_error + nat \<times> user list) option" where
  \<comment> \<open>the loop of \<open>scripts/backfill-product-analytics-preference.ts\<close> and its \<open>usersFound\<close>;
     \<open>None\<close> is out of fuel\<close>
  "preferenceBackfillRun 0 oid apply_it limit after found c = None"
| "preferenceBackfillRun (Suc fuel) oid apply_it limit after found c =
     (case findProductAnalyticsPreferenceBackfillBatch oid after limit c of
        Inl e \<Rightarrow> Some (Inl e)
      | Inr ids \<Rightarrow>
          if ids = [] then Some (Inr (found, c))
          else (case (if apply_it then map_sum id snd (backfillProductAnalyticsPreferenceBatch oid ids c) else Inr c) of
             Inl e \<Rightarrow> Some (Inl e)
           | Inr c' \<Rightarrow>
               if int (length ids) < limit then Some (Inr (found + length ids, c'))
               else preferenceBackfillRun fuel oid apply_it limit (Some (last ids)) (found + length ids) c'))"

section \<open>Batches for the exports\<close>

definition findIdBatch ::
  "(string \<Rightarrow> string option) \<Rightarrow> string option \<Rightarrow> js_number \<Rightarrow> millis option \<Rightarrow> user list
   \<Rightarrow> api_error + string list" where
  "findIdBatch oid after batchLimit createdAtOrBefore c =
     (case batchLimit of
        NotAnInteger \<Rightarrow> Inl InternalServerError
      | Integer n \<Rightarrow>
          if \<not> isSafeInteger (Integer n) \<or> n < 1 then Inl InternalServerError
          else (case (cursor oid after, createdAtOrBefore) of
             (Some a, Some t) \<Rightarrow> Inr (map u_id (find_page u_id a (\<lambda>d. u_createdAt d \<le> t) (nat n) c))
           | _ \<Rightarrow> Inl InternalServerError))"

definition object_id_hex :: "string \<Rightarrow> bool" where
  "object_id_hex s = (length s = 24 \<and>
     list_all (\<lambda>c. let n = (of_char c :: nat) in (48 \<le> n \<and> n \<le> 57) \<or> (97 \<le> n \<and> n \<le> 102)) s)"

record export_user =
  eu_userId :: string
  eu_accountCreatedAt :: millis
  eu_preference :: preference
  eu_preferenceUpdatedAt :: millis
  eu_exportSuppressedAt :: "millis option"

definition productAnalyticsExportUserFrom :: "user \<Rightarrow> api_error + export_user" where
  "productAnalyticsExportUserFrom d =
     (case (case u_preference d of Val s \<Rightarrow> preferenceSchema s | _ \<Rightarrow> None, u_preferenceUpdatedAt d) of
        (Some p, Val t) \<Rightarrow>
          if object_id_hex (u_id d)
          then Inr \<lparr>eu_userId = u_id d, eu_accountCreatedAt = u_createdAt d, eu_preference = p,
                    eu_preferenceUpdatedAt = t, eu_exportSuppressedAt = val (u_exportSuppressedAt d)\<rparr>
          else Inl InternalServerError
      | _ \<Rightarrow> Inl InternalServerError)"

record preference_change =
  pc_userId :: string
  pc_changedAt :: millis
  pc_exportSuppressedAt :: "millis option"

definition productAnalyticsPreferenceChangeFrom :: "user \<Rightarrow> api_error + preference_change" where
  "productAnalyticsPreferenceChangeFrom d =
     (case u_preferenceUpdatedAt d of
        Val t \<Rightarrow>
          if object_id_hex (u_id d)
          then Inr \<lparr>pc_userId = u_id d, pc_changedAt = t,
                    pc_exportSuppressedAt = val (u_exportSuppressedAt d)\<rparr>
          else Inl InternalServerError
      | _ \<Rightarrow> Inl InternalServerError)"

fun sequence :: "('e + 'a) list \<Rightarrow> 'e + 'a list" where
  \<comment> \<open>\<open>map\<close> with a function that may throw\<close>
  "sequence [] = Inr []"
| "sequence (x # xs) = (case x of Inl e \<Rightarrow> Inl e | Inr a \<Rightarrow> map_sum id ((#) a) (sequence xs))"

definition findProductAnalyticsExportBatch ::
  "(string \<Rightarrow> string option) \<Rightarrow> string option \<Rightarrow> int \<Rightarrow> millis option \<Rightarrow> user list
   \<Rightarrow> api_error + export_user list" where
  "findProductAnalyticsExportBatch oid after batchLimit createdAtOrBefore c =
     (if batchLimit < 1 \<or> MAX_BATCH_LIMIT < batchLimit then Inl InternalServerError
      else case (cursor oid after, createdAtOrBefore) of
             (Some a, Some t) \<Rightarrow>
               sequence (map productAnalyticsExportUserFrom
                 (find_page u_id a (\<lambda>d. u_createdAt d \<le> t) (nat batchLimit) c))
           | _ \<Rightarrow> Inl InternalServerError)"

definition findProductAnalyticsPreferenceChangeBatch ::
  "(string \<Rightarrow> string option) \<Rightarrow> string option \<Rightarrow> int \<Rightarrow> millis option \<Rightarrow> user list
   \<Rightarrow> api_error + preference_change list" where
  "findProductAnalyticsPreferenceChangeBatch oid after batchLimit changedAfter c =
     (case (batchLimit < 1 \<or> MAX_BATCH_LIMIT < batchLimit, changedAfter) of
        (False, Some t) \<Rightarrow>
          (case cursor oid after of
             None \<Rightarrow> Inl InternalServerError
           | Some a \<Rightarrow> sequence (map productAnalyticsPreferenceChangeFrom
               (find_page u_id a (\<lambda>d. case u_preferenceUpdatedAt d of Val x \<Rightarrow> t < x | _ \<Rightarrow> False) (nat batchLimit) c)))
      | _ \<Rightarrow> Inl InternalServerError)"

section \<open>The preference service\<close>

definition accountIdPattern :: "string \<Rightarrow> bool" where
  "accountIdPattern s = (length s = 24 \<and> list_all hex_digit s)"

definition productAnalyticsUserKeyFor :: "(nat list \<Rightarrow> string \<Rightarrow> string) \<Rightarrow> nat list \<Rightarrow> string \<Rightarrow> api_error + string" where
  \<comment> \<open>\<open>hmac\<close> is the hexadecimal HMAC-SHA256, the key a list of bytes\<close>
  "productAnalyticsUserKeyFor hmac key userId =
     (if \<not> accountIdPattern userId \<or> length key < 32 then Inl InternalServerError
      else Inr (hmac key (map toLower userId)))"

definition legacyFirebaseAnalyticsUserIdFor :: "(string \<Rightarrow> string) \<Rightarrow> string \<Rightarrow> api_error + string" where
  "legacyFirebaseAnalyticsUserIdFor sha256 userId =
     (if \<not> accountIdPattern userId then Inl InternalServerError else Inr (sha256 (map toLower userId)))"

definition getPreference ::
  "(string \<Rightarrow> string option) \<Rightarrow> (string \<Rightarrow> api_error + string) \<Rightarrow> string \<Rightarrow> user list
   \<Rightarrow> api_error + preference_record \<times> string" where
  \<comment> \<open>\<open>key\<close> is \<open>productAnalyticsUserKeyFor\<close> at the service's key\<close>
  "getPreference oid key userId c =
     (case findProductAnalyticsPreference oid userId c of
        Inl e \<Rightarrow> Inl e
      | Inr None \<Rightarrow> Inl NotFoundError
      | Inr (Some r) \<Rightarrow> map_sum id (Pair r) (key userId))"

definition updatePreference ::
  "(string \<Rightarrow> string option) \<Rightarrow> (string \<Rightarrow> bool) \<Rightarrow> (string \<Rightarrow> api_error + string)
   \<Rightarrow> (user list \<Rightarrow> user list) \<Rightarrow> millis \<Rightarrow> string \<Rightarrow> preference \<Rightarrow> int \<Rightarrow> string \<Rightarrow> user list
   \<Rightarrow> (api_error + update_result \<times> string) \<times> user list" where
  "updatePreference oid is_uuid key env now userId p expected op c =
     apfst (\<lambda>r. case r of Inl e \<Rightarrow> Inl e | Inr None \<Rightarrow> Inl NotFoundError
                | Inr (Some u) \<Rightarrow> map_sum id (Pair u) (key userId))
       (updateProductAnalyticsPreference oid is_uuid env now userId p expected op c)"

definition suppressExport ::
  "(string \<Rightarrow> string option) \<Rightarrow> (string \<Rightarrow> api_error + string) \<Rightarrow> (string \<Rightarrow> api_error + string)
   \<Rightarrow> (user list \<Rightarrow> user list) \<Rightarrow> (user list \<Rightarrow> user list) \<Rightarrow> string \<Rightarrow> millis option \<Rightarrow> user list
   \<Rightarrow> (api_error + (preference_record \<times> millis) \<times> string \<times> string) \<times> user list" where
  "suppressExport oid key legacy env1 env2 userId at c =
     apfst (\<lambda>r. case r of Inl e \<Rightarrow> Inl e | Inr None \<Rightarrow> Inl NotFoundError
                | Inr (Some x) \<Rightarrow> (case key userId of Inl e \<Rightarrow> Inl e
                     | Inr k \<Rightarrow> map_sum id (\<lambda>l. (x, k, l)) (legacy userId)))
       (suppressProductAnalyticsExport oid env1 env2 userId at c)"

end
