(* ===== verification/UserProps.thy ===== *)
theory UserProps
  imports UserRepo
begin

text \<open>
  What the users collection guarantees however requests interleave: the token
  version and the preference revision only grow, the suppression tombstone is
  written once, an update is applied once, and the backfill terminates complete.
\<close>

section \<open>How a user document moves\<close>

definition grows_field :: "int option \<Rightarrow> int option \<Rightarrow> bool" where
  "grows_field a b \<longleftrightarrow> (case (a, b) of (Some x, Some y) \<Rightarrow> x \<le> y | (Some _, None) \<Rightarrow> False | _ \<Rightarrow> True)"

definition user_move :: "user \<Rightarrow> user \<Rightarrow> bool" where
  "user_move d d' \<longleftrightarrow>
     u_id d' = u_id d \<and> u_createdAt d' = u_createdAt d \<and>
     grows_field (u_tokenVersion d) (u_tokenVersion d') \<and>
     grows_field (val (u_preferenceRevision d)) (val (u_preferenceRevision d')) \<and>
     (\<forall>t. u_exportSuppressedAt d = Val t \<longrightarrow> u_exportSuppressedAt d' = Val t) \<and>
     (\<forall>r op. u_preferenceRevision d = Val r \<longrightarrow> u_preferenceRevision d' = Val r \<longrightarrow>
        u_lastOperationId d' = Val op \<longrightarrow> u_lastOperationId d = Val op)"

inductive user_step :: "(string \<Rightarrow> string option) \<Rightarrow> user list \<Rightarrow> user list \<Rightarrow> bool"
  for oid where
  create: "createUser now i c = Some c' \<Longrightarrow> user_step oid c c'"
| logout: "incrementTokenVersion oid now userId c = Some c' \<Longrightarrow> user_step oid c c'"
| preference: "user_step oid c (updateFirst (preference_filter i op p expected) (preference_update op p expected now) c)"
| suppress: "user_step oid c (updateFirst (\<lambda>d. u_id d = i \<and> is_null (u_exportSuppressedAt d)) (suppression_update at) c)"
| backfill: "backfillProductAnalyticsPreferenceBatch oid userIds c = Inr (n, c') \<Longrightarrow> user_step oid c c'"

lemma user_move_refl [simp]: "user_move d d"
  by (simp add: user_move_def grows_field_def split: option.split)

lemma preference_move: "preference_filter i op p expected d \<Longrightarrow> user_move d (preference_update op p expected now d)"
  by (auto simp: user_move_def preference_filter_def preference_update_def grows_field_def
      isNewOperationAtExpectedRevision_def split: option.split)

lemma suppression_move: "is_null (u_exportSuppressedAt d) \<Longrightarrow> user_move d (suppression_update at d)"
  by (auto simp: user_move_def suppression_update_def grows_field_def split: option.split field.split)

lemma logout_move: "user_move d (d\<lparr>u_tokenVersion := Some (case u_tokenVersion d of None \<Rightarrow> 1 | Some v \<Rightarrow> v + 1), u_updatedAt := now\<rparr>)"
  by (auto simp: user_move_def grows_field_def split: option.split)

lemma if_null_Val: "if_null f g = Val x \<longleftrightarrow> f = Val x \<or> (is_null f \<and> g = Val x)"
  by (cases f) auto

lemma backfill_move: "user_move d (backfill_update d)"
  by (cases "u_preferenceRevision d"; cases "u_exportSuppressedAt d")
    (auto simp: user_move_def backfill_update_def grows_field_def if_null_Val split: option.split)

lemma user_step_evolves: "user_step oid c c' \<Longrightarrow> evolves_by user_move c c'"
proof (induction rule: user_step.induct)
  case (create now i c c')
  show ?case by (rule evolves_by_insertOne [OF user_move_refl create [unfolded createUser_def]])
next
  case (logout now userId c c')
  then show ?case
    by (auto simp: incrementTokenVersion_def intro!: evolves_by_updateFirst logout_move split: option.splits)
next
  case (preference i op p expected now c)
  then show ?case by (auto intro!: evolves_by_updateFirst preference_move)
next
  case (suppress i at c)
  then show ?case by (auto intro!: evolves_by_updateFirst suppression_move)
next
  case (backfill userIds c n c')
  then show ?case
    by (auto simp: backfillProductAnalyticsPreferenceBatch_def Let_def intro!: evolves_by_updateMany backfill_move
        split: if_splits)
qed

definition user_of :: "string \<Rightarrow> user list \<Rightarrow> user option" where
  "user_of i c = findOne (\<lambda>d. u_id d = i) c"

lemma user_step_follow:
  assumes "user_step oid c c'" and "user_of i c = Some d"
  shows "\<exists>d'. user_of i c' = Some d' \<and> user_move d d'"
  using evolves_by_find [OF user_step_evolves [OF assms(1)] assms(2) [unfolded user_of_def]]
  by (simp add: user_of_def user_move_def)

definition token_version :: "string \<Rightarrow> user list \<Rightarrow> int option" where
  "token_version i c = Option.bind (user_of i c) u_tokenVersion"

definition revision_of :: "string \<Rightarrow> user list \<Rightarrow> int option" where
  "revision_of i c = Option.bind (user_of i c) (\<lambda>d. val (u_preferenceRevision d))"

definition suppressed_since :: "string \<Rightarrow> user list \<Rightarrow> millis option" where
  "suppressed_since i c = Option.bind (user_of i c) (\<lambda>d. val (u_exportSuppressedAt d))"

lemma val_Some: "val f = Some x \<longleftrightarrow> f = Val x"
  by (cases f) auto

interpretation version: growing "user_step oid" "(\<le>)" token_version
proof unfold_locales
  fix c c' i and v :: int
  assume s: "user_step oid c c'" and v: "token_version i c = Some v"
  then obtain d where d: "user_of i c = Some d" "u_tokenVersion d = Some v"
    by (auto simp: token_version_def bind_eq_Some_conv)
  from user_step_follow [OF s d(1)] d(2) show "\<exists>w. token_version i c' = Some w \<and> v \<le> w"
    by (auto simp: token_version_def user_move_def grows_field_def split: option.splits)
qed auto

interpretation revision: growing "user_step oid" "(\<le>)" revision_of
proof unfold_locales
  fix c c' i and v :: int
  assume s: "user_step oid c c'" and v: "revision_of i c = Some v"
  then obtain d where d: "user_of i c = Some d" "u_preferenceRevision d = Val v"
    by (auto simp: revision_of_def bind_eq_Some_conv val_Some)
  from user_step_follow [OF s d(1)] d(2) show "\<exists>w. revision_of i c' = Some w \<and> v \<le> w"
    by (auto simp: revision_of_def user_move_def grows_field_def split: option.splits)
qed auto

interpretation tombstone: write_once "user_step oid" suppressed_since
proof unfold_locales
  fix c c' i v
  assume s: "user_step oid c c'" and v: "suppressed_since i c = Some v"
  then obtain d where d: "user_of i c = Some d" "u_exportSuppressedAt d = Val v"
    by (auto simp: suppressed_since_def bind_eq_Some_conv val_Some)
  from user_step_follow [OF s d(1)] d(2) show "suppressed_since i c' = Some v"
    by (auto simp: suppressed_since_def user_move_def)
qed

section \<open>The preference update\<close>

lemma preference_update_filter:
  "preference_filter i op p expected d \<Longrightarrow> preference_filter i op p expected (preference_update op p expected now d)"
  by (auto simp: preference_filter_def preference_update_def isMatchingDuplicateOperation_def
      isNewOperationAtExpectedRevision_def)

lemma preference_update_dup:
  "preference_filter i op p expected d \<Longrightarrow> isMatchingDuplicateOperation op p expected (preference_update op p expected now d)"
  by (auto simp: preference_filter_def preference_update_def isMatchingDuplicateOperation_def
      isNewOperationAtExpectedRevision_def)

lemma preference_update_again:
  "preference_filter i op p expected d \<Longrightarrow>
   preference_update op p expected now' (preference_update op p expected now d) = preference_update op p expected now d"
  using preference_update_dup by (subst (1) preference_update_def) simp

lemma update_Updated:
  assumes "updateProductAnalyticsPreference oid is_uuid env now userId p expected op c = (Inr (Some (Updated r)), c')"
  obtains i d where "oid userId = Some i" and "0 < expected" and "expected \<le> MAX_SAFE_INTEGER - 1" and "is_uuid op"
    and "findOne (preference_filter i op p expected) c = Some d"
    and "c' = updateFirst (preference_filter i op p expected) (preference_update op p expected now) c"
    and "productAnalyticsPreferenceRecordFrom (preference_update op p expected now d) = Inr r"
proof -
  from assms obtain i where i: "oid userId = Some i" "0 < expected" "expected \<le> MAX_SAFE_INTEGER - 1" "is_uuid op"
    by (auto simp: updateProductAnalyticsPreference_def split: option.splits if_splits)
  note e = assms [unfolded updateProductAnalyticsPreference_def i(1) option.case]
  show ?thesis
  proof (cases "findOne (preference_filter i op p expected) c")
    case None
    with e i show ?thesis
      by (auto simp: findOneAndUpdate_def Let_def map_sum_def split: option.splits sum.splits)
  next
    case (Some d)
    with e i that show ?thesis
      by (cases "productAnalyticsPreferenceRecordFrom (preference_update op p expected now d)")
        (auto simp: findOneAndUpdate_def)
  qed
qed

text \<open>A retried preference update is idempotent: after an update was applied,
  sending the same request again, at any later time, answers the same record and
  leaves every document as it is.\<close>
lemma preference_retry_idempotent:
  assumes "updateProductAnalyticsPreference oid is_uuid env now userId p expected op c = (Inr (Some (Updated r)), c')"
  shows "updateProductAnalyticsPreference oid is_uuid env' now' userId p expected op c' = (Inr (Some (Updated r)), c')"
  using assms
proof (rule update_Updated)
  fix i d
  let ?q = "preference_filter i op p expected" and ?d = "preference_update op p expected now d"
  assume i: "oid userId = Some i" "0 < expected" "expected \<le> MAX_SAFE_INTEGER - 1" "is_uuid op"
    and d: "findOne ?q c = Some d"
    and c': "c' = updateFirst ?q (preference_update op p expected now) c"
    and r: "productAnalyticsPreferenceRecordFrom ?d = Inr r"
  have q: "?q d" using findOne_Some [OF d] by blast
  have f: "findOne ?q c' = Some ?d"
    unfolding c' using d preference_update_filter [OF q] by (rule findOne_updateFirst)
  have same: "preference_update op p expected now' ?d = ?d"
    using q by (rule preference_update_again)
  show ?thesis
    using i f r updateFirst_id [where f = "preference_update op p expected now'", OF f same] same
    by (simp add: updateProductAnalyticsPreference_def findOneAndUpdate_def)
qed

lemma user_of_unique:
  "distinct (map u_id c) \<Longrightarrow> d \<in> set c \<Longrightarrow> user_of (u_id d) c = Some d"
  unfolding user_of_def by (rule findOne_unique)

lemma user_of_updateFirst:
  assumes "distinct (map u_id c)" and "findOne q c = Some d" and "u_id d = i"
    and "\<And>x. q x \<Longrightarrow> u_id (f x) = u_id x"
  shows "user_of i (updateFirst q f c) = Some (f d)"
proof -
  have "d \<in> set c" "q d" using findOne_Some [OF assms(2)] by auto
  have "f d \<in> set (updateFirst q f c)"
    using assms(2) by (induction c) (auto split: if_splits)
  moreover have "distinct (map u_id (updateFirst q f c))"
    using assms(1) map_updateFirst [of q u_id f c] assms(4) by simp
  ultimately show ?thesis
    using user_of_unique assms(3) assms(4) [OF \<open>q d\<close>] by metis
qed

lemma user_step_distinct: "user_step oid c c' \<Longrightarrow> distinct (map u_id c) \<Longrightarrow> distinct (map u_id c')"
proof (induction rule: user_step.induct)
  case (create now i c c')
  then show ?case unfolding createUser_def by (blast intro: insertOne_distinct)
next
  case (logout now userId c c')
  then show ?case by (auto simp: incrementTokenVersion_def map_updateFirst split: option.splits)
next
  case (preference i op p expected now c)
  then show ?case by (simp add: map_updateFirst preference_update_def)
next
  case (suppress i at c)
  then show ?case by (simp add: map_updateFirst suppression_update_def)
next
  case (backfill userIds c n c')
  then show ?case
    by (auto simp: backfillProductAnalyticsPreferenceBatch_def Let_def map_updateMany backfill_update_def
        split: if_splits)
qed

lemma user_steps_distinct: "(user_step oid)\<^sup>*\<^sup>* c c' \<Longrightarrow> distinct (map u_id c) \<Longrightarrow> distinct (map u_id c')"
  by (induction rule: rtranclp_induct) (auto dest: user_step_distinct)

lemma user_steps_follow:
  assumes "(user_step oid)\<^sup>*\<^sup>* c c'" and "user_of i c = Some d" and "P d"
    and "\<And>x y. user_move x y \<Longrightarrow> P x \<Longrightarrow> P y"
  shows "\<exists>d'. user_of i c' = Some d' \<and> P d'"
  using assms(1)
proof (induction rule: rtranclp_induct)
  case base
  then show ?case using assms(2,3) by blast
next
  case (step y z)
  then show ?case using user_step_follow assms(4) by blast
qed

definition used :: "int \<Rightarrow> string \<Rightarrow> user \<Rightarrow> bool" where
  \<comment> \<open>revision \<open>r\<close> is taken, by no operation but \<open>op\<close>\<close>
  "used r op d \<longleftrightarrow> (\<exists>v. u_preferenceRevision d = Val v \<and> r \<le> v \<and>
     (v = r \<longrightarrow> (\<forall>x. u_lastOperationId d = Val x \<longrightarrow> x = op)))"

lemma used_move:
  assumes "user_move d d'" and "used r op d"
  shows "used r op d'"
proof -
  obtain v where v: "u_preferenceRevision d = Val v" "r \<le> v"
    "v = r \<Longrightarrow> \<forall>x. u_lastOperationId d = Val x \<longrightarrow> x = op"
    using assms(2) unfolding used_def by blast
  then obtain w where w: "u_preferenceRevision d' = Val w" "v \<le> w"
    using assms(1) by (cases "u_preferenceRevision d'") (auto simp: user_move_def grows_field_def)
  show ?thesis
    using v w assms(1) unfolding used_def user_move_def by auto
qed

text \<open>C0: No lost update.  Once an update at revision \<open>expected\<close> has been applied, then
  whatever the server does to the users afterwards, a request with a different
  operation id that expects the same revision is never applied: it writes nothing
  and does not answer \<open>updated\<close>.\<close>
theorem no_lost_preference_update:
  assumes "distinct (map u_id c)"
    and "updateProductAnalyticsPreference oid is_uuid env now userId p expected op c = (Inr (Some (Updated r)), c')"
    and "(user_step oid)\<^sup>*\<^sup>* c' c''" and "op' \<noteq> op" and "oid userId' = oid userId"
  shows "fst (updateProductAnalyticsPreference oid is_uuid env' now' userId' p' expected op' c'') \<noteq> Inr (Some (Updated r'))
    \<and> snd (updateProductAnalyticsPreference oid is_uuid env' now' userId' p' expected op' c'') \<in> {c'', env' c''}"
  using assms(2)
proof (rule update_Updated)
  fix i d
  let ?q = "preference_filter i op p expected" and ?d = "preference_update op p expected now d"
  assume i: "oid userId = Some i"
    and d: "findOne ?q c = Some d"
    and c': "c' = updateFirst ?q (preference_update op p expected now) c"
  have q: "?q d" using findOne_Some [OF d] by blast
  then have idd: "u_id d = i" by (simp add: preference_filter_def)
  have u: "user_of i c' = Some ?d"
    unfolding c' using assms(1) d idd by (rule user_of_updateFirst) (simp add: preference_update_def)
  have "used (expected + 1) op ?d"
    using preference_update_dup [OF q] by (simp add: used_def isMatchingDuplicateOperation_def)
  with user_steps_follow [where P = "used (expected + 1) op", OF assms(3) u] used_move
  obtain d'' where d'': "user_of i c'' = Some d''" "used (expected + 1) op d''" by blast
  have dist: "distinct (map u_id c'')"
    using user_steps_distinct [OF assms(3)] assms(1) by (simp add: c' map_updateFirst preference_update_def)
  have none: "findOne (preference_filter i op' p' expected) c'' = None"
    unfolding findOne_None
  proof (intro ballI notI)
    fix x assume x: "x \<in> set c''" "preference_filter i op' p' expected x"
    then have "u_id x = i" by (simp add: preference_filter_def)
    with user_of_unique [OF dist x(1)] d'' have "x = d''" by simp
    with x(2) d''(2) assms(4) show False
      by (auto simp: used_def preference_filter_def isMatchingDuplicateOperation_def
          isNewOperationAtExpectedRevision_def)
  qed
  show ?thesis
    using i none assms(5)
    by (auto simp: updateProductAnalyticsPreference_def findOneAndUpdate_def Let_def map_sum_def
        split: option.splits sum.splits)
qed

section \<open>Suppression\<close>

lemma suppressed_record: "u_exportSuppressedAt d = Val t \<Longrightarrow> productAnalyticsPreferenceRecordFrom d = Inr r \<Longrightarrow> pr_preference r = Disabled"
  by (auto simp: productAnalyticsPreferenceRecordFrom_def Let_def split: field.splits if_splits)

lemma suppress_result:
  assumes "suppressProductAnalyticsExport oid env1 env2 userId (Some at0) c = (Inr (Some (r, at)), c')"
    and "distinct (map u_id (env1 c))"
  obtains i d where "oid userId = Some i" and "user_of i c' = Some d" and "u_exportSuppressedAt d = Val at"
proof -
  let ?q = "\<lambda>i d. u_id d = i \<and> is_null (u_exportSuppressedAt d)"
  from assms(1) obtain i pr where i: "oid userId = Some i"
    and pr: "findProductAnalyticsPreference oid userId c = Inr (Some pr)"
    by (auto simp: suppressProductAnalyticsExport_def split: option.splits sum.splits)
  note e = assms(1) [unfolded suppressProductAnalyticsExport_def i pr option.case prod.case sum.case]
  show ?thesis
  proof (cases "findOne (?q i) (env1 c)")
    case None
    with e show ?thesis using that [OF i]
      by (auto simp: findOneAndUpdate_def Let_def user_of_def map_sum_def split: option.splits field.splits sum.splits)
  next
    case (Some d)
    have "user_of i (updateFirst (?q i) (suppression_update at0) (env1 c)) = Some (suppression_update at0 d)"
      using findOne_Some [OF Some] assms(2)
      by (intro user_of_updateFirst [OF _ Some]) (auto simp: suppression_update_def)
    with e Some show ?thesis
      by (intro that [OF i]) (auto simp: findOneAndUpdate_def suppression_update_def map_sum_def split: sum.splits)
  qed
qed

text \<open>C0: Export suppression is permanent.  After a suppression answered with a tombstone
  date, in every later state of the users the user is suppressed since that same
  date, a read of the preference answers \<open>disabled\<close>, and no request can enable it.\<close>
theorem suppression_is_permanent:
  assumes "suppressProductAnalyticsExport oid env1 env2 userId (Some at0) c = (Inr (Some (r, at)), c')"
    and "distinct (map u_id (env1 c))" and "distinct (map u_id c')"
    and "(user_step oid)\<^sup>*\<^sup>* c' c''"
  shows "isProductAnalyticsExportSuppressedOnPrimary oid userId c'' \<and>
     suppressed_since (the (oid userId)) c'' = Some at \<and>
     (\<forall>x. findProductAnalyticsPreference oid userId c'' = Inr (Some x) \<longrightarrow> pr_preference x = Disabled) \<and>
     (\<forall>e op is_uuid env now x. fst (updateProductAnalyticsPreference oid is_uuid env now userId Enabled e op c'')
        \<noteq> Inr (Some (Updated x)))"
  using assms(1,2)
proof (rule suppress_result)
  fix i d assume i: "oid userId = Some i" and d: "user_of i c' = Some d" and t: "u_exportSuppressedAt d = Val at"
  then have "suppressed_since i c' = Some at" by (simp add: suppressed_since_def)
  from tombstone.keeps_many [OF assms(4) this] have since: "suppressed_since i c'' = Some at" .
  then obtain d'' where d'': "user_of i c'' = Some d''" "u_exportSuppressedAt d'' = Val at"
    by (auto simp: suppressed_since_def bind_eq_Some_conv val_Some)
  have find: "findById oid userId c'' = Some d''" using i d''(1) by (simp add: findById_def user_of_def)
  have dist: "distinct (map u_id c'')" using user_steps_distinct assms(3,4) by blast
  have none: "findOne (preference_filter i op Enabled e) c'' = None" for op e
    unfolding findOne_None
  proof (intro ballI notI)
    fix x assume x: "x \<in> set c''" "preference_filter i op Enabled e x"
    then have "u_id x = i" by (simp add: preference_filter_def)
    with user_of_unique [OF dist x(1)] d'' have "x = d''" by simp
    with x(2) d''(2) show False by (simp add: preference_filter_def)
  qed
  have "pr_preference x = Disabled" if "findProductAnalyticsPreference oid userId c'' = Inr (Some x)" for x
    using that find suppressed_record [OF d''(2)]
    by (cases "productAnalyticsPreferenceRecordFrom d''") (auto simp: findProductAnalyticsPreference_def)
  moreover have "fst (updateProductAnalyticsPreference oid is_uuid env now userId Enabled e op c'') \<noteq> Inr (Some (Updated x))"
    for e op is_uuid env now x
    using i none
    by (auto simp: updateProductAnalyticsPreference_def findOneAndUpdate_def Let_def map_sum_def
        split: option.splits sum.splits)
  ultimately show ?thesis
    using find d'' since i by (simp add: isProductAnalyticsExportSuppressedOnPrimary_def)
qed

section \<open>The backfill\<close>

lemma backfill_not_candidate: "\<not> backfillCandidate (backfill_update d)"
  by (auto simp: backfillCandidate_def backfill_update_def)
    (cases "u_preference d"; cases "u_preferenceUpdatedAt d"; cases "u_preferenceRevision d";
     cases "u_lastOperationId d"; simp)+

lemma page_members: "x \<in> set (find_page key after p n c) \<Longrightarrow> x \<in> set c \<and> p x"
  by (auto simp: find_page_def dest: in_set_takeD)

lemma backfill_batch_core:
  assumes "distinct (map u_id c)" and "\<forall>d \<in> set c. oid (u_id d) = Some (u_id d)"
    and "findProductAnalyticsPreferenceBackfillBatch oid after n c = Inr ids" and "ids \<noteq> []"
    and "backfillProductAnalyticsPreferenceBatch oid ids c = Inr ((matched, modified), c')"
  shows "matched = length ids \<and> modified = length ids \<and> map u_id c' = map u_id c \<and>
     filter backfillCandidate c' = filter (\<lambda>d. u_id d \<notin> set ids) (filter backfillCandidate c) \<and>
     (\<forall>i. suppressed_since i c' = suppressed_since i c) \<and>
     length (filter (\<lambda>d. u_id d \<in> set ids) (filter backfillCandidate c)) = length ids"
proof -
  let ?q = "\<lambda>d. backfillCandidate d \<and> Some (u_id d) \<in> set (map oid ids)"
  obtain a where ids: "ids = map u_id (find_page u_id a backfillCandidate (nat n) c)"
    using assms(3) by (auto simp: findProductAnalyticsPreferenceBackfillBatch_def split: if_splits option.splits)
  have mem: "\<And>x. x \<in> set ids \<Longrightarrow> \<exists>d \<in> set c. u_id d = x \<and> backfillCandidate d"
    using page_members unfolding ids by fastforce
  have oids: "map oid ids = map Some ids"
    using mem assms(2) by auto
  have q: "filter ?q c = filter (\<lambda>d. u_id d \<in> set ids) c"
  proof (rule filter_cong [OF refl])
    fix d assume d: "d \<in> set c"
    have "backfillCandidate d" if "u_id d \<in> set ids"
    proof -
      from mem [OF that] obtain x where "x \<in> set c" "u_id x = u_id d" "backfillCandidate x" by blast
      with user_of_unique [OF assms(1) d] user_of_unique [OF assms(1), of x] show ?thesis by simp
    qed
    then show "?q d = (u_id d \<in> set ids)" unfolding oids by auto
  qed
  have "sorted_wrt (<) (map u_id (beyond u_id a backfillCandidate c))"
    using beyond_sorted [OF assms(1)] by (simp add: sorted_wrt_map)
  then have "distinct ids"
    unfolding ids page_beyond by (simp add: strict_sorted_iff flip: take_map)
  moreover have "distinct (map u_id (filter ?q c))" using assms(1) by (rule distinct_map_filter)
  moreover have "set (map u_id (filter ?q c)) = set ids"
    unfolding q using mem by fastforce
  ultimately have len: "length (filter ?q c) = length ids"
    by (metis distinct_card length_map)
  have ch: "filter (\<lambda>d. ?q d \<and> backfill_update d \<noteq> d) c = filter ?q c"
    by (rule filter_cong [OF refl]) (metis backfill_not_candidate)
  have c': "c' = updateMany ?q backfill_update c"
    and counts: "matched = length (filter ?q c)" "modified = length (filter (\<lambda>d. ?q d \<and> backfill_update d \<noteq> d) c)"
    using assms(5) by (auto simp: backfillProductAnalyticsPreferenceBatch_def Let_def split: if_splits)
  have "filter backfillCandidate c' = filter (\<lambda>d. backfillCandidate d \<and> \<not> ?q d) c"
    unfolding c' updateMany_def by (induction c) (auto simp: backfill_not_candidate)
  also have "\<dots> = filter (\<lambda>d. u_id d \<notin> set ids) (filter backfillCandidate c)"
    unfolding oids by (simp add: image_iff conj_commute cong: conj_cong)
  finally have rest: "filter backfillCandidate c' = filter (\<lambda>d. u_id d \<notin> set ids) (filter backfillCandidate c)" .
  have "suppressed_since i c' = suppressed_since i c" for i
    unfolding c' updateMany_def suppressed_since_def user_of_def
    by (induction c) (auto simp: backfill_update_def)
  moreover have "filter (\<lambda>d. u_id d \<in> set ids) (filter backfillCandidate c) = filter ?q c"
    unfolding oids by (simp add: image_iff conj_commute cong: conj_cong)
  ultimately show ?thesis using len ch counts rest
    by (simp add: c' map_updateMany backfill_update_def)
qed

text \<open>One batch of the preference backfill matches and changes exactly the users the
  batch query found, keeps the documents and their order, leaves exactly the other
  candidates, and never touches a suppression tombstone.\<close>
lemma backfill_batch_completes:
  assumes "distinct (map u_id c)" and "\<forall>d \<in> set c. oid (u_id d) = Some (u_id d)"
    and "findProductAnalyticsPreferenceBackfillBatch oid after n c = Inr ids" and "ids \<noteq> []"
    and "backfillProductAnalyticsPreferenceBatch oid ids c = Inr ((matched, modified), c')"
  shows "matched = length ids \<and> modified = length ids \<and> map u_id c' = map u_id c \<and>
     filter backfillCandidate c' = filter (\<lambda>d. u_id d \<notin> set ids) (filter backfillCandidate c) \<and>
     (\<forall>i. suppressed_since i c' = suppressed_since i c)"
  using backfill_batch_core [OF assms] by blast

lemma page_rest:
  assumes "distinct (map key c)" and "x \<in> set c" and "p x" and "case after of None \<Rightarrow> True | Some a \<Rightarrow> a < key x"
    and "find_page key after p n c \<noteq> []" and "key x \<notin> key ` set (find_page key after p n c)"
  shows "key (last (find_page key after p n c)) < key x"
proof -
  let ?B = "beyond key after p c"
  have "x \<in> set ?B" using assms(2-4) by (simp add: beyond_set)
  then have "x \<in> set (drop n ?B)"
    using assms(6) unfolding page_beyond by (metis Un_iff append_take_drop_id image_eqI set_append)
  moreover have "sorted_wrt (\<lambda>x y. key x < key y) (take n ?B @ drop n ?B)"
    using beyond_sorted [OF assms(1)] by simp
  ultimately show ?thesis
    using assms(5) unfolding page_beyond sorted_wrt_append by (meson last_in_set)
qed

lemma cursor_last: "oid x = Some x \<Longrightarrow> cursor oid (Some x) = Some (Some x)"
  by (simp add: cursor_def)

lemma backfill_run_core:
  assumes "distinct (map u_id c)" and "\<forall>d \<in> set c. oid (u_id d) = Some (u_id d)"
    and "1 \<le> limit" and "limit \<le> MAX_BATCH_LIMIT"
    and "cursor oid after = Some a"
    and "\<forall>d \<in> set c. backfillCandidate d \<longrightarrow> (case a of None \<Rightarrow> True | Some x \<Rightarrow> x < u_id d)"
    and "length (filter backfillCandidate c) < fuel"
  shows "\<exists>c'. preferenceBackfillRun fuel oid True limit after found c =
       Some (Inr (found + length (filter backfillCandidate c), c')) \<and>
     \<not> list_ex backfillCandidate c' \<and> map u_id c' = map u_id c \<and>
     (\<forall>i. suppressed_since i c' = suppressed_since i c)"
  using assms
proof (induction fuel arbitrary: after a found c)
  case 0
  then show ?case by simp
next
  case (Suc fuel)
  let ?pg = "find_page u_id a backfillCandidate (nat limit) c"
  let ?ids = "map u_id ?pg"
  have find: "findProductAnalyticsPreferenceBackfillBatch oid after limit c = Inr ?ids"
    using Suc.prems(3-5) by (simp add: findProductAnalyticsPreferenceBackfillBatch_def)
  have all: "filter (\<lambda>d. (case a of None \<Rightarrow> True | Some x \<Rightarrow> x < u_id d) \<and> backfillCandidate d) c = filter backfillCandidate c"
    using Suc.prems(6) by (intro filter_cong) auto
  have lenB: "length (beyond u_id a backfillCandidate c) = length (filter backfillCandidate c)"
    by (simp add: beyond_def all)
  have len: "length ?ids = min (nat limit) (length (filter backfillCandidate c))"
    by (simp add: page_beyond lenB)
  show ?case
  proof (cases "?pg = []")
    case True
    then have "min (nat limit) (length (filter backfillCandidate c)) = 0" using len by simp
    then have "filter backfillCandidate c = []" using Suc.prems(3) by (simp add: min_def split: if_splits)
    then show ?thesis using find True by (auto simp: list_ex_iff filter_empty_conv)
  next
    case False
    let ?q = "\<lambda>d. backfillCandidate d \<and> Some (u_id d) \<in> set (map oid ?ids)"
    obtain m k c' where b: "backfillProductAnalyticsPreferenceBatch oid ?ids c = Inr ((m, k), c')"
    proof -
      have "\<forall>x \<in> set ?ids. oid x \<noteq> None" using page_members Suc.prems(2) by fastforce
      then have "\<not> list_ex (\<lambda>u. oid u = None) ?ids" by (simp add: list_ex_iff)
      moreover have "\<not> (length ?ids < 1 \<or> MAX_BATCH_LIMIT < int (length ?ids))"
        using False len Suc.prems(3,4) by (auto simp: Suc_le_eq)
      ultimately show thesis using that by (simp add: backfillProductAnalyticsPreferenceBatch_def Let_def)
    qed
    have ne: "?ids \<noteq> []" using False by simp
    note core = backfill_batch_core [OF Suc.prems(1,2) find ne b]
    have rest: "filter backfillCandidate c' = filter (\<lambda>d. u_id d \<notin> set ?ids) (filter backfillCandidate c)"
      and ids': "map u_id c' = map u_id c" and since: "\<forall>i. suppressed_since i c' = suppressed_since i c"
      using core by blast+
    have beyond': "last ?ids < u_id d" if "d \<in> set c'" "backfillCandidate d" for d
    proof -
      have d: "d \<in> set (filter backfillCandidate c')" using that by simp
      then have "d \<in> set c" "backfillCandidate d" "u_id d \<notin> set ?ids" unfolding rest by auto
      then show ?thesis using page_rest [OF Suc.prems(1), of d backfillCandidate a "nat limit"] Suc.prems(6) False
        by (simp add: last_map)
    qed
    have count: "length (filter backfillCandidate c') + length ?ids = length (filter backfillCandidate c)"
      using sum_length_filter_compl [of "\<lambda>d. u_id d \<in> set ?ids" "filter backfillCandidate c"] core
      by (simp add: rest)
    show ?thesis
    proof (cases "int (length ?ids) < limit")
      case True
      then have "length (filter backfillCandidate c') = 0" using count len by (simp add: min_def split: if_splits)
      with count have n: "length ?ids = length (filter backfillCandidate c)" by simp
      have "\<not> list_ex backfillCandidate c'"
        using \<open>length (filter backfillCandidate c') = 0\<close> by (simp add: list_ex_iff filter_empty_conv)
      with True n show ?thesis using find b ne count ids' since by auto
    next
      case more: False
      obtain d where d: "d \<in> set c" "u_id d = last ?ids"
        using last_in_set [OF ne] page_members by fastforce
      then have cur: "cursor oid (Some (last ?ids)) = Some (Some (last ?ids))"
        using Suc.prems(2) cursor_last by metis
      have d': "distinct (map u_id c')" using Suc.prems(1) ids' by simp
      have o': "\<forall>x \<in> set c'. oid (u_id x) = Some (u_id x)"
      proof
        fix x assume "x \<in> set c'"
        then have "u_id x \<in> set (map u_id c')" by simp
        then obtain y where "y \<in> set c" "u_id y = u_id x" unfolding ids' by auto
        with Suc.prems(2) show "oid (u_id x) = Some (u_id x)" by metis
      qed
      have fuel: "length (filter backfillCandidate c') < fuel"
        using count ne Suc.prems(7) by (cases ?ids) auto
      from Suc.IH [OF d' o' Suc.prems(3,4) cur _ fuel, of "found + length ?ids"] beyond'
      obtain c'' where c'': "preferenceBackfillRun fuel oid True limit (Some (last ?ids)) (found + length ?ids) c' =
           Some (Inr (found + length ?ids + length (filter backfillCandidate c'), c''))"
        "\<not> list_ex backfillCandidate c''" "map u_id c'' = map u_id c'" "\<forall>i. suppressed_since i c'' = suppressed_since i c'"
        by auto
      have "preferenceBackfillRun (Suc fuel) oid True limit after found c =
          Some (Inr (found + length (filter backfillCandidate c), c''))"
        using find b ne more c''(1) count by simp
      with c'' ids' since show ?thesis by metis
    qed
  qed
qed

text \<open>The backfill run of the script, with apply, terminates within one more round than
  there are users, counts every candidate once, and leaves no candidate behind,
  so the server's start-up assertion succeeds; the tombstones are unchanged.\<close>
lemma preference_backfill_completes:
  assumes "distinct (map u_id c)" and "\<forall>d \<in> set c. oid (u_id d) = Some (u_id d)"
    and "1 \<le> limit" and "limit \<le> 1000" and "length c < fuel"
  shows "\<exists>c'. preferenceBackfillRun fuel oid True limit None 0 c =
       Some (Inr (length (filter backfillCandidate c), c')) \<and>
     assertProductAnalyticsPreferenceBackfillComplete c' = Inr () \<and> map u_id c' = map u_id c \<and>
     (\<forall>i. suppressed_since i c' = suppressed_since i c)"
proof -
  have "length (filter backfillCandidate c) < fuel"
    using assms(5) length_filter_le [of backfillCandidate c] by (rule le_less_trans [rotated])
  from backfill_run_core [OF assms(1-3) _ _ _ this, of None None 0] assms(4) show ?thesis
    by (auto simp: cursor_def MAX_BATCH_LIMIT_def assertProductAnalyticsPreferenceBackfillComplete_def)
qed

section \<open>Documents to evaluate\<close>

definition demo_legacy :: user where
  "demo_legacy = \<lparr>u_id = ''a1'', u_tokenVersion = Some 3, u_createdAt = 5, u_updatedAt = 5,
     u_preference = Missing, u_preferenceUpdatedAt = Missing, u_preferenceRevision = Missing,
     u_lastOperationId = Missing, u_exportSuppressedAt = Missing\<rparr>"

definition demo_users :: "user list" where
  "demo_users = [demo_legacy, demo_legacy\<lparr>u_id := ''b2'', u_preference := Val ''enabled'',
     u_preferenceUpdatedAt := Val 7, u_preferenceRevision := Val 1, u_lastOperationId := Null\<rparr>]"

lemmas user_eval = demo_users_def demo_legacy_def updateProductAnalyticsPreference_def findOneAndUpdate_def
  preference_filter_def preference_update_def isMatchingDuplicateOperation_def isNewOperationAtExpectedRevision_def
  productAnalyticsPreferenceRecordFrom_def preferenceSchema_def MAX_SAFE_INTEGER_def Let_def

definition demo_updated :: "user list" where
  "demo_updated = snd (updateProductAnalyticsPreference Some (\<lambda>_. True) id 9 ''b2'' Disabled 1 ''op'' demo_users)"

lemma demo_update:
  "updateProductAnalyticsPreference Some (\<lambda>_. True) id 9 ''b2'' Disabled 1 ''op'' demo_users =
     (Inr (Some (Updated \<lparr>pr_preference = Disabled, pr_updatedAt = 9, pr_revision = 2\<rparr>)), demo_updated)"
  by (simp add: demo_updated_def user_eval)

lemma preference_retry_idempotent_witness:
  "updateProductAnalyticsPreference Some (\<lambda>_. True) id 99 ''b2'' Disabled 1 ''op'' demo_updated =
     (Inr (Some (Updated \<lparr>pr_preference = Disabled, pr_updatedAt = 9, pr_revision = 2\<rparr>)), demo_updated)"
  using preference_retry_idempotent [OF demo_update, of id 99] .

theorem no_lost_preference_update_witness:
  "fst (updateProductAnalyticsPreference Some (\<lambda>_. True) id 20 ''b2'' Enabled 1 ''op2'' demo_updated)
     \<noteq> Inr (Some (Updated \<lparr>pr_preference = Enabled, pr_updatedAt = 20, pr_revision = 2\<rparr>))"
  using no_lost_preference_update [OF _ demo_update rtranclp.rtrancl_refl, of "''op2''" "''b2''" id 20 Enabled]
  by (simp add: demo_users_def demo_legacy_def)

theorem suppression_is_permanent_witness:
  "isProductAnalyticsExportSuppressedOnPrimary Some ''b2''
     (snd (suppressProductAnalyticsExport Some id id ''b2'' (Some 50) demo_users))"
proof -
  have "suppressProductAnalyticsExport Some id id ''b2'' (Some 50) demo_users =
      (Inr (Some (\<lparr>pr_preference = Disabled, pr_updatedAt = 50, pr_revision = 2\<rparr>, 50)),
       snd (suppressProductAnalyticsExport Some id id ''b2'' (Some 50) demo_users))"
    by (simp add: suppressProductAnalyticsExport_def findProductAnalyticsPreference_def findById_def
        suppression_update_def user_eval)
  from suppression_is_permanent [OF this _ _ rtranclp.rtrancl_refl] show ?thesis
    by (simp add: suppressProductAnalyticsExport_def findProductAnalyticsPreference_def findById_def
        suppression_update_def user_eval)
qed

lemma backfill_batch_completes_witness:
  "map u_id (updateMany backfillCandidate backfill_update demo_users) = [''a1'', ''b2'']"
proof -
  have f: "findProductAnalyticsPreferenceBackfillBatch Some None 5 demo_users = Inr [''a1'']"
    by (simp add: findProductAnalyticsPreferenceBackfillBatch_def MAX_BATCH_LIMIT_def cursor_def find_page_def
        backfillCandidate_def demo_users_def demo_legacy_def)
  have b: "backfillProductAnalyticsPreferenceBatch Some [''a1''] demo_users =
      Inr ((1, 1), updateMany backfillCandidate backfill_update demo_users)"
    by (simp add: backfillProductAnalyticsPreferenceBatch_def MAX_BATCH_LIMIT_def updateMany_def Let_def
        backfillCandidate_def backfill_update_def demo_users_def demo_legacy_def)
  show ?thesis using backfill_batch_completes [OF _ _ f _ b] by (simp add: demo_users_def demo_legacy_def)
qed

lemma preference_backfill_completes_witness:
  "\<exists>c'. preferenceBackfillRun 3 Some True 1 None 0 demo_users = Some (Inr (1, c')) \<and>
     assertProductAnalyticsPreferenceBackfillComplete c' = Inr ()"
  using preference_backfill_completes [of demo_users Some 1 3]
  by (auto simp: backfillCandidate_def demo_users_def demo_legacy_def)

end
