(* ===== verification/Devices.thy ===== *)
theory Devices
  imports Documents Errors
begin

text \<open>
  Devices and what is pushed to them: \<open>src/models/settings.ts\<close> with
  \<open>src/repositories/settings-configuration-repo.ts\<close> and
  \<open>src/services/settings-service.ts\<close> (the notification toggles of a device),
  \<open>src/repositories/device-token-repo.ts\<close> (push tokens and their owners) and
  \<open>src/services/notification-service.ts\<close> (who receives a push).  The driver's
  ObjectId parser is \<open>oid\<close>; Firebase is the argument \<open>sendEach\<close>; a method that
  awaits between two accesses to a collection takes \<open>env\<close>, what other requests
  do in between.
\<close>

section \<open>Notification settings\<close>

datatype setting_key = AiInteraction | SessionMessage | ConnectionStatus | SystemUpdate

fun key_name :: "setting_key \<Rightarrow> string" where
  "key_name AiInteraction = ''aiInteraction''"
| "key_name SessionMessage = ''sessionMessage''"
| "key_name ConnectionStatus = ''connectionStatus''"
| "key_name SystemUpdate = ''systemUpdate''"

definition NOTIFICATION_SETTINGS_DEFAULTS :: "setting_key \<Rightarrow> bool" where
  "NOTIFICATION_SETTINGS_DEFAULTS k = True"

definition resolveNotificationSettings :: "(string \<rightharpoonup> bool) option \<Rightarrow> setting_key \<Rightarrow> bool" where
  "resolveNotificationSettings stored k =
     (case stored of
        None \<Rightarrow> NOTIFICATION_SETTINGS_DEFAULTS k
      | Some m \<Rightarrow> (case m (key_name k) of None \<Rightarrow> NOTIFICATION_SETTINGS_DEFAULTS k | Some v \<Rightarrow> v))"

record settings_configuration =
  sc_userId :: string
  sc_deviceId :: string
  sc_notifications :: "string \<rightharpoonup> bool"
  sc_createdAt :: "millis field"
  sc_updatedAt :: millis

definition findByUserAndDevice ::
  "(string \<Rightarrow> string option) \<Rightarrow> string \<Rightarrow> string \<Rightarrow> settings_configuration list \<Rightarrow> settings_configuration option" where
  "findByUserAndDevice oid userId deviceId c =
     (case oid userId of None \<Rightarrow> None
      | Some u \<Rightarrow> findOne (\<lambda>d. sc_userId d = u \<and> sc_deviceId d = deviceId) c)"

definition findSettingsByUserId ::
  "(string \<Rightarrow> string option) \<Rightarrow> string \<Rightarrow> settings_configuration list \<Rightarrow> settings_configuration list" where
  "findSettingsByUserId oid userId c =
     (case oid userId of None \<Rightarrow> [] | Some u \<Rightarrow> filter (\<lambda>d. sc_userId d = u) c)"

definition patch_notifications :: "(setting_key \<rightharpoonup> bool) \<Rightarrow> (string \<rightharpoonup> bool) \<Rightarrow> string \<rightharpoonup> bool" where
  \<comment> \<open>the dotted paths of the toggles present in the patch\<close>
  "patch_notifications patch m =
     foldr (\<lambda>k m. case patch k of None \<Rightarrow> m | Some v \<Rightarrow> m(key_name k \<mapsto> v))
       [AiInteraction, SessionMessage, ConnectionStatus, SystemUpdate] m"

definition settings_update :: "(setting_key \<rightharpoonup> bool) \<Rightarrow> millis \<Rightarrow> settings_configuration \<Rightarrow> settings_configuration" where
  "settings_update patch now d =
     d\<lparr>sc_updatedAt := now, sc_createdAt := if_null (sc_createdAt d) (Val now),
       sc_notifications := patch_notifications patch (sc_notifications d)\<rparr>"

definition upsertSettings ::
  "(string \<Rightarrow> string option) \<Rightarrow> millis \<Rightarrow> string \<Rightarrow> string \<Rightarrow> (setting_key \<rightharpoonup> bool) \<Rightarrow> settings_configuration list
   \<Rightarrow> api_error + settings_configuration \<times> settings_configuration list" where
  "upsertSettings oid now userId deviceId patch c =
     (case oid userId of
        None \<Rightarrow> Inl InternalServerError
      | Some u \<Rightarrow>
          (case findOneAndUpdate (\<lambda>d. sc_userId d = u \<and> sc_deviceId d = deviceId) (settings_update patch now) c of
             (Some (_, d), c') \<Rightarrow> Inr (d, c')
           | (None, c') \<Rightarrow>
               let d = settings_update patch now
                 \<lparr>sc_userId = u, sc_deviceId = deviceId, sc_notifications = Map.empty,
                  sc_createdAt = Missing, sc_updatedAt = now\<rparr>
               in Inr (d, c' @ [d])))"

definition deleteAllSettingsForUser ::
  "(string \<Rightarrow> string option) \<Rightarrow> string \<Rightarrow> settings_configuration list \<Rightarrow> api_error + settings_configuration list" where
  "deleteAllSettingsForUser oid userId c =
     (case oid userId of None \<Rightarrow> Inl InternalServerError | Some u \<Rightarrow> Inr (filter (\<lambda>d. sc_userId d \<noteq> u) c))"

definition getForDevice ::
  "(string \<Rightarrow> string option) \<Rightarrow> string \<Rightarrow> string \<Rightarrow> settings_configuration list
   \<Rightarrow> (setting_key \<Rightarrow> bool) \<times> millis option" where
  "getForDevice oid userId deviceId c =
     (let doc = findByUserAndDevice oid userId deviceId c
      in (resolveNotificationSettings (map_option sc_notifications doc), map_option sc_updatedAt doc))"

definition resolveNotificationsByDevice ::
  "(string \<Rightarrow> string option) \<Rightarrow> string \<Rightarrow> settings_configuration list \<Rightarrow> string \<rightharpoonup> setting_key \<Rightarrow> bool" where
  "resolveNotificationsByDevice oid userId c =
     map_of (rev (map (\<lambda>d. (sc_deviceId d, resolveNotificationSettings (Some (sc_notifications d))))
       (findSettingsByUserId oid userId c)))"

definition updateForDevice ::
  "(string \<Rightarrow> string option) \<Rightarrow> millis \<Rightarrow> string \<Rightarrow> string \<Rightarrow> (setting_key \<rightharpoonup> bool) \<Rightarrow> settings_configuration list
   \<Rightarrow> api_error + ((setting_key \<Rightarrow> bool) \<times> millis option) \<times> settings_configuration list" where
  "updateForDevice oid now userId deviceId patch c =
     map_sum id (apfst (\<lambda>d. (resolveNotificationSettings (Some (sc_notifications d)), Some (sc_updatedAt d))))
       (upsertSettings oid now userId deviceId patch c)"

section \<open>Device tokens\<close>

datatype device_platform = IosPlatform | AndroidPlatform | MacosPlatform | WindowsPlatform | LinuxPlatform

record device_token =
  dt_userId :: string
  dt_token :: string
  dt_platform :: device_platform
  dt_deviceId :: "string field"
  dt_createdAt :: "millis field"
  dt_updatedAt :: millis

definition token_update ::
  "millis \<Rightarrow> string \<Rightarrow> device_platform \<Rightarrow> string option \<Rightarrow> device_token \<Rightarrow> device_token" where
  "token_update now u platform deviceId d =
     (let sameOwner = (dt_userId d = u) in
      d\<lparr>dt_userId := u, dt_platform := platform,
        dt_deviceId := (case deviceId of Some x \<Rightarrow> Val x
                        | None \<Rightarrow> if sameOwner then if_null (dt_deviceId d) Null else Null),
        dt_createdAt := (if sameOwner then if_null (dt_createdAt d) (Val now) else Val now),
        dt_updatedAt := now\<rparr>)"

definition upsertToken ::
  "(string \<Rightarrow> string option) \<Rightarrow> millis \<Rightarrow> string \<Rightarrow> string \<Rightarrow> device_platform \<Rightarrow> string option
   \<Rightarrow> device_token list \<Rightarrow> api_error + device_token list" where
  "upsertToken oid now userId token platform deviceId c =
     (case oid userId of
        None \<Rightarrow> Inl InternalServerError
      | Some u \<Rightarrow> Inr
          (case findOne (\<lambda>d. dt_token d = token) c of
             Some _ \<Rightarrow> updateFirst (\<lambda>d. dt_token d = token) (token_update now u platform deviceId) c
           | None \<Rightarrow> c @ [\<lparr>dt_userId = u, dt_token = token, dt_platform = platform,
               dt_deviceId = (case deviceId of Some x \<Rightarrow> Val x | None \<Rightarrow> Null),
               dt_createdAt = Val now, dt_updatedAt = now\<rparr>]))"

definition findTokensByUserId :: "string \<Rightarrow> device_token list \<Rightarrow> device_token list" where
  "findTokensByUserId u c = filter (\<lambda>d. dt_userId d = u) c"

definition hasAnyForUser :: "(string \<Rightarrow> string option) \<Rightarrow> string \<Rightarrow> device_token list \<Rightarrow> api_error + bool" where
  "hasAnyForUser oid userId c =
     (case oid userId of None \<Rightarrow> Inl InternalServerError
      | Some u \<Rightarrow> Inr (findOne (\<lambda>d. dt_userId d = u) c \<noteq> None))"

fun null_first :: "millis option \<Rightarrow> millis option \<Rightarrow> bool" where
  \<comment> \<open>the sort order of the database: null before every date\<close>
  "null_first None _ = True"
| "null_first (Some a) None = False"
| "null_first (Some a) (Some b) = (a \<le> b)"

fun earliest :: "millis option list \<Rightarrow> millis option" where
  "earliest [] = None"
| "earliest [x] = x"
| "earliest (x # y # xs) = earliest ((if null_first x y then x else y) # xs)"

definition findEarliestCreatedAt ::
  "(string \<Rightarrow> string option) \<Rightarrow> string \<Rightarrow> device_token list \<Rightarrow> millis option" where
  "findEarliestCreatedAt oid userId c =
     (case oid userId of None \<Rightarrow> None
      | Some u \<Rightarrow> earliest (map (\<lambda>d. val (dt_createdAt d)) (findTokensByUserId u c)))"

fun deleteOne :: "('d \<Rightarrow> bool) \<Rightarrow> 'd list \<Rightarrow> 'd list" where
  "deleteOne p [] = []"
| "deleteOne p (d # c) = (if p d then c else d # deleteOne p c)"

definition deleteByToken :: "string \<Rightarrow> device_token list \<Rightarrow> device_token list" where
  "deleteByToken token c = deleteOne (\<lambda>d. dt_token d = token) c"

definition deleteByTokenForUser :: "string \<Rightarrow> string \<Rightarrow> device_token list \<Rightarrow> device_token list" where
  "deleteByTokenForUser u token c = deleteOne (\<lambda>d. dt_token d = token \<and> dt_userId d = u) c"

definition deleteByTokens :: "string list \<Rightarrow> device_token list \<Rightarrow> device_token list" where
  "deleteByTokens ts c = (if ts = [] then c else filter (\<lambda>d. dt_token d \<notin> set ts) c)"

definition deleteAllForUser :: "string \<Rightarrow> device_token list \<Rightarrow> device_token list" where
  "deleteAllForUser u c = filter (\<lambda>d. dt_userId d \<noteq> u) c"

section \<open>Sending a push\<close>

definition category_key :: "setting_key \<Rightarrow> setting_key" where
  \<comment> \<open>\<open>NOTIFICATION_CATEGORY_SETTING_KEYS\<close>: each category is silenced by its own toggle\<close>
  "category_key k = k"

fun category_name :: "setting_key \<Rightarrow> string" where
  "category_name AiInteraction = ''ai_interaction''"
| "category_name SessionMessage = ''session_message''"
| "category_name ConnectionStatus = ''connection_status''"
| "category_name SystemUpdate = ''system_update''"

record notification_data =
  nd_eventType :: "string option"
  nd_sessionId :: "string option"
  nd_projectId :: "string option"
  nd_bridgeId :: "string option"

record notification_payload =
  np_category :: setting_key
  np_title :: string
  np_body :: string
  np_collapseKey :: "string option"
  np_data :: "notification_data option"
  np_excludedDeviceIds :: "string set"
  np_trayKey :: string

definition truthy :: "string field \<Rightarrow> bool" where
  "truthy f = (case f of Val s \<Rightarrow> s \<noteq> [] | _ \<Rightarrow> False)"

definition selectOptedInTokens ::
  "(string \<rightharpoonup> setting_key \<Rightarrow> bool) option \<Rightarrow> setting_key \<Rightarrow> device_token list \<Rightarrow> device_token list" where
  \<comment> \<open>the first argument is the settings read, \<open>None\<close> when it threw\<close>
  "selectOptedInTokens settingsByDevice category tokens =
     (if \<not> list_ex (\<lambda>d. truthy (dt_deviceId d)) tokens then tokens
      else case settingsByDevice of
             None \<Rightarrow> tokens
           | Some m \<Rightarrow> filter (\<lambda>d. if \<not> truthy (dt_deviceId d) then True
                else (case m (the (val (dt_deviceId d))) of
                        None \<Rightarrow> NOTIFICATION_SETTINGS_DEFAULTS (category_key category)
                      | Some s \<Rightarrow> s (category_key category))) tokens)"

record fcm_message =
  fm_token :: string
  fm_title :: string
  fm_body :: string
  fm_data :: "(string \<times> string) list"
  fm_collapseKey :: "string option"
  fm_channelId :: string
  fm_tag :: "string option"
  fm_apnsCollapseId :: "string option"

definition data_entry :: "string \<Rightarrow> string option \<Rightarrow> (string \<times> string) list" where
  "data_entry k v = (case v of None \<Rightarrow> [] | Some s \<Rightarrow> if s = [] then [] else [(k, s)])"

definition flatData :: "notification_payload \<Rightarrow> (string \<times> string) list" where
  "flatData p = (''category'', category_name (np_category p)) #
     (case np_data p of None \<Rightarrow> []
      | Some d \<Rightarrow> data_entry ''eventType'' (nd_eventType d) @ data_entry ''sessionId'' (nd_sessionId d) @
          data_entry ''projectId'' (nd_projectId d) @ data_entry ''bridgeId'' (nd_bridgeId d))"

definition tray_key :: "notification_payload \<Rightarrow> string option" where
  \<comment> \<open>an empty key counts as absent\<close>
  "tray_key p = (case (if np_category p = ConnectionStatus then Some (np_trayKey p) else np_collapseKey p) of
     None \<Rightarrow> None | Some k \<Rightarrow> if k = [] then None else Some k)"

definition fcm_message_for :: "notification_payload \<Rightarrow> device_token \<Rightarrow> fcm_message" where
  "fcm_message_for p d =
     \<lparr>fm_token = dt_token d, fm_title = np_title p, fm_body = np_body p, fm_data = flatData p,
      fm_collapseKey = np_collapseKey p, fm_channelId = category_name (np_category p),
      fm_tag = tray_key p, fm_apnsCollapseId = tray_key p\<rparr>"

datatype fcm_result = Sent | Failed "string option"

definition stale_code :: "string option \<Rightarrow> bool" where
  "stale_code c \<longleftrightarrow> c = Some ''messaging/registration-token-not-registered'' \<or>
     c = Some ''messaging/invalid-registration-token''"

record delivery =
  devicesNotified :: nat
  retryableFailures :: nat

definition deliverableTokens :: "notification_payload \<Rightarrow> device_token list \<Rightarrow> device_token list" where
  "deliverableTokens p tokens =
     (if np_category p = ConnectionStatus
      then filter (\<lambda>d. \<not> truthy (dt_deviceId d) \<or> the (val (dt_deviceId d)) \<notin> np_excludedDeviceIds p) tokens
      else tokens)"

definition sendToUser ::
  "bool \<Rightarrow> (nat \<Rightarrow> bool) \<Rightarrow> (fcm_message list \<Rightarrow> fcm_result list) \<Rightarrow> (string \<rightharpoonup> setting_key \<Rightarrow> bool) option
   \<Rightarrow> (device_token list \<Rightarrow> device_token list) \<Rightarrow> string \<Rightarrow> notification_payload \<Rightarrow> device_token list
   \<Rightarrow> delivery option \<times> fcm_message list \<times> device_token list" where
  \<comment> \<open>\<open>aborted i\<close> is the abort signal at the i-th check (the delivery is \<open>None\<close> when it
     throws), \<open>np_excludedDeviceIds\<close> the exclusion set after the last lookup, \<open>env\<close> what
     other requests do to the tokens until the stale ones are deleted\<close>
  "sendToUser available aborted sendEach settingsByDevice env u p c =
     (let none = \<lparr>devicesNotified = 0, retryableFailures = 0\<rparr>;
          tokens = findTokensByUserId u c;
          opted = selectOptedInTokens settingsByDevice (np_category p) tokens;
          targets = deliverableTokens p opted;
          messages = map (fcm_message_for p) targets;
          responses = sendEach messages;
          stale = map (dt_token \<circ> fst) (filter (\<lambda>(d, r). case r of Sent \<Rightarrow> False | Failed e \<Rightarrow> stale_code e)
                    (zip targets responses));
          retryable = length (filter (\<lambda>(d, r). case r of Sent \<Rightarrow> False | Failed e \<Rightarrow> \<not> stale_code e)
                    (zip targets responses));
          done = \<lparr>devicesNotified = length (filter (\<lambda>r. r = Sent) responses), retryableFailures = retryable\<rparr>
      in if aborted 0 then (None, [], c)
         else if \<not> available then (Some none, [], c)
         else if aborted 1 then (None, [], c)
         else if tokens = [] then (Some none, [], c)
         else if aborted 2 then (None, [], c)
         else if targets = [] then (Some none, [], c)
         else if aborted 3 then (None, messages, env c)
         else if stale = [] then (Some done, messages, env c)
         else if aborted 4 then (None, messages, deleteByTokens stale (env c))
         else (Some done, messages, deleteByTokens stale (env c)))"

end
