(* ===== verification/DevicesProps.thy ===== *)
theory DevicesProps
  imports Devices
begin

text \<open>
  What the device collections and the push service guarantee: a settings update
  is a merge, a push token has one owner, and a push reaches exactly the devices
  that may receive it.
\<close>

section \<open>Settings\<close>

lemma key_name_inj: "key_name k = key_name k' \<longleftrightarrow> k = k'"
  by (cases k; cases k') simp_all

lemma patch_notifications_key:
  "patch_notifications patch m (key_name k) = (case patch k of None \<Rightarrow> m (key_name k) | Some v \<Rightarrow> Some v)"
  by (cases k) (auto simp: patch_notifications_def split: option.split)

lemma resolve_patch:
  "resolveNotificationSettings (Some (patch_notifications patch m)) k =
     (case patch k of Some v \<Rightarrow> v | None \<Rightarrow> resolveNotificationSettings (Some m) k)"
  by (simp add: resolveNotificationSettings_def patch_notifications_key split: option.split)

lemma resolve_none: "resolveNotificationSettings None = resolveNotificationSettings (Some Map.empty)"
  by (rule ext) (simp add: resolveNotificationSettings_def)

lemma upsert_settings:
  assumes "upsertSettings oid now userId deviceId patch c = Inr (d, c')"
  shows "findByUserAndDevice oid userId deviceId c' = Some d"
    and "sc_updatedAt d = now"
    and "sc_notifications d = patch_notifications patch
       (case findByUserAndDevice oid userId deviceId c of None \<Rightarrow> Map.empty | Some o' \<Rightarrow> sc_notifications o')"
    and "(oid user', device') \<noteq> (oid userId, deviceId) \<Longrightarrow>
       findByUserAndDevice oid user' device' c' = findByUserAndDevice oid user' device' c"
proof -
  from assms obtain u where u: "oid userId = Some u"
    by (auto simp: upsertSettings_def split: option.splits)
  let ?p = "\<lambda>d. sc_userId d = u \<and> sc_deviceId d = deviceId"
  have all: "findByUserAndDevice oid userId deviceId c' = Some d \<and> sc_updatedAt d = now \<and>
      sc_notifications d = patch_notifications patch
       (case findByUserAndDevice oid userId deviceId c of None \<Rightarrow> Map.empty | Some o' \<Rightarrow> sc_notifications o') \<and>
     ((oid user', device') \<noteq> (oid userId, deviceId) \<longrightarrow>
       findByUserAndDevice oid user' device' c' = findByUserAndDevice oid user' device' c)"
  proof (cases "findOne ?p c")
    case None
    then show ?thesis using assms u
      by (auto simp: upsertSettings_def findOneAndUpdate_def findByUserAndDevice_def Let_def
          settings_update_def findOne_append split: option.splits)
  next
    case (Some d0)
    have own: "findOne ?p (updateFirst ?p (settings_update patch now) c) = Some (settings_update patch now d0)"
      using findOne_Some [OF Some] by (intro findOne_updateFirst [OF Some]) (simp add: settings_update_def)
    have other: "findOne (\<lambda>d. sc_userId d = u' \<and> sc_deviceId d = dev) (updateFirst ?p (settings_update patch now) c) =
        findOne (\<lambda>d. sc_userId d = u' \<and> sc_deviceId d = dev) c"
      if "u' = u \<longrightarrow> dev \<noteq> deviceId" for u' dev
      using that by (intro findOne_updateFirst_other) (auto simp: settings_update_def)
    from Some own other assms u show ?thesis
      by (auto simp: upsertSettings_def findOneAndUpdate_def findByUserAndDevice_def settings_update_def
          split: option.split)
  qed
  then show "findByUserAndDevice oid userId deviceId c' = Some d"
    and "sc_updatedAt d = now"
    and "sc_notifications d = patch_notifications patch
       (case findByUserAndDevice oid userId deviceId c of None \<Rightarrow> Map.empty | Some o' \<Rightarrow> sc_notifications o')"
    by blast+
  from all show "(oid user', device') \<noteq> (oid userId, deviceId) \<Longrightarrow>
       findByUserAndDevice oid user' device' c' = findByUserAndDevice oid user' device' c" by blast
qed

text \<open>A settings update is a merge.  The answer shows each toggle of the patch as given and
  every other toggle as it was resolved before (enabled by default), a later read
  of the device answers the same view, and no other device of any user changes.\<close>
lemma settings_update_merges:
  assumes "updateForDevice oid now userId deviceId patch c = Inr ((view, at), c')"
  shows "getForDevice oid userId deviceId c' = (view, at) \<and> at = Some now \<and>
     (\<forall>k. view k = (case patch k of Some v \<Rightarrow> v | None \<Rightarrow> fst (getForDevice oid userId deviceId c) k)) \<and>
     (\<forall>user' device'. (oid user', device') \<noteq> (oid userId, deviceId) \<longrightarrow>
        getForDevice oid user' device' c' = getForDevice oid user' device' c)"
proof -
  from assms obtain d where d: "upsertSettings oid now userId deviceId patch c = Inr (d, c')"
    and view: "view = resolveNotificationSettings (Some (sc_notifications d))" "at = Some (sc_updatedAt d)"
    by (cases "upsertSettings oid now userId deviceId patch c") (auto simp: updateForDevice_def)
  note up = upsert_settings [OF d]
  have "view k = (case patch k of Some v \<Rightarrow> v | None \<Rightarrow> fst (getForDevice oid userId deviceId c) k)" for k
    unfolding view up(3) resolve_patch
    by (simp add: getForDevice_def Let_def resolve_none split: option.split)
  moreover have "getForDevice oid userId deviceId c' = (view, at)" "at = Some now"
    using up(1,2) by (simp_all add: getForDevice_def view)
  moreover have "getForDevice oid user' device' c' = getForDevice oid user' device' c"
    if "(oid user', device') \<noteq> (oid userId, deviceId)" for user' device'
    using up(4) [OF that] by (simp add: getForDevice_def)
  ultimately show ?thesis by blast
qed

lemma settings_update_merges_witness:
  "\<exists>c' view. updateForDevice Some 9 ''u'' ''d'' [SessionMessage \<mapsto> False] [] = Inr ((view, Some 9), c') \<and>
     fst (getForDevice Some ''u'' ''d'' c') SessionMessage = False"
proof -
  let ?d = "\<lparr>sc_userId = ''u'', sc_deviceId = ''d'', sc_notifications = [''sessionMessage'' \<mapsto> False],
     sc_createdAt = Val 9, sc_updatedAt = 9\<rparr>"
  have up: "updateForDevice Some 9 ''u'' ''d'' [SessionMessage \<mapsto> False] [] =
      Inr ((resolveNotificationSettings (Some [''sessionMessage'' \<mapsto> False]), Some 9), [?d])"
    by (simp add: updateForDevice_def upsertSettings_def findOneAndUpdate_def settings_update_def
        patch_notifications_def Let_def)
  show ?thesis using settings_update_merges [OF up] up
    by (intro exI conjI) (auto simp: resolveNotificationSettings_def)
qed

section \<open>Token ownership\<close>

lemma updateFirst_unique:
  assumes "distinct (map key c)" and "findOne (\<lambda>d. key d = k) c = Some d" and "\<And>x. key (f x) = key x"
  shows "filter (\<lambda>d. key d = k) (updateFirst (\<lambda>d. key d = k) f c) = [f d]"
    and "filter (\<lambda>d. key d \<noteq> k) (updateFirst (\<lambda>d. key d = k) f c) = filter (\<lambda>d. key d \<noteq> k) c"
  using assms by (induction c) (auto simp: filter_empty_conv image_iff split: if_splits)

definition inherits :: "device_token \<Rightarrow> device_token \<Rightarrow> string option \<Rightarrow> bool" where
  \<comment> \<open>what a re-registration keeps for the same owner\<close>
  "inherits old d deviceId \<longleftrightarrow>
     dt_createdAt d = (if is_null (dt_createdAt old) then dt_createdAt d else dt_createdAt old) \<and>
     (deviceId = None \<longrightarrow> \<not> is_null (dt_deviceId old) \<longrightarrow> dt_deviceId d = dt_deviceId old)"

definition starts_fresh :: "millis \<Rightarrow> device_token \<Rightarrow> string option \<Rightarrow> bool" where
  "starts_fresh now d deviceId \<longleftrightarrow>
     dt_createdAt d = Val now \<and> (deviceId = None \<longrightarrow> dt_deviceId d = Null)"

text \<open>A push token has one owner.  Registering a token leaves exactly one document
  for it, owned by the caller with the given platform and device, and every other
  document untouched; the previous registration's date and device survive only if
  the caller already owned the token, and a new owner inherits neither.\<close>
lemma token_has_one_owner:
  assumes "distinct (map dt_token c)" and "oid userId = Some u"
    and "upsertToken oid now userId token platform deviceId c = Inr c'"
  shows "distinct (map dt_token c') \<and>
     filter (\<lambda>d. dt_token d \<noteq> token) c' = filter (\<lambda>d. dt_token d \<noteq> token) c \<and>
     (\<exists>d. filter (\<lambda>d. dt_token d = token) c' = [d] \<and> dt_userId d = u \<and> dt_platform d = platform \<and>
        (case deviceId of Some y \<Rightarrow> dt_deviceId d = Val y | None \<Rightarrow> True) \<and>
        (case findOne (\<lambda>d. dt_token d = token) c of
           Some old \<Rightarrow> if dt_userId old = u then inherits old d deviceId else starts_fresh now d deviceId
         | None \<Rightarrow> starts_fresh now d deviceId))"
proof (cases "findOne (\<lambda>d. dt_token d = token) c")
  case None
  then have "filter (\<lambda>d. dt_token d = token) c = []" "token \<notin> dt_token ` set c"
    by (auto simp: findOne_None filter_empty_conv)
  then show ?thesis using assms None by (cases deviceId) (auto simp: upsertToken_def starts_fresh_def)
next
  case (Some old)
  let ?f = "token_update now u platform deviceId"
  have key: "dt_token (?f x) = dt_token x" for x by (simp add: token_update_def Let_def)
  have c': "c' = updateFirst (\<lambda>d. dt_token d = token) ?f c"
    using assms(2,3) Some by (simp add: upsertToken_def)
  have "distinct (map dt_token c')"
    using assms(1) unfolding c' by (simp add: map_updateFirst key)
  moreover note updateFirst_unique [where key = dt_token and f = ?f, OF assms(1) Some key, folded c']
  moreover have "dt_userId (?f old) = u" "dt_platform (?f old) = platform"
    "(case deviceId of Some y \<Rightarrow> dt_deviceId (?f old) = Val y | None \<Rightarrow> True)"
    "if dt_userId old = u then inherits old (?f old) deviceId else starts_fresh now (?f old) deviceId"
    by (cases "dt_createdAt old"; cases "dt_deviceId old";
        simp add: token_update_def inherits_def starts_fresh_def Let_def split: option.split)+
  ultimately show ?thesis using Some by auto
qed

definition demo_token :: device_token where
  "demo_token = \<lparr>dt_userId = ''u1'', dt_token = ''t'', dt_platform = IosPlatform, dt_deviceId = Val ''d1'',
     dt_createdAt = Val 1, dt_updatedAt = 1\<rparr>"

lemma token_has_one_owner_witness:
  "\<exists>d. [token_update 9 ''u2'' AndroidPlatform None demo_token] = [d] \<and> starts_fresh 9 d None"
proof -
  have "upsertToken Some 9 ''u2'' ''t'' AndroidPlatform None [demo_token] =
      Inr [token_update 9 ''u2'' AndroidPlatform None demo_token]"
    by (simp add: upsertToken_def demo_token_def)
  from token_has_one_owner [OF _ refl this] show ?thesis
    by (simp add: demo_token_def token_update_def)
qed

section \<open>Who receives a push\<close>

definition opted_in :: "(string \<rightharpoonup> setting_key \<Rightarrow> bool) option \<Rightarrow> setting_key \<Rightarrow> device_token \<Rightarrow> bool" where
  "opted_in settings category d \<longleftrightarrow>
     (case (settings, dt_deviceId d) of
        (Some m, Val dev) \<Rightarrow> dev = [] \<or> (case m dev of None \<Rightarrow> True | Some s \<Rightarrow> s category)
      | _ \<Rightarrow> True)"

definition excluded :: "notification_payload \<Rightarrow> device_token \<Rightarrow> bool" where
  "excluded p d \<longleftrightarrow> np_category p = ConnectionStatus \<and>
     (case dt_deviceId d of Val dev \<Rightarrow> dev \<noteq> [] \<and> dev \<in> np_excludedDeviceIds p | _ \<Rightarrow> False)"

lemma selectOptedIn_filter:
  "selectOptedInTokens settings category tokens = filter (opted_in settings category) tokens"
proof (cases "list_ex (\<lambda>d. truthy (dt_deviceId d)) tokens")
  case True
  then show ?thesis
    by (auto simp: selectOptedInTokens_def opted_in_def truthy_def NOTIFICATION_SETTINGS_DEFAULTS_def category_key_def
        intro!: filter_cong split: option.split field.split)
next
  case False
  then have "\<forall>d \<in> set tokens. opted_in settings category d"
    by (auto simp: list_ex_iff opted_in_def truthy_def split: option.split field.split)
  with False show ?thesis by (simp add: selectOptedInTokens_def)
qed

lemma deliverable_filter: "deliverableTokens p tokens = filter (\<lambda>d. \<not> excluded p d) tokens"
  by (auto simp: deliverableTokens_def excluded_def truthy_def intro!: filter_cong split: field.split)

text \<open>Who receives a push.  When a push is submitted, its messages go to exactly the
  push tokens of the addressed user whose device has not switched the category off
  and, for a connection status, is not in the exclusion set, in order; a token
  without a device or a device without stored settings counts as opted in; and
  the only tokens that disappear are those the provider reported as stale.\<close>
lemma push_reaches_opted_in:
  assumes "sendToUser available aborted sendEach settings env u p c = (r, messages, c')" and "messages \<noteq> []"
  shows "messages = map (fcm_message_for p)
      (filter (\<lambda>d. dt_userId d = u \<and> opted_in settings (np_category p) d \<and> \<not> excluded p d) c) \<and>
    available \<and> (\<forall>d \<in> set (env c) - set c'. \<exists>m e. (m, Failed e) \<in> set (zip messages (sendEach messages)) \<and>
       fm_token m = dt_token d \<and> stale_code e) \<and> set c' \<subseteq> set (env c)"
proof -
  let ?targets = "deliverableTokens p (selectOptedInTokens settings (np_category p) (findTokensByUserId u c))"
  have targets: "?targets = filter (\<lambda>d. dt_userId d = u \<and> opted_in settings (np_category p) d \<and> \<not> excluded p d) c"
    by (simp add: selectOptedIn_filter deliverable_filter findTokensByUserId_def conj_ac)
  have m: "messages = map (fcm_message_for p) ?targets" and av: available
    using assms by (auto simp: sendToUser_def Let_def split: if_splits)
  let ?stale = "map (dt_token \<circ> fst) (filter (\<lambda>(d, r). case r of Sent \<Rightarrow> False | Failed e \<Rightarrow> stale_code e)
      (zip ?targets (sendEach messages)))"
  have c': "c' = env c \<or> c' = deleteByTokens ?stale (env c)"
    using assms by (auto simp: sendToUser_def Let_def m split: if_splits)
  have gone: "\<exists>m e. (m, Failed e) \<in> set (zip messages (sendEach messages)) \<and> fm_token m = tok \<and> stale_code e"
    if "tok \<in> set ?stale" for tok
  proof -
    from that obtain d e where "(d, Failed e) \<in> set (zip ?targets (sendEach messages))" "stale_code e" "dt_token d = tok"
      by (auto split: fcm_result.splits)
    moreover from this(1) have "(fcm_message_for p d, Failed e) \<in> set (zip messages (sendEach messages))"
      unfolding m zip_map1 by force
    ultimately show ?thesis by (intro exI conjI) (auto simp: fcm_message_for_def)
  qed
  have "set c' \<subseteq> set (env c)" using c' by (auto simp: deleteByTokens_def split: if_splits)
  moreover have "\<exists>m e. (m, Failed e) \<in> set (zip messages (sendEach messages)) \<and> fm_token m = dt_token d \<and> stale_code e"
    if "d \<in> set (env c) - set c'" for d
    using c' that gone [of "dt_token d"] by (auto simp: deleteByTokens_def split: if_splits)
  ultimately show ?thesis using m av targets by simp
qed

definition demo_push :: notification_payload where
  "demo_push = \<lparr>np_category = SessionMessage, np_title = ''t'', np_body = ''b'', np_collapseKey = None,
     np_data = None, np_excludedDeviceIds = {}, np_trayKey = []\<rparr>"

lemma push_reaches_opted_in_witness:
  "sendToUser True (\<lambda>_. False) (map (\<lambda>_. Failed (Some ''messaging/registration-token-not-registered'')))
     None id ''u1'' demo_push [demo_token] =
     (Some \<lparr>devicesNotified = 0, retryableFailures = 0\<rparr>, [fcm_message_for demo_push demo_token], []) \<and>
   opted_in None SessionMessage demo_token"
proof -
  have t: "findTokensByUserId ''u1'' [demo_token] = [demo_token]"
    by (simp add: findTokensByUserId_def demo_token_def)
  have d: "deliverableTokens demo_push (selectOptedInTokens None (np_category demo_push) [demo_token]) = [demo_token]"
    by (simp add: selectOptedInTokens_def deliverableTokens_def demo_push_def)
  have s: "sendToUser True (\<lambda>_. False) (map (\<lambda>_. Failed (Some ''messaging/registration-token-not-registered'')))
     None id ''u1'' demo_push [demo_token] =
     (Some \<lparr>devicesNotified = 0, retryableFailures = 0\<rparr>, [fcm_message_for demo_push demo_token], [])"
    unfolding sendToUser_def Let_def t d by (simp add: stale_code_def deleteByTokens_def)
  have "map (fcm_message_for demo_push) (filter (\<lambda>d. dt_userId d = ''u1'' \<and> opted_in None (np_category demo_push) d \<and>
         \<not> excluded demo_push d) [demo_token]) = [fcm_message_for demo_push demo_token]"
    using push_reaches_opted_in [OF s] by simp
  then have "opted_in None (np_category demo_push) demo_token" by (simp split: if_splits)
  with s show ?thesis by (simp add: demo_push_def)
qed

end
