(* ===== verification/Bridges.thy ===== *)
theory Bridges
  imports Documents Errors "HOL-Library.List_Lexorder" "HOL-Library.Char_ord"
begin

text \<open>
  The bridges collection, \<open>src/repositories/bridge-repo.ts\<close>, and the enumerations
  of \<open>src/models/bridge.ts\<close>.  A bridge is a computer a user has registered; a
  bridge with a revocation date is kept but no longer counts.  A field that the
  source leaves absent is \<open>None\<close>.
\<close>

datatype bridge_platform = BridgeMacos | BridgeWin | BridgeLin

datatype bridge_kind = DesktopKind | CliKind

datatype bridge_status = Active | Inactive

fun bridgeStatusFromWire :: "bool \<Rightarrow> bridge_status" where
  \<comment> \<open>the argument is whether the wire status is \<open>connected\<close>\<close>
  "bridgeStatusFromWire True = Active"
| "bridgeStatusFromWire False = Inactive"

record bridge =
  br_bridgeId :: string
  br_userId :: string
  br_name :: string
  br_nickname :: "string option"
  br_platform :: bridge_platform
  br_status :: bridge_status
  br_hostKey :: "string option"
  br_kind :: "bridge_kind option"
  br_firstSessionAt :: "millis option"
  br_addedAt :: millis
  br_lastSeenAt :: "millis option"
  br_lastSeenIp :: "string option"
  br_revokedAt :: "millis option"
  br_createdAt :: millis
  br_updatedAt :: millis

definition owned_live :: "string \<Rightarrow> bridge \<Rightarrow> bool" where
  \<comment> \<open>the filter \<open>{userId, revokedAt: null}\<close>\<close>
  "owned_live u b \<longleftrightarrow> br_userId b = u \<and> br_revokedAt b = None"

definition findByIdForUser :: "(string \<Rightarrow> string option) \<Rightarrow> string \<Rightarrow> string \<Rightarrow> bridge list \<Rightarrow> bridge option" where
  "findByIdForUser oid bridgeId userId c =
     (case oid userId of None \<Rightarrow> None
      | Some u \<Rightarrow> findOne (\<lambda>b. br_bridgeId b = bridgeId \<and> owned_live u b) c)"

definition findRevokedIdsForUser ::
  "(string \<Rightarrow> string option) \<Rightarrow> string \<Rightarrow> string list \<Rightarrow> bridge list \<Rightarrow> string list" where
  "findRevokedIdsForUser oid userId bridgeIds c =
     (case oid userId of None \<Rightarrow> []
      | Some u \<Rightarrow> if bridgeIds = [] then []
          else map br_bridgeId (sort_key br_bridgeId
            (filter (\<lambda>b. br_userId b = u \<and> br_bridgeId b \<in> set bridgeIds \<and> br_revokedAt b \<noteq> None) c)))"

definition findByUserId :: "(string \<Rightarrow> string option) \<Rightarrow> string \<Rightarrow> bridge list \<Rightarrow> bridge list" where
  "findByUserId oid userId c = (case oid userId of None \<Rightarrow> [] | Some u \<Rightarrow> filter (owned_live u) c)"

definition findEarliestAddedAt :: "(string \<Rightarrow> string option) \<Rightarrow> string \<Rightarrow> bridge list \<Rightarrow> millis option" where
  "findEarliestAddedAt oid userId c =
     (case oid userId of None \<Rightarrow> None
      | Some u \<Rightarrow> (let ds = map br_addedAt (filter (\<lambda>b. br_userId b = u) c)
                   in if ds = [] then None else Some (Min (set ds))))"

record register_input =
  ri_name :: string
  ri_platform :: bridge_platform
  ri_hostKey :: "string option"
  ri_kind :: "bridge_kind option"

definition truthy_key :: "string option \<Rightarrow> string option" where
  \<comment> \<open>an absent, null or empty host key is not stored and never matches\<close>
  "truthy_key k = (case k of None \<Rightarrow> None | Some s \<Rightarrow> if s = [] then None else Some s)"

definition new_bridge :: "millis \<Rightarrow> string \<Rightarrow> string \<Rightarrow> register_input \<Rightarrow> bridge" where
  "new_bridge now newId u i =
     \<lparr>br_bridgeId = newId, br_userId = u, br_name = ri_name i, br_nickname = None,
      br_platform = ri_platform i, br_status = Inactive, br_hostKey = truthy_key (ri_hostKey i),
      br_kind = ri_kind i, br_firstSessionAt = None, br_addedAt = now, br_lastSeenAt = None,
      br_lastSeenIp = None, br_revokedAt = None, br_createdAt = now, br_updatedAt = now\<rparr>"

definition register ::
  "(string \<Rightarrow> string option) \<Rightarrow> millis \<Rightarrow> string \<Rightarrow> string \<Rightarrow> register_input \<Rightarrow> bridge list
   \<Rightarrow> thrown + bridge \<times> bridge list" where
  \<comment> \<open>\<open>newId\<close> is \<open>generateBridgeId()\<close>; bridge ids have a unique index\<close>
  "register oid now newId userId i c =
     (case oid userId of
        None \<Rightarrow> Inl Unknown
      | Some u \<Rightarrow> let b = new_bridge now newId u i in
          (case insertOne br_bridgeId b c of None \<Rightarrow> Inl Unknown | Some c' \<Rightarrow> Inr (b, c')))"

definition registration_update :: "millis \<Rightarrow> register_input \<Rightarrow> bridge \<Rightarrow> bridge" where
  "registration_update now i b =
     b\<lparr>br_name := ri_name i, br_platform := ri_platform i,
       br_hostKey := (case truthy_key (ri_hostKey i) of None \<Rightarrow> br_hostKey b | Some k \<Rightarrow> Some k),
       br_kind := (case ri_kind i of None \<Rightarrow> br_kind b | Some k \<Rightarrow> Some k),
       br_updatedAt := now\<rparr>"

definition more_recent :: "bridge \<Rightarrow> bridge \<Rightarrow> bool" where
  \<comment> \<open>strictly earlier in the order \<open>{lastSeenAt: -1, addedAt: -1}\<close>, where null sorts last\<close>
  "more_recent a b =
     (case (br_lastSeenAt a, br_lastSeenAt b) of
        (Some x, Some y) \<Rightarrow> y < x \<or> (x = y \<and> br_addedAt b < br_addedAt a)
      | (Some _, None) \<Rightarrow> True
      | (None, Some _) \<Rightarrow> False
      | (None, None) \<Rightarrow> br_addedAt b < br_addedAt a)"

fun most_recent :: "bridge list \<Rightarrow> bridge option" where
  "most_recent [] = None"
| "most_recent (b # bs) =
     (case most_recent bs of None \<Rightarrow> Some b | Some x \<Rightarrow> if more_recent x b then Some x else Some b)"

definition updateRegistration ::
  "(string \<Rightarrow> string option) \<Rightarrow> millis \<Rightarrow> (bridge \<Rightarrow> bool) \<Rightarrow> string \<Rightarrow> register_input \<Rightarrow> bridge list
   \<Rightarrow> bridge option \<times> bridge list" where
  "updateRegistration oid now p userId i c =
     (case oid userId of
        None \<Rightarrow> (None, c)
      | Some u \<Rightarrow>
          (case most_recent (filter (\<lambda>b. p b \<and> owned_live u b) c) of
             None \<Rightarrow> (None, c)
           | Some b \<Rightarrow> (Some (registration_update now i b),
               updateFirst (\<lambda>x. br_bridgeId x = br_bridgeId b) (registration_update now i) c)))"

definition updateForUser ::
  "(string \<Rightarrow> string option) \<Rightarrow> millis \<Rightarrow> string \<Rightarrow> string \<Rightarrow> register_input \<Rightarrow> bridge list
   \<Rightarrow> bridge option \<times> bridge list" where
  "updateForUser oid now bridgeId userId i c =
     updateRegistration oid now (\<lambda>b. br_bridgeId b = bridgeId) userId i c"

definition updateByHostKeyForUser ::
  "(string \<Rightarrow> string option) \<Rightarrow> millis \<Rightarrow> string \<Rightarrow> string \<Rightarrow> register_input \<Rightarrow> bridge list
   \<Rightarrow> bridge option \<times> bridge list" where
  "updateByHostKeyForUser oid now hostKey userId i c =
     updateRegistration oid now (\<lambda>b. br_hostKey b = Some hostKey) userId i c"

definition recordFirstSession ::
  "(string \<Rightarrow> string option) \<Rightarrow> string \<Rightarrow> string \<Rightarrow> millis \<Rightarrow> bridge list \<Rightarrow> bridge list" where
  "recordFirstSession oid bridgeId userId at c =
     (case oid userId of None \<Rightarrow> c
      | Some u \<Rightarrow> updateFirst (\<lambda>b. br_bridgeId b = bridgeId \<and> br_userId b = u \<and> br_firstSessionAt b = None)
          (\<lambda>b. b\<lparr>br_firstSessionAt := Some at, br_updatedAt := at\<rparr>) c)"

definition applies :: "millis \<Rightarrow> bridge \<Rightarrow> bool" where
  \<comment> \<open>the monotonic guard: an older event is dropped, one at the same instant is not\<close>
  "applies at b = (case br_lastSeenAt b of None \<Rightarrow> True | Some t \<Rightarrow> t \<le> at)"

definition status_update :: "bridge_status \<Rightarrow> millis \<Rightarrow> bridge \<Rightarrow> bridge" where
  "status_update st at b =
     b\<lparr>br_status := (if applies at b then st else br_status b),
       br_lastSeenAt := (if applies at b then Some at else br_lastSeenAt b),
       br_updatedAt := (if applies at b then at else br_updatedAt b)\<rparr>"

record status_result =
  sr_updated :: bool
  sr_statusChanged :: bool
  sr_name :: string
  sr_nickname :: "string option"

definition recordStatusChange ::
  "(string \<Rightarrow> string option) \<Rightarrow> string \<Rightarrow> string \<Rightarrow> bridge_status \<Rightarrow> millis \<Rightarrow> bridge list
   \<Rightarrow> status_result option \<times> bridge list" where
  \<comment> \<open>\<open>None\<close> is \<open>found: false\<close>\<close>
  "recordStatusChange oid bridgeId userId st at c =
     (case oid userId of
        None \<Rightarrow> (None, c)
      | Some u \<Rightarrow>
          (case findOneAndUpdate (\<lambda>b. br_bridgeId b = bridgeId \<and> owned_live u b) (status_update st at) c of
             (None, c') \<Rightarrow> (None, c')
           | (Some (before, _), c') \<Rightarrow>
               let applied = applies at before in
               (Some \<lparr>sr_updated = applied, sr_statusChanged = applied \<and> br_status before \<noteq> st,
                      sr_name = br_name before, sr_nickname = br_nickname before\<rparr>, c')))"

definition nickname_update :: "millis \<Rightarrow> string option \<Rightarrow> bridge \<Rightarrow> bridge" where
  "nickname_update now nick b =
     b\<lparr>br_nickname := (case nick of None \<Rightarrow> None | Some s \<Rightarrow> if s = [] then None else Some s), br_updatedAt := now\<rparr>"

definition setNicknameForUser ::
  "(string \<Rightarrow> string option) \<Rightarrow> millis \<Rightarrow> string \<Rightarrow> string \<Rightarrow> string option \<Rightarrow> bridge list
   \<Rightarrow> bridge option \<times> bridge list" where
  "setNicknameForUser oid now bridgeId userId nick c =
     (case oid userId of
        None \<Rightarrow> (None, c)
      | Some u \<Rightarrow> apfst (map_option snd)
          (findOneAndUpdate (\<lambda>b. br_bridgeId b = bridgeId \<and> owned_live u b) (nickname_update now nick) c))"

definition revoke_update :: "millis \<Rightarrow> bridge \<Rightarrow> bridge" where
  "revoke_update at b = b\<lparr>br_status := Inactive, br_revokedAt := Some at, br_updatedAt := at\<rparr>"

definition revoke ::
  "(string \<Rightarrow> string option) \<Rightarrow> string \<Rightarrow> string \<Rightarrow> millis \<Rightarrow> bridge list \<Rightarrow> bool \<times> bridge list" where
  "revoke oid bridgeId userId at c =
     (case oid userId of
        None \<Rightarrow> (False, c)
      | Some u \<Rightarrow>
          (case findOneAndUpdate (\<lambda>b. br_bridgeId b = bridgeId \<and> owned_live u b) (revoke_update at) c of
             (m, c') \<Rightarrow> (m \<noteq> None, c')))"

definition revokeAllForUser ::
  "(string \<Rightarrow> string option) \<Rightarrow> (bridge list \<Rightarrow> bridge list) \<Rightarrow> string \<Rightarrow> millis \<Rightarrow> bridge list
   \<Rightarrow> bridge list \<times> bridge list" where
  \<comment> \<open>\<open>env\<close> runs between the update and the snapshot by the revocation instant\<close>
  "revokeAllForUser oid env userId at c =
     (case oid userId of
        None \<Rightarrow> ([], c)
      | Some u \<Rightarrow>
          let c' = env (updateMany (owned_live u) (revoke_update at) c)
          in (filter (\<lambda>b. br_userId b = u \<and> br_revokedAt b = Some at) c', c'))"

section \<open>How a bridge moves\<close>

definition bridge_move :: "bridge \<Rightarrow> bridge \<Rightarrow> bool" where
  "bridge_move b b' \<longleftrightarrow>
     br_bridgeId b' = br_bridgeId b \<and> br_userId b' = br_userId b \<and> br_addedAt b' = br_addedAt b \<and>
     (br_revokedAt b \<noteq> None \<longrightarrow> br_revokedAt b' = br_revokedAt b \<and> br_status b' = br_status b \<and>
        br_lastSeenAt b' = br_lastSeenAt b \<and> br_nickname b' = br_nickname b) \<and>
     (br_firstSessionAt b \<noteq> None \<longrightarrow> br_firstSessionAt b' = br_firstSessionAt b) \<and>
     (\<forall>t. br_lastSeenAt b = Some t \<longrightarrow> (\<exists>t'. br_lastSeenAt b' = Some t' \<and> t \<le> t'))"

inductive bridge_step :: "(string \<Rightarrow> string option) \<Rightarrow> bridge list \<Rightarrow> bridge list \<Rightarrow> bool"
  for oid where
  register: "register oid now newId userId i c = Inr (b, c') \<Longrightarrow> bridge_step oid c c'"
| update: "distinct (map br_bridgeId c) \<Longrightarrow> bridge_step oid c (snd (updateRegistration oid now p userId i c))"
| first_session: "bridge_step oid c (recordFirstSession oid bridgeId userId at c)"
| status: "bridge_step oid c (snd (recordStatusChange oid bridgeId userId st at c))"
| nickname: "bridge_step oid c (snd (setNicknameForUser oid now bridgeId userId nick c))"
| revoke: "bridge_step oid c (snd (revoke oid bridgeId userId at c))"
| revoke_all: "bridge_step oid c (snd (revokeAllForUser oid id userId at c))"

lemma bridge_move_refl [simp]: "bridge_move b b"
  by (auto simp: bridge_move_def)

lemma status_move: "owned_live u b \<Longrightarrow> bridge_move b (status_update st at b)"
  by (auto simp: bridge_move_def status_update_def applies_def owned_live_def split: option.splits)

lemma nickname_move: "owned_live u b \<Longrightarrow> bridge_move b (nickname_update now nick b)"
  by (auto simp: bridge_move_def nickname_update_def owned_live_def)

lemma revoke_move: "owned_live u b \<Longrightarrow> bridge_move b (revoke_update at b)"
  by (auto simp: bridge_move_def revoke_update_def owned_live_def)

lemma registration_move: "owned_live u b \<Longrightarrow> bridge_move b (registration_update now i b)"
  by (auto simp: bridge_move_def registration_update_def owned_live_def)

lemma most_recent_mem: "most_recent bs = Some b \<Longrightarrow> b \<in> set bs"
  by (induction bs) (auto split: option.splits if_splits)

lemma most_recent_None [simp]: "most_recent bs = None \<longleftrightarrow> bs = []"
  by (cases bs) (auto split: option.splits)

lemma evolves_by_updateFirst_at:
  "(\<And>d. r d d) \<Longrightarrow> (\<And>d. d \<in> set c \<Longrightarrow> p d \<Longrightarrow> r d (f d)) \<Longrightarrow> evolves_by r c (updateFirst p f c)"
  by (induction c) (simp_all add: evolves_by_refl)

lemma updateRegistration_evolves:
  assumes "distinct (map br_bridgeId c)"
  shows "evolves_by bridge_move c (snd (updateRegistration oid now p userId i c))"
proof (cases "oid userId")
  case None
  then show ?thesis by (simp add: updateRegistration_def evolves_by_refl)
next
  case (Some u)
  show ?thesis
  proof (cases "most_recent (filter (\<lambda>b. p b \<and> owned_live u b) c)")
    case None
    then show ?thesis using Some by (simp add: updateRegistration_def evolves_by_refl)
  next
    case b: (Some b)
    then have mem: "b \<in> set c" "owned_live u b" using most_recent_mem [OF b] by auto
    have "evolves_by bridge_move c (updateFirst (\<lambda>x. br_bridgeId x = br_bridgeId b) (registration_update now i) c)"
    proof (rule evolves_by_updateFirst_at)
      fix d assume "d \<in> set c" "br_bridgeId d = br_bridgeId b"
      then have "d = b" using mem assms by (metis findOne_unique option.inject)
      with mem show "bridge_move d (registration_update now i d)" by (blast intro: registration_move)
    qed simp
    with Some b show ?thesis by (simp add: updateRegistration_def)
  qed
qed

lemma bridge_step_evolves: "bridge_step oid c c' \<Longrightarrow> evolves_by bridge_move c c'"
proof (induction rule: bridge_step.induct)
  case (register now newId userId i c b c')
  then obtain x where x: "insertOne br_bridgeId x c = Some c'"
    by (auto simp: register_def Let_def split: option.splits)
  show ?case by (rule evolves_by_insertOne [OF _ x]) simp
next
  case (update c now p userId i)
  then show ?case by (rule updateRegistration_evolves)
next
  case (first_session c bridgeId userId at)
  then show ?case
    by (auto simp: recordFirstSession_def bridge_move_def intro!: evolves_by_updateFirst evolves_by_refl
        split: option.split)
next
  case (status c bridgeId userId st at)
  show ?case
  proof (cases "oid userId")
    case (Some u)
    have "snd (recordStatusChange oid bridgeId userId st at c) =
        updateFirst (\<lambda>b. br_bridgeId b = bridgeId \<and> owned_live u b) (status_update st at) c"
      using Some by (auto simp: recordStatusChange_def Let_def findOneAndUpdate_def updateFirst_none split: option.split)
    then show ?thesis by (auto intro!: evolves_by_updateFirst status_move)
  qed (simp add: recordStatusChange_def evolves_by_refl)
next
  case (nickname c now bridgeId userId nick)
  show ?case
    by (cases "oid userId")
      (auto simp: setNicknameForUser_def snd_findOneAndUpdate evolves_by_refl intro!: evolves_by_updateFirst nickname_move)
next
  case (revoke c bridgeId userId at)
  show ?case
    by (cases "oid userId")
      (auto simp: revoke_def snd_findOneAndUpdate evolves_by_refl split_def intro!: evolves_by_updateFirst revoke_move)
next
  case (revoke_all c userId at)
  show ?case
    by (cases "oid userId")
      (auto simp: revokeAllForUser_def Let_def evolves_by_refl intro!: evolves_by_updateMany revoke_move)
qed

definition bridge_of :: "string \<Rightarrow> bridge list \<Rightarrow> bridge option" where
  "bridge_of k c = findOne (\<lambda>b. br_bridgeId b = k) c"

lemma bridge_step_follow:
  assumes "bridge_step oid c c'" and "bridge_of k c = Some b"
  shows "\<exists>b'. bridge_of k c' = Some b' \<and> bridge_move b b'"
  using evolves_by_find [OF bridge_step_evolves [OF assms(1)] assms(2) [unfolded bridge_of_def]]
  by (simp add: bridge_of_def bridge_move_def)

definition revoked_since :: "string \<Rightarrow> bridge list \<Rightarrow> millis option" where
  "revoked_since k c = Option.bind (bridge_of k c) br_revokedAt"

definition first_session :: "string \<Rightarrow> bridge list \<Rightarrow> millis option" where
  "first_session k c = Option.bind (bridge_of k c) br_firstSessionAt"

definition last_seen :: "string \<Rightarrow> bridge list \<Rightarrow> millis option" where
  "last_seen k c = Option.bind (bridge_of k c) br_lastSeenAt"

interpretation revoked: write_once "bridge_step oid" revoked_since
proof unfold_locales
  fix c c' k v
  assume s: "bridge_step oid c c'" and v: "revoked_since k c = Some v"
  then obtain b where b: "bridge_of k c = Some b" "br_revokedAt b = Some v"
    by (auto simp: revoked_since_def bind_eq_Some_conv)
  from bridge_step_follow [OF s b(1)] b(2) show "revoked_since k c' = Some v"
    by (auto simp: revoked_since_def bridge_move_def)
qed

interpretation first_use: write_once "bridge_step oid" first_session
proof unfold_locales
  fix c c' k v
  assume s: "bridge_step oid c c'" and v: "first_session k c = Some v"
  then obtain b where b: "bridge_of k c = Some b" "br_firstSessionAt b = Some v"
    by (auto simp: first_session_def bind_eq_Some_conv)
  from bridge_step_follow [OF s b(1)] b(2) show "first_session k c' = Some v"
    by (auto simp: first_session_def bridge_move_def)
qed

interpretation seen: growing "bridge_step oid" "(\<le>)" last_seen
proof unfold_locales
  fix c c' k and v :: millis
  assume s: "bridge_step oid c c'" and v: "last_seen k c = Some v"
  then obtain b where b: "bridge_of k c = Some b" "br_lastSeenAt b = Some v"
    by (auto simp: last_seen_def bind_eq_Some_conv)
  from bridge_step_follow [OF s b(1)] b(2) show "\<exists>w. last_seen k c' = Some w \<and> v \<le> w"
    by (auto simp: last_seen_def bridge_move_def)
qed auto

end
