(* ===== verification/BridgeTracker.thy ===== *)
theory BridgeTracker
  imports Bridges Devices
begin

text \<open>
  The debounced online and offline pushes of a bridge,
  \<open>src/services/bridge-state-tracker.ts\<close>.  The code shares mutable objects (an
  entry is held by its timers and sends after the map has dropped it, a set of
  excluded devices is handed to the push while it still grows), so entries and
  sets live in a store and are named by addresses.  A timer is armed until it is
  cleared or fires; a send is in flight between the timer and the end of
  \<open>sendToUser\<close>.  \<open>pushes\<close> logs what was handed to the notification service.
\<close>

section \<open>State\<close>

datatype policy = NormalPolicy | SuppressPolicy | ConservativePolicy

record pending_notification =
  pd_id :: nat
  pd_status :: bridge_status
  pd_bridgeName :: string
  pd_connectionId :: "string option"
  pd_policy :: policy
  pd_excluded :: nat

record bridge_state_entry =
  en_pending :: "pending_notification option"
  en_early :: "(string \<times> string set) option"
  en_lastNotified :: bridge_status
  en_generation :: nat

record alarm =
  al_entry :: nat
  al_pending :: pending_notification
  al_userId :: string
  al_bridgeId :: string
  al_delay :: millis

record tracker =
  tr_state :: "(string \<times> nat) list"
  tr_entries :: "nat \<rightharpoonup> bridge_state_entry"
  tr_sets :: "nat \<Rightarrow> string set"
  tr_next :: nat
  tr_timers :: "alarm list"
  tr_inFlight :: "alarm list"
  tr_accepting :: bool
  tr_pushes :: "alarm list"

definition DEFAULT_BRIDGE_NOTIFICATION_DEBOUNCE_MS :: millis where
  "DEFAULT_BRIDGE_NOTIFICATION_DEBOUNCE_MS = 120000"

definition DEFAULT_NORMAL_WAKE_ONLINE_DELAY_MS :: millis where
  "DEFAULT_NORMAL_WAKE_ONLINE_DELAY_MS = 5000"

definition empty_tracker :: tracker where
  "empty_tracker = \<lparr>tr_state = [], tr_entries = Map.empty, tr_sets = (\<lambda>_. {}), tr_next = 0,
     tr_timers = [], tr_inFlight = [], tr_accepting = True, tr_pushes = []\<rparr>"

definition instanceKey :: "string \<Rightarrow> string \<Rightarrow> string" where
  "instanceKey userId bridgeId = userId @ ''::'' @ bridgeId"

definition new_entry :: bridge_state_entry where
  "new_entry = \<lparr>en_pending = None, en_early = None, en_lastNotified = Active, en_generation = 0\<rparr>"

definition entry_at :: "nat \<Rightarrow> tracker \<Rightarrow> bridge_state_entry" where
  "entry_at a s = (case tr_entries s a of None \<Rightarrow> new_entry | Some e \<Rightarrow> e)"

definition set_entry :: "nat \<Rightarrow> bridge_state_entry \<Rightarrow> tracker \<Rightarrow> tracker" where
  "set_entry a e s = s\<lparr>tr_entries := (tr_entries s)(a \<mapsto> e)\<rparr>"

definition getOrCreateEntry :: "string \<Rightarrow> tracker \<Rightarrow> nat \<times> tracker" where
  "getOrCreateEntry key s =
     (case map_of (tr_state s) key of
        Some a \<Rightarrow> (a, s)
      | None \<Rightarrow> let a = tr_next s in
          (a, set_entry a new_entry (s\<lparr>tr_next := a + 1, tr_state := tr_state s @ [(key, a)]\<rparr>)))"

section \<open>Operations\<close>

definition cancelPending :: "nat \<Rightarrow> tracker \<Rightarrow> tracker" where
  "cancelPending a s =
     (case en_pending (entry_at a s) of
        None \<Rightarrow> s
      | Some p \<Rightarrow>
          set_entry a ((entry_at a s)\<lparr>en_pending := None, en_generation := en_generation (entry_at a s) + 1\<rparr>)
            (s\<lparr>tr_timers := filter (\<lambda>t. pd_id (al_pending t) \<noteq> pd_id p) (tr_timers s)\<rparr>))"

definition schedule ::
  "nat \<Rightarrow> string \<Rightarrow> string \<Rightarrow> string \<Rightarrow> bridge_status \<Rightarrow> string option \<Rightarrow> policy \<Rightarrow> millis \<Rightarrow> tracker \<Rightarrow> tracker" where
  "schedule a userId bridgeId bridgeName st conn pol delay s =
     (let previous = en_pending (entry_at a s);
          s1 = cancelPending a s;
          e = entry_at a s1;
          i = tr_next s1;
          reuse = (case previous of None \<Rightarrow> None
                   | Some p \<Rightarrow> if st = Active \<and> pd_status p = Active \<and> pd_connectionId p = conn
                               then Some (pd_excluded p) else None);
          set_addr = (case reuse of Some x \<Rightarrow> x | None \<Rightarrow> i);
          base = (case reuse of Some x \<Rightarrow> tr_sets s1 x | None \<Rightarrow> {});
          early = (case en_early e of None \<Rightarrow> None
                   | Some (k, ds) \<Rightarrow> if st = Active \<and> Some k = conn then Some ds else None);
          p = \<lparr>pd_id = i, pd_status = st, pd_bridgeName = bridgeName, pd_connectionId = conn,
               pd_policy = pol, pd_excluded = set_addr\<rparr>;
          e' = e\<lparr>en_generation := en_generation e + 1, en_pending := Some p,
                 en_early := (case early of None \<Rightarrow> en_early e | Some _ \<Rightarrow> None)\<rparr>
      in set_entry a e' (s1\<lparr>tr_next := i + 1,
           tr_sets := (tr_sets s1)(set_addr := base \<union> (case early of None \<Rightarrow> {} | Some ds \<Rightarrow> ds)),
           tr_timers := tr_timers s1 @
             [\<lparr>al_entry = a, al_pending = p, al_userId = userId, al_bridgeId = bridgeId, al_delay = delay\<rparr>]\<rparr>))"

definition status_delay :: "bridge_status \<Rightarrow> policy \<Rightarrow> millis \<Rightarrow> millis \<Rightarrow> millis" where
  "status_delay st pol conservative normal =
     (if st = Active \<and> pol = NormalPolicy then normal else conservative)"

definition handleStatusChangeForBridge ::
  "millis \<Rightarrow> millis \<Rightarrow> string \<Rightarrow> string \<Rightarrow> bridge_status \<Rightarrow> policy \<Rightarrow> string option \<Rightarrow> string \<Rightarrow> tracker \<Rightarrow> tracker" where
  "handleStatusChangeForBridge conservative normal userId bridgeId st pol conn bridgeName s =
     (if \<not> tr_accepting s then s
      else let (a, s1) = getOrCreateEntry (instanceKey userId bridgeId) s in
        if pol = SuppressPolicy then
          (case en_pending (entry_at a s1) of
             Some p \<Rightarrow> if pd_status p = Active then cancelPending a s1 else s1
           | None \<Rightarrow> s1)
        else
          let s2 = (case en_pending (entry_at a s1) of
                      Some p \<Rightarrow> if pd_status p \<noteq> st then cancelPending a s1 else s1
                    | None \<Rightarrow> s1);
              e = entry_at a s2
          in if en_lastNotified e = st \<and> en_pending e = None then s2
             else if (case en_pending e of None \<Rightarrow> False
                      | Some p \<Rightarrow> pd_status p = st \<and> pd_connectionId p = conn \<and>
                          (pd_policy p = NormalPolicy \<or> pol \<noteq> NormalPolicy)) then s2
             else schedule a userId bridgeId bridgeName st conn pol (status_delay st pol conservative normal) s2)"

definition markConnectionObserved :: "string \<Rightarrow> string \<Rightarrow> string \<Rightarrow> string \<Rightarrow> tracker \<Rightarrow> tracker" where
  "markConnectionObserved userId bridgeId conn deviceId s =
     (if \<not> tr_accepting s then s
      else let (a, s1) = getOrCreateEntry (instanceKey userId bridgeId) s; e = entry_at a s1 in
        case en_pending e of
          Some p \<Rightarrow>
            if pd_status p = Active \<and> pd_connectionId p = Some conn
            then s1\<lparr>tr_sets := (tr_sets s1)(pd_excluded p := insert deviceId (tr_sets s1 (pd_excluded p)))\<rparr>
            else set_entry a (e\<lparr>en_early := Some (conn, insert deviceId
                   (case en_early e of None \<Rightarrow> {} | Some (k, ds) \<Rightarrow> if k = conn then ds else {}))\<rparr>) s1
        | None \<Rightarrow>
            set_entry a (e\<lparr>en_early := Some (conn, insert deviceId
                   (case en_early e of None \<Rightarrow> {} | Some (k, ds) \<Rightarrow> if k = conn then ds else {}))\<rparr>) s1)"

definition cancelPendingForBridge :: "string \<Rightarrow> string \<Rightarrow> tracker \<Rightarrow> tracker" where
  "cancelPendingForBridge userId bridgeId s =
     (if \<not> tr_accepting s then s
      else case map_of (tr_state s) (instanceKey userId bridgeId) of
             None \<Rightarrow> s
           | Some a \<Rightarrow>
               (let s1 = cancelPending a s in
                s1\<lparr>tr_state := filter (\<lambda>(k, _). k \<noteq> instanceKey userId bridgeId) (tr_state s1)\<rparr>))"

definition fireTimer :: "alarm \<Rightarrow> tracker \<Rightarrow> tracker" where
  \<comment> \<open>the timer callback and the part of \<open>#send\<close> before its await\<close>
  "fireTimer t s =
     (let s1 = s\<lparr>tr_timers := filter (\<lambda>x. pd_id (al_pending x) \<noteq> pd_id (al_pending t)) (tr_timers s)\<rparr>;
          e = entry_at (al_entry t) s1
      in if map_option pd_id (en_pending e) \<noteq> Some (pd_id (al_pending t)) then s1
         else set_entry (al_entry t) (e\<lparr>en_lastNotified := pd_status (al_pending t)\<rparr>)
                (s1\<lparr>tr_inFlight := tr_inFlight s1 @ [t], tr_pushes := tr_pushes s1 @ [t]\<rparr>))"

definition sendSettled :: "alarm \<Rightarrow> tracker \<Rightarrow> tracker" where
  \<comment> \<open>the \<open>finally\<close> of \<open>#send\<close>, and the removal from the in-flight set\<close>
  "sendSettled t s =
     (let e = entry_at (al_entry t) s;
          s1 = s\<lparr>tr_inFlight := filter (\<lambda>x. pd_id (al_pending x) \<noteq> pd_id (al_pending t)) (tr_inFlight s)\<rparr>
      in if map_option pd_id (en_pending e) = Some (pd_id (al_pending t))
         then set_entry (al_entry t) (e\<lparr>en_pending := None\<rparr>) s1 else s1)"

definition disposeTracker :: "tracker \<Rightarrow> tracker" where
  \<comment> \<open>what \<open>dispose\<close> does before it waits for the sends in flight\<close>
  "disposeTracker s =
     (if \<not> tr_accepting s then s
      else (fold cancelPending (map snd (tr_state s)) (s\<lparr>tr_accepting := False\<rparr>))\<lparr>tr_state := []\<rparr>)"

definition disposeOutcome :: "bool \<Rightarrow> tracker \<Rightarrow> bool" where
  \<comment> \<open>whether the wait ends without \<open>BridgeStateTrackerDrainTimeout\<close>; \<open>timed_out\<close> is the
     15-second timer and \<open>s\<close> the tracker when the wait ends\<close>
  "disposeOutcome timed_out s = (\<not> timed_out \<and> tr_inFlight s = [])"

definition buildPayload :: "string \<Rightarrow> pending_notification \<Rightarrow> string set \<Rightarrow> notification_payload" where
  \<comment> \<open>the third argument is the excluded set when the push service reads it\<close>
  "buildPayload bridgeId p ex =
     \<lparr>np_category = ConnectionStatus,
      np_title = pd_bridgeName p @ (if pd_status p = Active then '' is online'' else '' went offline''),
      np_body = (if pd_status p = Active then ''Your computer has reconnected.''
                 else ''AI sessions there are paused.''),
      np_collapseKey = Some ''connection_status'', np_data = None,
      np_excludedDeviceIds = ex, np_trayKey = ''connection_status:'' @ bridgeId\<rparr>"

section \<open>Runs\<close>

inductive tracker_step :: "tracker \<Rightarrow> tracker \<Rightarrow> bool" where
  report: "tracker_step s (handleStatusChangeForBridge conservative normal userId bridgeId st pol conn name s)"
| observed: "tracker_step s (markConnectionObserved userId bridgeId conn deviceId s)"
| cancel: "tracker_step s (cancelPendingForBridge userId bridgeId s)"
| fire: "t \<in> set (tr_timers s) \<Longrightarrow> tracker_step s (fireTimer t s)"
| settled: "t \<in> set (tr_inFlight s) \<Longrightarrow> tracker_step s (sendSettled t s)"
| disposeTracker: "tracker_step s (disposeTracker s)"

inductive tracker_reachable :: "tracker \<Rightarrow> bool" where
  start: "tracker_reachable empty_tracker"
| step: "tracker_reachable s \<Longrightarrow> tracker_step s t \<Longrightarrow> tracker_reachable t"

end
