(* ===== verification/BridgeTrackerProps.thy ===== *)
theory BridgeTrackerProps
  imports BridgeTracker
begin

text \<open>
  What the bridge state tracker promises about pushes: timers belong to the
  current pending push of their bridge, an online push answers an offline push,
  pushes alternate, cancelled bridges are silent, and the device behind a
  connection is left out of its online push.
\<close>

section \<open>Effects\<close>

lemma entry_at_set [simp]: "entry_at a (set_entry b e s) = (if a = b then e else entry_at a s)"
  by (simp add: entry_at_def set_entry_def)

lemma entry_at_frame [simp]:
  "entry_at a (s\<lparr>tr_state := x\<rparr>) = entry_at a s"
  "entry_at a (s\<lparr>tr_sets := y\<rparr>) = entry_at a s"
  "entry_at a (s\<lparr>tr_next := n\<rparr>) = entry_at a s"
  "entry_at a (s\<lparr>tr_timers := ts\<rparr>) = entry_at a s"
  "entry_at a (s\<lparr>tr_inFlight := ts\<rparr>) = entry_at a s"
  "entry_at a (s\<lparr>tr_accepting := b\<rparr>) = entry_at a s"
  "entry_at a (s\<lparr>tr_pushes := ts\<rparr>) = entry_at a s"
  by (simp_all add: entry_at_def)

lemma set_entry_frame [simp]:
  "tr_state (set_entry a e s) = tr_state s"
  "tr_sets (set_entry a e s) = tr_sets s"
  "tr_next (set_entry a e s) = tr_next s"
  "tr_timers (set_entry a e s) = tr_timers s"
  "tr_inFlight (set_entry a e s) = tr_inFlight s"
  "tr_accepting (set_entry a e s) = tr_accepting s"
  "tr_pushes (set_entry a e s) = tr_pushes s"
  "tr_entries (set_entry a e s) = (tr_entries s)(a \<mapsto> e)"
  by (simp_all add: set_entry_def)

lemma cancelPending_frame [simp]:
  "tr_state (cancelPending a s) = tr_state s"
  "tr_sets (cancelPending a s) = tr_sets s"
  "tr_next (cancelPending a s) = tr_next s"
  "tr_inFlight (cancelPending a s) = tr_inFlight s"
  "tr_accepting (cancelPending a s) = tr_accepting s"
  "tr_pushes (cancelPending a s) = tr_pushes s"
  by (simp_all add: cancelPending_def split: option.split)

lemma cancelPending_entry:
  "en_pending (entry_at b (cancelPending a s)) = (if b = a then None else en_pending (entry_at b s))"
  "en_lastNotified (entry_at b (cancelPending a s)) = en_lastNotified (entry_at b s)"
  "en_early (entry_at b (cancelPending a s)) = en_early (entry_at b s)"
  by (auto simp: cancelPending_def split: option.split)

lemma cancelPending_timers:
  "tr_timers (cancelPending a s) = (case en_pending (entry_at a s) of None \<Rightarrow> tr_timers s
     | Some p \<Rightarrow> filter (\<lambda>t. pd_id (al_pending t) \<noteq> pd_id p) (tr_timers s))"
  by (simp add: cancelPending_def split: option.split)

lemma cancelPending_heap: "a < n \<Longrightarrow> \<forall>b \<ge> n. tr_entries s b = None \<Longrightarrow> \<forall>b \<ge> n. tr_entries (cancelPending a s) b = None"
  by (auto simp: cancelPending_def split: option.split)

section \<open>An online push answers an offline push\<close>

definition statuses :: "nat \<Rightarrow> tracker \<Rightarrow> bridge_status list" where
  "statuses a s = map (\<lambda>t. pd_status (al_pending t)) (filter (\<lambda>t. al_entry t = a) (tr_pushes s))"

lemma statuses_frame [simp]:
  "statuses a (set_entry b e s) = statuses a s"
  "statuses a (cancelPending b s) = statuses a s"
  "statuses a (s\<lparr>tr_state := x\<rparr>) = statuses a s"
  "statuses a (s\<lparr>tr_sets := y\<rparr>) = statuses a s"
  "statuses a (s\<lparr>tr_next := n\<rparr>) = statuses a s"
  "statuses a (s\<lparr>tr_timers := ts\<rparr>) = statuses a s"
  "statuses a (s\<lparr>tr_inFlight := ts\<rparr>) = statuses a s"
  "statuses a (s\<lparr>tr_accepting := b'\<rparr>) = statuses a s"
  by (simp_all add: statuses_def)

definition pending_active :: "bridge_state_entry \<Rightarrow> bool" where
  "pending_active e \<longleftrightarrow> (case en_pending e of None \<Rightarrow> False | Some p \<Rightarrow> pd_status p = Active)"

definition owed :: "bridge_state_entry \<Rightarrow> bool" where
  \<comment> \<open>the entry has announced, or is about to answer, an offline push\<close>
  "owed e \<longleftrightarrow> en_lastNotified e = Inactive \<or> pending_active e"

definition timers_current :: "tracker \<Rightarrow> bool" where
  "timers_current s \<longleftrightarrow>
     (\<forall>a \<ge> tr_next s. tr_entries s a = None) \<and>
     (\<forall>(k, a) \<in> set (tr_state s). a < tr_next s) \<and>
     (\<forall>a p. en_pending (entry_at a s) = Some p \<longrightarrow> pd_id p < tr_next s) \<and>
     (\<forall>t \<in> set (tr_timers s). en_pending (entry_at (al_entry t) s) = Some (al_pending t) \<and>
        map_of (tr_state s) (instanceKey (al_userId t) (al_bridgeId t)) = Some (al_entry t)) \<and>
     (\<forall>a b p q. en_pending (entry_at a s) = Some p \<longrightarrow> en_pending (entry_at b s) = Some q \<longrightarrow>
        pd_id p = pd_id q \<longrightarrow> a = b) \<and>
     (\<forall>u \<in> set (tr_inFlight s). pd_id (al_pending u) < tr_next s \<and>
        (\<forall>t \<in> set (tr_timers s). pd_id (al_pending t) \<noteq> pd_id (al_pending u)))"

lemma getOrCreate_cases:
  assumes "getOrCreateEntry k s = (a, s1)"
  obtains (old) "map_of (tr_state s) k = Some a" "s1 = s"
  | (new) "map_of (tr_state s) k = None" "a = tr_next s"
      "s1 = set_entry a new_entry (s\<lparr>tr_next := a + 1, tr_state := tr_state s @ [(k, a)]\<rparr>)"
  using assms by (auto simp: getOrCreateEntry_def Let_def split: option.splits)

lemma entry_fresh: "timers_current s \<Longrightarrow> tr_next s \<le> a \<Longrightarrow> entry_at a s = new_entry"
  by (simp add: timers_current_def entry_at_def)

lemma getOrCreate_current:
  assumes "getOrCreateEntry k s = (a, s1)" and "timers_current s"
  shows "timers_current s1 \<and> map_of (tr_state s1) k = Some a \<and> a < tr_next s1 \<and>
     (\<forall>b. entry_at b s1 = entry_at b s) \<and> tr_pushes s1 = tr_pushes s \<and> tr_timers s1 = tr_timers s"
  using assms(1)
proof (cases rule: getOrCreate_cases)
  case old
  then have "(k, a) \<in> set (tr_state s)" by (simp add: map_of_SomeD)
  with old assms(2) show ?thesis by (auto simp: timers_current_def)
next
  case new
  have same: "entry_at b s1 = entry_at b s" for b
    using new entry_fresh [OF assms(2)] by simp
  have keys: "map_of (tr_state s1) x = Some v" if "map_of (tr_state s) x = Some v" for x v
    using that new by (auto simp: map_add_def split: option.split)
  have "timers_current s1"
    unfolding timers_current_def same
    using assms(2) new keys unfolding timers_current_def by (auto simp: less_Suc_eq) 
  with same new show ?thesis by (simp add: map_add_def)
qed

lemma cancel_current:
  assumes "timers_current s"
  shows "timers_current (cancelPending a s)" and "\<forall>t \<in> set (tr_timers (cancelPending a s)). al_entry t \<noteq> a"
proof -
  have gone: "\<forall>t \<in> set (tr_timers (cancelPending a s)). t \<in> set (tr_timers s) \<and> al_entry t \<noteq> a"
    using assms by (auto simp: cancelPending_timers timers_current_def split: option.splits)
  then show "\<forall>t \<in> set (tr_timers (cancelPending a s)). al_entry t \<noteq> a" by blast
  have heap: "\<forall>b \<ge> tr_next s. tr_entries (cancelPending a s) b = None"
  proof (cases "en_pending (entry_at a s)")
    case None
    then show ?thesis using assms by (simp add: cancelPending_def timers_current_def)
  next
    case (Some p)
    then have "tr_entries s a \<noteq> None" by (auto simp: entry_at_def new_entry_def split: option.splits)
    then have "a < tr_next s" using assms unfolding timers_current_def by (meson not_le)
    then show ?thesis using assms by (auto simp: cancelPending_def timers_current_def split: option.split)
  qed
  show "timers_current (cancelPending a s)"
    using assms heap gone unfolding timers_current_def
    by (auto simp: cancelPending_entry split: if_splits)
qed

lemma schedule_effect:
  assumes "timers_current s" and "a < tr_next s"
    and "map_of (tr_state s) (instanceKey userId bridgeId) = Some a"
  shows "timers_current (schedule a userId bridgeId name st conn pol delay s)"
    and "\<exists>p. en_pending (entry_at a (schedule a userId bridgeId name st conn pol delay s)) = Some p \<and> pd_status p = st \<and>
       pd_connectionId p = conn"
    and "en_lastNotified (entry_at b (schedule a userId bridgeId name st conn pol delay s)) = en_lastNotified (entry_at b s)"
    and "b \<noteq> a \<Longrightarrow> entry_at b (schedule a userId bridgeId name st conn pol delay s) = entry_at b s"
    and "tr_pushes (schedule a userId bridgeId name st conn pol delay s) = tr_pushes s"
    and "tr_state (schedule a userId bridgeId name st conn pol delay s) = tr_state s"
    and "tr_accepting (schedule a userId bridgeId name st conn pol delay s) = tr_accepting s"
proof -
  let ?s1 = "cancelPending a s" and ?s' = "schedule a userId bridgeId name st conn pol delay s"
  obtain p e' where p: "pd_id p = tr_next s" "pd_status p = st" "pd_connectionId p = conn"
    and e': "en_pending e' = Some p" "en_lastNotified e' = en_lastNotified (entry_at a s)"
    and ent: "\<And>b. entry_at b ?s' = (if b = a then e' else entry_at b ?s1)"
    and heap: "tr_entries ?s' = (tr_entries ?s1)(a \<mapsto> e')"
    and nxt: "tr_next ?s' = Suc (tr_next s)"
    and tim: "tr_timers ?s' = tr_timers ?s1 @
       [\<lparr>al_entry = a, al_pending = p, al_userId = userId, al_bridgeId = bridgeId, al_delay = delay\<rparr>]"
    by (rule that [OF _ _ _ _ _ _ _ _])
      (simp_all add: schedule_def Let_def cancelPending_entry)
  note c1 = cancel_current [OF assms(1), of a]
  have other: "entry_at b ?s1 = entry_at b s" if "b \<noteq> a" for b
    using that by (simp add: cancelPending_def split: option.split)
  have st: "tr_state ?s' = tr_state s" by (simp add: schedule_def Let_def)
  have lt: "pd_id q < tr_next s" if "en_pending (entry_at b ?s1) = Some q" for b q
    using c1(1) that by (simp add: timers_current_def)
  have uniq: "x = y" if "en_pending (entry_at x ?s1) = Some q" "en_pending (entry_at y ?s1) = Some r" "pd_id q = pd_id r" for x y q r
    using c1(1) that unfolding timers_current_def by blast
  have old: "en_pending (entry_at (al_entry t) ?s1) = Some (al_pending t) \<and>
      map_of (tr_state s) (instanceKey (al_userId t) (al_bridgeId t)) = Some (al_entry t) \<and> al_entry t \<noteq> a"
    if "t \<in> set (tr_timers ?s1)" for t
    using c1 that unfolding timers_current_def by auto
  have "\<forall>b \<ge> Suc (tr_next s). tr_entries ?s' b = None"
    using c1(1) assms(2) unfolding heap timers_current_def by auto
  moreover have "\<forall>(k, b) \<in> set (tr_state s). b < Suc (tr_next s)"
    using assms(1) unfolding timers_current_def by (auto simp: less_Suc_eq)
  moreover have "\<forall>b q. en_pending (entry_at b ?s') = Some q \<longrightarrow> pd_id q < Suc (tr_next s)"
    using lt p(1) e'(1) by (auto simp: ent less_Suc_eq)
  moreover have "\<forall>t \<in> set (tr_timers ?s'). en_pending (entry_at (al_entry t) ?s') = Some (al_pending t) \<and>
      map_of (tr_state s) (instanceKey (al_userId t) (al_bridgeId t)) = Some (al_entry t)"
    using old assms(3) e'(1) by (auto simp: tim ent)
  moreover have "\<forall>x y q r. en_pending (entry_at x ?s') = Some q \<longrightarrow> en_pending (entry_at y ?s') = Some r \<longrightarrow>
      pd_id q = pd_id r \<longrightarrow> x = y"
  proof (intro allI impI)
    fix x y q r
    assume q: "en_pending (entry_at x ?s') = Some q" and r: "en_pending (entry_at y ?s') = Some r" and i: "pd_id q = pd_id r"
    have new: "pd_id q' \<noteq> pd_id p" if "en_pending (entry_at z ?s') = Some q'" "z \<noteq> a" for z q'
      using that lt [of z q'] p(1) by (simp add: ent)
    have own: "q' = p" if "en_pending (entry_at a ?s') = Some q'" for q'
      using that e'(1) by (simp add: ent)
    consider "x = a" "y = a" | "x = a" "y \<noteq> a" | "x \<noteq> a" "y = a" | "x \<noteq> a" "y \<noteq> a" by blast
    then show "x = y"
    proof cases
      case 2
      with new [OF r] own q i show ?thesis by simp
    next
      case 3
      with new [OF q] own r i show ?thesis by simp
    next
      case 4
      with q r i uniq show ?thesis by (simp add: ent)
    qed simp
  qed
  moreover have "tr_inFlight ?s' = tr_inFlight s" by (simp add: schedule_def Let_def)
  moreover have "\<forall>u \<in> set (tr_inFlight s). pd_id (al_pending u) < Suc (tr_next s) \<and>
        (\<forall>t \<in> set (tr_timers ?s'). pd_id (al_pending t) \<noteq> pd_id (al_pending u))"
  proof
    fix u assume u: "u \<in> set (tr_inFlight s)"
    then have "pd_id (al_pending u) < tr_next s" "\<forall>t \<in> set (tr_timers ?s1). pd_id (al_pending t) \<noteq> pd_id (al_pending u)"
      using c1(1) unfolding timers_current_def by auto
    then show "pd_id (al_pending u) < Suc (tr_next s) \<and>
        (\<forall>t \<in> set (tr_timers ?s'). pd_id (al_pending t) \<noteq> pd_id (al_pending u))"
      using p(1) by (auto simp: tim)
  qed
  ultimately show "timers_current ?s'"
    unfolding timers_current_def nxt st by auto
  show "\<exists>p. en_pending (entry_at a ?s') = Some p \<and> pd_status p = st \<and> pd_connectionId p = conn"
    using ent e'(1) p by simp
  show "en_lastNotified (entry_at b ?s') = en_lastNotified (entry_at b s)"
    using ent e'(2) cancelPending_entry(2) by simp
  show "entry_at b ?s' = entry_at b s" if "b \<noteq> a" using ent other that by simp
  show "tr_pushes ?s' = tr_pushes s" "tr_state ?s' = tr_state s" "tr_accepting ?s' = tr_accepting s"
    by (simp_all add: schedule_def Let_def)
qed

lemma cancel_other: "b \<noteq> a \<Longrightarrow> entry_at b (cancelPending a s) = entry_at b s"
  by (simp add: cancelPending_def split: option.split)

section \<open>Every step keeps the timers current\<close>

lemma handle_cases:
  assumes "timers_current s" and "tr_accepting s"
  obtains a s1 where "getOrCreateEntry (instanceKey userId bridgeId) s = (a, s1)"
    and "handleStatusChangeForBridge cons norm userId bridgeId st pol conn name s \<in> {s1, cancelPending a s1}"
  | a s1 s2 where "getOrCreateEntry (instanceKey userId bridgeId) s = (a, s1)"
    and "s2 = s1 \<or> s2 = cancelPending a s1 \<and> (\<exists>p. en_pending (entry_at a s1) = Some p \<and> pd_status p \<noteq> st)"
    and "en_lastNotified (entry_at a s2) \<noteq> st \<or> (\<exists>p. en_pending (entry_at a s2) = Some p \<and> pd_status p = st)"
    and "\<And>p. en_pending (entry_at a s2) = Some p \<Longrightarrow> pd_status p = st"
    and "handleStatusChangeForBridge cons norm userId bridgeId st pol conn name s =
       schedule a userId bridgeId name st conn pol (status_delay st pol cons norm) s2"
proof -
  obtain a s1 where g: "getOrCreateEntry (instanceKey userId bridgeId) s = (a, s1)" by fastforce
  let ?r = "handleStatusChangeForBridge cons norm userId bridgeId st pol conn name s"
  define s2 where "s2 = (case en_pending (entry_at a s1) of
                      Some p \<Rightarrow> if pd_status p \<noteq> st then cancelPending a s1 else s1
                    | None \<Rightarrow> s1)"
  have s2: "s2 = s1 \<or> s2 = cancelPending a s1 \<and> (\<exists>p. en_pending (entry_at a s1) = Some p \<and> pd_status p \<noteq> st)"
    by (simp add: s2_def split: option.split)
  have pend: "pd_status p = st" if "en_pending (entry_at a s2) = Some p" for p
    using that by (auto simp: s2_def cancelPending_entry split: option.splits if_splits)
  consider (stop) "?r \<in> {s1, cancelPending a s1}"
    | (go) "?r = schedule a userId bridgeId name st conn pol (status_delay st pol cons norm) s2"
      "\<not> (en_lastNotified (entry_at a s2) = st \<and> en_pending (entry_at a s2) = None)"
  proof -
    define dup where "dup = (case en_pending (entry_at a s2) of None \<Rightarrow> False
        | Some p \<Rightarrow> pd_status p = st \<and> pd_connectionId p = conn \<and> (pd_policy p = NormalPolicy \<or> pol \<noteq> NormalPolicy))"
    have r: "?r = (if pol = SuppressPolicy then
          (case en_pending (entry_at a s1) of
             Some p \<Rightarrow> if pd_status p = Active then cancelPending a s1 else s1 | None \<Rightarrow> s1)
        else if en_lastNotified (entry_at a s2) = st \<and> en_pending (entry_at a s2) = None then s2
        else if dup then s2
        else schedule a userId bridgeId name st conn pol (status_delay st pol cons norm) s2)"
      unfolding handleStatusChangeForBridge_def g dup_def s2_def Let_def using assms(2) by simp
    show thesis
    proof (cases "pol = SuppressPolicy \<or> (en_lastNotified (entry_at a s2) = st \<and> en_pending (entry_at a s2) = None) \<or> dup")
      case out: True
      have "?r \<in> {s1, cancelPending a s1}"
      proof (cases "pol = SuppressPolicy")
        case True
        then show ?thesis unfolding r by (auto split: option.split)
      next
        case False
        with out have "?r = s2" unfolding r by auto
        with s2 show ?thesis by auto
      qed
      then show thesis by (rule stop)
    next
      case False
      then have "?r = schedule a userId bridgeId name st conn pol (status_delay st pol cons norm) s2"
        unfolding r by auto
      with False show thesis by (intro go) auto
    qed
  qed
  then show thesis
  proof cases
    case stop
    then show ?thesis using that(1) g by blast
  next
    case go
    have "en_lastNotified (entry_at a s2) \<noteq> st \<or> (\<exists>p. en_pending (entry_at a s2) = Some p \<and> pd_status p = st)"
      using go(2) pend by (cases "en_pending (entry_at a s2)") auto
    then show ?thesis using that(2) g s2 pend go(1) by blast
  qed
qed

definition push_history :: "tracker \<Rightarrow> bool" where
  "push_history s \<longleftrightarrow> (\<forall>a.
     (owed (entry_at a s) \<longrightarrow> Inactive \<in> set (statuses a s)) \<and>
     (statuses a s = [] \<or> hd (statuses a s) = Inactive))"

lemma owed_cancel: "owed (entry_at b (cancelPending a s)) \<Longrightarrow> owed (entry_at b s)"
  by (auto simp: owed_def pending_active_def cancelPending_entry split: option.splits if_splits)

lemma history_weaken:
  assumes "push_history s" and "\<And>b. owed (entry_at b t) \<Longrightarrow> owed (entry_at b s)" and "tr_pushes t = tr_pushes s"
  shows "push_history t"
  using assms by (simp add: push_history_def statuses_def)

lemma mark_effect:
  assumes "timers_current s"
  shows "timers_current (markConnectionObserved userId bridgeId conn deviceId s)"
    and "en_pending (entry_at b (markConnectionObserved userId bridgeId conn deviceId s)) = en_pending (entry_at b s)"
    and "en_lastNotified (entry_at b (markConnectionObserved userId bridgeId conn deviceId s)) = en_lastNotified (entry_at b s)"
    and "tr_pushes (markConnectionObserved userId bridgeId conn deviceId s) = tr_pushes s"
    and "tr_timers (markConnectionObserved userId bridgeId conn deviceId s) = tr_timers s"
proof -
  let ?r = "markConnectionObserved userId bridgeId conn deviceId s"
  have all: "timers_current ?r \<and> en_pending (entry_at b ?r) = en_pending (entry_at b s) \<and>
     en_lastNotified (entry_at b ?r) = en_lastNotified (entry_at b s) \<and>
     tr_pushes ?r = tr_pushes s \<and> tr_timers ?r = tr_timers s"
  proof (cases "tr_accepting s")
    case True
    obtain a s1 where g: "getOrCreateEntry (instanceKey userId bridgeId) s = (a, s1)" by fastforce
    note c = getOrCreate_current [OF g assms]
    have c1: "timers_current s1" and lt: "a < tr_next s1" using c by blast+
    have sets: "timers_current (s1\<lparr>tr_sets := f\<rparr>)" for f
      using c1 by (simp add: timers_current_def)
    have early: "timers_current (set_entry a ((entry_at a s1)\<lparr>en_early := x\<rparr>) s1)" for x
      using c1 lt unfolding timers_current_def by (auto split: if_splits)
    show ?thesis
      using True c sets early
      by (cases "en_pending (entry_at a s1)") (auto simp: markConnectionObserved_def g Let_def)
  qed (simp add: markConnectionObserved_def assms)
  then show "timers_current ?r" "en_pending (entry_at b ?r) = en_pending (entry_at b s)"
    "en_lastNotified (entry_at b ?r) = en_lastNotified (entry_at b s)"
    "tr_pushes ?r = tr_pushes s" "tr_timers ?r = tr_timers s" by blast+
qed

lemma cancelBridge_effect:
  assumes "timers_current s"
  shows "timers_current (cancelPendingForBridge userId bridgeId s)"
    and "tr_accepting s \<Longrightarrow> \<forall>t \<in> set (tr_timers (cancelPendingForBridge userId bridgeId s)).
       instanceKey (al_userId t) (al_bridgeId t) \<noteq> instanceKey userId bridgeId"
proof -
  let ?k = "instanceKey userId bridgeId" and ?r = "cancelPendingForBridge userId bridgeId s"
  have "timers_current ?r \<and> (tr_accepting s \<longrightarrow>
     (\<forall>t \<in> set (tr_timers ?r). instanceKey (al_userId t) (al_bridgeId t) \<noteq> ?k))"
  proof (cases "map_of (tr_state s) ?k")
    case None
    then show ?thesis using assms by (auto simp: cancelPendingForBridge_def timers_current_def)
  next
    case (Some a)
    note c = cancel_current [OF assms, of a]
    have keep: "instanceKey (al_userId t) (al_bridgeId t) \<noteq> ?k" if "t \<in> set (tr_timers (cancelPending a s))" for t
      using c that Some unfolding timers_current_def by fastforce
    have look: "map_of (filter (\<lambda>(k, _). k \<noteq> ?k) xs) x = map_of xs x" if "x \<noteq> ?k" for x :: string and xs :: "(string \<times> nat) list"
      using that by (induction xs) auto
    have "timers_current ((cancelPending a s)\<lparr>tr_state := filter (\<lambda>(k, _). k \<noteq> ?k) (tr_state s)\<rparr>)"
      using c(1) keep look unfolding timers_current_def by auto
    then show ?thesis using Some assms keep by (simp add: cancelPendingForBridge_def Let_def)
  qed
  then show "timers_current ?r" "tr_accepting s \<Longrightarrow> \<forall>t \<in> set (tr_timers ?r).
       instanceKey (al_userId t) (al_bridgeId t) \<noteq> ?k" by blast+
qed

lemma cancelBridge_entry:
  "owed (entry_at b (cancelPendingForBridge userId bridgeId s)) \<Longrightarrow> owed (entry_at b s)"
  "tr_pushes (cancelPendingForBridge userId bridgeId s) = tr_pushes s"
proof -
  have "entry_at b (cancelPendingForBridge userId bridgeId s) = entry_at b s \<or>
      (\<exists>a. entry_at b (cancelPendingForBridge userId bridgeId s) = entry_at b (cancelPending a s))"
    by (auto simp: cancelPendingForBridge_def Let_def split: option.split)
  then show "owed (entry_at b (cancelPendingForBridge userId bridgeId s)) \<Longrightarrow> owed (entry_at b s)"
    using owed_cancel by metis
  show "tr_pushes (cancelPendingForBridge userId bridgeId s) = tr_pushes s"
    by (simp add: cancelPendingForBridge_def Let_def split: option.split)
qed

lemma fire_effect:
  assumes "timers_current s" and "t \<in> set (tr_timers s)"
  shows "fireTimer t s = set_entry (al_entry t)
      ((entry_at (al_entry t) s)\<lparr>en_lastNotified := pd_status (al_pending t)\<rparr>)
      (s\<lparr>tr_timers := filter (\<lambda>x. pd_id (al_pending x) \<noteq> pd_id (al_pending t)) (tr_timers s),
         tr_inFlight := tr_inFlight s @ [t], tr_pushes := tr_pushes s @ [t]\<rparr>)"
    and "timers_current (fireTimer t s)"
proof -
  have p: "en_pending (entry_at (al_entry t) s) = Some (al_pending t)"
    using assms by (simp add: timers_current_def)
  show e: "fireTimer t s = set_entry (al_entry t)
      ((entry_at (al_entry t) s)\<lparr>en_lastNotified := pd_status (al_pending t)\<rparr>)
      (s\<lparr>tr_timers := filter (\<lambda>x. pd_id (al_pending x) \<noteq> pd_id (al_pending t)) (tr_timers s),
         tr_inFlight := tr_inFlight s @ [t], tr_pushes := tr_pushes s @ [t]\<rparr>)"
    using p by (simp add: fireTimer_def Let_def)
  have "tr_entries s (al_entry t) \<noteq> None" using p by (auto simp: entry_at_def new_entry_def split: option.splits)
  then have "al_entry t < tr_next s" using assms(1) unfolding timers_current_def by (meson not_le)
  moreover have "pd_id (al_pending t) < tr_next s" using p assms(1) unfolding timers_current_def by blast
  ultimately show "timers_current (fireTimer t s)"
    using assms(1) unfolding e timers_current_def by (auto split: if_splits)
qed

lemma settled_effect:
  assumes "timers_current s" and "t \<in> set (tr_inFlight s)"
  shows "timers_current (sendSettled t s)"
    and "en_pending (entry_at b (sendSettled t s)) = en_pending (entry_at b s) \<or> en_pending (entry_at b (sendSettled t s)) = None"
    and "en_lastNotified (entry_at b (sendSettled t s)) = en_lastNotified (entry_at b s)"
    and "tr_pushes (sendSettled t s) = tr_pushes s"
    and "tr_timers (sendSettled t s) = tr_timers s"
proof -
  have "timers_current (sendSettled t s)"
  proof (cases "map_option pd_id (en_pending (entry_at (al_entry t) s)) = Some (pd_id (al_pending t))")
    case False
    then have "sendSettled t s = s\<lparr>tr_inFlight := filter (\<lambda>x. pd_id (al_pending x) \<noteq> pd_id (al_pending t)) (tr_inFlight s)\<rparr>"
      by (simp only: sendSettled_def Let_def False if_False)
    with assms(1) show ?thesis by (simp add: timers_current_def)
  next
    case True
    then have e: "sendSettled t s = set_entry (al_entry t) ((entry_at (al_entry t) s)\<lparr>en_pending := None\<rparr>)
       (s\<lparr>tr_inFlight := filter (\<lambda>x. pd_id (al_pending x) \<noteq> pd_id (al_pending t)) (tr_inFlight s)\<rparr>)"
      by (simp only: sendSettled_def Let_def True refl if_True)
    have "tr_entries s (al_entry t) \<noteq> None" using True by (auto simp: entry_at_def new_entry_def split: option.splits)
    then have lt: "al_entry t < tr_next s" using assms(1) unfolding timers_current_def by (meson not_le)
    have "al_entry x \<noteq> al_entry t" if "x \<in> set (tr_timers s)" for x
    proof
      assume eq: "al_entry x = al_entry t"
      have "en_pending (entry_at (al_entry x) s) = Some (al_pending x)"
        and "pd_id (al_pending x) \<noteq> pd_id (al_pending t)"
        using assms that by (auto simp: timers_current_def)
      with True eq show False by simp
    qed
    with assms(1) lt show ?thesis unfolding e timers_current_def by (auto split: if_splits)
  qed
  then show "timers_current (sendSettled t s)" .
qed (auto simp: sendSettled_def Let_def)

lemma handle_effect:
  assumes "timers_current s" and r_def: "r = handleStatusChangeForBridge cons norm userId bridgeId st pol conn name s"
  shows "timers_current r" and "tr_pushes r = tr_pushes s"
    and "owed (entry_at b r) \<Longrightarrow> owed (entry_at b s)"
proof -
  have "timers_current r \<and> tr_pushes r = tr_pushes s \<and> (owed (entry_at b r) \<longrightarrow> owed (entry_at b s))"
  proof (cases "tr_accepting s")
    case False
    then show ?thesis using assms by (simp add: handleStatusChangeForBridge_def)
  next
    case True
    show ?thesis unfolding r_def
    proof (rule handle_cases [OF assms(1) True, of userId bridgeId cons norm st pol conn name], goal_cases)
      case (1 a s1)
      note c = getOrCreate_current [OF 1(1) assms(1)]
      then show ?case using 1(2) cancel_current [of s1 a] owed_cancel [of b a s1] by auto
    next
      case (2 a s1 s2)
      note c = getOrCreate_current [OF 2(1) assms(1)]
      have c2: "timers_current s2" "map_of (tr_state s2) (instanceKey userId bridgeId) = Some a" "a < tr_next s2"
        "tr_pushes s2 = tr_pushes s"
        using 2(2) c cancel_current [of s1 a] by auto
      note sch = schedule_effect [OF c2(1,3,2), where name = name and st = st and conn = conn and pol = pol and delay = "status_delay st pol cons norm"]
      have ow: "owed (entry_at b s)" if "owed (entry_at b s2)"
        using 2(2) c owed_cancel [of b a s1] that by auto
      have "owed (entry_at b s2)" if o: "owed (entry_at b (schedule a userId bridgeId name st conn pol (status_delay st pol cons norm) s2))"
      proof (cases "b = a")
        case False
        then show ?thesis using o sch(4) by simp
      next
        case True
        show ?thesis
        proof (cases st)
          case Active
          then show ?thesis using 2(3) True
            by (cases "en_lastNotified (entry_at a s2)") (auto simp: owed_def pending_active_def)
        next
          case Inactive
          then show ?thesis using o sch(2,3) True by (auto simp: owed_def pending_active_def)
        qed
      qed
      then show ?case using 2(5) sch(1,5) c2(4) ow by simp
    qed
  qed
  then show "timers_current r" "tr_pushes r = tr_pushes s" "owed (entry_at b r) \<Longrightarrow> owed (entry_at b s)" by blast+
qed

lemma disposeTracker_effect:
  assumes "timers_current s"
  shows "timers_current (disposeTracker s)" and "tr_pushes (disposeTracker s) = tr_pushes s"
    and "owed (entry_at b (disposeTracker s)) \<Longrightarrow> owed (entry_at b s)"
    and "tr_accepting s \<Longrightarrow> tr_timers (disposeTracker s) = [] \<and> \<not> tr_accepting (disposeTracker s)"
proof -
  let ?f = "\<lambda>xs. fold cancelPending xs"
  have f: "timers_current (?f xs z) \<and> tr_pushes (?f xs z) = tr_pushes z \<and> tr_accepting (?f xs z) = tr_accepting z \<and>
      tr_state (?f xs z) = tr_state z \<and> tr_next (?f xs z) = tr_next z \<and>
      set (tr_timers (?f xs z)) \<subseteq> set (tr_timers z) \<and> (\<forall>t \<in> set (tr_timers (?f xs z)). al_entry t \<notin> set xs) \<and>
      (owed (entry_at b (?f xs z)) \<longrightarrow> owed (entry_at b z))"
    if "timers_current z" for xs z
    using that
  proof (induction xs arbitrary: z)
    case (Cons x xs)
    have sub: "set (tr_timers (cancelPending x z)) \<subseteq> set (tr_timers z)"
      by (auto simp: cancelPending_timers split: option.splits)
    from Cons.IH [OF cancel_current(1) [OF Cons.prems]] cancel_current(2) [OF Cons.prems, of x] sub owed_cancel [of b x z]
    show ?case by (auto simp: subset_iff)
  qed simp
  have "timers_current (disposeTracker s) \<and> tr_pushes (disposeTracker s) = tr_pushes s \<and>
     (owed (entry_at b (disposeTracker s)) \<longrightarrow> owed (entry_at b s)) \<and>
     (tr_accepting s \<longrightarrow> tr_timers (disposeTracker s) = [] \<and> \<not> tr_accepting (disposeTracker s))"
  proof (cases "tr_accepting s")
    case False
    then show ?thesis using assms by (simp add: disposeTracker_def)
  next
    case True
    let ?z = "s\<lparr>tr_accepting := False\<rparr>" and ?xs = "map snd (tr_state s)"
    have z: "timers_current ?z" using assms by (simp add: timers_current_def)
    note fz = f [OF z, of ?xs]
    have "al_entry t \<in> set ?xs" if "t \<in> set (tr_timers s)" for t
      using assms that unfolding timers_current_def by (force dest: map_of_SomeD)
    then have none: "tr_timers (?f ?xs ?z) = []"
      using fz by (cases "tr_timers (?f ?xs ?z)") auto
    have "timers_current ((?f ?xs ?z)\<lparr>tr_state := []\<rparr>)"
      using fz none unfolding timers_current_def by auto
    then show ?thesis using fz none True by (simp add: disposeTracker_def)
  qed
  then show "timers_current (disposeTracker s)" "tr_pushes (disposeTracker s) = tr_pushes s"
    "owed (entry_at b (disposeTracker s)) \<Longrightarrow> owed (entry_at b s)"
    "tr_accepting s \<Longrightarrow> tr_timers (disposeTracker s) = [] \<and> \<not> tr_accepting (disposeTracker s)" by blast+
qed

definition tracker_inv :: "tracker \<Rightarrow> bool" where
  "tracker_inv s \<longleftrightarrow> timers_current s \<and> push_history s"

lemma fire_history:
  assumes "tracker_inv s" and "t \<in> set (tr_timers s)"
  shows "push_history (fireTimer t s)"
proof -
  have p: "en_pending (entry_at (al_entry t) s) = Some (al_pending t)"
    and h: "push_history s" and c: "timers_current s"
    using assms by (auto simp: tracker_inv_def timers_current_def)
  note e = fire_effect(1) [OF c assms(2)]
  have st: "statuses a (fireTimer t s) = statuses a s @ (if a = al_entry t then [pd_status (al_pending t)] else [])" for a
    by (simp add: e statuses_def)
  have act: "Inactive \<in> set (statuses (al_entry t) s)" if "pd_status (al_pending t) = Active"
    using h p that by (auto simp: push_history_def owed_def pending_active_def)
  show ?thesis unfolding push_history_def
  proof (intro allI conjI impI)
    fix a
    assume o: "owed (entry_at a (fireTimer t s))"
    show "Inactive \<in> set (statuses a (fireTimer t s))"
    proof (cases "a = al_entry t")
      case True
      then show ?thesis using act st by (cases "pd_status (al_pending t)") auto
    next
      case False
      then have "owed (entry_at a s)" using o by (simp add: e)
      then show ?thesis using h st by (simp add: push_history_def)
    qed
  next
    fix a
    show "statuses a (fireTimer t s) = [] \<or> hd (statuses a (fireTimer t s)) = Inactive"
      using h act by (cases "pd_status (al_pending t)") (auto simp: st push_history_def hd_append)
  qed
qed

lemma tracker_step_inv: "tracker_step s t \<Longrightarrow> tracker_inv s \<Longrightarrow> tracker_inv t"
proof (induction rule: tracker_step.induct)
  case (report s cons norm userId bridgeId st pol conn name)
  then show ?case unfolding tracker_inv_def
    using handle_effect [OF _ refl] history_weaken by metis
next
  case (observed s userId bridgeId conn deviceId)
  have "owed (entry_at b (markConnectionObserved userId bridgeId conn deviceId s)) = owed (entry_at b s)" for b
    using mark_effect observed by (simp add: owed_def pending_active_def tracker_inv_def)
  then show ?case using observed unfolding tracker_inv_def by (metis mark_effect(1,4) history_weaken)
next
  case (cancel s userId bridgeId)
  then show ?case unfolding tracker_inv_def using cancelBridge_effect(1) cancelBridge_entry history_weaken by metis
next
  case (fire t s)
  then show ?case using fire_history fire_effect(2) by (simp add: tracker_inv_def)
next
  case (settled t s)
  have "owed (entry_at b (sendSettled t s)) \<Longrightarrow> owed (entry_at b s)" for b
    using settled_effect(2,3) [of s t b] settled by (auto simp: owed_def pending_active_def tracker_inv_def)
  then show ?case using settled unfolding tracker_inv_def by (metis settled_effect(1,4) history_weaken)
next
  case (disposeTracker s)
  then show ?case unfolding tracker_inv_def using disposeTracker_effect(1-3) history_weaken by metis
qed

lemma tracker_always: "tracker_reachable s \<Longrightarrow> tracker_inv s"
proof (induction rule: tracker_reachable.induct)
  case start
  show ?case
    by (simp add: tracker_inv_def timers_current_def push_history_def statuses_def owed_def pending_active_def
        empty_tracker_def entry_at_def new_entry_def)
next
  case (step s t)
  then show ?case using tracker_step_inv by blast
qed

text \<open>C14: An online push only ever answers an offline push.  In every run, whatever the
  order of reports, observations, cancellations, timers, late completions and
  disposal, the log of a bridge's entry never has an online push without an
  offline push before it.\<close>
theorem online_push_answers_offline:
  assumes "tracker_reachable s" and "statuses a s = xs @ Active # ys"
  shows "Inactive \<in> set xs"
proof -
  have "statuses a s = [] \<or> hd (statuses a s) = Inactive"
    using tracker_always [OF assms(1)] by (simp add: tracker_inv_def push_history_def)
  then show ?thesis using assms(2) by (cases xs) auto
qed

text \<open>C0: Silence after revocation and after disposal.  Once \<open>cancelPendingForBridge\<close> has
  run no armed timer of that bridge is left, and once the tracker is disposed of,
  no timer is ever armed and no push is ever started again.\<close>
theorem cancelled_bridge_is_silent:
  assumes "tracker_reachable s" and "tr_accepting s"
  shows "(\<forall>t \<in> set (tr_timers (cancelPendingForBridge userId bridgeId s)).
       instanceKey (al_userId t) (al_bridgeId t) \<noteq> instanceKey userId bridgeId) \<and>
     (tracker_step\<^sup>*\<^sup>* (disposeTracker s) s' \<longrightarrow> tr_timers s' = [] \<and> tr_pushes s' = tr_pushes s)"
proof (intro conjI impI)
  have c: "timers_current s" using tracker_always [OF assms(1)] by (simp add: tracker_inv_def)
  show "\<forall>t \<in> set (tr_timers (cancelPendingForBridge userId bridgeId s)).
       instanceKey (al_userId t) (al_bridgeId t) \<noteq> instanceKey userId bridgeId"
    using cancelBridge_effect(2) [OF c assms(2)] .
  let ?off = "\<lambda>z. \<not> tr_accepting z \<and> tr_timers z = [] \<and> tr_pushes z = tr_pushes s"
  have step: "?off z \<Longrightarrow> ?off y" if "tracker_step z y" for z y
    using that
    by (induction rule: tracker_step.induct)
      (auto simp: handleStatusChangeForBridge_def markConnectionObserved_def cancelPendingForBridge_def
        disposeTracker_def sendSettled_def Let_def)
  have start: "?off (disposeTracker s)" using disposeTracker_effect(2,4) [OF c] assms(2) by simp
  assume "tracker_step\<^sup>*\<^sup>* (disposeTracker s) s'"
  then have "?off s'" by (induction rule: rtranclp_induct) (use start step in blast)+
  then show "tr_timers s' = []" "tr_pushes s' = tr_pushes s" by blast+
qed

section \<open>Alternation when no report arrives during a send\<close>

inductive quiet_step :: "tracker \<Rightarrow> tracker \<Rightarrow> bool" where
  report: "quiet_step s (handleStatusChangeForBridge conservative normal userId bridgeId st pol conn name s)"
| observed: "quiet_step s (markConnectionObserved userId bridgeId conn deviceId s)"
| push: "t \<in> set (tr_timers s) \<Longrightarrow> quiet_step s (sendSettled t (fireTimer t s))"

fun alternates :: "bridge_status \<Rightarrow> bridge_status list \<Rightarrow> bool" where
  "alternates st [] = True"
| "alternates st (x # xs) = (x \<noteq> st \<and> alternates x xs)"

lemma alternates_snoc: "alternates st (xs @ [x]) \<longleftrightarrow> alternates st xs \<and> x \<noteq> last (st # xs)"
  by (induction xs arbitrary: st) auto

definition alternating :: "tracker \<Rightarrow> bool" where
  "alternating s \<longleftrightarrow> (\<forall>a. alternates Active (statuses a s) \<and>
     en_lastNotified (entry_at a s) = last (Active # statuses a s) \<and>
     (\<forall>p. en_pending (entry_at a s) = Some p \<longrightarrow> pd_status p \<noteq> en_lastNotified (entry_at a s)))"

lemma alternating_frame:
  assumes "alternating s" and "tr_pushes t = tr_pushes s"
    and "\<And>a. en_lastNotified (entry_at a t) = en_lastNotified (entry_at a s)"
    and "\<And>a p. en_pending (entry_at a t) = Some p \<Longrightarrow> en_pending (entry_at a s) = Some p"
  shows "alternating t"
proof -
  have "statuses a t = statuses a s" for a using assms(2) by (simp add: statuses_def)
  then show ?thesis using assms(1) unfolding alternating_def assms(3) by (metis assms(4))
qed

lemma alternating_cancel: "alternating s \<Longrightarrow> alternating (cancelPending a s)"
  by (rule alternating_frame) (auto simp: cancelPending_entry split: if_splits)

lemma quiet_step_inv: "quiet_step s t \<Longrightarrow> timers_current s \<and> alternating s \<Longrightarrow> timers_current t \<and> alternating t"
proof (induction rule: quiet_step.induct)
  case (report s cons norm userId bridgeId st pol conn name)
  then have c: "timers_current s" and al: "alternating s" by auto
  show ?case
  proof (cases "tr_accepting s")
    case False
    then show ?thesis using c al by (simp add: handleStatusChangeForBridge_def)
  next
    case True
    have "alternating (handleStatusChangeForBridge cons norm userId bridgeId st pol conn name s)"
    proof (rule handle_cases [OF c True, of userId bridgeId cons norm st pol conn name], goal_cases)
      case (1 a s1)
      have "alternating s1" using getOrCreate_current [OF 1(1) c] al by (auto intro: alternating_frame)
      with 1(2) alternating_cancel show ?case by auto
    next
      case (2 a s1 s2)
      note g = getOrCreate_current [OF 2(1) c]
      have "alternating s1" using g al by (auto intro: alternating_frame)
      then have al2: "alternating s2" using 2(2) alternating_cancel by auto
      have c2: "timers_current s2" "map_of (tr_state s2) (instanceKey userId bridgeId) = Some a" "a < tr_next s2"
        using 2(2) g cancel_current [of s1 a] by auto
      note sch = schedule_effect [OF c2(1,3,2), where name = name and st = st and conn = conn and pol = pol
          and delay = "status_delay st pol cons norm"]
      have ne: "st \<noteq> en_lastNotified (entry_at a s2)"
      proof -
        have "\<forall>p. en_pending (entry_at a s2) = Some p \<longrightarrow> pd_status p \<noteq> en_lastNotified (entry_at a s2)"
          using al2 unfolding alternating_def by blast
        then show ?thesis using 2(3) by metis
      qed
      have "alternating (schedule a userId bridgeId name st conn pol (status_delay st pol cons norm) s2)"
        unfolding alternating_def
      proof (intro allI)
        fix b
        let ?s' = "schedule a userId bridgeId name st conn pol (status_delay st pol cons norm) s2"
        have s: "statuses b ?s' = statuses b s2" using sch(5) by (simp add: statuses_def)
        have old: "alternates Active (statuses b s2)" "en_lastNotified (entry_at b s2) = last (Active # statuses b s2)"
          "\<forall>p. en_pending (entry_at b s2) = Some p \<longrightarrow> pd_status p \<noteq> en_lastNotified (entry_at b s2)"
          using al2 unfolding alternating_def by blast+
        have "\<forall>p. en_pending (entry_at b ?s') = Some p \<longrightarrow> pd_status p \<noteq> en_lastNotified (entry_at b ?s')"
        proof (cases "b = a")
          case True
          then show ?thesis using sch(2,3) ne by auto
        next
          case False
          then show ?thesis using sch(4) old(3) by simp
        qed
        then show "alternates Active (statuses b ?s') \<and>
            en_lastNotified (entry_at b ?s') = last (Active # statuses b ?s') \<and>
            (\<forall>p. en_pending (entry_at b ?s') = Some p \<longrightarrow> pd_status p \<noteq> en_lastNotified (entry_at b ?s'))"
          using s old sch(3) by simp
      qed
      then show ?case using 2(5) by simp
    qed
    then show ?thesis using handle_effect(1) [OF c refl] by simp
  qed
next
  case (observed s userId bridgeId conn deviceId)
  then have c: "timers_current s" and al: "alternating s" by auto
  have "alternating (markConnectionObserved userId bridgeId conn deviceId s)"
    by (rule alternating_frame [OF al]) (simp_all add: mark_effect [OF c])
  then show ?case using mark_effect(1) [OF c] by simp
next
  case (push t s)
  then have c: "timers_current s" and al: "alternating s" by auto
  note f = fire_effect [OF c push.hyps]
  let ?u = "fireTimer t s" and ?a = "al_entry t"
  have p: "en_pending (entry_at ?a s) = Some (al_pending t)" using c push.hyps by (simp add: timers_current_def)
  have infl: "t \<in> set (tr_inFlight ?u)" by (simp add: f(1))
  note se = settled_effect [OF f(2) infl]
  have none: "en_pending (entry_at ?a (sendSettled t ?u)) = None"
    using p by (simp add: sendSettled_def f(1) Let_def)
  have st: "statuses b (sendSettled t ?u) = statuses b s @ (if b = ?a then [pd_status (al_pending t)] else [])" for b
    by (simp add: statuses_def se(4)) (simp add: f(1))
  have "alternating (sendSettled t ?u)"
    unfolding alternating_def
  proof (intro allI)
    fix b
    have old: "alternates Active (statuses b s)" "en_lastNotified (entry_at b s) = last (Active # statuses b s)"
      "\<forall>p. en_pending (entry_at b s) = Some p \<longrightarrow> pd_status p \<noteq> en_lastNotified (entry_at b s)"
      using al unfolding alternating_def by blast+
    show "alternates Active (statuses b (sendSettled t ?u)) \<and>
        en_lastNotified (entry_at b (sendSettled t ?u)) = last (Active # statuses b (sendSettled t ?u)) \<and>
        (\<forall>p. en_pending (entry_at b (sendSettled t ?u)) = Some p \<longrightarrow>
           pd_status p \<noteq> en_lastNotified (entry_at b (sendSettled t ?u)))"
    proof (cases "b = ?a")
      case True
      then show ?thesis using old p none st se(3) [of ?a]
        by (simp add: alternates_snoc f(1)) 
    next
      case False
      then have "entry_at b ?u = entry_at b s" by (simp add: f(1))
      then show ?thesis using False old st se(2,3) [of b] by auto
    qed
  qed
  then show ?case using se(1) by simp
qed

text \<open>Alternation.  In runs in which no report or cancellation arrives while a push is
  being sent, the pushes of a bridge strictly alternate, starting with offline:
  no status is announced twice in a row, however often it is reported.\<close>
lemma pushes_alternate:
  assumes "quiet_step\<^sup>*\<^sup>* empty_tracker s"
  shows "alternates Active (statuses a s)"
proof -
  have "timers_current s \<and> alternating s"
    using assms
  proof (induction rule: rtranclp_induct)
    case base
    show ?case
      by (simp add: timers_current_def alternating_def statuses_def empty_tracker_def entry_at_def new_entry_def)
  next
    case (step y z)
    then show ?case using quiet_step_inv by blast
  qed
  then show ?thesis by (simp add: alternating_def)
qed

section \<open>The device that connected is not told\<close>

lemma schedule_excluded:
  assumes "en_pending (entry_at a (schedule a userId bridgeId name Active (Some k) pol dl s)) = Some p'"
    and "(\<exists>p. en_pending (entry_at a s) = Some p \<and> pd_status p = Active \<and> pd_connectionId p = Some k \<and>
            d \<in> tr_sets s (pd_excluded p)) \<or> (\<exists>ds. en_early (entry_at a s) = Some (k, ds) \<and> d \<in> ds)"
  shows "d \<in> tr_sets (schedule a userId bridgeId name Active (Some k) pol dl s) (pd_excluded p')"
  using assms by (auto simp: schedule_def Let_def cancelPending_entry split: option.splits)

definition knows :: "nat \<Rightarrow> string \<Rightarrow> string \<Rightarrow> tracker \<Rightarrow> bool" where
  \<comment> \<open>an online push for connection \<open>k\<close> would leave out device \<open>d\<close>\<close>
  "knows a k d s \<longleftrightarrow>
     (\<forall>p. en_pending (entry_at a s) = Some p \<longrightarrow> pd_status p = Active \<longrightarrow> pd_connectionId p = Some k \<longrightarrow>
        d \<in> tr_sets s (pd_excluded p)) \<and>
     ((\<exists>p. en_pending (entry_at a s) = Some p \<and> pd_status p = Active \<and> pd_connectionId p = Some k) \<or>
      (\<exists>ds. en_early (entry_at a s) = Some (k, ds) \<and> d \<in> ds))"

lemma mark_knows:
  assumes "timers_current s" and "tr_accepting s"
  shows "\<exists>a. map_of (tr_state (markConnectionObserved userId bridgeId k d s)) (instanceKey userId bridgeId) = Some a \<and>
     knows a k d (markConnectionObserved userId bridgeId k d s)"
proof -
  obtain a s1 where g: "getOrCreateEntry (instanceKey userId bridgeId) s = (a, s1)" by fastforce
  note c = getOrCreate_current [OF g assms(1)]
  have "map_of (tr_state (markConnectionObserved userId bridgeId k d s)) (instanceKey userId bridgeId) = Some a"
    using c assms(2) by (simp add: markConnectionObserved_def g Let_def split: option.split)
  moreover have "knows a k d (markConnectionObserved userId bridgeId k d s)"
    using assms(2) by (auto simp: markConnectionObserved_def g Let_def knows_def split: option.split)
  ultimately show ?thesis by blast
qed

lemma report_knows:
  assumes "timers_current s" and "tr_accepting s" and "map_of (tr_state s) (instanceKey userId bridgeId) = Some a"
    and "knows a k d s"
    and "en_pending (entry_at a (handleStatusChangeForBridge cons norm userId bridgeId Active pol (Some k) name s)) = Some p"
    and "pd_status p = Active" and "pd_connectionId p = Some k"
  shows "d \<in> tr_sets (handleStatusChangeForBridge cons norm userId bridgeId Active pol (Some k) name s) (pd_excluded p)"
proof -
  have g: "getOrCreateEntry (instanceKey userId bridgeId) s = (a, s)" using assms(3) by (simp add: getOrCreateEntry_def)
  show ?thesis
  proof (rule handle_cases [OF assms(1,2), of userId bridgeId cons norm Active pol "Some k" name], goal_cases)
    case (1 a' s1)
    then have "a' = a" "s1 = s" using g by auto
    with 1(2) assms(4-7) show ?case by (auto simp: knows_def cancelPending_entry)
  next
    case (2 a' s1 s2)
    then have a: "a' = a" "s1 = s" using g by auto
    have early: "en_early (entry_at a s2) = en_early (entry_at a s)"
      using 2(2) a by (auto simp: cancelPending_entry)
    have "(\<exists>p. en_pending (entry_at a s2) = Some p \<and> pd_status p = Active \<and> pd_connectionId p = Some k \<and>
            d \<in> tr_sets s2 (pd_excluded p)) \<or> (\<exists>ds. en_early (entry_at a s2) = Some (k, ds) \<and> d \<in> ds)"
    proof (cases "\<exists>ds. en_early (entry_at a s) = Some (k, ds) \<and> d \<in> ds")
      case True
      then show ?thesis using early by simp
    next
      case False
      then obtain q where q: "en_pending (entry_at a s) = Some q" "pd_status q = Active" "pd_connectionId q = Some k"
        "d \<in> tr_sets s (pd_excluded q)"
        using assms(4) by (auto simp: knows_def)
      with 2(2) a have "s2 = s" by auto
      with q show ?thesis by blast
    qed
    from schedule_excluded [OF _ this] assms(5) show ?case unfolding 2(5) a by simp
  qed
qed

text \<open>The computer's own device is not told it is online.  Whichever arrives first, the
  report that a connection is active or the observation of the device behind that
  connection, afterwards every pending online push for that connection leaves the
  observed device out.\<close>
lemma observed_device_is_excluded:
  assumes "tracker_reachable s" and "tr_accepting s"
    and "s' = handleStatusChangeForBridge cons norm userId bridgeId Active pol (Some k) name
                (markConnectionObserved userId bridgeId k d s) \<or>
         s' = markConnectionObserved userId bridgeId k d
                (handleStatusChangeForBridge cons norm userId bridgeId Active pol (Some k) name s)"
    and "map_of (tr_state s') (instanceKey userId bridgeId) = Some a"
    and "en_pending (entry_at a s') = Some p" and "pd_status p = Active" and "pd_connectionId p = Some k"
  shows "d \<in> tr_sets s' (pd_excluded p)"
proof -
  have c: "timers_current s" using tracker_always [OF assms(1)] by (simp add: tracker_inv_def)
  have keep: "tr_accepting (handleStatusChangeForBridge cons norm userId bridgeId Active pol (Some k) name z) = tr_accepting z"
    "tr_accepting (markConnectionObserved userId bridgeId k d z) = tr_accepting z" for z
    by (simp_all add: handleStatusChangeForBridge_def markConnectionObserved_def getOrCreateEntry_def schedule_def
        Let_def split: option.split prod.split)
  from assms(3) show ?thesis
  proof
    assume s': "s' = handleStatusChangeForBridge cons norm userId bridgeId Active pol (Some k) name
                (markConnectionObserved userId bridgeId k d s)"
    let ?m = "markConnectionObserved userId bridgeId k d s"
    obtain a' where a': "map_of (tr_state ?m) (instanceKey userId bridgeId) = Some a'" "knows a' k d ?m"
      using mark_knows [OF c assms(2)] by blast
    have acc: "tr_accepting ?m" using keep assms(2) by simp
    have "map_of (tr_state s') (instanceKey userId bridgeId) = Some a'"
    proof -
      have g: "getOrCreateEntry (instanceKey userId bridgeId) ?m = (a', ?m)" using a'(1) by (simp add: getOrCreateEntry_def)
      show ?thesis unfolding s'
        by (rule handle_cases [OF mark_effect(1) [OF c] acc, of userId bridgeId cons norm Active pol "Some k" name])
          (use g a'(1) in \<open>auto simp: schedule_def Let_def\<close>)
    qed
    with assms(4) have "a' = a" by simp
    then show ?thesis
      using report_knows [OF mark_effect(1) [OF c] acc a'] assms(5-7) s' by simp
  next
    assume s': "s' = markConnectionObserved userId bridgeId k d
                (handleStatusChangeForBridge cons norm userId bridgeId Active pol (Some k) name s)"
    have "timers_current (handleStatusChangeForBridge cons norm userId bridgeId Active pol (Some k) name s)"
      using handle_effect(1) [OF c refl] .
    from mark_knows [OF this, of userId bridgeId k d] assms(2,4) keep
    have "knows a k d s'" by (simp add: s')
    with assms(5-7) show ?thesis by (simp add: knows_def)
  qed
qed

section \<open>Runs to evaluate\<close>

definition off1 :: tracker where
  "off1 = handleStatusChangeForBridge 120000 5000 ''u'' ''b'' Inactive NormalPolicy None ''Mac'' empty_tracker"

definition alarm1 :: alarm where
  "alarm1 = \<lparr>al_entry = 0, al_pending = \<lparr>pd_id = 1, pd_status = Inactive, pd_bridgeName = ''Mac'',
     pd_connectionId = None, pd_policy = NormalPolicy, pd_excluded = 1\<rparr>,
     al_userId = ''u'', al_bridgeId = ''b'', al_delay = 120000\<rparr>"

lemmas tracker_eval = handleStatusChangeForBridge_def empty_tracker_def getOrCreateEntry_def instanceKey_def
  set_entry_def entry_at_def new_entry_def schedule_def cancelPending_def status_delay_def fireTimer_def
  sendSettled_def markConnectionObserved_def alarm1_def Let_def

lemma off1_timers: "tr_timers off1 = [alarm1]"
  by (simp add: off1_def tracker_eval)

definition alarm2 :: alarm where
  "alarm2 = \<lparr>al_entry = 0, al_pending = \<lparr>pd_id = 2, pd_status = Inactive, pd_bridgeName = ''Mac'',
     pd_connectionId = Some ''c2'', pd_policy = NormalPolicy, pd_excluded = 2\<rparr>,
     al_userId = ''u'', al_bridgeId = ''b'', al_delay = 120000\<rparr>"

definition reports_mid_send :: "tracker \<Rightarrow> tracker" where
  \<comment> \<open>a suppressed connection and a disconnection under another connection id\<close>
  "reports_mid_send s =
     handleStatusChangeForBridge 120000 5000 ''u'' ''b'' Inactive NormalPolicy (Some ''c2'') ''Mac''
       (handleStatusChangeForBridge 120000 5000 ''u'' ''b'' Active SuppressPolicy (Some ''c2'') ''Mac'' s)"

lemma mid_send_repeat:
  \<comment> \<open>while the offline push is being sent, the bridge connects with a suppressed
     notification and disconnects under another connection: a second offline push follows\<close>
  "tr_timers (sendSettled alarm1 (reports_mid_send (fireTimer alarm1 off1))) = [alarm2]"
  "statuses 0 (fireTimer alarm2 (sendSettled alarm1 (reports_mid_send (fireTimer alarm1 off1)))) = [Inactive, Inactive]"
  by code_simp+

definition on1 :: tracker where
  "on1 = handleStatusChangeForBridge 120000 5000 ''u'' ''b'' Active NormalPolicy (Some ''c1'') ''Mac''
     (sendSettled alarm1 (fireTimer alarm1 off1))"

definition alarm3 :: alarm where
  "alarm3 = \<lparr>al_entry = 0, al_pending = \<lparr>pd_id = 2, pd_status = Active, pd_bridgeName = ''Mac'',
     pd_connectionId = Some ''c1'', pd_policy = NormalPolicy, pd_excluded = 2\<rparr>,
     al_userId = ''u'', al_bridgeId = ''b'', al_delay = 5000\<rparr>"

lemma on1_eval:
  "alarm1 \<in> set (tr_inFlight (fireTimer alarm1 off1))" "alarm3 \<in> set (tr_timers on1)"
  "statuses 0 (fireTimer alarm3 on1) = [Inactive, Active]" "tr_accepting off1 = True"
  "statuses 0 (sendSettled alarm3 (fireTimer alarm3 on1)) = [Inactive, Active]"
  by code_simp+

lemma off1_reachable: "tracker_reachable off1"
  unfolding off1_def by (rule tracker_reachable.step [OF tracker_reachable.start tracker_step.report])

lemma on1_reachable: "tracker_reachable on1"
  unfolding on1_def
  by (rule tracker_reachable.step [OF tracker_reachable.step [OF tracker_reachable.step [OF off1_reachable
      tracker_step.fire] tracker_step.settled [OF on1_eval(1)]] tracker_step.report])
    (simp add: off1_timers)

theorem online_push_answers_offline_witness:
  "statuses 0 (fireTimer alarm3 on1) = [Inactive] @ Active # [] \<and> Inactive \<in> set [Inactive]"
  using online_push_answers_offline [OF tracker_reachable.step [OF on1_reachable tracker_step.fire [OF on1_eval(2)]],
      of 0 "[Inactive]" "[]"] on1_eval(3) by simp

lemma cancelled_bridge_is_silent_witness:
  "tr_timers off1 = [alarm1] \<and> tr_timers (disposeTracker off1) = [] \<and>
   list_all (\<lambda>t. instanceKey (al_userId t) (al_bridgeId t) \<noteq> instanceKey ''u'' ''b'')
     (tr_timers (cancelPendingForBridge ''u'' ''b'' off1))"
  using cancelled_bridge_is_silent [OF off1_reachable, of "''u''" "''b''" "disposeTracker off1"] on1_eval(4) off1_timers
  by (simp add: list_all_iff)

lemma pushes_alternate_witness:
  "statuses 0 (sendSettled alarm3 (fireTimer alarm3 on1)) = [Inactive, Active] \<and>
   alternates Active (statuses 0 (sendSettled alarm3 (fireTimer alarm3 on1)))"
proof -
  have a: "quiet_step empty_tracker off1" unfolding off1_def by (rule quiet_step.report)
  have b: "quiet_step off1 (sendSettled alarm1 (fireTimer alarm1 off1))"
    by (rule quiet_step.push) (simp add: off1_timers)
  have c: "quiet_step (sendSettled alarm1 (fireTimer alarm1 off1)) on1" unfolding on1_def by (rule quiet_step.report)
  have d: "quiet_step on1 (sendSettled alarm3 (fireTimer alarm3 on1))" by (rule quiet_step.push [OF on1_eval(2)])
  from a b c d have "quiet_step\<^sup>*\<^sup>* empty_tracker (sendSettled alarm3 (fireTimer alarm3 on1))"
    by (meson rtranclp.rtrancl_into_rtrancl rtranclp.rtrancl_refl)
  from pushes_alternate [OF this] on1_eval(5) show ?thesis by blast
qed

definition told :: tracker where
  "told = handleStatusChangeForBridge 120000 5000 ''u'' ''b'' Active NormalPolicy (Some ''c1'') ''Mac''
     (markConnectionObserved ''u'' ''b'' ''c1'' ''d1'' (sendSettled alarm1 (fireTimer alarm1 off1)))"

lemma told_eval:
  "map_of (tr_state told) (instanceKey ''u'' ''b'') = Some 0"
  "en_pending (entry_at 0 told) = Some (al_pending alarm3)"
  "tr_accepting (sendSettled alarm1 (fireTimer alarm1 off1)) = True"
  by code_simp+

lemma observed_device_is_excluded_witness:
  "''d1'' \<in> tr_sets told (pd_excluded (al_pending alarm3))"
proof -
  have r: "tracker_reachable (sendSettled alarm1 (fireTimer alarm1 off1))"
    by (rule tracker_reachable.step [OF tracker_reachable.step [OF off1_reachable tracker_step.fire]
        tracker_step.settled [OF on1_eval(1)]]) (simp add: off1_timers)
  show ?thesis
    by (rule observed_device_is_excluded [OF r _ _ told_eval(1,2)])
      (use told_eval(3) in \<open>auto simp: told_def alarm3_def\<close>)
qed

end
