(* ===== verification/Glossary.thy ===== *)
theory Glossary
  imports Bridges
begin

text \<open>
  The transcription glossary: \<open>src/repositories/glossary-entry-repo.ts\<close> and
  \<open>src/services/glossary-service.ts\<close>, with the prompt of \<open>src/types/transcription.ts\<close>.
  A word is the list of its UTF-16 code units, which is what the language's
  \<open>length\<close>, \<open>trim\<close> and \<open><\<close> work on.  A user id is already a parsed ObjectId.  The
  stored documents are well-typed, so parsing them does not fail; the one check
  on stored data that can, the shape of bridge ids, is modelled.
\<close>

type_synonym word = "nat list"
type_synonym project_key = string

datatype scope =
  RepositoryScope project_key
| BridgeLocal project_key string

fun scope_project :: "scope \<Rightarrow> project_key" where
  "scope_project (RepositoryScope p) = p"
| "scope_project (BridgeLocal p _) = p"

fun scope_bridge :: "scope \<Rightarrow> string option" where
  "scope_bridge (RepositoryScope _) = None"
| "scope_bridge (BridgeLocal _ b) = Some b"

record glossary_entry =
  ge_userId :: string
  ge_scope :: scope
  ge_words :: "word list"
  ge_createdAt :: millis
  ge_updatedAt :: millis

section \<open>The repository\<close>

definition sortWords :: "word list \<Rightarrow> word list" where
  "sortWords ws = sort (remdups ws)"

definition in_scope :: "string \<Rightarrow> scope \<Rightarrow> glossary_entry \<Rightarrow> bool" where
  "in_scope u sc e \<longleftrightarrow> ge_userId e = u \<and> ge_scope e = sc"

definition in_project :: "string \<Rightarrow> project_key \<Rightarrow> glossary_entry \<Rightarrow> bool" where
  "in_project u p e \<longleftrightarrow> ge_userId e = u \<and> scope_project (ge_scope e) = p"

definition findWordsByUserAndProject :: "string \<Rightarrow> project_key \<Rightarrow> glossary_entry list \<Rightarrow> word list" where
  "findWordsByUserAndProject u p c = sortWords (concat (map ge_words (filter (in_project u p) c)))"

definition findWordsByUserAndScope :: "string \<Rightarrow> scope \<Rightarrow> glossary_entry list \<Rightarrow> word list" where
  "findWordsByUserAndScope u sc c =
     (case findOne (in_scope u sc) c of None \<Rightarrow> [] | Some e \<Rightarrow> sortWords (ge_words e))"

definition countWords :: "(glossary_entry \<Rightarrow> bool) \<Rightarrow> glossary_entry list \<Rightarrow> nat" where
  "countWords p c = sum_list (map (\<lambda>e. length (ge_words e)) (filter p c))"

definition countByUserAndProject :: "string \<Rightarrow> project_key \<Rightarrow> glossary_entry list \<Rightarrow> nat" where
  "countByUserAndProject u p c = countWords (in_project u p) c"

definition countScopedByUserId :: "string \<Rightarrow> glossary_entry list \<Rightarrow> nat" where
  "countScopedByUserId u c = countWords (\<lambda>e. ge_userId e = u) c"

definition add_to_set :: "word list \<Rightarrow> word list \<Rightarrow> word list" where
  \<comment> \<open>\<open>$addToSet\<close> with \<open>$each\<close>\<close>
  "add_to_set new ws = fold (\<lambda>w ws. if w \<in> set ws then ws else ws @ [w]) new ws"

definition addWordsToScope ::
  "millis \<Rightarrow> string \<Rightarrow> scope \<Rightarrow> word list \<Rightarrow> glossary_entry list \<Rightarrow> word list \<times> glossary_entry list" where
  "addWordsToScope now u sc ws c =
     (case findOneAndUpdate (in_scope u sc)
             (\<lambda>e. e\<lparr>ge_words := add_to_set ws (ge_words e), ge_updatedAt := now\<rparr>) c of
        (None, c') \<Rightarrow>
          (ws, c' @ [\<lparr>ge_userId = u, ge_scope = sc, ge_words = add_to_set ws [], ge_createdAt = now, ge_updatedAt = now\<rparr>])
      | (Some (before, _), c') \<Rightarrow> (filter (\<lambda>w. w \<notin> set (ge_words before)) ws, c'))"

definition MAX_SCOPE_UPSERT_ATTEMPTS :: nat where
  "MAX_SCOPE_UPSERT_ATTEMPTS = 5"

fun addWordsToScopeWithRetry ::
  "nat \<Rightarrow> (glossary_entry list \<Rightarrow> glossary_entry list) list \<Rightarrow> millis \<Rightarrow> string \<Rightarrow> scope \<Rightarrow> word list
   \<Rightarrow> glossary_entry list \<Rightarrow> (thrown + word list) \<times> glossary_entry list" where
  \<comment> \<open>each race is an attempt that loses the unique index to another request, and what
     that request did\<close>
  "addWordsToScopeWithRetry attempts [] now u sc ws c = apfst Inr (addWordsToScope now u sc ws c)"
| "addWordsToScopeWithRetry attempts (r # races) now u sc ws c =
     (if 1 < attempts then addWordsToScopeWithRetry (attempts - 1) races now u sc ws (r c)
      else (Inl Unknown, r c))"

definition uniq :: "'a list \<Rightarrow> 'a list" where
  \<comment> \<open>\<open>[...new Set(words)]\<close>: first occurrences, in order\<close>
  "uniq ws = rev (remdups (rev ws))"

definition addWordsRepo ::
  "(glossary_entry list \<Rightarrow> glossary_entry list) list \<Rightarrow> millis \<Rightarrow> string \<Rightarrow> scope \<Rightarrow> word list
   \<Rightarrow> glossary_entry list \<Rightarrow> (thrown + word list) \<times> glossary_entry list" where
  "addWordsRepo races now u sc ws c =
     (if uniq ws = [] then (Inr [], c)
      else addWordsToScopeWithRetry MAX_SCOPE_UPSERT_ATTEMPTS races now u sc (uniq ws) c)"

definition bridge_id_char :: "char \<Rightarrow> bool" where
  "bridge_id_char c = (let n = (of_char c :: nat) in
     (65 \<le> n \<and> n \<le> 90) \<or> (97 \<le> n \<and> n \<le> 122) \<or> (48 \<le> n \<and> n \<le> 57) \<or> n = 95 \<or> n = 45)"

definition bridgeIdSchema :: "string \<Rightarrow> bool" where
  "bridgeIdSchema s \<longleftrightarrow> take 3 s = ''br_'' \<and> 8 \<le> length (drop 3 s) \<and> length (drop 3 s) \<le> 32 \<and>
     list_all bridge_id_char (drop 3 s)"

definition findBridgeLocalOwnerIdsByUser :: "string \<Rightarrow> glossary_entry list \<Rightarrow> api_error + string list" where
  "findBridgeLocalOwnerIdsByUser u c =
     (let values = remdups (concat (map (\<lambda>e. case scope_bridge (ge_scope e) of None \<Rightarrow> [] | Some b \<Rightarrow> [b])
                     (filter (\<lambda>e. ge_userId e = u) c)))
      in if list_all bridgeIdSchema values then Inr values else Inl InternalServerError)"

definition deleteByUserAndBridges :: "string \<Rightarrow> string list \<Rightarrow> glossary_entry list \<Rightarrow> glossary_entry list" where
  "deleteByUserAndBridges u bs c =
     (if bs = [] then c
      else filter (\<lambda>e. \<not> (ge_userId e = u \<and> (case scope_bridge (ge_scope e) of None \<Rightarrow> False | Some b \<Rightarrow> b \<in> set bs))) c)"

definition deleteByUserAndBridge :: "string \<Rightarrow> string \<Rightarrow> glossary_entry list \<Rightarrow> glossary_entry list" where
  "deleteByUserAndBridge u b c = deleteByUserAndBridges u [b] c"

fun deleteFirst :: "('d \<Rightarrow> bool) \<Rightarrow> 'd list \<Rightarrow> 'd list" where
  "deleteFirst p [] = []"
| "deleteFirst p (d # c) = (if p d then c else d # deleteFirst p c)"

definition removeWordsRepo ::
  "(glossary_entry list \<Rightarrow> glossary_entry list) \<Rightarrow> millis \<Rightarrow> string \<Rightarrow> scope \<Rightarrow> word list
   \<Rightarrow> glossary_entry list \<Rightarrow> nat \<times> glossary_entry list" where
  \<comment> \<open>\<open>env\<close> runs between the removal and the deletion of an emptied document\<close>
  "removeWordsRepo env now u sc ws c =
     (let requested = uniq ws in
      if requested = [] then (0, c)
      else case findOneAndUpdate (\<lambda>e. in_scope u sc e \<and> (\<exists>w \<in> set requested. w \<in> set (ge_words e)))
             (\<lambda>e. e\<lparr>ge_words := filter (\<lambda>w. w \<notin> set requested) (ge_words e), ge_updatedAt := now\<rparr>) c of
           (None, c') \<Rightarrow> (0, deleteFirst (\<lambda>e. in_scope u sc e \<and> ge_words e = []) (env c'))
         | (Some (before, _), c') \<Rightarrow>
             (length (filter (\<lambda>w. w \<in> set (ge_words before)) requested),
              deleteFirst (\<lambda>e. in_scope u sc e \<and> ge_words e = []) (env c')))"

section \<open>The service\<close>

definition maxWordsPerRequest :: nat where "maxWordsPerRequest = 100"
definition maxWordsPerProject :: int where "maxWordsPerProject = 500"
definition maxWordsPerUser :: int where "maxWordsPerUser = 20000"
definition maxWordCharacters :: nat where "maxWordCharacters = 200"
definition maxContextCharacters :: nat where "maxContextCharacters = 8000"

definition white_space :: "nat \<Rightarrow> bool" where
  \<comment> \<open>the white space and line terminators that \<open>trim\<close> removes\<close>
  "white_space n \<longleftrightarrow> (9 \<le> n \<and> n \<le> 13) \<or> n = 32 \<or> n = 160 \<or> n = 5760 \<or> (8192 \<le> n \<and> n \<le> 8202) \<or>
     n = 8232 \<or> n = 8233 \<or> n = 8239 \<or> n = 8287 \<or> n = 12288 \<or> n = 65279"

definition trim :: "word \<Rightarrow> word" where
  "trim w = rev (dropWhile white_space (rev (dropWhile white_space w)))"

definition uniqueWords :: "word list \<Rightarrow> api_error + word list" where
  "uniqueWords ws =
     (if maxWordsPerRequest < length ws then Inl BadRequestError
      else let normalized = map trim ws in
        if list_ex (\<lambda>w. w = [] \<or> maxWordCharacters < length w) normalized then Inl BadRequestError
        else Inr (uniq normalized))"

definition active_scope :: "(string \<Rightarrow> string option) \<Rightarrow> string \<Rightarrow> scope \<Rightarrow> bridge list \<Rightarrow> bool" where
  \<comment> \<open>a bridge-local scope needs a live bridge of the user\<close>
  "active_scope oid userId sc bs =
     (case scope_bridge sc of None \<Rightarrow> True | Some b \<Rightarrow> findByIdForUser oid b userId bs \<noteq> None)"

definition remaining_capacity :: "string \<Rightarrow> scope \<Rightarrow> glossary_entry list \<Rightarrow> nat" where
  "remaining_capacity u sc c =
     nat (max 0 (min (maxWordsPerProject - int (countByUserAndProject u (scope_project sc) c))
                     (maxWordsPerUser - int (countScopedByUserId u c))))"

definition addWords ::
  "(string \<Rightarrow> string option) \<Rightarrow> bridge list \<Rightarrow> bridge list
   \<Rightarrow> (glossary_entry list \<Rightarrow> glossary_entry list) \<Rightarrow> (glossary_entry list \<Rightarrow> glossary_entry list) list
   \<Rightarrow> (glossary_entry list \<Rightarrow> glossary_entry list) \<Rightarrow> millis \<Rightarrow> string \<Rightarrow> string \<Rightarrow> scope \<Rightarrow> word list
   \<Rightarrow> glossary_entry list \<Rightarrow> (thrown + word list) \<times> glossary_entry list" where
  \<comment> \<open>\<open>bs0\<close> and \<open>bs1\<close> are the bridges at the two ownership checks; \<open>env0\<close>, the races and
     \<open>env1\<close> are what other requests do to the glossary before the write, during it
     and before the second check\<close>
  "addWords oid bs0 bs1 env0 races env1 now userId u sc ws c =
     (case uniqueWords ws of
        Inl e \<Rightarrow> (Inl (Api e), c)
      | Inr requested \<Rightarrow>
          if \<not> active_scope oid userId sc bs0 then (Inl (Api BadRequestError), c)
          else
            let existing = findWordsByUserAndScope u sc c;
                candidates = filter (\<lambda>w. w \<notin> set existing) requested;
                (r, c1) = addWordsRepo races now u sc (take (remaining_capacity u sc c) candidates) (env0 c)
            in (case r of
                  Inl e \<Rightarrow> (Inl e, c1)
                | Inr added \<Rightarrow>
                    if \<not> active_scope oid userId sc bs1
                    then (Inl (Api BadRequestError),
                          case scope_bridge sc of None \<Rightarrow> env1 c1 | Some b \<Rightarrow> deleteByUserAndBridge u b (env1 c1))
                    else (Inr added, env1 c1)))"

definition removeWords ::
  "(string \<Rightarrow> string option) \<Rightarrow> bridge list \<Rightarrow> (glossary_entry list \<Rightarrow> glossary_entry list) \<Rightarrow> millis
   \<Rightarrow> string \<Rightarrow> string \<Rightarrow> scope \<Rightarrow> word list \<Rightarrow> glossary_entry list
   \<Rightarrow> (api_error + nat) \<times> glossary_entry list" where
  "removeWords oid bs env now userId u sc ws c =
     (case uniqueWords ws of
        Inl e \<Rightarrow> (Inl e, c)
      | Inr requested \<Rightarrow>
          if \<not> active_scope oid userId sc bs then (Inl BadRequestError, c)
          else apfst Inr (removeWordsRepo env now u sc requested c))"

section \<open>The transcription context\<close>

definition TRANSCRIPTION_PROMPT_PREFIX :: word where
  "TRANSCRIPTION_PROMPT_PREFIX = map of_char ''The following terms may appear in the audio: ''"

definition TRANSCRIPTION_PROMPT_SUFFIX :: word where
  "TRANSCRIPTION_PROMPT_SUFFIX = map of_char ''.''"

fun join_words :: "word list \<Rightarrow> word" where
  "join_words [] = []"
| "join_words [w] = w"
| "join_words (w # v # ws) = w @ [44, 32] @ join_words (v # ws)"

definition renderTranscriptionPrompt :: "word list \<Rightarrow> word option" where
  "renderTranscriptionPrompt terms =
     (if terms = [] then None
      else Some (TRANSCRIPTION_PROMPT_PREFIX @ join_words terms @ TRANSCRIPTION_PROMPT_SUFFIX))"

fun fill_context :: "nat \<Rightarrow> nat \<Rightarrow> bool \<Rightarrow> word list \<Rightarrow> word list" where
  \<comment> \<open>the loop: the length so far and whether the context is still empty\<close>
  "fill_context budget len first [] = []"
| "fill_context budget len first (w # ws) =
     (let nextLength = len + (if first then 0 else 2) + length w in
      if budget < nextLength then [] else w # fill_context budget nextLength False ws)"

definition context_budget :: nat where
  "context_budget = maxContextCharacters - length TRANSCRIPTION_PROMPT_PREFIX - length TRANSCRIPTION_PROMPT_SUFFIX"

definition getContextWords :: "string \<Rightarrow> project_key option \<Rightarrow> glossary_entry list \<Rightarrow> word list" where
  "getContextWords u p c =
     (case p of None \<Rightarrow> []
      | Some k \<Rightarrow> fill_context context_budget 0 True (sortWords (findWordsByUserAndProject u k c)))"

end
