(* ===== verification/BridgeService.thy ===== *)
theory BridgeService
  imports Glossary BridgeTracker
begin

text \<open>
  \<open>src/services/bridge-service.ts\<close>: registration with its cap, revocation, status
  reports.  The service works on three states: the bridges collection, the
  glossary and the tracker.  Where a method awaits, \<open>env\<close> is what other requests
  do in between (indexed by the await).
\<close>

definition MAX_ACTIVE_BRIDGES_PER_USER :: nat where
  "MAX_ACTIVE_BRIDGES_PER_USER = 50"

definition displayName :: "string \<Rightarrow> string option \<Rightarrow> string" where
  "displayName name nick = (case nick of None \<Rightarrow> name | Some n \<Rightarrow> n)"

record bridge_summary =
  bs_id :: string
  bs_name :: string
  bs_hostname :: string
  bs_addedAt :: millis
  bs_lastSeenAt :: "millis option"
  bs_platform :: bridge_platform
  bs_status :: bridge_status
  bs_kind :: "bridge_kind option"

definition toSummary :: "bridge \<Rightarrow> bridge_summary" where
  "toSummary b =
     \<lparr>bs_id = br_bridgeId b, bs_name = displayName (br_name b) (br_nickname b), bs_hostname = br_name b,
      bs_addedAt = br_addedAt b, bs_lastSeenAt = br_lastSeenAt b, bs_platform = br_platform b,
      bs_status = br_status b, bs_kind = br_kind b\<rparr>"

section \<open>Registration\<close>

definition ranked :: "bridge list \<Rightarrow> bridge list" where
  \<comment> \<open>by \<open>addedAt\<close>, then by bridge id\<close>
  "ranked bs = sort_key br_addedAt (sort_key br_bridgeId bs)"

definition rerank ::
  "(string \<Rightarrow> string option) \<Rightarrow> (bridge list \<Rightarrow> bridge list) \<Rightarrow> millis \<Rightarrow> string \<Rightarrow> bridge \<Rightarrow> bridge list
   \<Rightarrow> (thrown + bridge_summary \<times> bool) \<times> bridge list" where
  \<comment> \<open>what \<open>registerForUser\<close> does after the insert\<close>
  "rerank oid env now userId b c =
     (let after = findByUserId oid userId c in
      if MAX_ACTIVE_BRIDGES_PER_USER < length after \<and>
         list_ex (\<lambda>x. br_bridgeId x = br_bridgeId b) (drop MAX_ACTIVE_BRIDGES_PER_USER (ranked after))
      then (Inl (Api BadRequestError), snd (revoke oid (br_bridgeId b) userId now (env c)))
      else (Inr (toSummary b, True), c))"

definition registerForUser ::
  "(string \<Rightarrow> string option) \<Rightarrow> (nat \<Rightarrow> bridge list \<Rightarrow> bridge list) \<Rightarrow> millis \<Rightarrow> string \<Rightarrow> string
   \<Rightarrow> register_input \<Rightarrow> string option \<Rightarrow> bridge list
   \<Rightarrow> (thrown + bridge_summary \<times> bool) \<times> bridge list" where
  "registerForUser oid env now newId userId i bridgeId c =
     (let (r1, c1) = (case truthy_key bridgeId of
            Some k \<Rightarrow> updateForUser oid now k userId i c | None \<Rightarrow> (None, c)) in
      case r1 of Some b \<Rightarrow> (Inr (toSummary b, False), c1)
      | None \<Rightarrow>
          let (r2, c2) = (case truthy_key (ri_hostKey i) of
                Some k \<Rightarrow> updateByHostKeyForUser oid now k userId i (env 0 c1) | None \<Rightarrow> (None, c1)) in
          case r2 of Some b \<Rightarrow> (Inr (toSummary b, False), c2)
          | None \<Rightarrow>
              let c3 = env 1 c2 in
              if MAX_ACTIVE_BRIDGES_PER_USER \<le> length (findByUserId oid userId c3)
              then (Inl (Api BadRequestError), c3)
              else (case register oid now newId userId i (env 2 c3) of
                 Inl e \<Rightarrow> (Inl e, env 2 c3)
               | Inr (b, c4) \<Rightarrow> rerank oid (env 4) now userId b (env 3 c4)))"

definition listForUser :: "(string \<Rightarrow> string option) \<Rightarrow> string \<Rightarrow> bridge list \<Rightarrow> bridge_summary list" where
  "listForUser oid userId c = map toSummary (findByUserId oid userId c)"

definition renameForUser ::
  "(string \<Rightarrow> string option) \<Rightarrow> millis \<Rightarrow> string \<Rightarrow> string \<Rightarrow> string option \<Rightarrow> bridge list
   \<Rightarrow> (api_error + bridge_summary) \<times> bridge list" where
  "renameForUser oid now userId bridgeId nick c =
     apfst (\<lambda>r. case r of None \<Rightarrow> Inl NotFoundError | Some b \<Rightarrow> Inr (toSummary b))
       (setNicknameForUser oid now bridgeId userId nick c)"

section \<open>Revocation\<close>

record system =
  sy_bridges :: "bridge list"
  sy_glossary :: "glossary_entry list"
  sy_tracker :: tracker

definition revokeForUser ::
  "(string \<Rightarrow> string option) \<Rightarrow> (system \<Rightarrow> system) \<Rightarrow> millis \<Rightarrow> string \<Rightarrow> string \<Rightarrow> system \<Rightarrow> (thrown + bool) \<times> system" where
  \<comment> \<open>\<open>env\<close> runs between the revocation and the cleanup of the glossary\<close>
  "revokeForUser oid env now userId bridgeId s =
     (let (revoked, bs) = revoke oid bridgeId userId now (sy_bridges s);
          s1 = s\<lparr>sy_bridges := bs\<rparr>;
          s2 = (if revoked then s1\<lparr>sy_tracker := cancelPendingForBridge userId bridgeId (sy_tracker s1)\<rparr> else s1);
          s3 = env s2
      in case oid userId of
           None \<Rightarrow> (Inl Unknown, s3)
         | Some u \<Rightarrow> (Inr revoked, s3\<lparr>sy_glossary := deleteByUserAndBridge u bridgeId (sy_glossary s3)\<rparr>))"

definition revokeAllBridges ::
  "(string \<Rightarrow> string option) \<Rightarrow> (bridge list \<Rightarrow> bridge list) \<Rightarrow> (nat \<Rightarrow> system \<Rightarrow> system) \<Rightarrow> millis \<Rightarrow> string
   \<Rightarrow> system \<Rightarrow> (thrown + unit) \<times> system" where
  \<comment> \<open>\<open>BridgeService.revokeAllForUser\<close>\<close>
  "revokeAllBridges oid env0 env now userId s =
     (let (flipped, bs) = revokeAllForUser oid env0 userId now (sy_bridges s);
          s1 = s\<lparr>sy_bridges := bs,
                 sy_tracker := fold (\<lambda>b. cancelPendingForBridge userId (br_bridgeId b)) flipped (sy_tracker s)\<rparr>;
          s2 = env 0 s1
      in case oid userId of
           None \<Rightarrow> (Inl Unknown, s2)
         | Some u \<Rightarrow>
             (case findBridgeLocalOwnerIdsByUser u (sy_glossary s2) of
                Inl e \<Rightarrow> (Inl (Api e), s2)
              | Inr candidates \<Rightarrow>
                  let s3 = env 1 s2;
                      revokedIds = findRevokedIdsForUser oid userId candidates (sy_bridges s3);
                      s4 = env 2 s3
                  in (Inr (), s4\<lparr>sy_glossary := deleteByUserAndBridges u revokedIds (sy_glossary s4)\<rparr>)))"

section \<open>Status reports\<close>

definition recordStatusReport ::
  "(string \<Rightarrow> string option) \<Rightarrow> millis \<Rightarrow> millis \<Rightarrow> string \<Rightarrow> string \<Rightarrow> bridge_status \<Rightarrow> millis \<Rightarrow> policy
   \<Rightarrow> string option \<Rightarrow> bool \<Rightarrow> system \<Rightarrow> bool \<times> system" where
  "recordStatusReport oid cons norm bridgeId userId st at pol conn policyOnly s =
     (let (r, bs) = recordStatusChange oid bridgeId userId st at (sy_bridges s);
          s1 = s\<lparr>sy_bridges := bs\<rparr>
      in case r of
           None \<Rightarrow> (False, s1)
         | Some x \<Rightarrow>
             if \<not> sr_updated x then (True, s1)
             else if sr_statusChanged x \<or> policyOnly
             then (True, s1\<lparr>sy_tracker := handleStatusChangeForBridge cons norm userId bridgeId st pol conn
                     (displayName (sr_name x) (sr_nickname x)) (sy_tracker s1)\<rparr>)
             else (True, s1))"

definition recordConnectionObservation ::
  "(string \<Rightarrow> string option) \<Rightarrow> string \<Rightarrow> string \<Rightarrow> string \<Rightarrow> string \<Rightarrow> system \<Rightarrow> bool \<times> system" where
  "recordConnectionObservation oid bridgeId userId conn deviceId s =
     (case findByIdForUser oid bridgeId userId (sy_bridges s) of
        None \<Rightarrow> (False, s)
      | Some _ \<Rightarrow> (True, s\<lparr>sy_tracker := markConnectionObserved userId bridgeId conn deviceId (sy_tracker s)\<rparr>))"

end
