(* ===== verification/BridgeServiceProps.thy ===== *)
theory BridgeServiceProps
  imports BridgeService "HOL-Library.Multiset"
begin

text \<open>
  Properties of the bridge service: the cap on a burst of registrations, the
  idempotence of registration, the convergence of status reports that arrive in
  any order, and what revocation clears.
\<close>

section \<open>The ranking\<close>

definition earlier :: "bridge \<Rightarrow> bridge \<Rightarrow> bool" where
  \<comment> \<open>the order of the re-ranking\<close>
  "earlier a b \<longleftrightarrow> br_addedAt a < br_addedAt b \<or> (br_addedAt a = br_addedAt b \<and> br_bridgeId a < br_bridgeId b)"

lemma earlier_irrefl [simp]: "\<not> earlier a a"
  by (simp add: earlier_def)

lemma earlier_trans: "earlier a b \<Longrightarrow> earlier b c \<Longrightarrow> earlier a c"
  by (auto simp: earlier_def)

lemma earlier_total: "br_bridgeId a \<noteq> br_bridgeId b \<Longrightarrow> earlier a b \<or> earlier b a"
  by (auto simp: earlier_def)

lemma sorted_wrt_by_classes:
  assumes "sorted_wrt (\<lambda>x y. f x \<le> f y) xs" and "\<And>k. sorted_wrt r (filter (\<lambda>x. f x = k) xs)"
  shows "sorted_wrt (\<lambda>x y. f x < f y \<or> (f x = (f y :: 'k::linorder) \<and> r x y)) xs"
  using assms
proof (induction xs)
  case (Cons x xs)
  have "sorted_wrt r (filter (\<lambda>y. f y = k) xs)" for k
    using Cons.prems(2) [of k] by (simp split: if_splits)
  moreover have "f x < f y \<or> (f x = f y \<and> r x y)" if "y \<in> set xs" for y
    using Cons.prems(1) Cons.prems(2) [of "f x"] that by fastforce
  ultimately show ?case using Cons by simp
qed simp

lemma ranked_set [simp]: "set (ranked bs) = set bs"
  by (simp add: ranked_def)

lemma ranked_length [simp]: "length (ranked bs) = length bs"
  by (simp add: ranked_def)

lemma ranked_earlier:
  assumes "distinct (map br_bridgeId bs)"
  shows "sorted_wrt earlier (ranked bs)"
proof -
  let ?s = "sort_key br_bridgeId bs"
  have "sorted_wrt (<) (map br_bridgeId ?s)"
    using assms by (simp add: strict_sorted_iff) (metis mset_map mset_sort mset_eq_imp_distinct_iff)
  then have ids: "sorted_wrt (\<lambda>a b. br_bridgeId a < br_bridgeId b) ?s" by (simp add: sorted_wrt_map)
  have "sorted_wrt (\<lambda>a b. br_addedAt a \<le> br_addedAt b) (ranked bs)"
    using sorted_sort_key [of br_addedAt ?s] by (simp add: ranked_def sorted_wrt_map)
  moreover have "sorted_wrt (\<lambda>a b. br_bridgeId a < br_bridgeId b) (filter (\<lambda>b. br_addedAt b = k) (ranked bs))" for k
    unfolding ranked_def sort_key_stable by (rule sorted_wrt_filter [OF ids])
  ultimately show ?thesis unfolding earlier_def [abs_def] by (rule sorted_wrt_by_classes)
qed

lemma sorted_drop_iff:
  assumes "sorted_wrt r xs" and "x \<in> set xs" and "\<And>a. \<not> r a a" and "\<And>a b. r a b \<Longrightarrow> \<not> r b a"
  shows "x \<in> set (drop n xs) \<longleftrightarrow> n \<le> length (filter (\<lambda>y. r y x) xs)"
  using assms(1,2)
proof (induction xs arbitrary: n)
  case (Cons a xs)
  have later: "filter (\<lambda>y. r y a) xs = []"
    using Cons.prems(1) assms(4) by (auto simp: filter_empty_conv)
  show ?case
  proof (cases n)
    case 0
    then show ?thesis using Cons.prems(2) by simp
  next
    case (Suc m)
    show ?thesis
    proof (cases "x \<in> set xs")
      case True
      then have "r a x" using Cons.prems(1) by simp
      with Cons.IH [of m] Cons.prems(1) True Suc show ?thesis by simp
    next
      case False
      then have "x = a" using Cons.prems(2) by simp
      moreover have "x \<notin> set (drop m xs)" using False in_set_dropD by metis
      ultimately show ?thesis using later assms(3) Suc by simp
    qed
  qed
qed simp

definition overflows :: "bridge list \<Rightarrow> bridge \<Rightarrow> bool" where
  \<comment> \<open>at least fifty live bridges rank before this one\<close>
  "overflows live b \<longleftrightarrow> MAX_ACTIVE_BRIDGES_PER_USER \<le> length (filter (\<lambda>x. earlier x b) live)"

lemma filter_ranked_length: "length (filter p (ranked bs)) = length (filter p bs)"
proof -
  have "mset (ranked bs) = mset bs" by (simp add: ranked_def)
  then show ?thesis by (metis mset_filter size_mset)
qed

lemma overflow_iff:
  assumes "distinct (map br_bridgeId live)" and "b \<in> set live"
  shows "MAX_ACTIVE_BRIDGES_PER_USER < length live \<and>
       list_ex (\<lambda>x. br_bridgeId x = br_bridgeId b) (drop MAX_ACTIVE_BRIDGES_PER_USER (ranked live))
     \<longleftrightarrow> overflows live b"
proof -
  have id: "x \<in> set live \<Longrightarrow> br_bridgeId x = br_bridgeId b \<longleftrightarrow> x = b" for x
    using assms by (metis findOne_unique option.inject)
  have "list_ex (\<lambda>x. br_bridgeId x = br_bridgeId b) (drop MAX_ACTIVE_BRIDGES_PER_USER (ranked live)) \<longleftrightarrow>
      b \<in> set (drop MAX_ACTIVE_BRIDGES_PER_USER (ranked live))"
    using id in_set_dropD by (force simp: list_ex_iff)
  also have "\<dots> \<longleftrightarrow> overflows live b"
    using sorted_drop_iff [OF ranked_earlier [OF assms(1)], of b MAX_ACTIVE_BRIDGES_PER_USER] assms(2)
    by (simp add: overflows_def filter_ranked_length) (metis earlier_irrefl earlier_trans)
  finally have drop: "list_ex (\<lambda>x. br_bridgeId x = br_bridgeId b) (drop MAX_ACTIVE_BRIDGES_PER_USER (ranked live)) \<longleftrightarrow>
      overflows live b" .
  have "length (filter (\<lambda>x. earlier x b) live) < length live"
    using assms(2) by (rule length_filter_less) simp
  then show ?thesis using drop by (auto simp: overflows_def)
qed

lemma length_filter_mono:
  "(\<And>x. x \<in> set xs \<Longrightarrow> p x \<Longrightarrow> q x) \<Longrightarrow> length (filter p xs) \<le> length (filter q xs)"
  by (induction xs) (auto simp: le_Suc_eq)

section \<open>A burst of registrations\<close>

text \<open>Registrations that arrive together all pass the first count and all insert; then
  each one re-ranks, in any order.\<close>

definition rerank_all ::
  "(string \<Rightarrow> string option) \<Rightarrow> millis \<Rightarrow> string \<Rightarrow> bridge list \<Rightarrow> bridge list \<Rightarrow> bridge list" where
  "rerank_all oid now userId bs c = fold (\<lambda>b c. snd (rerank oid id now userId b c)) bs c"

lemma live_after_revoke:
  assumes "distinct (map br_bridgeId c)" and "b \<in> set c" and "owned_live u b"
  shows "filter (owned_live u) (updateFirst (\<lambda>x. br_bridgeId x = br_bridgeId b \<and> owned_live u x) (revoke_update at) c)
    = filter (\<lambda>x. x \<noteq> b) (filter (owned_live u) c)"
  using assms(1,2)
proof (induction c)
  case (Cons d c)
  show ?case
  proof (cases "d = b")
    case True
    then have "b \<notin> set c" using Cons.prems(1) by auto
    then have "filter (\<lambda>x. x \<noteq> b) (filter (owned_live u) c) = filter (owned_live u) c"
      unfolding filter_filter by (auto intro!: filter_cong)
    moreover have "\<not> owned_live u (revoke_update at b)" by (simp add: owned_live_def revoke_update_def)
    ultimately show ?thesis using True assms(3) by simp
  next
    case False
    then have "br_bridgeId d \<noteq> br_bridgeId b" using Cons.prems by auto
    with Cons False show ?thesis by simp
  qed
qed simp

lemma kept_first:
  assumes "distinct (map br_bridgeId live)" and "b \<in> set live"
    and "\<And>x. x \<in> set live \<Longrightarrow> \<not> overflows live x \<Longrightarrow> keep x"
  shows "overflows (filter keep live) b \<longleftrightarrow> overflows live b"
proof
  show "overflows (filter keep live) b \<Longrightarrow> overflows live b"
    using length_filter_mono [of live "\<lambda>x. keep x \<and> earlier x b" "\<lambda>x. earlier x b"]
    by (simp add: overflows_def)
  assume over: "overflows live b"
  let ?n = MAX_ACTIVE_BRIDGES_PER_USER and ?r = "ranked live"
  note s = ranked_earlier [OF assms(1)]
  have asym: "earlier x y \<Longrightarrow> \<not> earlier y x" for x y by (metis earlier_irrefl earlier_trans)
  have pos: "x \<in> set live \<Longrightarrow> x \<in> set (drop ?n ?r) \<longleftrightarrow> overflows live x" for x
    using sorted_drop_iff [OF s, of x ?n] asym by (simp add: overflows_def filter_ranked_length)
  have in_drop: "b \<in> set (drop ?n ?r)" using pos assms(2) over by simp
  have app: "sorted_wrt earlier (take ?n ?r @ drop ?n ?r)" using s by simp
  have good: "keep x \<and> earlier x b" if x: "x \<in> set (take ?n ?r)" for x
  proof
    have "x \<in> set live" using in_set_takeD [OF x] by simp
    moreover have "x \<notin> set (drop ?n ?r)"
      using app x unfolding sorted_wrt_append by (metis earlier_irrefl)
    ultimately show "keep x" using assms(3) pos by blast
    show "earlier x b" using app x in_drop unfolding sorted_wrt_append by blast
  qed
  have "?n < length ?r" using in_drop by (metis drop_all empty_iff empty_set not_le)
  then have "?n = length (filter (\<lambda>x. keep x \<and> earlier x b) (take ?n ?r))"
    using good by (simp add: filter_id_conv [THEN iffD2])
  also have "\<dots> \<le> length (filter (\<lambda>x. keep x \<and> earlier x b) (take ?n ?r @ drop ?n ?r))"
    unfolding filter_append by simp
  also have "\<dots> = length (filter (\<lambda>x. keep x \<and> earlier x b) live)"
    unfolding append_take_drop_id by (rule filter_ranked_length)
  finally show "overflows (filter keep live) b" by (simp add: overflows_def conj_commute)
qed

lemma rerank_effect:
  assumes "oid userId = Some u" and "distinct (map br_bridgeId c)" and "live = filter (owned_live u) c"
    and "b \<in> set live"
  shows "fst (rerank oid id now userId b c) =
       (if overflows live b then Inl (Api BadRequestError) else Inr (toSummary b, True))"
    and "filter (owned_live u) (snd (rerank oid id now userId b c)) =
       filter (\<lambda>x. \<not> (x = b \<and> overflows live b)) live"
    and "map br_bridgeId (snd (rerank oid id now userId b c)) = map br_bridgeId c"
proof -
  have d: "distinct (map br_bridgeId live)" using assms(2,3) by (simp add: distinct_map_filter)
  note over = overflow_iff [OF d assms(4)]
  have find: "findByUserId oid userId c = live" using assms(1,3) by (simp add: findByUserId_def)
  show "fst (rerank oid id now userId b c) =
       (if overflows live b then Inl (Api BadRequestError) else Inr (toSummary b, True))"
    using over by (simp add: rerank_def find)
  have revoked: "snd (revoke oid (br_bridgeId b) userId now c) =
      updateFirst (\<lambda>x. br_bridgeId x = br_bridgeId b \<and> owned_live u x) (revoke_update now) c"
    using assms(1) by (simp add: revoke_def snd_findOneAndUpdate split_def)
  have res: "snd (rerank oid id now userId b c) = (if overflows live b then
      updateFirst (\<lambda>x. br_bridgeId x = br_bridgeId b \<and> owned_live u x) (revoke_update now) c else c)"
    using over by (simp add: rerank_def find revoked)
  show "filter (owned_live u) (snd (rerank oid id now userId b c)) =
       filter (\<lambda>x. \<not> (x = b \<and> overflows live b)) live"
    using live_after_revoke [OF assms(2), of b u now] assms(3,4) by (simp add: res)
  show "map br_bridgeId (snd (rerank oid id now userId b c)) = map br_bridgeId c"
    by (simp add: res map_updateFirst revoke_update_def)
qed

lemma rerank_all_effect:
  assumes "oid userId = Some u" and "distinct (map br_bridgeId c)" and "live = filter (owned_live u) c"
    and "distinct bs" and "set bs \<subseteq> set live"
  shows "filter (owned_live u) (rerank_all oid now userId bs c) =
       filter (\<lambda>x. \<not> (x \<in> set bs \<and> overflows live x)) live \<and>
     map br_bridgeId (rerank_all oid now userId bs c) = map br_bridgeId c"
  using assms(4,5)
proof (induction bs rule: rev_induct)
  case Nil
  then show ?case by (simp add: rerank_all_def assms(3))
next
  case (snoc b bs)
  let ?c = "rerank_all oid now userId bs c" and ?keep = "\<lambda>x. \<not> (x \<in> set bs \<and> overflows live x)"
  have d: "distinct (map br_bridgeId live)" using assms(2,3) by (simp add: distinct_map_filter)
  have ih: "filter (owned_live u) ?c = filter ?keep live" "map br_bridgeId ?c = map br_bridgeId c"
    using snoc by auto
  have b: "b \<in> set (filter ?keep live)" using snoc.prems by auto
  have same: "overflows (filter ?keep live) b \<longleftrightarrow> overflows live b"
    by (rule kept_first [OF d]) (use snoc.prems in auto)
  have step: "rerank_all oid now userId (bs @ [b]) c = snd (rerank oid id now userId b ?c)"
    by (simp add: rerank_all_def)
  note eff = rerank_effect [where oid = oid and userId = userId and u = u and c = ?c and live = "filter ?keep live" and b = b and now = now]
  have "filter (owned_live u) (snd (rerank oid id now userId b ?c)) =
      filter (\<lambda>x. \<not> (x = b \<and> overflows live b)) (filter ?keep live)"
    using eff(2) ih assms(1,2) b same by simp
  also have "\<dots> = filter (\<lambda>x. \<not> (x \<in> set (bs @ [b]) \<and> overflows live x)) live"
    by (auto intro!: filter_cong)
  finally show ?case using eff(3) ih assms(1,2) b by (simp add: step)
qed

lemma old_never_overflow:
  assumes "distinct live" and "x \<in> set live" and "x \<notin> set bs"
    and "length (filter (\<lambda>x. x \<notin> set bs) live) \<le> MAX_ACTIVE_BRIDGES_PER_USER"
    and "\<And>b. b \<in> set bs \<Longrightarrow> earlier x b"
  shows "\<not> overflows live x"
proof -
  have "filter (\<lambda>y. earlier y x) live = filter (\<lambda>y. earlier y x) (filter (\<lambda>x. x \<notin> set bs) live)"
    unfolding filter_filter by (rule filter_cong [OF refl]) (metis assms(5) earlier_irrefl earlier_trans)
  moreover have "length (filter (\<lambda>y. earlier y x) (filter (\<lambda>x. x \<notin> set bs) live)) <
      length (filter (\<lambda>x. x \<notin> set bs) live)"
    by (rule length_filter_less [of x]) (use assms(2,3) in auto)
  ultimately show ?thesis using assms(4) by (simp add: overflows_def)
qed

lemma first_slots:
  assumes "distinct (map br_bridgeId live)"
  defines "n \<equiv> MAX_ACTIVE_BRIDGES_PER_USER"
  shows "x \<in> set live \<Longrightarrow> \<not> overflows live x \<longleftrightarrow> x \<in> set (take n (ranked live))"
    and "set (take n (ranked live)) \<subseteq> set live" and "distinct (take n (ranked live))"
proof -
  have dist: "distinct (take n (ranked live) @ drop n (ranked live))"
    using assms(1) by (simp add: ranked_def distinct_map)
  have split: "set (take n (ranked live)) \<union> set (drop n (ranked live)) = set live"
    by (metis append_take_drop_id ranked_set set_append)
  show "set (take n (ranked live)) \<subseteq> set live" "distinct (take n (ranked live))"
    using split dist by auto
  assume x: "x \<in> set live"
  have "overflows live x \<longleftrightarrow> x \<in> set (drop n (ranked live))"
    using sorted_drop_iff [OF ranked_earlier [OF assms(1)], of x n] x
    by (simp add: overflows_def filter_ranked_length n_def) (metis earlier_irrefl earlier_trans)
  with x dist split show "\<not> overflows live x \<longleftrightarrow> x \<in> set (take n (ranked live))"
    unfolding distinct_append by blast
qed

lemma burst_answer:
  assumes "oid userId = Some u" and "distinct (map br_bridgeId c)" and "live = filter (owned_live u) c"
    and "distinct (pre @ b # post)" and "set (pre @ b # post) \<subseteq> set live"
  shows "fst (rerank oid id now userId b (rerank_all oid now userId pre c)) =
     (if overflows live b then Inl (Api BadRequestError) else Inr (toSummary b, True))"
proof -
  have d: "distinct (map br_bridgeId live)" using assms(2,3) by (simp add: distinct_map_filter)
  have eff: "filter (owned_live u) (rerank_all oid now userId pre c) =
      filter (\<lambda>x. \<not> (x \<in> set pre \<and> overflows live x)) live"
      "map br_bridgeId (rerank_all oid now userId pre c) = map br_bridgeId c"
    using rerank_all_effect [where oid = oid and userId = userId and now = now, OF assms(1-3), of pre] assms(4,5)
    by auto
  have b: "b \<in> set live" "b \<notin> set pre" using assms(4,5) by auto
  have "overflows (filter (\<lambda>x. \<not> (x \<in> set pre \<and> overflows live x)) live) b \<longleftrightarrow> overflows live b"
    by (rule kept_first [OF d b(1)]) auto
  then show ?thesis
    using rerank_effect(1) [where oid = oid and userId = userId and b = b and now = now,
        OF assms(1) _ eff(1) [symmetric]] eff(2) assms(2) b by simp
qed

text \<open>C10: The cap holds through a burst.  When registrations have inserted their bridges
  beside at most fifty older ones, then, in whatever order they re-rank, exactly the
  first fifty live bridges in registration order stay live: a registration is refused
  exactly when its bridge is not among them, no older bridge loses its slot, and every
  free slot is used.\<close>
theorem burst_admits_remaining_capacity:
  assumes "oid userId = Some u" and "distinct (map br_bridgeId c)" and "live = findByUserId oid userId c"
    and "distinct bs" and "set bs \<subseteq> set live"
    and "length (filter (\<lambda>b. b \<notin> set bs) live) \<le> MAX_ACTIVE_BRIDGES_PER_USER"
    and "\<forall>a \<in> set live - set bs. \<forall>b \<in> set bs. earlier a b"
  shows "set (findByUserId oid userId (rerank_all oid now userId bs c)) =
       set (take MAX_ACTIVE_BRIDGES_PER_USER (ranked live)) \<and>
     length (findByUserId oid userId (rerank_all oid now userId bs c)) =
       min MAX_ACTIVE_BRIDGES_PER_USER (length live) \<and>
     (\<forall>pre b post. bs = pre @ b # post \<longrightarrow>
        fst (rerank oid id now userId b (rerank_all oid now userId pre c)) =
          (if b \<in> set (take MAX_ACTIVE_BRIDGES_PER_USER (ranked live))
           then Inr (toSummary b, True) else Inl (Api BadRequestError)))"
proof (intro conjI allI impI)
  let ?n = MAX_ACTIVE_BRIDGES_PER_USER and ?c = "rerank_all oid now userId bs c"
  have live: "live = filter (owned_live u) c" using assms(1,3) by (simp add: findByUserId_def)
  have d: "distinct (map br_bridgeId live)" using assms(2) by (simp add: live distinct_map_filter)
  have old: "\<not> overflows live x" if "x \<in> set live" "x \<notin> set bs" for x
    by (rule old_never_overflow [of live x bs]) (use that assms(6,7) d in \<open>auto simp: distinct_map\<close>)
  have final: "findByUserId oid userId ?c = filter (\<lambda>x. \<not> overflows live x) live"
    using rerank_all_effect [where oid = oid and userId = userId and now = now, OF assms(1,2) live assms(4,5)]
      old assms(1) by (auto simp: findByUserId_def intro!: filter_cong)
  then show set: "set (findByUserId oid userId ?c) = set (take ?n (ranked live))"
    using first_slots [OF d] by auto
  have "distinct (findByUserId oid userId ?c)" using d by (simp add: final distinct_map)
  then show "length (findByUserId oid userId ?c) = min ?n (length live)"
    using distinct_card [of "findByUserId oid userId ?c"] distinct_card [OF first_slots(3) [OF d]]
    by (simp add: set min.commute)
  show "fst (rerank oid id now userId b (rerank_all oid now userId pre c)) =
      (if b \<in> set (take ?n (ranked live)) then Inr (toSummary b, True) else Inl (Api BadRequestError))"
    if "bs = pre @ b # post" for pre b post
    using burst_answer [where oid = oid and userId = userId and now = now, OF assms(1,2) live, of pre b post]
      first_slots(1) [OF d, of b] assms(4,5) that by auto
qed

section \<open>Registering again\<close>

lemma updateForUser_live:
  assumes "distinct (map br_bridgeId c)" and "findByIdForUser oid k userId c = Some b"
  shows "updateForUser oid now k userId i c =
    (Some (registration_update now i b), updateFirst (\<lambda>x. br_bridgeId x = k) (registration_update now i) c)"
proof -
  obtain u where u: "oid userId = Some u" and f: "findOne (\<lambda>b. br_bridgeId b = k \<and> owned_live u b) c = Some b"
    using assms(2) by (auto simp: findByIdForUser_def split: option.splits)
  note b = findOne_Some [OF f]
  have "filter (\<lambda>x. br_bridgeId x = k \<and> owned_live u x) c = [b]"
    using assms(1) b by (induction c) (auto simp: filter_empty_conv image_iff)
  with b u show ?thesis by (simp add: updateForUser_def updateRegistration_def)
qed

lemma find_after_registration:
  assumes "distinct (map br_bridgeId c)" and "findByIdForUser oid k userId c = Some b"
  shows "findByIdForUser oid k userId (updateFirst (\<lambda>x. br_bridgeId x = k) (registration_update now i) c) =
    Some (registration_update now i b)"
proof -
  obtain u where u: "oid userId = Some u" and f: "findOne (\<lambda>b. br_bridgeId b = k \<and> owned_live u b) c = Some b"
    using assms(2) by (auto simp: findByIdForUser_def split: option.splits)
  have "findOne (\<lambda>b. br_bridgeId b = k \<and> owned_live u b)
      (updateFirst (\<lambda>x. br_bridgeId x = k) (registration_update now i) c) = Some (registration_update now i b)"
    using f assms(1)
  proof (induction c)
    case (Cons d c)
    show ?case
    proof (cases "br_bridgeId d = k")
      case True
      with Cons.prems(2) have "k \<notin> br_bridgeId ` set c" by auto
      then have "findOne (\<lambda>b. br_bridgeId b = k \<and> owned_live u b) c = None" by (auto simp: findOne_None)
      with True Cons.prems(1) show ?thesis
        by (auto simp: registration_update_def owned_live_def split: if_splits)
    next
      case False
      with Cons show ?thesis by simp
    qed
  qed simp
  with u show ?thesis by (simp add: findByIdForUser_def)
qed

lemma reregister:
  assumes "distinct (map br_bridgeId c)" and "findByIdForUser oid k userId c = Some b" and "k \<noteq> []"
  shows "registerForUser oid env now newId userId i (Some k) c =
    (Inr (toSummary (registration_update now i b), False),
     updateFirst (\<lambda>x. br_bridgeId x = k) (registration_update now i) c)"
  using assms(3) by (simp add: registerForUser_def truthy_key_def updateForUser_live [OF assms(1,2)])

lemma updateRegistration_finds:
  assumes "distinct (map br_bridgeId c)" and "updateRegistration oid now p userId i c = (Some b', c')"
  shows "findByIdForUser oid (br_bridgeId b') userId c' = Some b'"
proof -
  obtain u b where u: "oid userId = Some u" and b: "most_recent (filter (\<lambda>b. p b \<and> owned_live u b) c) = Some b"
    and r: "b' = registration_update now i b"
      "c' = updateFirst (\<lambda>x. br_bridgeId x = br_bridgeId b) (registration_update now i) c"
    using assms(2) by (auto simp: updateRegistration_def split: option.splits)
  have mem: "b \<in> set c" "owned_live u b" using most_recent_mem [OF b] by auto
  have "findOne (\<lambda>x. br_bridgeId x = br_bridgeId b \<and> owned_live u x) c = Some b"
    using mem assms(1) by (induction c) (auto simp: image_iff)
  then have "findByIdForUser oid (br_bridgeId b) userId c = Some b" using u by (simp add: findByIdForUser_def)
  from find_after_registration [OF assms(1) this] show ?thesis
    using r by (simp add: registration_update_def)
qed

lemma registration_is_live:
  assumes "distinct (map br_bridgeId c)"
    and "registerForUser oid (\<lambda>_. id) now newId userId i bid c = (Inr (s, created), c')"
  shows "\<exists>b. findByIdForUser oid (bs_id s) userId c' = Some b \<and> s = toSummary b"
proof -
  let ?r1 = "case truthy_key bid of Some k \<Rightarrow> updateForUser oid now k userId i c | None \<Rightarrow> (None, c)"
  let ?r2 = "case truthy_key (ri_hostKey i) of
      Some k \<Rightarrow> updateByHostKeyForUser oid now k userId i c | None \<Rightarrow> (None, c)"
  have upd: "snd (updateRegistration oid now p userId i c) = c"
    if "fst (updateRegistration oid now p userId i c) = None" for p
    using that by (auto simp: updateRegistration_def split: option.splits)
  consider (id) b where "?r1 = (Some b, c')" "s = toSummary b"
    | (key) b where "?r2 = (Some b, c')" "s = toSummary b"
    | (new) b c4 where "register oid now newId userId i c = Inr (b, c4)"
        "rerank oid id now userId b c4 = (Inr (s, created), c')"
  proof (cases "fst ?r1")
    case (Some b)
    then show ?thesis using assms(2) that(1) by (auto simp: registerForUser_def split: prod.splits)
  next
    case None
    then have r1: "?r1 = (None, c)" using upd by (auto simp: updateForUser_def prod_eq_iff split: option.splits)
    show ?thesis
    proof (cases "fst ?r2")
      case (Some b)
      then show ?thesis using assms(2) r1 that(2) unfolding registerForUser_def id_apply
        by (auto split: prod.splits)
    next
      case None
      then have "?r2 = (None, c)" using upd by (auto simp: updateByHostKeyForUser_def prod_eq_iff split: option.splits)
      then show ?thesis using assms(2) r1 that(3) unfolding registerForUser_def id_apply
        by (auto simp: Let_def split: sum.splits if_splits)
    qed
  qed
  then show ?thesis
  proof cases
    case id
    then show ?thesis using updateRegistration_finds [OF assms(1)]
      by (auto simp: updateForUser_def toSummary_def split: option.splits)
  next
    case key
    then show ?thesis using updateRegistration_finds [OF assms(1)]
      by (auto simp: updateByHostKeyForUser_def toSummary_def split: option.splits)
  next
    case new
    then have c': "c' = c4" "s = toSummary b" by (auto simp: rerank_def Let_def split: if_splits)
    from new(1) obtain u where u: "oid userId = Some u" "b = new_bridge now newId u i" "c4 = c @ [b]"
      and fresh: "\<forall>x \<in> set c. br_bridgeId x \<noteq> newId"
      by (auto simp: register_def Let_def insertOne_def new_bridge_def split: option.splits if_splits)
    have "findOne (\<lambda>x. br_bridgeId x = newId \<and> owned_live u x) c = None" using fresh by (auto simp: findOne_None)
    then show ?thesis using c' u
      by (simp add: findByIdForUser_def findOne_append toSummary_def new_bridge_def owned_live_def)
  qed
qed

text \<open>Registration is idempotent.  A registration that answered with a bridge leaves that
  bridge live, and as long as it stays live (whatever the other operations do) a client
  that registers again with its id gets the same bridge back, marked as not created,
  with the new name; no document is added.\<close>
lemma registration_idempotent:
  assumes "distinct (map br_bridgeId c)"
    and "registerForUser oid (\<lambda>_. id) now newId userId i bid c = (Inr (s, created), c1)"
    and "(bridge_step oid)\<^sup>*\<^sup>* c1 c2" and "distinct (map br_bridgeId c2)"
    and "findByIdForUser oid (bs_id s) userId c2 \<noteq> None" and "bs_id s \<noteq> []"
  shows "findByIdForUser oid (bs_id s) userId c1 \<noteq> None \<and>
    (\<exists>s' c3. registerForUser oid env now' newId' userId i' (Some (bs_id s)) c2 = (Inr (s', False), c3) \<and>
       bs_id s' = bs_id s \<and> bs_hostname s' = ri_name i' \<and>
       map br_bridgeId c3 = map br_bridgeId c2)"
proof -
  obtain b where b: "findByIdForUser oid (bs_id s) userId c1 = Some b" "s = toSummary b"
    using registration_is_live [OF assms(1,2)] by blast
  obtain b2 where b2: "findByIdForUser oid (bs_id s) userId c2 = Some b2" using assms(5) by blast
  have id2: "br_bridgeId b2 = bs_id s" "b2 \<in> set c2"
    using b2 by (auto simp: findByIdForUser_def dest: findOne_Some split: option.splits)
  then show ?thesis
    using b(1) reregister [OF assms(4) b2 assms(6)] id2
    by (auto simp: toSummary_def registration_update_def map_updateFirst)
qed

section \<open>Status reports in any order\<close>

definition report ::
  "(string \<Rightarrow> string option) \<Rightarrow> string \<Rightarrow> string \<Rightarrow> bridge_status \<times> millis \<Rightarrow> bridge list \<Rightarrow> bridge list" where
  "report oid bridgeId userId = (\<lambda>(st, at) c. snd (recordStatusChange oid bridgeId userId st at c))"

lemma report_eq:
  "report oid k userId (st, at) c = (case oid userId of None \<Rightarrow> c
     | Some u \<Rightarrow> updateFirst (\<lambda>b. br_bridgeId b = k \<and> owned_live u b) (status_update st at) c)"
  by (auto simp: report_def recordStatusChange_def Let_def findOneAndUpdate_def updateFirst_none split: option.splits)

lemma updateFirst_twice:
  "(\<And>d. p (g d) = p d) \<Longrightarrow> updateFirst p f (updateFirst p g c) = updateFirst p (f \<circ> g) c"
  by (induction c) auto

lemma status_update_keeps [simp]:
  "br_bridgeId (status_update st at b) = br_bridgeId b" "owned_live u (status_update st at b) = owned_live u b"
  by (simp_all add: status_update_def owned_live_def)

lemma status_update_commute:
  "t \<noteq> t' \<Longrightarrow> status_update st t \<circ> status_update st' t' = status_update st' t' \<circ> status_update st t"
  by (rule ext) (auto simp: status_update_def applies_def split: option.splits)

lemma report_commute:
  assumes "snd r \<noteq> snd r' \<or> r = r'"
  shows "report oid k userId r \<circ> report oid k userId r' = report oid k userId r' \<circ> report oid k userId r"
proof (cases "r = r'")
  case False
  then have "status_update (fst r) (snd r) \<circ> status_update (fst r') (snd r') =
      status_update (fst r') (snd r') \<circ> status_update (fst r) (snd r)"
    using assms status_update_commute by blast
  then show ?thesis
    by (intro ext) (cases r; cases r'; cases "oid userId"; simp add: report_eq updateFirst_twice)
qed simp

lemma report_last:
  assumes "findByIdForUser oid k userId c = Some b"
  shows "\<exists>b'. findByIdForUser oid k userId (report oid k userId (st, at) c) = Some b' \<and>
     (applies at b \<longrightarrow> br_status b' = st \<and> br_lastSeenAt b' = Some at) \<and>
     (\<not> applies at b \<longrightarrow> b' = b)"
proof -
  obtain u where u: "oid userId = Some u" and f: "findOne (\<lambda>b. br_bridgeId b = k \<and> owned_live u b) c = Some b"
    using assms by (auto simp: findByIdForUser_def split: option.splits)
  have "findOne (\<lambda>b. br_bridgeId b = k \<and> owned_live u b) (report oid k userId (st, at) c) = Some (status_update st at b)"
    using findOne_updateFirst [OF f, of "status_update st at"] findOne_Some [OF f] u by (simp add: report_eq)
  with u show ?thesis by (simp add: findByIdForUser_def status_update_def)
qed

lemma reports_older:
  assumes "findByIdForUser oid k userId c = Some b" and "applies at b" and "\<forall>r \<in> set rs. snd r < at"
  shows "\<exists>b'. findByIdForUser oid k userId (fold (report oid k userId) rs c) = Some b' \<and> applies at b'"
  using assms
proof (induction rs arbitrary: c b)
  case (Cons r rs)
  obtain b' where b': "findByIdForUser oid k userId (report oid k userId r c) = Some b'"
    "applies (snd r) b \<longrightarrow> br_lastSeenAt b' = Some (snd r)" "\<not> applies (snd r) b \<longrightarrow> b' = b"
    using report_last [OF Cons.prems(1), of "fst r" "snd r"] by auto
  then have "applies at b'" using Cons.prems(2,3) by (cases "applies (snd r) b") (auto simp: applies_def)
  from Cons.IH [OF b'(1) this] Cons.prems(3) show ?case by simp
qed simp

text \<open>C13: Status reports converge.  Reports with distinct times leave the same collection in
  whatever order they arrive, and the bridge shows the status and the time of the latest
  one, unless it had already seen a later one.\<close>
theorem status_reports_converge:
  assumes "mset rs = mset rs'" and "distinct (map snd rs)"
  shows "fold (report oid k userId) rs c = fold (report oid k userId) rs' c \<and>
    (findByIdForUser oid k userId c = Some b \<and> (st, at) \<in> set rs \<and> applies at b \<and>
       (\<forall>r \<in> set rs. snd r \<le> at) \<longrightarrow>
     (\<exists>b'. findByIdForUser oid k userId (fold (report oid k userId) rs' c) = Some b' \<and>
        br_status b' = st \<and> br_lastSeenAt b' = Some at))"
proof (intro conjI impI)
  have comm: "report oid k userId x \<circ> report oid k userId y = report oid k userId y \<circ> report oid k userId x"
    if "x \<in> set rs" "y \<in> set rs" for x y
    by (rule report_commute) (use that assms(2) in \<open>auto simp: distinct_map inj_on_def\<close>)
  have perm: "mset rs = mset zs \<Longrightarrow> fold (report oid k userId) rs c = fold (report oid k userId) zs c" for zs
    using fold_multiset_equiv [of rs "report oid k userId" zs] comm by simp
  show "fold (report oid k userId) rs c = fold (report oid k userId) rs' c" by (rule perm [OF assms(1)])
  assume h: "findByIdForUser oid k userId c = Some b \<and> (st, at) \<in> set rs \<and> applies at b \<and> (\<forall>r \<in> set rs. snd r \<le> at)"
  let ?old = "remove1 (st, at) rs"
  have "mset rs = mset (?old @ [(st, at)])" using h by simp
  then have "fold (report oid k userId) rs' c = report oid k userId (st, at) (fold (report oid k userId) ?old c)"
    using perm [of "?old @ [(st, at)]"] perm [OF assms(1)] by simp
  moreover have "\<forall>r \<in> set ?old. snd r < at"
  proof
    fix r assume r: "r \<in> set ?old"
    have "distinct rs" using assms(2) by (simp add: distinct_map)
    then have "r \<in> set rs" "r \<noteq> (st, at)" using r by auto
    then have "snd r \<noteq> at" using h assms(2) by (auto simp: distinct_map inj_on_def)
    with h \<open>r \<in> set rs\<close> show "snd r < at" using order_le_neq_trans by blast
  qed
  moreover obtain b1 where "findByIdForUser oid k userId (fold (report oid k userId) ?old c) = Some b1" "applies at b1"
    using reports_older [of oid k userId c b at ?old] h calculation(2) by blast
  ultimately show "\<exists>b'. findByIdForUser oid k userId (fold (report oid k userId) rs' c) = Some b' \<and>
      br_status b' = st \<and> br_lastSeenAt b' = Some at"
    using report_last by metis
qed

section \<open>Revocation and the glossary\<close>

definition local_rows :: "string \<Rightarrow> string \<Rightarrow> glossary_entry list \<Rightarrow> glossary_entry list" where
  "local_rows u k c = filter (\<lambda>e. ge_userId e = u \<and> scope_bridge (ge_scope e) = Some k) c"

lemma local_rows_deleted [simp]: "local_rows u k (deleteByUserAndBridge u k c) = []"
  by (auto simp: local_rows_def deleteByUserAndBridge_def deleteByUserAndBridges_def filter_empty_conv)

lemma revoke_marks:
  assumes "distinct (map br_bridgeId c)" and "revoke oid k userId at c = (True, c')"
  shows "revoked_since k c' = Some at"
proof -
  obtain u b where "findOne (\<lambda>b. br_bridgeId b = k \<and> owned_live u b) c = Some b"
    and c': "c' = updateFirst (\<lambda>b. br_bridgeId b = k \<and> owned_live u b) (revoke_update at) c"
    using assms(2) by (auto simp: revoke_def findOneAndUpdate_def split: option.splits)
  then have "findOne (\<lambda>b. br_bridgeId b = k)
      (updateFirst (\<lambda>b. br_bridgeId b = k \<and> owned_live u b) (revoke_update at) c) = Some (revoke_update at b)"
    using assms(1)
  proof (induction c arbitrary: c')
    case (Cons d c)
    show ?case
    proof (cases "br_bridgeId d = k")
      case True
      with Cons.prems(3) have "k \<notin> br_bridgeId ` set c" by auto
      then have "findOne (\<lambda>b. br_bridgeId b = k \<and> owned_live u b) c = None" by (auto simp: findOne_None)
      with True Cons.prems(1) show ?thesis by (auto simp: revoke_update_def split: if_splits)
    next
      case False
      with Cons show ?thesis by simp
    qed
  qed simp
  then show ?thesis by (simp add: c' revoked_since_def bridge_of_def revoke_update_def)
qed

lemma revoked_not_found:
  assumes "distinct (map br_bridgeId c)" and "revoked_since k c = Some t"
  shows "findByIdForUser oid k userId c = None"
proof -
  obtain b where "findOne (\<lambda>b. br_bridgeId b = k) c = Some b" "br_revokedAt b = Some t"
    using assms(2) by (auto simp: revoked_since_def bridge_of_def bind_eq_Some_conv)
  then have "findOne (\<lambda>b. br_bridgeId b = k \<and> owned_live u b) c = None" for u
    using findOne_unique [OF assms(1)] findOne_Some
    by (auto simp: findOne_None owned_live_def)
  then show ?thesis by (simp add: findByIdForUser_def split: option.split)
qed

lemma few_races_succeed:
  "length races < attempts \<Longrightarrow> \<exists>a. fst (addWordsToScopeWithRetry attempts races now u sc ws c) = Inr a"
  by (induction attempts races now u sc ws c rule: addWordsToScopeWithRetry.induct) auto

lemma addWordsRepo_succeeds:
  "length races < MAX_SCOPE_UPSERT_ATTEMPTS \<Longrightarrow> \<exists>a. fst (addWordsRepo races now u sc ws c) = Inr a"
  using few_races_succeed by (simp add: addWordsRepo_def)

lemma addWords_to_inactive:
  assumes "findByIdForUser oid k userId bs1 = None" and "length races < MAX_SCOPE_UPSERT_ATTEMPTS"
    and "addWords oid bs0 bs1 env0 races env1 now userId u (BridgeLocal p k) ws c = (r, c')"
  shows "r = Inl (Api BadRequestError) \<and> (c' = c \<or> local_rows u k c' = [])"
proof (cases "uniqueWords ws")
  case (Inl e)
  then have "e = BadRequestError" by (auto simp: uniqueWords_def Let_def split: if_splits)
  with Inl assms(3) show ?thesis by (auto simp: addWords_def)
next
  case req: (Inr requested)
  let ?add = "addWordsRepo races now u (BridgeLocal p k) (take (remaining_capacity u (BridgeLocal p k) c)
      (filter (\<lambda>w. w \<notin> set (findWordsByUserAndScope u (BridgeLocal p k) c)) requested)) (env0 c)"
  obtain a c1 where "?add = (Inr a, c1)"
    using addWordsRepo_succeeds [OF assms(2)] by (metis prod.collapse)
  with req assms(1,3) show ?thesis
    by (auto simp: addWords_def Let_def active_scope_def split: if_splits)
qed

text \<open>C16: A revoked bridge keeps no glossary.  When a revocation has succeeded, whatever other
  requests did between its two writes, the bridge has no glossary row left; and a
  request that adds words for that bridge and makes its last ownership check at any
  later moment is refused and leaves no row of the bridge, even when its write came
  after the cleanup.\<close>
theorem revocation_clears_glossary:
  assumes "distinct (map br_bridgeId (sy_bridges s))" and "oid userId = Some u"
    and "revokeForUser oid env now userId k s = (Inr True, s1)"
    and "\<And>x. (bridge_step oid)\<^sup>*\<^sup>* (sy_bridges x) (sy_bridges (env x))"
    and "(bridge_step oid)\<^sup>*\<^sup>* (sy_bridges s1) bs1" and "distinct (map br_bridgeId bs1)"
    and "length races < MAX_SCOPE_UPSERT_ATTEMPTS"
    and "addWords oid bs0 bs1 env0 races env1 now' userId u (BridgeLocal p k) ws c = (r, c')"
  shows "local_rows u k (sy_glossary s1) = [] \<and>
    r = Inl (Api BadRequestError) \<and> (c' = c \<or> local_rows u k c' = [])"
proof -
  obtain bs where rv: "revoke oid k userId now (sy_bridges s) = (True, bs)"
    and s1: "s1 = (let s3 = env (s\<lparr>sy_bridges := bs, sy_tracker := cancelPendingForBridge userId k (sy_tracker s)\<rparr>)
                   in s3\<lparr>sy_glossary := deleteByUserAndBridge u k (sy_glossary s3)\<rparr>)"
    using assms(2,3) by (auto simp: revokeForUser_def Let_def split: prod.splits)
  have "revoked_since k bs = Some now" by (rule revoke_marks [OF assms(1) rv])
  moreover have "(bridge_step oid)\<^sup>*\<^sup>* bs (sy_bridges s1)"
    using assms(4) [of "s\<lparr>sy_bridges := bs, sy_tracker := cancelPendingForBridge userId k (sy_tracker s)\<rparr>"]
    by (simp add: s1 Let_def)
  ultimately have "revoked_since k bs1 = Some now"
    using revoked.keeps_many assms(5) by (metis rtranclp_trans)
  then have "findByIdForUser oid k userId bs1 = None" by (rule revoked_not_found [OF assms(6)])
  from addWords_to_inactive [OF this assms(7,8)] show ?thesis by (simp add: s1 Let_def)
qed

section \<open>Concrete runs\<close>

definition demo_input :: register_input where
  "demo_input = \<lparr>ri_name = ''Mac'', ri_platform = BridgeMacos, ri_hostKey = None, ri_kind = None\<rparr>"

definition demo_bridge :: "millis \<Rightarrow> string \<Rightarrow> bridge" where
  "demo_bridge now k = new_bridge now k ''u'' demo_input"

lemma demo_bridge_simps [simp]:
  "br_bridgeId (demo_bridge t k) = k" "owned_live u (demo_bridge t k) = (u = ''u'')"
  "br_addedAt (demo_bridge t k) = t" "br_lastSeenAt (demo_bridge t k) = None"
  by (auto simp: demo_bridge_def new_bridge_def owned_live_def)

lemma demo_bridge_eq [simp]: "demo_bridge t k = demo_bridge t' k' \<longleftrightarrow> t = t' \<and> k = k'"
  by (auto simp: demo_bridge_def new_bridge_def)

theorem burst_admits_remaining_capacity_witness:
  "length (findByUserId Some ''u'' (rerank_all Some 9 ''u'' [demo_bridge 5 ''c'', demo_bridge 5 ''b'']
     [demo_bridge 1 ''a'', demo_bridge 5 ''b'', demo_bridge 5 ''c''])) = 3"
  using burst_admits_remaining_capacity [of Some "''u''" "''u''" "[demo_bridge 1 ''a'', demo_bridge 5 ''b'', demo_bridge 5 ''c'']"
      "[demo_bridge 1 ''a'', demo_bridge 5 ''b'', demo_bridge 5 ''c'']" "[demo_bridge 5 ''c'', demo_bridge 5 ''b'']" 9]
  by (simp add: findByUserId_def earlier_def MAX_ACTIVE_BRIDGES_PER_USER_def insert_Diff_if)

lemma registration_idempotent_witness:
  "\<exists>s' c3. registerForUser Some (\<lambda>_. id) 8 ''br_2'' ''u'' (demo_input\<lparr>ri_name := ''Mini''\<rparr>) (Some ''br_1'')
     [demo_bridge 5 ''br_1''] = (Inr (s', False), c3) \<and>
     bs_id s' = ''br_1'' \<and> bs_hostname s' = ''Mini'' \<and> map br_bridgeId c3 = [''br_1'']"
proof -
  have run: "registerForUser Some (\<lambda>_. id) 5 ''br_1'' ''u'' demo_input None [] =
      (Inr (toSummary (demo_bridge 5 ''br_1''), True), [demo_bridge 5 ''br_1''])"
    by (simp add: registerForUser_def truthy_key_def demo_input_def findByUserId_def register_def Let_def
        insertOne_def rerank_def MAX_ACTIVE_BRIDGES_PER_USER_def demo_bridge_def)
  show ?thesis
    using registration_idempotent [OF _ run rtranclp.rtrancl_refl,
        of "\<lambda>_. id" 8 "''br_2''" "demo_input\<lparr>ri_name := ''Mini''\<rparr>"]
    by (simp add: findByIdForUser_def toSummary_def)
qed

theorem status_reports_converge_witness:
  "fold (report Some ''br_1'' ''u'') [(Active, 7), (Inactive, 9)] [demo_bridge 5 ''br_1''] =
     fold (report Some ''br_1'' ''u'') [(Inactive, 9), (Active, 7)] [demo_bridge 5 ''br_1''] \<and>
   (\<exists>b'. findByIdForUser Some ''br_1'' ''u''
       (fold (report Some ''br_1'' ''u'') [(Inactive, 9), (Active, 7)] [demo_bridge 5 ''br_1'']) = Some b' \<and>
     br_status b' = Inactive \<and> br_lastSeenAt b' = Some 9)"
  using status_reports_converge [of "[(Active, 7), (Inactive, 9)]" "[(Inactive, 9), (Active, 7)]" Some "''br_1''" "''u''"
      "[demo_bridge 5 ''br_1'']" "demo_bridge 5 ''br_1''" Inactive 9]
  by (simp add: findByIdForUser_def applies_def)

theorem revocation_clears_glossary_witness:
  "local_rows ''u'' ''br_1'' (snd (addWords Some [demo_bridge 5 ''br_1'']
       [revoke_update 6 (demo_bridge 5 ''br_1'')] id [] id 7 ''u'' ''u'' (BridgeLocal ''p'' ''br_1'') [[120]] [])) = []"
proof -
  let ?s = "\<lparr>sy_bridges = [demo_bridge 5 ''br_1''], sy_glossary = [], sy_tracker = empty_tracker\<rparr>"
  let ?s1 = "\<lparr>sy_bridges = [revoke_update 6 (demo_bridge 5 ''br_1'')], sy_glossary = [], sy_tracker = empty_tracker\<rparr>"
  have rv: "revokeForUser Some id 6 ''u'' ''br_1'' ?s = (Inr True, ?s1)"
    by (simp add: revokeForUser_def revoke_def findOneAndUpdate_def Let_def cancelPendingForBridge_def
        empty_tracker_def deleteByUserAndBridge_def deleteByUserAndBridges_def)
  let ?add = "addWords Some [demo_bridge 5 ''br_1''] [revoke_update 6 (demo_bridge 5 ''br_1'')] id [] id 7
      ''u'' ''u'' (BridgeLocal ''p'' ''br_1'') [[120]] []"
  have "local_rows ''u'' ''br_1'' (sy_glossary ?s1) = [] \<and> fst ?add = Inl (Api BadRequestError) \<and>
      (snd ?add = [] \<or> local_rows ''u'' ''br_1'' (snd ?add) = [])"
    by (rule revocation_clears_glossary [OF _ _ rv])
      (auto simp: revoke_update_def MAX_SCOPE_UPSERT_ATTEMPTS_def intro: rtranclp.rtrancl_refl)
  then show ?thesis by (auto simp: local_rows_def)
qed

end
