(* ===== verification/GlossaryProps.thy ===== *)
theory GlossaryProps
  imports Glossary
begin

text \<open>
  Properties of the glossary: its capacity, what adding and removing words does to
  the listings, and the length of the transcription prompt.
\<close>

section \<open>Sets of words\<close>

lemma uniq_set [simp]: "set (uniq ws) = set ws"
  by (simp add: uniq_def)

lemma uniq_distinct [simp]: "distinct (uniq ws)"
  by (simp add: uniq_def)

lemma uniq_id [simp]: "distinct ws \<Longrightarrow> uniq ws = ws"
  by (simp add: uniq_def distinct_remdups_id)

lemma add_to_set_eq: "distinct new \<Longrightarrow> add_to_set new ws = ws @ filter (\<lambda>w. w \<notin> set ws) new"
proof (induction new arbitrary: ws)
  case Nil
  then show ?case by (simp add: add_to_set_def)
next
  case (Cons w new)
  have unfold: "add_to_set (w # new) ws = add_to_set new (if w \<in> set ws then ws else ws @ [w])"
    by (simp add: add_to_set_def)
  show ?case
  proof (cases "w \<in> set ws")
    case True
    with Cons unfold show ?thesis by simp
  next
    case False
    have "filter (\<lambda>x. x \<notin> set (ws @ [w])) new = filter (\<lambda>x. x \<notin> set ws) new"
      using Cons.prems by (auto intro!: filter_cong)
    with Cons unfold False show ?thesis by simp
  qed
qed

lemma sortWords_cong: "set ws = set vs \<Longrightarrow> sortWords ws = sortWords vs"
  by (simp add: sortWords_def flip: sorted_list_of_set_sort_remdups)

section \<open>Rows\<close>

definition one_row :: "glossary_entry list \<Rightarrow> bool" where
  \<comment> \<open>the unique index on the user and the scope\<close>
  "one_row c \<longleftrightarrow> distinct (map (\<lambda>e. (ge_userId e, ge_scope e)) c)"

definition tidy :: "glossary_entry list \<Rightarrow> bool" where
  "tidy c \<longleftrightarrow> one_row c \<and> (\<forall>e \<in> set c. distinct (ge_words e))"

definition row_words :: "string \<Rightarrow> scope \<Rightarrow> glossary_entry list \<Rightarrow> word list" where
  "row_words u sc c = (case findOne (in_scope u sc) c of None \<Rightarrow> [] | Some e \<Rightarrow> ge_words e)"

lemma listed_words: "findWordsByUserAndScope u sc c = sortWords (row_words u sc c)"
  by (simp add: findWordsByUserAndScope_def row_words_def sortWords_def split: option.split)

lemma listed_set [simp]: "set (findWordsByUserAndScope u sc c) = set (row_words u sc c)"
  by (simp add: listed_words sortWords_def)

definition touch :: "(word list \<Rightarrow> word list) \<Rightarrow> millis \<Rightarrow> glossary_entry \<Rightarrow> glossary_entry" where
  "touch f now e = e\<lparr>ge_words := f (ge_words e), ge_updatedAt := now\<rparr>"

lemma touch_simps [simp]:
  "ge_userId (touch f now e) = ge_userId e" "ge_scope (touch f now e) = ge_scope e"
  "ge_words (touch f now e) = f (ge_words e)"
  by (simp_all add: touch_def)

lemma in_scope_touch [simp]: "in_scope u sc (touch f now e) = in_scope u sc e"
  by (simp add: in_scope_def)

lemma countWords_append: "countWords p (c @ [e]) = countWords p c + (if p e then length (ge_words e) else 0)"
  by (simp add: countWords_def)

lemma countWords_updateFirst:
  assumes "findOne q c = Some e" and "\<And>e. p (touch f now e) = p e"
    and "length (f (ge_words e)) = length (ge_words e) + k"
  shows "countWords p (updateFirst q (touch f now) c) = countWords p c + (if p e then k else 0)"
  using assms(1) by (induction c) (auto simp: countWords_def assms(2,3) split: if_splits)

text \<open>What one write of words does, on every collection.\<close>

lemma addWordsToScope_effect:
  assumes "distinct ws" and "set ws \<inter> set (row_words u sc c) = {}"
    and "\<And>f e. p (touch f now e) = p e" and "\<And>e. in_scope u sc e \<Longrightarrow> p e = b"
    and "addWordsToScope now u sc ws c = (added, c')"
  shows "added = ws" and "row_words u sc c' = row_words u sc c @ ws"
    and "countWords p c' = countWords p c + (if b then length ws else 0)"
    and "\<And>u' sc'. (u', sc') \<noteq> (u, sc) \<Longrightarrow> row_words u' sc' c' = row_words u' sc' c"
proof -
  have touch: "(\<lambda>e. e\<lparr>ge_words := add_to_set ws (ge_words e), ge_updatedAt := now\<rparr>) = touch (add_to_set ws) now"
    by (simp add: touch_def fun_eq_iff)
  have other: "(u', sc') \<noteq> (u, sc) \<Longrightarrow> in_scope u' sc' e \<Longrightarrow> \<not> in_scope u sc e" for u' sc' e
    by (auto simp: in_scope_def)
  have "added = ws \<and> row_words u sc c' = row_words u sc c @ ws \<and>
      countWords p c' = countWords p c + (if b then length ws else 0) \<and>
      (\<forall>u' sc'. (u', sc') \<noteq> (u, sc) \<longrightarrow> row_words u' sc' c' = row_words u' sc' c)"
  proof (cases "findOne (in_scope u sc) c")
    case None
    let ?e = "\<lparr>ge_userId = u, ge_scope = sc, ge_words = add_to_set ws [], ge_createdAt = now, ge_updatedAt = now\<rparr>"
    have w: "add_to_set ws [] = ws" using assms(1) by (simp add: add_to_set_eq)
    have c': "added = ws" "c' = c @ [?e]"
      using assms(5) None by (auto simp: addWordsToScope_def findOneAndUpdate_def updateFirst_none)
    have e: "in_scope u sc ?e" by (simp add: in_scope_def)
    have "\<not> in_scope u' sc' ?e" if "(u', sc') \<noteq> (u, sc)" for u' sc'
      using that by (auto simp: in_scope_def)
    then have "row_words u' sc' c' = row_words u' sc' c" if "(u', sc') \<noteq> (u, sc)" for u' sc'
      using that by (simp add: c' row_words_def findOne_append split: option.split)
    moreover have "row_words u sc c' = row_words u sc c @ ws"
      using None e w by (simp add: c' row_words_def findOne_append)
    ultimately show ?thesis
      using assms(4) [OF e] w by (simp add: c'(1)) (simp add: c'(2) countWords_append)
  next
    case (Some e)
    have fresh: "filter (\<lambda>w. w \<notin> set (ge_words e)) ws = ws"
      using assms(2) Some by (auto simp: row_words_def filter_id_conv)
    have c': "added = ws" "c' = updateFirst (in_scope u sc) (touch (add_to_set ws) now) c"
      using assms(5) Some fresh by (auto simp: addWordsToScope_def findOneAndUpdate_def touch)
    have words: "add_to_set ws (ge_words e) = ge_words e @ ws" using fresh assms(1) by (simp add: add_to_set_eq)
    have "row_words u sc c' = row_words u sc c @ ws"
      using findOne_updateFirst [OF Some, of "touch (add_to_set ws) now"] findOne_Some [OF Some] Some words
      by (simp add: c' row_words_def)
    moreover have "row_words u' sc' c' = row_words u' sc' c" if "(u', sc') \<noteq> (u, sc)" for u' sc'
      unfolding c' row_words_def
      by (subst findOne_updateFirst_other) (use that in \<open>auto simp: in_scope_def\<close>)
    moreover have "countWords p c' = countWords p c + (if b then length ws else 0)"
      using countWords_updateFirst [OF Some, of p "add_to_set ws" now "length ws"] assms(3)
        assms(4) [of e] findOne_Some [OF Some] words by (simp add: c')
    ultimately show ?thesis using c'(1) by blast
  qed
  then show "added = ws" "row_words u sc c' = row_words u sc c @ ws"
    "countWords p c' = countWords p c + (if b then length ws else 0)"
    "\<And>u' sc'. (u', sc') \<noteq> (u, sc) \<Longrightarrow> row_words u' sc' c' = row_words u' sc' c" by blast+
qed

section \<open>Normalised words\<close>

lemma dropWhile_hd: "dropWhile p xs \<noteq> [] \<Longrightarrow> \<not> p (hd (dropWhile p xs))"
  by (induction xs) (auto split: if_splits)

lemma trim_prefix: "\<exists>zs. dropWhile white_space w = trim w @ zs"
  unfolding trim_def using suffix_dropWhile [of white_space "rev (dropWhile white_space w)"]
  by (auto simp: suffix_def) (metis rev_append rev_rev_ident)

lemma trim_idem [simp]: "trim (trim w) = trim w"
proof (cases "trim w")
  case Nil
  moreover have "trim [] = []" by (simp add: trim_def)
  ultimately show ?thesis by simp
next
  case (Cons n ns)
  obtain zs where zs: "dropWhile white_space w = trim w @ zs" using trim_prefix by blast
  then have "\<not> white_space n" using Cons dropWhile_hd [of white_space w] by simp
  then have "dropWhile white_space (trim w) = trim w" using Cons by simp
  then show ?thesis
    by (metis dropWhile_idem rev_rev_ident trim_def)
qed

definition word_ok :: "word \<Rightarrow> bool" where
  "word_ok w \<longleftrightarrow> trim w = w \<and> w \<noteq> [] \<and> length w \<le> maxWordCharacters"

lemma uniqueWords_result:
  assumes "uniqueWords ws = Inr rs"
  shows "distinct rs" and "set rs = set (map trim ws)" and "\<forall>w \<in> set rs. word_ok w"
    and "length rs \<le> maxWordsPerRequest"
proof -
  have rs: "rs = uniq (map trim ws)" "length ws \<le> maxWordsPerRequest"
    and ok: "\<forall>w \<in> set (map trim ws). w \<noteq> [] \<and> length w \<le> maxWordCharacters"
    using assms by (auto simp: uniqueWords_def Let_def list_ex_iff split: if_splits)
  show "distinct rs" "set rs = set (map trim ws)" using rs by auto
  then show "\<forall>w \<in> set rs. word_ok w" using ok by (auto simp: word_ok_def)
  have "length rs \<le> length (map trim ws)"
    unfolding rs(1) uniq_def using length_remdups_leq [of "rev (map trim ws)"] by simp
  with rs(2) show "length rs \<le> maxWordsPerRequest" by simp
qed

lemma uniqueWords_fixed:
  assumes "distinct ws" and "\<forall>w \<in> set ws. word_ok w" and "length ws \<le> maxWordsPerRequest"
  shows "uniqueWords ws = Inr ws"
proof -
  have "map trim ws = ws" using assms(2) by (simp add: word_ok_def map_idI)
  then show ?thesis using assms by (auto simp: uniqueWords_def Let_def list_ex_iff word_ok_def)
qed

section \<open>One request at a time\<close>

lemma addWords_sequential:
  assumes "addWords oid bs bs id [] id now userId u sc ws c = (Inr added, c')"
  defines "new \<equiv> filter (\<lambda>w. w \<notin> set (row_words u sc c)) (uniq (map trim ws))"
  shows "uniqueWords ws = Inr (uniq (map trim ws))" and "active_scope oid userId sc bs"
    and "added = take (remaining_capacity u sc c) new"
    and "c' = c \<and> added = [] \<or> addWordsToScope now u sc added c = (added, c')"
proof -
  obtain rs where rs: "uniqueWords ws = Inr rs" and act: "active_scope oid userId sc bs"
    using assms(1) by (auto simp: addWords_def split: sum.splits if_splits)
  then have rs': "rs = uniq (map trim ws)" by (auto simp: uniqueWords_def Let_def split: if_splits)
  with rs show "uniqueWords ws = Inr (uniq (map trim ws))" by simp
  show "active_scope oid userId sc bs" by (rule act)
  let ?ws = "take (remaining_capacity u sc c) new"
  have d: "distinct ?ws" by (simp add: new_def)
  have dis: "set ?ws \<inter> set (row_words u sc c) = {}" using set_take_subset [of _ new] by (auto simp: new_def)
  have "addWordsRepo [] now u sc ?ws c = (Inr added, c')"
    using assms(1) rs act by (auto simp: addWords_def rs' new_def Let_def split: prod.splits sum.splits if_splits)
  then have run: "?ws = [] \<and> added = [] \<and> c' = c \<or> addWordsToScope now u sc ?ws c = (added, c')"
    using d by (auto simp: addWordsRepo_def apfst_def map_prod_def split: if_splits prod.splits)
  then show "added = ?ws"
    using addWordsToScope_effect(1) [where p = "\<lambda>_. True" and b = True and now = now, OF d dis] by auto
  with run show "c' = c \<and> added = [] \<or> addWordsToScope now u sc added c = (added, c')" by metis
qed

lemma addWords_effect:
  assumes "addWords oid bs bs id [] id now userId u sc ws c = (Inr added, c')"
    and "\<And>f now e. p (touch f now e) = p e" and "\<And>e. in_scope u sc e \<Longrightarrow> p e = b"
  shows "distinct added" and "set added \<inter> set (row_words u sc c) = {}" and "\<forall>w \<in> set added. word_ok w"
    and "length added \<le> maxWordsPerRequest"
    and "row_words u sc c' = row_words u sc c @ added"
    and "countWords p c' = countWords p c + (if b then length added else 0)"
    and "\<And>u' sc'. (u', sc') \<noteq> (u, sc) \<Longrightarrow> row_words u' sc' c' = row_words u' sc' c"
proof -
  note seq = addWords_sequential [OF assms(1)]
  note res = uniqueWords_result [OF seq(1)]
  have sub: "set added \<subseteq> {w \<in> set (uniq (map trim ws)). w \<notin> set (row_words u sc c)}"
    unfolding seq(3) using set_take_subset by fastforce
  show d: "distinct added" unfolding seq(3) by simp
  show dis: "set added \<inter> set (row_words u sc c) = {}" using sub by blast
  show "\<forall>w \<in> set added. word_ok w" using sub res(3) by blast
  have "length added \<le> length (uniq (map trim ws))"
    unfolding seq(3) length_take using length_filter_le min.coboundedI1 by blast
  with res(4) show "length added \<le> maxWordsPerRequest" by simp
  note eff = addWordsToScope_effect [where p = p and b = b, OF d dis assms(2,3)]
  show "row_words u sc c' = row_words u sc c @ added"
    "countWords p c' = countWords p c + (if b then length added else 0)"
    "\<And>u' sc'. (u', sc') \<noteq> (u, sc) \<Longrightarrow> row_words u' sc' c' = row_words u' sc' c"
    using seq(4) eff by auto
qed

lemma remaining_bounds:
  "countByUserAndProject u (scope_project sc) c + remaining_capacity u sc c \<le>
     max 500 (countByUserAndProject u (scope_project sc) c)"
  "countScopedByUserId u c + remaining_capacity u sc c \<le> max 20000 (countScopedByUserId u c)"
  by (auto simp: remaining_capacity_def maxWordsPerProject_def maxWordsPerUser_def)

text \<open>Capacity.  A request that adds words stores only trimmed words of 1 to 200 UTF-16
  units that the scope did not have; it stores as many of them as the project's 500 and
  the user's 20000 words allow, no slot is spent on a duplicate, the counts grow by
  exactly the number of words it answers, and neither limit is ever exceeded by it.\<close>
lemma glossary_capacity:
  assumes "addWords oid bs bs id [] id now userId u sc ws c = (Inr added, c')"
  shows "(\<forall>w \<in> set added. trim w = w \<and> 1 \<le> length w \<and> length w \<le> 200 \<and> w \<notin> set (row_words u sc c)) \<and>
    length added = min (remaining_capacity u sc c) (card (set (map trim ws) - set (row_words u sc c))) \<and>
    countByUserAndProject u (scope_project sc) c' = countByUserAndProject u (scope_project sc) c + length added \<and>
    countScopedByUserId u c' = countScopedByUserId u c + length added \<and>
    countByUserAndProject u (scope_project sc) c' \<le> max 500 (countByUserAndProject u (scope_project sc) c) \<and>
    countScopedByUserId u c' \<le> max 20000 (countScopedByUserId u c)"
proof -
  note eff = addWords_effect [OF assms]
  have project: "countByUserAndProject u (scope_project sc) c' =
      countByUserAndProject u (scope_project sc) c + length added"
    using eff(6) [where p = "in_project u (scope_project sc)" and b = True]
    by (auto simp: countByUserAndProject_def in_project_def in_scope_def)
  have user: "countScopedByUserId u c' = countScopedByUserId u c + length added"
    using eff(6) [where p = "\<lambda>e. ge_userId e = u" and b = True] by (auto simp: countScopedByUserId_def in_scope_def)
  have words: "\<forall>w \<in> set added. word_ok w" "set added \<inter> set (row_words u sc c) = {}"
    using eff(2,3) [where p = "\<lambda>_. True" and b = True] by blast+
  let ?new = "filter (\<lambda>w. w \<notin> set (row_words u sc c)) (uniq (map trim ws))"
  have "card (set (map trim ws) - set (row_words u sc c)) = card (set ?new)"
    by (rule arg_cong [where f = card]) auto
  also have "\<dots> = length ?new" by (rule distinct_card) simp
  finally have len: "length added = min (remaining_capacity u sc c) (card (set (map trim ws) - set (row_words u sc c)))"
    using addWords_sequential(3) [OF assms] by (simp add: min.commute)
  then have "length added \<le> remaining_capacity u sc c" by simp
  with remaining_bounds [where u = u and sc = sc and c = c] have
    "countByUserAndProject u (scope_project sc) c' \<le> max 500 (countByUserAndProject u (scope_project sc) c)"
    "countScopedByUserId u c' \<le> max 20000 (countScopedByUserId u c)"
    by (simp_all add: project user)
  with words len project user show ?thesis
    by (auto simp: word_ok_def maxWordCharacters_def Suc_le_eq)
qed

section \<open>Adding and removing\<close>

lemma one_row_unique:
  "one_row c \<Longrightarrow> findOne (in_scope u sc) c = Some e \<Longrightarrow> x \<in> set c \<Longrightarrow> in_scope u sc x \<Longrightarrow> x = e"
  using findOne_Some [of "in_scope u sc" c e]
  by (auto simp: one_row_def in_scope_def distinct_map inj_on_def)

lemma one_row_find:
  assumes "one_row c" and "findOne (in_scope u sc) c = Some e" and "q e" and "\<And>x. q x \<Longrightarrow> in_scope u sc x"
  shows "findOne q c = Some e"
proof (cases "findOne q c")
  case None
  then show ?thesis using findOne_Some [OF assms(2)] assms(3) by (auto simp: findOne_None)
next
  case (Some x)
  then show ?thesis using findOne_Some [OF Some] one_row_unique [OF assms(1,2)] assms(4) by auto
qed

lemma one_row_added:
  assumes "one_row c" and "addWordsToScope now u sc ws c = (added, c')"
  shows "one_row c'"
proof (cases "findOne (in_scope u sc) c")
  case None
  then have "\<forall>e \<in> set c. ge_userId e = u \<longrightarrow> ge_scope e \<noteq> sc" by (auto simp: findOne_None in_scope_def)
  then show ?thesis using assms None
    by (auto simp: addWordsToScope_def findOneAndUpdate_def updateFirst_none one_row_def)
next
  case (Some e)
  then show ?thesis using assms
    by (auto simp: addWordsToScope_def findOneAndUpdate_def one_row_def map_updateFirst)
qed

lemma row_words_cleaned:
  "one_row c \<Longrightarrow> row_words u' sc' (deleteFirst (\<lambda>e. in_scope u sc e \<and> ge_words e = []) c) = row_words u' sc' c"
proof (induction c)
  case (Cons d c)
  have rest: "one_row c" using Cons.prems by (simp add: one_row_def)
  show ?case
  proof (cases "in_scope u' sc' d")
    case True
    then have "findOne (in_scope u' sc') c = None"
      using Cons.prems by (auto simp: one_row_def findOne_None in_scope_def image_iff)
    then show ?thesis using True by (auto simp: row_words_def)
  next
    case False
    then show ?thesis using Cons.IH [OF rest] by (auto simp: row_words_def)
  qed
qed simp

lemma removeWordsRepo_effect:
  assumes "one_row c" and "distinct ws" and "ws \<noteq> []" and "row_words u sc c = old @ ws"
    and "set old \<inter> set ws = {}"
  shows "\<exists>c'. removeWordsRepo id now u sc ws c = (length ws, c') \<and> row_words u sc c' = old \<and>
     (\<forall>u' sc'. (u', sc') \<noteq> (u, sc) \<longrightarrow> row_words u' sc' c' = row_words u' sc' c)"
proof -
  let ?q = "\<lambda>e. in_scope u sc e \<and> (\<exists>w \<in> set ws. w \<in> set (ge_words e))"
    and ?f = "touch (filter (\<lambda>w. w \<notin> set ws)) now"
  obtain e where e: "findOne (in_scope u sc) c = Some e" "ge_words e = old @ ws"
    using assms(3,4) by (auto simp: row_words_def split: option.splits)
  have f: "(\<lambda>e. e\<lparr>ge_words := filter (\<lambda>w. w \<notin> set ws) (ge_words e), ge_updatedAt := now\<rparr>) = ?f"
    by (simp add: touch_def fun_eq_iff)
  have q: "findOne ?q c = Some e"
    by (rule one_row_find [OF assms(1) e(1)])
      (use e(2) assms(3) findOne_Some [OF e(1)] in \<open>auto simp: ex_in_conv\<close>)
  let ?c = "updateFirst ?q ?f c"
  have one: "one_row ?c" using assms(1) by (simp add: one_row_def map_updateFirst)
  have left: "filter (\<lambda>w. w \<notin> set ws) (old @ ws) = old" using assms(5) by (auto simp: filter_id_conv)
  have here: "findOne (in_scope u sc) ?c = Some (?f e)"
    using e(1) findOne_Some [OF q] by (induction c) (auto split: if_splits)
  have other: "row_words u' sc' ?c = row_words u' sc' c" if "(u', sc') \<noteq> (u, sc)" for u' sc'
    unfolding row_words_def by (subst findOne_updateFirst_other) (use that in \<open>auto simp: in_scope_def\<close>)
  have count: "filter (\<lambda>w. w \<in> set (ge_words e)) ws = ws" using e(2) by (auto simp: filter_id_conv)
  have "removeWordsRepo id now u sc ws c =
      (length ws, deleteFirst (\<lambda>e. in_scope u sc e \<and> ge_words e = []) ?c)"
    using assms(2,3) q count by (simp add: removeWordsRepo_def Let_def findOneAndUpdate_def f)
  moreover have "row_words u sc ?c = old" using here e(2) left by (simp add: row_words_def)
  ultimately show ?thesis using row_words_cleaned [OF one] other by auto
qed

text \<open>Removing what was added restores the glossary.  The words a request answers as added
  are listed for their scope together with the old ones; a removal of exactly those
  words is accepted, reports every one of them as removed, and afterwards the listing of
  every scope of every user is what it was before.\<close>
lemma glossary_add_remove_roundtrip:
  assumes "one_row c" and "addWords oid bs bs id [] id now userId u sc ws c = (Inr added, c1)"
  shows "findWordsByUserAndScope u sc c1 = sortWords (findWordsByUserAndScope u sc c @ added) \<and>
    (\<exists>c2. removeWords oid bs id now' userId u sc added c1 = (Inr (length added), c2) \<and>
       (\<forall>u' sc'. findWordsByUserAndScope u' sc' c2 = findWordsByUserAndScope u' sc' c))"
proof
  note eff = addWords_effect [where p = "\<lambda>_. True" and b = True, OF assms(2) refl refl]
  show "findWordsByUserAndScope u sc c1 = sortWords (findWordsByUserAndScope u sc c @ added)"
    unfolding listed_words eff(5) by (rule sortWords_cong) (simp add: sortWords_def)
  have ok: "uniqueWords added = Inr added" by (rule uniqueWords_fixed [OF eff(1,3,4)])
  have act: "active_scope oid userId sc bs" by (rule addWords_sequential(2) [OF assms(2)])
  show "\<exists>c2. removeWords oid bs id now' userId u sc added c1 = (Inr (length added), c2) \<and>
       (\<forall>u' sc'. findWordsByUserAndScope u' sc' c2 = findWordsByUserAndScope u' sc' c)"
  proof (cases "added = []")
    case True
    then have "row_words u' sc' c1 = row_words u' sc' c" for u' sc'
      using eff(5,7) by (cases "(u', sc') = (u, sc)") auto
    with True ok act show ?thesis by (simp add: removeWords_def removeWordsRepo_def listed_words)
  next
    case False
    then have "addWordsToScope now u sc added c = (added, c1)" using addWords_sequential(4) [OF assms(2)] by simp
    then have one: "one_row c1" by (rule one_row_added [OF assms(1)])
    obtain c2 where c2: "removeWordsRepo id now' u sc added c1 = (length added, c2)"
      "row_words u sc c2 = row_words u sc c" "\<forall>u' sc'. (u', sc') \<noteq> (u, sc) \<longrightarrow> row_words u' sc' c2 = row_words u' sc' c1"
      using removeWordsRepo_effect [OF one eff(1) False eff(5)] eff(2) by (metis inf_commute)
    then have "row_words u' sc' c2 = row_words u' sc' c" for u' sc'
      using eff(7) by (cases "(u', sc') = (u, sc)") auto
    with c2(1) ok act show ?thesis by (simp add: removeWords_def listed_words)
  qed
qed

section \<open>The prompt\<close>

lemma join_words_length:
  "length (join_words (w # ws)) = length w + sum_list (map (\<lambda>v. 2 + length v) ws)"
  by (induction ws arbitrary: w) simp_all

lemma fill_rest:
  "prefix (fill_context b len False ws) ws \<and>
   (len \<le> b \<longrightarrow> len + sum_list (map (\<lambda>v. 2 + length v) (fill_context b len False ws)) \<le> b) \<and>
   (\<forall>vs. prefix vs ws \<and> length (fill_context b len False ws) < length vs \<longrightarrow>
      b < len + sum_list (map (\<lambda>v. 2 + length v) vs))"
proof (induction ws arbitrary: len)
  case (Cons w ws)
  have cases: "prefix vs (w # ws) \<Longrightarrow> vs = [] \<or> (\<exists>us. vs = w # us \<and> prefix us ws)" for vs
    by (cases vs) auto
  show ?case
  proof (cases "b < len + 2 + length w")
    case True
    then show ?thesis using cases by (fastforce simp: Let_def)
  next
    case False
    then show ?thesis using Cons.IH [of "len + 2 + length w"] cases
      by (auto simp: Let_def add.assoc) fastforce+
  qed
qed simp

lemma fill_context_spec:
  defines "r \<equiv> \<lambda>b ws. fill_context b 0 True ws"
  shows "prefix (r b ws) ws" and "length (join_words (r b ws)) \<le> b"
    and "prefix vs ws \<Longrightarrow> length (r b ws) < length vs \<Longrightarrow> b < length (join_words vs)"
proof -
  have "prefix (r b ws) ws \<and> length (join_words (r b ws)) \<le> b \<and>
     (prefix vs ws \<and> length (r b ws) < length vs \<longrightarrow> b < length (join_words vs))"
  proof (cases ws)
    case Nil
    then show ?thesis by (auto simp: r_def)
  next
    case (Cons w us)
    then show ?thesis
      using fill_rest [of b "length w" us]
      by (cases vs) (auto simp: r_def Let_def join_words_length)
  qed
  then show "prefix (r b ws) ws" "length (join_words (r b ws)) \<le> b"
    "prefix vs ws \<Longrightarrow> length (r b ws) < length vs \<Longrightarrow> b < length (join_words vs)" by blast+
qed

lemma prompt_length:
  "renderTranscriptionPrompt ws = Some prompt \<Longrightarrow> length prompt = length (join_words ws) + 46"
  by (auto simp: renderTranscriptionPrompt_def TRANSCRIPTION_PROMPT_PREFIX_def TRANSCRIPTION_PROMPT_SUFFIX_def
      split: if_splits)

lemma context_budget_value: "context_budget = 7954"
  by (simp add: context_budget_def maxContextCharacters_def TRANSCRIPTION_PROMPT_PREFIX_def
      TRANSCRIPTION_PROMPT_SUFFIX_def)

text \<open>The transcription prompt fits.  The context is a prefix of the project's sorted words,
  the prompt rendered from it has at most 8000 UTF-16 units, and it is the longest such
  prefix: the prompt of any longer prefix would exceed the limit.\<close>
lemma context_prompt_fits:
  assumes "ctx = getContextWords u (Some k) c"
  shows "prefix ctx (findWordsByUserAndProject u k c) \<and>
    (\<forall>prompt. renderTranscriptionPrompt ctx = Some prompt \<longrightarrow> length prompt \<le> 8000) \<and>
    (\<forall>vs prompt. prefix vs (findWordsByUserAndProject u k c) \<and> length ctx < length vs \<and>
       renderTranscriptionPrompt vs = Some prompt \<longrightarrow> 8000 < length prompt)"
proof -
  have "sortWords (findWordsByUserAndProject u k c) = findWordsByUserAndProject u k c"
    unfolding findWordsByUserAndProject_def by (rule sortWords_cong) (simp add: sortWords_def)
  then have ctx: "ctx = fill_context 7954 0 True (findWordsByUserAndProject u k c)"
    using assms by (simp add: getContextWords_def context_budget_value)
  note spec = fill_context_spec [where b = 7954 and ws = "findWordsByUserAndProject u k c", folded ctx]
  show ?thesis using spec prompt_length by fastforce
qed

section \<open>Concrete runs\<close>

definition demo_row :: glossary_entry where
  "demo_row = \<lparr>ge_userId = ''u'', ge_scope = RepositoryScope ''p'', ge_words = [[120], [121]],
     ge_createdAt = 5, ge_updatedAt = 5\<rparr>"

lemma demo_add:
  "addWords Some [] [] id [] id 5 ''u'' ''u'' (RepositoryScope ''p'') [[120], [32, 121], [120]] [] =
     (Inr [[120], [121]], [demo_row])"
  by (simp add: addWords_def uniqueWords_def Let_def maxWordsPerRequest_def maxWordCharacters_def trim_def
      white_space_def uniq_def active_scope_def findWordsByUserAndScope_def addWordsRepo_def
      MAX_SCOPE_UPSERT_ATTEMPTS_def addWordsToScope_def findOneAndUpdate_def add_to_set_def demo_row_def
      remaining_capacity_def countByUserAndProject_def countScopedByUserId_def countWords_def
      maxWordsPerProject_def maxWordsPerUser_def numeral_2_eq_2)

lemma glossary_capacity_witness:
  "countScopedByUserId ''u'' [demo_row] = countScopedByUserId ''u'' [] + 2"
  using glossary_capacity [OF demo_add] by simp

lemma glossary_add_remove_roundtrip_witness:
  "\<exists>c2. removeWords Some [] id 6 ''u'' ''u'' (RepositoryScope ''p'') [[120], [121]] [demo_row] = (Inr 2, c2) \<and>
     findWordsByUserAndScope ''u'' (RepositoryScope ''p'') c2 = []"
  using glossary_add_remove_roundtrip [OF _ demo_add, of 6]
  by (auto simp: one_row_def findWordsByUserAndScope_def)

lemma context_prompt_fits_witness:
  "prefix (getContextWords ''u'' (Some ''p'') [demo_row]) [[120], [121]]"
  using context_prompt_fits [OF refl, of "''u''" "''p''" "[demo_row]"]
  by (simp add: findWordsByUserAndProject_def in_project_def demo_row_def sortWords_def)

end
