(* ===== verification/Tokens.thy ===== *)
theory Tokens
  imports Prelude Errors
begin

text \<open>
  Signed tokens: \<open>src/models/jwt.ts\<close>, \<open>src/services/token-service.ts\<close>, the
  authentication middleware \<open>src/middleware/auth.ts\<close> and the rate-limit key of
  \<open>src/middleware/account-rate-limit-key.ts\<close>.  The JWT library is a pair of
  parameters: \<open>sign\<close> maps a payload to a token, \<open>verify\<close> a token to its payload,
  \<open>None\<close> when it throws (signature, issuer, audience or expiry).  A payload is a map
  from member names to JSON values.
\<close>

section \<open>Payloads\<close>

datatype json = JString string | JNumber js_number | JOther

type_synonym payload = "string \<rightharpoonup> json"

definition string_member :: "payload \<Rightarrow> string \<Rightarrow> string option" where
  "string_member m k = (case m k of Some (JString s) \<Rightarrow> Some s | _ \<Rightarrow> None)"

definition number_member :: "payload \<Rightarrow> string \<Rightarrow> js_number option" where
  "number_member m k = (case m k of Some (JNumber n) \<Rightarrow> Some n | _ \<Rightarrow> None)"

record access_payload =
  ap_userId :: string
  ap_provider :: string
  ap_providerUserId :: string
  ap_exp :: js_number
  ap_iat :: js_number

record refresh_payload =
  rp_userId :: string
  rp_tokenVersion :: js_number
  rp_exp :: js_number
  rp_iat :: js_number

definition literals_ok :: "string \<Rightarrow> payload \<Rightarrow> bool" where
  \<comment> \<open>the literal members both schemas ask for\<close>
  "literals_ok tokenType m \<longleftrightarrow> string_member m ''tokenType'' = Some tokenType \<and>
     string_member m ''iss'' = Some ''auth-backend'' \<and> string_member m ''aud'' = Some ''mobile''"

definition accessTokenPayloadSchema :: "payload \<Rightarrow> access_payload option" where
  "accessTokenPayloadSchema m =
     (case (string_member m ''userId'', string_member m ''provider'', string_member m ''providerUserId'',
            number_member m ''exp'', number_member m ''iat'') of
        (Some u, Some p, Some pu, Some e, Some i) \<Rightarrow>
          if literals_ok ''access'' m
          then Some \<lparr>ap_userId = u, ap_provider = p, ap_providerUserId = pu, ap_exp = e, ap_iat = i\<rparr> else None
      | _ \<Rightarrow> None)"

definition refreshTokenPayloadSchema :: "payload \<Rightarrow> refresh_payload option" where
  "refreshTokenPayloadSchema m =
     (case (string_member m ''userId'', number_member m ''tokenVersion'',
            number_member m ''exp'', number_member m ''iat'') of
        (Some u, Some v, Some e, Some i) \<Rightarrow>
          if literals_ok ''refresh'' m
          then Some \<lparr>rp_userId = u, rp_tokenVersion = v, rp_exp = e, rp_iat = i\<rparr> else None
      | _ \<Rightarrow> None)"

section \<open>The token service\<close>

definition ACCESS_TOKEN_TTL_SECONDS :: int where
  "ACCESS_TOKEN_TTL_SECONDS = 15 * 60"

definition REFRESH_TOKEN_TTL_SECONDS :: int where
  "REFRESH_TOKEN_TTL_SECONDS = 30 * 24 * 60 * 60"

fun pem :: "string \<Rightarrow> string" where
  \<comment> \<open>the constructor's \<open>replace(/\\n/g, "\n")\<close>: backslash 92, line feed 10\<close>
  "pem (c # d # cs) = (if c = char_of (92 :: nat) \<and> d = CHR ''n'' then char_of (10 :: nat) # pem cs else c # pem (d # cs))"
| "pem cs = cs"

definition base_payload :: "string \<Rightarrow> string \<Rightarrow> int \<Rightarrow> int \<Rightarrow> payload" where
  "base_payload tokenType userId now expiresIn =
     [''tokenType'' \<mapsto> JString tokenType, ''userId'' \<mapsto> JString userId,
      ''iss'' \<mapsto> JString ''auth-backend'', ''aud'' \<mapsto> JString ''mobile'',
      ''iat'' \<mapsto> JNumber (Integer now), ''exp'' \<mapsto> JNumber (Integer (now + expiresIn))]"

definition access_claims :: "millis \<Rightarrow> string \<Rightarrow> string \<Rightarrow> string \<Rightarrow> payload" where
  "access_claims now userId prov provUserId =
     (base_payload ''access'' userId (now div 1000) ACCESS_TOKEN_TTL_SECONDS)
       (''provider'' \<mapsto> JString prov, ''providerUserId'' \<mapsto> JString provUserId)"

definition refresh_claims :: "millis \<Rightarrow> string \<Rightarrow> int \<Rightarrow> payload" where
  "refresh_claims now userId tokenVersion =
     (base_payload ''refresh'' userId (now div 1000) REFRESH_TOKEN_TTL_SECONDS)
       (''tokenVersion'' \<mapsto> JNumber (Integer tokenVersion))"

definition signAccessToken ::
  "(payload \<Rightarrow> string) \<Rightarrow> millis \<Rightarrow> string \<Rightarrow> string \<Rightarrow> string \<Rightarrow> api_error + string" where
  "signAccessToken sign now userId prov provUserId =
     (case accessTokenPayloadSchema (access_claims now userId prov provUserId) of
        None \<Rightarrow> Inl InternalServerError
      | Some _ \<Rightarrow> Inr (sign (access_claims now userId prov provUserId)))"

definition signRefreshToken :: "(payload \<Rightarrow> string) \<Rightarrow> millis \<Rightarrow> string \<Rightarrow> int \<Rightarrow> api_error + string" where
  "signRefreshToken sign now userId tokenVersion =
     (case refreshTokenPayloadSchema (refresh_claims now userId tokenVersion) of
        None \<Rightarrow> Inl InternalServerError
      | Some _ \<Rightarrow> Inr (sign (refresh_claims now userId tokenVersion)))"

lemma member_simps [simp]:
  "string_member (m(k \<mapsto> v)) j = (if j = k then (case v of JString s \<Rightarrow> Some s | _ \<Rightarrow> None) else string_member m j)"
  "number_member (m(k \<mapsto> v)) j = (if j = k then (case v of JNumber n \<Rightarrow> Some n | _ \<Rightarrow> None) else number_member m j)"
  by (simp_all add: string_member_def number_member_def)

lemma access_claims_valid:
  "accessTokenPayloadSchema (access_claims now userId prov provUserId) =
    Some \<lparr>ap_userId = userId, ap_provider = prov, ap_providerUserId = provUserId,
      ap_exp = Integer (now div 1000 + 900), ap_iat = Integer (now div 1000)\<rparr>"
  by (simp add: accessTokenPayloadSchema_def access_claims_def base_payload_def literals_ok_def
      ACCESS_TOKEN_TTL_SECONDS_def)

lemma refresh_claims_valid:
  "refreshTokenPayloadSchema (refresh_claims now userId v) =
    Some \<lparr>rp_userId = userId, rp_tokenVersion = Integer v,
      rp_exp = Integer (now div 1000 + 2592000), rp_iat = Integer (now div 1000)\<rparr>"
  by (simp add: refreshTokenPayloadSchema_def refresh_claims_def base_payload_def literals_ok_def
      REFRESH_TOKEN_TTL_SECONDS_def)

lemma sign_ok [simp]:
  "signAccessToken sign now userId prov provUserId = Inr (sign (access_claims now userId prov provUserId))"
  "signRefreshToken sign now userId v = Inr (sign (refresh_claims now userId v))"
  by (simp_all add: signAccessToken_def signRefreshToken_def access_claims_valid refresh_claims_valid)

section \<open>The middleware\<close>

definition DEVELOPMENT_USER :: access_payload where
  "DEVELOPMENT_USER =
     \<lparr>ap_userId = ''69b2aeaa1755fd6c00000000'', ap_provider = ''github'', ap_providerUserId = ''123'',
      ap_exp = Integer 999999999999999, ap_iat = Integer 1000000000000000\<rparr>"

definition bearer :: "string option \<Rightarrow> string option" where
  \<comment> \<open>the token of an \<open>Authorization: Bearer ...\<close> header\<close>
  "bearer h = (case h of None \<Rightarrow> None | Some s \<Rightarrow> if take 7 s = ''Bearer '' then Some (drop 7 s) else None)"

definition requireAuth ::
  "(string \<Rightarrow> payload option) \<Rightarrow> bool \<Rightarrow> string option \<Rightarrow> api_error + access_payload" where
  "requireAuth verify devBypassEnabled authHeader =
     (if devBypassEnabled then Inr DEVELOPMENT_USER
      else case bearer authHeader of
             None \<Rightarrow> Inl UnauthenticatedError
           | Some token \<Rightarrow>
               (case verify token of
                  None \<Rightarrow> Inl UnauthenticatedError
                | Some raw \<Rightarrow>
                    (case accessTokenPayloadSchema raw of
                       None \<Rightarrow> Inl UnauthenticatedError
                     | Some p \<Rightarrow> Inr p)))"

definition buildAccountRateLimitKey ::
  "(string \<Rightarrow> payload option) \<Rightarrow> string \<Rightarrow> string option \<Rightarrow> string" where
  \<comment> \<open>\<open>clientIp\<close> is what \<open>resolveClientIp\<close> answers for the request\<close>
  "buildAccountRateLimitKey verify clientIp authorization =
     (case bearer authorization of
        None \<Rightarrow> clientIp
      | Some token \<Rightarrow>
          (case verify token of
             None \<Rightarrow> clientIp
           | Some raw \<Rightarrow>
               (case accessTokenPayloadSchema raw of
                  None \<Rightarrow> clientIp
                | Some p \<Rightarrow> ''user:'' @ ap_userId p)))"

section \<open>Access and refresh tokens\<close>

lemma token_types_separate:
  "accessTokenPayloadSchema m = Some p \<Longrightarrow> refreshTokenPayloadSchema m = None"
  by (auto simp: accessTokenPayloadSchema_def refreshTokenPayloadSchema_def literals_ok_def
      split: option.splits if_splits)

lemma rate_limit_key_of_account:
  assumes "\<not> dev" and "requireAuth verify dev h = Inr p"
  shows "buildAccountRateLimitKey verify ip h = ''user:'' @ ap_userId p"
  using assms by (auto simp: requireAuth_def buildAccountRateLimitKey_def split: option.splits)

lemma rate_limit_key_of_stranger:
  assumes "requireAuth verify False h = Inl e"
  shows "buildAccountRateLimitKey verify ip h = ip"
  using assms by (auto simp: requireAuth_def buildAccountRateLimitKey_def split: option.splits)

definition library_verifies :: "(payload \<Rightarrow> string) \<Rightarrow> (string \<Rightarrow> payload option) \<Rightarrow> millis \<Rightarrow> payload \<Rightarrow> bool" where
  \<comment> \<open>what \<open>jsonwebtoken\<close> documents: a token signed with the key verifies to its payload
     when the issuer and the audience are the expected ones and it has not expired\<close>
  "library_verifies sign verify t m \<longleftrightarrow>
     (\<forall>e. string_member m ''iss'' = Some ''auth-backend'' \<and> string_member m ''aud'' = Some ''mobile'' \<and>
        number_member m ''exp'' = Some (Integer e) \<and> t div 1000 < e \<longrightarrow> verify (sign m) = Some m)"

lemma verify_access:
  assumes "library_verifies sign verify t (access_claims now userId prov provUserId)" and "t \<le> now + 899000"
  shows "verify (sign (access_claims now userId prov provUserId)) = Some (access_claims now userId prov provUserId)"
proof -
  have "t div 1000 < now div 1000 + 900" using assms(2) by linarith
  then show ?thesis
    using assms(1) by (simp add: library_verifies_def access_claims_def base_payload_def ACCESS_TOKEN_TTL_SECONDS_def)
qed

lemma verify_refresh:
  assumes "library_verifies sign verify t (refresh_claims now userId v)" and "t \<le> now + 2591999000"
  shows "verify (sign (refresh_claims now userId v)) = Some (refresh_claims now userId v)"
proof -
  have "t div 1000 < now div 1000 + 2592000" using assms(2) by linarith
  then show ?thesis
    using assms(1) by (simp add: library_verifies_def refresh_claims_def base_payload_def REFRESH_TOKEN_TTL_SECONDS_def)
qed

text \<open>C15: What a route sees is what was signed.  With a library that verifies what it signed
  until the expiry, an access token signed for an account authenticates exactly that
  account up to the last second of its fifteen minutes, and its rate limit is counted
  under that account; a refresh token never authenticates a request, and its bearer is
  limited by address.\<close>
theorem access_token_roundtrip:
  assumes "library_verifies sign verify t (access_claims now userId prov provUserId)"
    and "library_verifies sign verify t (refresh_claims now' userId' v)"
    and "signAccessToken sign now userId prov provUserId = Inr access" and "t \<le> now + 899000"
    and "signRefreshToken sign now' userId' v = Inr refresh" and "t \<le> now' + 2591999000"
  shows "(\<exists>p. requireAuth verify False (Some (''Bearer '' @ access)) = Inr p \<and> ap_userId p = userId \<and>
       ap_provider p = prov \<and> ap_providerUserId p = provUserId) \<and>
     buildAccountRateLimitKey verify ip (Some (''Bearer '' @ access)) = ''user:'' @ userId \<and>
     requireAuth verify False (Some (''Bearer '' @ refresh)) = Inl UnauthenticatedError \<and>
     buildAccountRateLimitKey verify ip (Some (''Bearer '' @ refresh)) = ip"
proof -
  have a: "verify access = Some (access_claims now userId prov provUserId)"
    using verify_access [OF assms(1,4)] assms(3) by simp
  have r: "verify refresh = Some (refresh_claims now' userId' v)"
    using verify_refresh [OF assms(2,6)] assms(5) by simp
  have n: "accessTokenPayloadSchema (refresh_claims now' userId' v) = None"
    using token_types_separate refresh_claims_valid by (metis option.distinct(1) option.exhaust)
  have b: "bearer (Some (CHR ''B'' # CHR ''e'' # CHR ''a'' # CHR ''r'' # CHR ''e'' # CHR ''r'' # CHR '' '' # x)) = Some x"
    for x by (simp add: bearer_def)
  show ?thesis
    by (simp add: requireAuth_def buildAccountRateLimitKey_def b a r access_claims_valid n)
qed

theorem access_token_roundtrip_witness:
  "buildAccountRateLimitKey
      (\<lambda>s. if s = ''A'' then Some (access_claims 5000 ''u1'' ''github'' ''g1'') else Some (refresh_claims 5000 ''u1'' 3))
      ''1.2.3.4'' (Some ''Bearer A'') = ''user:u1''"
  using access_token_roundtrip
    [where sign = "\<lambda>m. if string_member m ''tokenType'' = Some ''access'' then ''A'' else ''R''"
      and verify = "\<lambda>s. if s = ''A'' then Some (access_claims 5000 ''u1'' ''github'' ''g1'') else Some (refresh_claims 5000 ''u1'' 3)"
      and t = 6000 and now = 5000 and now' = 5000 and userId = "''u1''" and prov = "''github''"
      and provUserId = "''g1''" and userId' = "''u1''" and v = 3 and access = "''A''" and refresh = "''R''" and ip = "''1.2.3.4''"]
  by (simp add: library_verifies_def access_claims_def refresh_claims_def base_payload_def)

end
