(* ===== verification/Auth.thy ===== *)
theory Auth
  imports Tokens UserProps BridgeService
begin

text \<open>
  Accounts and sign-in: \<open>src/repositories/oauth-account-repo.ts\<close>,
  \<open>src/repositories/password-account-repo.ts\<close>, \<open>src/services/auth-service.ts\<close> and the
  handlers of \<open>src/routes/token.ts\<close>.  The password hash is a parameter (\<open>verifyHash\<close>
  is \<open>None\<close> when argon2 throws); ObjectIds are generated by the caller.  Parallel
  reads have no effect on each other, so their collections are read from one state.
\<close>

section \<open>Accounts\<close>

record oauth_account =
  oa_userId :: string
  oa_provider :: string
  oa_providerUserId :: string
  oa_providerUsername :: "string option"
  oa_email :: "string option"
  oa_createdAt :: millis
  oa_updatedAt :: millis

definition of_identity :: "string \<Rightarrow> string \<Rightarrow> oauth_account \<Rightarrow> bool" where
  "of_identity prov pid a \<longleftrightarrow> oa_provider a = prov \<and> oa_providerUserId a = pid"

definition findByProvider :: "string \<Rightarrow> string \<Rightarrow> oauth_account list \<Rightarrow> oauth_account option" where
  "findByProvider prov pid c = findOne (of_identity prov pid) c"

definition findOAuthByUserId :: "(string \<Rightarrow> string option) \<Rightarrow> string \<Rightarrow> oauth_account list \<Rightarrow> thrown + oauth_account option" where
  "findOAuthByUserId oid userId c =
     (case oid userId of None \<Rightarrow> Inl Unknown | Some u \<Rightarrow> Inr (findOne (\<lambda>a. oa_userId a = u) c))"

definition keep_present :: "string option \<Rightarrow> string option \<Rightarrow> string option" where
  \<comment> \<open>a value the provider omits does not erase the stored one\<close>
  "keep_present new old = (case new of None \<Rightarrow> old | Some _ \<Rightarrow> new)"

definition upsertOAuth ::
  "millis \<Rightarrow> string \<Rightarrow> string \<Rightarrow> string \<Rightarrow> string option \<Rightarrow> string option \<Rightarrow> oauth_account list
   \<Rightarrow> oauth_account \<times> oauth_account list" where
  \<comment> \<open>\<open>upsert\<close>; \<open>potentialUserId\<close> is the fresh ObjectId used when the account is new\<close>
  "upsertOAuth now potentialUserId prov pid username email c =
     (case findOneAndUpdate (of_identity prov pid)
             (\<lambda>a. a\<lparr>oa_providerUsername := keep_present username (oa_providerUsername a),
                    oa_email := keep_present email (oa_email a), oa_updatedAt := now\<rparr>) c of
        (Some (_, after), c') \<Rightarrow> (after, c')
      | (None, c') \<Rightarrow>
          let a = \<lparr>oa_userId = potentialUserId, oa_provider = prov, oa_providerUserId = pid,
                   oa_providerUsername = username, oa_email = email, oa_createdAt = now, oa_updatedAt = now\<rparr>
          in (a, c' @ [a]))"

record password_account =
  pa_userId :: string
  pa_email :: string
  pa_passwordHash :: string
  pa_createdAt :: millis
  pa_updatedAt :: millis

definition findByEmail :: "string \<Rightarrow> password_account list \<Rightarrow> password_account option" where
  "findByEmail email c = findOne (\<lambda>a. pa_email a = map toLower email) c"

definition createPasswordAccount ::
  "millis \<Rightarrow> string \<Rightarrow> string \<Rightarrow> string \<Rightarrow> password_account list \<Rightarrow> (password_account \<times> password_account list) option" where
  \<comment> \<open>\<open>create\<close>; emails have a unique index\<close>
  "createPasswordAccount now userId email hash c =
     (let a = \<lparr>pa_userId = userId, pa_email = map toLower email, pa_passwordHash = hash,
               pa_createdAt = now, pa_updatedAt = now\<rparr>
      in map_option (Pair a) (insertOne pa_email a c))"

definition findPasswordByUserId ::
  "(string \<Rightarrow> string option) \<Rightarrow> string \<Rightarrow> password_account list \<Rightarrow> thrown + password_account option" where
  "findPasswordByUserId oid userId c =
     (case oid userId of None \<Rightarrow> Inl Unknown | Some u \<Rightarrow> Inr (findOne (\<lambda>a. pa_userId a = u) c))"

definition updatePasswordHash ::
  "(string \<Rightarrow> string option) \<Rightarrow> millis \<Rightarrow> string \<Rightarrow> string \<Rightarrow> password_account list \<Rightarrow> password_account list option" where
  "updatePasswordHash oid now userId hash c =
     (case oid userId of None \<Rightarrow> None
      | Some u \<Rightarrow> Some (updateFirst (\<lambda>a. pa_userId a = u) (\<lambda>a. a\<lparr>pa_passwordHash := hash, pa_updatedAt := now\<rparr>) c))"

section \<open>Sign-in\<close>

record auth_tokens =
  at_accessToken :: string
  at_refreshToken :: string
  at_id :: string
  at_provider :: string
  at_providerUserId :: string
  at_providerUsername :: "string option"

record auth_state =
  au_users :: "user list"
  au_oauth :: "oauth_account list"
  au_password :: "password_account list"
  au_devices :: "device_token list"
  au_system :: system

definition AUTH_PROVIDER_EMAIL :: string where
  "AUTH_PROVIDER_EMAIL = ''email''"

definition signTokensForUser ::
  "(payload \<Rightarrow> string) \<Rightarrow> millis \<Rightarrow> string \<Rightarrow> string \<Rightarrow> string \<Rightarrow> string option \<Rightarrow> int \<Rightarrow> thrown + auth_tokens" where
  "signTokensForUser sign now userId prov provUserId username tokenVersion =
     (case signAccessToken sign now userId prov provUserId of
        Inl e \<Rightarrow> Inl (Api e)
      | Inr access \<Rightarrow>
          (case signRefreshToken sign now userId tokenVersion of
             Inl e \<Rightarrow> Inl (Api e)
           | Inr refresh \<Rightarrow> Inr
               \<lparr>at_accessToken = access, at_refreshToken = refresh, at_id = userId, at_provider = prov,
                at_providerUserId = provUserId, at_providerUsername = username\<rparr>))"

definition version_or_zero :: "user option \<Rightarrow> int" where
  "version_or_zero u = (case u of None \<Rightarrow> 0 | Some d \<Rightarrow> (case u_tokenVersion d of None \<Rightarrow> 0 | Some v \<Rightarrow> v))"

definition upsertFromOAuth ::
  "(string \<Rightarrow> string option) \<Rightarrow> (payload \<Rightarrow> string) \<Rightarrow> (auth_state \<Rightarrow> auth_state) \<Rightarrow> millis \<Rightarrow> string
   \<Rightarrow> string \<Rightarrow> string \<Rightarrow> string option \<Rightarrow> string option \<Rightarrow> auth_state
   \<Rightarrow> (thrown + auth_tokens \<times> account_status) \<times> auth_state" where
  \<comment> \<open>\<open>env\<close> runs between the account upsert and the user query\<close>
  "upsertFromOAuth oid sign env now potentialUserId prov pid username email s =
     (let (account, oa) = upsertOAuth now potentialUserId prov pid username email (au_oauth s);
          s1 = env (s\<lparr>au_oauth := oa\<rparr>);
          tokens = (\<lambda>v. signTokensForUser sign now (oa_userId account) prov pid (oa_providerUsername account) v)
      in if oa_userId account = potentialUserId
         then (case createUser now potentialUserId (au_users s1) of
                 None \<Rightarrow> (Inl Unknown, s1)
               | Some us \<Rightarrow> (map_sum id (\<lambda>t. (t, Created)) (tokens 0), s1\<lparr>au_users := us\<rparr>))
         else (map_sum id (\<lambda>t. (t, Existing))
                 (tokens (version_or_zero (findById oid (oa_userId account) (au_users s1)))), s1))"

record oauth_identity =
  oi_providerUserId :: string
  oi_providerUsername :: "string option"
  oi_email :: "string option"

definition authenticateOAuth ::
  "(string \<Rightarrow> string option) \<Rightarrow> (payload \<Rightarrow> string) \<Rightarrow> (auth_state \<Rightarrow> auth_state) \<Rightarrow> millis \<Rightarrow> string
   \<Rightarrow> string \<Rightarrow> thrown + oauth_identity \<Rightarrow> auth_state
   \<Rightarrow> (thrown + auth_tokens \<times> account_status) \<times> auth_state" where
  \<comment> \<open>the argument after the provider is what \<open>provider.authenticate\<close> gives.  The \<open>return\<close> in
     the \<open>try\<close> does not await, so only failures of the provider are turned into a 502\<close>
  "authenticateOAuth oid sign env now potentialUserId prov identity s =
     (case identity of
        Inl _ \<Rightarrow> (Inl (Api BadGatewayError), s)
      | Inr i \<Rightarrow> upsertFromOAuth oid sign env now potentialUserId prov
          (oi_providerUserId i) (oi_providerUsername i) (oi_email i) s)"

definition authenticateAppleNative ::
  "(string \<Rightarrow> string option) \<Rightarrow> (payload \<Rightarrow> string) \<Rightarrow> (auth_state \<Rightarrow> auth_state) \<Rightarrow> millis \<Rightarrow> string
   \<Rightarrow> oauth_identity \<Rightarrow> auth_state \<Rightarrow> (thrown + auth_tokens \<times> account_status) \<times> auth_state" where
  "authenticateAppleNative oid sign env now potentialUserId i s =
     upsertFromOAuth oid sign env now potentialUserId ''apple''
       (oi_providerUserId i) (oi_providerUsername i) (oi_email i) s"

definition authenticatePassword ::
  "(string \<Rightarrow> string option) \<Rightarrow> (payload \<Rightarrow> string) \<Rightarrow> (string \<Rightarrow> string \<Rightarrow> bool option) \<Rightarrow> (string \<Rightarrow> bool)
   \<Rightarrow> string \<Rightarrow> (nat \<Rightarrow> auth_state \<Rightarrow> auth_state) \<Rightarrow> millis \<Rightarrow> string \<Rightarrow> string \<Rightarrow> auth_state
   \<Rightarrow> (thrown + auth_tokens \<times> account_status) \<times> auth_state" where
  \<comment> \<open>\<open>newHash\<close> is \<open>argon2.hash(password)\<close>; the dummy verification of the unknown-email path
     changes nothing and its failure is ignored\<close>
  "authenticatePassword oid sign verifyHash needsRehash newHash env now email password s =
     (case findByEmail email (au_password s) of
        None \<Rightarrow> (Inl (Api UnauthenticatedError), s)
      | Some account \<Rightarrow>
          (case verifyHash (pa_passwordHash account) password of
             None \<Rightarrow> (Inl Unknown, s)
           | Some False \<Rightarrow> (Inl (Api UnauthenticatedError), s)
           | Some True \<Rightarrow>
               (case (if needsRehash (pa_passwordHash account)
                      then map_option (\<lambda>pa. (env 0 s)\<lparr>au_password := pa\<rparr>)
                             (updatePasswordHash oid now (pa_userId account) newHash (au_password (env 0 s)))
                      else Some s) of
                  None \<Rightarrow> (Inl Unknown, env 0 s)
                | Some s1 \<Rightarrow>
                    let s2 = env 1 s1 in
                    (case findById oid (pa_userId account) (au_users s2) of
                       None \<Rightarrow> (Inl (Api UnauthenticatedError), s2)
                     | Some u \<Rightarrow>
                         (map_sum id (\<lambda>t. (t, Existing))
                            (signTokensForUser sign now (pa_userId account) AUTH_PROVIDER_EMAIL (pa_userId account)
                               (Some (pa_email account)) (version_or_zero (Some u))), s2)))))"

section \<open>Refreshing\<close>

definition same_version :: "int option \<Rightarrow> js_number \<Rightarrow> bool" where
  \<comment> \<open>\<open>user.tokenVersion === tokenVersion\<close>\<close>
  "same_version stored claimed = (case (stored, claimed) of (Some v, Integer w) \<Rightarrow> v = w | _ \<Rightarrow> False)"

definition refreshAuthTokens ::
  "(string \<Rightarrow> string option) \<Rightarrow> (payload \<Rightarrow> string) \<Rightarrow> (string \<Rightarrow> payload option) \<Rightarrow> millis \<Rightarrow> string
   \<Rightarrow> auth_state \<Rightarrow> thrown + auth_tokens" where
  "refreshAuthTokens oid sign verify now token s =
     (case Option.bind (verify token) refreshTokenPayloadSchema of
        None \<Rightarrow> Inl (Api UnauthenticatedError)
      | Some p \<Rightarrow>
          let userId = rp_userId p in
          (case (findOAuthByUserId oid userId (au_oauth s), findPasswordByUserId oid userId (au_password s)) of
             (Inr oauth, Inr password) \<Rightarrow>
               (case findById oid userId (au_users s) of
                  None \<Rightarrow> Inl (Api UnauthenticatedError)
                | Some u \<Rightarrow>
                    if \<not> same_version (u_tokenVersion u) (rp_tokenVersion p) then Inl (Api UnauthenticatedError)
                    else (case (oauth, password) of
                       (Some a, _) \<Rightarrow> signTokensForUser sign now userId (oa_provider a) (oa_providerUserId a)
                            (oa_providerUsername a) (version_or_zero (Some u))
                     | (None, Some a) \<Rightarrow> signTokensForUser sign now userId AUTH_PROVIDER_EMAIL userId
                            (Some (pa_email a)) (version_or_zero (Some u))
                     | (None, None) \<Rightarrow> Inl (Api UnauthenticatedError)))
           | _ \<Rightarrow> Inl Unknown))"

section \<open>Signing out\<close>

definition logoutUser ::
  "(string \<Rightarrow> string option) \<Rightarrow> bool \<Rightarrow> (auth_state \<Rightarrow> auth_state) \<Rightarrow> millis \<Rightarrow> string \<Rightarrow> auth_state
   \<Rightarrow> (thrown + unit) \<times> auth_state" where
  \<comment> \<open>\<open>push\<close> is whether the service was given a device token repository; \<open>env\<close> runs
     between the two writes\<close>
  "logoutUser oid push env now userId s =
     (case incrementTokenVersion oid now userId (au_users s) of
        None \<Rightarrow> (Inl Unknown, s)
      | Some us \<Rightarrow>
          if \<not> push then (Inr (), s\<lparr>au_users := us\<rparr>)
          else let s1 = env (s\<lparr>au_users := us\<rparr>) in
            (case oid userId of None \<Rightarrow> (Inl Unknown, s1)
             | Some u \<Rightarrow> (Inr (), s1\<lparr>au_devices := deleteAllForUser u (au_devices s1)\<rparr>)))"

definition revokeAccount ::
  "(string \<Rightarrow> string option) \<Rightarrow> bool \<Rightarrow> (bridge list \<Rightarrow> bridge list) \<Rightarrow> (nat \<Rightarrow> system \<Rightarrow> system)
   \<Rightarrow> (nat \<Rightarrow> auth_state \<Rightarrow> auth_state) \<Rightarrow> millis \<Rightarrow> string \<Rightarrow> auth_state \<Rightarrow> (thrown + unit) \<times> auth_state" where
  \<comment> \<open>\<open>AuthService.revoke\<close>: the bridges first, so that a failure leaves the tokens valid\<close>
  "revokeAccount oid push benv senv env now userId s =
     (case revokeAllBridges oid benv senv now userId (au_system s) of
        (Inl e, sy) \<Rightarrow> (Inl e, s\<lparr>au_system := sy\<rparr>)
      | (Inr _, sy) \<Rightarrow> logoutUser oid push (env 1) now userId (env 0 (s\<lparr>au_system := sy\<rparr>)))"

section \<open>The profile\<close>

record auth_profile =
  pf_id :: string
  pf_provider :: string
  pf_providerUserId :: string
  pf_providerUsername :: "string option"

definition findUserAuthProfile :: "(string \<Rightarrow> string option) \<Rightarrow> string \<Rightarrow> auth_state \<Rightarrow> thrown + auth_profile option" where
  "findUserAuthProfile oid userId s =
     (case (findOAuthByUserId oid userId (au_oauth s), findPasswordByUserId oid userId (au_password s)) of
        (Inr oauth, Inr password) \<Rightarrow>
          Inr (case findById oid userId (au_users s) of
                 None \<Rightarrow> None
               | Some _ \<Rightarrow>
                   (case (oauth, password) of
                      (Some a, _) \<Rightarrow> Some \<lparr>pf_id = userId, pf_provider = oa_provider a,
                          pf_providerUserId = oa_providerUserId a, pf_providerUsername = oa_providerUsername a\<rparr>
                    | (None, Some a) \<Rightarrow> Some \<lparr>pf_id = userId, pf_provider = AUTH_PROVIDER_EMAIL,
                          pf_providerUserId = userId, pf_providerUsername = Some (pa_email a)\<rparr>
                    | (None, None) \<Rightarrow> None))
      | _ \<Rightarrow> Inl Unknown)"

definition authMe ::
  "(string \<Rightarrow> string option) \<Rightarrow> string \<Rightarrow> auth_state \<Rightarrow> thrown + auth_profile \<times> bridge_summary list" where
  \<comment> \<open>\<open>GET /auth/me\<close>\<close>
  "authMe oid userId s =
     (case findUserAuthProfile oid userId s of
        Inl e \<Rightarrow> Inl e
      | Inr None \<Rightarrow> Inl (Api NotFoundError)
      | Inr (Some p) \<Rightarrow> Inr (p, listForUser oid userId (sy_bridges (au_system s))))"

end
