(* ===== verification/AuthProps.thy ===== *)
theory AuthProps
  imports Auth
begin

text \<open>
  Properties of the accounts: one account per provider identity, what a session can do
  until it is signed out, and the order of a revocation.
\<close>

section \<open>One account per identity\<close>

inductive oauth_step :: "oauth_account list \<Rightarrow> oauth_account list \<Rightarrow> bool" where
  upsert: "oauth_step c (snd (upsertOAuth now potentialUserId prov pid username email c))"

definition account_of :: "string \<times> string \<Rightarrow> oauth_account list \<Rightarrow> oauth_account option" where
  "account_of k c = findByProvider (fst k) (snd k) c"

definition owner :: "string \<times> string \<Rightarrow> oauth_account list \<Rightarrow> string option" where
  "owner k c = map_option oa_userId (account_of k c)"

definition stored_username :: "string \<times> string \<Rightarrow> oauth_account list \<Rightarrow> string option" where
  "stored_username k c = Option.bind (account_of k c) oa_providerUsername"

definition stored_email :: "string \<times> string \<Rightarrow> oauth_account list \<Rightarrow> string option" where
  "stored_email k c = Option.bind (account_of k c) oa_email"

lemmas account_defs = account_of_def owner_def stored_username_def stored_email_def findByProvider_def

lemma upsert_other:
  assumes "k \<noteq> (prov, pid)"
  shows "account_of k (snd (upsertOAuth now i prov pid username email c)) = account_of k c"
proof -
  let ?q = "of_identity prov pid" and ?k = "of_identity (fst k) (snd k)"
  let ?f = "\<lambda>a. a\<lparr>oa_providerUsername := keep_present username (oa_providerUsername a),
                    oa_email := keep_present email (oa_email a), oa_updatedAt := now\<rparr>"
  have apart: "?q a \<Longrightarrow> \<not> ?k a" "?q a \<Longrightarrow> \<not> ?k (?f a)" for a
    using assms by (cases k, auto simp: of_identity_def)+
  have kept: "findOne ?k (updateFirst ?q ?f c) = findOne ?k c"
    by (rule findOne_updateFirst_other) (use apart in auto)
  show ?thesis
  proof (cases "findOne ?q c")
    case None
    have "\<not> ?k \<lparr>oa_userId = i, oa_provider = prov, oa_providerUserId = pid, oa_providerUsername = username,
        oa_email = email, oa_createdAt = now, oa_updatedAt = now\<rparr>"
      using assms by (cases k) (auto simp: of_identity_def)
    then show ?thesis
      using None by (simp add: account_defs upsertOAuth_def findOneAndUpdate_def findOne_append Let_def split: option.split)
  next
    case (Some b)
    then show ?thesis using kept by (simp add: account_defs upsertOAuth_def findOneAndUpdate_def)
  qed
qed

lemma upsert_same:
  assumes "upsertOAuth now i prov pid username email c = (a, c')"
  shows "account_of (prov, pid) c' = Some a" and "oa_provider a = prov" and "oa_providerUserId a = pid"
    and "account_of (prov, pid) c = None \<Longrightarrow> oa_userId a = i \<and> oa_providerUsername a = username \<and> oa_email a = email"
    and "account_of (prov, pid) c = Some b \<Longrightarrow> oa_userId a = oa_userId b \<and>
       oa_providerUsername a = keep_present username (oa_providerUsername b) \<and>
       oa_email a = keep_present email (oa_email b)"
proof -
  let ?q = "of_identity prov pid"
  let ?f = "\<lambda>a. a\<lparr>oa_providerUsername := keep_present username (oa_providerUsername a),
                    oa_email := keep_present email (oa_email a), oa_updatedAt := now\<rparr>"
  have "account_of (prov, pid) c' = Some a \<and> oa_provider a = prov \<and> oa_providerUserId a = pid \<and>
     (account_of (prov, pid) c = None \<longrightarrow> oa_userId a = i \<and> oa_providerUsername a = username \<and> oa_email a = email) \<and>
     (\<forall>b. account_of (prov, pid) c = Some b \<longrightarrow> oa_userId a = oa_userId b \<and>
       oa_providerUsername a = keep_present username (oa_providerUsername b) \<and>
       oa_email a = keep_present email (oa_email b))"
  proof (cases "findOne ?q c")
    case None
    then show ?thesis using assms
      by (auto simp: upsertOAuth_def findOneAndUpdate_def Let_def account_defs findOne_append of_identity_def
          updateFirst_none)
  next
    case (Some b)
    note f = findOne_updateFirst [OF Some, of ?f]
    have "of_identity prov pid b" using findOne_Some [OF Some] by simp
    then show ?thesis using assms Some f
      by (auto simp: upsertOAuth_def findOneAndUpdate_def account_defs of_identity_def)
  qed
  then show "account_of (prov, pid) c' = Some a" "oa_provider a = prov" "oa_providerUserId a = pid"
    "account_of (prov, pid) c = None \<Longrightarrow> oa_userId a = i \<and> oa_providerUsername a = username \<and> oa_email a = email"
    "account_of (prov, pid) c = Some b \<Longrightarrow> oa_userId a = oa_userId b \<and>
       oa_providerUsername a = keep_present username (oa_providerUsername b) \<and>
       oa_email a = keep_present email (oa_email b)" by blast+
qed

lemma oauth_step_follow:
  assumes "oauth_step c c'" and "account_of k c = Some b"
  shows "\<exists>a. account_of k c' = Some a \<and> oa_userId a = oa_userId b \<and>
    (oa_providerUsername b \<noteq> None \<longrightarrow> oa_providerUsername a \<noteq> None) \<and> (oa_email b \<noteq> None \<longrightarrow> oa_email a \<noteq> None)"
  using assms(1)
proof cases
  case (upsert now i prov pid username email)
  show ?thesis
  proof (cases "k = (prov, pid)")
    case True
    obtain a c'' where a: "upsertOAuth now i prov pid username email c = (a, c'')" by fastforce
    show ?thesis
      using upsert_same [OF a] assms(2) True a upsert
      by (auto simp: keep_present_def split: option.splits)
  next
    case False
    then show ?thesis using upsert_other [OF False] assms(2) upsert by simp
  qed
qed

interpretation owner: write_once oauth_step owner
proof unfold_locales
  fix c c' k v
  assume s: "oauth_step c c'" and v: "owner k c = Some v"
  then obtain b where "account_of k c = Some b" "v = oa_userId b" by (auto simp: owner_def)
  with oauth_step_follow [OF s this(1)] show "owner k c' = Some v" by (auto simp: owner_def)
qed

interpretation username: growing oauth_step "\<lambda>_ _. True" stored_username
proof unfold_locales
  fix c c' k and v :: string
  assume s: "oauth_step c c'" and v: "stored_username k c = Some v"
  then obtain b where b: "account_of k c = Some b" "oa_providerUsername b = Some v"
    by (auto simp: stored_username_def bind_eq_Some_conv)
  from oauth_step_follow [OF s b(1)] b(2) show "\<exists>w. stored_username k c' = Some w \<and> True"
    by (auto simp: stored_username_def)
qed auto

interpretation email: growing oauth_step "\<lambda>_ _. True" stored_email
proof unfold_locales
  fix c c' k and v :: string
  assume s: "oauth_step c c'" and v: "stored_email k c = Some v"
  then obtain b where b: "account_of k c = Some b" "oa_email b = Some v"
    by (auto simp: stored_email_def bind_eq_Some_conv)
  from oauth_step_follow [OF s b(1)] b(2) show "\<exists>w. stored_email k c' = Some w \<and> True"
    by (auto simp: stored_email_def)
qed auto

lemma signTokens_result [simp]:
  "signTokensForUser sign now userId prov pid name v = Inr
     \<lparr>at_accessToken = sign (access_claims now userId prov pid), at_refreshToken = sign (refresh_claims now userId v),
      at_id = userId, at_provider = prov, at_providerUserId = pid, at_providerUsername = name\<rparr>"
  by (simp add: signTokensForUser_def)

text \<open>What a sign-in with a provider identity answers and leaves behind.\<close>

lemma upsertFromOAuth_cases:
  assumes "upsertFromOAuth oid sign env now i prov pid name email s = (Inr (r, st), s')"
  obtains a oa where "upsertOAuth now i prov pid name email (au_oauth s) = (a, oa)" and "at_id r = oa_userId a"
    and "at_providerUsername r = oa_providerUsername a" and "au_oauth s' = au_oauth (env (s\<lparr>au_oauth := oa\<rparr>))"
    and "st = Created \<and> oa_userId a = i \<and>
           createUser now i (au_users (env (s\<lparr>au_oauth := oa\<rparr>))) = Some (au_users s') \<and>
           at_refreshToken r = sign (refresh_claims now i 0) \<or>
         st = Existing \<and> oa_userId a \<noteq> i \<and> s' = env (s\<lparr>au_oauth := oa\<rparr>) \<and>
           at_refreshToken r = sign (refresh_claims now (oa_userId a)
             (version_or_zero (findById oid (oa_userId a) (au_users s'))))"
proof -
  obtain a oa where a: "upsertOAuth now i prov pid name email (au_oauth s) = (a, oa)" by fastforce
  show thesis
    by (rule that [OF a]) (use assms a in \<open>auto simp: upsertFromOAuth_def Let_def split: if_splits option.splits\<close>)
qed

text \<open>C8: One identity, one account.  After a sign-in with a provider identity, whatever sign-ins
  follow, every later sign-in with that identity answers the same user and never reports
  it as created again; a user name or email the provider sends is stored, and one it
  omits never erases the stored one.\<close>
theorem oauth_identity_stable:
  assumes "upsertFromOAuth oid sign env now i prov pid name email s = (Inr (r, st), s1)"
    and "\<And>x. oauth_step\<^sup>*\<^sup>* (au_oauth x) (au_oauth (env x))"
    and "oauth_step\<^sup>*\<^sup>* (au_oauth s1) (au_oauth s2)"
    and "upsertFromOAuth oid sign env' now' i' prov pid name' email' s2 = (Inr (r', st'), s3)"
    and "i' \<noteq> at_id r"
  shows "at_id r' = at_id r \<and> st' = Existing \<and>
    (name' \<noteq> None \<longrightarrow> at_providerUsername r' = name') \<and>
    (at_providerUsername r \<noteq> None \<longrightarrow> at_providerUsername r' \<noteq> None) \<and>
    (email \<noteq> None \<longrightarrow> stored_email (prov, pid) (au_oauth s2) \<noteq> None)"
proof -
  obtain a oa where a: "upsertOAuth now i prov pid name email (au_oauth s) = (a, oa)" "at_id r = oa_userId a"
      "at_providerUsername r = oa_providerUsername a" "au_oauth s1 = au_oauth (env (s\<lparr>au_oauth := oa\<rparr>))"
    using assms(1) by (rule upsertFromOAuth_cases)
  have steps: "oauth_step\<^sup>*\<^sup>* oa (au_oauth s2)"
    using assms(2) [of "s\<lparr>au_oauth := oa\<rparr>"] assms(3) a(4) by simp
  note same = upsert_same [OF a(1)]
  have own: "owner (prov, pid) (au_oauth s2) = Some (at_id r)"
    using owner.keeps_many [OF steps] same(1) a(2) by (simp add: owner_def)
  then obtain b where b: "account_of (prov, pid) (au_oauth s2) = Some b" "oa_userId b = at_id r"
    by (auto simp: owner_def)
  have name: "oa_providerUsername a \<noteq> None \<Longrightarrow> oa_providerUsername b \<noteq> None"
    using username.grows_many [OF steps, of "(prov, pid)"] same(1) b(1) by (auto simp: stored_username_def)
  have "email \<noteq> None \<Longrightarrow> oa_email a \<noteq> None"
    using same(4,5) by (cases "account_of (prov, pid) (au_oauth s)") (auto simp: keep_present_def split: option.splits)
  then have mail: "email \<noteq> None \<Longrightarrow> stored_email (prov, pid) (au_oauth s2) \<noteq> None"
    using email.grows_many [OF steps, of "(prov, pid)"] same(1) by (auto simp: stored_email_def)
  obtain a' oa' where a': "upsertOAuth now' i' prov pid name' email' (au_oauth s2) = (a', oa')"
    "at_id r' = oa_userId a'" "at_providerUsername r' = oa_providerUsername a'"
    "st' = Created \<longrightarrow> oa_userId a' = i'"
    using assms(4) by (rule upsertFromOAuth_cases) (auto)
  from upsert_same(5) [OF a'(1) b(1)] a' b assms(5) name mail show ?thesis
    by (cases st') (auto simp: a(3) keep_present_def split: option.splits)
qed

section \<open>Sessions end with a logout\<close>

lemma findById_user_of: "oid i = Some i \<Longrightarrow> findById oid i c = user_of i c"
  by (simp add: findById_def user_of_def)

lemma token_version_user: "token_version i c = Some v \<Longrightarrow> \<exists>d. user_of i c = Some d \<and> u_tokenVersion d = Some v"
  by (auto simp: token_version_def bind_eq_Some_conv)

lemma logout_bumps:
  assumes "logoutUser oid push env now i s = (Inr (), s')" and "oid i = Some i"
    and "\<And>x. (user_step oid)\<^sup>*\<^sup>* (au_users x) (au_users (env x))"
    and "token_version i (au_users s) = Some v"
  shows "\<exists>w. token_version i (au_users s') = Some w \<and> v < w"
    and "push \<Longrightarrow> findTokensByUserId i (au_devices s') = []"
proof -
  let ?us = "updateFirst (\<lambda>d. u_id d = i)
      (\<lambda>d. d\<lparr>u_tokenVersion := Some (case u_tokenVersion d of None \<Rightarrow> 1 | Some v \<Rightarrow> v + 1), u_updatedAt := now\<rparr>) (au_users s)"
  obtain d where d: "findOne (\<lambda>d. u_id d = i) (au_users s) = Some d" "u_tokenVersion d = Some v"
    using token_version_user [OF assms(4)] by (auto simp: user_of_def)
  have "u_id d = i" using findOne_Some [OF d(1)] by simp
  then have "token_version i ?us = Some (v + 1)"
    using findOne_updateFirst [OF d(1), of "\<lambda>d. d\<lparr>u_tokenVersion := Some (case u_tokenVersion d of
        None \<Rightarrow> 1 | Some v \<Rightarrow> v + 1), u_updatedAt := now\<rparr>"] d(2)
    by (simp add: token_version_def user_of_def)
  moreover have "(user_step oid)\<^sup>*\<^sup>* ?us (au_users s')"
    using assms(1,2) assms(3) [of "s\<lparr>au_users := ?us\<rparr>"]
    by (auto simp: logoutUser_def incrementTokenVersion_def Let_def split: if_splits)
  ultimately show "\<exists>w. token_version i (au_users s') = Some w \<and> v < w"
    using version.grows_many by fastforce
  show "push \<Longrightarrow> findTokensByUserId i (au_devices s') = []"
    using assms(1,2) by (auto simp: logoutUser_def incrementTokenVersion_def Let_def findTokensByUserId_def
        deleteAllForUser_def filter_empty_conv)
qed

lemma created_user_version:
  assumes "createUser now i c = Some c'" and "user_of i c' = Some d"
  shows "u_tokenVersion d = Some 0"
proof -
  obtain n where n: "c' = c @ [n]" "u_id n = i" "u_tokenVersion n = Some 0" "\<forall>x \<in> set c. u_id x \<noteq> i"
    using assms(1) by (auto simp: createUser_def insertOne_def split: if_splits)
  then have "findOne (\<lambda>d. u_id d = i) c = None" by (simp add: findOne_None)
  with n assms(2) show ?thesis by (simp add: user_of_def findOne_append)
qed

lemma sign_in_version:
  assumes "upsertFromOAuth oid sign env now i prov pid name email s = (Inr (r, st), s')"
    and "oid (at_id r) = Some (at_id r)" and "token_version (at_id r) (au_users s') = Some v"
  shows "at_refreshToken r = sign (refresh_claims now (at_id r) v)"
proof -
  obtain a oa where "upsertOAuth now i prov pid name email (au_oauth s) = (a, oa)" and a: "at_id r = oa_userId a"
    and "at_providerUsername r = oa_providerUsername a" and "au_oauth s' = au_oauth (env (s\<lparr>au_oauth := oa\<rparr>))"
    and st: "st = Created \<and> oa_userId a = i \<and> createUser now i (au_users (env (s\<lparr>au_oauth := oa\<rparr>))) = Some (au_users s') \<and>
       at_refreshToken r = sign (refresh_claims now i 0) \<or>
     st = Existing \<and> oa_userId a \<noteq> i \<and> s' = env (s\<lparr>au_oauth := oa\<rparr>) \<and>
       at_refreshToken r = sign (refresh_claims now (oa_userId a)
             (version_or_zero (findById oid (oa_userId a) (au_users s'))))"
    using assms(1) by (rule upsertFromOAuth_cases)
  obtain d where d: "user_of (at_id r) (au_users s') = Some d" "u_tokenVersion d = Some v"
    using token_version_user [OF assms(3)] by blast
  from st show ?thesis
  proof (elim disjE conjE)
    assume "oa_userId a = i" "createUser now i (au_users (env (s\<lparr>au_oauth := oa\<rparr>))) = Some (au_users s')"
      and r: "at_refreshToken r = sign (refresh_claims now i 0)"
    then have "v = 0" using created_user_version d a by fastforce
    with r \<open>oa_userId a = i\<close> a show ?thesis by simp
  next
    assume "at_refreshToken r = sign (refresh_claims now (oa_userId a)
             (version_or_zero (findById oid (oa_userId a) (au_users s'))))"
    with a d findById_user_of [where oid = oid, OF assms(2)] show ?thesis by (simp add: version_or_zero_def)
  qed
qed

lemma account_found_by_user:
  assumes "account_of k c = Some a" and "oid (oa_userId a) = Some (oa_userId a)"
  shows "\<exists>b. findOAuthByUserId oid (oa_userId a) c = Inr (Some b)"
proof -
  have "a \<in> set c" using assms(1) by (auto simp: account_defs dest: findOne_Some)
  then show ?thesis using assms(2)
    by (cases "findOne (\<lambda>x. oa_userId x = oa_userId a) c") (auto simp: findOAuthByUserId_def findOne_None)
qed

lemma refresh_decides:
  assumes "oid i = Some i" and "user_of i (au_users s) = Some d" and "u_tokenVersion d = Some w"
    and "verify token = Some (refresh_claims issued i v)"
  shows "v \<noteq> w \<Longrightarrow> refreshAuthTokens oid sign verify now token s = Inl (Api UnauthenticatedError)"
    and "v = w \<Longrightarrow> findOAuthByUserId oid i (au_oauth s) = Inr (Some b) \<Longrightarrow>
      \<exists>r. refreshAuthTokens oid sign verify now token s = Inr r \<and> at_id r = i \<and>
          at_refreshToken r = sign (refresh_claims now i v)"
  using assms
  by (auto simp: refreshAuthTokens_def refresh_claims_valid findById_user_of Let_def same_version_def
      findOAuthByUserId_def findPasswordByUserId_def version_or_zero_def)


section \<open>What the sign-in leaves open\<close>

text \<open>A sign-in that fails between its two writes leaves an account without a user.  From
  then on that identity signs in, as an existing user, with a session that cannot be
  refreshed; nothing creates the user again.\<close>

lemma orphaned_account:
  assumes "account_of (prov, pid) (au_oauth s) = Some a" and "oid (oa_userId a) = Some (oa_userId a)"
    and "user_of (oa_userId a) (au_users s) = None" and "oa_userId a \<noteq> i"
    and "upsertFromOAuth oid sign id now i prov pid name email s = (Inr (r, st), s')"
    and "verify (at_refreshToken r) = Some (refresh_claims now (oa_userId a) 0)"
  shows "at_id r = oa_userId a \<and> st = Existing \<and> au_users s' = au_users s \<and>
    refreshAuthTokens oid sign verify t (at_refreshToken r) s' = Inl (Api UnauthenticatedError)"
proof -
  obtain a' oa where a': "upsertOAuth now i prov pid name email (au_oauth s) = (a', oa)" "at_id r = oa_userId a'"
    "st = Created \<and> oa_userId a' = i \<or> st = Existing \<and> s' = s\<lparr>au_oauth := oa\<rparr>"
    using assms(5) by (rule upsertFromOAuth_cases) auto
  then have "oa_userId a' = oa_userId a" using upsert_same(5) [OF a'(1) assms(1)] by simp
  with a' assms show ?thesis
    by (auto simp: refreshAuthTokens_def refresh_claims_valid findById_user_of Let_def
        findOAuthByUserId_def findPasswordByUserId_def)
qed

text \<open>A user document without a token version signs in at version zero, but the comparison
  at the refresh is strict, so its session cannot be refreshed until a logout has set the
  version.\<close>

lemma missing_version_never_refreshes:
  assumes "oid i = Some i" and "user_of i (au_users s) = Some d" and "u_tokenVersion d = None"
    and "verify token = Some (refresh_claims issued i v)"
  shows "refreshAuthTokens oid sign verify now token s = Inl (Api UnauthenticatedError)"
  using assms
  by (auto simp: refreshAuthTokens_def refresh_claims_valid findById_user_of Let_def same_version_def
      findOAuthByUserId_def findPasswordByUserId_def)

section \<open>Revoking an account\<close>

definition owned_rows :: "string \<Rightarrow> system \<Rightarrow> glossary_entry list" where
  \<comment> \<open>the glossary rows of a user that belong to a bridge of that user\<close>
  "owned_rows u sy = filter (\<lambda>e. ge_userId e = u \<and> (case scope_bridge (ge_scope e) of None \<Rightarrow> False
     | Some k \<Rightarrow> \<exists>b \<in> set (sy_bridges sy). br_bridgeId b = k \<and> br_userId b = u)) (sy_glossary sy)"

lemma revokeAll_idle:
  assumes "revokeAllBridges oid id (\<lambda>_. id) now i sy = (Inr (), sy')" and "oid i = Some i"
  shows "findByUserId oid i (sy_bridges sy') = []" and "owned_rows i sy' = []"
proof -
  let ?bs = "updateMany (owned_live i) (revoke_update now) (sy_bridges sy)"
  obtain cand where cand: "findBridgeLocalOwnerIdsByUser i (sy_glossary sy) = Inr cand"
    and sy': "sy_bridges sy' = ?bs"
      "sy_glossary sy' = deleteByUserAndBridges i (findRevokedIdsForUser oid i cand ?bs) (sy_glossary sy)"
  proof (cases "findBridgeLocalOwnerIdsByUser i (sy_glossary sy)")
    case (Inl e)
    then show ?thesis using assms by (simp add: revokeAllBridges_def revokeAllForUser_def Let_def)
  next
    case (Inr cand)
    then show ?thesis using assms by (intro that [of cand]) (auto simp: revokeAllBridges_def revokeAllForUser_def Let_def)
  qed
  have none: "\<not> owned_live i b" if b: "b \<in> set ?bs" for b
  proof -
    obtain d where "b = (if owned_live i d then revoke_update now d else d)"
      using b unfolding updateMany_def set_map by (rule imageE)
    then show ?thesis by (cases "owned_live i d") (simp_all add: owned_live_def revoke_update_def)
  qed
  then show "findByUserId oid i (sy_bridges sy') = []"
    using assms(2) by (simp add: findByUserId_def sy'(1) filter_empty_conv)
  have "k \<in> set (findRevokedIdsForUser oid i cand ?bs)"
    if e: "e \<in> set (sy_glossary sy)" "ge_userId e = i" "scope_bridge (ge_scope e) = Some k"
      and b: "b \<in> set ?bs" "br_bridgeId b = k" "br_userId b = i" for e k b
  proof -
    have c: "cand = remdups (concat (map (\<lambda>e. case scope_bridge (ge_scope e) of None \<Rightarrow> [] | Some b \<Rightarrow> [b])
        (filter (\<lambda>e. ge_userId e = i) (sy_glossary sy))))"
      using cand by (simp add: findBridgeLocalOwnerIdsByUser_def Let_def split: if_splits)
    have "[k] \<in> set (map (\<lambda>e. case scope_bridge (ge_scope e) of None \<Rightarrow> [] | Some b \<Rightarrow> [b])
        (filter (\<lambda>e. ge_userId e = i) (sy_glossary sy)))"
      unfolding set_map by (rule image_eqI [where x = e]) (use e in simp_all)
    then have "k \<in> set cand" unfolding c set_remdups set_concat by (rule UnionI [OF imageI]) simp
    moreover have "br_revokedAt b \<noteq> None" using none [OF b(1)] b(3) by (auto simp: owned_live_def)
    ultimately show ?thesis using b assms(2) by (auto simp: findRevokedIdsForUser_def)
  qed
  note covered = this
  have "\<not> (ge_userId e = i \<and> (case scope_bridge (ge_scope e) of None \<Rightarrow> False
     | Some k \<Rightarrow> \<exists>b \<in> set ?bs. br_bridgeId b = k \<and> br_userId b = i))"
    if e: "e \<in> set (deleteByUserAndBridges i (findRevokedIdsForUser oid i cand ?bs) (sy_glossary sy))" for e
  proof (cases "scope_bridge (ge_scope e)")
    case (Some k)
    have "e \<in> set (sy_glossary sy)" and "\<not> (ge_userId e = i \<and> k \<in> set (findRevokedIdsForUser oid i cand ?bs))"
      using e Some by (auto simp: deleteByUserAndBridges_def split: if_splits)
    with covered Some show ?thesis by auto
  qed simp
  then show "owned_rows i sy' = []" unfolding owned_rows_def sy' filter_empty_conv by blast
qed


section \<open>Concrete runs\<close>

definition demo_sign :: "payload \<Rightarrow> string" where
  "demo_sign m = (if string_member m ''tokenType'' = Some ''access'' then ''A'' else ''R'')"

definition demo_verify :: "string \<Rightarrow> payload option" where
  "demo_verify s = (if s = ''R'' then Some (refresh_claims 5000 ''u1'' 0) else None)"

definition demo_state :: auth_state where
  "demo_state = \<lparr>au_users = [], au_oauth = [], au_password = [], au_devices = [],
     au_system = \<lparr>sy_bridges = [], sy_glossary = [], sy_tracker = empty_tracker\<rparr>\<rparr>"

definition demo_account :: "string option \<Rightarrow> millis \<Rightarrow> oauth_account" where
  "demo_account name t = \<lparr>oa_userId = ''u1'', oa_provider = ''github'', oa_providerUserId = ''g1'',
     oa_providerUsername = name, oa_email = None, oa_createdAt = 5000, oa_updatedAt = t\<rparr>"

definition demo_signed_in :: auth_state where
  "demo_signed_in = demo_state\<lparr>au_oauth := [demo_account (Some ''ann'') 5000],
     au_users := the (createUser 5000 ''u1'' [])\<rparr>"

definition demo_tokens_of :: "string option \<Rightarrow> auth_tokens" where
  "demo_tokens_of name = \<lparr>at_accessToken = ''A'', at_refreshToken = ''R'', at_id = ''u1'', at_provider = ''github'',
     at_providerUserId = ''g1'', at_providerUsername = name\<rparr>"

lemma demo_sign_simps [simp]:
  "demo_sign (access_claims t u p q) = ''A''" "demo_sign (refresh_claims t u v) = ''R''"
  by (simp_all add: demo_sign_def access_claims_def refresh_claims_def base_payload_def)

lemma demo_sign_in:
  "upsertFromOAuth Some demo_sign id 5000 ''u1'' ''github'' ''g1'' (Some ''ann'') None demo_state =
     (Inr (demo_tokens_of (Some ''ann''), Created), demo_signed_in)"
  by (simp add: upsertFromOAuth_def upsertOAuth_def findOneAndUpdate_def Let_def demo_state_def createUser_def
      insertOne_def demo_signed_in_def demo_account_def demo_tokens_of_def)

theorem oauth_identity_stable_witness:
  "\<exists>r s3. upsertFromOAuth Some demo_sign id 9000 ''u2'' ''github'' ''g1'' None (Some ''a@b'') demo_signed_in =
       (Inr (r, Existing), s3) \<and> at_id r = ''u1'' \<and> at_providerUsername r \<noteq> None"
proof -
  have again: "upsertFromOAuth Some demo_sign id 9000 ''u2'' ''github'' ''g1'' None (Some ''a@b'') demo_signed_in =
      (Inr (demo_tokens_of (Some ''ann''), Existing),
       demo_signed_in\<lparr>au_oauth := [(demo_account (Some ''ann'') 9000)\<lparr>oa_email := Some ''a@b''\<rparr>]\<rparr>)"
    by (simp add: upsertFromOAuth_def upsertOAuth_def findOneAndUpdate_def Let_def demo_signed_in_def
        demo_account_def demo_tokens_of_def of_identity_def keep_present_def)
  show ?thesis
    using oauth_identity_stable [OF demo_sign_in _ rtranclp.rtrancl_refl again] again
    by (auto simp: demo_tokens_of_def)
qed



end
