(* ===== verification/Activation.thy ===== *)
theory Activation
  imports Documents Errors
begin

text \<open>
  The activation collection, \<open>src/repositories/activation-state-repo.ts\<close>: one
  document per user with the dates of its first milestones, the baselines its
  reminders count from and the dates they were sent.  The repository creates
  every document with all its fields, so a date is there or null and a field is
  an \<open>option\<close>.  An aggregation pipeline is one function per stage; the stage
  reads the document the stage before it left.
\<close>

section \<open>The document\<close>

record activation_state =
  as_userId :: string
  as_mobileSetupAt :: "millis option"
  as_bridgeSetupAt :: "millis option"
  as_firstSessionAt :: "millis option"
  as_bridgeReminderBaseAt :: "millis option"
  as_sessionReminderBaseAt :: "millis option"
  as_bridgeReminder1SentAt :: "millis option"
  as_bridgeReminder2SentAt :: "millis option"
  as_sessionReminderSentAt :: "millis option"
  as_backfilledAt :: "millis option"
  as_createdAt :: millis
  as_updatedAt :: millis

definition or_else :: "'a option \<Rightarrow> 'a option \<Rightarrow> 'a option" where
  \<comment> \<open>\<open>x ?? y\<close> and \<open>{$ifNull: [x, y]}\<close> on a field that is a date or null\<close>
  "or_else x y = (case x of None \<Rightarrow> y | Some v \<Rightarrow> Some v)"

lemma or_else_simps [simp]: "or_else None y = y" "or_else (Some v) y = Some v" "or_else x None = x"
  by (simp_all add: or_else_def split: option.split)

lemma or_else_eq_None [simp]: "or_else x y = None \<longleftrightarrow> x = None \<and> y = None"
  by (cases x) simp_all

definition new_activation_state :: "millis \<Rightarrow> string \<Rightarrow> activation_state" where
  "new_activation_state at u =
     \<lparr>as_userId = u, as_mobileSetupAt = None, as_bridgeSetupAt = None, as_firstSessionAt = None,
      as_bridgeReminderBaseAt = None, as_sessionReminderBaseAt = None, as_bridgeReminder1SentAt = None,
      as_bridgeReminder2SentAt = None, as_sessionReminderSentAt = None, as_backfilledAt = None,
      as_createdAt = at, as_updatedAt = at\<rparr>"

definition state_of :: "string \<Rightarrow> activation_state list \<Rightarrow> activation_state option" where
  "state_of u c = findOne (\<lambda>d. as_userId d = u) c"

definition findStateByUserId ::
  "(string \<Rightarrow> string option) \<Rightarrow> string \<Rightarrow> activation_state list \<Rightarrow> activation_state option" where
  "findStateByUserId oid userId c = (case oid userId of None \<Rightarrow> None | Some u \<Rightarrow> state_of u c)"

definition createIfAbsent ::
  "(string \<Rightarrow> string option) \<Rightarrow> activation_state option \<Rightarrow> string \<Rightarrow> millis \<Rightarrow> activation_state list
   \<Rightarrow> (api_error + activation_state) \<times> activation_state list" where
  \<comment> \<open>\<open>rival\<close> is the document another request inserts while this upsert, having found none,
     is about to: the unique index then refuses ours and the winner is read back\<close>
  "createIfAbsent oid rival userId at c =
     (case oid userId of
        None \<Rightarrow> (Inl InternalServerError, c)
      | Some u \<Rightarrow>
          (case state_of u c of
             Some d \<Rightarrow> (Inr d, c)
           | None \<Rightarrow>
               let c' = (case rival of Some w \<Rightarrow> if as_userId w = u then c @ [w] else c | None \<Rightarrow> c);
                   d = new_activation_state at u
               in (case insertOne as_userId d c' of
                     Some c'' \<Rightarrow> (Inr d, c'')
                   | None \<Rightarrow> (case state_of u c' of Some w \<Rightarrow> (Inr w, c') | None \<Rightarrow> (Inl InternalServerError, c')))))"

section \<open>Milestones\<close>

record milestone_update =
  mu_mobileSetupAt :: "millis option"
  mu_bridgeSetupAt :: "millis option"
  mu_firstSessionAt :: "millis option"

definition milestone_stage :: "milestone_update \<Rightarrow> millis \<Rightarrow> activation_state \<Rightarrow> activation_state" where
  \<comment> \<open>the first stage of the pipeline of \<open>recordMilestonesWithResult\<close>\<close>
  "milestone_stage m at d =
     d\<lparr>as_mobileSetupAt := or_else (as_mobileSetupAt d) (mu_mobileSetupAt m),
       as_bridgeSetupAt := or_else (as_bridgeSetupAt d) (mu_bridgeSetupAt m),
       as_firstSessionAt := (case mu_firstSessionAt m of
          None \<Rightarrow> as_firstSessionAt d
        | Some s \<Rightarrow> (case as_firstSessionAt d of
             None \<Rightarrow> Some s
           | Some f \<Rightarrow> if s < f then Some s else Some f)),
       as_bridgeReminderBaseAt :=
          or_else (as_bridgeReminderBaseAt d) (or_else (as_mobileSetupAt d) (mu_mobileSetupAt m)),
       as_updatedAt := at\<rparr>"

definition session_base_stage :: "activation_state \<Rightarrow> activation_state" where
  \<comment> \<open>its second stage\<close>
  "session_base_stage d =
     d\<lparr>as_sessionReminderBaseAt := or_else (as_sessionReminderBaseAt d)
         (case (as_mobileSetupAt d, as_bridgeSetupAt d) of
            (Some m, Some b) \<Rightarrow> if b \<le> m then Some m else Some b
          | _ \<Rightarrow> None)\<rparr>"

definition post_image :: "milestone_update \<Rightarrow> millis \<Rightarrow> activation_state \<Rightarrow> activation_state" where
  \<comment> \<open>what the code rebuilds in JavaScript from the document before the update\<close>
  "post_image m at previous =
     (let mobile = or_else (as_mobileSetupAt previous) (mu_mobileSetupAt m);
          bridge = or_else (as_bridgeSetupAt previous) (mu_bridgeSetupAt m);
          session = (case mu_firstSessionAt m of
             Some s \<Rightarrow> if as_firstSessionAt previous = None \<or> s < the (as_firstSessionAt previous)
                       then Some s else as_firstSessionAt previous
           | None \<Rightarrow> as_firstSessionAt previous);
          bridgeBase = or_else (or_else (as_bridgeReminderBaseAt previous) (as_mobileSetupAt previous)) (mu_mobileSetupAt m);
          sessionBase = or_else (as_sessionReminderBaseAt previous)
            (if mobile \<noteq> None \<and> bridge \<noteq> None
             then (if the bridge \<le> the mobile then mobile else bridge) else None)
      in previous\<lparr>as_mobileSetupAt := mobile, as_bridgeSetupAt := bridge, as_firstSessionAt := session,
           as_bridgeReminderBaseAt := bridgeBase, as_sessionReminderBaseAt := sessionBase, as_updatedAt := at\<rparr>)"

definition recorded_milestones :: "milestone_update \<Rightarrow> activation_state \<Rightarrow> milestone_update" where
  "recorded_milestones m previous =
     \<lparr>mu_mobileSetupAt = (if as_mobileSetupAt previous = None then mu_mobileSetupAt m else None),
      mu_bridgeSetupAt = (if as_bridgeSetupAt previous = None then mu_bridgeSetupAt m else None),
      mu_firstSessionAt = (if as_firstSessionAt previous = None then mu_firstSessionAt m else None)\<rparr>"

definition recordMilestonesWithResult ::
  "(string \<Rightarrow> string option) \<Rightarrow> activation_state option \<Rightarrow> (activation_state list \<Rightarrow> activation_state list)
   \<Rightarrow> string \<Rightarrow> milestone_update \<Rightarrow> millis \<Rightarrow> activation_state list
   \<Rightarrow> (api_error + activation_state \<times> milestone_update) \<times> activation_state list" where
  \<comment> \<open>\<open>env\<close> is what other requests do between the two queries\<close>
  "recordMilestonesWithResult oid rival env userId m at c =
     (case createIfAbsent oid rival userId at c of
        (Inl e, c') \<Rightarrow> (Inl e, c')
      | (Inr _, c') \<Rightarrow>
          (case findOneAndUpdate (\<lambda>d. oid userId = Some (as_userId d))
                  (session_base_stage \<circ> milestone_stage m at) (env c') of
             (None, c'') \<Rightarrow> (Inl InternalServerError, c'')
           | (Some (previous, _), c'') \<Rightarrow> (Inr (post_image m at previous, recorded_milestones m previous), c'')))"

definition recordMilestones ::
  "(string \<Rightarrow> string option) \<Rightarrow> activation_state option \<Rightarrow> (activation_state list \<Rightarrow> activation_state list)
   \<Rightarrow> string \<Rightarrow> milestone_update \<Rightarrow> millis \<Rightarrow> activation_state list
   \<Rightarrow> (api_error + activation_state) \<times> activation_state list" where
  "recordMilestones oid rival env userId m at c =
     map_prod (map_sum id fst) id (recordMilestonesWithResult oid rival env userId m at c)"

section \<open>The backfill of one user\<close>

record backfill_input =
  bi_mobileSetupAt :: "millis option"
  bi_bridgeSetupAt :: "millis option"
  bi_firstSessionAt :: "millis option"
  bi_reminderBaseAt :: "millis option"
  bi_backfilledAt :: millis

definition evidence_stage :: "backfill_input \<Rightarrow> activation_state \<Rightarrow> activation_state" where
  "evidence_stage i d =
     d\<lparr>as_mobileSetupAt := or_else (as_mobileSetupAt d) (bi_mobileSetupAt i),
       as_bridgeSetupAt := or_else (as_bridgeSetupAt d) (bi_bridgeSetupAt i),
       as_firstSessionAt := or_else (as_firstSessionAt d) (bi_firstSessionAt i)\<rparr>"

definition baseline_stage :: "backfill_input \<Rightarrow> millis \<Rightarrow> activation_state \<Rightarrow> activation_state" where
  \<comment> \<open>\<open>now\<close> is the database's clock, \<open>$$NOW\<close>\<close>
  "baseline_stage i now d =
     d\<lparr>as_bridgeReminderBaseAt :=
         (if bi_reminderBaseAt i \<noteq> None \<and> as_mobileSetupAt d \<noteq> None \<and> as_bridgeSetupAt d = None \<and>
             as_bridgeReminder2SentAt d = None
          then bi_reminderBaseAt i else as_bridgeReminderBaseAt d),
       as_sessionReminderBaseAt :=
         (if bi_reminderBaseAt i \<noteq> None \<and> as_mobileSetupAt d \<noteq> None \<and> as_bridgeSetupAt d \<noteq> None \<and>
             as_firstSessionAt d = None \<and> as_sessionReminderSentAt d = None
          then bi_reminderBaseAt i else as_sessionReminderBaseAt d),
       as_backfilledAt := Some (bi_backfilledAt i),
       as_updatedAt := now\<rparr>"

definition applyBackfill ::
  "(string \<Rightarrow> string option) \<Rightarrow> activation_state option \<Rightarrow> (activation_state list \<Rightarrow> activation_state list)
   \<Rightarrow> millis \<Rightarrow> string \<Rightarrow> backfill_input \<Rightarrow> activation_state list
   \<Rightarrow> (api_error + activation_state \<times> bool) \<times> activation_state list" where
  "applyBackfill oid rival env now userId i c =
     (case createIfAbsent oid rival userId (bi_backfilledAt i) c of
        (Inl e, c') \<Rightarrow> (Inl e, c')
      | (Inr _, c') \<Rightarrow>
          (case findOneAndUpdate (\<lambda>d. oid userId = Some (as_userId d) \<and> as_backfilledAt d = None)
                  (baseline_stage i now \<circ> evidence_stage i) (env c') of
             (Some (_, d), c'') \<Rightarrow> (Inr (d, True), c'')
           | (None, c'') \<Rightarrow>
               (case findOne (\<lambda>d. oid userId = Some (as_userId d)) c'' of
                  Some d \<Rightarrow> (Inr (d, False), c'')
                | None \<Rightarrow> (Inl InternalServerError, c''))))"

section \<open>Reminders\<close>

datatype reminder_kind = Bridge1 | Bridge2 | Session

definition on_or_before :: "millis option \<Rightarrow> millis \<Rightarrow> bool" where
  \<comment> \<open>\<open>{$lte: cutoff}\<close>, which matches dates only\<close>
  "on_or_before t cutoff = (case t of None \<Rightarrow> False | Some x \<Rightarrow> x \<le> cutoff)"

fun reminderEligibilityFilter :: "reminder_kind \<Rightarrow> millis \<Rightarrow> activation_state \<Rightarrow> bool" where
  "reminderEligibilityFilter Bridge1 cutoff d =
     (as_bridgeSetupAt d = None \<and> as_bridgeReminder1SentAt d = None \<and>
      on_or_before (as_bridgeReminderBaseAt d) cutoff)"
| "reminderEligibilityFilter Bridge2 cutoff d =
     (as_bridgeSetupAt d = None \<and> as_bridgeReminder1SentAt d \<noteq> None \<and> as_bridgeReminder2SentAt d = None \<and>
      on_or_before (as_bridgeReminderBaseAt d) cutoff)"
| "reminderEligibilityFilter Session cutoff d =
     (as_firstSessionAt d = None \<and> as_sessionReminderSentAt d = None \<and>
      on_or_before (as_sessionReminderBaseAt d) cutoff)"

fun reminder_base :: "reminder_kind \<Rightarrow> activation_state \<Rightarrow> millis option" where
  "reminder_base Session d = as_sessionReminderBaseAt d"
| "reminder_base _ d = as_bridgeReminderBaseAt d"

fun due_reminders :: "reminder_kind \<Rightarrow> activation_state list \<Rightarrow> api_error + (string \<times> millis) list" where
  "due_reminders k [] = Inr []"
| "due_reminders k (d # ds) =
     (case reminder_base k d of
        None \<Rightarrow> Inl InternalServerError
      | Some t \<Rightarrow> map_sum id (Cons (as_userId d, t)) (due_reminders k ds))"

definition findDueReminders ::
  "reminder_kind \<Rightarrow> millis \<Rightarrow> js_number \<Rightarrow> activation_state list \<Rightarrow> api_error + (string \<times> millis) list" where
  \<comment> \<open>only documents with a baseline pass the filter, so the sort meets no null\<close>
  "findDueReminders k cutoff batchLimit c =
     (case batchLimit of
        NotAnInteger \<Rightarrow> Inl InternalServerError
      | Integer n \<Rightarrow>
          if \<not> isSafeInteger (Integer n) \<or> n < 1 then Inl InternalServerError
          else due_reminders k (take (nat n)
                 (sort_key (\<lambda>d. the (reminder_base k d)) (filter (reminderEligibilityFilter k cutoff) c))))"

definition isReminderStillDue ::
  "(string \<Rightarrow> string option) \<Rightarrow> string \<Rightarrow> reminder_kind \<Rightarrow> millis \<Rightarrow> activation_state list \<Rightarrow> bool" where
  "isReminderStillDue oid userId k cutoff c =
     (case oid userId of None \<Rightarrow> False
      | Some u \<Rightarrow> findOne (\<lambda>d. reminderEligibilityFilter k cutoff d \<and> as_userId d = u) c \<noteq> None)"

fun mark_sent :: "reminder_kind \<Rightarrow> millis \<Rightarrow> activation_state \<Rightarrow> activation_state" where
  "mark_sent Bridge1 sentAt d = d\<lparr>as_bridgeReminder1SentAt := Some sentAt, as_updatedAt := sentAt\<rparr>"
| "mark_sent Bridge2 sentAt d = d\<lparr>as_bridgeReminder2SentAt := Some sentAt, as_updatedAt := sentAt\<rparr>"
| "mark_sent Session sentAt d = d\<lparr>as_sessionReminderSentAt := Some sentAt, as_updatedAt := sentAt\<rparr>"

definition markReminderSentIfStillDue ::
  "(string \<Rightarrow> string option) \<Rightarrow> string \<Rightarrow> reminder_kind \<Rightarrow> millis \<Rightarrow> millis \<Rightarrow> activation_state list
   \<Rightarrow> bool \<times> activation_state list" where
  "markReminderSentIfStillDue oid userId k cutoff sentAt c =
     (case oid userId of None \<Rightarrow> (False, c)
      | Some u \<Rightarrow>
          (findOne (\<lambda>d. reminderEligibilityFilter k cutoff d \<and> as_userId d = u) c \<noteq> None,
           updateFirst (\<lambda>d. reminderEligibilityFilter k cutoff d \<and> as_userId d = u) (mark_sent k sentAt) c))"

section \<open>Milestones for the analytics export\<close>

record analytics_milestones =
  am_notificationRegisteredAt :: "millis option"
  am_bridgeRegisteredAt :: "millis option"
  am_legacyFirstMetadataRequestAt :: "millis option"

definition up_to :: "millis \<Rightarrow> millis option \<Rightarrow> millis option" where
  "up_to cutoff t = (case t of Some x \<Rightarrow> if x \<le> cutoff then Some x else None | None \<Rightarrow> None)"

definition analytics_milestones_of :: "millis \<Rightarrow> activation_state \<Rightarrow> analytics_milestones" where
  "analytics_milestones_of cutoff d =
     \<lparr>am_notificationRegisteredAt = up_to cutoff (as_mobileSetupAt d),
      am_bridgeRegisteredAt = up_to cutoff (as_bridgeSetupAt d),
      am_legacyFirstMetadataRequestAt = up_to cutoff (as_firstSessionAt d)\<rparr>"

definition findProductAnalyticsMilestonesByUserIds ::
  "(string \<Rightarrow> string option) \<Rightarrow> string list \<Rightarrow> millis option \<Rightarrow> activation_state list
   \<Rightarrow> api_error + (string \<rightharpoonup> analytics_milestones)" where
  \<comment> \<open>a cutoff of \<open>None\<close> is an invalid date\<close>
  "findProductAnalyticsMilestonesByUserIds oid userIds runCutoff c =
     (if length userIds < 1 \<or> 1000 < length userIds \<or> list_ex (\<lambda>u. oid u = None) userIds
      then Inl InternalServerError
      else case runCutoff of
             None \<Rightarrow> Inl InternalServerError
           | Some t \<Rightarrow> Inr (map_of (rev (map (\<lambda>d. (as_userId d, analytics_milestones_of t d))
               (filter (\<lambda>d. list_ex (\<lambda>u. oid u = Some (as_userId d)) userIds) c)))))"

end
