(* ===== verification/DailyUsage.thy ===== *)
theory DailyUsage
  imports Documents Errors "HOL-Library.List_Lexorder" "HOL-Library.Char_ord"
begin

text \<open>
  The daily usage counters, \<open>src/repositories/daily-usage-repo.ts\<close>, and the session
  metadata they meter, \<open>src/services/session-metadata-service.ts\<close>.  A day is its
  UTC key \<open>YYYY-MM-DD\<close>, which the calls take as \<open>today\<close> with the clock \<open>now\<close>.
  Transcription seconds are integers: the service rounds them up before it books
  them.  An upsert is one atomic query.
\<close>

section \<open>Counters\<close>

record daily_usage =
  du_userId :: string
  du_date :: string
  du_transcriptionSeconds :: int
  du_metadataRequestCount :: "int option"
  du_createdAt :: millis
  du_updatedAt :: millis

definition usage_of :: "string \<Rightarrow> string \<Rightarrow> daily_usage \<Rightarrow> bool" where
  "usage_of u today d \<longleftrightarrow> du_userId d = u \<and> du_date d = today"

definition getDailyTranscriptionSeconds :: "string \<Rightarrow> string \<Rightarrow> daily_usage list \<Rightarrow> int" where
  "getDailyTranscriptionSeconds u today c =
     (case findOne (usage_of u today) c of None \<Rightarrow> 0 | Some d \<Rightarrow> du_transcriptionSeconds d)"

definition findEarliestMetadataRequestAt ::
  "(string \<Rightarrow> string option) \<Rightarrow> string \<Rightarrow> daily_usage list \<Rightarrow> millis option" where
  "findEarliestMetadataRequestAt oid userId c =
     (case oid userId of
        None \<Rightarrow> None
      | Some u \<Rightarrow>
          (case sort_key du_date (filter (\<lambda>d. du_userId d = u \<and>
                  (case du_metadataRequestCount d of None \<Rightarrow> False | Some n \<Rightarrow> 0 < n)) c) of
             [] \<Rightarrow> None | d # _ \<Rightarrow> Some (du_createdAt d)))"

record booking =
  previousTotal :: int
  newTotal :: int

definition incrementTranscriptionSeconds ::
  "millis \<Rightarrow> string \<Rightarrow> string \<Rightarrow> int \<Rightarrow> daily_usage list \<Rightarrow> booking \<times> daily_usage list" where
  "incrementTranscriptionSeconds now u today seconds c =
     (case findOneAndUpdate (usage_of u today)
             (\<lambda>d. d\<lparr>du_transcriptionSeconds := du_transcriptionSeconds d + seconds, du_updatedAt := now\<rparr>) c of
        (Some (d, _), c') \<Rightarrow>
          (\<lparr>previousTotal = du_transcriptionSeconds d, newTotal = du_transcriptionSeconds d + seconds\<rparr>, c')
      | (None, c') \<Rightarrow>
          (\<lparr>previousTotal = 0, newTotal = seconds\<rparr>,
           c' @ [\<lparr>du_userId = u, du_date = today, du_transcriptionSeconds = seconds,
                  du_metadataRequestCount = None, du_createdAt = now, du_updatedAt = now\<rparr>]))"

definition incrementMetadataRequestCount ::
  "millis \<Rightarrow> string \<Rightarrow> string \<Rightarrow> daily_usage list \<Rightarrow> int \<times> daily_usage list" where
  \<comment> \<open>the count before\<close>
  "incrementMetadataRequestCount now u today c =
     (case findOneAndUpdate (usage_of u today)
             (\<lambda>d. d\<lparr>du_metadataRequestCount :=
                 Some (case du_metadataRequestCount d of None \<Rightarrow> 1 | Some n \<Rightarrow> n + 1), du_updatedAt := now\<rparr>) c of
        (Some (d, _), c') \<Rightarrow> (case du_metadataRequestCount d of None \<Rightarrow> 0 | Some n \<Rightarrow> n, c')
      | (None, c') \<Rightarrow>
          (0, c' @ [\<lparr>du_userId = u, du_date = today, du_transcriptionSeconds = 0,
                     du_metadataRequestCount = Some 1, du_createdAt = now, du_updatedAt = now\<rparr>]))"

section \<open>Branch names\<close>

abbreviation hyphen :: nat where "hyphen \<equiv> 45"

definition branch_char :: "nat \<Rightarrow> bool" where
  \<comment> \<open>\<open>[a-z0-9-]\<close>\<close>
  "branch_char c \<longleftrightarrow> 97 \<le> c \<and> c \<le> 122 \<or> 48 \<le> c \<and> c \<le> 57 \<or> c = hyphen"

definition dropWhileEnd :: "('a \<Rightarrow> bool) \<Rightarrow> 'a list \<Rightarrow> 'a list" where
  "dropWhileEnd p s = rev (dropWhile p (rev s))"

definition dash_spaces :: "utext \<Rightarrow> utext" where
  \<comment> \<open>\<open>replace(/[ _/]/g, "-")\<close>\<close>
  "dash_spaces s = map (\<lambda>c. if c \<in> {32, 95, 47} then hyphen else c) s"

definition drop_lock :: "utext \<Rightarrow> utext" where
  "drop_lock s = (if suffix (utf ''.lock'') s then take (length s - 5) s else s)"

fun squeeze :: "utext \<Rightarrow> utext" where
  \<comment> \<open>\<open>replace(/-+/g, "-")\<close>\<close>
  "squeeze (a # b # s) = (if a = hyphen \<and> b = hyphen then squeeze (b # s) else a # squeeze (b # s))"
| "squeeze s = s"

definition trim_hyphens :: "utext \<Rightarrow> utext" where
  "trim_hyphens s = dropWhileEnd (\<lambda>c. c = hyphen) (dropWhile (\<lambda>c. c = hyphen) s)"

definition before_last_hyphen :: "utext \<Rightarrow> utext" where
  \<comment> \<open>cut at the last hyphen, unless there is none or it is the first character\<close>
  "before_last_hyphen s =
     (let cut = butlast (dropWhileEnd (\<lambda>c. c \<noteq> hyphen) s) in if cut = [] then s else cut)"

definition sanitizeBranchName :: "(utext \<Rightarrow> utext) \<Rightarrow> utext \<Rightarrow> utext option" where
  \<comment> \<open>\<open>lower\<close> is the language's Unicode lower-casing; after the filter every character is ASCII\<close>
  "sanitizeBranchName lower raw =
     (if raw = [] then None
      else let s = drop_lock (dropWhileEnd (\<lambda>c. c = 46) (dash_spaces (lower raw)))
           in if sublist (utf ''..'') s then None
              else let r = trim_hyphens (squeeze (filter branch_char s));
                       r' = (if 60 < length r then before_last_hyphen (take 60 r) else r)
                   in if r' = [] then None else Some r')"

section \<open>Generating metadata\<close>

definition DAILY_METADATA_LIMIT :: int where
  "DAILY_METADATA_LIMIT = 100"

record session_metadata =
  sm_title :: utext
  sm_branchName :: utext
  sm_worktreeName :: utext

definition sanitized_reply :: "(utext \<Rightarrow> utext) \<Rightarrow> session_metadata option \<Rightarrow> api_error + session_metadata" where
  \<comment> \<open>of the model's reply, \<open>None\<close> when it is no JSON or not of the schema\<close>
  "sanitized_reply lower reply =
     (case reply of
        None \<Rightarrow> Inl InternalServerError
      | Some r \<Rightarrow>
          if sm_title r = [] \<or> sm_branchName r = [] \<or> sm_worktreeName r = [] then Inl InternalServerError
          else (case (sanitizeBranchName lower (sm_branchName r), sanitizeBranchName lower (sm_worktreeName r)) of
                  (Some b, Some w) \<Rightarrow> Inr \<lparr>sm_title = sm_title r, sm_branchName = b, sm_worktreeName = w\<rparr>
                | _ \<Rightarrow> Inl InternalServerError))"

definition generateMetadata ::
  "(utext \<Rightarrow> utext) \<Rightarrow> session_metadata option option \<Rightarrow> millis \<Rightarrow> string \<Rightarrow> string \<Rightarrow> daily_usage list
   \<Rightarrow> (api_error + session_metadata) \<times> bool \<times> daily_usage list" where
  \<comment> \<open>the second component says whether the model was asked; its answer \<open>chat\<close> is \<open>None\<close>
     when the call throws\<close>
  "generateMetadata lower chat now u today c =
     (case incrementMetadataRequestCount now u today c of (previousCount, c') \<Rightarrow>
        if DAILY_METADATA_LIMIT \<le> previousCount then (Inl (QuotaExceededError ''metadata'' None), False, c')
        else (case chat of
                None \<Rightarrow> (Inl InternalServerError, True, c')
              | Some reply \<Rightarrow> (sanitized_reply lower reply, True, c')))"

section \<open>What a sanitized name looks like\<close>

definition git_safe :: "utext \<Rightarrow> bool" where
  "git_safe s \<longleftrightarrow> s \<noteq> [] \<and> length s \<le> 60 \<and> list_all branch_char s \<and> hd s \<noteq> hyphen \<and> last s \<noteq> hyphen \<and>
     \<not> sublist [hyphen, hyphen] s"

definition no_double :: "utext \<Rightarrow> bool" where
  "no_double s \<longleftrightarrow> \<not> sublist [hyphen, hyphen] s"

lemma no_double_sublist: "no_double s \<Longrightarrow> sublist t s \<Longrightarrow> no_double t"
  unfolding no_double_def using sublist_order.order_trans by blast

lemma no_double_squeeze: "no_double (squeeze s)"
proof (induction s rule: squeeze.induct)
  case (1 a b s)
  have hd: "squeeze (b # s) \<noteq> [] \<and> hd (squeeze (b # s)) = b" for b s
    by (induction "b # s" arbitrary: b s rule: squeeze.induct) auto
  show ?case
  proof (cases "a = hyphen \<and> b = hyphen")
    case False
    then show ?thesis using 1(2) hd [of b s]
      by (cases "squeeze (b # s)") (auto simp: no_double_def sublist_Cons_right)
  qed (use 1 in simp)
qed (simp_all add: no_double_def sublist_Cons_right)

lemma set_squeeze: "set (squeeze s) \<subseteq> set s"
  by (induction s rule: squeeze.induct) auto

lemma sublist_dropWhileEnd: "sublist (dropWhileEnd p s) s"
  unfolding dropWhileEnd_def by (metis rev_rev_ident sublist_rev suffix_dropWhile suffix_imp_sublist)

lemma last_dropWhileEnd: "dropWhileEnd p s \<noteq> [] \<Longrightarrow> \<not> p (last (dropWhileEnd p s))"
  unfolding dropWhileEnd_def by (metis hd_dropWhile last_rev rev_is_Nil_conv)

lemma prefix_dropWhileEnd: "prefix (dropWhileEnd p s) s"
  unfolding dropWhileEnd_def by (metis rev_rev_ident suffix_dropWhile suffix_to_prefix)

lemma hd_prefix: "prefix t s \<Longrightarrow> t \<noteq> [] \<Longrightarrow> hd t = hd s"
  by (auto simp: prefix_def)

lemma trim_hyphens_ends:
  "trim_hyphens s \<noteq> [] \<Longrightarrow> hd (trim_hyphens s) \<noteq> hyphen \<and> last (trim_hyphens s) \<noteq> hyphen"
  unfolding trim_hyphens_def
  using hd_prefix [OF prefix_dropWhileEnd, of "\<lambda>c. c = hyphen" "dropWhile (\<lambda>c. c = hyphen) s"]
    hd_dropWhile [of "\<lambda>c. c = hyphen" s] last_dropWhileEnd
  by (metis (mono_tags) dropWhileEnd_def dropWhile.simps(1) rev.simps(1))

lemma sublist_trim_hyphens: "sublist (trim_hyphens s) s"
  unfolding trim_hyphens_def
  by (meson sublist_dropWhileEnd sublist_order.order_trans suffix_dropWhile suffix_imp_sublist)

lemma before_last_hyphen_prefix: "prefix (before_last_hyphen s) s"
  unfolding before_last_hyphen_def Let_def
  using prefix_dropWhileEnd prefixeq_butlast prefix_order.order_trans by fastforce

lemma before_last_hyphen_last:
  assumes "s \<noteq> []" and "hd s \<noteq> hyphen" and "no_double s"
  shows "before_last_hyphen s \<noteq> [] \<and> last (before_last_hyphen s) \<noteq> hyphen"
proof -
  define t where "t = dropWhileEnd (\<lambda>c. c \<noteq> hyphen) s"
  have p: "prefix t s" unfolding t_def by (rule prefix_dropWhileEnd)
  show ?thesis
  proof (cases "butlast t = []")
    case True
    have "t = []"
    proof (rule ccontr)
      assume n: "t \<noteq> []"
      then have "last t = hyphen" using last_dropWhileEnd [of "\<lambda>c. c \<noteq> hyphen" s] unfolding t_def by simp
      moreover have "t = [last t]" using True n by (metis append_butlast_last_id append_Nil)
      ultimately have "hd t = hyphen" by (metis list.sel(1))
      with hd_prefix [OF p n] assms(2) show False by simp
    qed
    then have "\<forall>c \<in> set s. c \<noteq> hyphen" unfolding t_def dropWhileEnd_def by simp
    then have "last s \<noteq> hyphen" using assms(1) last_in_set by blast
    with True assms(1) show ?thesis by (simp add: before_last_hyphen_def t_def [symmetric])
  next
    case False
    then have n: "t \<noteq> []" by auto
    then have l: "last t = hyphen" using last_dropWhileEnd [of "\<lambda>c. c \<noteq> hyphen" s] unfolding t_def by simp
    have "t = butlast (butlast t) @ [last (butlast t), hyphen]"
      using n False l by (metis append.assoc append_Cons append_Nil append_butlast_last_id)
    moreover have "no_double t" using assms(3) p no_double_sublist prefix_imp_sublist by blast
    ultimately have "last (butlast t) \<noteq> hyphen"
      unfolding no_double_def by (metis suffixI suffix_imp_sublist)
    with False show ?thesis by (simp add: before_last_hyphen_def t_def [symmetric])
  qed
qed

lemma sanitized_is_git_safe:
  assumes "sanitizeBranchName lower raw = Some b"
  shows "git_safe b"
proof -
  obtain s where b: "(if 60 < length (trim_hyphens (squeeze (filter branch_char s)))
      then before_last_hyphen (take 60 (trim_hyphens (squeeze (filter branch_char s))))
      else trim_hyphens (squeeze (filter branch_char s))) = b" "b \<noteq> []"
    using assms by (auto simp: sanitizeBranchName_def Let_def split: if_splits)
  define r where "r = trim_hyphens (squeeze (filter branch_char s))"
  have bc: "list_all branch_char r"
    using set_mono_sublist [OF sublist_trim_hyphens, of "squeeze (filter branch_char s)"]
      set_squeeze [of "filter branch_char s"] unfolding r_def list_all_iff by auto
  have nd: "no_double r" unfolding r_def using no_double_squeeze sublist_trim_hyphens by (rule no_double_sublist)
  have e: "r \<noteq> [] \<Longrightarrow> hd r \<noteq> hyphen \<and> last r \<noteq> hyphen" unfolding r_def by (rule trim_hyphens_ends)
  show ?thesis
  proof (cases "60 < length r")
    case True
    define t where "t = take 60 r"
    have t: "t \<noteq> []" "hd t = hd r" "sublist t r" "length t \<le> 60"
      using True by (auto simp: t_def hd_take take_is_prefix)
    have bt: "b = before_last_hyphen t" using b(1) True by (simp add: r_def [symmetric] t_def)
    have sub: "sublist b t" using before_last_hyphen_prefix bt by auto
    have "r \<noteq> []" using True by auto
    then have ht: "hd t \<noteq> hyphen" using e t(2) by simp
    moreover have "no_double t" using nd t(3) by (rule no_double_sublist)
    ultimately have l: "last b \<noteq> hyphen" using before_last_hyphen_last [OF t(1)] bt by blast
    have "hd b = hd t" using hd_prefix [OF before_last_hyphen_prefix] b(2) bt by simp
    moreover have "length b \<le> 60" using sublist_length_le [OF sub] t(4) by simp
    moreover have "list_all branch_char b"
      using bc sub t(3) set_mono_sublist unfolding list_all_iff by blast
    moreover have "no_double b" using nd sub t(3) by (blast intro: no_double_sublist)
    ultimately show ?thesis using b(2) l ht by (simp add: git_safe_def no_double_def)
  next
    case False
    then have "b = r" using b(1) by (simp add: r_def [symmetric])
    then show ?thesis using False b(2) bc nd e by (simp add: git_safe_def no_double_def)
  qed
qed

section \<open>Counting requests\<close>

lemma metadata_count_steps:
  assumes "incrementMetadataRequestCount now u today c = (n, c')"
  shows "incrementMetadataRequestCount now' u today c' = (n + 1, snd (incrementMetadataRequestCount now' u today c'))"
proof (cases "findOne (usage_of u today) c")
  case None
  with assms have "n = 0" "c' = c @ [\<lparr>du_userId = u, du_date = today, du_transcriptionSeconds = 0,
      du_metadataRequestCount = Some 1, du_createdAt = now, du_updatedAt = now\<rparr>]"
    by (simp_all add: incrementMetadataRequestCount_def findOneAndUpdate_def)
  with None show ?thesis
    by (simp add: incrementMetadataRequestCount_def findOneAndUpdate_def findOne_append usage_of_def)
next
  case (Some d)
  let ?f = "\<lambda>d. d\<lparr>du_metadataRequestCount :=
      Some (case du_metadataRequestCount d of None \<Rightarrow> 1 | Some n \<Rightarrow> n + 1), du_updatedAt := now\<rparr>"
  from Some assms have c': "c' = updateFirst (usage_of u today) ?f c"
    and n: "n = (case du_metadataRequestCount d of None \<Rightarrow> 0 | Some n \<Rightarrow> n)"
    by (auto simp: incrementMetadataRequestCount_def findOneAndUpdate_def)
  have "usage_of u today (?f d)" using findOne_Some [OF Some] by (simp add: usage_of_def)
  from findOne_updateFirst [OF Some, of ?f, OF this] show ?thesis
    unfolding c' n by (simp add: incrementMetadataRequestCount_def findOneAndUpdate_def split: option.split)
qed

fun metadata_requests ::
  "(utext \<Rightarrow> utext) \<Rightarrow> string \<Rightarrow> string \<Rightarrow> (session_metadata option option \<times> millis) list \<Rightarrow> daily_usage list \<Rightarrow> bool list" where
  \<comment> \<open>which of a day's requests reach the model\<close>
  "metadata_requests lower u today [] c = []"
| "metadata_requests lower u today ((chat, now) # rs) c =
     (case generateMetadata lower chat now u today c of (_, asked, c') \<Rightarrow>
        asked # metadata_requests lower u today rs c')"

lemma generateMetadata_asked:
  "generateMetadata lower chat now u today c =
     (fst (generateMetadata lower chat now u today c),
      fst (incrementMetadataRequestCount now u today c) < DAILY_METADATA_LIMIT,
      snd (incrementMetadataRequestCount now u today c))"
  by (auto simp: generateMetadata_def split: prod.split option.split)

lemma metadata_requests_from:
  assumes "\<And>now. fst (incrementMetadataRequestCount now u today c) = n"
  shows "metadata_requests lower u today rs c = map (\<lambda>i. n + int i < DAILY_METADATA_LIMIT) [0..<length rs]"
  using assms
proof (induction rs arbitrary: c n)
  case (Cons r rs)
  obtain chat now where r: "r = (chat, now)" by fastforce
  define c' where "c' = snd (incrementMetadataRequestCount now u today c)"
  have "incrementMetadataRequestCount now u today c = (n, c')"
    using Cons.prems [of now] by (simp add: c'_def prod_eq_iff)
  then have "\<And>now'. fst (incrementMetadataRequestCount now' u today c') = n + 1"
    using metadata_count_steps by (metis fst_conv)
  from Cons.IH [OF this] Cons.prems [of now] show ?case
    unfolding r by (subst metadata_requests.simps, subst generateMetadata_asked)
      (simp add: c'_def [symmetric] upt_conv_Cons map_Suc_upt [symmetric] algebra_simps comp_def del: upt_Suc)
qed simp

text \<open>However the reply spells it, a generated name is safe to hand to git: it is not empty, at
  most 60 characters of lower-case letters, digits and single hyphens, and starts and ends with
  a letter or a digit, also when the cut at 60 characters falls on a hyphen.\<close>
lemma sanitized_names_are_git_safe:
  assumes "generateMetadata lower chat now u today c = (Inr m, asked, c')"
  shows "git_safe (sm_branchName m) \<and> git_safe (sm_worktreeName m) \<and> sm_title m \<noteq> []"
  using assms
  by (auto simp: generateMetadata_def sanitized_reply_def sanitized_is_git_safe split: prod.splits if_splits option.splits)

lemma sanitized_names_are_git_safe_witness:
  "git_safe (utf ''a-b'') \<and> git_safe (utf ''w'') \<and> utf ''T'' \<noteq> []"
  using sanitized_names_are_git_safe [where lower = "\<lambda>s. s" and now = 0 and u = "''u''" and today = "''d''" and c = "[]"
      and chat = "Some (Some \<lparr>sm_title = utf ''T'', sm_branchName = utf ''_a__b-.lock.'', sm_worktreeName = utf ''w''\<rparr>)"
      and m = "\<lparr>sm_title = utf ''T'', sm_branchName = utf ''a-b'', sm_worktreeName = utf ''w''\<rparr>"
      and asked = True and c' = "snd (incrementMetadataRequestCount 0 ''u'' ''d'' [])"]
  by (simp add: generateMetadata_def sanitized_reply_def sanitizeBranchName_def drop_lock_def dash_spaces_def
      dropWhileEnd_def trim_hyphens_def branch_char_def incrementMetadataRequestCount_def findOneAndUpdate_def
      DAILY_METADATA_LIMIT_def Let_def suffix_def sublist_Cons_right)

text \<open>The daily quota is exact: of a user's requests of one day, starting from a day without
  usage, the first hundred reach the language model, and every later one is refused
  without a call to it.\<close>
lemma metadata_quota_exact:
  assumes "findOne (usage_of u today) c = None"
  shows "metadata_requests lower u today rs c = map (\<lambda>i. i < 100) [0..<length rs]"
proof -
  have "fst (incrementMetadataRequestCount now u today c) = 0" for now
    using assms by (simp add: incrementMetadataRequestCount_def findOneAndUpdate_def)
  from metadata_requests_from [OF this] show ?thesis by (simp add: DAILY_METADATA_LIMIT_def)
qed

lemma metadata_quota_exact_witness:
  "metadata_requests (\<lambda>s. s) ''u'' ''d'' (replicate 101 (None, 0)) [] = replicate 100 True @ [False]"
  using metadata_quota_exact [of "''u''" "''d''" "[]" "\<lambda>s. s" "replicate 101 (None, 0)"]
  by (simp add: upt_rec [of 0 101] map_replicate_trivial numeral_eq_Suc)

end
