(* ===== verification/ActivationServices.thy ===== *)
theory ActivationServices
  imports Activation DailyUsage UserRepo Devices Bridges
begin

text \<open>
  The three services over the activation collection:
  \<open>src/services/activation-service.ts\<close> (milestones from evidence),
  \<open>activation-reminder-service.ts\<close> (the sweep that sends reminders) and
  \<open>activation-backfill-service.ts\<close>.  The sweep and the backfill await many times;
  their awaits are numbered and an environment says for each what other requests
  do to the documents meanwhile, whether the query throws, what a delivery returned
  and how the service's flags stand afterwards.
\<close>

section \<open>Milestones from evidence\<close>

datatype milestone = MobileSetup | BridgeSetup | FirstSession

definition milestone_guard :: "millis option \<Rightarrow> millis option \<Rightarrow> millis option" where
  \<comment> \<open>evidence older than the account is not evidence of this account\<close>
  "milestone_guard accountCreatedAt evidenceAt =
     (case (evidenceAt, accountCreatedAt) of
        (Some e, Some a) \<Rightarrow> if e < a then None else Some e
      | _ \<Rightarrow> evidenceAt)"

definition observed :: "milestone \<Rightarrow> milestone \<Rightarrow> millis \<Rightarrow> millis option" where
  "observed k m at = (if k = m then Some at else None)"

definition reconciled_update ::
  "(string \<Rightarrow> string option) \<Rightarrow> user list \<Rightarrow> device_token list \<Rightarrow> bridge list \<Rightarrow> daily_usage list
   \<Rightarrow> string \<Rightarrow> milestone \<Rightarrow> millis \<Rightarrow> activation_state option \<Rightarrow> milestone_update" where
  \<comment> \<open>the four collections as their query finds them\<close>
  "reconciled_update oid users tokens bridges usage userId milestone observedAt existing =
     (let has = (\<lambda>f. Option.bind existing f);
          accountCreatedAt = map_option u_createdAt (findById oid userId users);
          mobile = milestone_guard accountCreatedAt
            (if has as_mobileSetupAt \<noteq> None then None else findEarliestCreatedAt oid userId tokens);
          bridge = milestone_guard accountCreatedAt
            (if has as_bridgeSetupAt \<noteq> None then None else findEarliestAddedAt oid userId bridges);
          session = milestone_guard accountCreatedAt
            (if has as_firstSessionAt \<noteq> None then None else findEarliestMetadataRequestAt oid userId usage)
      in \<lparr>mu_mobileSetupAt = (if has as_mobileSetupAt \<noteq> None then None
             else or_else mobile (observed MobileSetup milestone observedAt)),
          mu_bridgeSetupAt = (if has as_bridgeSetupAt \<noteq> None then None
             else or_else bridge (observed BridgeSetup milestone observedAt)),
          mu_firstSessionAt = (case has as_firstSessionAt of
               Some f \<Rightarrow> if milestone = FirstSession \<and> observedAt < f then Some observedAt else None
             | None \<Rightarrow> or_else session (observed FirstSession milestone observedAt))\<rparr>)"

definition recordReconciledMilestones ::
  "(string \<Rightarrow> string option) \<Rightarrow> user list \<Rightarrow> device_token list \<Rightarrow> bridge list \<Rightarrow> daily_usage list
   \<Rightarrow> (activation_state list \<Rightarrow> activation_state list) \<Rightarrow> activation_state option
   \<Rightarrow> (activation_state list \<Rightarrow> activation_state list) \<Rightarrow> string \<Rightarrow> milestone \<Rightarrow> millis \<Rightarrow> activation_state list
   \<Rightarrow> (api_error + activation_state) \<times> activation_state list" where
  \<comment> \<open>the two environments are what others do while the evidence is read and between the
     two queries of the record\<close>
  "recordReconciledMilestones oid users tokens bridges usage env rival env' userId milestone observedAt c =
     (let existing = findStateByUserId oid userId c;
          m = reconciled_update oid users tokens bridges usage userId milestone observedAt existing
      in case existing of
           Some d \<Rightarrow>
             if mu_mobileSetupAt m = None \<and> mu_bridgeSetupAt m = None \<and> mu_firstSessionAt m = None then (Inr d, c)
             else recordMilestones oid rival env' userId m observedAt (env c)
         | None \<Rightarrow> recordMilestones oid rival env' userId m observedAt (env c))"

definition recordBridgeFirstSession ::
  "(string \<Rightarrow> string option) \<Rightarrow> string \<Rightarrow> string \<Rightarrow> millis option \<Rightarrow> millis \<Rightarrow> bridge list \<Rightarrow> bridge list" where
  "recordBridgeFirstSession oid userId bridgeId observedAt now c =
     recordFirstSession oid bridgeId userId (case observedAt of Some t \<Rightarrow> t | None \<Rightarrow> now) c"

section \<open>The reminder sweep\<close>

fun reminder_payload :: "reminder_kind \<Rightarrow> notification_payload" where
  "reminder_payload Bridge1 =
     \<lparr>np_category = SystemUpdate, np_title = ''Finish setting up Sesori'',
      np_body = ''Install the Sesori bridge on your computer to connect your coding agents.'',
      np_collapseKey = Some ''activation_bridge_1'', np_data = None, np_excludedDeviceIds = {}, np_trayKey = []\<rparr>"
| "reminder_payload Bridge2 =
     \<lparr>np_category = SystemUpdate, np_title = ''Your Sesori setup is unfinished'',
      np_body = ''You haven't connected your computer yet. Install the Sesori bridge to unlock Sesori.'',
      np_collapseKey = Some ''activation_bridge_2'', np_data = None, np_excludedDeviceIds = {}, np_trayKey = []\<rparr>"
| "reminder_payload Session =
     \<lparr>np_category = SystemUpdate, np_title = ''Start your first session'',
      np_body = ''You're all set up! You haven't started a new session yet - create one to put Sesori to work.'',
      np_collapseKey = Some ''activation_first_session'', np_data = None, np_excludedDeviceIds = {}, np_trayKey = []\<rparr>"

record reminder_options =
  ro_enabled :: bool
  ro_bridgeReminder1DelayMs :: millis
  ro_bridgeReminder2DelayMs :: millis
  ro_sessionReminderDelayMs :: millis
  ro_batchLimit :: js_number

fun delayFor :: "reminder_options \<Rightarrow> reminder_kind \<Rightarrow> millis" where
  "delayFor opts Bridge1 = ro_bridgeReminder1DelayMs opts"
| "delayFor opts Bridge2 = ro_bridgeReminder2DelayMs opts"
| "delayFor opts Session = ro_sessionReminderDelayMs opts"

record counters =
  cn_due :: nat
  cn_sent :: nat
  cn_noDevices :: nat
  cn_skipped :: nat
  cn_failed :: nat

definition emptyCounters :: counters where
  "emptyCounters = \<lparr>cn_due = 0, cn_sent = 0, cn_noDevices = 0, cn_skipped = 0, cn_failed = 0\<rparr>"

record sweep_env =
  se_others :: "nat \<Rightarrow> activation_state list \<Rightarrow> activation_state list"
  se_throws :: "nat \<Rightarrow> bool"
  se_disposed :: "nat \<Rightarrow> bool"
  se_disposeTimedOut :: "nat \<Rightarrow> bool"
  se_delivery :: "nat \<Rightarrow> delivery option"
  se_now :: "nat \<Rightarrow> millis"

record sweep_world =
  sw_step :: nat
  sw_states :: "activation_state list"
  sw_sends :: "(string \<times> reminder_kind) list"

definition await :: "sweep_env \<Rightarrow> sweep_world \<Rightarrow> sweep_world" where
  "await e w = w\<lparr>sw_step := sw_step w + 1, sw_states := se_others e (sw_step w) (sw_states w)\<rparr>"

definition send :: "string \<Rightarrow> reminder_kind \<Rightarrow> sweep_world \<Rightarrow> sweep_world" where
  "send userId k w = w\<lparr>sw_sends := sw_sends w @ [(userId, k)]\<rparr>"

definition failed :: "counters \<Rightarrow> counters" where
  "failed n = n\<lparr>cn_failed := cn_failed n + 1\<rparr>"

definition skipped :: "counters \<Rightarrow> counters" where
  "skipped n = n\<lparr>cn_skipped := cn_skipped n + 1\<rparr>"

definition settleDelivery ::
  "(string \<Rightarrow> string option) \<Rightarrow> sweep_env \<Rightarrow> reminder_kind \<Rightarrow> string \<Rightarrow> millis \<Rightarrow> delivery option
   \<Rightarrow> counters \<times> sweep_world \<Rightarrow> counters \<times> sweep_world" where
  \<comment> \<open>the second half of \<open>processReminder\<close>, from the outcome of the delivery on\<close>
  "settleDelivery oid e k userId cutoff outcome = (\<lambda>(n, w).
     case outcome of
       None \<Rightarrow> (failed n, w)
     | Some r \<Rightarrow>
         if se_disposeTimedOut e (sw_step w) then (failed n, w)
         else if devicesNotified r = 0 \<and> 0 < retryableFailures r then (failed n, w)
         else (let sentAt = se_now e (sw_step w); w' = await e w in
           if se_throws e (sw_step w) then (failed n, w')
           else (case markReminderSentIfStillDue oid userId k cutoff sentAt (sw_states w') of
             (False, c) \<Rightarrow> (skipped n, w'\<lparr>sw_states := c\<rparr>)
           | (True, c) \<Rightarrow>
               (n\<lparr>cn_sent := cn_sent n + 1,
                  cn_noDevices := cn_noDevices n + (if devicesNotified r = 0 then 1 else 0)\<rparr>,
                w'\<lparr>sw_states := c\<rparr>))))"

definition processReminder ::
  "(string \<Rightarrow> string option) \<Rightarrow> sweep_env \<Rightarrow> reminder_kind \<Rightarrow> string \<Rightarrow> millis
   \<Rightarrow> counters \<times> sweep_world \<Rightarrow> counters \<times> sweep_world" where
  "processReminder oid e k userId cutoff = (\<lambda>(n, w).
     let w1 = await e w in
     if se_throws e (sw_step w) then (failed n, w1)
     else if \<not> isReminderStillDue oid userId k cutoff (sw_states w1) then (skipped n, w1)
     else if se_disposed e (sw_step w1) then (n, w1)
     else settleDelivery oid e k userId cutoff (se_delivery e (sw_step w1)) (n, await e (send userId k w1)))"

fun processDue ::
  "(string \<Rightarrow> string option) \<Rightarrow> sweep_env \<Rightarrow> reminder_kind \<Rightarrow> millis \<Rightarrow> (string \<times> millis) list
   \<Rightarrow> counters \<times> sweep_world \<Rightarrow> counters \<times> sweep_world" where
  "processDue oid e k cutoff [] nw = nw"
| "processDue oid e k cutoff ((userId, baselineAt) # due) (n, w) =
     (if se_disposed e (sw_step w) then (n, w)
      else processDue oid e k cutoff due (processReminder oid e k userId cutoff (n, w)))"

definition processKind ::
  "(string \<Rightarrow> string option) \<Rightarrow> sweep_env \<Rightarrow> reminder_options \<Rightarrow> reminder_kind \<Rightarrow> millis
   \<Rightarrow> sweep_world \<Rightarrow> counters option \<times> sweep_world" where
  \<comment> \<open>\<open>None\<close> when the query throws\<close>
  "processKind oid e opts k now w =
     (let cutoff = now - delayFor opts k; w' = await e w in
      if se_throws e (sw_step w) then (None, w')
      else (case findDueReminders k cutoff (ro_batchLimit opts) (sw_states w') of
              Inl _ \<Rightarrow> (None, w')
            | Inr due \<Rightarrow> map_prod Some id
                (processDue oid e k cutoff due (emptyCounters\<lparr>cn_due := length due\<rparr>, w'))))"

definition REMINDER_KINDS :: "reminder_kind list" where
  "REMINDER_KINDS = [Bridge2, Bridge1, Session]"

fun sweep_kinds ::
  "(string \<Rightarrow> string option) \<Rightarrow> sweep_env \<Rightarrow> reminder_options \<Rightarrow> millis \<Rightarrow> reminder_kind list
   \<Rightarrow> (reminder_kind \<Rightarrow> counters) \<times> sweep_world \<Rightarrow> (reminder_kind \<Rightarrow> counters) \<times> sweep_world" where
  "sweep_kinds oid e opts now [] rw = rw"
| "sweep_kinds oid e opts now (k # ks) (r, w) =
     (if se_disposed e (sw_step w) then (r, w)
      else (case processKind oid e opts k now w of
              (None, w') \<Rightarrow> sweep_kinds oid e opts now ks (r(k := failed (r k)), w')
            | (Some n, w') \<Rightarrow> sweep_kinds oid e opts now ks (r(k := n), w')))"

definition runSweep ::
  "(string \<Rightarrow> string option) \<Rightarrow> sweep_env \<Rightarrow> reminder_options \<Rightarrow> millis \<Rightarrow> sweep_world
   \<Rightarrow> (reminder_kind \<Rightarrow> counters) \<times> sweep_world" where
  "runSweep oid e opts now w = sweep_kinds oid e opts now REMINDER_KINDS (\<lambda>k. emptyCounters, w)"

section \<open>The scheduler\<close>

record reminder_service =
  rs_timer :: bool
  rs_inFlight :: "nat option"
  rs_disposed :: bool
  rs_disposeTimedOut :: bool
  rs_sweeps :: nat

datatype sweep_answer = SweepDisabled | SweepUnavailable | SweepRunning nat

definition startReminders :: "reminder_options \<Rightarrow> reminder_service \<Rightarrow> reminder_service" where
  "startReminders opts s =
     (if \<not> ro_enabled opts \<or> rs_disposed s \<or> rs_timer s then s else s\<lparr>rs_timer := True\<rparr>)"

definition sweepOnce :: "reminder_options \<Rightarrow> bool \<Rightarrow> reminder_service \<Rightarrow> sweep_answer \<times> reminder_service" where
  \<comment> \<open>\<open>available\<close> is the notification service's; a sweep is known by its number\<close>
  "sweepOnce opts available s =
     (if \<not> ro_enabled opts \<or> rs_disposed s then (SweepDisabled, s)
      else if \<not> available then (SweepUnavailable, s)
      else (case rs_inFlight s of
              Some i \<Rightarrow> (SweepRunning i, s)
            | None \<Rightarrow> (SweepRunning (rs_sweeps s), s\<lparr>rs_inFlight := Some (rs_sweeps s), rs_sweeps := rs_sweeps s + 1\<rparr>)))"

definition sweepSettled :: "nat \<Rightarrow> reminder_service \<Rightarrow> reminder_service" where
  "sweepSettled i s = (if rs_inFlight s = Some i then s\<lparr>rs_inFlight := None\<rparr> else s)"

definition disposeReminders :: "bool \<Rightarrow> reminder_service \<Rightarrow> bool \<times> reminder_service" where
  \<comment> \<open>\<open>settles\<close>: the sweep in flight settles within the dispose timeout; the answer is whether
     the promise resolves, it rejects with the drain timeout otherwise\<close>
  "disposeReminders settles s =
     (let s' = s\<lparr>rs_disposed := True, rs_timer := False\<rparr> in
      case rs_inFlight s of
        None \<Rightarrow> (True, s')
      | Some i \<Rightarrow> if settles then (True, sweepSettled i s') else (False, s'\<lparr>rs_disposeTimedOut := True\<rparr>))"

section \<open>The backfill\<close>

datatype backfill_stage = MobileIncomplete | BridgeIncomplete | SessionIncomplete | Activated
datatype backfill_reminder = Remind reminder_kind | NoReminder

record activation_snapshot =
  sn_mobileSetupAt :: "millis option"
  sn_bridgeSetupAt :: "millis option"
  sn_firstSessionAt :: "millis option"
  sn_bridgeReminder1SentAt :: "millis option"
  sn_bridgeReminder2SentAt :: "millis option"
  sn_sessionReminderSentAt :: "millis option"

definition snapshotFrom :: "activation_state option \<Rightarrow> milestone_update \<Rightarrow> activation_snapshot" where
  "snapshotFrom s evidence =
     \<lparr>sn_mobileSetupAt = or_else (Option.bind s as_mobileSetupAt) (mu_mobileSetupAt evidence),
      sn_bridgeSetupAt = or_else (Option.bind s as_bridgeSetupAt) (mu_bridgeSetupAt evidence),
      sn_firstSessionAt = or_else (Option.bind s as_firstSessionAt) (mu_firstSessionAt evidence),
      sn_bridgeReminder1SentAt = Option.bind s as_bridgeReminder1SentAt,
      sn_bridgeReminder2SentAt = Option.bind s as_bridgeReminder2SentAt,
      sn_sessionReminderSentAt = Option.bind s as_sessionReminderSentAt\<rparr>"

definition stageFor :: "activation_snapshot \<Rightarrow> backfill_stage" where
  "stageFor s =
     (if sn_mobileSetupAt s = None then MobileIncomplete
      else if sn_bridgeSetupAt s = None then BridgeIncomplete
      else if sn_firstSessionAt s = None then SessionIncomplete else Activated)"

definition reminderFor :: "activation_snapshot \<Rightarrow> bool \<Rightarrow> backfill_reminder" where
  "reminderFor s pushReachable =
     (if \<not> pushReachable then NoReminder
      else if sn_bridgeSetupAt s = None
      then (if sn_bridgeReminder2SentAt s \<noteq> None then NoReminder
            else if sn_bridgeReminder1SentAt s \<noteq> None then Remind Bridge2 else Remind Bridge1)
      else if sn_firstSessionAt s = None \<and> sn_sessionReminderSentAt s = None then Remind Session
      else NoReminder)"

definition sameTime :: "millis option \<Rightarrow> millis option \<Rightarrow> bool" where
  "sameTime l r \<longleftrightarrow> l \<noteq> None \<and> r \<noteq> None \<and> the l = the r"

definition readBigUInt64BE :: "nat list \<Rightarrow> nat" where
  "readBigUInt64BE bytes = foldl (\<lambda>n b. 256 * n + b) 0 (take 8 bytes)"

definition deterministicActivationJitterMs :: "(string \<Rightarrow> nat list) \<Rightarrow> string \<Rightarrow> js_number \<Rightarrow> millis option" where
  \<comment> \<open>\<open>sha256\<close> is the digest of the platform; \<open>None\<close> is the RangeError\<close>
  "deterministicActivationJitterMs sha256 userId window =
     (case window of
        NotAnInteger \<Rightarrow> None
      | Integer n \<Rightarrow>
          if \<not> isSafeInteger (Integer n) \<or> n < 0 then None
          else if n = 0 then Some 0
          else Some (int (readBigUInt64BE (sha256 (''activation-backfill:'' @ userId))) mod n))"

record tally =
  ty_proposed :: nat
  ty_applied :: nat

record backfill_report =
  bp_usersScanned :: nat
  bp_usersProposed :: nat
  bp_usersApplied :: nat
  bp_usersAlreadyBackfilled :: nat
  bp_usersFailed :: nat
  bp_byStage :: "backfill_stage \<Rightarrow> tally"
  bp_byReminder :: "backfill_reminder \<Rightarrow> tally"

definition emptyReport :: backfill_report where
  "emptyReport = \<lparr>bp_usersScanned = 0, bp_usersProposed = 0, bp_usersApplied = 0, bp_usersAlreadyBackfilled = 0,
     bp_usersFailed = 0, bp_byStage = (\<lambda>_. \<lparr>ty_proposed = 0, ty_applied = 0\<rparr>),
     bp_byReminder = (\<lambda>_. \<lparr>ty_proposed = 0, ty_applied = 0\<rparr>)\<rparr>"

definition count_proposed :: "'k \<Rightarrow> ('k \<Rightarrow> tally) \<Rightarrow> 'k \<Rightarrow> tally" where
  "count_proposed k t = t(k := (t k)\<lparr>ty_proposed := ty_proposed (t k) + 1\<rparr>)"

definition count_applied :: "'k \<Rightarrow> ('k \<Rightarrow> tally) \<Rightarrow> 'k \<Rightarrow> tally" where
  "count_applied k t = t(k := (t k)\<lparr>ty_applied := ty_applied (t k) + 1\<rparr>)"

record backfill_world =
  bw_step :: nat
  bw_users :: "user list"
  bw_tokens :: "device_token list"
  bw_bridges :: "bridge list"
  bw_usage :: "daily_usage list"
  bw_states :: "activation_state list"

record backfill_env =
  be_others :: "nat \<Rightarrow> backfill_world \<Rightarrow> backfill_world"
  be_throws :: "nat \<Rightarrow> bool"
  be_rival :: "nat \<Rightarrow> activation_state option"
  be_upsert :: "nat \<Rightarrow> activation_state list \<Rightarrow> activation_state list"
  be_now :: "nat \<Rightarrow> millis"

definition turn :: "backfill_env \<Rightarrow> backfill_world \<Rightarrow> backfill_world" where
  \<comment> \<open>an await: the others move, the step is counted\<close>
  "turn e w = (be_others e (bw_step w) w)\<lparr>bw_step := bw_step w + 1\<rparr>"

record backfill_options =
  bo_apply :: bool
  bo_backfillAt :: millis
  bo_batchLimit :: js_number
  bo_jitterWindowMs :: js_number

definition MAX_DATE_MS :: millis where
  \<comment> \<open>the range of a date\<close>
  "MAX_DATE_MS = 8640000000000000"

definition evidence_of :: "(string \<Rightarrow> string option) \<Rightarrow> string \<Rightarrow> backfill_world \<Rightarrow> milestone_update" where
  "evidence_of oid userId w =
     (let accountCreatedAt = map_option u_createdAt (findById oid userId (bw_users w)) in
      \<lparr>mu_mobileSetupAt = milestone_guard accountCreatedAt (findEarliestCreatedAt oid userId (bw_tokens w)),
       mu_bridgeSetupAt = milestone_guard accountCreatedAt (findEarliestAddedAt oid userId (bw_bridges w)),
       mu_firstSessionAt = milestone_guard accountCreatedAt (findEarliestMetadataRequestAt oid userId (bw_usage w))\<rparr>)"

definition applied_reminder :: "activation_state \<Rightarrow> millis option \<Rightarrow> backfill_reminder" where
  "applied_reminder d base =
     (if as_bridgeSetupAt d = None \<and> as_bridgeReminder2SentAt d = None \<and> sameTime (as_bridgeReminderBaseAt d) base
      then (if as_bridgeReminder1SentAt d \<noteq> None then Remind Bridge2 else Remind Bridge1)
      else if as_bridgeSetupAt d \<noteq> None \<and> as_firstSessionAt d = None \<and> as_sessionReminderSentAt d = None \<and>
              sameTime (as_sessionReminderBaseAt d) base
      then Remind Session else NoReminder)"

definition count_outcome ::
  "milestone_update \<Rightarrow> millis option \<Rightarrow> activation_state \<times> bool \<Rightarrow> backfill_report \<Rightarrow> backfill_report" where
  "count_outcome evidence base = (\<lambda>(d, applied) r.
     if \<not> applied then r\<lparr>bp_usersAlreadyBackfilled := bp_usersAlreadyBackfilled r + 1\<rparr>
     else r\<lparr>bp_usersApplied := bp_usersApplied r + 1,
            bp_byStage := count_applied (stageFor (snapshotFrom (Some d) evidence)) (bp_byStage r),
            bp_byReminder := count_applied (applied_reminder d base) (bp_byReminder r)\<rparr>)"

definition processUser ::
  "(string \<Rightarrow> string option) \<Rightarrow> (string \<Rightarrow> nat list) \<Rightarrow> backfill_env \<Rightarrow> backfill_options \<Rightarrow> string
   \<Rightarrow> backfill_report \<times> backfill_world \<Rightarrow> bool \<times> backfill_report \<times> backfill_world" where
  \<comment> \<open>whether it returned, rather than threw\<close>
  "processUser oid sha256 e opts userId = (\<lambda>(r, w).
     let w1 = turn e w; existing = findStateByUserId oid userId (bw_states w1) in
     if be_throws e (bw_step w) then (False, r, w1)
     else if Option.bind existing as_backfilledAt \<noteq> None
     then (True, r\<lparr>bp_usersAlreadyBackfilled := bp_usersAlreadyBackfilled r + 1\<rparr>, w1)
     else let w2 = turn e w1;
              evidence = evidence_of oid userId w2;
              snapshot = snapshotFrom existing evidence;
              eligible = (findEarliestCreatedAt oid userId (bw_tokens w2) \<noteq> None \<and> sn_mobileSetupAt snapshot \<noteq> None)
     in if be_throws e (bw_step w1) then (False, r, w2)
        else case deterministicActivationJitterMs sha256 userId (bo_jitterWindowMs opts) of
          None \<Rightarrow> (False, r, w2)
        | Some jitter \<Rightarrow>
            if MAX_DATE_MS < \<bar>bo_backfillAt opts + jitter\<bar> then (False, r, w2)
            else let base = (if eligible then Some (bo_backfillAt opts + jitter) else None);
                     r' = r\<lparr>bp_usersProposed := bp_usersProposed r + 1,
                            bp_byStage := count_proposed (stageFor snapshot) (bp_byStage r),
                            bp_byReminder := count_proposed (reminderFor snapshot eligible) (bp_byReminder r)\<rparr>
            in if \<not> bo_apply opts then (True, r', w2)
               else let w3 = turn e w2;
                        i = \<lparr>bi_mobileSetupAt = mu_mobileSetupAt evidence, bi_bridgeSetupAt = mu_bridgeSetupAt evidence,
                             bi_firstSessionAt = mu_firstSessionAt evidence, bi_reminderBaseAt = base,
                             bi_backfilledAt = bo_backfillAt opts\<rparr>
                    in if be_throws e (bw_step w2) then (False, r', w3)
                       else case applyBackfill oid (be_rival e (bw_step w2)) (be_upsert e (bw_step w2))
                                   (be_now e (bw_step w2)) userId i (bw_states w3) of
                              (Inl _, c) \<Rightarrow> (False, r', w3\<lparr>bw_states := c\<rparr>)
                            | (Inr outcome, c) \<Rightarrow> (True, count_outcome evidence base outcome r', w3\<lparr>bw_states := c\<rparr>))"

definition scan_user ::
  "(string \<Rightarrow> string option) \<Rightarrow> (string \<Rightarrow> nat list) \<Rightarrow> backfill_env \<Rightarrow> backfill_options \<Rightarrow> string
   \<Rightarrow> backfill_report \<times> backfill_world \<Rightarrow> backfill_report \<times> backfill_world" where
  "scan_user oid sha256 e opts userId = (\<lambda>(r, w).
     case processUser oid sha256 e opts userId (r\<lparr>bp_usersScanned := bp_usersScanned r + 1\<rparr>, w) of
       (ok, r', w') \<Rightarrow> (if ok then r' else r'\<lparr>bp_usersFailed := bp_usersFailed r' + 1\<rparr>, w'))"

fun backfill_loop ::
  "nat \<Rightarrow> (string \<Rightarrow> string option) \<Rightarrow> (string \<Rightarrow> nat list) \<Rightarrow> backfill_env \<Rightarrow> backfill_options \<Rightarrow> string option
   \<Rightarrow> backfill_report \<times> backfill_world \<Rightarrow> (api_error + backfill_report \<times> backfill_world) option" where
  \<comment> \<open>\<open>None\<close> when the fuel runs out\<close>
  "backfill_loop 0 oid sha256 e opts after rw = None"
| "backfill_loop (Suc fuel) oid sha256 e opts after (r, w) =
     (let w' = turn e w in
      if be_throws e (bw_step w) then Some (Inl InternalServerError)
      else case findIdBatch oid after (bo_batchLimit opts) (Some (bo_backfillAt opts)) (bw_users w') of
        Inl err \<Rightarrow> Some (Inl err)
      | Inr ids \<Rightarrow>
          if ids = [] then Some (Inr (r, w'))
          else let rw = fold (scan_user oid sha256 e opts) ids (r, w') in
            (case bo_batchLimit opts of
               Integer n \<Rightarrow> if int (length ids) < n then Some (Inr rw)
                            else backfill_loop fuel oid sha256 e opts (Some (last ids)) rw
             | NotAnInteger \<Rightarrow> Some (Inr rw)))"

definition runBackfill ::
  "nat \<Rightarrow> (string \<Rightarrow> string option) \<Rightarrow> (string \<Rightarrow> nat list) \<Rightarrow> backfill_env \<Rightarrow> bool \<Rightarrow> millis option
   \<Rightarrow> js_number \<Rightarrow> js_number \<Rightarrow> backfill_world \<Rightarrow> (api_error + backfill_report \<times> backfill_world) option option" where
  \<comment> \<open>the outer \<open>None\<close> is the RangeError of the options\<close>
  "runBackfill fuel oid sha256 e doApply backfillAt batchLimit jitterWindowMs w =
     (case backfillAt of
        None \<Rightarrow> None
      | Some at \<Rightarrow>
          if \<not> isSafeInteger batchLimit \<or> (case batchLimit of Integer n \<Rightarrow> n < 1 | NotAnInteger \<Rightarrow> True) then None
          else if deterministicActivationJitterMs sha256 ''validation'' jitterWindowMs = None then None
          else Some (backfill_loop fuel oid sha256 e
                 \<lparr>bo_apply = doApply, bo_backfillAt = at, bo_batchLimit = batchLimit,
                  bo_jitterWindowMs = jitterWindowMs\<rparr> None (emptyReport, w)))"

end
