(* ===== verification/ActivationProps.thy ===== *)
theory ActivationProps
  imports ActivationServices
begin

text \<open>
  What holds of the activation collection and its services: the post-image the
  repository rebuilds is the stored document, milestones and sent markers are
  written once, a sweep never sends a user both bridge reminders, and an
  undisturbed backfill applies what it proposes.
\<close>

section \<open>How a document moves\<close>

definition activation_move :: "activation_state \<Rightarrow> activation_state \<Rightarrow> bool" where
  "activation_move d d' \<longleftrightarrow>
     as_userId d' = as_userId d \<and> as_createdAt d' = as_createdAt d \<and>
     (as_mobileSetupAt d \<noteq> None \<longrightarrow> as_mobileSetupAt d' = as_mobileSetupAt d) \<and>
     (as_bridgeSetupAt d \<noteq> None \<longrightarrow> as_bridgeSetupAt d' = as_bridgeSetupAt d) \<and>
     (\<forall>t. as_firstSessionAt d = Some t \<longrightarrow> (\<exists>t'. as_firstSessionAt d' = Some t' \<and> t' \<le> t)) \<and>
     (as_bridgeReminder1SentAt d \<noteq> None \<longrightarrow> as_bridgeReminder1SentAt d' = as_bridgeReminder1SentAt d) \<and>
     (as_bridgeReminder2SentAt d \<noteq> None \<longrightarrow> as_bridgeReminder2SentAt d' = as_bridgeReminder2SentAt d) \<and>
     (as_sessionReminderSentAt d \<noteq> None \<longrightarrow> as_sessionReminderSentAt d' = as_sessionReminderSentAt d) \<and>
     (as_backfilledAt d \<noteq> None \<longrightarrow> as_backfilledAt d' = as_backfilledAt d)"

lemma activation_move_refl [simp]: "activation_move d d"
  by (auto simp: activation_move_def)

lemma or_else_keeps [simp]: "or_else (Some v) y = Some v" "x \<noteq> None \<Longrightarrow> or_else x y = x"
  by (auto simp: or_else_def)

lemma record_move: "activation_move d ((session_base_stage \<circ> milestone_stage m at) d)"
  by (auto simp: activation_move_def session_base_stage_def milestone_stage_def split: option.splits)

lemma enrol_move: "as_backfilledAt d = None \<Longrightarrow> activation_move d ((baseline_stage i now \<circ> evidence_stage i) d)"
  by (auto simp: activation_move_def baseline_stage_def evidence_stage_def)

lemma mark_move: "reminderEligibilityFilter k cutoff d \<Longrightarrow> activation_move d (mark_sent k at d)"
  by (cases k) (auto simp: activation_move_def)

inductive activation_step :: "(string \<Rightarrow> string option) \<Rightarrow> activation_state list \<Rightarrow> activation_state list \<Rightarrow> bool"
  for oid where
  create: "activation_step oid c (snd (createIfAbsent oid rival userId at c))"
| record_query: "activation_step oid c (snd (findOneAndUpdate (\<lambda>d. oid userId = Some (as_userId d))
                    (session_base_stage \<circ> milestone_stage m at) c))"
| backfill_query: "activation_step oid c (snd (findOneAndUpdate
                    (\<lambda>d. oid userId = Some (as_userId d) \<and> as_backfilledAt d = None)
                    (baseline_stage i now \<circ> evidence_stage i) c))"
| mark: "activation_step oid c (snd (markReminderSentIfStillDue oid userId k cutoff sentAt c))"

lemma createIfAbsent_evolves: "evolves_by activation_move c (snd (createIfAbsent oid rival userId at c))"
  by (auto simp: createIfAbsent_def insertOne_def Let_def intro: evolves_by_refl evolves_by_append
      split: option.splits if_splits)

lemma activation_step_evolves: "activation_step oid c c' \<Longrightarrow> evolves_by activation_move c c'"
proof (induction rule: activation_step.induct)
  case (create c rival userId at)
  then show ?case by (rule createIfAbsent_evolves)
next
  case (record_query c userId m at)
  show ?case by (rule evolves_by_findOneAndUpdate) (simp, rule record_move)
next
  case (backfill_query c userId i now)
  show ?case by (rule evolves_by_findOneAndUpdate) (simp, blast intro: enrol_move)
next
  case (mark c userId k cutoff sentAt)
  show ?case
  proof (cases "oid userId")
    case (Some u)
    have "evolves_by activation_move c
        (updateFirst (\<lambda>d. reminderEligibilityFilter k cutoff d \<and> as_userId d = u) (mark_sent k sentAt) c)"
      by (rule evolves_by_updateFirst) (auto intro: mark_move)
    with Some show ?thesis by (simp add: markReminderSentIfStillDue_def)
  qed (simp add: markReminderSentIfStillDue_def evolves_by_refl)
qed

lemma activation_step_follow:
  assumes "activation_step oid c c'" and "state_of u c = Some d"
  shows "\<exists>d'. state_of u c' = Some d' \<and> activation_move d d'"
  using evolves_by_find [OF activation_step_evolves [OF assms(1)] assms(2) [unfolded state_of_def]]
  by (simp add: state_of_def activation_move_def)

definition ids_distinct :: "activation_state list \<Rightarrow> bool" where
  "ids_distinct c \<longleftrightarrow> distinct (map as_userId c)"

lemma createIfAbsent_distinct:
  assumes "ids_distinct c"
  shows "ids_distinct (snd (createIfAbsent oid rival userId at c))"
proof -
  have "state_of u c = None \<Longrightarrow> as_userId w = u \<Longrightarrow> ids_distinct (c @ [w])" for u w
    using assms by (auto simp: state_of_def findOne_None ids_distinct_def)
  moreover have "insertOne as_userId d c' = Some c'' \<Longrightarrow> ids_distinct c' \<Longrightarrow> ids_distinct c''" for d c' c''
    by (simp add: ids_distinct_def insertOne_distinct)
  ultimately show ?thesis
    using assms by (auto simp: createIfAbsent_def Let_def split: option.splits if_splits)
qed

lemma ids_updateFirst:
  "(\<And>d. as_userId (f d) = as_userId d) \<Longrightarrow> ids_distinct (updateFirst p f c) = ids_distinct c"
  unfolding ids_distinct_def by (subst map_updateFirst) simp_all

lemma userId_kept [simp]:
  "as_userId ((session_base_stage \<circ> milestone_stage m at) d) = as_userId d"
  "as_userId ((baseline_stage i now \<circ> evidence_stage i) d) = as_userId d"
  "as_userId (mark_sent k at d) = as_userId d"
  by (simp_all add: session_base_stage_def milestone_stage_def baseline_stage_def evidence_stage_def, cases k) simp_all

lemma activation_step_distinct: "activation_step oid c c' \<Longrightarrow> ids_distinct c \<Longrightarrow> ids_distinct c'"
proof (induction rule: activation_step.induct)
  case (create c rival userId at)
  then show ?case by (rule createIfAbsent_distinct)
next
  case (record_query c userId m at)
  then show ?case
    unfolding snd_findOneAndUpdate ids_updateFirst [OF userId_kept(1)] .
next
  case (backfill_query c userId i now)
  then show ?case
    unfolding snd_findOneAndUpdate ids_updateFirst [OF userId_kept(2)] .
next
  case (mark c userId k cutoff sentAt)
  then show ?case
    unfolding markReminderSentIfStillDue_def
    by (cases "oid userId") (simp_all only: option.case snd_conv ids_updateFirst [OF userId_kept(3)])
qed

abbreviation activation_steps where "activation_steps oid \<equiv> (activation_step oid)\<^sup>*\<^sup>*"

lemma activation_steps_distinct: "activation_steps oid c c' \<Longrightarrow> ids_distinct c \<Longrightarrow> ids_distinct c'"
  by (induction rule: rtranclp_induct) (auto intro: activation_step_distinct)

section \<open>Fields written once\<close>

fun sent_at :: "reminder_kind \<Rightarrow> activation_state \<Rightarrow> millis option" where
  "sent_at Bridge1 d = as_bridgeReminder1SentAt d"
| "sent_at Bridge2 d = as_bridgeReminder2SentAt d"
| "sent_at Session d = as_sessionReminderSentAt d"

definition reminder_sent :: "string \<times> reminder_kind \<Rightarrow> activation_state list \<Rightarrow> millis option" where
  "reminder_sent k c = Option.bind (state_of (fst k) c) (sent_at (snd k))"

definition backfilled :: "string \<Rightarrow> activation_state list \<Rightarrow> millis option" where
  "backfilled u c = Option.bind (state_of u c) as_backfilledAt"

definition set_up :: "string \<times> bool \<Rightarrow> activation_state list \<Rightarrow> millis option" where
  \<comment> \<open>the mobile and the bridge milestone\<close>
  "set_up k c = Option.bind (state_of (fst k) c) (if snd k then as_bridgeSetupAt else as_mobileSetupAt)"

lemma activation_write_once:
  assumes "\<And>d d'. activation_move d d' \<Longrightarrow> f d \<noteq> None \<Longrightarrow> f d' = f d"
    and "activation_step oid c c'" and "Option.bind (state_of u c) f = Some v"
  shows "Option.bind (state_of u c') f = Some v"
proof -
  from assms(3) obtain d where d: "state_of u c = Some d" "f d = Some v" by (auto simp: bind_eq_Some_conv)
  from activation_step_follow [OF assms(2) d(1)] obtain d' where
    "state_of u c' = Some d'" "activation_move d d'" by blast
  with assms(1) [OF this(2)] d(2) show ?thesis by simp
qed

interpretation sent: write_once "activation_step oid" reminder_sent
proof unfold_locales
  fix c c' k v
  assume "activation_step oid c c'" "reminder_sent k c = Some v"
  then show "reminder_sent k c' = Some v"
    unfolding reminder_sent_def
    by (rule activation_write_once [rotated]) (cases "snd k"; simp add: activation_move_def)
qed

interpretation enrolled: write_once "activation_step oid" backfilled
proof unfold_locales
  fix c c' k v
  assume "activation_step oid c c'" "backfilled k c = Some v"
  then show "backfilled k c' = Some v"
    unfolding backfilled_def by (rule activation_write_once [rotated]) (simp add: activation_move_def)
qed

interpretation set_up_once: write_once "activation_step oid" set_up
proof unfold_locales
  fix c c' k v
  assume "activation_step oid c c'" "set_up k c = Some v"
  then show "set_up k c' = Some v"
    unfolding set_up_def by (rule activation_write_once [rotated]) (auto simp: activation_move_def split: if_splits)
qed

text \<open>The first session only moves back in time: its order is the reversed one.\<close>

definition first_session_at :: "string \<Rightarrow> activation_state list \<Rightarrow> millis option" where
  "first_session_at u c = Option.bind (state_of u c) as_firstSessionAt"

interpretation first_seen: growing "activation_step oid" "\<lambda>a b. b \<le> a" first_session_at
proof unfold_locales
  fix c c' k and v :: millis
  assume s: "activation_step oid c c'" and v: "first_session_at k c = Some v"
  then obtain d where d: "state_of k c = Some d" "as_firstSessionAt d = Some v"
    by (auto simp: first_session_at_def bind_eq_Some_conv)
  from activation_step_follow [OF s d(1)] d(2) show "\<exists>w. first_session_at k c' = Some w \<and> w \<le> v"
    by (auto simp: first_session_at_def activation_move_def)
qed auto

section \<open>The post-image\<close>

lemma post_image_stages: "post_image m at d = (session_base_stage \<circ> milestone_stage m at) d"
  by (simp add: post_image_def session_base_stage_def milestone_stage_def Let_def or_else_def split: option.splits)

lemma post_image_userId [simp]: "as_userId (post_image m at d) = as_userId d"
  by (simp add: post_image_def Let_def)

section \<open>The sweep\<close>

lemma due_reminders_ids: "due_reminders k ds = Inr due \<Longrightarrow> map fst due = map as_userId ds"
proof (induction ds arbitrary: due)
  case (Cons d ds)
  then show ?case
    by (cases "reminder_base k d"; cases "due_reminders k ds") auto
qed simp

lemma findDueReminders_distinct:
  assumes "findDueReminders k cutoff n c = Inr due" and "ids_distinct c"
  shows "distinct (map fst due)"
proof -
  from assms(1) obtain m where
    "due_reminders k (take m (sort_key (\<lambda>d. the (reminder_base k d)) (filter (reminderEligibilityFilter k cutoff) c))) = Inr due"
    by (auto simp: findDueReminders_def split: js_number.splits if_splits)
  moreover have "distinct (map as_userId (take m (sort_key (\<lambda>d. the (reminder_base k d))
      (filter (reminderEligibilityFilter k cutoff) c))))"
  proof -
    have "set (take m (sort_key (\<lambda>d. the (reminder_base k d)) (filter (reminderEligibilityFilter k cutoff) c))) \<subseteq> set c"
      by (auto dest: in_set_takeD)
    with assms(2) show ?thesis by (auto simp: ids_distinct_def distinct_map intro: inj_on_subset)
  qed
  ultimately show ?thesis by (simp only: due_reminders_ids)
qed

definition cooperative :: "(string \<Rightarrow> string option) \<Rightarrow> sweep_env \<Rightarrow> bool" where
  \<comment> \<open>the others use the repository\<close>
  "cooperative oid e \<longleftrightarrow> (\<forall>n c. activation_steps oid c (se_others e n c))"

lemma await_steps: "cooperative oid e \<Longrightarrow> activation_steps oid (sw_states w) (sw_states (await e w))"
  by (simp add: cooperative_def await_def)

lemma mark_steps: "activation_steps oid c (snd (markReminderSentIfStillDue oid userId k cutoff at c))"
  by (rule r_into_rtranclp) (rule activation_step.mark)

lemma settleDelivery_follow:
  assumes "cooperative oid e"
  shows "activation_steps oid (sw_states w) (sw_states (snd (settleDelivery oid e k userId cutoff r (n, w)))) \<and>
         sw_sends (snd (settleDelivery oid e k userId cutoff r (n, w))) = sw_sends w"
proof -
  have m: "markReminderSentIfStillDue oid userId k cutoff at c = (b, c') \<Longrightarrow> activation_steps oid c c'" for at c b c'
    using mark_steps [of oid c userId k cutoff at] by simp
  show ?thesis
    using await_steps [OF assms, of w]
    by (auto simp: settleDelivery_def Let_def await_def split: option.split prod.split bool.split
        intro: rtranclp_trans dest!: m)
qed

definition still_due_between ::
  "(string \<Rightarrow> string option) \<Rightarrow> reminder_kind \<Rightarrow> millis \<Rightarrow> activation_state list \<Rightarrow> activation_state list \<Rightarrow> string \<Rightarrow> bool" where
  "still_due_between oid k cutoff c c' u \<longleftrightarrow>
     (\<exists>x. activation_steps oid c x \<and> activation_steps oid x c' \<and> isReminderStillDue oid u k cutoff x)"

lemma processReminder_follow:
  assumes "cooperative oid e" and "processReminder oid e k userId cutoff (n, w) = (n', w')"
  obtains us where "activation_steps oid (sw_states w) (sw_states w')"
    and "sw_sends w' = sw_sends w @ map (\<lambda>u. (u, k)) us" and "us = [] \<or> us = [userId]"
    and "list_all (still_due_between oid k cutoff (sw_states w) (sw_states w')) us"
proof -
  define w1 where "w1 = await e w"
  have a1: "activation_steps oid (sw_states w) (sw_states w1)" "sw_sends w1 = sw_sends w"
    using await_steps [OF assms(1)] by (simp_all add: w1_def) (simp add: await_def)
  show thesis
  proof (cases "se_throws e (sw_step w) \<or> \<not> isReminderStillDue oid userId k cutoff (sw_states w1) \<or>
      se_disposed e (sw_step w1)")
    case True
    then have "w' = w1" using assms(2) by (auto simp: processReminder_def Let_def w1_def split: if_splits)
    with a1 show thesis using that [of "[]"] by simp
  next
    case False
    define w2 where "w2 = await e (send userId k w1)"
    have a2: "activation_steps oid (sw_states w1) (sw_states w2)" "sw_sends w2 = sw_sends w1 @ [(userId, k)]"
      using await_steps [OF assms(1), of "send userId k w1"] by (simp_all add: w2_def send_def) (simp add: await_def)
    have "w' = snd (settleDelivery oid e k userId cutoff (se_delivery e (sw_step w1)) (n, w2))"
      using False assms(2) by (simp add: processReminder_def Let_def w1_def w2_def split: if_splits)
    with settleDelivery_follow [OF assms(1), of w2] have
      a3: "activation_steps oid (sw_states w2) (sw_states w')" "sw_sends w' = sw_sends w2" by simp_all
    have "still_due_between oid k cutoff (sw_states w) (sw_states w') userId"
      unfolding still_due_between_def using False a1(1) rtranclp_trans [OF a2(1) a3(1)] by blast
    moreover have "activation_steps oid (sw_states w) (sw_states w')"
      using a1(1) a2(1) a3(1) by (meson rtranclp_trans)
    ultimately show thesis using a1(2) a2(2) a3(2) that [of "[userId]"] by simp
  qed
qed

lemma still_due_wider:
  "still_due_between oid k cutoff c c' u \<Longrightarrow> activation_steps oid b c \<Longrightarrow> activation_steps oid c' d \<Longrightarrow>
   still_due_between oid k cutoff b d u"
  unfolding still_due_between_def by (meson rtranclp_trans)

lemma processDue_follow:
  assumes "cooperative oid e" and "processDue oid e k cutoff due (n, w) = (n', w')"
  shows "\<exists>us. activation_steps oid (sw_states w) (sw_states w') \<and>
     sw_sends w' = sw_sends w @ map (\<lambda>u. (u, k)) us \<and> subseq us (map fst due) \<and>
     list_all (still_due_between oid k cutoff (sw_states w) (sw_states w')) us"
  using assms(2)
proof (induction due arbitrary: n w)
  case Nil
  then show ?case by (intro exI [of _ "[]"]) simp
next
  case (Cons r due)
  obtain userId t where r: "r = (userId, t)" by fastforce
  show ?case
  proof (cases "se_disposed e (sw_step w)")
    case True
    with Cons.prems r have "w' = w" by simp
    then show ?thesis by (intro exI [of _ "[]"]) simp
  next
    case False
    obtain n1 w1 where p: "processReminder oid e k userId cutoff (n, w) = (n1, w1)" by fastforce
    then have rest: "processDue oid e k cutoff due (n1, w1) = (n', w')" using Cons.prems False r by simp
    from processReminder_follow [OF assms(1) p] obtain us where
      f: "activation_steps oid (sw_states w) (sw_states w1)" "sw_sends w1 = sw_sends w @ map (\<lambda>u. (u, k)) us"
         "us = [] \<or> us = [userId]" "list_all (still_due_between oid k cutoff (sw_states w) (sw_states w1)) us" .
    from Cons.IH [OF rest] obtain vs where
      g: "activation_steps oid (sw_states w1) (sw_states w')" "sw_sends w' = sw_sends w1 @ map (\<lambda>u. (u, k)) vs"
         "subseq vs (map fst due)" "list_all (still_due_between oid k cutoff (sw_states w1) (sw_states w')) vs" by blast
    have "subseq (us @ vs) (map fst (r # due))" using f(3) g(3) r by auto
    moreover have "list_all (still_due_between oid k cutoff (sw_states w) (sw_states w')) (us @ vs)"
      using f(1,4) g(1,4) by (auto simp: list_all_iff intro: still_due_wider)
    moreover have "activation_steps oid (sw_states w) (sw_states w')" using f(1) g(1) by (rule rtranclp_trans)
    ultimately show ?thesis using f(2) g(2) by (intro exI [of _ "us @ vs"]) simp
  qed
qed

lemma processKind_follow:
  assumes "cooperative oid e" and "ids_distinct (sw_states w)" and "processKind oid e opts k now w = (r, w')"
  shows "\<exists>us. activation_steps oid (sw_states w) (sw_states w') \<and>
     sw_sends w' = sw_sends w @ map (\<lambda>u. (u, k)) us \<and> distinct us \<and>
     list_all (still_due_between oid k (now - delayFor opts k) (sw_states w) (sw_states w')) us"
proof -
  define cutoff where "cutoff = now - delayFor opts k"
  define w1 where "w1 = await e w"
  have a: "activation_steps oid (sw_states w) (sw_states w1)" "sw_sends w1 = sw_sends w"
    using await_steps [OF assms(1)] by (simp_all add: w1_def) (simp add: await_def)
  have none: ?thesis if "w' = w1" using a that by (intro exI [of _ "[]"]) simp
  show ?thesis
  proof (cases "findDueReminders k cutoff (ro_batchLimit opts) (sw_states w1)")
    case (Inl x)
    then have "w' = w1"
      using assms(3) by (auto simp: processKind_def Let_def cutoff_def [symmetric] w1_def [symmetric] split: if_splits)
    then show ?thesis by (rule none)
  next
    case (Inr due)
    show ?thesis
    proof (cases "se_throws e (sw_step w)")
      case True
      then have "w' = w1" using assms(3) by (simp add: processKind_def Let_def w1_def)
      then show ?thesis by (rule none)
    next
      case False
      then obtain n' where "processDue oid e k cutoff due (emptyCounters\<lparr>cn_due := length due\<rparr>, w1) = (n', w')"
        using assms(3) Inr
        by (auto simp: processKind_def Let_def cutoff_def [symmetric] w1_def [symmetric] map_prod_def split: prod.splits)
      from processDue_follow [OF assms(1) this] obtain us where
        f: "activation_steps oid (sw_states w1) (sw_states w')" "sw_sends w' = sw_sends w1 @ map (\<lambda>u. (u, k)) us"
           "subseq us (map fst due)" "list_all (still_due_between oid k cutoff (sw_states w1) (sw_states w')) us" by blast
      have "ids_distinct (sw_states w1)" using a(1) assms(2) by (rule activation_steps_distinct)
      with Inr have "distinct us" using findDueReminders_distinct f(3) distinct_subseq by blast
      moreover have "list_all (still_due_between oid k cutoff (sw_states w) (sw_states w')) us"
        using a(1) f(4) by (auto simp: list_all_iff intro: still_due_wider)
      ultimately show ?thesis
        using rtranclp_trans [OF a(1) f(1)] a(2) f(2) unfolding cutoff_def by (intro exI [of _ us]) simp
    qed
  qed
qed

lemma sweep_kinds_step:
  assumes "cooperative oid e" and "ids_distinct (sw_states w)"
  shows "\<exists>r' w' us. (sweep_kinds oid e opts now (k # ks) (r, w) = sweep_kinds oid e opts now ks (r', w') \<or>
       sweep_kinds oid e opts now (k # ks) (r, w) = (r', w')) \<and>
     activation_steps oid (sw_states w) (sw_states w') \<and> ids_distinct (sw_states w') \<and>
     sw_sends w' = sw_sends w @ map (\<lambda>u. (u, k)) us \<and> distinct us \<and>
     list_all (still_due_between oid k (now - delayFor opts k) (sw_states w) (sw_states w')) us"
proof (cases "se_disposed e (sw_step w)")
  case True
  then show ?thesis using assms(2) by (intro exI [of _ r] exI [of _ w] exI [of _ "[]"]) simp
next
  case False
  obtain n w' where p: "processKind oid e opts k now w = (n, w')" by fastforce
  from processKind_follow [OF assms p] obtain us where
    "activation_steps oid (sw_states w) (sw_states w')"
    "sw_sends w' = sw_sends w @ map (\<lambda>u. (u, k)) us" "distinct us"
    "list_all (still_due_between oid k (now - delayFor opts k) (sw_states w) (sw_states w')) us" by blast
  moreover have "\<exists>r'. sweep_kinds oid e opts now (k # ks) (r, w) = sweep_kinds oid e opts now ks (r', w')"
    using False p by (cases n) auto
  ultimately show ?thesis using activation_steps_distinct assms(2) by blast
qed

lemma sweep_sends:
  assumes "cooperative oid e" and "ids_distinct (sw_states w)"
  shows "\<exists>x y us2 us1 uss. activation_steps oid (sw_states w) x \<and> activation_steps oid x y \<and> ids_distinct y \<and>
     sw_sends (snd (runSweep oid e opts now w)) =
       sw_sends w @ map (\<lambda>u. (u, Bridge2)) us2 @ map (\<lambda>u. (u, Bridge1)) us1 @ map (\<lambda>u. (u, Session)) uss \<and>
     distinct us2 \<and> distinct us1 \<and> distinct uss \<and>
     list_all (still_due_between oid Bridge2 (now - delayFor opts Bridge2) (sw_states w) x) us2 \<and>
     list_all (still_due_between oid Bridge1 (now - delayFor opts Bridge1) x y) us1"
proof -
  define z where "z = (\<lambda>k::reminder_kind. emptyCounters)"
  from sweep_kinds_step [OF assms, of opts now Bridge2 "[Bridge1, Session]" z] obtain r2 w2 us2 where
    a: "sweep_kinds oid e opts now [Bridge2, Bridge1, Session] (z, w) = sweep_kinds oid e opts now [Bridge1, Session] (r2, w2) \<or>
        sweep_kinds oid e opts now [Bridge2, Bridge1, Session] (z, w) = (r2, w2)"
       "activation_steps oid (sw_states w) (sw_states w2)" "ids_distinct (sw_states w2)"
       "sw_sends w2 = sw_sends w @ map (\<lambda>u. (u, Bridge2)) us2" "distinct us2"
       "list_all (still_due_between oid Bridge2 (now - delayFor opts Bridge2) (sw_states w) (sw_states w2)) us2" by blast
  from sweep_kinds_step [OF assms(1) a(3), of opts now Bridge1 "[Session]" r2] obtain r1 w1 us1 where
    b: "sweep_kinds oid e opts now [Bridge1, Session] (r2, w2) = sweep_kinds oid e opts now [Session] (r1, w1) \<or>
        sweep_kinds oid e opts now [Bridge1, Session] (r2, w2) = (r1, w1)"
       "activation_steps oid (sw_states w2) (sw_states w1)" "ids_distinct (sw_states w1)"
       "sw_sends w1 = sw_sends w2 @ map (\<lambda>u. (u, Bridge1)) us1" "distinct us1"
       "list_all (still_due_between oid Bridge1 (now - delayFor opts Bridge1) (sw_states w2) (sw_states w1)) us1" by blast
  from sweep_kinds_step [OF assms(1) b(3), of opts now Session "[]" r1] obtain rs ws uss where
    c: "sweep_kinds oid e opts now [Session] (r1, w1) = (rs, ws)"
       "sw_sends ws = sw_sends w1 @ map (\<lambda>u. (u, Session)) uss" "distinct uss" by auto
  have run: "snd (runSweep oid e opts now w) = snd (sweep_kinds oid e opts now [Bridge2, Bridge1, Session] (z, w))"
    by (simp only: runSweep_def REMINDER_KINDS_def z_def)
  from a(1) b(1) consider "snd (runSweep oid e opts now w) = ws" | "snd (runSweep oid e opts now w) = w1"
    | "snd (runSweep oid e opts now w) = w2" unfolding run c(1) by fastforce
  then show ?thesis
  proof cases
    case 1
    then show ?thesis using a b c by (intro exI [of _ "sw_states w2"] exI [of _ "sw_states w1"] exI [of _ us2] exI [of _ us1] exI [of _ uss]) simp
  next
    case 2
    then show ?thesis using a b by (intro exI [of _ "sw_states w2"] exI [of _ "sw_states w1"] exI [of _ us2] exI [of _ us1] exI [of _ "[]"]) simp
  next
    case 3
    then show ?thesis using a by (intro exI [of _ "sw_states w2"] exI [of _ "sw_states w2"] exI [of _ us2] exI [of _ "[]"] exI [of _ "[]"]) simp
  qed
qed

lemma state_of_distinct: "ids_distinct c \<Longrightarrow> d \<in> set c \<Longrightarrow> as_userId d = u \<Longrightarrow> state_of u c = Some d"
  unfolding state_of_def ids_distinct_def by (drule (1) findOne_unique) simp

lemma still_due_state:
  assumes "isReminderStillDue oid userId k cutoff c" and "ids_distinct c"
  obtains u d where "oid userId = Some u" and "state_of u c = Some d" and "reminderEligibilityFilter k cutoff d"
proof -
  from assms(1) obtain u d where "oid userId = Some u"
    and "findOne (\<lambda>d. reminderEligibilityFilter k cutoff d \<and> as_userId d = u) c = Some d"
    by (auto simp: isReminderStillDue_def split: option.splits)
  with findOne_Some [OF this(2)] show thesis using that [of u d] state_of_distinct [OF assms(2), of d u] by simp
qed

lemma bridge_reminders_exclusive:
  assumes "still_due_between oid Bridge2 cutoff c x userId" and "still_due_between oid Bridge1 cutoff' x y userId"
    and "ids_distinct c"
  shows False
proof -
  from assms(1) obtain c2 where c2: "activation_steps oid c c2" "activation_steps oid c2 x"
    "isReminderStillDue oid userId Bridge2 cutoff c2" unfolding still_due_between_def by blast
  from assms(2) obtain c1 where c1: "activation_steps oid x c1"
    "isReminderStillDue oid userId Bridge1 cutoff' c1" unfolding still_due_between_def by blast
  have steps: "activation_steps oid c2 c1" using c2(2) c1(1) by (rule rtranclp_trans)
  have d2: "ids_distinct c2" using c2(1) assms(3) by (rule activation_steps_distinct)
  from still_due_state [OF c2(3) d2] obtain u d where
    u: "oid userId = Some u" "state_of u c2 = Some d" "reminderEligibilityFilter Bridge2 cutoff d" .
  then obtain t where "reminder_sent (u, Bridge1) c2 = Some t" by (auto simp: reminder_sent_def)
  then have "reminder_sent (u, Bridge1) c1 = Some t" by (rule sent.keeps_many [OF steps])
  moreover from still_due_state [OF c1(2) activation_steps_distinct [OF steps d2]] u(1) obtain d' where
    "state_of u c1 = Some d'" "reminderEligibilityFilter Bridge1 cutoff' d'" by auto
  ultimately show False by (simp add: reminder_sent_def)
qed

definition quiet_sweep :: "(nat \<Rightarrow> delivery option) \<Rightarrow> (nat \<Rightarrow> millis) \<Rightarrow> sweep_env" where
  \<comment> \<open>nobody interferes\<close>
  "quiet_sweep delivery clock = \<lparr>se_others = (\<lambda>_ c. c), se_throws = (\<lambda>_. False), se_disposed = (\<lambda>_. False),
     se_disposeTimedOut = (\<lambda>_. False), se_delivery = delivery, se_now = clock\<rparr>"

lemma quiet_cooperative: "cooperative oid (quiet_sweep delivery clock)"
  by (simp add: cooperative_def quiet_sweep_def)

text \<open>Whatever other requests, failures, partial deliveries and a disposal do to it, one sweep
  never sends a user the same reminder twice, nor the first bridge reminder and its follow-up
  back to back: the sequence gate and the order of the kinds see to it.\<close>
lemma one_bridge_reminder_per_sweep:
  assumes "cooperative oid e" and "ids_distinct (sw_states w)" and "sw_sends w = []"
  shows "distinct (sw_sends (snd (runSweep oid e opts now w))) \<and>
    \<not> ((u, Bridge1) \<in> set (sw_sends (snd (runSweep oid e opts now w))) \<and>
       (u, Bridge2) \<in> set (sw_sends (snd (runSweep oid e opts now w))))"
proof -
  from sweep_sends [OF assms(1,2), of opts now] obtain x y us2 us1 uss where
    s: "sw_sends (snd (runSweep oid e opts now w)) =
        map (\<lambda>u. (u, Bridge2)) us2 @ map (\<lambda>u. (u, Bridge1)) us1 @ map (\<lambda>u. (u, Session)) uss"
    and d: "distinct us2" "distinct us1" "distinct uss"
    and l: "list_all (still_due_between oid Bridge2 (now - delayFor opts Bridge2) (sw_states w) x) us2"
      "list_all (still_due_between oid Bridge1 (now - delayFor opts Bridge1) x y) us1"
    using assms(3) by auto
  have "\<not> (u \<in> set us1 \<and> u \<in> set us2)"
    using l bridge_reminders_exclusive [OF _ _ assms(2)] unfolding list_all_iff by blast
  then show ?thesis unfolding s using d by (auto simp: distinct_map inj_on_def)
qed

text \<open>What the repository answers and what it stored are one document: the state it rebuilds in
  JavaScript from the pre-image equals the result of the two-stage pipeline, and a milestone
  it reports as recorded is stored with the date that was asked for.\<close>
lemma milestones_reported_as_stored:
  assumes "recordMilestonesWithResult oid rival env userId m at c = (Inr (d, recorded), c')"
  shows "findStateByUserId oid userId c' = Some d \<and>
    (mu_bridgeSetupAt recorded = None \<or> as_bridgeSetupAt d = mu_bridgeSetupAt recorded) \<and>
    (mu_mobileSetupAt recorded = None \<or> as_mobileSetupAt d = mu_mobileSetupAt recorded) \<and>
    (mu_firstSessionAt recorded = None \<or> as_firstSessionAt d = mu_firstSessionAt recorded)"
proof -
  let ?p = "\<lambda>d. oid userId = Some (as_userId d)" and ?f = "session_base_stage \<circ> milestone_stage m at"
  from assms obtain b p q where f: "findOneAndUpdate ?p ?f (env b) = (Some (p, q), c')"
    and d: "d = post_image m at p" "recorded = recorded_milestones m p"
    by (auto simp: recordMilestonesWithResult_def split: prod.splits sum.splits option.splits)
  then have p: "findOne ?p (env b) = Some p" and c': "c' = updateFirst ?p ?f (env b)"
    by (auto simp: findOneAndUpdate_def split: option.splits)
  have "?p (?f p)" using findOne_Some [OF p] by (simp only: userId_kept)
  then have "findOne ?p (updateFirst ?p ?f (env b)) = Some (?f p)" by (rule findOne_updateFirst [OF p])
  then have "findOne ?p c' = Some d" unfolding c' d(1) post_image_stages .
  moreover from findOne_Some [OF p] have "oid userId = Some (as_userId p)" by simp
  ultimately have "findStateByUserId oid userId c' = Some d"
    by (simp add: findStateByUserId_def state_of_def eq_commute)
  then show ?thesis
    unfolding d by (auto simp: recorded_milestones_def post_image_def Let_def split: if_splits option.splits)
qed

lemma milestones_reported_as_stored_witness:
  "findStateByUserId Some ''u'' [post_image \<lparr>mu_mobileSetupAt = Some 4, mu_bridgeSetupAt = None, mu_firstSessionAt = None\<rparr> 9
       (new_activation_state 9 ''u'')] =
     Some (post_image \<lparr>mu_mobileSetupAt = Some 4, mu_bridgeSetupAt = None, mu_firstSessionAt = None\<rparr> 9
       (new_activation_state 9 ''u''))"
  using milestones_reported_as_stored [where oid = Some and rival = None and env = "\<lambda>c. c" and userId = "''u''"
      and m = "\<lparr>mu_mobileSetupAt = Some 4, mu_bridgeSetupAt = None, mu_firstSessionAt = None\<rparr>" and at = 9 and c = "[]"
      and d = "post_image \<lparr>mu_mobileSetupAt = Some 4, mu_bridgeSetupAt = None, mu_firstSessionAt = None\<rparr> 9 (new_activation_state 9 ''u'')"
      and recorded = "\<lparr>mu_mobileSetupAt = Some 4, mu_bridgeSetupAt = None, mu_firstSessionAt = None\<rparr>"
      and c' = "[post_image \<lparr>mu_mobileSetupAt = Some 4, mu_bridgeSetupAt = None, mu_firstSessionAt = None\<rparr> 9 (new_activation_state 9 ''u'')]"]
  by (simp add: recordMilestonesWithResult_def createIfAbsent_def state_of_def insertOne_def findOneAndUpdate_def
      new_activation_state_def post_image_def session_base_stage_def milestone_stage_def recorded_milestones_def
      or_else_def Let_def)

definition demo_sweep :: sweep_world where
  "demo_sweep = \<lparr>sw_step = 0, sw_states = [(new_activation_state 0 ''u'')\<lparr>as_bridgeReminderBaseAt := Some 0\<rparr>], sw_sends = []\<rparr>"

definition demo_options :: reminder_options where
  "demo_options = \<lparr>ro_enabled = True, ro_bridgeReminder1DelayMs = 10, ro_bridgeReminder2DelayMs = 20,
     ro_sessionReminderDelayMs = 10, ro_batchLimit = Integer 5\<rparr>"

definition demo_env :: sweep_env where
  "demo_env = quiet_sweep (\<lambda>_. Some \<lparr>devicesNotified = 1, retryableFailures = 0\<rparr>) (\<lambda>_. 50)"

lemma demo_ready: "cooperative Some demo_env" "ids_distinct (sw_states demo_sweep)" "sw_sends demo_sweep = []"
  by (simp_all add: demo_env_def quiet_cooperative demo_sweep_def ids_distinct_def)

lemma demo_sends: "sw_sends (snd (runSweep Some demo_env demo_options 50 demo_sweep)) = [(''u'', Bridge1)]"
  by (simp add: runSweep_def REMINDER_KINDS_def processKind_def demo_env_def quiet_sweep_def demo_options_def demo_sweep_def
      await_def findDueReminders_def MAX_SAFE_INTEGER_def new_activation_state_def on_or_before_def emptyCounters_def
      processReminder_def isReminderStillDue_def send_def settleDelivery_def markReminderSentIfStillDue_def Let_def)

lemma one_bridge_reminder_per_sweep_witness:
  "sw_sends (snd (runSweep Some demo_env demo_options 50 demo_sweep)) = [(''u'', Bridge1)] \<and>
   \<not> ((''u'', Bridge1) \<in> set (sw_sends (snd (runSweep Some demo_env demo_options 50 demo_sweep))) \<and>
      (''u'', Bridge2) \<in> set (sw_sends (snd (runSweep Some demo_env demo_options 50 demo_sweep))))"
  using one_bridge_reminder_per_sweep [OF demo_ready, of demo_options 50 "''u''"] demo_sends by blast

end
