(* ===== verification/BackfillProps.thy ===== *)
theory BackfillProps
  imports ActivationProps
begin

text \<open>
  The activation backfill when nobody interferes: it returns, scans every account
  created before the backfill once, and its two columns agree: what it proposes for
  a user is what it applies.  Also the guard of the activation service against
  evidence older than the account.
\<close>

section \<open>One user\<close>

definition quiet_backfill :: "(nat \<Rightarrow> millis) \<Rightarrow> backfill_env" where
  "quiet_backfill clock = \<lparr>be_others = (\<lambda>_ w. w), be_throws = (\<lambda>_. False), be_rival = (\<lambda>_. None),
     be_upsert = (\<lambda>_ c. c), be_now = clock\<rparr>"

lemma quiet_turn: "turn (quiet_backfill clock) w = w\<lparr>bw_step := bw_step w + 1\<rparr>"
  by (simp add: turn_def quiet_backfill_def)

lemma quiet_fields [simp]:
  "be_throws (quiet_backfill clock) k = False" "be_rival (quiet_backfill clock) k = None"
  "be_upsert (quiet_backfill clock) k = (\<lambda>c. c)" "be_now (quiet_backfill clock) k = clock k"
  by (simp_all add: quiet_backfill_def)

definition balanced :: "backfill_report \<Rightarrow> bool" where
  "balanced r \<longleftrightarrow>
     (\<forall>k. ty_applied (bp_byStage r k) = ty_proposed (bp_byStage r k)) \<and>
     (\<forall>k. ty_applied (bp_byReminder r k) = ty_proposed (bp_byReminder r k))"

lemma findOne_refine: "findOne p c = Some d \<Longrightarrow> q d \<Longrightarrow> findOne (\<lambda>x. p x \<and> q x) c = Some d"
  by (induction c) (auto split: if_splits)

lemma createIfAbsent_quiet:
  assumes "oid userId = Some u"
  obtains d c' where "createIfAbsent oid None userId at c = (Inr d, c')" and "state_of u c' = Some d"
    and "state_of u c = Some d \<or> state_of u c = None \<and> d = new_activation_state at u"
proof (cases "state_of u c")
  case None
  then have "insertOne as_userId (new_activation_state at u) c = Some (c @ [new_activation_state at u])"
    by (auto simp: insertOne_def state_of_def findOne_None new_activation_state_def)
  with assms None show thesis
    using that [of "new_activation_state at u" "c @ [new_activation_state at u]"]
    by (simp add: createIfAbsent_def state_of_def findOne_append new_activation_state_def Let_def)
next
  case (Some d)
  with assms show thesis using that [of d c] by (simp add: createIfAbsent_def)
qed

lemma applyBackfill_quiet:
  assumes "oid userId = Some u" and "Option.bind (state_of u c) as_backfilledAt = None"
  obtains d c' where "applyBackfill oid None (\<lambda>c. c) now userId i c =
      (Inr ((baseline_stage i now \<circ> evidence_stage i) d, True), c')"
    and "state_of u c = Some d \<or> state_of u c = None \<and> d = new_activation_state (bi_backfilledAt i) u"
proof -
  from createIfAbsent_quiet [where oid = oid and userId = userId, OF assms(1), of "bi_backfilledAt i" c] obtain d c' where
    d: "createIfAbsent oid None userId (bi_backfilledAt i) c = (Inr d, c')" "state_of u c' = Some d"
      "state_of u c = Some d \<or> state_of u c = None \<and> d = new_activation_state (bi_backfilledAt i) u" .
  have b: "as_backfilledAt d = None" using d(3) assms(2) by (auto simp: new_activation_state_def)
  have "findOne (\<lambda>x. oid userId = Some (as_userId x)) c' = Some d"
    using d(2) unfolding assms(1) option.inject state_of_def by (subst eq_commute)
  then have "findOne (\<lambda>x. oid userId = Some (as_userId x) \<and> as_backfilledAt x = None) c' = Some d"
    using b by (rule findOne_refine)
  with d(1,3) show thesis using that
    by (simp add: applyBackfill_def findOneAndUpdate_def)
qed

lemma merged_snapshot:
  assumes "s = Some d \<or> s = None \<and> d = new_activation_state at u"
  shows "snapshotFrom s ev = snapshotFrom (Some d) ev"
  using assms by (auto simp: snapshotFrom_def new_activation_state_def)

definition input_of :: "milestone_update \<Rightarrow> millis option \<Rightarrow> millis \<Rightarrow> backfill_input" where
  "input_of ev base at = \<lparr>bi_mobileSetupAt = mu_mobileSetupAt ev, bi_bridgeSetupAt = mu_bridgeSetupAt ev,
     bi_firstSessionAt = mu_firstSessionAt ev, bi_reminderBaseAt = base, bi_backfilledAt = at\<rparr>"

lemma applied_stage:
  "stageFor (snapshotFrom (Some ((baseline_stage (input_of ev base at) now \<circ> evidence_stage (input_of ev base at)) d)) ev) =
   stageFor (snapshotFrom (Some d) ev)"
  by (simp add: stageFor_def snapshotFrom_def baseline_stage_def evidence_stage_def input_of_def or_else_def
      split: option.split)

lemma applied_as_proposed:
  assumes "base = (if eligible then Some t else None)"
    and "eligible \<Longrightarrow> sn_mobileSetupAt (snapshotFrom (Some d) ev) \<noteq> None"
  shows "applied_reminder ((baseline_stage (input_of ev base at) now \<circ> evidence_stage (input_of ev base at)) d) base =
    reminderFor (snapshotFrom (Some d) ev) eligible"
proof (cases eligible)
  case False
  then have "base = None" using assms(1) by simp
  then show ?thesis using False by (simp add: applied_reminder_def reminderFor_def sameTime_def)
next
  case True
  then have b: "base = Some t" and m: "or_else (as_mobileSetupAt d) (mu_mobileSetupAt ev) \<noteq> None"
    using assms by (simp_all add: snapshotFrom_def)
  define bridge where "bridge = or_else (as_bridgeSetupAt d) (mu_bridgeSetupAt ev)"
  define session where "session = or_else (as_firstSessionAt d) (mu_firstSessionAt ev)"
  show ?thesis
    using True m unfolding b
    by (cases bridge; cases session)
      (simp_all add: applied_reminder_def reminderFor_def snapshotFrom_def baseline_stage_def
        evidence_stage_def input_of_def sameTime_def bridge_def session_def)
qed

lemma processUser_quiet:
  assumes "oid userId = Some u" and "bo_apply opts" and "balanced r"
  obtains ok r' w' where "processUser oid sha256 (quiet_backfill clock) opts userId (r, w) = (ok, r', w')"
    and "balanced r'" and "bp_usersScanned r' = bp_usersScanned r" and "bw_users w' = bw_users w"
proof -
  define res where "res = processUser oid sha256 (quiet_backfill clock) opts userId (r, w)"
  define s where "s = findStateByUserId oid userId (bw_states w)"
  have s: "s = state_of u (bw_states w)" using assms(1) by (simp add: s_def findStateByUserId_def)
  define ev where "ev = evidence_of oid userId w"
  have evw: "evidence_of oid userId (w\<lparr>bw_step := n\<rparr>) = ev" for n by (simp add: ev_def evidence_of_def)
  define el where "el = (findEarliestCreatedAt oid userId (bw_tokens w) \<noteq> None \<and> sn_mobileSetupAt (snapshotFrom s ev) \<noteq> None)"
  consider "Option.bind s as_backfilledAt \<noteq> None"
    | "Option.bind s as_backfilledAt = None" "deterministicActivationJitterMs sha256 userId (bo_jitterWindowMs opts) = None"
    | j where "Option.bind s as_backfilledAt = None"
      "deterministicActivationJitterMs sha256 userId (bo_jitterWindowMs opts) = Some j"
      "MAX_DATE_MS < \<bar>bo_backfillAt opts + j\<bar>"
    | j where "Option.bind s as_backfilledAt = None"
      "deterministicActivationJitterMs sha256 userId (bo_jitterWindowMs opts) = Some j"
      "\<not> MAX_DATE_MS < \<bar>bo_backfillAt opts + j\<bar>"
    by (cases "deterministicActivationJitterMs sha256 userId (bo_jitterWindowMs opts)") auto
  then show thesis
  proof cases
    case 1
    then show thesis
      using that [of True "r\<lparr>bp_usersAlreadyBackfilled := bp_usersAlreadyBackfilled r + 1\<rparr>" "turn (quiet_backfill clock) w"] assms(3)
      by (simp add: processUser_def quiet_turn Let_def s_def balanced_def)
  next
    case 2
    then have "res = (False, r, turn (quiet_backfill clock) (turn (quiet_backfill clock) w))"
      by (simp add: res_def processUser_def quiet_turn Let_def s_def)
    then show thesis
      by (rule that [of False r, unfolded res_def [symmetric]]) (simp_all add: assms(3) quiet_turn)
  next
    case 3
    then have "res = (False, r, turn (quiet_backfill clock) (turn (quiet_backfill clock) w))"
      by (simp add: res_def processUser_def quiet_turn Let_def s_def)
    then show thesis
      by (rule that [of False r, unfolded res_def [symmetric]]) (simp_all add: assms(3) quiet_turn)
  next
    case 4
    define base where "base = (if el then Some (bo_backfillAt opts + j) else None)"
    define i where "i = input_of ev base (bo_backfillAt opts)"
    define now where "now = clock (bw_step w + 2)"
    from applyBackfill_quiet [where oid = oid and userId = userId, OF assms(1), of "bw_states w" now i] 4(1) obtain d c' where
      a: "applyBackfill oid None (\<lambda>c. c) now userId i (bw_states w) =
           (Inr ((baseline_stage i now \<circ> evidence_stage i) d, True), c')"
        "s = Some d \<or> s = None \<and> d = new_activation_state (bi_backfilledAt i) u" unfolding s by blast
    define d' where "d' = (baseline_stage i now \<circ> evidence_stage i) d"
    have sn: "snapshotFrom s ev = snapshotFrom (Some d) ev" using a(2) by (rule merged_snapshot)
    have st: "stageFor (snapshotFrom (Some d') ev) = stageFor (snapshotFrom s ev)"
      unfolding d'_def i_def sn by (rule applied_stage)
    have rm: "applied_reminder d' base = reminderFor (snapshotFrom s ev) el"
      unfolding d'_def i_def sn by (rule applied_as_proposed [OF base_def]) (simp add: el_def sn)
    define r1 where "r1 = r\<lparr>bp_usersProposed := bp_usersProposed r + 1,
        bp_byStage := count_proposed (stageFor (snapshotFrom s ev)) (bp_byStage r),
        bp_byReminder := count_proposed (reminderFor (snapshotFrom s ev) el) (bp_byReminder r)\<rparr>"
    have res: "res = (True, count_outcome ev base (d', True) r1, w\<lparr>bw_step := bw_step w + 3, bw_states := c'\<rparr>)"
      using 4 assms(2) a(1) unfolding res_def processUser_def d'_def
      by (simp add: quiet_turn Let_def s_def [symmetric] evw el_def base_def r1_def i_def input_of_def now_def)
    have "balanced (count_outcome ev base (d', True) r1)"
      using assms(3) by (simp add: balanced_def count_outcome_def r1_def st rm count_applied_def count_proposed_def)
    with res show thesis using that by (simp add: res_def count_outcome_def r1_def)
  qed
qed

section \<open>The loop\<close>

lemma scan_users_quiet:
  assumes "list_all (\<lambda>i. oid i \<noteq> None) ids" and "bo_apply opts" and "balanced r"
  obtains r' w' where "fold (scan_user oid sha256 (quiet_backfill clock) opts) ids (r, w) = (r', w')"
    and "balanced r'" and "bp_usersScanned r' = bp_usersScanned r + length ids" and "bw_users w' = bw_users w"
  using assms
proof (induction ids arbitrary: r w thesis)
  case (Cons i ids)
  from Cons.prems(2) obtain u where u: "oid i = Some u" by auto
  have "balanced (r\<lparr>bp_usersScanned := bp_usersScanned r + 1\<rparr>)" using Cons.prems(4) by (simp add: balanced_def)
  from processUser_quiet [where oid = oid and userId = i, OF u assms(2) this, of sha256 clock w] obtain ok r1 w1 where
    p: "processUser oid sha256 (quiet_backfill clock) opts i (r\<lparr>bp_usersScanned := bp_usersScanned r + 1\<rparr>, w) = (ok, r1, w1)"
      "balanced r1" "bp_usersScanned r1 = bp_usersScanned r + 1" "bw_users w1 = bw_users w" by auto
  define r2 where "r2 = (if ok then r1 else r1\<lparr>bp_usersFailed := bp_usersFailed r1 + 1\<rparr>)"
  have r2: "scan_user oid sha256 (quiet_backfill clock) opts i (r, w) = (r2, w1)" "balanced r2"
    "bp_usersScanned r2 = bp_usersScanned r + 1"
    using p(1-3) by (simp_all add: scan_user_def r2_def balanced_def)
  have rest: "list_all (\<lambda>i. oid i \<noteq> None) ids" using Cons.prems(2) by simp
  obtain r' w' where "fold (scan_user oid sha256 (quiet_backfill clock) opts) ids (r2, w1) = (r', w')"
    "balanced r'" "bp_usersScanned r' = bp_usersScanned r2 + length ids" "bw_users w' = bw_users w1"
    by (rule Cons.IH [OF _ rest assms(2) r2(2)])
  then show ?case using Cons.prems(1) [of r' w'] r2(1,3) p(4) by simp
qed simp

lemma backfill_loop_quiet:
  assumes "distinct (map u_id c)" and "\<forall>d \<in> set c. oid (u_id d) = Some (u_id d)"
    and "bo_apply opts" and "bo_batchLimit opts = Integer n" and "1 \<le> n" and "n \<le> MAX_SAFE_INTEGER"
    and "cursor oid after = Some a" and "bw_users w = c" and "balanced r"
    and "length (beyond u_id a (\<lambda>d. u_createdAt d \<le> bo_backfillAt opts) c) < fuel"
  shows "\<exists>r' w'. backfill_loop fuel oid sha256 (quiet_backfill clock) opts after (r, w) = Some (Inr (r', w')) \<and>
     balanced r' \<and>
     bp_usersScanned r' = bp_usersScanned r + length (beyond u_id a (\<lambda>d. u_createdAt d \<le> bo_backfillAt opts) c)"
  using assms(7-10)
proof (induction fuel arbitrary: after a r w)
  case (Suc fuel)
  let ?p = "\<lambda>d. u_createdAt d \<le> bo_backfillAt opts"
  let ?B = "beyond u_id a ?p c"
  let ?ids = "map u_id (take (nat n) ?B)"
  let ?e = "quiet_backfill clock"
  have find: "findIdBatch oid after (Integer n) (Some (bo_backfillAt opts)) c = Inr ?ids"
    using assms(5,6) Suc.prems(1) by (simp add: findIdBatch_def page_beyond)
  have throws: "be_throws ?e k = False" for k by simp
  show ?case
  proof (cases "?B = []")
    case True
    then show ?thesis using find Suc.prems(2,3) assms(4) by (simp add: quiet_turn throws)
  next
    case False
    then have ne: "?ids \<noteq> []" using assms(5) by simp
    have mem: "set (take (nat n) ?B) \<subseteq> set c" by (auto dest!: in_set_takeD simp: beyond_set)
    have "list_all (\<lambda>i. oid i \<noteq> None) ?ids" using mem assms(2) by (auto simp: list_all_iff)
    from scan_users_quiet [OF this assms(3) Suc.prems(3), of sha256 clock "turn ?e w"] obtain r1 w1 where
      f: "fold (scan_user oid sha256 ?e opts) ?ids (r, turn ?e w) = (r1, w1)" "balanced r1"
        "bp_usersScanned r1 = bp_usersScanned r + length ?ids" "bw_users w1 = c"
      using Suc.prems(2) by (auto simp: quiet_turn)
    have loop: "backfill_loop (Suc fuel) oid sha256 ?e opts after (r, w) =
        (if int (length ?ids) < n then Some (Inr (r1, w1))
         else backfill_loop fuel oid sha256 ?e opts (Some (last ?ids)) (r1, w1))"
    proof -
      have "bw_users (turn ?e w) = c" using Suc.prems(2) by (simp add: quiet_turn)
      then show ?thesis using find ne f(1) assms(4)
        by (simp only: backfill_loop.simps Let_def throws if_False sum.case js_number.case)
    qed
    show ?thesis
    proof (cases "int (length ?ids) < n")
      case True
      then have "length ?ids = length ?B" by (simp add: min_def split: if_splits)
      then show ?thesis using loop True f(2,3) by auto
    next
      case more: False
      define z where "z = last (take (nat n) ?B)"
      have z: "z \<in> set c" "last ?ids = u_id z" using mem ne last_in_set [of "take (nat n) ?B"]
        unfolding z_def by (auto simp: last_map)
      have rest: "beyond u_id (Some (u_id z)) ?p c = drop (nat n) ?B"
        unfolding z_def using ne by (intro beyond_drop [OF assms(1)]) simp_all
      have "cursor oid (Some (last ?ids)) = Some (Some (u_id z))"
        using z assms(2) by (simp add: cursor_def)
      moreover have "length (beyond u_id (Some (u_id z)) ?p c) < fuel"
        using Suc.prems(4) False assms(5) unfolding rest by (cases ?B) auto
      ultimately obtain r' w' where
        "backfill_loop fuel oid sha256 ?e opts (Some (last ?ids)) (r1, w1) = Some (Inr (r', w'))" "balanced r'"
        "bp_usersScanned r' = bp_usersScanned r1 + length (drop (nat n) ?B)"
        using Suc.IH [of "Some (last ?ids)" "Some (u_id z)" w1 r1] f(2,4) unfolding rest by blast
      moreover have "length ?ids + length (drop (nat n) ?B) = length ?B" using more by simp
      ultimately show ?thesis using loop more f(3) by auto
    qed
  qed
qed simp

text \<open>An undisturbed run of the activation backfill with apply returns within one more round
  than there are users, scans each account created up to the backfill date once, and its
  report is balanced: for every stage and every reminder, what was proposed was applied.\<close>
lemma backfill_applies_what_it_proposes:
  assumes "distinct (map u_id (bw_users w))" and "list_all (\<lambda>d. oid (u_id d) = Some (u_id d)) (bw_users w)"
    and "1 \<le> n" and "n \<le> MAX_SAFE_INTEGER" and "0 \<le> window" and "window \<le> MAX_SAFE_INTEGER"
    and "length (bw_users w) < fuel"
  shows "\<exists>r w'. runBackfill fuel oid sha256 (quiet_backfill clock) True (Some at) (Integer n) (Integer window) w =
       Some (Some (Inr (r, w'))) \<and> balanced r \<and>
     bp_usersScanned r = length (filter (\<lambda>d. u_createdAt d \<le> at) (bw_users w))"
proof -
  let ?o = "\<lparr>bo_apply = True, bo_backfillAt = at, bo_batchLimit = Integer n, bo_jitterWindowMs = Integer window\<rparr>"
  have b: "length (beyond u_id None (\<lambda>d. u_createdAt d \<le> at) (bw_users w)) =
      length (filter (\<lambda>d. u_createdAt d \<le> at) (bw_users w))" by (simp add: beyond_def)
  have l: "length (filter (\<lambda>d. u_createdAt d \<le> at) (bw_users w)) < fuel"
    using assms(7) length_filter_le by (rule le_less_trans [rotated])
  have "\<exists>r' w'. backfill_loop fuel oid sha256 (quiet_backfill clock) ?o None (emptyReport, w) = Some (Inr (r', w')) \<and>
     balanced r' \<and> bp_usersScanned r' = bp_usersScanned emptyReport + length (beyond u_id None (\<lambda>d. u_createdAt d \<le> at) (bw_users w))"
    using backfill_loop_quiet [OF assms(1), of oid ?o n None None w emptyReport fuel sha256 clock] assms(2-4) l
    by (simp add: list_all_iff cursor_def b balanced_def emptyReport_def)
  then show ?thesis
    using assms(3-6) by (auto simp: runBackfill_def deterministicActivationJitterMs_def b emptyReport_def)
qed

definition demo_world :: backfill_world where
  "demo_world = \<lparr>bw_step = 0,
     bw_users = [\<lparr>u_id = ''a1'', u_tokenVersion = Some 3, u_createdAt = 5, u_updatedAt = 5, u_preference = Missing,
       u_preferenceUpdatedAt = Missing, u_preferenceRevision = Missing, u_lastOperationId = Missing,
       u_exportSuppressedAt = Missing\<rparr>],
     bw_tokens = [\<lparr>dt_userId = ''a1'', dt_token = ''t'', dt_platform = IosPlatform, dt_deviceId = Null,
       dt_createdAt = Val 6, dt_updatedAt = 6\<rparr>],
     bw_bridges = [], bw_usage = [], bw_states = []\<rparr>"

lemma backfill_applies_what_it_proposes_witness:
  "\<exists>r w'. runBackfill 2 Some (\<lambda>_. []) (quiet_backfill (\<lambda>_. 9)) True (Some 8) (Integer 1) (Integer 0) demo_world =
     Some (Some (Inr (r, w'))) \<and> balanced r \<and> bp_usersScanned r = 1"
  using backfill_applies_what_it_proposes [of demo_world Some 1 0 2 "\<lambda>_. []" "\<lambda>_. 9" 8]
  by (simp add: demo_world_def MAX_SAFE_INTEGER_def)

section \<open>Evidence older than the account\<close>

definition not_before :: "millis \<Rightarrow> millis option \<Rightarrow> bool" where
  "not_before a t \<longleftrightarrow> (case t of None \<Rightarrow> True | Some x \<Rightarrow> a \<le> x)"

definition milestones_since :: "millis \<Rightarrow> activation_state \<Rightarrow> bool" where
  "milestones_since a d \<longleftrightarrow> not_before a (as_mobileSetupAt d) \<and> not_before a (as_bridgeSetupAt d) \<and>
     not_before a (as_firstSessionAt d)"

lemma not_before_simps [simp]: "not_before a None" "not_before a (Some x) \<longleftrightarrow> a \<le> x"
  by (simp_all add: not_before_def)

lemma not_before_or_else [simp]: "not_before a x \<Longrightarrow> not_before a y \<Longrightarrow> not_before a (or_else x y)"
  by (cases x) simp_all

lemma not_before_guard [simp]: "not_before a (milestone_guard (Some a) e)"
  by (simp add: milestone_guard_def split: option.split)

lemma not_before_observed [simp]: "a \<le> at \<Longrightarrow> not_before a (observed k m at)"
  by (simp add: observed_def)

lemma record_since:
  assumes "milestones_since a d" and "not_before a (mu_mobileSetupAt m)" and "not_before a (mu_bridgeSetupAt m)"
    and "not_before a (mu_firstSessionAt m)"
  shows "milestones_since a (post_image m at d)"
  using assms unfolding post_image_stages
  by (auto simp: milestones_since_def session_base_stage_def milestone_stage_def split: option.splits)

definition user_since :: "string option \<Rightarrow> millis \<Rightarrow> activation_state list \<Rightarrow> bool" where
  "user_since u a c \<longleftrightarrow> list_all (\<lambda>d. u = Some (as_userId d) \<longrightarrow> milestones_since a d) c"

lemma createIfAbsent_since:
  assumes "user_since (oid userId) a c"
  shows "user_since (oid userId) a (snd (createIfAbsent oid None userId at c))"
  using assms
  by (auto simp: createIfAbsent_def insertOne_def Let_def user_since_def new_activation_state_def milestones_since_def
      split: option.split)

lemma recordMilestones_since:
  assumes "user_since (oid userId) a c" and "user_since (oid userId) a (env (snd (createIfAbsent oid None userId at c)))"
    and "not_before a (mu_mobileSetupAt m)" and "not_before a (mu_bridgeSetupAt m)"
    and "not_before a (mu_firstSessionAt m)" and "recordMilestones oid None env userId m at c = (Inr d, c')"
  shows "milestones_since a d"
proof -
  let ?p = "\<lambda>d. oid userId = Some (as_userId d)" and ?f = "session_base_stage \<circ> milestone_stage m at"
  define b where "b = snd (createIfAbsent oid None userId at c)"
  from assms(6) obtain p q c'' where f: "findOneAndUpdate ?p ?f (env b) = (Some (p, q), c'')"
    and d: "d = post_image m at p"
    by (auto simp: recordMilestones_def recordMilestonesWithResult_def b_def split: prod.splits sum.splits option.splits)
  then have "findOne ?p (env b) = Some p" by (auto simp: findOneAndUpdate_def split: option.splits)
  then have "milestones_since a p" using findOne_Some assms(2) unfolding user_since_def list_all_iff b_def by fastforce
  then show ?thesis unfolding d using assms(3-5) by (rule record_since)
qed

text \<open>The activation service never credits an account with a milestone from before it existed:
  device tokens, bridges and usage rows carried over from an earlier registration are ignored,
  whatever the other requests do, provided they keep to the same rule.\<close>
lemma milestones_never_predate_account:
  assumes "findById oid userId users = Some u" and "u_createdAt u \<le> observedAt"
    and "user_since (oid userId) (u_createdAt u) c"
    and "\<And>c. user_since (oid userId) (u_createdAt u) c \<Longrightarrow> user_since (oid userId) (u_createdAt u) (env c)"
    and "\<And>c. user_since (oid userId) (u_createdAt u) c \<Longrightarrow> user_since (oid userId) (u_createdAt u) (env' c)"
    and "recordReconciledMilestones oid users tokens bridges usage env None env' userId k observedAt c = (Inr d, c')"
  shows "milestones_since (u_createdAt u) d"
proof -
  let ?a = "u_createdAt u"
  have rec: "milestones_since ?a d"
    if "recordMilestones oid None env' userId m observedAt (env c) = (Inr d, c')" "not_before ?a (mu_mobileSetupAt m)"
      "not_before ?a (mu_bridgeSetupAt m)" "not_before ?a (mu_firstSessionAt m)" for m
    using assms(3-5) createIfAbsent_since that by (blast intro: recordMilestones_since)
  have known: "milestones_since ?a x" if "findStateByUserId oid userId c = Some x" for x
  proof -
    from that obtain i where "oid userId = Some i" "findOne (\<lambda>d. as_userId d = i) c = Some x"
      by (auto simp: findStateByUserId_def state_of_def split: option.splits)
    then show ?thesis using findOne_Some assms(3) unfolding user_since_def list_all_iff by fastforce
  qed
  define m where "m = reconciled_update oid users tokens bridges usage userId k observedAt (findStateByUserId oid userId c)"
  have m: "not_before ?a (mu_mobileSetupAt m)" "not_before ?a (mu_bridgeSetupAt m)" "not_before ?a (mu_firstSessionAt m)"
    using assms(1,2) by (simp_all add: m_def reconciled_update_def Let_def split: option.split)
  from assms(6) consider "findStateByUserId oid userId c = Some d"
    | "recordMilestones oid None env' userId m observedAt (env c) = (Inr d, c')"
    by (auto simp: recordReconciledMilestones_def Let_def m_def split: option.splits if_splits)
  then show ?thesis
  proof cases
    case 1
    then show ?thesis by (rule known)
  next
    case 2
    then show ?thesis using m by (rule rec)
  qed
qed

lemma milestones_never_predate_account_witness:
  "milestones_since 5 (post_image \<lparr>mu_mobileSetupAt = None, mu_bridgeSetupAt = None, mu_firstSessionAt = Some 7\<rparr> 7
     (new_activation_state 7 ''a1''))"
  using milestones_never_predate_account [where oid = Some and userId = "''a1''" and users = "bw_users demo_world"
      and u = "hd (bw_users demo_world)" and observedAt = 7 and c = "[]" and env = "\<lambda>c. c" and env' = "\<lambda>c. c"
      and tokens = "[\<lparr>dt_userId = ''a1'', dt_token = ''t'', dt_platform = IosPlatform, dt_deviceId = Null,
         dt_createdAt = Val 3, dt_updatedAt = 3\<rparr>]" and bridges = "[]" and usage = "[]" and k = FirstSession
      and d = "post_image \<lparr>mu_mobileSetupAt = None, mu_bridgeSetupAt = None, mu_firstSessionAt = Some 7\<rparr> 7 (new_activation_state 7 ''a1'')"
      and c' = "[post_image \<lparr>mu_mobileSetupAt = None, mu_bridgeSetupAt = None, mu_firstSessionAt = Some 7\<rparr> 7 (new_activation_state 7 ''a1'')]"]
  by (simp add: demo_world_def findById_def user_since_def recordReconciledMilestones_def findStateByUserId_def
      state_of_def reconciled_update_def milestone_guard_def observed_def findEarliestCreatedAt_def findTokensByUserId_def
      findEarliestAddedAt_def findEarliestMetadataRequestAt_def recordMilestones_def recordMilestonesWithResult_def
      createIfAbsent_def insertOne_def findOneAndUpdate_def new_activation_state_def post_image_def
      session_base_stage_def milestone_stage_def or_else_def Let_def owned_live_def)

end
