(* ===== verification/VoiceEvents.thy ===== *)
theory VoiceEvents
  imports Prelude
begin

text \<open>
  The public events of the realtime voice protocol and their bounds:
  \<open>src/types/transcription.ts\<close>, the event half of \<open>src/models/voice.ts\<close>,
  \<open>src/services/realtime-transcription-events.ts\<close> and
  \<open>realtime-transcription-errors.ts\<close>.  A string is its list of code points; a
  surrogate that stands alone is a code point of its own, as \<open>Array.from\<close> yields
  it.  The serialized size of an event is computed, not the bytes.
\<close>

section \<open>Codes\<close>

datatype finished_reason = Finished | SessionLimit | QuotaLimit

fun reason_name :: "finished_reason \<Rightarrow> string" where
  "reason_name Finished = ''finished''"
| "reason_name SessionLimit = ''session_limit''"
| "reason_name QuotaLimit = ''quota_limit''"

datatype protocol_error =
  StartTimeout | InvalidMessage | UnsupportedProtocol | InvalidAudio | ProviderRejected | AudioTimeout
| ProviderTimeout | InternalError | ProviderCapacity | QuotaExhausted | ProviderUnavailable | SlowClient
| ServiceRestarting

fun code_name :: "protocol_error \<Rightarrow> string" where
  "code_name StartTimeout = ''start_timeout''"
| "code_name InvalidMessage = ''invalid_message''"
| "code_name UnsupportedProtocol = ''unsupported_protocol''"
| "code_name InvalidAudio = ''invalid_audio''"
| "code_name ProviderRejected = ''provider_rejected''"
| "code_name AudioTimeout = ''audio_timeout''"
| "code_name ProviderTimeout = ''provider_timeout''"
| "code_name InternalError = ''internal_error''"
| "code_name ProviderCapacity = ''provider_capacity''"
| "code_name QuotaExhausted = ''quota_exhausted''"
| "code_name ProviderUnavailable = ''provider_unavailable''"
| "code_name SlowClient = ''slow_client''"
| "code_name ServiceRestarting = ''service_restarting''"

definition retryable :: "protocol_error \<Rightarrow> bool" where
  "retryable c \<longleftrightarrow> c \<notin> {InvalidMessage, UnsupportedProtocol, QuotaExhausted, InvalidAudio, ProviderRejected}"

datatype provider_failure = Capacity | Unavailable | Timeout | Configuration | MalformedOutput | Cancelled | Internal

fun toProviderErrorCode :: "provider_failure option \<Rightarrow> protocol_error" where
  \<comment> \<open>\<open>None\<close> is an error that is not a provider failure\<close>
  "toProviderErrorCode None = ProviderUnavailable"
| "toProviderErrorCode (Some Capacity) = ProviderCapacity"
| "toProviderErrorCode (Some Timeout) = ProviderTimeout"
| "toProviderErrorCode (Some Configuration) = ProviderRejected"
| "toProviderErrorCode (Some MalformedOutput) = InternalError"
| "toProviderErrorCode (Some Internal) = InternalError"
| "toProviderErrorCode (Some Cancelled) = ServiceRestarting"
| "toProviderErrorCode (Some Unavailable) = ProviderUnavailable"

section \<open>Serialized sizes\<close>

definition escaped_cost :: "nat \<Rightarrow> nat" where
  \<comment> \<open>the UTF-8 bytes \<open>JSON.stringify\<close> spends on one code point: two for a short escape, six
     for a control character or a lone surrogate\<close>
  "escaped_cost c =
     (if c = 34 \<or> c = 92 \<or> c = 8 \<or> c = 9 \<or> c = 10 \<or> c = 12 \<or> c = 13 then 2
      else if c < 32 then 6
      else if c < 128 then 1
      else if c < 2048 then 2
      else if 55296 \<le> c \<and> c \<le> 57343 then 6
      else if c < 65536 then 3 else 4)"

definition escapedByteLength :: "utext \<Rightarrow> nat" where
  "escapedByteLength s = sum_list (map escaped_cost s)"

fun digits :: "nat \<Rightarrow> nat" where
  "digits n = (if n < 10 then 1 else 1 + digits (n div 10))"

declare digits.simps [simp del]

datatype public_event =
  Ready int int
| Transcript utext utext
| Complete finished_reason int
| ErrorEvent protocol_error bool

definition int_length :: "int \<Rightarrow> nat" where
  "int_length i = (if i < 0 then 1 else 0) + digits (nat \<bar>i\<bar>)"

definition object_length :: "(string \<times> nat) list \<Rightarrow> nat" where
  \<comment> \<open>braces, commas, and for each member the quoted key, the colon and the value\<close>
  "object_length ms = 2 + (length ms - 1) + sum_list (map (\<lambda>(k, n). length k + 3 + n) ms)"

fun event_bytes :: "public_event \<Rightarrow> nat" where
  \<comment> \<open>\<open>Buffer.byteLength(JSON.stringify(event), "utf8")\<close>\<close>
  "event_bytes (Ready maxSession remaining) =
     object_length [(''type'', 7), (''protocolVersion'', 1), (''maxSessionSeconds'', int_length maxSession),
       (''dailySecondsRemaining'', int_length remaining)]"
| "event_bytes (Transcript confirmed provisional) =
     object_length [(''type'', 12), (''confirmedDelta'', 2 + escapedByteLength confirmed),
       (''provisional'', 2 + escapedByteLength provisional)]"
| "event_bytes (Complete reason remaining) =
     object_length [(''type'', 10), (''reason'', 2 + length (reason_name reason)),
       (''dailySecondsRemaining'', int_length remaining)]"
| "event_bytes (ErrorEvent code r) =
     object_length [(''type'', 7), (''code'', 2 + length (code_name code)), (''retryable'', if r then 4 else 5)]"

definition MAX_REALTIME_EVENT_BYTES :: nat where
  "MAX_REALTIME_EVENT_BYTES = 65536"

definition MAX_REALTIME_TRANSCRIPT_CHARACTERS :: nat where
  "MAX_REALTIME_TRANSCRIPT_CHARACTERS = 32768"

fun event_schema :: "public_event \<Rightarrow> bool" where
  \<comment> \<open>the numbers are the integers the session keeps, so the schemas' integer checks hold\<close>
  "event_schema (Ready maxSession remaining) = (1 \<le> maxSession \<and> maxSession \<le> 900 \<and> 0 \<le> remaining)"
| "event_schema (Transcript confirmed provisional) =
     (utf16_length confirmed \<le> MAX_REALTIME_TRANSCRIPT_CHARACTERS \<and>
      utf16_length provisional \<le> MAX_REALTIME_TRANSCRIPT_CHARACTERS \<and>
      (0 < utf16_length confirmed \<or> 0 < utf16_length provisional))"
| "event_schema (Complete reason remaining) = (0 \<le> remaining)"
| "event_schema (ErrorEvent code r) = (r = retryable code)"

definition isPublicEventValid :: "public_event \<Rightarrow> bool" where
  "isPublicEventValid e \<longleftrightarrow> event_bytes e \<le> MAX_REALTIME_EVENT_BYTES \<and> event_schema e"

section \<open>Bounding a transcript\<close>

fun take_units :: "nat \<Rightarrow> utext \<Rightarrow> utext" where
  \<comment> \<open>the code points that fit whole into that many UTF-16 units\<close>
  "take_units n [] = []"
| "take_units n (c # s) =
     (let u = (if 65536 \<le> c then 2 else 1) in if u \<le> n then c # take_units (n - u) s else [])"

definition high_surrogate :: "nat \<Rightarrow> bool" where
  "high_surrogate c \<longleftrightarrow> 55296 \<le> c \<and> c \<le> 56319"

definition sliceToCharacterCap :: "utext \<Rightarrow> nat \<Rightarrow> utext" where
  \<comment> \<open>a slice that cuts a pair ends in its high half and loses it; a slice that ends in a lone
     high surrogate loses that one too\<close>
  "sliceToCharacterCap s n =
     (if utf16_length s \<le> n then s
      else let p = take_units n s
           in if utf16_length p = n \<and> p \<noteq> [] \<and> high_surrogate (last p) then butlast p else p)"

function longest_fitting :: "utext \<Rightarrow> nat \<Rightarrow> nat \<Rightarrow> nat \<Rightarrow> nat" where
  \<comment> \<open>the binary search, with \<open>fitting\<close> and \<open>beyond\<close>\<close>
  "longest_fitting s maxBytes fitting beyond =
     (if fitting < beyond
      then let candidate = (fitting + beyond + 1) div 2
           in if escapedByteLength (take candidate s) \<le> maxBytes
              then longest_fitting s maxBytes candidate beyond
              else longest_fitting s maxBytes fitting (candidate - 1)
      else fitting)"
  by pat_completeness auto
termination by (relation "measure (\<lambda>(s, m, fitting, beyond). beyond - fitting)") auto

declare longest_fitting.simps [simp del]

definition boundToEscapedBytes :: "utext \<Rightarrow> int \<Rightarrow> utext \<times> nat" where
  "boundToEscapedBytes s maxBytes =
     (let capped = sliceToCharacterCap s MAX_REALTIME_TRANSCRIPT_CHARACTERS in
      if maxBytes \<le> 0 then ([], 0)
      else if int (escapedByteLength capped) \<le> maxBytes then (capped, escapedByteLength capped)
      else let bounded = take (longest_fitting capped (nat maxBytes) 0 (length capped)) capped
           in (bounded, escapedByteLength bounded))"

definition TRANSCRIPT_EVENT_SCAFFOLDING_BYTES :: nat where
  "TRANSCRIPT_EVENT_SCAFFOLDING_BYTES = event_bytes (Transcript [] [])"

definition boundRealtimeTranscript :: "utext \<Rightarrow> utext \<Rightarrow> utext \<times> utext" where
  "boundRealtimeTranscript confirmedDelta provisional =
     (let budget = int MAX_REALTIME_EVENT_BYTES - int TRANSCRIPT_EVENT_SCAFFOLDING_BYTES;
          confirmed = boundToEscapedBytes confirmedDelta budget;
          rest = boundToEscapedBytes provisional (budget - int (snd confirmed))
      in (fst confirmed, fst rest))"

section \<open>The bounds hold\<close>

lemma escaped_append: "escapedByteLength (s @ t) = escapedByteLength s + escapedByteLength t"
  by (simp add: escapedByteLength_def)

lemma escaped_take_mono: "m \<le> n \<Longrightarrow> escapedByteLength (take m s) \<le> escapedByteLength (take n s)"
  by (metis escaped_append le_add1 le_add_diff_inverse take_add)

lemma utf16_take_units: "utf16_length (take_units n s) \<le> n"
  by (induction n s rule: take_units.induct) (auto simp: utf16_length_def Let_def)

lemma prefix_take_units: "prefix (take_units n s) s"
  by (induction n s rule: take_units.induct) (auto simp: Let_def)

lemma utf16_prefix: "prefix t s \<Longrightarrow> utf16_length t \<le> utf16_length s"
  by (auto simp: prefix_def utf16_length_append)

lemma utf16_zero: "utf16_length s = 0 \<longleftrightarrow> s = []"
  by (cases s) (simp_all add: utf16_length_def)

lemma slice_bound: "utf16_length (sliceToCharacterCap s n) \<le> n"
proof -
  have "utf16_length (butlast (take_units n s)) \<le> utf16_length (take_units n s)"
    by (rule utf16_prefix) (rule prefixeq_butlast)
  then show ?thesis using utf16_take_units [of n s] by (simp add: sliceToCharacterCap_def Let_def)
qed

lemma slice_prefix: "prefix (sliceToCharacterCap s n) s"
  using prefix_take_units [of n s] prefixeq_butlast [of "take_units n s"] prefix_order.order_trans
  by (auto simp: sliceToCharacterCap_def Let_def)

lemma longest_fitting_spec:
  assumes "escapedByteLength (take fitting s) \<le> m" and "fitting \<le> beyond"
    and "\<And>k. beyond < k \<Longrightarrow> k \<le> length s \<Longrightarrow> m < escapedByteLength (take k s)"
  shows "escapedByteLength (take (longest_fitting s m fitting beyond) s) \<le> m \<and>
    longest_fitting s m fitting beyond \<le> beyond \<and>
    (\<forall>k. longest_fitting s m fitting beyond < k \<and> k \<le> length s \<longrightarrow> m < escapedByteLength (take k s))"
  using assms
proof (induction s m fitting beyond rule: longest_fitting.induct)
  case (1 s m fitting beyond)
  show ?case
  proof (cases "fitting < beyond")
    case False
    then have "longest_fitting s m fitting beyond = fitting" by (subst longest_fitting.simps) simp
    then show ?thesis using 1(3-5) False by auto
  next
    case True
    define c where "c = (fitting + beyond + 1) div 2"
    show ?thesis
    proof (cases "escapedByteLength (take c s) \<le> m")
      case fits: True
      have "c \<le> beyond" using True by (simp add: c_def)
      moreover have "longest_fitting s m fitting beyond = longest_fitting s m c beyond"
        using True fits unfolding c_def by (subst longest_fitting.simps) (simp add: Let_def)
      ultimately show ?thesis using 1(1) [OF True c_def fits fits] 1(5) by simp
    next
      case exceeds: False
      have le: "fitting \<le> c - 1" using True by (auto simp: c_def)
      have big: "m < escapedByteLength (take k s)" if "c - 1 < k" for k
        using that exceeds escaped_take_mono [of c k s] by linarith
      with 1(2) [OF True c_def exceeds 1(3) le] have
        "escapedByteLength (take (longest_fitting s m fitting (c - 1)) s) \<le> m \<and>
         longest_fitting s m fitting (c - 1) \<le> c - 1 \<and>
         (\<forall>k. longest_fitting s m fitting (c - 1) < k \<and> k \<le> length s \<longrightarrow> m < escapedByteLength (take k s))" by blast
      moreover have "longest_fitting s m fitting beyond = longest_fitting s m fitting (c - 1)"
        using True exceeds unfolding c_def by (subst longest_fitting.simps) (simp add: Let_def)
      moreover have "c - 1 \<le> beyond" using True by (simp add: c_def)
      ultimately show ?thesis by auto
    qed
  qed
qed

lemma boundToEscapedBytes_spec:
  assumes "boundToEscapedBytes s m = (t, n)"
  shows "prefix t s \<and> n = escapedByteLength t \<and> int n \<le> max 0 m \<and> utf16_length t \<le> MAX_REALTIME_TRANSCRIPT_CHARACTERS"
proof -
  define capped where "capped = sliceToCharacterCap s MAX_REALTIME_TRANSCRIPT_CHARACTERS"
  have c: "prefix capped s" "utf16_length capped \<le> MAX_REALTIME_TRANSCRIPT_CHARACTERS"
    unfolding capped_def by (rule slice_prefix, rule slice_bound)
  define k where "k = longest_fitting capped (nat m) 0 (length capped)"
  have k: "escapedByteLength (take k capped) \<le> nat m"
    unfolding k_def using longest_fitting_spec [of 0 capped "nat m" "length capped"]
    by (simp add: escapedByteLength_def)
  have "prefix (take k capped) capped" by (rule take_is_prefix)
  then have p: "prefix (take k capped) s" "utf16_length (take k capped) \<le> MAX_REALTIME_TRANSCRIPT_CHARACTERS"
    using c prefix_order.order_trans utf16_prefix le_trans by blast+
  show ?thesis
    using assms c k p
    by (auto simp: boundToEscapedBytes_def capped_def [symmetric] k_def [symmetric] Let_def
        escapedByteLength_def utf16_length_def split: if_splits)
qed

text \<open>A transcript bounded at the provider boundary can always be emitted: whatever text the
  provider sends, the bounded fields are prefixes of it, and unless both are empty their event
  passes the protocol's schema and byte budget, so it never ends the session.\<close>
lemma bounded_transcript_is_emittable:
  "prefix (fst (boundRealtimeTranscript confirmed provisional)) confirmed \<and>
   prefix (snd (boundRealtimeTranscript confirmed provisional)) provisional \<and>
   (boundRealtimeTranscript confirmed provisional = ([], []) \<or>
    isPublicEventValid (Transcript (fst (boundRealtimeTranscript confirmed provisional))
                                   (snd (boundRealtimeTranscript confirmed provisional))))"
proof -
  define budget where "budget = int MAX_REALTIME_EVENT_BYTES - int TRANSCRIPT_EVENT_SCAFFOLDING_BYTES"
  obtain c n where c: "boundToEscapedBytes confirmed budget = (c, n)" by fastforce
  obtain p k where p: "boundToEscapedBytes provisional (budget - int n) = (p, k)" by fastforce
  have r: "boundRealtimeTranscript confirmed provisional = (c, p)"
    using c p by (simp add: boundRealtimeTranscript_def budget_def [symmetric] Let_def)
  have bpos: "0 \<le> budget"
    by (simp add: budget_def MAX_REALTIME_EVENT_BYTES_def TRANSCRIPT_EVENT_SCAFFOLDING_BYTES_def object_length_def
        escapedByteLength_def)
  note cs = boundToEscapedBytes_spec [OF c] and ps = boundToEscapedBytes_spec [OF p]
  then have "int (escapedByteLength c + escapedByteLength p) \<le> budget" using bpos by auto
  then have "event_bytes (Transcript c p) \<le> MAX_REALTIME_EVENT_BYTES"
    by (simp add: budget_def TRANSCRIPT_EVENT_SCAFFOLDING_BYTES_def object_length_def escapedByteLength_def)
  moreover have "utf16_length c = 0 \<longleftrightarrow> c = []" "utf16_length p = 0 \<longleftrightarrow> p = []"
    by (simp_all only: utf16_zero)
  ultimately show ?thesis unfolding r using cs ps by (auto simp: isPublicEventValid_def)
qed

end
