(* ===== verification/RealtimeSession.thy ===== *)
theory RealtimeSession
  imports VoiceEvents DailyUsage Complex_Main
begin

text \<open>
  Realtime transcription: \<open>src/services/realtime-transcription-service.ts\<close> with its
  sessions, \<open>realtime-session-controller.ts\<close>, \<open>realtime-session-terminal.ts\<close>,
  \<open>realtime-session-utils.ts\<close>, \<open>realtime-audio-accounting.ts\<close> and
  \<open>realtime-public-event-emitter.ts\<close>.  A controller is known by a number; what it
  hands to its callbacks is its output.  The asynchronous \<open>start\<close> is cut at its
  awaits, \<open>runTerminal\<close> at the usage write; a step takes what the awaited call
  returned.  The daily limit is the integer part of the configured one, which is
  all the code's \<open>Math.floor\<close> leaves of it; the provider's progress is a rational
  number of milliseconds.
\<close>

section \<open>Audio accounting\<close>

datatype sample_rate = Rate16000 | Rate24000 | Rate44100 | Rate48000

fun hertz :: "sample_rate \<Rightarrow> nat" where
  "hertz Rate16000 = 16000"
| "hertz Rate24000 = 24000"
| "hertz Rate44100 = 44100"
| "hertz Rate48000 = 48000"

record audio_format =
  af_sampleRate :: sample_rate
  af_channels :: nat

definition BYTES_PER_SAMPLE :: nat where
  "BYTES_PER_SAMPLE = 2"

definition bytesPerSecond :: "audio_format \<Rightarrow> nat" where
  "bytesPerSecond a = hertz (af_sampleRate a) * af_channels a * BYTES_PER_SAMPLE"

definition isAlignedPcm :: "nat \<Rightarrow> audio_format \<Rightarrow> bool" where
  "isAlignedPcm byteLength a \<longleftrightarrow> 0 < byteLength \<and> byteLength mod BYTES_PER_SAMPLE = 0 \<and>
     byteLength mod (af_channels a * BYTES_PER_SAMPLE) = 0"

definition acceptedFrameBytes :: "nat \<Rightarrow> audio_format \<Rightarrow> nat \<Rightarrow> nat \<Rightarrow> nat" where
  \<comment> \<open>the subtraction of naturals is \<open>Math.max(0, cap - attempted)\<close>\<close>
  "acceptedFrameBytes byteLength a attemptedBytes limitSeconds =
     (let acceptedBytes = min byteLength (limitSeconds * bytesPerSecond a - attemptedBytes)
      in acceptedBytes - acceptedBytes mod (af_channels a * BYTES_PER_SAMPLE))"

definition reachedAudioLimit :: "audio_format \<Rightarrow> nat \<Rightarrow> nat \<Rightarrow> bool" where
  "reachedAudioLimit a attemptedBytes limitSeconds \<longleftrightarrow> limitSeconds * bytesPerSecond a \<le> attemptedBytes"

definition exceedsRealtimePace :: "nat \<Rightarrow> audio_format \<Rightarrow> nat \<Rightarrow> millis \<Rightarrow> nat \<Rightarrow> bool" where
  "exceedsRealtimePace byteLength a attemptedBytes elapsedMs burstSeconds \<longleftrightarrow>
     nat (max 0 elapsedMs) * bytesPerSecond a div 1000 + burstSeconds * bytesPerSecond a
       < attemptedBytes + byteLength"

definition billableSeconds :: "nat \<Rightarrow> audio_format \<Rightarrow> rat \<Rightarrow> nat" where
  \<comment> \<open>\<open>Math.ceil\<close> of a maximum is the maximum of the two roundings; the source's floating-point
     quotients are exact at whole seconds and far from them elsewhere\<close>
  "billableSeconds attemptedBytes a providerProgressMs =
     max ((attemptedBytes + bytesPerSecond a - 1) div bytesPerSecond a) (nat \<lceil>providerProgressMs / 1000\<rceil>)"

section \<open>Policy and state\<close>

record realtime_policy =
  po_dailyLimitSeconds :: int
  po_maxSessionSeconds :: nat
  po_maxPerUser :: nat
  po_maxSessions :: nat
  po_paceBurstSeconds :: nat

datatype session_state = Streaming | Finishing | Closed

datatype start_phase = AwaitingUsage | AwaitingTerms | Connecting | Started

datatype decision = CompleteWith finished_reason | Silent | Fail protocol_error bool

record controller =
  rc_user :: string
  rc_audio :: audio_format
  rc_phase :: start_phase
  rc_limitSeconds :: nat
  rc_limitReason :: finished_reason
  rc_remaining :: int
  rc_state :: session_state
  rc_aborted :: bool
  rc_attempted :: nat
  rc_progressMs :: rat
  rc_startedAt :: millis
  rc_finishing :: bool
  rc_finishReason :: finished_reason
  rc_terminal :: "decision option"
  rc_settled :: bool
  rc_audioTimer :: bool
  rc_wallTimer :: bool
  rc_closed :: bool
  rc_out :: "public_event list"

record realtime =
  rt_sessions :: "nat \<Rightarrow> controller option"
  rt_next :: nat
  rt_active :: "nat set"
  rt_starting :: "nat set"
  rt_sessionUser :: "nat \<Rightarrow> string option"
  rt_perUser :: "string \<Rightarrow> nat option"
  rt_disposed :: bool
  rt_usage :: "daily_usage list"
  rt_bookings :: "(nat \<times> nat) list"

definition new_controller :: "string \<Rightarrow> audio_format \<Rightarrow> controller" where
  "new_controller user audio =
     \<lparr>rc_user = user, rc_audio = audio, rc_phase = AwaitingUsage, rc_limitSeconds = 1, rc_limitReason = SessionLimit,
      rc_remaining = 0, rc_state = Streaming, rc_aborted = False, rc_attempted = 0, rc_progressMs = 0,
      rc_startedAt = 0, rc_finishing = False, rc_finishReason = Finished, rc_terminal = None, rc_settled = False,
      rc_audioTimer = False, rc_wallTimer = False, rc_closed = False, rc_out = []\<rparr>"

definition empty_realtime :: "daily_usage list \<Rightarrow> realtime" where
  "empty_realtime usage = \<lparr>rt_sessions = Map.empty, rt_next = 0, rt_active = {}, rt_starting = {},
     rt_sessionUser = Map.empty, rt_perUser = Map.empty, rt_disposed = False, rt_usage = usage, rt_bookings = []\<rparr>"

definition change :: "nat \<Rightarrow> (controller \<Rightarrow> controller) \<Rightarrow> realtime \<Rightarrow> realtime" where
  "change i f s = s\<lparr>rt_sessions := (rt_sessions s)(i := map_option f (rt_sessions s i))\<rparr>"

section \<open>Slots\<close>

definition userTally :: "string \<Rightarrow> realtime \<Rightarrow> nat" where
  "userTally user s = (case rt_perUser s user of None \<Rightarrow> 0 | Some n \<Rightarrow> n)"

definition atCapacity :: "realtime_policy \<Rightarrow> string \<Rightarrow> realtime \<Rightarrow> bool" where
  "atCapacity p user s \<longleftrightarrow> po_maxSessions p \<le> card (rt_active s) \<or> po_maxPerUser p \<le> userTally user s"

definition acquireSlot :: "nat \<Rightarrow> string \<Rightarrow> realtime \<Rightarrow> realtime" where
  "acquireSlot i user s =
     s\<lparr>rt_active := insert i (rt_active s), rt_sessionUser := (rt_sessionUser s)(i \<mapsto> user),
       rt_perUser := (rt_perUser s)(user \<mapsto> userTally user s + 1)\<rparr>"

definition release :: "nat \<Rightarrow> realtime \<Rightarrow> realtime" where
  "release i s =
     (let s1 = s\<lparr>rt_active := rt_active s - {i}\<rparr> in
      case rt_sessionUser s i of
        None \<Rightarrow> s1
      | Some user \<Rightarrow>
          (let s2 = s1\<lparr>rt_sessionUser := (rt_sessionUser s)(i := None)\<rparr>;
               remaining = int (case rt_perUser s user of None \<Rightarrow> 1 | Some n \<Rightarrow> n) - 1
           in if remaining \<le> 0 then s2\<lparr>rt_perUser := (rt_perUser s)(user := None)\<rparr>
              else s2\<lparr>rt_perUser := (rt_perUser s)(user \<mapsto> nat remaining)\<rparr>))"

section \<open>The terminal\<close>

definition billable :: "controller \<Rightarrow> nat" where
  "billable c = billableSeconds (rc_attempted c) (rc_audio c) (rc_progressMs c)"

definition complete_or_internal :: "public_event \<Rightarrow> public_event" where
  \<comment> \<open>an event that is not valid is replaced by an internal error\<close>
  "complete_or_internal e = (if isPublicEventValid e then e else ErrorEvent InternalError (retryable InternalError))"

fun terminal_events :: "decision \<Rightarrow> int \<Rightarrow> public_event list" where
  "terminal_events (CompleteWith reason) remaining = [complete_or_internal (Complete reason remaining)]"
| "terminal_events (Fail code usage) remaining = [complete_or_internal (ErrorEvent code (retryable code))]"
| "terminal_events Silent remaining = []"

definition closeDown :: "decision \<Rightarrow> controller \<Rightarrow> controller" where
  \<comment> \<open>\<open>runTerminal\<close> up to the usage write\<close>
  "closeDown d c = c\<lparr>rc_audioTimer := False, rc_wallTimer := False, rc_aborted := True, rc_state := Closed,
     rc_terminal := Some d\<rparr>"

definition emitAndRelease :: "nat \<Rightarrow> int \<Rightarrow> realtime \<Rightarrow> realtime" where
  \<comment> \<open>the rest of it; a callback that throws has received its event, and \<open>finally\<close> releases all the same\<close>
  "emitAndRelease i remaining s =
     (case rt_sessions s i of
        Some c \<Rightarrow>
          (case rc_terminal c of
             Some d \<Rightarrow> change i (\<lambda>c. c\<lparr>rc_closed := True\<rparr>)
               (release i (change i (\<lambda>c. c\<lparr>rc_out := rc_out c @ terminal_events d remaining, rc_settled := True\<rparr>) s))
           | None \<Rightarrow> s)
      | None \<Rightarrow> s)"

definition beginTerminal :: "decision \<Rightarrow> nat \<Rightarrow> realtime \<Rightarrow> realtime" where
  "beginTerminal d i s =
     (case rt_sessions s i of
        Some c \<Rightarrow>
          if rc_terminal c \<noteq> None then s
          else (case d of
                  Fail code False \<Rightarrow> emitAndRelease i (rc_remaining c) (change i (closeDown d) s)
                | _ \<Rightarrow> change i (closeDown d) s)
      | None \<Rightarrow> s)"

definition recordUsage ::
  "realtime_policy \<Rightarrow> bool \<Rightarrow> millis \<Rightarrow> string \<Rightarrow> nat \<Rightarrow> controller \<Rightarrow> realtime \<Rightarrow> int \<times> realtime" where
  \<comment> \<open>what remains of the day, and the booking; \<open>fails\<close> when the write throws\<close>
  "recordUsage p fails now today i c s =
     (let seconds = billable c in
      if seconds = 0 then (rc_remaining c, s)
      else let s' = s\<lparr>rt_bookings := rt_bookings s @ [(i, seconds)]\<rparr> in
        if fails then (max 0 (rc_remaining c - int seconds), s')
        else (case incrementTranscriptionSeconds now (rc_user c) today (int seconds) (rt_usage s) of
                (b, usage) \<Rightarrow> (max 0 (po_dailyLimitSeconds p - newTotal b), s'\<lparr>rt_usage := usage\<rparr>)))"

definition settleTerminal :: "realtime_policy \<Rightarrow> bool \<Rightarrow> millis \<Rightarrow> string \<Rightarrow> nat \<Rightarrow> realtime \<Rightarrow> realtime" where
  \<comment> \<open>a terminal that is under way writes its usage and finishes\<close>
  "settleTerminal p fails now today i s =
     (case rt_sessions s i of
        Some c \<Rightarrow>
          if rc_terminal c = None \<or> rc_settled c then s
          else (case recordUsage p fails now today i c s of (remaining, s') \<Rightarrow> emitAndRelease i remaining s')
      | None \<Rightarrow> s)"

section \<open>Admission\<close>

definition startSession ::
  "realtime_policy \<Rightarrow> bool \<Rightarrow> string \<Rightarrow> audio_format \<Rightarrow> realtime \<Rightarrow> (protocol_error + nat) \<times> realtime" where
  \<comment> \<open>\<open>start\<close> up to its first await: decided and counted in one block\<close>
  "startSession p aborted user audio s =
     (if rt_disposed s \<or> aborted then (Inl ServiceRestarting, s)
      else if atCapacity p user s then (Inl ProviderCapacity, s)
      else let i = rt_next s;
               s' = s\<lparr>rt_sessions := (rt_sessions s)(i \<mapsto> new_controller user audio), rt_next := i + 1,
                      rt_starting := insert i (rt_starting s)\<rparr>
           in (Inr i, acquireSlot i user s'))"

definition forceClose :: "controller \<Rightarrow> controller" where
  "forceClose c = c\<lparr>rc_audioTimer := False, rc_wallTimer := False, rc_state := Closed, rc_aborted := True,
     rc_closed := True\<rparr>"

definition failStart :: "nat \<Rightarrow> realtime \<Rightarrow> realtime" where
  \<comment> \<open>the \<open>catch\<close> of \<open>start\<close>\<close>
  "failStart i s =
     change i (\<lambda>c. forceClose (c\<lparr>rc_phase := Started\<rparr>)) (release i (s\<lparr>rt_starting := rt_starting s - {i}\<rparr>))"

definition at_phase :: "start_phase \<Rightarrow> nat \<Rightarrow> realtime \<Rightarrow> controller option" where
  "at_phase ph i s =
     (case rt_sessions s i of Some c \<Rightarrow> if i \<in> rt_starting s \<and> rc_phase c = ph then Some c else None | None \<Rightarrow> None)"

definition setAdmission :: "realtime_policy \<Rightarrow> int \<Rightarrow> controller \<Rightarrow> controller" where
  "setAdmission p remainingBudget c =
     c\<lparr>rc_phase := AwaitingTerms,
       rc_limitSeconds := nat (min (int (po_maxSessionSeconds p)) remainingBudget),
       rc_limitReason := (if remainingBudget \<le> int (po_maxSessionSeconds p) then QuotaLimit else SessionLimit),
       rc_remaining := remainingBudget\<rparr>"

definition resumeUsage ::
  "realtime_policy \<Rightarrow> int option \<Rightarrow> bool \<Rightarrow> nat \<Rightarrow> realtime \<Rightarrow> protocol_error option \<times> realtime" where
  \<comment> \<open>\<open>used\<close> is the usage read, \<open>None\<close> when it threw; the answer is the rejection, if any\<close>
  "resumeUsage p used aborted i s =
     (case (at_phase AwaitingUsage i s, used) of
        (None, _) \<Rightarrow> (None, s)
      | (_, None) \<Rightarrow> (Some (toProviderErrorCode None), failStart i s)
      | (Some c, Some usedSeconds) \<Rightarrow>
          if rt_disposed s \<or> aborted then (Some ServiceRestarting, failStart i s)
          else let remainingBudget = max 0 (po_dailyLimitSeconds p - usedSeconds) in
            if remainingBudget = 0 then (Some QuotaExhausted, failStart i s)
            else (None, change i (setAdmission p remainingBudget) s))"

definition resumeTerms :: "bool \<Rightarrow> bool \<Rightarrow> nat \<Rightarrow> realtime \<Rightarrow> protocol_error option \<times> realtime" where
  \<comment> \<open>the glossary was read, or threw; then \<open>connect\<close> checks the session before it dials\<close>
  "resumeTerms ok aborted i s =
     (case at_phase AwaitingTerms i s of
        None \<Rightarrow> (None, s)
      | Some c \<Rightarrow>
          if \<not> ok then (Some (toProviderErrorCode None), failStart i s)
          else if rt_disposed s \<or> aborted then (Some ServiceRestarting, failStart i s)
          else if rc_state c = Closed \<or> rc_aborted c then (Some ServiceRestarting, failStart i s)
          else (None, change i (\<lambda>c. c\<lparr>rc_phase := Connecting\<rparr>) s))"

definition resumeConnect ::
  "provider_failure option + unit \<Rightarrow> bool \<Rightarrow> bool \<Rightarrow> bool \<Rightarrow> millis \<Rightarrow> nat \<Rightarrow> realtime \<Rightarrow> protocol_error option \<times> realtime" where
  \<comment> \<open>the provider's answer, the request's signal before and after the ready callback, whether that
     callback throws, and the clock\<close>
  "resumeConnect answer aborted readyThrows abortedAfter now i s =
     (case (at_phase Connecting i s, answer) of
        (None, _) \<Rightarrow> (None, s)
      | (_, Inl failure) \<Rightarrow> (Some (toProviderErrorCode failure), failStart i s)
      | (Some c, Inr _) \<Rightarrow>
          (let ready = Ready (int (rc_limitSeconds c)) (rc_remaining c) in
           if rc_state c = Closed \<or> rc_aborted c \<or> aborted then (Some ServiceRestarting, failStart i s)
           else if \<not> isPublicEventValid ready then (Some InternalError, failStart i s)
           else let s' = change i (\<lambda>c. c\<lparr>rc_out := rc_out c @ [ready]\<rparr>) s in
             if readyThrows then (Some (toProviderErrorCode None), failStart i s')
             else if rt_disposed s \<or> abortedAfter
             then (Some ServiceRestarting, failStart i s')
             else (None, change i (\<lambda>c. c\<lparr>rc_startedAt := now, rc_wallTimer := True, rc_audioTimer := True,
                            rc_phase := Started\<rparr>) (s'\<lparr>rt_starting := rt_starting s' - {i}\<rparr>))))"

section \<open>A running session\<close>

datatype frame_result =
  FrameSent nat bool
| FrameLimit
| FrameInvalid
| FramePace
| FrameError protocol_error

definition sendRealtimeAudioFrame ::
  "realtime_policy \<Rightarrow> provider_failure option option \<Rightarrow> millis \<Rightarrow> nat \<Rightarrow> controller \<Rightarrow> frame_result" where
  \<comment> \<open>\<open>throws\<close> is what the provider throws on the send, if it does\<close>
  "sendRealtimeAudioFrame p throws elapsedMs byteLength c =
     (let a = rc_audio c; aligned = acceptedFrameBytes byteLength a (rc_attempted c) (rc_limitSeconds c) in
      if \<not> isAlignedPcm byteLength a then FrameInvalid
      else if aligned = 0 then FrameLimit
      else if exceedsRealtimePace aligned a (rc_attempted c) elapsedMs (po_paceBurstSeconds p) then FramePace
      else (case throws of
              Some failure \<Rightarrow> FrameError (toProviderErrorCode failure)
            | None \<Rightarrow> FrameSent (rc_attempted c + aligned)
                        (reachedAudioLimit a (rc_attempted c + aligned) (rc_limitSeconds c))))"

definition beginFinish :: "finished_reason \<Rightarrow> nat \<Rightarrow> realtime \<Rightarrow> realtime" where
  "beginFinish reason i s =
     (case rt_sessions s i of
        Some c \<Rightarrow>
          if rc_state c = Closed \<or> rc_finishing c then s
          else let s' = change i (\<lambda>c. c\<lparr>rc_audioTimer := False, rc_state := Finishing, rc_finishReason := reason,
                          rc_wallTimer := False, rc_finishing := True\<rparr>) s
               in if billable c = 0 then beginTerminal (CompleteWith reason) i s' else s'
      | None \<Rightarrow> s)"

definition finishOutcome :: "provider_failure option + unit \<Rightarrow> bool \<Rightarrow> nat \<Rightarrow> realtime \<Rightarrow> realtime" where
  \<comment> \<open>the provider's \<open>finish\<close> settled, or its timeout was first\<close>
  "finishOutcome answer timedOut i s =
     (if timedOut then beginTerminal (Fail ProviderTimeout True) i s
      else case answer of
             Inl failure \<Rightarrow> beginTerminal (Fail (toProviderErrorCode failure) True) i s
           | Inr _ \<Rightarrow> s)"

definition sendAudio ::
  "realtime_policy \<Rightarrow> provider_failure option option \<Rightarrow> millis \<Rightarrow> nat \<Rightarrow> nat \<Rightarrow> realtime \<Rightarrow> realtime" where
  "sendAudio p throws now byteLength i s =
     (case rt_sessions s i of
        Some c \<Rightarrow>
          if rc_state c \<noteq> Streaming then s
          else (case sendRealtimeAudioFrame p throws (now - rc_startedAt c) byteLength c of
                  FrameSent attempted reached \<Rightarrow>
                    (let s' = change i (\<lambda>c. c\<lparr>rc_attempted := attempted, rc_audioTimer := True\<rparr>) s
                     in if reached then beginFinish (rc_limitReason c) i s' else s')
                | FrameLimit \<Rightarrow> beginFinish (rc_limitReason c) i s
                | FramePace \<Rightarrow> beginTerminal (Fail InvalidAudio True) i s
                | FrameInvalid \<Rightarrow> beginTerminal (Fail InvalidAudio True) i s
                | FrameError code \<Rightarrow> beginTerminal (Fail code True) i s)
      | None \<Rightarrow> s)"

datatype provider_event = ProviderTranscript utext utext rat rat | ProviderFinished

definition handleProviderEvent :: "provider_event \<Rightarrow> nat \<Rightarrow> realtime \<Rightarrow> realtime" where
  "handleProviderEvent e i s =
     (case rt_sessions s i of
        Some c \<Rightarrow>
          if rc_state c = Closed then s
          else (case e of
             ProviderTranscript confirmed provisional finalMs totalMs \<Rightarrow>
               if rat_of_nat (rc_limitSeconds c * 1000) < finalMs \<or> rat_of_nat (rc_limitSeconds c * 1000) < totalMs
               then beginTerminal (Fail InternalError False) i s
               else (let s' = change i (\<lambda>c. c\<lparr>rc_progressMs := max (rc_progressMs c) (max finalMs totalMs)\<rparr>) s in
                 if confirmed = [] \<and> provisional = [] then s'
                 else if isPublicEventValid (Transcript confirmed provisional)
                 then change i (\<lambda>c. c\<lparr>rc_out := rc_out c @ [Transcript confirmed provisional]\<rparr>) s'
                 else beginTerminal (Fail InternalError True) i s')
           | ProviderFinished \<Rightarrow>
               if rc_state c = Finishing then beginTerminal (CompleteWith (rc_finishReason c)) i s else s)
      | None \<Rightarrow> s)"

definition providerClosed :: "provider_failure option \<Rightarrow> nat \<Rightarrow> realtime \<Rightarrow> realtime" where
  \<comment> \<open>\<open>onProviderClosed\<close>: the provider's connection ended with an error\<close>
  "providerClosed failure i s =
     (case rt_sessions s i of
        Some c \<Rightarrow>
          if rc_state c = Closed then s
          else beginTerminal (if failure = Some MalformedOutput then Fail InternalError False
                              else Fail (toProviderErrorCode failure) True) i s
      | None \<Rightarrow> s)"

definition audioDeadline :: "nat \<Rightarrow> realtime \<Rightarrow> realtime" where
  "audioDeadline i s =
     (case rt_sessions s i of
        Some c \<Rightarrow> if rc_audioTimer c then beginTerminal (Fail AudioTimeout True) i s else s
      | None \<Rightarrow> s)"

definition wallClock :: "nat \<Rightarrow> realtime \<Rightarrow> realtime" where
  "wallClock i s =
     (case rt_sessions s i of
        Some c \<Rightarrow> if rc_wallTimer c then beginFinish (rc_limitReason c) i s else s
      | None \<Rightarrow> s)"

definition finishSession :: "nat \<Rightarrow> realtime \<Rightarrow> realtime" where
  "finishSession i s = beginFinish Finished i s"

definition cancelSession :: "nat \<Rightarrow> realtime \<Rightarrow> realtime" where
  \<comment> \<open>\<open>cancel\<close> and \<open>disconnect\<close>\<close>
  "cancelSession i s = beginTerminal Silent i s"

definition shutdownSession :: "nat \<Rightarrow> realtime \<Rightarrow> realtime" where
  "shutdownSession i s = beginTerminal (Fail ServiceRestarting True) i s"

section \<open>Shutdown\<close>

definition beginShutdown :: "realtime \<Rightarrow> realtime" where
  "beginShutdown s =
     (if rt_disposed s then s
      else s\<lparr>rt_disposed := True,
             rt_sessions := (\<lambda>i. map_option (\<lambda>c. if i \<in> rt_starting s then c\<lparr>rc_aborted := True\<rparr> else c) (rt_sessions s i))\<rparr>)"

definition disposeRealtime :: "nat list \<Rightarrow> realtime \<Rightarrow> realtime" where
  \<comment> \<open>its synchronous part; \<open>order\<close> lists the active sessions in the order they were admitted\<close>
  "disposeRealtime order s =
     (let s' = beginShutdown s in fold shutdownSession (filter (\<lambda>i. i \<in> rt_active s' - rt_starting s') order) s')"

definition disposeSettles :: "bool \<Rightarrow> realtime \<Rightarrow> bool" where
  \<comment> \<open>whether the promise resolves once every awaited session is closed\<close>
  "disposeSettles timedOut s \<longleftrightarrow> \<not> timedOut \<and> rt_active s = {}"

section \<open>Steps\<close>

inductive rt_step :: "realtime_policy \<Rightarrow> realtime \<Rightarrow> realtime \<Rightarrow> bool" for p where
  start: "af_channels audio = 1 \<Longrightarrow> rt_step p s (snd (startSession p aborted user audio s))"
| usage: "rt_step p s (snd (resumeUsage p used aborted i s))"
| terms: "rt_step p s (snd (resumeTerms ok aborted i s))"
| connect: "rt_step p s (snd (resumeConnect answer aborted throws abortedAfter now i s))"
| audio: "i \<notin> rt_starting s \<Longrightarrow> rt_step p s (sendAudio p throws now byteLength i s)"
| event: "rt_step p s (handleProviderEvent e i s)"
| lost: "rt_step p s (providerClosed failure i s)"
| silence: "rt_step p s (audioDeadline i s)"
| wall: "rt_step p s (wallClock i s)"
| finish: "i \<notin> rt_starting s \<Longrightarrow> rt_step p s (finishSession i s)"
| finished: "i \<notin> rt_starting s \<Longrightarrow> rt_step p s (finishOutcome answer timedOut i s)"
| cancel: "i \<notin> rt_starting s \<Longrightarrow> rt_step p s (cancelSession i s)"
| settle: "rt_step p s (settleTerminal p fails now today i s)"
| shutdown: "rt_step p s (beginShutdown s)"
| dispose: "rt_step p s (disposeRealtime order s)"

definition rt_reachable :: "realtime_policy \<Rightarrow> daily_usage list \<Rightarrow> realtime \<Rightarrow> bool" where
  "rt_reachable p usage s \<longleftrightarrow> (rt_step p)\<^sup>*\<^sup>* (empty_realtime usage) s"

end
