(* ===== verification/RealtimeProps.thy ===== *)
theory RealtimeProps
  imports RealtimeSession
begin

text \<open>
  Invariants of the realtime service over all interleavings of starts, audio,
  provider events, deadlines, client commands and shutdown: the concurrency
  tallies are exact, a session is billed once and within its limit, and its
  output ends with at most one terminal event.
\<close>

section \<open>Slots\<close>

definition sessions_of :: "string \<Rightarrow> realtime \<Rightarrow> nat set" where
  "sessions_of user s = {i \<in> rt_active s. rt_sessionUser s i = Some user}"

definition slots_ok :: "realtime_policy \<Rightarrow> realtime \<Rightarrow> bool" where
  "slots_ok p s \<longleftrightarrow>
     finite (rt_active s) \<and> card (rt_active s) \<le> po_maxSessions p \<and>
     (\<forall>i. rt_sessionUser s i \<noteq> None \<longleftrightarrow> i \<in> rt_active s) \<and>
     (\<forall>u. rt_perUser s u = (if sessions_of u s = {} then None else Some (card (sessions_of u s)))) \<and>
     (\<forall>u. card (sessions_of u s) \<le> po_maxPerUser p) \<and>
     (\<forall>i. i \<in> rt_active s \<longleftrightarrow> (\<exists>c. rt_sessions s i = Some c \<and> \<not> rc_closed c)) \<and>
     (\<forall>i. rt_sessions s i \<noteq> None \<longrightarrow> i < rt_next s)"

lemma slots_okD:
  assumes "slots_ok p s"
  shows "finite (rt_active s)" and "card (rt_active s) \<le> po_maxSessions p"
    and "rt_sessionUser s i = None \<longleftrightarrow> i \<notin> rt_active s"
    and "rt_perUser s u = (if sessions_of u s = {} then None else Some (card (sessions_of u s)))"
    and "card (sessions_of u s) \<le> po_maxPerUser p"
    and "i \<in> rt_active s \<longleftrightarrow> (\<exists>c. rt_sessions s i = Some c \<and> \<not> rc_closed c)"
    and "rt_sessions s i \<noteq> None \<Longrightarrow> i < rt_next s" and "finite (sessions_of u s)"
proof -
  note a = assms [unfolded slots_ok_def]
  show fin: "finite (rt_active s)" using a by (elim conjE)
  show "card (rt_active s) \<le> po_maxSessions p" using a by (elim conjE)
  have u: "\<forall>i. rt_sessionUser s i \<noteq> None \<longleftrightarrow> i \<in> rt_active s" using a by (elim conjE)
  then show "rt_sessionUser s i = None \<longleftrightarrow> i \<notin> rt_active s" by blast
  have "\<forall>u. rt_perUser s u = (if sessions_of u s = {} then None else Some (card (sessions_of u s)))"
    using a by (elim conjE)
  then show "rt_perUser s u = (if sessions_of u s = {} then None else Some (card (sessions_of u s)))" by (rule spec)
  have "\<forall>u. card (sessions_of u s) \<le> po_maxPerUser p" using a by (elim conjE)
  then show "card (sessions_of u s) \<le> po_maxPerUser p" by (rule spec)
  have "\<forall>i. i \<in> rt_active s \<longleftrightarrow> (\<exists>c. rt_sessions s i = Some c \<and> \<not> rc_closed c)" using a by (elim conjE)
  then show "i \<in> rt_active s \<longleftrightarrow> (\<exists>c. rt_sessions s i = Some c \<and> \<not> rc_closed c)" by (rule spec)
  have "\<forall>i. rt_sessions s i \<noteq> None \<longrightarrow> i < rt_next s" using a by (elim conjE)
  then show "rt_sessions s i \<noteq> None \<Longrightarrow> i < rt_next s" by blast
  show "finite (sessions_of u s)" using fin by (simp add: sessions_of_def)
qed

lemma change_simps [simp]:
  "rt_active (change i f s) = rt_active s" "rt_sessionUser (change i f s) = rt_sessionUser s"
  "rt_perUser (change i f s) = rt_perUser s" "rt_next (change i f s) = rt_next s"
  "rt_starting (change i f s) = rt_starting s" "rt_disposed (change i f s) = rt_disposed s"
  "rt_usage (change i f s) = rt_usage s" "rt_bookings (change i f s) = rt_bookings s"
  "rt_sessions (change i f s) j = (if j = i then map_option f (rt_sessions s i) else rt_sessions s j)"
  by (simp_all add: change_def)

lemma release_simps [simp]:
  "rt_sessions (release i s) = rt_sessions s" "rt_next (release i s) = rt_next s"
  "rt_starting (release i s) = rt_starting s" "rt_disposed (release i s) = rt_disposed s"
  "rt_usage (release i s) = rt_usage s" "rt_bookings (release i s) = rt_bookings s"
  "rt_active (release i s) = rt_active s - {i}"
  by (simp_all add: release_def Let_def split: option.split)

lemma sessions_of_simps [simp]: "sessions_of u (change i f s) = sessions_of u s"
  by (simp add: sessions_of_def)

lemma slots_change [simp]:
  "(\<And>c. rc_closed (f c) = rc_closed c) \<Longrightarrow> slots_ok p (change i f s) = slots_ok p s"
  by (auto simp: slots_ok_def sessions_of_def)

lemma slots_other:
  assumes "slots_ok p s" and "rt_active s' = rt_active s" and "rt_sessionUser s' = rt_sessionUser s"
    and "rt_perUser s' = rt_perUser s" and "rt_next s' = rt_next s"
    and "\<And>i. map_option rc_closed (rt_sessions s' i) = map_option rc_closed (rt_sessions s i)"
  shows "slots_ok p s'"
proof -
  have ex: "(\<exists>c. rt_sessions s' i = Some c \<and> \<not> rc_closed c) \<longleftrightarrow> (\<exists>c. rt_sessions s i = Some c \<and> \<not> rc_closed c)" for i
    using assms(6) [of i] by (cases "rt_sessions s i"; cases "rt_sessions s' i") auto
  have some: "rt_sessions s' i \<noteq> None \<longleftrightarrow> rt_sessions s i \<noteq> None" for i
    using assms(6) [of i] by (cases "rt_sessions s i"; cases "rt_sessions s' i") auto
  have so: "sessions_of u s' = sessions_of u s" for u by (simp add: sessions_of_def assms(2,3))
  show ?thesis using assms(1) unfolding slots_ok_def assms(2-5) ex some so by assumption
qed

lemma release_free:
  assumes "slots_ok p s" and "i \<notin> rt_active s"
  shows "release i s = s"
proof -
  have "rt_sessionUser s i = None" using assms slots_okD(3) by blast
  with assms(2) show ?thesis by (simp add: release_def Let_def)
qed

lemma slots_release:
  assumes "slots_ok p s" and "rt_sessions s i \<noteq> None" and "\<And>c. rc_closed (f c)"
  shows "slots_ok p (change i f (release i s))"
proof (cases "i \<in> rt_active s")
  case False
  then have cl: "map_option rc_closed (map_option f (rt_sessions s i)) = map_option rc_closed (rt_sessions s i)"
    using assms(2,3) slots_okD(6) [OF assms(1), of i] by auto
  show ?thesis
    unfolding release_free [OF assms(1) False] using assms(1) cl
    by (intro slots_other [OF assms(1)]) auto
next
  case True
  from True obtain u where u: "rt_sessionUser s i = Some u"
    using slots_okD(3) [OF assms(1), of i] by (cases "rt_sessionUser s i") auto
  define n where "n = card (sessions_of u s)"
  have fin: "finite (sessions_of u s)" using assms(1) by (rule slots_okD(8))
  have mem: "i \<in> sessions_of u s" using True u by (simp add: sessions_of_def)
  then have n: "0 < n" "rt_perUser s u = Some n" using fin slots_okD(4) [OF assms(1), of u] by (auto simp: n_def card_gt_0_iff)
  let ?r = "release i s"
  have user: "rt_sessionUser ?r = (rt_sessionUser s)(i := None)" using u by (simp add: release_def Let_def)
  have per: "rt_perUser ?r = (if n = 1 then (rt_perUser s)(u := None) else (rt_perUser s)(u \<mapsto> n - 1))"
    using u n by (auto simp: release_def Let_def nat_diff_distrib)
  have so: "sessions_of v ?r = (if v = u then sessions_of u s - {i} else sessions_of v s)" for v
    using u by (auto simp: sessions_of_def user)
  have cu: "card (sessions_of u s - {i}) = n - 1" using mem fin by (simp add: n_def)
  have emp: "sessions_of u s - {i} = {} \<longleftrightarrow> n = 1" using cu n(1) fin mem by (metis card_0_eq card_1_singletonE diff_is_0_eq finite_Diff n_def Diff_cancel One_nat_def Suc_leI le_antisym singletonD)
  have perU: "\<forall>v. rt_perUser ?r v = (if sessions_of v ?r = {} then None else Some (card (sessions_of v ?r)))"
  proof
    fix v
    show "rt_perUser ?r v = (if sessions_of v ?r = {} then None else Some (card (sessions_of v ?r)))"
    proof (cases "v = u")
      case True
      have "sessions_of v ?r = sessions_of u s - {i}" unfolding so True by simp
      then show ?thesis unfolding True per using emp cu by (simp del: Diff_eq_empty_iff)
    next
      case False
      then show ?thesis using slots_okD(4) [OF assms(1), of v] by (simp add: per so)
    qed
  qed
  note perU
  moreover have "\<forall>v. card (sessions_of v ?r) \<le> po_maxPerUser p"
    using slots_okD(5) [OF assms(1)] cu by (auto simp: so n_def intro: le_trans [OF diff_le_self])
  moreover have "card (rt_active s - {i}) \<le> po_maxSessions p"
    using slots_okD(2) [OF assms(1)] by (auto intro: le_trans [OF card_Diff1_le])
  moreover have "\<forall>j. rt_sessionUser ?r j \<noteq> None \<longleftrightarrow> j \<in> rt_active s - {i}"
  proof -
    have "rt_sessionUser s j \<noteq> None \<longleftrightarrow> j \<in> rt_active s" for j using slots_okD(3) [OF assms(1), of j] by auto
    then show ?thesis by (auto simp: user)
  qed
  moreover have "\<forall>j. j \<in> rt_active s - {i} \<longleftrightarrow> (\<exists>c. rt_sessions (change i f ?r) j = Some c \<and> \<not> rc_closed c)"
    using slots_okD(6) [OF assms(1)] assms(3) by (auto split: if_splits)
  moreover have "\<forall>j. rt_sessions (change i f ?r) j \<noteq> None \<longrightarrow> j < rt_next s"
    using slots_okD(7) [OF assms(1)] by (auto split: if_splits)
  moreover have "finite (rt_active s - {i})" using slots_okD(1) [OF assms(1)] by simp
  ultimately show ?thesis
    unfolding slots_ok_def change_simps(1-4) release_simps(2,7) sessions_of_simps by blast
qed

lemma slots_emit: "slots_ok p s \<Longrightarrow> slots_ok p (emitAndRelease i remaining s)"
  unfolding emitAndRelease_def by (auto split: option.split intro!: slots_release)

lemma slots_terminal: "slots_ok p s \<Longrightarrow> slots_ok p (beginTerminal d i s)"
  unfolding beginTerminal_def
  by (auto simp: closeDown_def intro!: slots_emit split: option.split decision.split bool.split)

lemma slots_fail: "slots_ok p s \<Longrightarrow> rt_sessions s i \<noteq> None \<Longrightarrow> slots_ok p (failStart i s)"
  unfolding failStart_def
  by (rule slots_release) (auto simp: forceClose_def intro: slots_other)

lemma slots_finish: "slots_ok p s \<Longrightarrow> slots_ok p (beginFinish reason i s)"
  unfolding beginFinish_def by (auto simp: Let_def intro!: slots_terminal split: option.split)

lemma at_phase_Some: "at_phase ph i s = Some c \<Longrightarrow> rt_sessions s i = Some c \<and> i \<in> rt_starting s \<and> rc_phase c = ph"
  by (auto simp: at_phase_def split: option.splits if_splits)

lemma slots_start:
  assumes "slots_ok p s"
  shows "slots_ok p (snd (startSession p aborted user audio s))"
proof (cases "rt_disposed s \<or> aborted \<or> atCapacity p user s")
  case True
  then show ?thesis using assms by (auto simp: startSession_def)
next
  case False
  define i where "i = rt_next s"
  define s' where "s' = snd (startSession p aborted user audio s)"
  have s': "s' = acquireSlot i user (s\<lparr>rt_sessions := (rt_sessions s)(i \<mapsto> new_controller user audio),
      rt_next := i + 1, rt_starting := insert i (rt_starting s)\<rparr>)"
    using False by (simp add: s'_def startSession_def i_def Let_def)
  have new: "i \<notin> rt_active s" "rt_sessions s i = None"
    using slots_okD(6,7) [OF assms, of i] by (auto simp: i_def)
  have so: "sessions_of u s' = (if u = user then insert i (sessions_of u s) else sessions_of u s)" for u
    using new(1) by (auto simp: sessions_of_def s' acquireSlot_def)
  have ni: "i \<notin> sessions_of u s" for u using new(1) by (simp add: sessions_of_def)
  note fin = slots_okD(8) [OF assms]
  have t: "userTally user s = card (sessions_of user s)"
    using slots_okD(4) [OF assms, of user] by (simp add: userTally_def)
  have cap: "card (rt_active s) < po_maxSessions p" "card (sessions_of user s) < po_maxPerUser p"
    using False t by (auto simp: atCapacity_def)
  have f: "rt_active s' = insert i (rt_active s)" "rt_sessionUser s' = (rt_sessionUser s)(i \<mapsto> user)"
    "rt_perUser s' = (rt_perUser s)(user \<mapsto> card (sessions_of user s) + 1)" "rt_next s' = i + 1"
    "rt_sessions s' = (rt_sessions s)(i \<mapsto> new_controller user audio)"
    using t by (simp_all add: s' acquireSlot_def userTally_def)
  have "\<forall>u. rt_perUser s' u = (if sessions_of u s' = {} then None else Some (card (sessions_of u s')))"
    using slots_okD(4) [OF assms] fin ni unfolding so f by auto
  moreover have "\<forall>u. card (sessions_of u s') \<le> po_maxPerUser p"
    using slots_okD(5) [OF assms] fin ni cap unfolding so by (auto simp: Suc_le_eq)
  moreover have "finite (rt_active s')" "card (rt_active s') \<le> po_maxSessions p"
    using slots_okD(1) [OF assms] cap new unfolding f by (simp_all add: Suc_le_eq)
  moreover have "\<forall>j. rt_sessionUser s' j \<noteq> None \<longleftrightarrow> j \<in> rt_active s'"
    using slots_okD(3) [OF assms] by (simp add: f) (metis option.exhaust_sel option.distinct(1))
  moreover have "\<forall>j. j \<in> rt_active s' \<longleftrightarrow> (\<exists>c. rt_sessions s' j = Some c \<and> \<not> rc_closed c)"
    using slots_okD(6) [OF assms] unfolding f by (auto simp: new_controller_def)
  moreover have "\<forall>j. rt_sessions s' j \<noteq> None \<longrightarrow> j < rt_next s'"
    using slots_okD(7) [OF assms] unfolding f i_def by (auto simp: less_Suc_eq)
  ultimately show ?thesis unfolding s'_def [symmetric] slots_ok_def by blast
qed

lemma slots_shutdown: "slots_ok p s \<Longrightarrow> slots_ok p (beginShutdown s)"
  by (auto simp: beginShutdown_def option.map_comp comp_def if_distrib cong: if_cong intro: slots_other)

lemma slots_step: "rt_step p s t \<Longrightarrow> slots_ok p s \<Longrightarrow> slots_ok p t"
proof (induction rule: rt_step.induct)
  case (start audio s aborted user)
  show ?case using start(2) by (rule slots_start)
next
  case (usage s used aborted i)
  then show ?case
    by (auto simp: resumeUsage_def setAdmission_def Let_def intro!: slots_fail dest!: at_phase_Some split: option.split)
next
  case (terms s ok aborted i)
  then show ?case
    by (auto simp: resumeTerms_def intro!: slots_fail dest!: at_phase_Some split: option.split)
next
  case (connect s answer aborted throws abortedAfter now i)
  have "slots_ok p (s\<lparr>rt_starting := X\<rparr>) = slots_ok p s" for s X by (simp add: slots_ok_def sessions_of_def)
  with connect show ?case
    by (auto simp: resumeConnect_def Let_def intro!: slots_fail dest!: at_phase_Some split: option.split sum.split)
next
  case (audio i s throws now byteLength)
  then show ?case
    by (auto simp: sendAudio_def Let_def intro!: slots_finish slots_terminal split: option.split frame_result.split)
next
  case (event s e i)
  then show ?case
    by (auto simp: handleProviderEvent_def Let_def intro!: slots_terminal split: option.split provider_event.split)
next
  case (lost s failure i)
  then show ?case by (auto simp: providerClosed_def intro!: slots_terminal split: option.split)
next
  case (silence s i)
  then show ?case by (auto simp: audioDeadline_def intro!: slots_terminal split: option.split)
next
  case (wall s i)
  then show ?case by (auto simp: wallClock_def intro!: slots_finish split: option.split)
next
  case (finish i s)
  then show ?case by (simp add: finishSession_def slots_finish)
next
  case (finished i s answer timedOut)
  then show ?case by (auto simp: finishOutcome_def intro!: slots_terminal split: sum.split)
next
  case (cancel i s)
  then show ?case by (simp add: cancelSession_def slots_terminal)
next
  case (settle s fails now today i)
  have "slots_ok p (snd (recordUsage p fails now today i c s))" for c
    by (rule slots_other [OF settle]) (auto simp: recordUsage_def Let_def split: prod.split)
  then show ?case using settle
    by (auto simp: settleTerminal_def intro!: slots_emit split: option.split prod.split) (metis snd_conv)
next
  case (shutdown s)
  then show ?case by (rule slots_shutdown)
next
  case (dispose s order)
  have "slots_ok p t \<Longrightarrow> slots_ok p (fold shutdownSession is t)" for "is" t
    by (induction "is" arbitrary: t) (simp_all add: shutdownSession_def slots_terminal)
  then show ?case using slots_shutdown [OF dispose] by (simp add: disposeRealtime_def Let_def)
qed

lemma slots_reachable: "rt_reachable p usage s \<Longrightarrow> slots_ok p s"
  unfolding rt_reachable_def
proof (induction rule: rtranclp_induct)
  case base
  show ?case by (simp add: slots_ok_def empty_realtime_def sessions_of_def)
next
  case (step t u)
  then show ?case using slots_step by blast
qed

section \<open>Billing and output\<close>

fun is_terminal :: "public_event \<Rightarrow> bool" where
  "is_terminal (Complete r n) = True"
| "is_terminal (ErrorEvent c r) = True"
| "is_terminal (Ready m n) = False"
| "is_terminal (Transcript c v) = False"

definition ended :: "public_event list \<Rightarrow> bool" where
  \<comment> \<open>at most the last event is terminal\<close>
  "ended out \<longleftrightarrow> list_all (\<lambda>e. \<not> is_terminal e) out \<or> (out \<noteq> [] \<and> list_all (\<lambda>e. \<not> is_terminal e) (butlast out))"

definition within_limit :: "controller \<Rightarrow> bool" where
  "within_limit c \<longleftrightarrow> af_channels (rc_audio c) = 1 \<and>
     rc_attempted c \<le> rc_limitSeconds c * bytesPerSecond (rc_audio c) \<and> rc_progressMs c \<le> rat_of_nat (rc_limitSeconds c * 1000)"

definition ctrl_ok :: "realtime_policy \<Rightarrow> controller \<Rightarrow> bool" where
  "ctrl_ok p c \<longleftrightarrow> within_limit c \<and> 1 \<le> rc_limitSeconds c \<and> rc_limitSeconds c \<le> po_maxSessionSeconds p \<and>
     (rc_phase c = AwaitingUsage \<longrightarrow> rc_limitSeconds c = 1 \<and> rc_attempted c = 0) \<and>
     (rc_phase c \<noteq> Started \<longrightarrow> rc_attempted c = 0) \<and>
     (rc_terminal c \<noteq> None \<longrightarrow> rc_state c = Closed) \<and>
     (\<not> rc_settled c \<longrightarrow> list_all (\<lambda>e. \<not> is_terminal e) (rc_out c)) \<and>
     (rc_settled c \<longrightarrow> rc_terminal c \<noteq> None \<and> ended (rc_out c))"

definition charged :: "nat \<times> nat \<Rightarrow> realtime \<Rightarrow> bool" where
  \<comment> \<open>a booking of a session whose terminal has settled, within its limit\<close>
  "charged b s \<longleftrightarrow> (\<exists>c. rt_sessions s (fst b) = Some c \<and> rc_settled c \<and> snd b \<le> rc_limitSeconds c)"

definition sessions_ok :: "realtime_policy \<Rightarrow> realtime \<Rightarrow> bool" where
  "sessions_ok p s \<longleftrightarrow>
     (\<forall>i c. rt_sessions s i = Some c \<longrightarrow> ctrl_ok p c \<and> (rc_phase c \<noteq> Started \<longrightarrow> i \<in> rt_starting s)) \<and>
     (\<forall>b \<in> set (rt_bookings s). charged b s) \<and> distinct (map fst (rt_bookings s)) \<and>
     (\<forall>i. rt_sessions s i \<noteq> None \<longrightarrow> i < rt_next s)"

lemma bytesPerSecond_pos: "af_channels a = 1 \<Longrightarrow> 0 < bytesPerSecond a"
  by (cases "af_sampleRate a") (simp_all add: bytesPerSecond_def BYTES_PER_SAMPLE_def)

lemma accepted_within: "a \<le> l * bytesPerSecond f \<Longrightarrow> a + acceptedFrameBytes n f a l \<le> l * bytesPerSecond f"
  by (simp add: acceptedFrameBytes_def Let_def)

lemma ceil_div_le: "0 < b \<Longrightarrow> a \<le> l * b \<Longrightarrow> (a + b - 1) div b \<le> (l::nat)"
  by (simp add: less_mult_imp_div_less less_Suc_eq_le [symmetric])

lemma ceil_seconds_le:
  assumes "q \<le> rat_of_nat (l * 1000)"
  shows "nat \<lceil>q / 1000\<rceil> \<le> l"
proof -
  have "q / 1000 \<le> rat_of_nat l" using assms by (simp add: divide_le_eq)
  then have "\<lceil>q / 1000\<rceil> \<le> int l" by (simp add: ceiling_le_iff)
  then show ?thesis by simp
qed

lemma billable_within: "within_limit c \<Longrightarrow> billable c \<le> rc_limitSeconds c"
  using ceil_div_le [OF bytesPerSecond_pos, of "rc_audio c" "rc_attempted c" "rc_limitSeconds c"]
    ceil_seconds_le [of "rc_progressMs c" "rc_limitSeconds c"]
  by (simp add: within_limit_def billable_def billableSeconds_def)

lemma frame_within:
  "sendRealtimeAudioFrame p throws elapsed n c = FrameSent a r \<Longrightarrow> within_limit c \<Longrightarrow>
   a \<le> rc_limitSeconds c * bytesPerSecond (rc_audio c)"
  using accepted_within
  by (auto simp: sendRealtimeAudioFrame_def Let_def within_limit_def split: if_splits option.splits)

lemma terminal_events_ended:
  "list_all (\<lambda>e. \<not> is_terminal e) out \<Longrightarrow> ended (out @ terminal_events d remaining)"
  by (cases d) (auto simp: ended_def complete_or_internal_def butlast_append)

lemma sessions_change:
  assumes "sessions_ok p s"
    and "\<And>c. rt_sessions s i = Some c \<Longrightarrow> ctrl_ok p c \<Longrightarrow> ctrl_ok p (f c) \<and> (rc_phase (f c) = rc_phase c \<or> rc_phase (f c) = Started) \<and>
      (rc_settled c \<longrightarrow> rc_settled (f c)) \<and> rc_limitSeconds c \<le> rc_limitSeconds (f c)"
  shows "sessions_ok p (change i f s)"
proof -
  have "charged b (change i f s)" if "charged b s" for b
  proof -
    from that obtain c where c: "rt_sessions s (fst b) = Some c" "rc_settled c" "snd b \<le> rc_limitSeconds c"
      by (auto simp: charged_def)
    show ?thesis
    proof (cases "fst b = i")
      case True
      with c assms(1) have "ctrl_ok p c" by (simp add: sessions_ok_def)
      with assms(2) [of c] c True show ?thesis by (auto simp: charged_def intro: le_trans)
    qed (use c in \<open>simp add: charged_def\<close>)
  qed
  moreover have "ctrl_ok p d \<and> (rc_phase d \<noteq> Started \<longrightarrow> j \<in> rt_starting s)"
    if "rt_sessions (change i f s) j = Some d" for j d
  proof (cases "j = i")
    case True
    with that obtain c where c: "rt_sessions s i = Some c" "d = f c" by auto
    with assms(1) have "ctrl_ok p c" "rc_phase c \<noteq> Started \<longrightarrow> i \<in> rt_starting s" by (auto simp: sessions_ok_def)
    with assms(2) [OF c(1)] c True show ?thesis by auto
  qed (use that assms(1) in \<open>auto simp: sessions_ok_def\<close>)
  moreover have "rt_sessions (change i f s) j \<noteq> None \<Longrightarrow> rt_sessions s j \<noteq> None" for j
    by (auto split: if_splits)
  ultimately show ?thesis using assms(1) unfolding sessions_ok_def by simp
qed

lemma live_sessions_release [simp]: "sessions_ok p (release i s) = sessions_ok p s"
  by (simp add: sessions_ok_def charged_def)

lemma sessions_ctrl: "sessions_ok p s \<Longrightarrow> rt_sessions s i = Some c \<Longrightarrow> ctrl_ok p c"
  by (simp add: sessions_ok_def)

lemma sessions_emit:
  assumes "sessions_ok p s" and "\<And>c. rt_sessions s i = Some c \<Longrightarrow> \<not> rc_settled c"
  shows "sessions_ok p (emitAndRelease i remaining s)"
proof (cases "rt_sessions s i")
  case None
  then show ?thesis using assms by (simp add: emitAndRelease_def)
next
  case (Some c)
  show ?thesis
  proof (cases "rc_terminal c")
    case None
    then show ?thesis using assms Some by (simp add: emitAndRelease_def)
  next
    case d: (Some d)
    have "sessions_ok p (change i (\<lambda>c. c\<lparr>rc_out := rc_out c @ terminal_events d remaining, rc_settled := True\<rparr>) s)"
      by (rule sessions_change [OF assms(1)])
        (use assms(2) Some d terminal_events_ended in \<open>auto simp: ctrl_ok_def within_limit_def\<close>)
    then show ?thesis
      using Some d by (auto simp: emitAndRelease_def ctrl_ok_def within_limit_def intro!: sessions_change)
  qed
qed

lemma sessions_terminal:
  assumes "sessions_ok p s"
  shows "sessions_ok p (beginTerminal d i s)"
proof (cases "rt_sessions s i")
  case None
  then show ?thesis using assms by (simp add: beginTerminal_def)
next
  case (Some c)
  have down: "rc_terminal c = None \<Longrightarrow> sessions_ok p (change i (closeDown d) s)"
    by (rule sessions_change [OF assms]) (use Some in \<open>auto simp: ctrl_ok_def closeDown_def within_limit_def\<close>)
  moreover have "rc_terminal c = None \<Longrightarrow> \<not> rc_settled c"
    using sessions_ctrl [OF assms Some] by (auto simp: ctrl_ok_def)
  ultimately have "rc_terminal c = None \<Longrightarrow> sessions_ok p (emitAndRelease i r (change i (closeDown d) s))" for r
    by (intro sessions_emit) (auto simp: Some closeDown_def)
  with down Some assms show ?thesis
    by (auto simp: beginTerminal_def split: decision.split bool.split)
qed

lemma sessions_fail:
  assumes "sessions_ok p s" and "rt_sessions s i = Some c"
  shows "sessions_ok p (failStart i s)"
proof -
  have "sessions_ok p (change i (\<lambda>c. forceClose (c\<lparr>rc_phase := Started\<rparr>)) s)"
    by (rule sessions_change [OF assms(1)]) (auto simp: ctrl_ok_def forceClose_def within_limit_def)
  then have "sessions_ok p ((change i (\<lambda>c. forceClose (c\<lparr>rc_phase := Started\<rparr>)) s)\<lparr>rt_starting := rt_starting s - {i}\<rparr>)"
    unfolding sessions_ok_def charged_def by (auto simp: forceClose_def split: if_splits)
  moreover have "sessions_ok p (failStart i s) =
      sessions_ok p ((change i (\<lambda>c. forceClose (c\<lparr>rc_phase := Started\<rparr>)) s)\<lparr>rt_starting := rt_starting s - {i}\<rparr>)"
    by (simp add: sessions_ok_def charged_def failStart_def)
  ultimately show ?thesis by simp
qed

lemma sessions_finish:
  assumes "sessions_ok p s"
  shows "sessions_ok p (beginFinish reason i s)"
proof -
  have "sessions_ok p (change i (\<lambda>c. c\<lparr>rc_audioTimer := False, rc_state := Finishing, rc_finishReason := reason,
      rc_wallTimer := False, rc_finishing := True\<rparr>) s)" if "rt_sessions s i = Some c" "rc_state c \<noteq> Closed" for c
    by (rule sessions_change [OF assms]) (use that in \<open>auto simp: ctrl_ok_def within_limit_def\<close>)
  then show ?thesis using assms
    by (auto simp: beginFinish_def Let_def intro!: sessions_terminal split: option.split)
qed

lemma sessions_frame:
  "rt_sessions s' = rt_sessions s \<Longrightarrow> rt_bookings s' = rt_bookings s \<Longrightarrow> rt_starting s' = rt_starting s \<Longrightarrow>
   rt_next s' = rt_next s \<Longrightarrow> sessions_ok p s' = sessions_ok p s"
  by (simp add: sessions_ok_def charged_def)

lemma sessions_start:
  assumes "sessions_ok p s" and "af_channels audio = 1" and "1 \<le> po_maxSessionSeconds p"
  shows "sessions_ok p (snd (startSession p aborted user audio s))"
proof (cases "rt_disposed s \<or> aborted \<or> atCapacity p user s")
  case True
  then show ?thesis using assms by (auto simp: startSession_def)
next
  case False
  define i where "i = rt_next s"
  have new: "rt_sessions s i = None" using assms(1) unfolding sessions_ok_def i_def by (metis less_irrefl)
  define s' where "s' = s\<lparr>rt_sessions := (rt_sessions s)(i \<mapsto> new_controller user audio), rt_next := i + 1,
      rt_starting := insert i (rt_starting s)\<rparr>"
  have ok: "ctrl_ok p (new_controller user audio)"
    using assms(2,3) by (simp add: ctrl_ok_def new_controller_def within_limit_def)
  have g: "rt_sessions s' = (rt_sessions s)(i \<mapsto> new_controller user audio)" "rt_next s' = i + 1"
    "rt_starting s' = insert i (rt_starting s)" "rt_bookings s' = rt_bookings s" by (simp_all add: s'_def)
  have "charged b s'" if "charged b s" for b
    using that new by (auto simp: charged_def g)
  moreover have "ctrl_ok p c \<and> (rc_phase c \<noteq> Started \<longrightarrow> j \<in> rt_starting s')" if "rt_sessions s' j = Some c" for j c
    using that ok assms(1) by (cases "j = i") (auto simp: g sessions_ok_def)
  moreover have "j < rt_next s'" if "rt_sessions s' j \<noteq> None" for j
    using that assms(1) by (cases "j = i") (auto simp: g sessions_ok_def i_def less_Suc_eq)
  ultimately have "sessions_ok p s'" using assms(1) unfolding sessions_ok_def g(4) by blast
  moreover have "snd (startSession p aborted user audio s) = acquireSlot i user s'"
    using False by (simp add: startSession_def i_def s'_def Let_def)
  moreover have "sessions_ok p (acquireSlot i user s') = sessions_ok p s'"
    by (rule sessions_frame) (simp_all add: acquireSlot_def)
  ultimately show ?thesis by simp
qed

lemma started_not_starting:
  assumes "sessions_ok p s" and "rt_sessions s i = Some c" and "i \<notin> rt_starting s"
  shows "rc_phase c = Started"
  using assms by (auto simp: sessions_ok_def)

lemma sessions_usage:
  assumes "sessions_ok p s" and "1 \<le> po_maxSessionSeconds p"
  shows "sessions_ok p (snd (resumeUsage p used aborted i s))"
proof -
  let ?f = "setAdmission p"
  have "sessions_ok p (change i (?f b) s)" if "at_phase AwaitingUsage i s = Some c" "0 < b" for b c
  proof -
    from at_phase_Some [OF that(1)] have c: "rt_sessions s i = Some c" "i \<in> rt_starting s" "rc_phase c = AwaitingUsage" by auto
    then have ok: "ctrl_ok p c" using assms(1) sessions_ctrl by blast
    have l: "1 \<le> nat (min (int (po_maxSessionSeconds p)) b)" "nat (min (int (po_maxSessionSeconds p)) b) \<le> po_maxSessionSeconds p"
      using assms(2) that(2) by linarith+
    have f: "ctrl_ok p (?f b c)" "rc_limitSeconds c \<le> rc_limitSeconds (?f b c)"
      using ok c(3) l by (auto simp: ctrl_ok_def within_limit_def setAdmission_def)
    have keep: "rc_settled (?f b c) = rc_settled c" "rc_phase (?f b c) = AwaitingTerms" by (simp_all add: setAdmission_def)
    have "charged x (change i (?f b) s)" if "charged x s" for x
      using that c(1) f(2) keep by (auto simp: charged_def intro: le_trans)
    moreover have "ctrl_ok p d \<and> (rc_phase d \<noteq> Started \<longrightarrow> j \<in> rt_starting s)"
      if "rt_sessions (change i (?f b) s) j = Some d" for j d
      using that f(1) c assms(1) by (auto simp: sessions_ok_def split: if_splits)
    moreover have "rt_sessions (change i (?f b) s) j \<noteq> None \<Longrightarrow> rt_sessions s j \<noteq> None" for j
      by (auto split: if_splits)
    ultimately show ?thesis using assms(1) unfolding sessions_ok_def by simp
  qed
  moreover have "at_phase AwaitingUsage i s = Some c \<Longrightarrow> sessions_ok p (failStart i s)" for c
    using at_phase_Some sessions_fail [OF assms(1)] by blast
  ultimately show ?thesis
    using assms(1) by (auto simp: resumeUsage_def Let_def split: option.split)
qed

lemma sessions_terms:
  assumes "sessions_ok p s"
  shows "sessions_ok p (snd (resumeTerms ok aborted i s))"
proof -
  have "at_phase AwaitingTerms i s = Some c \<Longrightarrow> sessions_ok p (failStart i s)" for c
    using at_phase_Some sessions_fail [OF assms(1)] by blast
  moreover have "sessions_ok p (change i (\<lambda>c. c\<lparr>rc_phase := Connecting\<rparr>) s)"
    if "at_phase AwaitingTerms i s = Some c" for c
  proof -
    from at_phase_Some [OF that] have c: "rt_sessions s i = Some c" "i \<in> rt_starting s" "rc_phase c = AwaitingTerms" by auto
    have "ctrl_ok p (c\<lparr>rc_phase := Connecting\<rparr>)"
      using sessions_ctrl [OF assms c(1)] c(3) by (auto simp: ctrl_ok_def within_limit_def)
    then show ?thesis
      using assms c unfolding sessions_ok_def charged_def by (auto split: if_splits)
  qed
  ultimately show ?thesis using assms by (auto simp: resumeTerms_def split: option.split)
qed

lemma sessions_connect:
  assumes "sessions_ok p s"
  shows "sessions_ok p (snd (resumeConnect answer aborted throws abortedAfter now i s))"
proof (cases "at_phase Connecting i s")
  case None
  then show ?thesis using assms by (simp add: resumeConnect_def)
next
  case (Some c)
  from at_phase_Some [OF this] have c: "rt_sessions s i = Some c" "i \<in> rt_starting s" "rc_phase c = Connecting" by auto
  note ok = sessions_ctrl [OF assms c(1)]
  note fail = sessions_fail [OF assms c(1)]
  define ready where "ready = Ready (int (rc_limitSeconds c)) (rc_remaining c)"
  define s' where "s' = change i (\<lambda>c. c\<lparr>rc_out := rc_out c @ [ready]\<rparr>) s"
  have s': "sessions_ok p s'" if "rc_state c \<noteq> Closed"
    unfolding s'_def
    by (rule sessions_change [OF assms]) (use c that in \<open>auto simp: ctrl_ok_def within_limit_def ready_def ended_def\<close>)
  then have fail': "rc_state c \<noteq> Closed \<Longrightarrow> sessions_ok p (failStart i s')"
    using sessions_fail [of p s' i] by (simp add: s'_def c)
  let ?g = "\<lambda>c. c\<lparr>rc_startedAt := now, rc_wallTimer := True, rc_audioTimer := True, rc_phase := Started\<rparr>"
  have "sessions_ok p (change i ?g (s'\<lparr>rt_starting := rt_starting s' - {i}\<rparr>))" if "rc_state c \<noteq> Closed"
  proof -
    have "sessions_ok p (change i ?g s')"
      by (rule sessions_change [OF s' [OF that]]) (auto simp: ctrl_ok_def within_limit_def)
    then show ?thesis
      unfolding sessions_ok_def charged_def by (auto split: if_splits)
  qed
  then show ?thesis
    using Some fail fail' unfolding resumeConnect_def
    by (auto simp: Let_def ready_def [symmetric] s'_def [symmetric] split: sum.split)
qed

lemma sessions_audio:
  assumes "sessions_ok p s" and "i \<notin> rt_starting s"
  shows "sessions_ok p (sendAudio p throws now n i s)"
proof (cases "rt_sessions s i")
  case None
  then show ?thesis using assms by (simp add: sendAudio_def)
next
  case (Some c)
  have st: "rc_phase c = Started" using started_not_starting [OF assms(1) Some assms(2)] .
  have "sessions_ok p (change i (\<lambda>c. c\<lparr>rc_attempted := a, rc_audioTimer := True\<rparr>) s)"
    if "sendRealtimeAudioFrame p throws t n c = FrameSent a r" for t a r
    by (rule sessions_change [OF assms(1)])
      (use that Some st frame_within in \<open>auto simp: ctrl_ok_def within_limit_def\<close>)
  then show ?thesis
    using assms(1) Some
    by (auto simp: sendAudio_def Let_def intro!: sessions_finish sessions_terminal split: frame_result.split)
qed

lemma sessions_event:
  assumes "sessions_ok p s"
  shows "sessions_ok p (handleProviderEvent e i s)"
proof (cases "rt_sessions s i")
  case None
  then show ?thesis using assms by (simp add: handleProviderEvent_def)
next
  case (Some c)
  show ?thesis
  proof (cases "rc_state c = Closed")
    case True
    then show ?thesis using Some assms by (simp add: handleProviderEvent_def)
  next
    case open_: False
    have prog: "sessions_ok p (change i (\<lambda>c. c\<lparr>rc_progressMs := max (rc_progressMs c) (max f t)\<rparr>) s)"
      if "\<not> (rat_of_nat (rc_limitSeconds c * 1000) < f \<or> rat_of_nat (rc_limitSeconds c * 1000) < t)" for f t
      by (rule sessions_change [OF assms]) (use that Some in \<open>auto simp: ctrl_ok_def within_limit_def\<close>)
    have out: "sessions_ok p (change i (\<lambda>c. c\<lparr>rc_out := rc_out c @ [Transcript a b]\<rparr>)
        (change i (\<lambda>c. c\<lparr>rc_progressMs := max (rc_progressMs c) (max f t)\<rparr>) s))"
      if "\<not> (rat_of_nat (rc_limitSeconds c * 1000) < f \<or> rat_of_nat (rc_limitSeconds c * 1000) < t)" for f t a b
      by (rule sessions_change [OF prog [OF that]]) (use open_ Some in \<open>auto simp: ctrl_ok_def within_limit_def\<close>)
    show ?thesis
      using Some assms prog out
      by (auto simp: handleProviderEvent_def Let_def intro!: sessions_terminal split: provider_event.split)
  qed
qed

lemma sessions_settle:
  assumes "sessions_ok p s"
  shows "sessions_ok p (settleTerminal p fails now today i s)"
proof (cases "rt_sessions s i")
  case None
  then show ?thesis using assms by (simp add: settleTerminal_def)
next
  case (Some c)
  show ?thesis
  proof (cases "rc_terminal c = None \<or> rc_settled c")
    case True
    then show ?thesis using Some assms by (auto simp: settleTerminal_def)
  next
    case False
    then obtain d where d: "rc_terminal c = Some d" "\<not> rc_settled c" by auto
    obtain r s' where u: "recordUsage p fails now today i c s = (r, s')" by fastforce
    have keep: "rt_sessions s' = rt_sessions s" "rt_starting s' = rt_starting s" "rt_next s' = rt_next s"
      and book: "rt_bookings s' = rt_bookings s \<or> rt_bookings s' = rt_bookings s @ [(i, billable c)]"
      using u by (auto simp: recordUsage_def Let_def split: if_splits prod.splits)
    define t where "t = emitAndRelease i r s'"
    have e: "sessions_ok p (emitAndRelease i r s)"
      by (rule sessions_emit [OF assms]) (use Some d in auto)
    have same: "rt_sessions t = rt_sessions (emitAndRelease i r s)" "rt_starting t = rt_starting (emitAndRelease i r s)"
      "rt_next t = rt_next (emitAndRelease i r s)" "rt_bookings (emitAndRelease i r s) = rt_bookings s"
      "rt_bookings t = rt_bookings s'"
      using Some d keep by (auto simp: t_def emitAndRelease_def change_def release_def Let_def split: option.split)
    have paid: "charged (i, billable c) t"
      using sessions_ctrl [OF assms Some] Some d keep billable_within [of c]
      by (simp add: charged_def t_def emitAndRelease_def ctrl_ok_def)
    have fresh: "i \<notin> fst ` set (rt_bookings s)"
    proof
      assume "i \<in> fst ` set (rt_bookings s)"
      then obtain b where "b \<in> set (rt_bookings s)" "fst b = i" by auto
      with assms have "charged b s" by (auto simp: sessions_ok_def)
      with \<open>fst b = i\<close> Some d show False by (auto simp: charged_def)
    qed
    have "sessions_ok p t"
      using e book paid fresh same(4) unfolding sessions_ok_def charged_def same(1-3,5)
      by (auto simp: ctrl_ok_def)
    then show ?thesis using Some d u by (simp add: settleTerminal_def t_def)
  qed
qed

lemma sessions_shutdown:
  assumes "sessions_ok p s"
  shows "sessions_ok p (beginShutdown s)"
proof (cases "rt_disposed s")
  case True
  then show ?thesis using assms by (simp add: beginShutdown_def)
next
  case False
  define g :: "nat \<Rightarrow> controller \<Rightarrow> controller" where "g = (\<lambda>i c. if i \<in> rt_starting s then c\<lparr>rc_aborted := True\<rparr> else c)"
  have g: "rt_sessions (beginShutdown s) i = map_option (g i) (rt_sessions s i)"
    "rt_starting (beginShutdown s) = rt_starting s" "rt_next (beginShutdown s) = rt_next s"
    "rt_bookings (beginShutdown s) = rt_bookings s" for i
    using False by (simp_all add: beginShutdown_def g_def)
  have k: "ctrl_ok p (g i c) = ctrl_ok p c" "rc_settled (g i c) = rc_settled c" "rc_phase (g i c) = rc_phase c"
    "rc_limitSeconds (g i c) = rc_limitSeconds c" for i c
    by (simp_all add: g_def ctrl_ok_def within_limit_def)
  have "charged b (beginShutdown s) = charged b s" for b
    by (auto simp: charged_def g k)
  then show ?thesis using assms unfolding sessions_ok_def g by (auto simp: k)
qed

lemma sessions_step:
  assumes "rt_step p s t" and "sessions_ok p s" and "1 \<le> po_maxSessionSeconds p"
  shows "sessions_ok p t"
  using assms(1,2)
proof (cases rule: rt_step.cases)
  case (start audio aborted user)
  then show ?thesis using assms(2,3) sessions_start by simp
next
  case (usage used aborted i)
  then show ?thesis using assms(2,3) sessions_usage by simp
next
  case (terms ok aborted i)
  then show ?thesis using assms(2) sessions_terms by simp
next
  case (connect answer aborted throws abortedAfter now i)
  then show ?thesis using assms(2) sessions_connect by simp
next
  case (audio i throws now byteLength)
  then show ?thesis using assms(2) sessions_audio by simp
next
  case (event e i)
  then show ?thesis using assms(2) sessions_event by simp
next
  case (lost failure i)
  then show ?thesis using assms(2) by (auto simp: providerClosed_def intro!: sessions_terminal split: option.split)
next
  case (silence i)
  then show ?thesis using assms(2) by (auto simp: audioDeadline_def intro!: sessions_terminal split: option.split)
next
  case (wall i)
  then show ?thesis using assms(2) by (auto simp: wallClock_def intro!: sessions_finish split: option.split)
next
  case (finish i)
  then show ?thesis using assms(2) by (simp add: finishSession_def sessions_finish)
next
  case (finished i answer timedOut)
  then show ?thesis using assms(2) by (auto simp: finishOutcome_def intro!: sessions_terminal split: sum.split)
next
  case (cancel i)
  then show ?thesis using assms(2) by (simp add: cancelSession_def sessions_terminal)
next
  case (settle fails now today i)
  then show ?thesis using assms(2) sessions_settle by simp
next
  case shutdown
  then show ?thesis using assms(2) sessions_shutdown by simp
next
  case (dispose order)
  have "sessions_ok p u \<Longrightarrow> sessions_ok p (fold shutdownSession is u)" for "is" u
    by (induction "is" arbitrary: u) (simp_all add: shutdownSession_def sessions_terminal)
  with dispose sessions_shutdown [OF assms(2)] show ?thesis by (simp add: disposeRealtime_def Let_def)
qed

lemma sessions_reachable: "rt_reachable p usage s \<Longrightarrow> 1 \<le> po_maxSessionSeconds p \<Longrightarrow> sessions_ok p s"
  unfolding rt_reachable_def
proof (induction rule: rtranclp_induct)
  case base
  show ?case by (simp add: sessions_ok_def empty_realtime_def)
next
  case (step t u)
  then show ?case using sessions_step by blast
qed

section \<open>A session to evaluate\<close>

definition demo_policy :: realtime_policy where
  "demo_policy = \<lparr>po_dailyLimitSeconds = 60, po_maxSessionSeconds = 30, po_maxPerUser = 1, po_maxSessions = 2,
     po_paceBurstSeconds = 5\<rparr>"

definition demo_audio :: audio_format where
  "demo_audio = \<lparr>af_sampleRate = Rate16000, af_channels = 1\<rparr>"

definition demo_run :: "realtime list" where
  \<comment> \<open>a session is admitted, connects, streams half a second, loses its provider and is booked\<close>
  "demo_run =
     (let s1 = snd (startSession demo_policy False ''u'' demo_audio (empty_realtime []));
          s2 = snd (resumeUsage demo_policy (Some 0) False 0 s1);
          s3 = snd (resumeTerms True False 0 s2);
          s4 = snd (resumeConnect (Inr ()) False False False 100 0 s3);
          s5 = sendAudio demo_policy None 200 16000 0 s4;
          s6 = providerClosed None 0 s5;
          s7 = settleTerminal demo_policy False 300 ''d'' 0 s6
      in [s1, s5, s7])"

lemma demo_reachable: "list_all (rt_reachable demo_policy []) demo_run"
proof -
  let ?p = demo_policy
  define s1 where "s1 = snd (startSession ?p False ''u'' demo_audio (empty_realtime []))"
  define s2 where "s2 = snd (resumeUsage ?p (Some 0) False 0 s1)"
  define s3 where "s3 = snd (resumeTerms True False 0 s2)"
  define s4 where "s4 = snd (resumeConnect (Inr ()) False False False 100 0 s3)"
  define s5 where "s5 = sendAudio ?p None 200 16000 0 s4"
  define s6 where "s6 = providerClosed None 0 s5"
  define s7 where "s7 = settleTerminal ?p False 300 ''d'' 0 s6"
  have r1: "rt_reachable ?p [] s1"
    unfolding rt_reachable_def s1_def by (rule r_into_rtranclp, rule rt_step.start) (simp add: demo_audio_def)
  have r4: "rt_reachable ?p [] s4"
    using r1 unfolding rt_reachable_def s2_def s3_def s4_def
    by (meson rt_step.usage rt_step.terms rt_step.connect rtranclp.rtrancl_into_rtrancl)
  have "0 \<notin> rt_starting s4"
    unfolding s4_def s3_def s2_def s1_def
    by (simp add: startSession_def empty_realtime_def demo_policy_def atCapacity_def userTally_def acquireSlot_def
        new_controller_def resumeUsage_def at_phase_def setAdmission_def resumeTerms_def resumeConnect_def
        isPublicEventValid_def object_length_def int_length_def digits.simps MAX_REALTIME_EVENT_BYTES_def change_def Let_def)
  then have r5: "rt_reachable ?p [] s5"
    using r4 unfolding rt_reachable_def s5_def by (meson rt_step.audio rtranclp.rtrancl_into_rtrancl)
  then have "rt_reachable ?p [] s7"
    unfolding rt_reachable_def s6_def s7_def by (meson rt_step.lost rt_step.settle rtranclp.rtrancl_into_rtrancl)
  with r1 r5 show ?thesis
    by (simp add: demo_run_def Let_def s1_def s2_def s3_def s4_def s5_def s6_def s7_def)
qed

lemmas demo_eval = startSession_def empty_realtime_def demo_policy_def demo_audio_def atCapacity_def userTally_def
  acquireSlot_def new_controller_def resumeUsage_def at_phase_def setAdmission_def resumeTerms_def resumeConnect_def
  isPublicEventValid_def object_length_def int_length_def digits.simps MAX_REALTIME_EVENT_BYTES_def change_def Let_def
  sendAudio_def sendRealtimeAudioFrame_def acceptedFrameBytes_def bytesPerSecond_def BYTES_PER_SAMPLE_def
  isAlignedPcm_def exceedsRealtimePace_def reachedAudioLimit_def providerClosed_def beginTerminal_def closeDown_def

definition demo_lost :: realtime where
  "demo_lost = providerClosed None 0 (demo_run ! 1)"

lemma demo_lost_session:
  "rt_sessions demo_lost 0 = Some ((new_controller ''u'' demo_audio)\<lparr>rc_phase := Started, rc_limitSeconds := 30,
     rc_limitReason := SessionLimit, rc_remaining := 60, rc_state := Closed, rc_aborted := True, rc_attempted := 16000,
     rc_startedAt := 100, rc_terminal := Some (Fail ProviderUnavailable True), rc_out := [Ready 30 60]\<rparr>)"
  "rt_usage demo_lost = []" "rt_bookings demo_lost = []" "rt_sessionUser demo_lost 0 = Some ''u''"
  "rt_perUser demo_lost = [''u'' \<mapsto> 1]" "rt_active demo_lost = {0}"
  by (simp_all add: demo_lost_def demo_run_def demo_eval)

lemma demo_final_step: "demo_run ! 2 = settleTerminal demo_policy False 300 ''d'' 0 demo_lost"
  by (simp add: demo_lost_def demo_run_def Let_def)

lemma demo_final:
  "rt_bookings (demo_run ! 2) = [(0, 1)]"
  "map_option rc_out (rt_sessions (demo_run ! 2) 0) = Some [Ready 30 60, ErrorEvent ProviderUnavailable True]"
  "map_option rc_limitSeconds (rt_sessions (demo_run ! 2) 0) = Some 30"
  by (simp_all add: demo_final_step settleTerminal_def demo_lost_session recordUsage_def billable_def billableSeconds_def
      new_controller_def demo_audio_def bytesPerSecond_def BYTES_PER_SAMPLE_def incrementTranscriptionSeconds_def
      findOneAndUpdate_def emitAndRelease_def complete_or_internal_def isPublicEventValid_def object_length_def
      MAX_REALTIME_EVENT_BYTES_def retryable_def demo_policy_def)

section \<open>The properties\<close>

text \<open>C17: The concurrency ceilings hold at every moment: the per-user tallies count exactly the
  sessions that are not closed, counting the ones still starting, no user holds more than the
  policy allows, nor the process, and a closed session never keeps a slot.\<close>
theorem realtime_slots_exact:
  assumes "rt_reachable p usage s"
  shows "card (rt_active s) \<le> po_maxSessions p \<and> userTally user s \<le> po_maxPerUser p \<and>
    userTally user s = card (sessions_of user s) \<and>
    (i \<in> rt_active s \<longleftrightarrow> (\<exists>c. rt_sessions s i = Some c \<and> \<not> rc_closed c))"
  using slots_reachable [OF assms] slots_okD [of p s] by (auto simp: userTally_def)

theorem realtime_slots_exact_witness:
  "card (rt_active (hd demo_run)) \<le> 2 \<and> userTally ''u'' (hd demo_run) \<le> 1"
  using realtime_slots_exact [of demo_policy "[]" "hd demo_run" "''u''" 0] demo_reachable
  by (simp add: demo_run_def Let_def demo_policy_def)

text \<open>C18: A session is billed at most once, and never more seconds than the limit it was admitted
  with, which never exceeds the policy's, however much audio the client sends and whatever
  progress the provider reports.\<close>
theorem realtime_billing_bounded:
  assumes "rt_reachable p usage s" and "1 \<le> po_maxSessionSeconds p"
  shows "distinct (map fst (rt_bookings s)) \<and>
    list_all (\<lambda>(i, n). case rt_sessions s i of None \<Rightarrow> False
      | Some c \<Rightarrow> n \<le> rc_limitSeconds c \<and> rc_limitSeconds c \<le> po_maxSessionSeconds p) (rt_bookings s)"
  using sessions_reachable [OF assms]
  by (fastforce simp: sessions_ok_def charged_def list_all_iff ctrl_ok_def)

theorem realtime_billing_bounded_witness:
  "rt_bookings (demo_run ! 2) = [(0, 1)] \<and> distinct (map fst (rt_bookings (demo_run ! 2)))"
  using realtime_billing_bounded [of demo_policy "[]" "demo_run ! 2"] demo_reachable demo_final(1)
  by (simp add: demo_run_def Let_def demo_policy_def)

text \<open>What a session hands to its client ends with at most one terminal event, a completion or
  an error, and nothing follows it, whichever of finish, cancel, deadlines, provider loss and
  shutdown race.\<close>
lemma realtime_one_terminal_event:
  assumes "rt_reachable p usage s" and "1 \<le> po_maxSessionSeconds p" and "rt_sessions s i = Some c"
  shows "ended (rc_out c)"
  using sessions_ctrl [OF sessions_reachable [OF assms(1,2)] assms(3)]
  by (auto simp: ctrl_ok_def ended_def)

lemma realtime_one_terminal_event_witness:
  "ended [Ready 30 60, ErrorEvent ProviderUnavailable True] \<and> \<not> ended [ErrorEvent InternalError True, Ready 30 60]"
proof -
  have "rt_reachable demo_policy [] (demo_run ! 2)" using demo_reachable by (simp add: demo_run_def Let_def)
  moreover obtain c where "rt_sessions (demo_run ! 2) 0 = Some c" "rc_out c = [Ready 30 60, ErrorEvent ProviderUnavailable True]"
    using demo_final(2) by auto
  ultimately have "ended [Ready 30 60, ErrorEvent ProviderUnavailable True]"
    using realtime_one_terminal_event [of demo_policy "[]" "demo_run ! 2" 0 c] by (simp add: demo_policy_def)
  then show ?thesis by (simp add: ended_def)
qed

end
