(* ===== verification/RealtimeSocket.thy ===== *)
theory RealtimeSocket
  imports RealtimeProps
begin

text \<open>
  The WebSocket route of realtime transcription: \<open>src/routes/voice-realtime-socket.ts\<close>
  and \<open>voice-realtime-support.ts\<close>.  A context is the state of one connection with the
  frames it sent and the commands it gave its session; the session behind it is seen
  through its callbacks.  What a send meets is a parameter: how much the socket has
  buffered and whether the write throws.
\<close>

section \<open>Frames\<close>

definition sample_rate_of :: "jvalue option \<Rightarrow> sample_rate option" where
  "sample_rate_of v =
     (if v = Some (JNum 16000) then Some Rate16000 else if v = Some (JNum 24000) then Some Rate24000
      else if v = Some (JNum 44100) then Some Rate44100 else if v = Some (JNum 48000) then Some Rate48000 else None)"

definition realtimeAudioFormatSchema :: "jvalue option \<Rightarrow> audio_format option" where
  "realtimeAudioFormatSchema v =
     (case v of
        None \<Rightarrow> None
      | Some a \<Rightarrow>
          if strict_keys [''encoding'', ''sampleRate'', ''channels''] a \<and> member ''encoding'' a = Some (JStr ''pcm_s16le'') \<and>
             member ''channels'' a = Some (JNum 1)
          then map_option (\<lambda>r. \<lparr>af_sampleRate = r, af_channels = 1\<rparr>) (sample_rate_of (member ''sampleRate'' a))
          else None)"

record start_message =
  sg_projectKey :: "string option"
  sg_audio :: audio_format

definition realtimeStartMessageSchema :: "jvalue \<Rightarrow> start_message option" where
  "realtimeStartMessageSchema v =
     (if \<not> (strict_keys [''type'', ''protocolVersion'', ''projectKey'', ''audio''] v \<and>
            member ''type'' v = Some (JStr ''start'') \<and> member ''protocolVersion'' v = Some (JNum 1)) then None
      else case (member ''projectKey'' v, realtimeAudioFormatSchema (member ''audio'' v)) of
             (Some JNull, Some a) \<Rightarrow> Some \<lparr>sg_projectKey = None, sg_audio = a\<rparr>
           | (Some (JStr k), Some a) \<Rightarrow>
               if projectKeySchema k then Some \<lparr>sg_projectKey = Some k, sg_audio = a\<rparr> else None
           | _ \<Rightarrow> None)"

definition control_message :: "string \<Rightarrow> jvalue \<Rightarrow> bool" where
  \<comment> \<open>the finish and the cancel message\<close>
  "control_message t v \<longleftrightarrow> strict_keys [''type''] v \<and> member ''type'' v = Some (JStr t)"

definition isUnsupportedStartProtocol :: "jvalue \<Rightarrow> bool" where
  "isUnsupportedStartProtocol v \<longleftrightarrow> member ''type'' v = Some (JStr ''start'') \<and>
     member ''protocolVersion'' v \<noteq> None \<and> member ''protocolVersion'' v \<noteq> Some (JNum 1)"

record route_policy =
  rp_maxTextFrameBytes :: nat
  rp_maxAudioFrameBytes :: nat
  rp_maxOutboundEventBytes :: nat
  rp_outboundBufferMaxBytes :: nat

datatype frame =
  Binary nat
| Text nat "jvalue option"
  \<comment> \<open>the size, and what the text decodes and parses to, \<open>None\<close> when it is not UTF-8 or not JSON\<close>

datatype start_result = ValidStart start_message | InvalidStart | UnsupportedStart

definition parseStartFrame :: "route_policy \<Rightarrow> nat \<Rightarrow> jvalue option \<Rightarrow> start_result" where
  "parseStartFrame pol byteLength json =
     (if rp_maxTextFrameBytes pol < byteLength then InvalidStart
      else case json of
             None \<Rightarrow> InvalidStart
           | Some v \<Rightarrow>
               if isUnsupportedStartProtocol v then UnsupportedStart
               else (case realtimeStartMessageSchema v of Some m \<Rightarrow> ValidStart m | None \<Rightarrow> InvalidStart))"

datatype control = FinishMessage | CancelMessage | InvalidControl

definition parseControlFrame :: "route_policy \<Rightarrow> nat \<Rightarrow> jvalue option \<Rightarrow> control" where
  "parseControlFrame pol byteLength json =
     (if rp_maxTextFrameBytes pol < byteLength then InvalidControl
      else case json of
             None \<Rightarrow> InvalidControl
           | Some v \<Rightarrow> if control_message ''finish'' v then FinishMessage
                       else if control_message ''cancel'' v then CancelMessage else InvalidControl)"

section \<open>The connection\<close>

definition CLOSE_normal :: nat where "CLOSE_normal = 1000"
definition CLOSE_policy :: nat where "CLOSE_policy = 1008"
definition CLOSE_internal :: nat where "CLOSE_internal = 1011"
definition CLOSE_unavailable :: nat where "CLOSE_unavailable = 1013"

fun closeCodeForError :: "protocol_error \<Rightarrow> nat" where
  "closeCodeForError ProviderRejected = CLOSE_internal"
| "closeCodeForError AudioTimeout = CLOSE_internal"
| "closeCodeForError ProviderTimeout = CLOSE_internal"
| "closeCodeForError InternalError = CLOSE_internal"
| "closeCodeForError ProviderUnavailable = CLOSE_unavailable"
| "closeCodeForError ProviderCapacity = CLOSE_unavailable"
| "closeCodeForError SlowClient = CLOSE_unavailable"
| "closeCodeForError StartTimeout = CLOSE_unavailable"
| "closeCodeForError ServiceRestarting = CLOSE_unavailable"
| "closeCodeForError InvalidMessage = CLOSE_policy"
| "closeCodeForError UnsupportedProtocol = CLOSE_policy"
| "closeCodeForError InvalidAudio = CLOSE_policy"
| "closeCodeForError QuotaExhausted = CLOSE_policy"

datatype route_state = RAwaitingStart | RStarting | RStreaming | RFinishing | RClosed

datatype session_command = SendAudio nat | FinishCmd | CancelCmd | DisconnectCmd

record socket =
  sk_state :: route_state
  sk_session :: bool
  sk_terminalSent :: bool
  sk_starting :: "start_message option"
  sk_startAborted :: bool
  sk_startTimer :: bool
  sk_listening :: bool
  sk_pending :: "(protocol_error \<times> nat) list"
  sk_open :: bool
  sk_closeCode :: "nat option"
  sk_sent :: "public_event list"
  sk_commands :: "session_command list"
  sk_sessionEnded :: bool

definition new_socket :: socket where
  "new_socket = \<lparr>sk_state = RAwaitingStart, sk_session = False, sk_terminalSent = False, sk_starting = None,
     sk_startAborted = False, sk_startTimer = True, sk_listening = True, sk_pending = [], sk_open = True, sk_closeCode = None,
     sk_sent = [], sk_commands = [], sk_sessionEnded = False\<rparr>"

record link =
  lk_buffered :: nat
  lk_throws :: bool

definition closeSocket :: "nat \<Rightarrow> socket \<Rightarrow> socket" where
  \<comment> \<open>a close that throws terminates the socket instead\<close>
  "closeSocket code k = (if sk_open k then k\<lparr>sk_open := False, sk_closeCode := Some code\<rparr> else k)"

definition trySend :: "link \<Rightarrow> public_event \<Rightarrow> socket \<Rightarrow> socket" where
  "trySend l e k = (if sk_open k \<and> \<not> lk_throws l then k\<lparr>sk_sent := sk_sent k @ [e]\<rparr> else k)"

definition errorFrame :: "protocol_error \<Rightarrow> public_event" where
  "errorFrame code = ErrorEvent code (retryable code)"

definition sendEvent :: "route_policy \<Rightarrow> link \<Rightarrow> public_event \<Rightarrow> socket \<Rightarrow> bool \<times> socket" where
  "sendEvent pol l e k =
     (if \<not> sk_open k then (False, k)
      else if rp_outboundBufferMaxBytes pol < lk_buffered l
      then (False, closeSocket CLOSE_unavailable
              (if lk_buffered l = 0 then trySend l (errorFrame SlowClient) k else k))
      else if rp_maxOutboundEventBytes pol < event_bytes e
      then (False, closeSocket (closeCodeForError InternalError) (trySend l (errorFrame InternalError) k))
      else if lk_throws l then (False, closeSocket CLOSE_unavailable k)
      else (True, k\<lparr>sk_sent := sk_sent k @ [e]\<rparr>))"

definition sendTerminalError :: "route_policy \<Rightarrow> link \<Rightarrow> protocol_error \<Rightarrow> socket \<Rightarrow> socket" where
  "sendTerminalError pol l code k = snd (sendEvent pol l (errorFrame code) k)"

definition abortStarting :: "socket \<Rightarrow> socket" where
  "abortStarting k = (if sk_starting k \<noteq> None then k\<lparr>sk_startAborted := True\<rparr> else k)"

definition command :: "session_command \<Rightarrow> socket \<Rightarrow> socket" where
  \<comment> \<open>to the session, if there is one\<close>
  "command cmd k = (if sk_session k then k\<lparr>sk_commands := sk_commands k @ [cmd]\<rparr> else k)"

definition shut :: "socket \<Rightarrow> socket" where
  \<comment> \<open>the three statements every terminal path of the route begins with\<close>
  "shut k = abortStarting (k\<lparr>sk_state := RClosed, sk_terminalSent := True\<rparr>)"

definition beginRouteError :: "route_policy \<Rightarrow> link \<Rightarrow> protocol_error \<Rightarrow> socket \<Rightarrow> socket" where
  "beginRouteError pol l code k =
     (if sk_terminalSent k then k
      else closeSocket (closeCodeForError code) (sendTerminalError pol l code (shut k)))"

definition terminateActive :: "route_policy \<Rightarrow> link \<Rightarrow> protocol_error \<Rightarrow> nat \<Rightarrow> socket \<Rightarrow> socket" where
  \<comment> \<open>with a session it waits for the cancel; \<open>resumeTerminate\<close> is the rest\<close>
  "terminateActive pol l code closeCode k =
     (let k' = shut k in
      if sk_session k then (command CancelCmd k')\<lparr>sk_pending := sk_pending k' @ [(code, closeCode)]\<rparr>
      else closeSocket closeCode (sendTerminalError pol l code k'))"

definition resumeTerminate :: "route_policy \<Rightarrow> link \<Rightarrow> socket \<Rightarrow> socket" where
  "resumeTerminate pol l k =
     (case sk_pending k of
        [] \<Rightarrow> k
      | (code, closeCode) # rest \<Rightarrow> closeSocket closeCode (sendTerminalError pol l code (k\<lparr>sk_pending := rest\<rparr>)))"

definition abandonUnreachableClient :: "socket \<Rightarrow> socket" where
  "abandonUnreachableClient k = command CancelCmd (shut k)"

section \<open>Events of the socket\<close>

definition startTimeout :: "route_policy \<Rightarrow> link \<Rightarrow> socket \<Rightarrow> socket" where
  "startTimeout pol l k =
     (if \<not> sk_startTimer k \<or> sk_state k \<noteq> RAwaitingStart then k
      else closeSocket CLOSE_unavailable (sendTerminalError pol l StartTimeout (shut (k\<lparr>sk_startTimer := False\<rparr>))))"

definition disconnect :: "bool \<Rightarrow> socket \<Rightarrow> socket" where
  \<comment> \<open>the close or the error event; a closed socket is not open any more\<close>
  "disconnect gone k =
     command DisconnectCmd ((shut k)\<lparr>sk_startTimer := False, sk_listening := False, sk_open := sk_open k \<and> \<not> gone\<rparr>)"

definition shutdownListener :: "route_policy \<Rightarrow> link \<Rightarrow> socket \<Rightarrow> socket" where
  "shutdownListener pol l k =
     (if \<not> sk_listening k \<or> sk_state k \<noteq> RAwaitingStart then k
      else closeSocket CLOSE_unavailable (sendTerminalError pol l ServiceRestarting
             (k\<lparr>sk_state := RClosed, sk_terminalSent := True, sk_startTimer := False\<rparr>)))"

definition handleAudio :: "route_policy \<Rightarrow> link \<Rightarrow> nat \<Rightarrow> socket \<Rightarrow> socket" where
  "handleAudio pol l byteLength k =
     (if byteLength < 2 \<or> rp_maxAudioFrameBytes pol < byteLength \<or> byteLength mod 2 \<noteq> 0
      then terminateActive pol l InvalidAudio CLOSE_policy k
      else if \<not> sk_session k then beginRouteError pol l InternalError k
      else command (SendAudio byteLength) k)"

definition handleStart :: "route_policy \<Rightarrow> link \<Rightarrow> frame \<Rightarrow> socket \<Rightarrow> socket" where
  \<comment> \<open>\<open>startSession\<close> up to the service's answer\<close>
  "handleStart pol l f k =
     (case f of
        Binary n \<Rightarrow> beginRouteError pol l InvalidAudio k
      | Text n json \<Rightarrow>
          (case parseStartFrame pol n json of
             UnsupportedStart \<Rightarrow> beginRouteError pol l UnsupportedProtocol k
           | InvalidStart \<Rightarrow> beginRouteError pol l InvalidMessage k
           | ValidStart m \<Rightarrow> k\<lparr>sk_starting := Some m\<rparr>))"

definition startAnswered :: "route_policy \<Rightarrow> link \<Rightarrow> protocol_error + unit \<Rightarrow> socket \<Rightarrow> socket" where
  \<comment> \<open>the service admitted the session or refused with a code; other exceptions are mapped to one\<close>
  "startAnswered pol l answer k =
     (if sk_starting k = None then k
      else (let k' = k\<lparr>sk_starting := None\<rparr> in
        case answer of
          Inr _ \<Rightarrow>
            if sk_state k = RClosed
            then (command DisconnectCmd (k'\<lparr>sk_session := True\<rparr>))\<lparr>sk_session := False\<rparr>
            else k'\<lparr>sk_session := True, sk_state := RStreaming\<rparr>
        | Inl code \<Rightarrow> if sk_state k = RClosed then k' else beginRouteError pol l code k'))"

definition handleControl :: "route_policy \<Rightarrow> link \<Rightarrow> control \<Rightarrow> socket \<Rightarrow> socket" where
  "handleControl pol l c k =
     (case c of
        FinishMessage \<Rightarrow> command FinishCmd (k\<lparr>sk_state := RFinishing\<rparr>)
      | CancelMessage \<Rightarrow> command CancelCmd (k\<lparr>sk_state := RClosed\<rparr>)
      | InvalidControl \<Rightarrow> terminateActive pol l InvalidMessage CLOSE_policy k)"

definition commandRejected :: "route_policy \<Rightarrow> link \<Rightarrow> socket \<Rightarrow> socket" where
  \<comment> \<open>an awaited finish or cancel threw\<close>
  "commandRejected pol l k = beginRouteError pol l ProviderUnavailable k"

definition cancelSettled :: "socket \<Rightarrow> socket" where
  "cancelSettled k = closeSocket CLOSE_normal k"

definition onMessage :: "route_policy \<Rightarrow> link \<Rightarrow> frame \<Rightarrow> socket \<Rightarrow> socket" where
  "onMessage pol l f k =
     (case sk_state k of
        RClosed \<Rightarrow> k
      | RFinishing \<Rightarrow> (case f of Binary n \<Rightarrow> terminateActive pol l InvalidAudio CLOSE_policy k | Text n json \<Rightarrow> k)
      | RStarting \<Rightarrow> beginRouteError pol l (case f of Binary n \<Rightarrow> InvalidAudio | Text n json \<Rightarrow> InvalidMessage) k
      | RAwaitingStart \<Rightarrow> handleStart pol l f (k\<lparr>sk_startTimer := False, sk_state := RStarting\<rparr>)
      | RStreaming \<Rightarrow>
          (case f of
             Binary n \<Rightarrow> handleAudio pol l n k
           | Text n json \<Rightarrow> handleControl pol l (parseControlFrame pol n json) k))"

section \<open>Callbacks of the session\<close>

definition forwardOrAbandon :: "route_policy \<Rightarrow> link \<Rightarrow> public_event \<Rightarrow> socket \<Rightarrow> socket" where
  \<comment> \<open>\<open>onReady\<close> and \<open>onTranscript\<close>\<close>
  "forwardOrAbandon pol l e k =
     (if sk_state k = RClosed then k
      else case sendEvent pol l e k of (ok, k') \<Rightarrow> if ok then k' else abandonUnreachableClient k')"

definition onTerminalEvent :: "route_policy \<Rightarrow> link \<Rightarrow> public_event \<Rightarrow> nat \<Rightarrow> socket \<Rightarrow> socket" where
  \<comment> \<open>\<open>onComplete\<close> and \<open>onError\<close>; the session has ended\<close>
  "onTerminalEvent pol l e closeCode k =
     (let k1 = k\<lparr>sk_sessionEnded := True\<rparr> in
      if sk_terminalSent k then k1
      else closeSocket closeCode (snd (sendEvent pol l e (k1\<lparr>sk_terminalSent := True, sk_state := RClosed\<rparr>))))"

definition onComplete :: "route_policy \<Rightarrow> link \<Rightarrow> finished_reason \<Rightarrow> int \<Rightarrow> socket \<Rightarrow> socket" where
  "onComplete pol l reason remaining k = onTerminalEvent pol l (Complete reason remaining) CLOSE_normal k"

definition onError :: "route_policy \<Rightarrow> link \<Rightarrow> protocol_error \<Rightarrow> socket \<Rightarrow> socket" where
  "onError pol l code k = onTerminalEvent pol l (errorFrame code) (closeCodeForError code) k"

section \<open>Steps\<close>

inductive socket_step :: "route_policy \<Rightarrow> socket \<Rightarrow> socket \<Rightarrow> bool" for pol where
  message: "socket_step pol k (onMessage pol l f k)"
| timeout: "socket_step pol k (startTimeout pol l k)"
| closed: "socket_step pol k (disconnect gone k)"
| restart: "socket_step pol k (shutdownListener pol l k)"
| answered: "socket_step pol k (startAnswered pol l answer k)"
| rejected: "sk_commands k \<noteq> [] \<Longrightarrow> last (sk_commands k) \<in> {FinishCmd, CancelCmd} \<Longrightarrow>
    socket_step pol k (commandRejected pol l k)"
| cancelled: "CancelCmd \<in> set (sk_commands k) \<Longrightarrow> socket_step pol k (cancelSettled k)"
| terminated: "socket_step pol k (resumeTerminate pol l k)"
| ready: "socket_step pol k (forwardOrAbandon pol l (Ready m n) k)"
| transcript: "socket_step pol k (forwardOrAbandon pol l (Transcript a b) k)"
| complete: "socket_step pol k (onComplete pol l reason remaining k)"
| errored: "socket_step pol k (onError pol l code k)"

definition socket_reachable :: "route_policy \<Rightarrow> socket \<Rightarrow> bool" where
  "socket_reachable pol k \<longleftrightarrow> (socket_step pol)\<^sup>*\<^sup>* new_socket k"

end
