(* ===== verification/RealtimeSocketProps.thy ===== *)
theory RealtimeSocketProps
  imports RealtimeSocket
begin

text \<open>
  What every interleaving of client frames, callbacks, deadlines and shutdown leaves
  of a connection: one terminal frame at most, with the close code that belongs to
  it, and no session or start that nobody ends.
\<close>

section \<open>Frames and close codes\<close>

fun proper_close :: "public_event \<Rightarrow> nat option \<Rightarrow> bool" where
  "proper_close (Complete reason n) code = (code = Some CLOSE_normal)"
| "proper_close (ErrorEvent c r) code = (code = Some (closeCodeForError c) \<and> r = retryable c)"
| "proper_close _ code = True"

definition sent_ok :: "socket \<Rightarrow> bool" where
  "sent_ok k \<longleftrightarrow> ended (sk_sent k) \<and> (sk_open k \<longrightarrow> list_all (\<lambda>e. \<not> is_terminal e) (sk_sent k)) \<and>
     list_all (\<lambda>e. proper_close e (sk_closeCode k)) (sk_sent k) \<and>
     list_all (\<lambda>(code, c). c = closeCodeForError code) (sk_pending k)"

lemma nonterminal_proper: "\<not> is_terminal e \<Longrightarrow> proper_close e code"
  by (cases e) simp_all

lemma nonterminal_all: "list_all (\<lambda>e. \<not> is_terminal e) es \<Longrightarrow> list_all (\<lambda>e. proper_close e code) es"
  by (auto simp: list_all_iff nonterminal_proper)

lemma ended_snoc: "list_all (\<lambda>e. \<not> is_terminal e) es \<Longrightarrow> ended (es @ [e])"
  by (simp add: ended_def)

lemma sent_ok_frame:
  "sk_sent k' = sk_sent k \<Longrightarrow> sk_open k' = sk_open k \<Longrightarrow> sk_closeCode k' = sk_closeCode k \<Longrightarrow>
   sk_pending k' = sk_pending k \<Longrightarrow> sent_ok k' = sent_ok k"
  by (simp add: sent_ok_def)

lemma sent_ok_close [simp]: "sent_ok k \<Longrightarrow> sent_ok (closeSocket c k)"
  by (auto simp: sent_ok_def closeSocket_def nonterminal_all)

lemma closeSocket_twice [simp]: "closeSocket c (closeSocket c' k) = closeSocket c' k"
  by (simp add: closeSocket_def)

lemma sendEvent_disj:
  "\<not> sk_open k \<and> sendEvent pol l e k = (False, k) \<or>
   sk_open k \<and> sendEvent pol l e k \<in> {(False, closeSocket CLOSE_unavailable k),
     (False, closeSocket CLOSE_internal (k\<lparr>sk_sent := sk_sent k @ [ErrorEvent InternalError True]\<rparr>)),
     (False, closeSocket CLOSE_internal k), (True, k\<lparr>sk_sent := sk_sent k @ [e]\<rparr>)}"
  by (simp add: sendEvent_def trySend_def errorFrame_def retryable_def)

lemma sendEvent_outcomes:
  obtains "sendEvent pol l e k = (False, k)" and "\<not> sk_open k"
    | "sendEvent pol l e k = (False, closeSocket CLOSE_unavailable k)" and "sk_open k"
    | "sendEvent pol l e k = (False, closeSocket CLOSE_internal (k\<lparr>sk_sent := sk_sent k @ [ErrorEvent InternalError True]\<rparr>))"
      and "sk_open k"
    | "sendEvent pol l e k = (False, closeSocket CLOSE_internal k)" and "sk_open k"
    | "sendEvent pol l e k = (True, k\<lparr>sk_sent := sk_sent k @ [e]\<rparr>)" and "sk_open k"
  using sendEvent_disj [of k pol l e] by blast

lemma slow_client_never_sent:
  "rp_outboundBufferMaxBytes pol < lk_buffered l \<Longrightarrow> sk_sent (snd (sendEvent pol l e k)) = sk_sent k"
  by (simp add: sendEvent_def closeSocket_def)

lemma sent_ok_internal:
  "sent_ok k \<Longrightarrow> sk_open k \<Longrightarrow>
   sent_ok (closeSocket CLOSE_internal (k\<lparr>sk_sent := sk_sent k @ [ErrorEvent InternalError True]\<rparr>))"
  by (auto simp: sent_ok_def closeSocket_def ended_snoc nonterminal_all retryable_def)

lemma sent_ok_event: "sent_ok k \<Longrightarrow> \<not> is_terminal e \<Longrightarrow> sent_ok (snd (sendEvent pol l e k))"
  by (cases pol l e k rule: sendEvent_outcomes)
    (auto simp: sent_ok_internal, auto simp: sent_ok_def ended_snoc nonterminal_proper)

lemma sent_ok_last:
  assumes "sent_ok k" and "is_terminal e" and "proper_close e (Some c)"
  shows "sent_ok (closeSocket c (snd (sendEvent pol l e k)))"
proof (cases pol l e k rule: sendEvent_outcomes)
  case 5
  have "sk_open k" using 5 by simp
  with assms have "sent_ok (closeSocket c (k\<lparr>sk_sent := sk_sent k @ [e]\<rparr>))"
    by (auto simp: sent_ok_def closeSocket_def ended_snoc nonterminal_all)
  with 5 show ?thesis by simp
qed (use assms(1) in \<open>simp_all add: sent_ok_internal\<close>)

lemma sent_ok_error: "sent_ok k \<Longrightarrow> sent_ok (closeSocket (closeCodeForError code) (sendTerminalError pol l code k))"
  unfolding sendTerminalError_def by (rule sent_ok_last) (simp_all add: errorFrame_def)

lemma sent_ok_shut [simp]: "sent_ok (shut k) = sent_ok k"
  by (rule sent_ok_frame) (simp_all add: shut_def abortStarting_def)

lemma sent_ok_command [simp]: "sent_ok (command cmd k) = sent_ok k"
  by (rule sent_ok_frame) (simp_all add: command_def)

lemma sent_ok_route: "sent_ok k \<Longrightarrow> sent_ok (beginRouteError pol l code k)"
  by (simp add: beginRouteError_def sent_ok_error)

lemma sent_ok_terminate:
  assumes "sent_ok k" and "c = closeCodeForError code"
  shows "sent_ok (terminateActive pol l code c k)"
proof (cases "sk_session k")
  case True
  have "sent_ok ((command CancelCmd (shut k))\<lparr>sk_pending := sk_pending (shut k) @ [(code, c)]\<rparr>)"
    using assms by (simp add: sent_ok_def command_def shut_def abortStarting_def)
  with True show ?thesis by (simp add: terminateActive_def Let_def)
next
  case False
  with assms show ?thesis by (simp add: terminateActive_def Let_def sent_ok_error)
qed

lemma sent_ok_message: "sent_ok k \<Longrightarrow> sent_ok (onMessage pol l f k)"
proof -
  assume k: "sent_ok k"
  have same: "sent_ok (k\<lparr>sk_startTimer := False, sk_state := RStarting\<rparr>)" "sent_ok (k\<lparr>sk_state := s\<rparr>)"
    "sent_ok (k\<lparr>sk_startTimer := False, sk_state := RStarting, sk_starting := Some m\<rparr>)" for s m
    using k by (simp_all add: sent_ok_def)
  show ?thesis
    using k same
    by (auto simp: onMessage_def handleStart_def handleAudio_def handleControl_def
        intro!: sent_ok_route sent_ok_terminate split: route_state.split frame.split start_result.split control.split)
qed

lemma sent_ok_step: "socket_step pol k k' \<Longrightarrow> sent_ok k \<Longrightarrow> sent_ok k'"
proof (induction rule: socket_step.induct)
  case (message k l f)
  then show ?case by (rule sent_ok_message)
next
  case (timeout k l)
  have "sent_ok (k\<lparr>sk_startTimer := False\<rparr>)" using timeout by (simp add: sent_ok_def)
  with timeout sent_ok_error [of "shut (k\<lparr>sk_startTimer := False\<rparr>)" StartTimeout] show ?case
    by (simp add: startTimeout_def)
next
  case (closed k c)
  then show ?case
    by (simp add: disconnect_def) (simp add: sent_ok_def shut_def abortStarting_def)
next
  case (restart k l)
  have "sent_ok (k\<lparr>sk_state := RClosed, sk_terminalSent := True, sk_startTimer := False\<rparr>)"
    using restart by (simp add: sent_ok_def)
  with restart sent_ok_error [OF this, of ServiceRestarting] show ?case by (simp add: shutdownListener_def)
next
  case (answered k l answer)
  have "sent_ok (k\<lparr>sk_starting := None\<rparr>)" "sent_ok (k\<lparr>sk_starting := None, sk_session := True, sk_state := RStreaming\<rparr>)"
    "sent_ok (k\<lparr>sk_starting := None, sk_session := True\<rparr>)"
    using answered by (simp_all add: sent_ok_def)
  moreover have "sent_ok (x\<lparr>sk_session := False\<rparr>) = sent_ok x" for x by (simp add: sent_ok_def)
  ultimately show ?case using answered
    by (auto simp: startAnswered_def Let_def intro!: sent_ok_route split: sum.split)
next
  case (terminated k l)
  then show ?case
  proof (cases "sk_pending k")
    case (Cons x rest)
    obtain code c where x: "x = (code, c)" by fastforce
    have "c = closeCodeForError code" "sent_ok (k\<lparr>sk_pending := rest\<rparr>)"
      using terminated Cons x by (simp_all add: sent_ok_def)
    with Cons x show ?thesis by (simp add: resumeTerminate_def sent_ok_error)
  qed (simp add: resumeTerminate_def)
next
  case (ready k l m n)
  then show ?case
    using sent_ok_event [OF ready, of "Ready m n" pol l]
    by (auto simp: forwardOrAbandon_def abandonUnreachableClient_def split: prod.split)
next
  case (transcript k l a b)
  then show ?case
    using sent_ok_event [OF transcript, of "Transcript a b" pol l]
    by (auto simp: forwardOrAbandon_def abandonUnreachableClient_def split: prod.split)
next
  case (complete k l reason remaining)
  have "sent_ok (k\<lparr>sk_sessionEnded := True\<rparr>)"
    "sent_ok (k\<lparr>sk_sessionEnded := True, sk_terminalSent := True, sk_state := RClosed\<rparr>)"
    using complete by (simp_all add: sent_ok_def)
  then show ?case by (auto simp: onComplete_def onTerminalEvent_def Let_def intro!: sent_ok_last)
next
  case (errored k l code)
  have "sent_ok (k\<lparr>sk_sessionEnded := True\<rparr>)"
    "sent_ok (k\<lparr>sk_sessionEnded := True, sk_terminalSent := True, sk_state := RClosed\<rparr>)"
    using errored by (simp_all add: sent_ok_def)
  then show ?case by (auto simp: onError_def onTerminalEvent_def Let_def errorFrame_def intro!: sent_ok_last)
qed (simp_all add: commandRejected_def cancelSettled_def sent_ok_route)

section \<open>Nothing is left running\<close>

definition stops :: "session_command \<Rightarrow> bool" where
  "stops cmd \<longleftrightarrow> cmd \<in> {FinishCmd, CancelCmd, DisconnectCmd}"

definition ended_or_stopped :: "socket \<Rightarrow> bool" where
  "ended_or_stopped k \<longleftrightarrow> sk_sessionEnded k \<or> list_ex stops (sk_commands k)"

definition tidy :: "socket \<Rightarrow> bool" where
  "tidy k \<longleftrightarrow>
     (sk_session k \<longrightarrow> sk_starting k = None \<and> sk_state k \<notin> {RAwaitingStart, RStarting}) \<and>
     (sk_state k = RStreaming \<longrightarrow> sk_session k) \<and>
     (sk_state k = RAwaitingStart \<longrightarrow> sk_starting k = None) \<and>
     (sk_session k \<and> sk_state k \<in> {RClosed, RFinishing} \<longrightarrow> ended_or_stopped k) \<and>
     (sk_state k = RClosed \<and> sk_starting k \<noteq> None \<longrightarrow> sk_startAborted k \<or> sk_sessionEnded k)"

lemma tidy_frame:
  "sk_session k' = sk_session k \<Longrightarrow> sk_starting k' = sk_starting k \<Longrightarrow> sk_state k' = sk_state k \<Longrightarrow>
   sk_commands k' = sk_commands k \<Longrightarrow> sk_startAborted k' = sk_startAborted k \<Longrightarrow>
   sk_sessionEnded k' = sk_sessionEnded k \<Longrightarrow> tidy k' = tidy k"
  by (simp add: tidy_def ended_or_stopped_def)

lemma tidy_close [simp]: "tidy (closeSocket c k) = tidy k"
  by (rule tidy_frame) (simp_all add: closeSocket_def)

lemma tidy_sent [simp]: "tidy (k\<lparr>sk_sent := es\<rparr>) = tidy k"
  by (rule tidy_frame) simp_all

lemma tidy_send [simp]: "tidy (snd (sendEvent pol l e k)) = tidy k"
  by (cases pol l e k rule: sendEvent_outcomes) simp_all

lemma tidy_error [simp]: "tidy (sendTerminalError pol l code k) = tidy k"
  by (simp add: sendTerminalError_def)

lemma tidy_stop: "tidy k \<Longrightarrow> stops cmd \<Longrightarrow> tidy (command cmd (shut k))"
  by (auto simp: tidy_def command_def shut_def abortStarting_def ended_or_stopped_def)

lemma tidy_shut: "tidy k \<Longrightarrow> \<not> sk_session k \<or> ended_or_stopped k \<Longrightarrow> tidy (shut k)"
  by (auto simp: tidy_def shut_def abortStarting_def ended_or_stopped_def)

lemma tidy_route: "tidy k \<Longrightarrow> \<not> sk_session k \<or> ended_or_stopped k \<Longrightarrow> tidy (beginRouteError pol l code k)"
  by (simp add: beginRouteError_def tidy_shut)

lemma tidy_terminate:
  assumes "tidy k"
  shows "tidy (terminateActive pol l code c k)"
proof (cases "sk_session k")
  case True
  have "tidy (x\<lparr>sk_pending := ps\<rparr>) = tidy x" for x ps by (rule tidy_frame) simp_all
  then show ?thesis using True tidy_stop [OF assms, of CancelCmd] by (simp add: terminateActive_def Let_def stops_def)
qed (use assms tidy_shut in \<open>simp add: terminateActive_def Let_def\<close>)

lemma tidy_forward:
  assumes "tidy k"
  shows "tidy (forwardOrAbandon pol l e k)"
proof -
  obtain ok k' where s: "sendEvent pol l e k = (ok, k')" by fastforce
  have "tidy k'" using assms tidy_send [of pol l e k] by (simp add: s)
  then show ?thesis
    using assms s tidy_stop [of k' CancelCmd] by (simp add: forwardOrAbandon_def abandonUnreachableClient_def stops_def)
qed

lemma tidy_message:
  assumes "tidy k"
  shows "tidy (onMessage pol l f k)"
proof (cases "sk_state k")
  case RAwaitingStart
  then have "\<not> sk_session k" "sk_starting k = None" using assms by (auto simp: tidy_def)
  then have "tidy (k\<lparr>sk_startTimer := False, sk_state := RStarting\<rparr>)"
    "tidy (k\<lparr>sk_startTimer := False, sk_state := RStarting, sk_starting := Some m\<rparr>)" for m
    by (simp_all add: tidy_def)
  with RAwaitingStart \<open>\<not> sk_session k\<close> show ?thesis
    by (auto simp: onMessage_def handleStart_def intro!: tidy_route split: frame.split start_result.split)
next
  case RStarting
  then have "\<not> sk_session k" using assms by (auto simp: tidy_def)
  with RStarting assms show ?thesis by (auto simp: onMessage_def intro!: tidy_route)
next
  case RStreaming
  then have s: "sk_session k" "sk_starting k = None" using assms by (auto simp: tidy_def)
  then have "tidy (command (SendAudio n) k)" "tidy (command FinishCmd (k\<lparr>sk_state := RFinishing\<rparr>))"
    "tidy (command CancelCmd (k\<lparr>sk_state := RClosed\<rparr>))" for n
    using RStreaming by (simp_all add: tidy_def command_def ended_or_stopped_def stops_def)
  with RStreaming s assms show ?thesis
    by (auto simp: onMessage_def handleAudio_def handleControl_def intro!: tidy_terminate split: frame.split control.split)
next
  case RFinishing
  then show ?thesis using assms by (auto simp: onMessage_def intro!: tidy_terminate split: frame.split)
next
  case RClosed
  then show ?thesis using assms by (simp add: onMessage_def)
qed

lemma tidy_step: "socket_step pol k k' \<Longrightarrow> tidy k \<Longrightarrow> tidy k'"
proof (induction rule: socket_step.induct)
  case (message k l f)
  then show ?case by (rule tidy_message)
next
  case (timeout k l)
  have "tidy (k\<lparr>sk_startTimer := False\<rparr>) = tidy k" by (rule tidy_frame) simp_all
  moreover have "sk_state k = RAwaitingStart \<Longrightarrow> \<not> sk_session k" using timeout by (auto simp: tidy_def)
  ultimately show ?case using timeout by (auto simp: startTimeout_def intro!: tidy_shut)
next
  case (closed k c)
  have "tidy (command DisconnectCmd (shut k))" using closed by (rule tidy_stop) (simp add: stops_def)
  moreover have "tidy (disconnect c k) = tidy (command DisconnectCmd (shut k))"
    by (rule tidy_frame) (simp_all add: disconnect_def command_def)
  ultimately show ?case by simp
next
  case (restart k l)
  have "sk_state k = RAwaitingStart \<Longrightarrow> tidy (k\<lparr>sk_state := RClosed, sk_terminalSent := True, sk_startTimer := False\<rparr>)"
    using restart by (auto simp: tidy_def)
  with restart show ?case by (simp add: shutdownListener_def)
next
  case (answered k l answer)
  show ?case
  proof (cases "sk_starting k")
    case None
    then show ?thesis using answered by (simp add: startAnswered_def)
  next
    case (Some m)
    then have n: "\<not> sk_session k" using answered by (auto simp: tidy_def)
    then have "tidy (k\<lparr>sk_starting := None\<rparr>)" "sk_state k \<noteq> RStreaming" using answered by (auto simp: tidy_def)
    moreover have "tidy (k\<lparr>sk_starting := None, sk_session := True, sk_state := RStreaming\<rparr>)" by (simp add: tidy_def)
    moreover have "sk_state k = RClosed \<Longrightarrow>
        tidy ((command DisconnectCmd (k\<lparr>sk_starting := None, sk_session := True\<rparr>))\<lparr>sk_session := False\<rparr>)"
      by (simp add: tidy_def command_def)
    ultimately show ?thesis
      using answered Some n by (auto simp: startAnswered_def Let_def intro!: tidy_route split: sum.split)
  qed
next
  case (rejected k l)
  then have "stops (last (sk_commands k))" "last (sk_commands k) \<in> set (sk_commands k)"
    by (auto simp: stops_def)
  then have "list_ex stops (sk_commands k)" by (auto simp: list_ex_iff)
  with rejected show ?case by (auto simp: commandRejected_def ended_or_stopped_def intro!: tidy_route)
next
  case (terminated k l)
  have "tidy (k\<lparr>sk_pending := ps\<rparr>) = tidy k" for ps by (rule tidy_frame) simp_all
  with terminated show ?case by (auto simp: resumeTerminate_def split: list.split)
next
  case (ready k l m n)
  then show ?case by (rule tidy_forward)
next
  case (transcript k l a b)
  then show ?case by (rule tidy_forward)
next
  case (complete k l reason remaining)
  have "tidy (k\<lparr>sk_sessionEnded := True\<rparr>)"
    "tidy (k\<lparr>sk_sessionEnded := True, sk_terminalSent := True, sk_state := RClosed\<rparr>)"
    using complete by (auto simp: tidy_def ended_or_stopped_def)
  then show ?case by (simp add: onComplete_def onTerminalEvent_def Let_def)
next
  case (errored k l code)
  have "tidy (k\<lparr>sk_sessionEnded := True\<rparr>)"
    "tidy (k\<lparr>sk_sessionEnded := True, sk_terminalSent := True, sk_state := RClosed\<rparr>)"
    using errored by (auto simp: tidy_def ended_or_stopped_def)
  then show ?case by (simp add: onError_def onTerminalEvent_def Let_def)
qed (simp_all add: cancelSettled_def)

lemma socket_invariants:
  assumes "socket_reachable pol k"
  shows "sent_ok k \<and> tidy k"
  using assms unfolding socket_reachable_def
proof (induction rule: rtranclp_induct)
  case base
  show ?case by (simp add: new_socket_def sent_ok_def ended_def tidy_def)
next
  case (step k k')
  then show ?case using sent_ok_step tidy_step by blast
qed

section \<open>The properties\<close>

text \<open>C19: A connection receives at most one terminal frame, nothing after it, and the socket is then
  closed with the code that belongs to it: 1000 for a completion, the code of the error for an
  error, whose retryable flag is the protocol's.\<close>
theorem socket_one_terminal_frame:
  assumes "socket_reachable pol k"
  shows "ended (sk_sent k) \<and> list_all (\<lambda>e. proper_close e (sk_closeCode k)) (sk_sent k)"
  using socket_invariants [OF assms] by (simp add: sent_ok_def)

text \<open>C20: A closed connection leaves nothing behind: its session has ended or was told to finish,
  cancel or disconnect, and a start still in flight was aborted, so no provider session keeps
  streaming for a client that is gone.\<close>
theorem socket_leaves_no_session:
  assumes "socket_reachable pol k" and "sk_state k = RClosed"
  shows "(\<not> sk_session k \<or> ended_or_stopped k) \<and> (sk_starting k = None \<or> sk_startAborted k \<or> sk_sessionEnded k)"
  using socket_invariants [OF assms(1)] assms(2) by (auto simp: tidy_def)

definition demo_route :: route_policy where
  "demo_route = \<lparr>rp_maxTextFrameBytes = 2048, rp_maxAudioFrameBytes = 65536, rp_maxOutboundEventBytes = 65536,
     rp_outboundBufferMaxBytes = 1048576\<rparr>"

definition demo_link :: link where
  "demo_link = \<lparr>lk_buffered = 0, lk_throws = False\<rparr>"

lemma demo_junk_frame:
  "onMessage demo_route demo_link (Binary 3) new_socket =
     new_socket\<lparr>sk_startTimer := False, sk_state := RClosed, sk_terminalSent := True, sk_open := False,
       sk_closeCode := Some 1008, sk_sent := [ErrorEvent InvalidAudio False]\<rparr>"
  by (simp add: onMessage_def new_socket_def handleStart_def beginRouteError_def shut_def abortStarting_def
      sendTerminalError_def sendEvent_def demo_link_def demo_route_def errorFrame_def retryable_def object_length_def
      closeSocket_def CLOSE_policy_def)

lemma demo_junk_reachable: "socket_reachable demo_route (onMessage demo_route demo_link (Binary 3) new_socket)"
  unfolding socket_reachable_def by (rule r_into_rtranclp, rule socket_step.message)

theorem socket_one_terminal_frame_witness:
  "list_all (\<lambda>e. proper_close e (Some 1008)) [ErrorEvent InvalidAudio False] \<and> ended [ErrorEvent InvalidAudio False]"
  using socket_one_terminal_frame [OF demo_junk_reachable] by (simp only: demo_junk_frame) simp

definition demo_start :: jvalue where
  "demo_start = JObj [(''type'', JStr ''start''), (''protocolVersion'', JNum 1), (''projectKey'', JNull),
     (''audio'', JObj [(''encoding'', JStr ''pcm_s16le''), (''sampleRate'', JNum 16000), (''channels'', JNum 1)])]"

definition demo_gone :: socket where
  \<comment> \<open>a client that starts a session and disappears\<close>
  "demo_gone = disconnect True (startAnswered demo_route demo_link (Inr ())
     (onMessage demo_route demo_link (Text 60 (Some demo_start)) new_socket))"

lemma demo_gone_eq:
  "demo_gone = new_socket\<lparr>sk_startTimer := False, sk_state := RClosed, sk_session := True, sk_terminalSent := True,
     sk_listening := False, sk_open := False, sk_commands := [DisconnectCmd]\<rparr>"
  by (simp add: demo_gone_def onMessage_def new_socket_def handleStart_def parseStartFrame_def demo_route_def demo_start_def
      isUnsupportedStartProtocol_def realtimeStartMessageSchema_def realtimeAudioFormatSchema_def strict_keys_def member_def
      sample_rate_of_def startAnswered_def disconnect_def shut_def abortStarting_def command_def Let_def)

lemma demo_gone_reachable: "socket_reachable demo_route demo_gone"
  unfolding socket_reachable_def demo_gone_def
  by (rule rtranclp.rtrancl_into_rtrancl [rotated], rule socket_step.closed,
      rule rtranclp.rtrancl_into_rtrancl [rotated], rule socket_step.answered, rule r_into_rtranclp, rule socket_step.message)

lemma demo_gone_sel: "sk_state demo_gone = RClosed" "sk_session demo_gone"
  by (simp_all add: demo_gone_eq)

theorem socket_leaves_no_session_witness: "sk_session demo_gone \<and> ended_or_stopped demo_gone"
  using socket_leaves_no_session [OF demo_gone_reachable demo_gone_sel(1)] demo_gone_sel(2) by blast

end
