(* ===== verification/OptionalEmailSends.thy ===== *)
theory OptionalEmailSends
  imports Documents Errors
begin

text \<open>
  The ledger of optional emails, \<open>src/repositories/optional-email-send-repo.ts\<close>
  with the constants of \<open>src/types/optional-email.ts\<close>: one document per send
  key.  A worker reserves the key and holds a lease; it marks the document in
  flight before it calls the provider and records the outcome after it.  The
  repository never writes null, so an optional field is an \<open>option\<close>.  A fresh
  ObjectId is an argument, a \<open>Date\<close> is \<open>None\<close> when it is invalid.  \<open>reserve\<close>
  awaits up to four times; \<open>env 0\<close>, \<open>env 1\<close>, \<open>env 2\<close> are what other workers do
  to the collection between its queries.
\<close>

section \<open>The document\<close>

datatype reminder = BridgeSetup | FirstSession

datatype send_status = Reserved | InFlight | Accepted | Failed | Blocked | DeferredDailyLimit

datatype send_block_reason =
  SendingDisabled | RecipientBasisUnapproved | RecipientSafetyUnverified | MissingUser | MissingRecipient
| AmbiguousRecipient | MilestoneCompleted | PrerequisiteIncomplete | UnsubscribedBlock | SuppressedBlock
| TestSendingDisabled | TestRecipientNotAllowed | RetryWindowExpired

datatype deferral_reason = DailyLimit

record email_send =
  os_id :: string
  os_sendKey :: string
  os_userId :: string
  os_campaignId :: string
  os_reminderKind :: reminder
  os_status :: send_status
  os_activeLeaseId :: "string option"
  os_attemptCount :: nat
  os_firstProviderAttemptAt :: "millis option"
  os_lastProviderAttemptAt :: "millis option"
  os_providerEmailId :: "string option"
  os_acceptedAt :: "millis option"
  os_lastFailureCode :: "string option"
  os_lastBlockReason :: "send_block_reason option"
  os_lastDeferralReason :: "deferral_reason option"
  os_createdAt :: millis
  os_updatedAt :: millis

definition RESERVATION_LEASE_MS :: millis where
  "RESERVATION_LEASE_MS = 5 * 60 * 1000"

definition IDEMPOTENCY_SAFETY_WINDOW_MS :: millis where
  "IDEMPOTENCY_SAFETY_WINDOW_MS = 23 * 60 * 60 * 1000"

lemmas send_windows = RESERVATION_LEASE_MS_def IDEMPOTENCY_SAFETY_WINDOW_MS_def

section \<open>Reserving\<close>

record reservation_input =
  ri_sendKey :: string
  ri_userId :: string
  ri_campaignId :: string
  ri_reminderKind :: reminder
  ri_at :: "millis option"

definition sendKey_ok :: "string \<Rightarrow> bool" where
  "sendKey_ok k \<longleftrightarrow> k \<noteq> [] \<and> length k \<le> 256"

definition validate_reservation :: "(string \<Rightarrow> string option) \<Rightarrow> reservation_input \<Rightarrow> (string \<times> millis) option" where
  \<comment> \<open>the parsed user id and the instant, \<open>None\<close> is the exception\<close>
  "validate_reservation oid i =
     (if sendKey_ok (ri_sendKey i) \<and> 1 \<le> length (ri_campaignId i) \<and> length (ri_campaignId i) \<le> 64 \<and>
         list_all key_char (ri_campaignId i)
      then (case (oid (ri_userId i), ri_at i) of (Some u, Some at) \<Rightarrow> Some (u, at) | _ \<Rightarrow> None)
      else None)"

definition new_send :: "string \<Rightarrow> string \<Rightarrow> reservation_input \<Rightarrow> string \<Rightarrow> millis \<Rightarrow> email_send" where
  "new_send i lease inp u at =
     \<lparr>os_id = i, os_sendKey = ri_sendKey inp, os_userId = u, os_campaignId = ri_campaignId inp,
      os_reminderKind = ri_reminderKind inp, os_status = Reserved, os_activeLeaseId = Some lease, os_attemptCount = 0,
      os_firstProviderAttemptAt = None, os_lastProviderAttemptAt = None, os_providerEmailId = None, os_acceptedAt = None,
      os_lastFailureCode = None, os_lastBlockReason = None, os_lastDeferralReason = None, os_createdAt = at,
      os_updatedAt = at\<rparr>"

definition providerRetryExpired :: "email_send \<Rightarrow> millis \<Rightarrow> bool" where
  "providerRetryExpired d at =
     (case os_firstProviderAttemptAt d of
        None \<Rightarrow> False
      | Some f \<Rightarrow> at - f < 0 \<or> IDEMPOTENCY_SAFETY_WINDOW_MS < at - f)"

definition findBySendKey :: "string \<Rightarrow> email_send list \<Rightarrow> email_send option" where
  "findBySendKey k c = (if sendKey_ok k then findOne (\<lambda>d. os_sendKey d = k) c else None)"

definition lease_running :: "email_send \<Rightarrow> millis \<Rightarrow> bool" where
  "lease_running d at \<longleftrightarrow> (let age = at - os_updatedAt d in age < 0 \<or> age \<le> RESERVATION_LEASE_MS)"

fun retry_refused :: "email_send \<Rightarrow> millis \<Rightarrow> bool" where
  \<comment> \<open>the tests before the compare-and-set, per status\<close>
  "retry_refused d at =
     (case os_status d of
        InFlight \<Rightarrow> os_firstProviderAttemptAt d = None \<or> providerRetryExpired d at
      | Failed \<Rightarrow> os_firstProviderAttemptAt d = None \<or> providerRetryExpired d at
      | _ \<Rightarrow> providerRetryExpired d at)"

definition reclaim_filter :: "email_send \<Rightarrow> email_send \<Rightarrow> bool" where
  \<comment> \<open>the compare-and-set against the document \<open>existing\<close> read before\<close>
  "reclaim_filter existing d \<longleftrightarrow>
     os_id d = os_id existing \<and> os_status d = os_status existing \<and>
     (os_status existing \<in> {Reserved, InFlight} \<longrightarrow> os_updatedAt d = os_updatedAt existing)"

definition reclaim_send :: "string \<Rightarrow> millis \<Rightarrow> email_send \<Rightarrow> email_send" where
  "reclaim_send lease at d = d\<lparr>os_status := Reserved, os_activeLeaseId := Some lease, os_updatedAt := at\<rparr>"

datatype reservation =
  ReservedSend email_send string
| Duplicate email_send
| RetryExpired email_send

definition reclaim ::
  "(nat \<Rightarrow> email_send list \<Rightarrow> email_send list) \<Rightarrow> string \<Rightarrow> string \<Rightarrow> millis \<Rightarrow> email_send \<Rightarrow> email_send list
   \<Rightarrow> (api_error + reservation) \<times> email_send list" where
  "reclaim env lease k at existing c =
     (case findOneAndUpdate (reclaim_filter existing) (reclaim_send lease at) (env 1 c) of
        (Some (_, d), c') \<Rightarrow> (Inr (ReservedSend d lease), c')
      | (None, c') \<Rightarrow>
          (let c'' = env 2 c' in
           case findBySendKey k c'' of
             None \<Rightarrow> (Inl InternalServerError, c'')
           | Some raced \<Rightarrow> (Inr (Duplicate raced), c'')))"

definition reserve_existing ::
  "(nat \<Rightarrow> email_send list \<Rightarrow> email_send list) \<Rightarrow> string \<Rightarrow> string \<Rightarrow> millis \<Rightarrow> email_send \<Rightarrow> email_send list
   \<Rightarrow> (api_error + reservation) \<times> email_send list" where
  "reserve_existing env lease k at existing c =
     (if os_status existing \<in> {Accepted, Blocked} then (Inr (Duplicate existing), c)
      else if os_status existing \<in> {Reserved, InFlight} \<and> lease_running existing at
      then (Inr (Duplicate existing), c)
      else if retry_refused existing at then (Inr (RetryExpired existing), c)
      else reclaim env lease k at existing c)"

definition reserve_send ::
  "(string \<Rightarrow> string option) \<Rightarrow> (nat \<Rightarrow> email_send list \<Rightarrow> email_send list) \<Rightarrow> string \<Rightarrow> string \<Rightarrow> string
   \<Rightarrow> reservation_input \<Rightarrow> email_send list \<Rightarrow> (api_error + reservation) \<times> email_send list" where
  \<comment> \<open>\<open>reserve\<close>; \<open>i\<close>, \<open>lease\<close> and \<open>lease'\<close> are the ObjectIds it may generate\<close>
  "reserve_send oid env i lease lease' inp c =
     (case validate_reservation oid inp of
        None \<Rightarrow> (Inl InternalServerError, c)
      | Some (u, at) \<Rightarrow>
          (case insertOne os_sendKey (new_send i lease inp u at) c of
             Some c' \<Rightarrow> (Inr (ReservedSend (new_send i lease inp u at) lease), c')
           | None \<Rightarrow>
               (let c1 = env 0 c in
                case findBySendKey (ri_sendKey inp) c1 of
                  None \<Rightarrow> (Inl InternalServerError, c1)
                | Some existing \<Rightarrow>
                    if os_userId existing \<noteq> u \<or> os_campaignId existing \<noteq> ri_campaignId inp \<or>
                       os_reminderKind existing \<noteq> ri_reminderKind inp
                    then (Inl InternalServerError, c1)
                    else reserve_existing env lease' (ri_sendKey inp) at existing c1)))"

section \<open>Outcomes\<close>

definition guarded :: "('d \<Rightarrow> bool) \<Rightarrow> ('d \<Rightarrow> 'd) \<Rightarrow> 'd list \<Rightarrow> bool \<times> 'd list" where
  \<comment> \<open>\<open>updateOne\<close> and \<open>modifiedCount === 1\<close>, for an update that changes what it matches\<close>
  "guarded p f c = (findOne p c \<noteq> None, updateFirst p f c)"

definition holds_lease :: "send_status \<Rightarrow> string \<Rightarrow> string \<Rightarrow> email_send \<Rightarrow> bool" where
  "holds_lease st k lease d \<longleftrightarrow> os_sendKey d = k \<and> os_status d = st \<and> os_activeLeaseId d = Some lease"

definition in_flight_filter :: "string \<Rightarrow> string \<Rightarrow> millis \<Rightarrow> email_send \<Rightarrow> bool" where
  "in_flight_filter k lease at d \<longleftrightarrow>
     holds_lease Reserved k lease d \<and> at - RESERVATION_LEASE_MS \<le> os_updatedAt d \<and> os_updatedAt d \<le> at \<and>
     (case os_firstProviderAttemptAt d of
        None \<Rightarrow> True
      | Some f \<Rightarrow> at - IDEMPOTENCY_SAFETY_WINDOW_MS \<le> f \<and> f \<le> at)"

definition put_in_flight :: "millis \<Rightarrow> email_send \<Rightarrow> email_send" where
  "put_in_flight at d =
     d\<lparr>os_status := InFlight,
       os_firstProviderAttemptAt := (case os_firstProviderAttemptAt d of None \<Rightarrow> Some at | Some f \<Rightarrow> Some f),
       os_lastProviderAttemptAt := Some at, os_updatedAt := at, os_attemptCount := os_attemptCount d + 1\<rparr>"

definition markInFlight ::
  "(string \<Rightarrow> string option) \<Rightarrow> string \<Rightarrow> string \<Rightarrow> millis option \<Rightarrow> email_send list \<Rightarrow> bool \<times> email_send list" where
  "markInFlight oid k leaseId date c =
     (case (sendKey_ok k, oid leaseId, date) of
        (True, Some l, Some at) \<Rightarrow> guarded (in_flight_filter k l at) (put_in_flight at) c
      | _ \<Rightarrow> (False, c))"

definition put_accepted :: "string \<Rightarrow> millis \<Rightarrow> email_send \<Rightarrow> email_send" where
  "put_accepted e at d =
     d\<lparr>os_status := Accepted, os_providerEmailId := Some e, os_acceptedAt := Some at, os_updatedAt := at,
       os_activeLeaseId := None\<rparr>"

definition markAccepted ::
  "(string \<Rightarrow> string option) \<Rightarrow> string \<Rightarrow> string \<Rightarrow> string \<Rightarrow> millis option \<Rightarrow> email_send list
   \<Rightarrow> (unit + bool) \<times> email_send list" where
  \<comment> \<open>\<open>Inl\<close> is the exception of the unique index on the provider's email id\<close>
  "markAccepted oid k leaseId e date c =
     (case (sendKey_ok k \<and> e \<noteq> [] \<and> length e \<le> 256, oid leaseId, date) of
        (True, Some l, Some at) \<Rightarrow>
          (case findOne (holds_lease InFlight k l) c of
             None \<Rightarrow> (Inr False, c)
           | Some d \<Rightarrow>
               if \<exists>x \<in> set c. os_providerEmailId x = Some e \<and> os_sendKey x \<noteq> k then (Inl (), c)
               else (Inr True, updateFirst (holds_lease InFlight k l) (put_accepted e at) c))
      | _ \<Rightarrow> (Inr False, c))"

definition failure_code_char :: "char \<Rightarrow> bool" where
  "failure_code_char ch = (let n = (of_char ch :: nat) in (97 \<le> n \<and> n \<le> 122) \<or> (48 \<le> n \<and> n \<le> 57) \<or> n = 95)"

definition put_failed :: "string \<Rightarrow> millis \<Rightarrow> email_send \<Rightarrow> email_send" where
  "put_failed code at d =
     d\<lparr>os_status := Failed, os_lastFailureCode := Some code, os_updatedAt := at, os_activeLeaseId := None\<rparr>"

definition markFailed ::
  "(string \<Rightarrow> string option) \<Rightarrow> string \<Rightarrow> string \<Rightarrow> string \<Rightarrow> millis option \<Rightarrow> email_send list \<Rightarrow> bool \<times> email_send list" where
  "markFailed oid k leaseId code date c =
     (case (sendKey_ok k \<and> 1 \<le> length code \<and> length code \<le> 64 \<and> list_all failure_code_char code, oid leaseId, date) of
        (True, Some l, Some at) \<Rightarrow> guarded (holds_lease InFlight k l) (put_failed code at) c
      | _ \<Rightarrow> (False, c))"

definition put_blocked :: "send_block_reason \<Rightarrow> millis \<Rightarrow> email_send \<Rightarrow> email_send" where
  "put_blocked r at d =
     d\<lparr>os_status := Blocked, os_lastBlockReason := Some r, os_updatedAt := at, os_activeLeaseId := None\<rparr>"

definition markBlocked ::
  "(string \<Rightarrow> string option) \<Rightarrow> string \<Rightarrow> string \<Rightarrow> send_block_reason \<Rightarrow> millis option \<Rightarrow> email_send list
   \<Rightarrow> bool \<times> email_send list" where
  "markBlocked oid k leaseId r date c =
     (case (sendKey_ok k, oid leaseId, date) of
        (True, Some l, Some at) \<Rightarrow> guarded (holds_lease Reserved k l) (put_blocked r at) c
      | _ \<Rightarrow> (False, c))"

definition put_deferred :: "millis \<Rightarrow> email_send \<Rightarrow> email_send" where
  "put_deferred at d =
     d\<lparr>os_status := DeferredDailyLimit, os_lastDeferralReason := Some DailyLimit, os_updatedAt := at,
       os_activeLeaseId := None\<rparr>"

definition markDeferredForDailyLimit ::
  "(string \<Rightarrow> string option) \<Rightarrow> string \<Rightarrow> string \<Rightarrow> millis option \<Rightarrow> email_send list \<Rightarrow> bool \<times> email_send list" where
  "markDeferredForDailyLimit oid k leaseId date c =
     (case (sendKey_ok k, oid leaseId, date) of
        (True, Some l, Some at) \<Rightarrow> guarded (holds_lease Reserved k l) (put_deferred at) c
      | _ \<Rightarrow> (False, c))"

definition findUserIdByProviderEmailId :: "string \<Rightarrow> email_send list \<Rightarrow> string option" where
  "findUserIdByProviderEmailId e c =
     (if e = [] \<or> 256 < length e then None
      else map_option os_userId (findOne (\<lambda>d. os_providerEmailId d = Some e \<and> os_status d = Accepted) c))"

end
