(* ===== verification/OptionalEmailRepos.thy ===== *)
theory OptionalEmailRepos
  imports OptionalEmailSends Auth "HOL-Library.Product_Lexorder"
begin

text \<open>
  The smaller collections of optional email: the daily quota
  (\<open>optional-email-daily-quota-repo.ts\<close>), the opt-out preference
  (\<open>optional-email-preference-repo.ts\<close>), the processed webhook events
  (\<open>optional-email-webhook-event-repo.ts\<close>) and the resolution of a recipient
  from the identities of one user (\<open>optional-email-recipient-repo.ts\<close>).  An
  upsert that loses the race for the unique index is told by \<open>rival\<close>, the
  document another request inserted meanwhile.
\<close>

section \<open>The daily quota\<close>

record daily_quota =
  dq_date :: int
  dq_used :: int
  dq_createdAt :: millis
  dq_updatedAt :: millis

record quota_usage =
  qu_date :: int
  qu_used :: int
  qu_remaining :: int

definition OPTIONAL_EMAIL_MAX_DAILY_CAP :: int where
  "OPTIONAL_EMAIL_MAX_DAILY_CAP = 80"

definition utc_day :: "millis \<Rightarrow> int" where
  \<comment> \<open>the day \<open>toISOString().slice(0, 10)\<close> spells\<close>
  "utc_day at = at div 86400000"

definition validateAndDate :: "millis option \<Rightarrow> js_number \<Rightarrow> (int \<times> millis \<times> int) option" where
  \<comment> \<open>the day, the instant and the cap, \<open>None\<close> is the exception\<close>
  "validateAndDate date dailyCap =
     (case (date, dailyCap) of
        (Some at, Integer cap) \<Rightarrow>
          if cap < 1 \<or> OPTIONAL_EMAIL_MAX_DAILY_CAP < cap then None else Some (utc_day at, at, cap)
      | _ \<Rightarrow> None)"

definition ensureDay :: "daily_quota option \<Rightarrow> int \<Rightarrow> millis \<Rightarrow> daily_quota list \<Rightarrow> daily_quota list" where
  \<comment> \<open>the duplicate-key error of a lost race is swallowed\<close>
  "ensureDay rival day at c =
     (if \<exists>d \<in> set c. dq_date d = day then c
      else case rival of
             Some r \<Rightarrow> c @ [r\<lparr>dq_date := day\<rparr>]
           | None \<Rightarrow> c @ [\<lparr>dq_date = day, dq_used = 0, dq_createdAt = at, dq_updatedAt = at\<rparr>])"

definition getUsage :: "millis option \<Rightarrow> js_number \<Rightarrow> daily_quota list \<Rightarrow> api_error + quota_usage" where
  "getUsage date dailyCap c =
     (case validateAndDate date dailyCap of
        None \<Rightarrow> Inl InternalServerError
      | Some (day, at, cap) \<Rightarrow>
          (let used = (case findOne (\<lambda>d. dq_date d = day) c of None \<Rightarrow> 0 | Some d \<Rightarrow> dq_used d)
           in Inr \<lparr>qu_date = day, qu_used = used, qu_remaining = max 0 (cap - used)\<rparr>))"

definition take_quota :: "int \<Rightarrow> int \<Rightarrow> millis \<Rightarrow> daily_quota list \<Rightarrow> (daily_quota \<times> daily_quota) option \<times> daily_quota list" where
  \<comment> \<open>the compare-and-increment of \<open>reserve\<close>\<close>
  "take_quota day cap at c =
     findOneAndUpdate (\<lambda>d. dq_date d = day \<and> dq_used d < cap)
       (\<lambda>d. d\<lparr>dq_used := dq_used d + 1, dq_updatedAt := at\<rparr>) c"

definition reserve_quota ::
  "daily_quota option \<Rightarrow> (nat \<Rightarrow> daily_quota list \<Rightarrow> daily_quota list) \<Rightarrow> millis option \<Rightarrow> js_number \<Rightarrow> daily_quota list
   \<Rightarrow> (api_error + bool \<times> quota_usage) \<times> daily_quota list" where
  "reserve_quota rival env date dailyCap c =
     (case validateAndDate date dailyCap of
        None \<Rightarrow> (Inl InternalServerError, c)
      | Some (day, at, cap) \<Rightarrow>
          (case take_quota day cap at (env 0 (ensureDay rival day at c)) of
             (Some (_, d), c') \<Rightarrow>
               (Inr (True, \<lparr>qu_date = day, qu_used = dq_used d, qu_remaining = cap - dq_used d\<rparr>), c')
           | (None, c') \<Rightarrow> (map_sum id (Pair False) (getUsage date dailyCap (env 1 c')), env 1 c')))"

section \<open>Opting out\<close>

datatype suppression_reason = HardBounce | Complaint | ProviderSuppressed

datatype email_block_reason = Unsubscribed | Suppressed

record email_preference =
  ep_userId :: string
  ep_unsubscribedAt :: "millis option"
  ep_suppressedAt :: "millis option"
  ep_suppressionReason :: "suppression_reason option"
  ep_createdAt :: millis
  ep_updatedAt :: millis

definition findPreferenceByUserId ::
  "(string \<Rightarrow> string option) \<Rightarrow> string \<Rightarrow> email_preference list \<Rightarrow> email_preference option" where
  "findPreferenceByUserId oid userId c =
     (case oid userId of None \<Rightarrow> None | Some u \<Rightarrow> findOne (\<lambda>d. ep_userId d = u) c)"

definition findBlockReason ::
  "(string \<Rightarrow> string option) \<Rightarrow> string \<Rightarrow> email_preference list \<Rightarrow> email_block_reason option" where
  "findBlockReason oid userId c =
     (case findPreferenceByUserId oid userId c of
        None \<Rightarrow> None
      | Some d \<Rightarrow> if ep_unsubscribedAt d \<noteq> None then Some Unsubscribed
                  else if ep_suppressedAt d \<noteq> None then Some Suppressed else None)"

definition if_unset :: "'a option \<Rightarrow> 'a \<Rightarrow> 'a option" where
  \<comment> \<open>\<open>{$ifNull: [field, value]}\<close>\<close>
  "if_unset x v = (case x of None \<Rightarrow> Some v | Some w \<Rightarrow> Some w)"

datatype opt_out = Unsubscribe | Suppress suppression_reason

fun opt_out_update :: "opt_out \<Rightarrow> millis \<Rightarrow> email_preference \<Rightarrow> email_preference" where
  \<comment> \<open>the fields of \<open>unsubscribe\<close> and of \<open>suppress\<close> with the ones of \<open>#upsertOnce\<close>\<close>
  "opt_out_update Unsubscribe at d =
     d\<lparr>ep_unsubscribedAt := if_unset (ep_unsubscribedAt d) at, ep_updatedAt := at\<rparr>"
| "opt_out_update (Suppress r) at d =
     d\<lparr>ep_suppressedAt := if_unset (ep_suppressedAt d) at,
       ep_suppressionReason := if_unset (ep_suppressionReason d) r, ep_updatedAt := at\<rparr>"

definition blank_preference :: "string \<Rightarrow> millis \<Rightarrow> email_preference" where
  \<comment> \<open>what the pipeline of an upsert starts from: \<open>createdAt\<close> is unset and becomes \<open>at\<close>\<close>
  "blank_preference u at = \<lparr>ep_userId = u, ep_unsubscribedAt = None, ep_suppressedAt = None,
     ep_suppressionReason = None, ep_createdAt = at, ep_updatedAt = at\<rparr>"

definition upsertOnce ::
  "email_preference option \<Rightarrow> string \<Rightarrow> millis \<Rightarrow> opt_out \<Rightarrow> email_preference list
   \<Rightarrow> (api_error + email_preference) \<times> email_preference list" where
  "upsertOnce rival u at act c =
     (case findOneAndUpdate (\<lambda>d. ep_userId d = u) (opt_out_update act at) c of
        (Some (_, d), c') \<Rightarrow> (Inr d, c')
      | (None, c') \<Rightarrow>
          (case rival of
             None \<Rightarrow> (let d = opt_out_update act at (blank_preference u at) in (Inr d, c' @ [d]))
           | Some r \<Rightarrow>
               (case findOneAndUpdate (\<lambda>d. ep_userId d = u) (opt_out_update act at) (c' @ [r\<lparr>ep_userId := u\<rparr>]) of
                  (Some (_, d), c'') \<Rightarrow> (Inr d, c'')
                | (None, c'') \<Rightarrow>
                    (case findOne (\<lambda>d. ep_userId d = u) c'' of
                       None \<Rightarrow> (Inl InternalServerError, c'')
                     | Some w \<Rightarrow> (Inr w, c'')))))"

definition opt_out_user ::
  "(string \<Rightarrow> string option) \<Rightarrow> email_preference option \<Rightarrow> string \<Rightarrow> millis option \<Rightarrow> opt_out \<Rightarrow> email_preference list
   \<Rightarrow> (api_error + email_preference) \<times> email_preference list" where
  \<comment> \<open>\<open>unsubscribe\<close> and \<open>suppress\<close>\<close>
  "opt_out_user oid rival userId date act c =
     (case (oid userId, date) of
        (Some u, Some at) \<Rightarrow> upsertOnce rival u at act c
      | _ \<Rightarrow> (Inl InternalServerError, c))"

section \<open>Processed webhook events\<close>

record webhook_event =
  we_eventId :: string
  we_eventType :: string
  we_processedAt :: millis

definition event_id_ok :: "string \<Rightarrow> bool" where
  "event_id_ok e \<longleftrightarrow> e \<noteq> [] \<and> length e \<le> 256"

definition wasProcessed :: "string \<Rightarrow> webhook_event list \<Rightarrow> api_error + bool" where
  "wasProcessed e c = (if event_id_ok e then Inr (\<exists>d \<in> set c. we_eventId d = e) else Inl InternalServerError)"

definition recordProcessed ::
  "string \<Rightarrow> string \<Rightarrow> millis option \<Rightarrow> webhook_event list \<Rightarrow> (api_error + bool) \<times> webhook_event list" where
  "recordProcessed e ty date c =
     (case (event_id_ok e \<and> ty \<noteq> [] \<and> length ty \<le> 128, date) of
        (True, Some at) \<Rightarrow>
          (case insertOne we_eventId \<lparr>we_eventId = e, we_eventType = ty, we_processedAt = at\<rparr> c of
             Some c' \<Rightarrow> (Inr True, c')
           | None \<Rightarrow> (Inr False, c))
      | _ \<Rightarrow> (Inl InternalServerError, c))"

section \<open>The recipient\<close>

datatype account_kind = OAuthKind | PasswordKind

datatype recipient_field = EmailField | LegacyAppleUsername

fun kind_name :: "account_kind \<Rightarrow> string" where
  "kind_name OAuthKind = ''oauth''" | "kind_name PasswordKind = ''password''"

fun field_name :: "recipient_field \<Rightarrow> string" where
  "field_name EmailField = ''email''" | "field_name LegacyAppleUsername = ''legacy_apple_provider_username''"

record provenance =
  pv_accountKind :: account_kind
  pv_provider :: string
  pv_field :: recipient_field

datatype recipient_resolution = Resolved string "provenance list" | MissingRecipientResolution | AmbiguousRecipientResolution

definition blank :: "string \<Rightarrow> bool" where
  \<comment> \<open>\<open>trim().length === 0\<close> on ASCII\<close>
  "blank s \<longleftrightarrow> list_all (\<lambda>c. let n = (of_char c :: nat) in (9 \<le> n \<and> n \<le> 13) \<or> n = 32) s"

definition oauth_candidates :: "oauth_account \<Rightarrow> (string \<times> provenance) list" where
  "oauth_candidates a =
     (case oa_email a of None \<Rightarrow> []
      | Some e \<Rightarrow> [(e, \<lparr>pv_accountKind = OAuthKind, pv_provider = oa_provider a, pv_field = EmailField\<rparr>)]) @
     (if oa_provider a = ''apple''
      then (case oa_providerUsername a of None \<Rightarrow> []
            | Some n \<Rightarrow> [(n, \<lparr>pv_accountKind = OAuthKind, pv_provider = oa_provider a, pv_field = LegacyAppleUsername\<rparr>)])
      else [])"

definition password_candidate :: "password_account \<Rightarrow> string \<times> provenance" where
  "password_candidate a =
     (pa_email a, \<lparr>pv_accountKind = PasswordKind, pv_provider = AUTH_PROVIDER_EMAIL, pv_field = EmailField\<rparr>)"

definition provenance_key :: "provenance \<Rightarrow> string \<times> string \<times> string" where
  \<comment> \<open>what the comparator of the sort orders by, in turn\<close>
  "provenance_key p = (kind_name (pv_accountKind p), pv_provider p, field_name (pv_field p))"

definition resolve_recipient ::
  "(string \<Rightarrow> string option) \<Rightarrow> (string \<Rightarrow> string option) \<Rightarrow> string \<Rightarrow> oauth_account list \<Rightarrow> password_account list
   \<Rightarrow> recipient_resolution" where
  \<comment> \<open>\<open>parse\<close> is the schema library's \<open>trim().email()\<close> with the lower-casing\<close>
  "resolve_recipient oid parse userId oauthAll passwordAll =
     (case oid userId of
        None \<Rightarrow> MissingRecipientResolution
      | Some u \<Rightarrow>
          (let oauth = filter (\<lambda>a. oa_userId a = u) oauthAll; passwords = filter (\<lambda>a. pa_userId a = u) passwordAll;
               candidates = concat (map oauth_candidates oauth) @ map password_candidate passwords;
               parsed = map (\<lambda>(v, p). (parse v, p)) candidates
           in if 1 < length passwords then AmbiguousRecipientResolution
              else if list_ex (\<lambda>a. blank (oa_provider a)) oauth then AmbiguousRecipientResolution
              else if candidates = [] then MissingRecipientResolution
              else if list_ex (\<lambda>(r, p). r = None) parsed then AmbiguousRecipientResolution
              else (case remdups (map (\<lambda>(r, p). the r) parsed) of
                      [a] \<Rightarrow> Resolved a (sort_key provenance_key (map snd parsed))
                    | _ \<Rightarrow> AmbiguousRecipientResolution)))"

end
