(* ===== verification/Base64.thy ===== *)
theory Base64
  imports Prelude
begin

text \<open>
  Base64 as the runtime's \<open>Buffer\<close> encodes and decodes it, for the signatures and
  tokens of optional email.  A byte is a natural number below 256.  Decoding
  reads either alphabet and skips every other character, also the padding.
\<close>

section \<open>Alphabet\<close>

definition sextet_code :: "bool \<Rightarrow> nat \<Rightarrow> nat" where
  \<comment> \<open>\<open>url\<close> chooses the URL-safe alphabet\<close>
  "sextet_code url n =
     (if n < 26 then 65 + n else if n < 52 then 71 + n else if n < 62 then n - 4
      else if n = 62 then (if url then 45 else 43) else (if url then 95 else 47))"

definition code_sextet :: "nat \<Rightarrow> nat option" where
  "code_sextet c =
     (if 65 \<le> c \<and> c \<le> 90 then Some (c - 65) else if 97 \<le> c \<and> c \<le> 122 then Some (c - 71)
      else if 48 \<le> c \<and> c \<le> 57 then Some (c + 4) else if c = 43 \<or> c = 45 then Some 62
      else if c = 47 \<or> c = 95 then Some 63 else None)"

lemma code_sextet_code [simp]: "n < 64 \<Longrightarrow> code_sextet (sextet_code url n) = Some n"
  unfolding code_sextet_def sextet_code_def by (simp split: if_split) presburger

lemma sextet_code_less: "n < 64 \<Longrightarrow> sextet_code url n < 128"
  by (auto simp: sextet_code_def)

section \<open>Groups of three bytes\<close>

fun to_sextets :: "nat list \<Rightarrow> nat list" where
  "to_sextets (a # b # c # r) =
     (a div 4) # ((a mod 4) * 16 + b div 16) # ((b mod 16) * 4 + c div 64) # (c mod 64) # to_sextets r"
| "to_sextets [a, b] = [a div 4, (a mod 4) * 16 + b div 16, (b mod 16) * 4]"
| "to_sextets [a] = [a div 4, (a mod 4) * 16]"
| "to_sextets [] = []"

fun of_sextets :: "nat list \<Rightarrow> nat list" where
  "of_sextets (w # x # y # z # r) =
     (w * 4 + x div 16) # ((x mod 16) * 16 + y div 4) # ((y mod 4) * 64 + z) # of_sextets r"
| "of_sextets [w, x, y] = [w * 4 + x div 16, (x mod 16) * 16 + y div 4]"
| "of_sextets [w, x] = [w * 4 + x div 16]"
| "of_sextets [w] = []"
| "of_sextets [] = []"

definition is_bytes :: "nat list \<Rightarrow> bool" where
  "is_bytes bs \<longleftrightarrow> list_all (\<lambda>b. b < 256) bs"

lemma is_bytes_simps [simp]: "is_bytes []" "is_bytes (b # bs) \<longleftrightarrow> b < 256 \<and> is_bytes bs"
  by (simp_all add: is_bytes_def)

lemma group_of_three:
  fixes a b c :: nat
  assumes "a < 256" and "b < 256" and "c < 256"
  shows "a div 4 * 4 + ((a mod 4) * 16 + b div 16) div 16 = a"
    and "((a mod 4) * 16 + b div 16) mod 16 * 16 + ((b mod 16) * 4 + c div 64) div 4 = b"
    and "((b mod 16) * 4 + c div 64) mod 4 * 64 + c mod 64 = c"
proof -
  have "b div 16 < 16" "c div 64 < 4" using assms by auto
  then have "((a mod 4) * 16 + b div 16) div 16 = a mod 4" "((a mod 4) * 16 + b div 16) mod 16 = b div 16"
    "((b mod 16) * 4 + c div 64) div 4 = b mod 16" "((b mod 16) * 4 + c div 64) mod 4 = c div 64"
    by simp_all
  then show "a div 4 * 4 + ((a mod 4) * 16 + b div 16) div 16 = a"
    and "((a mod 4) * 16 + b div 16) mod 16 * 16 + ((b mod 16) * 4 + c div 64) div 4 = b"
    and "((b mod 16) * 4 + c div 64) mod 4 * 64 + c mod 64 = c"
    by (simp_all add: div_mult_mod_eq)
qed

lemma of_to_sextets [simp]: "is_bytes bs \<Longrightarrow> of_sextets (to_sextets bs) = bs"
proof (induction bs rule: to_sextets.induct)
  case (1 a b c r)
  then show ?case using group_of_three [of a b c] by simp
next
  case (2 a b)
  then show ?case using group_of_three [of a b 0] by simp
next
  case (3 a)
  then show ?case using group_of_three [of a 0 0] by simp
qed simp

lemma to_sextets_less: "is_bytes bs \<Longrightarrow> list_all (\<lambda>n. n < 64) (to_sextets bs)"
  by (induction bs rule: to_sextets.induct) auto

lemma length_to_sextets: "length (to_sextets bs) = (4 * length bs + 2) div 3"
  by (induction bs rule: to_sextets.induct) auto

section \<open>Strings\<close>

definition base64_digits :: "bool \<Rightarrow> nat list \<Rightarrow> string" where
  \<comment> \<open>without padding; the URL-safe alphabet is never padded\<close>
  "base64_digits url bs = map (\<lambda>n. char_of (sextet_code url n)) (to_sextets bs)"

definition padding :: "nat list \<Rightarrow> string" where
  "padding bs = replicate ((3 - length bs mod 3) mod 3) (CHR ''='')"

definition to_base64 :: "nat list \<Rightarrow> string" where
  "to_base64 bs = base64_digits False bs @ padding bs"

definition to_base64url :: "nat list \<Rightarrow> string" where
  "to_base64url bs = base64_digits True bs"

definition from_base64 :: "string \<Rightarrow> nat list" where
  "from_base64 s = of_sextets (List.map_filter (\<lambda>ch. code_sextet (of_char ch)) s)"

definition base64_char :: "bool \<Rightarrow> char \<Rightarrow> bool" where
  \<comment> \<open>\<open>[A-Za-z0-9_-]\<close> or \<open>[A-Za-z0-9+/]\<close>\<close>
  "base64_char url ch = (let n = (of_char ch :: nat) in
     (65 \<le> n \<and> n \<le> 90) \<or> (97 \<le> n \<and> n \<le> 122) \<or> (48 \<le> n \<and> n \<le> 57) \<or>
     (if url then n = 45 \<or> n = 95 else n = 43 \<or> n = 47))"

lemma of_char_sextet: "n < 64 \<Longrightarrow> of_char (char_of (sextet_code url n) :: char) = sextet_code url n"
  using sextet_code_less [of n url] by simp

lemma map_filter_digits:
  "list_all (\<lambda>n. n < 64) ns \<Longrightarrow>
   List.map_filter (\<lambda>ch. code_sextet (of_char ch)) (map (\<lambda>n. char_of (sextet_code url n)) ns) = ns"
  by (induction ns) (simp_all add: map_filter_simps of_char_sextet del: of_char_of)

lemma map_filter_padding: "List.map_filter (\<lambda>ch. code_sextet (of_char ch)) (padding bs) = []"
  by (simp add: padding_def map_filter_def code_sextet_def)

lemma map_filter_append: "List.map_filter f (xs @ ys) = List.map_filter f xs @ List.map_filter f ys"
  by (simp add: map_filter_def)

lemma from_base64_digits [simp]: "is_bytes bs \<Longrightarrow> from_base64 (base64_digits url bs) = bs"
  by (simp add: from_base64_def base64_digits_def map_filter_digits to_sextets_less)

lemma from_to_base64 [simp]: "is_bytes bs \<Longrightarrow> from_base64 (to_base64 bs) = bs"
  by (simp add: from_base64_def to_base64_def base64_digits_def map_filter_append map_filter_padding map_filter_digits
      to_sextets_less)

lemma from_to_base64url [simp]: "is_bytes bs \<Longrightarrow> from_base64 (to_base64url bs) = bs"
  by (simp add: to_base64url_def)

lemma base64_digits_chars: "is_bytes bs \<Longrightarrow> list_all (base64_char url) (base64_digits url bs)"
proof -
  have "base64_char url (char_of (sextet_code url n))" if "n < 64" for n
    using that by (simp add: base64_char_def of_char_sextet del: of_char_of) (auto simp: sextet_code_def)
  then show "is_bytes bs \<Longrightarrow> ?thesis" using to_sextets_less [of bs] by (simp add: base64_digits_def list_all_iff)
qed

lemma length_base64_digits [simp]: "length (base64_digits url bs) = (4 * length bs + 2) div 3"
  by (simp add: base64_digits_def length_to_sextets)

lemma length_base64url [simp]: "length (to_base64url bs) = (4 * length bs + 2) div 3"
  by (simp add: to_base64url_def)

end
