(* ===== verification/OptionalEmailTokens.thy ===== *)
theory OptionalEmailTokens
  imports Base64 Errors
begin

text \<open>
  Signed links and signed webhooks: the token service of
  \<open>src/services/optional-email-unsubscribe-service.ts\<close> and
  \<open>src/services/resend-webhook-verifier.ts\<close>.  Parameters are the keyed hash
  (\<open>hmac key text\<close>, SHA-256, as bytes) and the JSON parser of the runtime, from
  decoded bytes or text to a value, \<open>None\<close> when it throws.  All text signed here
  is ASCII.
\<close>

section \<open>Text\<close>

definition dot :: char where "dot = CHR ''.''"

lemma split_three: "split_on dot t = [a, b, c] \<Longrightarrow> t = a @ dot # b @ dot # c"
proof -
  have *: "split_on sep xs = w # ws \<Longrightarrow>
    (ws = [] \<and> xs = w) \<or> (ws \<noteq> [] \<and> (\<exists>ys. xs = w @ sep # ys \<and> split_on sep ys = ws))"
    for sep and xs w :: "'a list" and ws
  proof (induction xs arbitrary: w ws)
    case (Cons x xs)
    then show ?case by (cases "split_on sep xs") (auto split: if_splits)
  qed auto
  assume "split_on dot t = [a, b, c]"
  from * [OF this] obtain ys where t: "t = a @ dot # ys" "split_on dot ys = [b, c]" by auto
  from * [OF t(2)] obtain zs where "ys = b @ dot # zs" "split_on dot zs = [c]" by auto
  with * [OF this(2)] t(1) show ?thesis by auto
qed

definition bytes_of :: "string \<Rightarrow> nat list" where
  "bytes_of s = map of_char s"

lemma is_bytes_of [simp]: "is_bytes (bytes_of s)"
  by (auto simp: bytes_of_def is_bytes_def list_all_iff)

section \<open>Unsubscribe tokens\<close>

definition TOKEN_VERSION :: string where "TOKEN_VERSION = ''v1''"

definition TOKEN_PURPOSE :: string where "TOKEN_PURPOSE = ''optional_email_unsubscribe''"

definition MAX_TOKEN_LENGTH :: nat where "MAX_TOKEN_LENGTH = 2048"

definition user_id_pattern :: "string \<Rightarrow> bool" where
  \<comment> \<open>\<open>/^[a-f0-9]{24}$/\<close>\<close>
  "user_id_pattern s \<longleftrightarrow> length s = 24 \<and>
     list_all (\<lambda>c. let n = (of_char c :: nat) in (97 \<le> n \<and> n \<le> 102) \<or> (48 \<le> n \<and> n \<le> 57)) s"

definition signature_pattern :: "string \<Rightarrow> bool" where
  "signature_pattern s \<longleftrightarrow> length s = 43 \<and> list_all (base64_char True) s"

definition unsubscribeTokenPayloadSchema :: "jvalue \<Rightarrow> string option" where
  "unsubscribeTokenPayloadSchema v =
     (if strict_keys [''purpose'', ''userId''] v \<and> member ''purpose'' v = Some (JStr TOKEN_PURPOSE)
      then (case member ''userId'' v of
              Some (JStr u) \<Rightarrow> if user_id_pattern u then Some u else None
            | _ \<Rightarrow> None)
      else None)"

definition quoted :: "string \<Rightarrow> string" where
  \<comment> \<open>\<open>JSON.stringify\<close> of a string without characters to escape\<close>
  "quoted s = [CHR 0x22] @ s @ [CHR 0x22]"

definition token_json :: "string \<Rightarrow> string" where
  "token_json u = ''{'' @ quoted ''purpose'' @ '':'' @ quoted TOKEN_PURPOSE @ '','' @ quoted ''userId'' @ '':'' @ quoted u @ ''}''"

definition signatureFor :: "(nat list \<Rightarrow> string \<Rightarrow> nat list) \<Rightarrow> nat list \<Rightarrow> string \<Rightarrow> string" where
  "signatureFor hmac secret unsigned = to_base64url (hmac secret unsigned)"

definition create_token :: "(nat list \<Rightarrow> string \<Rightarrow> nat list) \<Rightarrow> nat list \<Rightarrow> string \<Rightarrow> string option" where
  \<comment> \<open>\<open>None\<close> is the exception for an id that is none\<close>
  "create_token hmac secret userId =
     (let u = map toLower userId in
      if \<not> user_id_pattern u then None
      else let unsigned = TOKEN_VERSION @ [dot] @ to_base64url (bytes_of (token_json u))
           in Some (unsigned @ [dot] @ signatureFor hmac secret unsigned))"

definition verify_token ::
  "(nat list \<Rightarrow> string \<Rightarrow> nat list) \<Rightarrow> (nat list \<Rightarrow> jvalue option) \<Rightarrow> nat list \<Rightarrow> string \<Rightarrow> string option" where
  "verify_token hmac parse secret token =
     (if token = [] \<or> MAX_TOKEN_LENGTH < length token then None
      else case split_on dot token of
        [version, payload, encodedSignature] \<Rightarrow>
          if version \<noteq> TOKEN_VERSION \<or> \<not> signature_pattern encodedSignature then None
          else (let unsigned = version @ [dot] @ payload;
                    expected = from_base64 (signatureFor hmac secret unsigned);
                    actual = from_base64 encodedSignature
                in if to_base64url actual \<noteq> encodedSignature \<or> length actual \<noteq> length expected \<or> actual \<noteq> expected
                   then None
                   else Option.bind (parse (from_base64 payload)) unsubscribeTokenPayloadSchema)
      | _ \<Rightarrow> None)"

definition token_service :: "nat list \<Rightarrow> nat list option" where
  \<comment> \<open>the constructor: a signing secret of 32 bytes or more\<close>
  "token_service signingSecret = (if length signingSecret < 32 then None else Some signingSecret)"

section \<open>Signed webhooks\<close>

definition MAX_WEBHOOK_EVENT_ID_LENGTH :: nat where "MAX_WEBHOOK_EVENT_ID_LENGTH = 256"

definition WEBHOOK_TOLERANCE_SECONDS :: int where "WEBHOOK_TOLERANCE_SECONDS = 5 * 60"

definition strip_padding :: "string \<Rightarrow> string" where
  "strip_padding s = rev (dropWhile (\<lambda>c. c = CHR ''='') (rev s))"

definition base64_pattern :: "string \<Rightarrow> bool" where
  \<comment> \<open>\<open>[A-Za-z0-9+/]+={0,2}\<close>\<close>
  "base64_pattern s \<longleftrightarrow> strip_padding s \<noteq> [] \<and> list_all (base64_char False) (strip_padding s) \<and>
     length s - length (strip_padding s) \<le> 2"

definition decodeCanonicalBase64 :: "string \<Rightarrow> nat list option" where
  "decodeCanonicalBase64 value =
     (if \<not> base64_pattern value \<or> length value mod 4 = 1 then None
      else let decoded = from_base64 value; canonical = to_base64 decoded
           in if value = canonical \<or> value = strip_padding canonical then Some decoded else None)"

definition after_prefix :: "string \<Rightarrow> string \<Rightarrow> string option" where
  \<comment> \<open>the group of a pattern \<open>^prefix([A-Za-z0-9+/]+={0,2})$\<close>\<close>
  "after_prefix p s = (if take (length p) s = p \<and> base64_pattern (drop (length p) s) then Some (drop (length p) s) else None)"

definition decodeSigningSecret :: "string \<Rightarrow> nat list option" where
  "decodeSigningSecret s =
     (case Option.bind (after_prefix ''whsec_'' s) decodeCanonicalBase64 of
        None \<Rightarrow> None
      | Some d \<Rightarrow> if 16 \<le> length d then Some d else None)"

definition isValidResendWebhookSigningSecret :: "string \<Rightarrow> bool" where
  "isValidResendWebhookSigningSecret s \<longleftrightarrow> decodeSigningSecret s \<noteq> None"

definition is_digit :: "char \<Rightarrow> bool" where
  "is_digit c = (let n = (of_char c :: nat) in 48 \<le> n \<and> n \<le> 57)"

definition digits_value :: "string \<Rightarrow> int" where
  "digits_value s = foldl (\<lambda>v c. 10 * v + (int (of_char c) - 48)) 0 s"

definition white :: "char \<Rightarrow> bool" where
  "white c = (let n = (of_char c :: nat) in (9 \<le> n \<and> n \<le> 13) \<or> n = 32)"

function signature_fields :: "string \<Rightarrow> string list" where
  \<comment> \<open>\<open>trim().split(/\s+/)\<close>; of a blank text it gives one empty field, which no pattern accepts\<close>
  "signature_fields s =
     (case dropWhile white s of
        [] \<Rightarrow> []
      | c # r \<Rightarrow> (c # takeWhile (\<lambda>x. \<not> white x) r) # signature_fields (dropWhile (\<lambda>x. \<not> white x) r))"
  by pat_completeness auto

termination
proof (relation "measure length")
  fix s :: string and c r
  assume "dropWhile white s = c # r"
  then have "length r < length s" by (metis length_dropWhile_le length_Cons Suc_le_eq)
  then show "(dropWhile (\<lambda>x. \<not> white x) r, s) \<in> measure length"
    using length_dropWhile_le [of "\<lambda>x. \<not> white x" r] by simp
qed simp

declare signature_fields.simps [simp del]

datatype verifier_error =
  InvalidMessageId | InvalidTimestamp | InvalidSignature | InvalidPayload

definition signature_matches :: "nat list \<Rightarrow> string \<Rightarrow> bool" where
  "signature_matches expected candidate \<longleftrightarrow>
     Option.bind (after_prefix ''v1,'' candidate) decodeCanonicalBase64 = Some expected"

definition signed_content :: "string \<Rightarrow> string \<Rightarrow> string \<Rightarrow> string" where
  "signed_content messageId timestamp rawBody = messageId @ [dot] @ timestamp @ [dot] @ rawBody"

definition verify_webhook ::
  "(nat list \<Rightarrow> string \<Rightarrow> nat list) \<Rightarrow> (string \<Rightarrow> jvalue option) \<Rightarrow> nat list \<Rightarrow> millis \<Rightarrow> string \<Rightarrow> string \<Rightarrow> string \<Rightarrow> string
   \<Rightarrow> verifier_error + jvalue" where
  "verify_webhook hmac parse secret now rawBody messageId timestamp signature =
     (if messageId = [] \<or> MAX_WEBHOOK_EVENT_ID_LENGTH < length messageId then Inl InvalidMessageId
      else if \<not> (1 \<le> length timestamp \<and> length timestamp \<le> 12 \<and> list_all is_digit timestamp) then Inl InvalidTimestamp
      else if WEBHOOK_TOLERANCE_SECONDS < \<bar>now div 1000 - digits_value timestamp\<bar> then Inl InvalidTimestamp
      else if \<not> list_ex (signature_matches (hmac secret (signed_content messageId timestamp rawBody))) (signature_fields signature)
      then Inl InvalidSignature
      else case parse rawBody of None \<Rightarrow> Inl InvalidPayload | Some v \<Rightarrow> Inr v)"

end
