(* ===== verification/OptionalEmailServices.thy ===== *)
theory OptionalEmailServices
  imports OptionalEmailRepos OptionalEmailTokens Activation DailyUsage Bridges UserRepo
begin

text \<open>
  The services of optional email: activation snapshots, eligibility, the dry run
  that counts who would be written to, unsubscribing by signed link and the
  provider's webhooks, with their two routes.  Services that only read take the
  collections they read as they are; the webhook service awaits between reading,
  suppressing and recording, and \<open>env n\<close> is what other requests do meanwhile.
\<close>

section \<open>Activation snapshots\<close>

record email_sources =
  er_users :: "user list"
  er_states :: "activation_state list"
  er_bridges :: "bridge list"
  er_usage :: "daily_usage list"
  er_prefs :: "email_preference list"

record email_snapshot =
  sn_bridgeSetupAt :: "millis option"
  sn_firstSessionAt :: "millis option"

definition currentAccountEvidence :: "user \<Rightarrow> millis option \<Rightarrow> millis option" where
  "currentAccountEvidence u e = (case e of None \<Rightarrow> None | Some t \<Rightarrow> if u_createdAt u \<le> t then Some t else None)"

definition snapshotByUserId :: "(string \<Rightarrow> string option) \<Rightarrow> email_sources \<Rightarrow> string \<Rightarrow> email_snapshot option" where
  "snapshotByUserId oid s userId =
     (case findById oid userId (er_users s) of
        None \<Rightarrow> None
      | Some u \<Rightarrow>
          (let state = findStateByUserId oid userId (er_states s);
               stored = (\<lambda>f. case state of None \<Rightarrow> None | Some d \<Rightarrow> f d);
               bridge = (if stored as_bridgeSetupAt \<noteq> None then None else findEarliestAddedAt oid userId (er_bridges s));
               session = (if stored as_firstSessionAt \<noteq> None then None
                          else findEarliestMetadataRequestAt oid userId (er_usage s))
           in Some \<lparr>sn_bridgeSetupAt = or_else (stored as_bridgeSetupAt) (currentAccountEvidence u bridge),
                    sn_firstSessionAt = or_else (stored as_firstSessionAt) (currentAccountEvidence u session)\<rparr>))"

section \<open>Eligibility\<close>

datatype recipient_basis = Unapproved | AccountActivityApproved

record email_policy =
  ey_sendingEnabled :: bool
  ey_recipientBasis :: recipient_basis

definition evaluate_core ::
  "email_policy \<Rightarrow> bool \<Rightarrow> email_block_reason option \<Rightarrow> email_snapshot option \<Rightarrow> reminder \<Rightarrow> send_block_reason" where
  \<comment> \<open>\<open>#evaluate\<close>: nobody is eligible yet, so the result is a reason\<close>
  "evaluate_core pol enforce block snapshot kind =
     (if enforce \<and> \<not> ey_sendingEnabled pol then SendingDisabled
      else if ey_recipientBasis pol \<noteq> AccountActivityApproved then RecipientBasisUnapproved
      else if block = Some Unsubscribed then UnsubscribedBlock
      else if block = Some Suppressed then SuppressedBlock
      else case snapshot of
        None \<Rightarrow> MissingUser
      | Some a \<Rightarrow>
          if kind = BridgeSetup \<and> sn_bridgeSetupAt a \<noteq> None then MilestoneCompleted
          else if kind = FirstSession \<and> sn_firstSessionAt a \<noteq> None then MilestoneCompleted
          else if kind = FirstSession \<and> sn_bridgeSetupAt a = None then PrerequisiteIncomplete
          else RecipientSafetyUnverified)"

definition evaluate_eligibility ::
  "(string \<Rightarrow> string option) \<Rightarrow> email_policy \<Rightarrow> email_sources \<Rightarrow> string \<Rightarrow> reminder \<Rightarrow> send_block_reason" where
  "evaluate_eligibility oid pol s userId kind =
     evaluate_core pol True (findBlockReason oid userId (er_prefs s)) (snapshotByUserId oid s userId) kind"

definition evaluateDryRun ::
  "(string \<Rightarrow> string option) \<Rightarrow> email_policy \<Rightarrow> email_sources \<Rightarrow> string \<Rightarrow> reminder \<Rightarrow> email_snapshot option
   \<Rightarrow> send_block_reason" where
  "evaluateDryRun oid pol s userId kind snapshot =
     evaluate_core pol False (findBlockReason oid userId (er_prefs s)) snapshot kind"

section \<open>The dry run\<close>

record dry_run_report =
  rp_usersScanned :: nat
  rp_candidates :: nat
  rp_segments :: "reminder \<Rightarrow> nat"
  rp_eligible :: nat
  rp_blockedByReason :: "send_block_reason \<Rightarrow> nat"

definition empty_report :: dry_run_report where
  "empty_report = \<lparr>rp_usersScanned = 0, rp_candidates = 0, rp_segments = (\<lambda>_. 0), rp_eligible = 0,
     rp_blockedByReason = (\<lambda>_. 0)\<rparr>"

definition dry_run_user ::
  "(string \<Rightarrow> string option) \<Rightarrow> email_policy \<Rightarrow> email_sources \<Rightarrow> string \<Rightarrow> dry_run_report \<Rightarrow> dry_run_report" where
  "dry_run_user oid pol s userId r0 =
     (let r = r0\<lparr>rp_usersScanned := rp_usersScanned r0 + 1\<rparr>;
          state = snapshotByUserId oid s userId;
          has = (\<lambda>f. case state of None \<Rightarrow> False | Some a \<Rightarrow> f a \<noteq> (None :: millis option))
      in if has sn_firstSessionAt then r
         else let kind = (if has sn_bridgeSetupAt then FirstSession else BridgeSetup);
                  reason = evaluateDryRun oid pol s userId kind state
              in r\<lparr>rp_candidates := rp_candidates r + 1,
                   rp_segments := (rp_segments r)(kind := rp_segments r kind + 1),
                   rp_blockedByReason := (rp_blockedByReason r)(reason := rp_blockedByReason r reason + 1)\<rparr>)"

fun dry_run_loop ::
  "nat \<Rightarrow> (string \<Rightarrow> string option) \<Rightarrow> email_policy \<Rightarrow> email_sources \<Rightarrow> int \<Rightarrow> millis \<Rightarrow> string option \<Rightarrow> dry_run_report
   \<Rightarrow> (api_error + dry_run_report) option" where
  \<comment> \<open>\<open>None\<close> when the fuel runs out\<close>
  "dry_run_loop 0 oid pol s n at after r = None"
| "dry_run_loop (Suc fuel) oid pol s n at after r =
     (case findIdBatch oid after (Integer n) (Some at) (er_users s) of
        Inl e \<Rightarrow> Some (Inl e)
      | Inr ids \<Rightarrow>
          if ids = [] then Some (Inr r)
          else let r' = fold (dry_run_user oid pol s) ids r
               in if int (length ids) < n then Some (Inr r')
                  else dry_run_loop fuel oid pol s n at (Some (last ids)) r')"

definition run_dry ::
  "nat \<Rightarrow> (string \<Rightarrow> string option) \<Rightarrow> email_policy \<Rightarrow> email_sources \<Rightarrow> js_number \<Rightarrow> millis
   \<Rightarrow> (unit + api_error + dry_run_report) option" where
  \<comment> \<open>\<open>run\<close>; the outer \<open>Inl\<close> is the exception for a bad batch limit\<close>
  "run_dry fuel oid pol s batchLimit at =
     (case batchLimit of
        Integer n \<Rightarrow> if isSafeInteger (Integer n) \<and> 1 \<le> n \<and> n \<le> 1000
          then map_option Inr (dry_run_loop fuel oid pol s n at None empty_report) else Some (Inl ())
      | NotAnInteger \<Rightarrow> Some (Inl ()))"

section \<open>Unsubscribing by link\<close>

definition unsubscribe_isValid ::
  "(nat list \<Rightarrow> string \<Rightarrow> nat list) \<Rightarrow> (nat list \<Rightarrow> jvalue option) \<Rightarrow> nat list \<Rightarrow> string \<Rightarrow> bool" where
  "unsubscribe_isValid hmac parse secret token \<longleftrightarrow> verify_token hmac parse secret token \<noteq> None"

definition unsubscribe_by_token ::
  "(string \<Rightarrow> string option) \<Rightarrow> (nat list \<Rightarrow> string \<Rightarrow> nat list) \<Rightarrow> (nat list \<Rightarrow> jvalue option) \<Rightarrow> nat list
   \<Rightarrow> email_preference option \<Rightarrow> millis \<Rightarrow> string \<Rightarrow> email_preference list \<Rightarrow> (api_error + bool) \<times> email_preference list" where
  "unsubscribe_by_token oid hmac parse secret rival now token c =
     (case verify_token hmac parse secret token of
        None \<Rightarrow> (Inr False, c)
      | Some u \<Rightarrow>
          (case opt_out_user oid rival u (Some now) Unsubscribe c of
             (Inl e, c') \<Rightarrow> (Inl e, c')
           | (Inr _, c') \<Rightarrow> (Inr True, c')))"

definition unsubscribeQuerySchema :: "jvalue \<Rightarrow> string option" where
  "unsubscribeQuerySchema q =
     (if strict_keys [''token''] q
      then (case member ''token'' q of
              Some (JStr t) \<Rightarrow> if 1 \<le> length t \<and> length t \<le> 2048 then Some t else None
            | _ \<Rightarrow> None)
      else None)"

datatype http_reply = Reply nat | ReplyRetryAfter nat int | ThrownReply api_error

definition get_unsubscribe ::
  "(nat list \<Rightarrow> string \<Rightarrow> nat list) \<Rightarrow> (nat list \<Rightarrow> jvalue option) \<Rightarrow> nat list \<Rightarrow> jvalue \<Rightarrow> http_reply" where
  \<comment> \<open>the page with the form is only shown, nothing is written\<close>
  "get_unsubscribe hmac parse secret q =
     (case unsubscribeQuerySchema q of
        Some t \<Rightarrow> if unsubscribe_isValid hmac parse secret t then Reply 200 else Reply 400
      | None \<Rightarrow> Reply 400)"

definition oneClickBody :: "(string \<times> string) list option \<Rightarrow> bool" where
  \<comment> \<open>the decoded form, \<open>None\<close> when the body is no text\<close>
  "oneClickBody entries \<longleftrightarrow> entries = Some [(''List-Unsubscribe'', ''One-Click'')]"

definition post_unsubscribe ::
  "(string \<Rightarrow> string option) \<Rightarrow> (nat list \<Rightarrow> string \<Rightarrow> nat list) \<Rightarrow> (nat list \<Rightarrow> jvalue option) \<Rightarrow> nat list
   \<Rightarrow> email_preference option \<Rightarrow> millis \<Rightarrow> jvalue \<Rightarrow> (string \<times> string) list option \<Rightarrow> email_preference list
   \<Rightarrow> http_reply \<times> email_preference list" where
  "post_unsubscribe oid hmac parse secret rival now q body c =
     (case unsubscribeQuerySchema q of
        None \<Rightarrow> (Reply 400, c)
      | Some t \<Rightarrow>
          if \<not> oneClickBody body then (Reply 400, c)
          else case unsubscribe_by_token oid hmac parse secret rival now t c of
            (Inl e, c') \<Rightarrow> (ThrownReply e, c')
          | (Inr ok, c') \<Rightarrow> (Reply (if ok then 200 else 400), c'))"

section \<open>Webhooks\<close>

definition text_between :: "nat \<Rightarrow> nat \<Rightarrow> jvalue \<Rightarrow> string option" where
  "text_between lo hi v = (case v of JStr s \<Rightarrow> if lo \<le> length s \<and> length s \<le> hi then Some s else None | _ \<Rightarrow> None)"

definition is_object :: "jvalue \<Rightarrow> bool" where
  "is_object v = (case v of JObj _ \<Rightarrow> True | _ \<Rightarrow> False)"

definition webhookEnvelopeSchema :: "jvalue \<Rightarrow> string option" where
  "webhookEnvelopeSchema v =
     (if \<not> is_object v then None
      else let t = member ''type'' v; e = member ''event_type'' v; ok = (\<lambda>x. case x of None \<Rightarrow> True | Some w \<Rightarrow> text_between 1 128 w \<noteq> None)
           in if \<not> ok t \<or> \<not> ok e then None
              else (case (t, e) of
                      (None, None) \<Rightarrow> None
                    | (None, Some w) \<Rightarrow> text_between 1 128 w
                    | (Some w, None) \<Rightarrow> text_between 1 128 w
                    | (Some w, Some w') \<Rightarrow> if w = w' then text_between 1 128 w else None))"

record parsed_event =
  pe_type :: string
  pe_emailId :: string
  pe_bounceType :: "string option"
  pe_category :: "string option"

definition tags_ok :: "jvalue option \<Rightarrow> bool" where
  "tags_ok v = (case v of None \<Rightarrow> True
     | Some (JObj ms) \<Rightarrow> list_all (\<lambda>(k, w). 1 \<le> length k \<and> length k \<le> 64 \<and> text_between 0 256 w \<noteq> None) ms
     | _ \<Rightarrow> False)"

definition bounce_type :: "jvalue option \<Rightarrow> string option option" where
  \<comment> \<open>the outer \<open>None\<close> is a value outside the schema\<close>
  "bounce_type v = (case v of None \<Rightarrow> Some None
     | Some b \<Rightarrow> (case Option.bind (member ''type'' b) (text_between 1 64) of None \<Rightarrow> None | Some t \<Rightarrow> Some (Some t)))"

definition webhookEventSchema :: "jvalue \<Rightarrow> parsed_event option" where
  "webhookEventSchema v =
     (case (Option.bind (member ''type'' v) (text_between 1 128), member ''data'' v) of
        (Some ty, Some d) \<Rightarrow>
          (case (Option.bind (member ''email_id'' d) (text_between 1 256), bounce_type (member ''bounce'' d),
                 tags_ok (member ''tags'' d)) of
             (Some e, Some b, True) \<Rightarrow>
               Some \<lparr>pe_type = ty, pe_emailId = e, pe_bounceType = b,
                     pe_category = Option.bind (Option.bind (member ''tags'' d) (member ''category'')) (text_between 0 256)\<rparr>
           | _ \<Rightarrow> None)
      | _ \<Rightarrow> None)"

definition isSuppressionEventType :: "string \<Rightarrow> bool" where
  "isSuppressionEventType t \<longleftrightarrow> t \<in> {''email.bounced'', ''email.complained'', ''email.suppressed''}"

definition suppressionReason :: "parsed_event \<Rightarrow> suppression_reason option" where
  "suppressionReason ev =
     (if pe_type ev = ''email.bounced'' \<and> pe_bounceType ev = Some ''Permanent'' then Some HardBounce
      else if pe_type ev = ''email.complained'' then Some Complaint
      else if pe_type ev = ''email.suppressed'' then Some ProviderSuppressed else None)"

record email_state =
  es_sends :: "email_send list"
  es_prefs :: "email_preference list"
  es_events :: "webhook_event list"

datatype webhook_outcome = SuppressedOutcome | IgnoredOutcome

datatype webhook_result = Processed webhook_outcome | Replayed | Retry | InvalidEvent
  \<comment> \<open>the last is the exception \<open>InvalidResendWebhookEventError\<close>\<close>

definition record_event ::
  "string \<Rightarrow> string \<Rightarrow> millis \<Rightarrow> webhook_outcome \<Rightarrow> email_state \<Rightarrow> (api_error + webhook_result) \<times> email_state" where
  "record_event eventId ty now outcome s =
     (case recordProcessed eventId ty (Some now) (es_events s) of
        (Inl e, c) \<Rightarrow> (Inl e, s\<lparr>es_events := c\<rparr>)
      | (Inr inserted, c) \<Rightarrow> (Inr (if inserted then Processed outcome else Replayed), s\<lparr>es_events := c\<rparr>))"

definition handleVerified ::
  "(string \<Rightarrow> string option) \<Rightarrow> email_preference option \<Rightarrow> (nat \<Rightarrow> email_state \<Rightarrow> email_state) \<Rightarrow> millis \<Rightarrow> millis
   \<Rightarrow> string \<Rightarrow> jvalue \<Rightarrow> email_state \<Rightarrow> (api_error + webhook_result) \<times> email_state" where
  "handleVerified oid rival env now now' eventId event s =
     (case wasProcessed eventId (es_events s) of
        Inl e \<Rightarrow> (Inl e, s)
      | Inr True \<Rightarrow> (Inr Replayed, s)
      | Inr False \<Rightarrow>
          (case webhookEnvelopeSchema event of
             None \<Rightarrow> (Inr InvalidEvent, s)
           | Some ty \<Rightarrow>
               (case webhookEventSchema event of
                  None \<Rightarrow> if isSuppressionEventType ty then (Inr InvalidEvent, s)
                          else record_event eventId ty now IgnoredOutcome (env 0 s)
                | Some ev \<Rightarrow>
                    (case (pe_category ev = Some ''optional_setup_reminder'', suppressionReason ev) of
                       (True, Some reason) \<Rightarrow>
                         (let s1 = env 0 s in
                          case findUserIdByProviderEmailId (pe_emailId ev) (es_sends s1) of
                            None \<Rightarrow> (Inr Retry, s1)
                          | Some u \<Rightarrow>
                              (let s2 = env 1 s1 in
                               case opt_out_user oid rival u (Some now) (Suppress reason) (es_prefs s2) of
                                 (Inl e, c) \<Rightarrow> (Inl e, s2\<lparr>es_prefs := c\<rparr>)
                               | (Inr _, c) \<Rightarrow>
                                   record_event eventId (pe_type ev) now' SuppressedOutcome (env 2 (s2\<lparr>es_prefs := c\<rparr>))))
                     | _ \<Rightarrow> record_event eventId (pe_type ev) now IgnoredOutcome (env 0 s)))))"

record webhook_request =
  wr_body :: "string option"
  wr_id :: "string option"
  wr_timestamp :: "string option"
  wr_signature :: "string option"

definition RETRY_AFTER_SECONDS :: int where "RETRY_AFTER_SECONDS = 60"

definition post_webhook ::
  "(string \<Rightarrow> string option) \<Rightarrow> (nat list \<Rightarrow> string \<Rightarrow> nat list) \<Rightarrow> (string \<Rightarrow> jvalue option) \<Rightarrow> nat list
   \<Rightarrow> email_preference option \<Rightarrow> (nat \<Rightarrow> email_state \<Rightarrow> email_state) \<Rightarrow> millis \<Rightarrow> millis \<Rightarrow> webhook_request \<Rightarrow> email_state
   \<Rightarrow> http_reply \<times> email_state" where
  "post_webhook oid hmac parse secret rival env now now' r s =
     (case (wr_body r, wr_id r, wr_timestamp r, wr_signature r) of
        (Some body, Some i, Some ts, Some sig) \<Rightarrow>
          (case verify_webhook hmac parse secret now body i ts sig of
             Inl _ \<Rightarrow> (Reply 400, s)
           | Inr event \<Rightarrow>
               (case handleVerified oid rival env now now' i event s of
                  (Inl e, s') \<Rightarrow> (ThrownReply e, s')
                | (Inr InvalidEvent, s') \<Rightarrow> (Reply 400, s')
                | (Inr Retry, s') \<Rightarrow> (ReplyRetryAfter 503 RETRY_AFTER_SECONDS, s')
                | (Inr _, s') \<Rightarrow> (Reply 204, s')))
      | _ \<Rightarrow> (Reply 400, s))"

end
