(* ===== verification/OptionalEmailSendsProps.thy ===== *)
theory OptionalEmailSendsProps
  imports OptionalEmailSends
begin

text \<open>
  What the ledger of optional emails guarantees whatever the workers do.  A run
  is the sequence of the single queries of all workers: leases are granted by an
  insert or a compare-and-set, an attempt is a successful \<open>markInFlight\<close>, after
  which its worker calls the provider.
\<close>

section \<open>Runs\<close>

datatype send_event = Granted string | Attempted string string millis | Recorded

fun granted :: "send_event list \<Rightarrow> string list" where
  "granted [] = []"
| "granted (Granted l # es) = l # granted es"
| "granted (_ # es) = granted es"

fun attempts :: "send_event list \<Rightarrow> (string \<times> string \<times> millis) list" where
  "attempts [] = []"
| "attempts (Attempted k l t # es) = (k, l, t) # attempts es"
| "attempts (_ # es) = attempts es"

lemma granted_append [simp]: "granted (es @ es') = granted es @ granted es'"
  by (induction es rule: granted.induct) simp_all

lemma attempts_append [simp]: "attempts (es @ es') = attempts es @ attempts es'"
  by (induction es rule: attempts.induct) simp_all

definition attempted :: "send_event list \<Rightarrow> string list" where
  "attempted es = map (\<lambda>(k, l, t). l) (attempts es)"

lemma attempted_append [simp]: "attempted (es @ es') = attempted es @ attempted es'"
  by (simp add: attempted_def)

lemma attempted_simps [simp]:
  "attempted [] = []" "attempted [Granted l] = []" "attempted [Recorded] = []" "attempted [Attempted k l t] = [l]"
  by (simp_all add: attempted_def)

definition may_reclaim :: "email_send \<Rightarrow> millis \<Rightarrow> bool" where
  \<comment> \<open>the tests \<open>reserve\<close> makes on the document it read\<close>
  "may_reclaim d at \<longleftrightarrow> os_status d \<notin> {Accepted, Blocked} \<and>
     (os_status d \<in> {Reserved, InFlight} \<longrightarrow> \<not> lease_running d at) \<and> \<not> retry_refused d at"

inductive send_step :: "(string \<Rightarrow> string option) \<Rightarrow> send_event \<Rightarrow> email_send list \<Rightarrow> email_send list \<Rightarrow> bool"
  for oid where
  insert: "insertOne os_sendKey (new_send i lease inp u at) c = Some c' \<Longrightarrow> send_step oid (Granted lease) c c'"
| reclaimed: "may_reclaim existing at \<Longrightarrow>
    findOneAndUpdate (reclaim_filter existing) (reclaim_send lease at) c = (Some dd, c') \<Longrightarrow>
    send_step oid (Granted lease) c c'"
| attempt: "markInFlight oid k leaseId (Some at) c = (True, c') \<Longrightarrow> oid leaseId = Some l \<Longrightarrow>
    send_step oid (Attempted k l at) c c'"
| accepted: "send_step oid Recorded c (snd (markAccepted oid k leaseId e date c))"
| failed: "send_step oid Recorded c (snd (markFailed oid k leaseId code date c))"
| blocked: "send_step oid Recorded c (snd (markBlocked oid k leaseId r date c))"
| deferred: "send_step oid Recorded c (snd (markDeferredForDailyLimit oid k leaseId date c))"

inductive send_run :: "(string \<Rightarrow> string option) \<Rightarrow> send_event list \<Rightarrow> email_send list \<Rightarrow> email_send list \<Rightarrow> bool"
  for oid where
  idle: "send_run oid [] c c"
| more: "send_run oid es c c' \<Longrightarrow> send_step oid e c' c'' \<Longrightarrow> send_run oid (es @ [e]) c c''"

lemma send_run_append: "send_run oid es' c' c'' \<Longrightarrow> send_run oid es c c' \<Longrightarrow> send_run oid (es @ es') c c''"
proof (induction rule: send_run.induct)
  case (idle c)
  then show ?case by simp
next
  case (more es2 c2 c3 e c4)
  then have "send_run oid (es @ es2) c c3" by simp
  from send_run.more [OF this more.hyps(2)] show ?case by simp
qed

lemma send_run_one: "send_step oid e c c' \<Longrightarrow> send_run oid [e] c c'"
  using send_run.more [OF send_run.idle] by simp

section \<open>A reservation is a run\<close>

definition runs_within :: "(string \<Rightarrow> string option) \<Rightarrow> string set \<Rightarrow> email_send list \<Rightarrow> email_send list \<Rightarrow> bool" where
  \<comment> \<open>some run that grants only leases of \<open>L\<close>\<close>
  "runs_within oid L c c' \<longleftrightarrow> (\<exists>es. send_run oid es c c' \<and> set (granted es) \<subseteq> L)"

lemma runs_within_refl [simp]: "runs_within oid L c c"
  unfolding runs_within_def by (intro exI [of _ "[]"]) (simp add: send_run.idle)

lemma runs_within_trans: "runs_within oid L c c' \<Longrightarrow> runs_within oid L c' c'' \<Longrightarrow> runs_within oid L c c''"
  unfolding runs_within_def by (elim exE conjE) (rule exI, rule conjI, erule (1) send_run_append, simp)

lemma runs_within_step: "send_step oid e c c' \<Longrightarrow> set (granted [e]) \<subseteq> L \<Longrightarrow> runs_within oid L c c'"
  unfolding runs_within_def using send_run_one by blast

lemma reclaim_runs:
  assumes "may_reclaim existing at" and "\<And>n x. runs_within oid L x (env n x)" and "lease \<in> L"
  shows "runs_within oid L c (snd (reclaim env lease k at existing c))"
proof (cases "findOneAndUpdate (reclaim_filter existing) (reclaim_send lease at) (env 1 c)")
  case (Pair dd c')
  show ?thesis
  proof (cases dd)
    case None
    with Pair have "c' = env 1 c" by (auto simp: findOneAndUpdate_def split: option.splits)
    with Pair None have "snd (reclaim env lease k at existing c) = env 2 (env 1 c)"
      by (simp add: reclaim_def Let_def split: option.split)
    then show ?thesis using assms(2) runs_within_trans by metis
  next
    case (Some p)
    with Pair have "runs_within oid L (env 1 c) c'"
      using runs_within_step [OF send_step.reclaimed [OF assms(1)]] assms(3) by simp
    moreover have "snd (reclaim env lease k at existing c) = c'"
      using Pair Some by (simp add: reclaim_def split: prod.split)
    ultimately show ?thesis using assms(2) runs_within_trans by metis
  qed
qed

lemma reserve_existing_cases:
  "reserve_existing env lease k at existing c = reclaim env lease k at existing c \<and> may_reclaim existing at \<or>
   snd (reserve_existing env lease k at existing c) = c \<and> \<not> may_reclaim existing at"
  by (auto simp: reserve_existing_def may_reclaim_def)

lemma reserve_existing_runs:
  assumes "\<And>n x. runs_within oid L x (env n x)" and "lease \<in> L"
  shows "runs_within oid L c (snd (reserve_existing env lease k at existing c))"
  using reserve_existing_cases [of env lease k at existing c] reclaim_runs [OF _ assms] by force

lemma reserve_send_runs:
  assumes "\<And>n x. runs_within oid L x (env n x)" and "{lease, lease'} \<subseteq> L"
  shows "runs_within oid L c (snd (reserve_send oid env i lease lease' inp c))"
proof (cases "validate_reservation oid inp")
  case None
  then show ?thesis by (simp add: reserve_send_def)
next
  case (Some v)
  obtain u at where v: "v = (u, at)" by (cases v)
  show ?thesis
  proof (cases "insertOne os_sendKey (new_send i lease inp u at) c")
    case None
    have "snd (reserve_send oid env i lease lease' inp c) = env 0 c \<or>
      (\<exists>ex. snd (reserve_send oid env i lease lease' inp c) =
         snd (reserve_existing env lease' (ri_sendKey inp) at ex (env 0 c)))"
      using \<open>validate_reservation oid inp = Some v\<close> v None
      by (auto simp: reserve_send_def Let_def split: option.split)
    moreover have "runs_within oid L (env 0 c) (snd (reserve_existing env lease' (ri_sendKey inp) at ex (env 0 c)))" for ex
      using reserve_existing_runs assms by blast
    ultimately show ?thesis using assms(1) runs_within_trans by metis
  next
    case (Some c')
    then show ?thesis
      using \<open>validate_reservation oid inp = Some v\<close> v runs_within_step [OF send_step.insert [OF Some]] assms(2)
      by (simp add: reserve_send_def)
  qed
qed

section \<open>Leases and attempts\<close>

definition attempt_covered :: "email_send list \<Rightarrow> string \<times> string \<times> millis \<Rightarrow> bool" where
  "attempt_covered c a = (case a of (k, l, t) \<Rightarrow>
     (\<exists>d \<in> set c. os_sendKey d = k \<and>
        (\<exists>f. os_firstProviderAttemptAt d = Some f \<and> f \<le> t \<and> t \<le> f + IDEMPOTENCY_SAFETY_WINDOW_MS)))"

definition leases_ok :: "send_event list \<Rightarrow> email_send list \<Rightarrow> bool" where
  "leases_ok es c \<longleftrightarrow>
     (\<forall>d \<in> set c. \<forall>l. os_activeLeaseId d = Some l \<longrightarrow> l \<in> set (granted es)) \<and>
     (\<forall>d \<in> set c. \<forall>d' \<in> set c. \<forall>l. os_activeLeaseId d = Some l \<longrightarrow> os_activeLeaseId d' = Some l \<longrightarrow> d = d') \<and>
     (\<forall>d \<in> set c. \<forall>l. os_status d = Reserved \<longrightarrow> os_activeLeaseId d = Some l \<longrightarrow> l \<notin> set (attempted es))"

definition ledger_ok :: "send_event list \<Rightarrow> email_send list \<Rightarrow> bool" where
  "ledger_ok es c \<longleftrightarrow> distinct (map os_sendKey c) \<and> leases_ok es c \<and> distinct (attempted es) \<and>
     set (attempted es) \<subseteq> set (granted es) \<and> (\<forall>a \<in> set (attempts es). attempt_covered c a)"

lemma ledger_ok_Nil: "ledger_ok [] []"
  by (simp add: ledger_ok_def leases_ok_def)

definition follows :: "email_send \<Rightarrow> email_send \<Rightarrow> bool" where
  \<comment> \<open>the key stays and the first attempt is not moved\<close>
  "follows d d' \<longleftrightarrow> os_sendKey d' = os_sendKey d \<and>
     (os_firstProviderAttemptAt d \<noteq> None \<longrightarrow> os_firstProviderAttemptAt d' = os_firstProviderAttemptAt d)"

lemma attempt_covered_mono:
  assumes "attempt_covered c a" and "\<And>x. x \<in> set c \<Longrightarrow> \<exists>y \<in> set c'. follows x y"
  shows "attempt_covered c' a"
proof -
  obtain k l t where a: "a = (k, l, t)" by (cases a)
  from assms(1) obtain x f where x: "x \<in> set c" "os_sendKey x = k" "os_firstProviderAttemptAt x = Some f"
    and f: "f \<le> t \<and> t \<le> f + IDEMPOTENCY_SAFETY_WINDOW_MS" by (auto simp: attempt_covered_def a)
  from assms(2) [OF x(1)] obtain y where y: "y \<in> set c'" "follows x y" by blast
  with x have "os_sendKey y = k \<and> os_firstProviderAttemptAt y = Some f" by (simp add: follows_def)
  with y f show ?thesis by (auto simp: attempt_covered_def a)
qed

lemma follows_refl [simp]: "follows d d"
  by (simp add: follows_def)

lemma follows_replaced:
  assumes "set c' = insert d' (set c - {d})" and "follows d d'" and "x \<in> set c"
  shows "\<exists>y \<in> set c'. follows x y"
  using assms follows_refl [of x] by (cases "x = d") blast+

lemma ledger_update:
  \<comment> \<open>an update that hands on the lease at most to a document in flight\<close>
  assumes ok: "ledger_ok es c" and hit: "findOne p c = Some d" and fd: "follows d (f d)"
    and lease: "os_activeLeaseId (f d) = None \<or> os_activeLeaseId (f d) = os_activeLeaseId d \<and> os_status (f d) \<noteq> Reserved"
  shows "ledger_ok es (updateFirst p f c)"
proof -
  have d: "d \<in> set c" using findOne_Some [OF hit] by simp
  have keys: "distinct (map os_sendKey c)" and l: "leases_ok es c" using ok by (simp_all add: ledger_ok_def)
  have s: "set (updateFirst p f c) = insert (f d) (set c - {d})" "distinct (map os_sendKey (updateFirst p f c))"
    using updateFirst_key [OF keys hit, of f] fd by (simp_all add: follows_def)
  have "leases_ok es (updateFirst p f c)"
    using l d lease unfolding leases_ok_def s(1) by (elim conjE, intro conjI) (force, force, force)
  moreover have "attempt_covered (updateFirst p f c) a" if "a \<in> set (attempts es)" for a
  proof (rule attempt_covered_mono)
    show "attempt_covered c a" using ok that by (simp add: ledger_ok_def)
    show "\<exists>y \<in> set (updateFirst p f c). follows x y" if "x \<in> set c" for x
      using follows_replaced [OF s(1) fd that] .
  qed
  ultimately show ?thesis using ok s(2) by (simp add: ledger_ok_def)
qed

lemma ledger_recorded: "ledger_ok es c \<Longrightarrow> ledger_ok (es @ [Recorded]) c"
  by (simp add: ledger_ok_def leases_ok_def)

lemma ledger_guarded:
  assumes "ledger_ok es c" and "\<And>d. p d \<Longrightarrow> follows d (f d) \<and> os_activeLeaseId (f d) = None"
  shows "ledger_ok es (updateFirst p f c)"
proof (cases "findOne p c")
  case None
  then show ?thesis using assms(1) by (simp add: updateFirst_none)
next
  case (Some d)
  then show ?thesis using ledger_update [OF assms(1) Some] assms(2) findOne_Some [OF Some] by blast
qed

lemma ledger_insert:
  assumes ok: "ledger_ok es c" and c': "insertOne os_sendKey (new_send i lease inp u at) c = Some c'"
    and fresh: "lease \<notin> set (granted es)"
  shows "ledger_ok (es @ [Granted lease]) c'"
proof -
  let ?d = "new_send i lease inp u at"
  have e: "c' = c @ [?d]" using c' by (auto simp: insertOne_def split: if_splits)
  have k: "distinct (map os_sendKey c')"
    using insertOne_distinct [OF c'] ok by (simp add: ledger_ok_def)
  have "leases_ok (es @ [Granted lease]) c'"
    using ok fresh unfolding leases_ok_def ledger_ok_def e by (auto simp: new_send_def)
  moreover have "attempt_covered c' a" if "a \<in> set (attempts es)" for a
  proof (rule attempt_covered_mono)
    show "attempt_covered c a" using ok that by (simp add: ledger_ok_def)
    show "\<exists>y \<in> set c'. follows x y" if "x \<in> set c" for x
      using that by (intro bexI [of _ x]) (simp_all add: e)
  qed
  ultimately show ?thesis using ok k by (auto simp: ledger_ok_def)
qed

lemma ledger_reclaimed:
  assumes ok: "ledger_ok es c" and r: "findOneAndUpdate (reclaim_filter ex) (reclaim_send lease at) c = (Some dd, c')"
    and fresh: "lease \<notin> set (granted es)"
  shows "ledger_ok (es @ [Granted lease]) c'"
proof -
  obtain d where hit: "findOne (reclaim_filter ex) c = Some d" and c': "c' = updateFirst (reclaim_filter ex) (reclaim_send lease at) c"
    using r by (auto simp: findOneAndUpdate_def split: option.splits)
  have d: "d \<in> set c" using findOne_Some [OF hit] by simp
  have keys: "distinct (map os_sendKey c)" and l: "leases_ok es c" using ok by (simp_all add: ledger_ok_def)
  have s: "set c' = insert (reclaim_send lease at d) (set c - {d})" "distinct (map os_sendKey c')"
    using updateFirst_key [OF keys hit, of "reclaim_send lease at"] by (simp_all add: c' reclaim_send_def)
  have "leases_ok (es @ [Granted lease]) c'"
    using l d fresh ok unfolding leases_ok_def s(1) ledger_ok_def by (auto simp: reclaim_send_def)
  moreover have "attempt_covered c' a" if "a \<in> set (attempts es)" for a
  proof (rule attempt_covered_mono)
    show "attempt_covered c a" using ok that by (simp add: ledger_ok_def)
    show "\<exists>y \<in> set c'. follows x y" if "x \<in> set c" for x
      by (rule follows_replaced [OF s(1) _ that]) (simp add: follows_def reclaim_send_def)
  qed
  ultimately show ?thesis using ok s(2) by (auto simp: ledger_ok_def)
qed

lemma ledger_attempt:
  assumes ok: "ledger_ok es c" and m: "markInFlight oid k leaseId (Some at) c = (True, c')" and l: "oid leaseId = Some l"
  shows "ledger_ok (es @ [Attempted k l at]) c'"
proof -
  let ?p = "in_flight_filter k l at"
  have g: "guarded ?p (put_in_flight at) c = (True, c')"
    using m l by (auto simp: markInFlight_def split: bool.splits)
  then obtain d where hit: "findOne ?p c = Some d" and c': "c' = updateFirst ?p (put_in_flight at) c"
    by (auto simp: guarded_def)
  have d: "d \<in> set c" and p: "?p d" using findOne_Some [OF hit] by auto
  from p have h: "os_sendKey d = k" "os_status d = Reserved" "os_activeLeaseId d = Some l"
    by (simp_all add: in_flight_filter_def holds_lease_def)
  have f: "follows d (put_in_flight at d)"
    by (auto simp: follows_def put_in_flight_def split: option.split)
  have ok': "ledger_ok es c'" unfolding c'
    by (rule ledger_update [where f = "put_in_flight at", OF ok hit f]) (simp add: put_in_flight_def)
  have keys: "distinct (map os_sendKey c)" using ok by (simp add: ledger_ok_def)
  have s: "set c' = insert (put_in_flight at d) (set c - {d})"
    using updateFirst_key [OF keys hit, of "put_in_flight at"] f by (simp add: c' follows_def)
  have fresh: "l \<notin> set (attempted es)" "l \<in> set (granted es)"
    using ok d h by (auto simp: ledger_ok_def leases_ok_def)
  have others: "os_activeLeaseId x \<noteq> Some l" if "x \<in> set c'" "os_status x = Reserved" for x
    using that ok d h unfolding s ledger_ok_def leases_ok_def by (auto simp: put_in_flight_def)
  have "leases_ok (es @ [Attempted k l at]) c'"
    using ok' others unfolding ledger_ok_def leases_ok_def by auto
  moreover have "attempt_covered c' (k, l, at)"
    using p h unfolding attempt_covered_def s
    by (auto simp: put_in_flight_def in_flight_filter_def IDEMPOTENCY_SAFETY_WINDOW_MS_def split: option.splits)
  ultimately show ?thesis using ok' fresh by (auto simp: ledger_ok_def)
qed

lemma send_step_ok:
  assumes "send_step oid e c c'" and "ledger_ok es c" and "distinct (granted (es @ [e]))"
  shows "ledger_ok (es @ [e]) c'"
  using assms
proof (induction rule: send_step.induct)
  case (insert i lease inp u at c c')
  then show ?case using ledger_insert by simp
next
  case (reclaimed existing at lease c dd c')
  then show ?case using ledger_reclaimed by simp
next
  case (attempt k leaseId at c c' l)
  then show ?case using ledger_attempt by simp
next
  case (accepted c k leaseId e date)
  have "follows d (put_accepted e at d) \<and> os_activeLeaseId (put_accepted e at d) = None" for d at
    by (simp add: follows_def put_accepted_def)
  then show ?case using ledger_recorded accepted
    by (auto simp: markAccepted_def intro!: ledger_recorded ledger_guarded split: bool.splits option.splits)
next
  case (failed c k leaseId code date)
  have "follows d (put_failed code at d) \<and> os_activeLeaseId (put_failed code at d) = None" for d at
    by (simp add: follows_def put_failed_def)
  then show ?case using failed
    by (auto simp: markFailed_def guarded_def intro!: ledger_recorded ledger_guarded split: bool.splits option.splits)
next
  case (blocked c k leaseId r date)
  have "follows d (put_blocked r at d) \<and> os_activeLeaseId (put_blocked r at d) = None" for d at
    by (simp add: follows_def put_blocked_def)
  then show ?case using blocked
    by (auto simp: markBlocked_def guarded_def intro!: ledger_recorded ledger_guarded split: bool.splits option.splits)
next
  case (deferred c k leaseId date)
  have "follows d (put_deferred at d) \<and> os_activeLeaseId (put_deferred at d) = None" for d at
    by (simp add: follows_def put_deferred_def)
  then show ?case using deferred
    by (auto simp: markDeferredForDailyLimit_def guarded_def intro!: ledger_recorded ledger_guarded
        split: bool.splits option.splits)
qed

lemma send_run_ok: "send_run oid es c c' \<Longrightarrow> ledger_ok [] c \<Longrightarrow> distinct (granted es) \<Longrightarrow> ledger_ok es c'"
proof (induction rule: send_run.induct)
  case (more es c c' e c'')
  then show ?case using send_step_ok by simp
qed simp

lemma attempts_close:
  assumes ok: "ledger_ok es c" and a: "(k, l, t) \<in> set (attempts es)" and a': "(k, l', t') \<in> set (attempts es)"
  shows "t' - t \<le> IDEMPOTENCY_SAFETY_WINDOW_MS"
proof -
  have cov: "attempt_covered c (k, l, t)" "attempt_covered c (k, l', t')"
    using ok a a' by (simp_all only: ledger_ok_def)
  obtain d f where d: "d \<in> set c" "os_sendKey d = k" "os_firstProviderAttemptAt d = Some f" "f \<le> t"
    using cov(1) unfolding attempt_covered_def prod.case by blast
  obtain d' f' where d': "d' \<in> set c" "os_sendKey d' = k" "os_firstProviderAttemptAt d' = Some f'"
    "t' \<le> f' + IDEMPOTENCY_SAFETY_WINDOW_MS"
    using cov(2) unfolding attempt_covered_def prod.case by blast
  have "distinct (map os_sendKey c)" using ok by (simp only: ledger_ok_def)
  then have "inj_on os_sendKey (set c)" by (simp add: distinct_map)
  then have "d = d'" using d(1,2) d'(1,2) by (simp add: inj_on_def)
  with d d' show ?thesis by simp
qed

text \<open>C21: However the workers of the optional emails interleave, a lease reaches the provider at most
  once, and all attempts under one send key lie within the provider's idempotency window of each
  other, so that the provider can collapse them into one email. The driver's ids are distinct.\<close>
theorem provider_attempts_fenced:
  assumes "send_run oid es [] c" and "distinct (granted es)"
  shows "distinct (attempted es) \<and>
    list_all (\<lambda>(k, l, t). list_all (\<lambda>(k', l', t').
      k = k' \<longrightarrow> t' - t \<le> IDEMPOTENCY_SAFETY_WINDOW_MS) (attempts es)) (attempts es)"
proof (rule conjI)
  have ok: "ledger_ok es c" using send_run_ok [OF assms(1) ledger_ok_Nil assms(2)] .
  then show "distinct (attempted es)" by (simp add: ledger_ok_def)
  have "t' - t \<le> IDEMPOTENCY_SAFETY_WINDOW_MS"
    if a: "(k, l, t) \<in> set (attempts es)" and a': "(k, l', t') \<in> set (attempts es)" for k l t l' t'
    using attempts_close [OF ok a a'] .
  then show "list_all (\<lambda>(k, l, t). list_all (\<lambda>(k', l', t').
      k = k' \<longrightarrow> t' - t \<le> IDEMPOTENCY_SAFETY_WINDOW_MS) (attempts es)) (attempts es)"
    unfolding list_all_iff by blast
qed

section \<open>Settled sends\<close>

definition settled_send :: "string \<Rightarrow> email_send list \<Rightarrow> email_send option" where
  "settled_send k c = (case findOne (\<lambda>d. os_sendKey d = k) c of
     None \<Rightarrow> None | Some d \<Rightarrow> if os_status d \<in> {Accepted, Blocked} then Some d else None)"

definition send_move :: "email_send \<Rightarrow> email_send \<Rightarrow> bool" where
  "send_move d d' \<longleftrightarrow> os_sendKey d' = os_sendKey d \<and> (os_status d \<in> {Accepted, Blocked} \<longrightarrow> d' = d)"

lemma send_move_refl [simp]: "send_move d d"
  by (simp add: send_move_def)

lemma put_moves:
  "holds_lease st k l d \<Longrightarrow> st \<in> {Reserved, InFlight} \<Longrightarrow>
     send_move d (put_accepted e at d) \<and> send_move d (put_failed code at d) \<and> send_move d (put_blocked r at d) \<and>
     send_move d (put_deferred at d) \<and> send_move d (put_in_flight at d)"
  by (auto simp: send_move_def holds_lease_def put_accepted_def put_failed_def put_blocked_def put_deferred_def
      put_in_flight_def)

lemma reclaim_moves: "may_reclaim ex at \<Longrightarrow> reclaim_filter ex d \<Longrightarrow> send_move d (reclaim_send lease at d)"
  by (auto simp: send_move_def may_reclaim_def reclaim_filter_def reclaim_send_def)

lemma send_evolves:
  "(\<And>d. p d \<Longrightarrow> send_move d (f d)) \<Longrightarrow> evolves_by send_move c (updateFirst p f c)"
  by (rule evolves_by_updateFirst) simp_all

lemma send_step_evolves: "send_step oid e c c' \<Longrightarrow> evolves_by send_move c c'"
proof (induction rule: send_step.induct)
  case (insert i lease inp u at c c')
  show ?case by (rule evolves_by_insertOne [OF _ insert]) simp
next
  case (reclaimed existing at lease c dd c')
  have "c' = updateFirst (reclaim_filter existing) (reclaim_send lease at) c"
    using reclaimed(2) by (auto simp: findOneAndUpdate_def split: option.splits)
  then show ?case using send_evolves reclaim_moves [OF reclaimed(1)] by blast
next
  case (attempt k leaseId at c c' l)
  have "send_move d (put_in_flight at d)" if "in_flight_filter k l at d" for d
    using that put_moves [of Reserved k l d] by (simp add: in_flight_filter_def)
  then show ?case using attempt send_evolves
    by (auto simp: markInFlight_def guarded_def split: bool.splits)
qed (auto simp: markAccepted_def markFailed_def markBlocked_def markDeferredForDailyLimit_def guarded_def put_moves
    intro!: send_evolves intro: evolves_by_refl split: bool.splits option.splits)

lemma settled_step:
  assumes "send_step oid e c c'" and "settled_send k c = Some d"
  shows "settled_send k c' = Some d"
proof -
  have f: "findOne (\<lambda>d. os_sendKey d = k) c = Some d" and st: "os_status d \<in> {Accepted, Blocked}"
    using assms(2) by (auto simp: settled_send_def split: option.splits if_splits)
  have "\<exists>d'. findOne (\<lambda>d. os_sendKey d = k) c' = Some d' \<and> send_move d d'"
    by (rule evolves_by_find [OF send_step_evolves [OF assms(1)] f]) (simp add: send_move_def)
  then show ?thesis using st by (auto simp: settled_send_def send_move_def)
qed

interpretation settled: write_once "\<lambda>c c'. \<exists>e. send_step oid e c c'" settled_send for oid
  by unfold_locales (use settled_step in blast)

lemma send_run_steps: "send_run oid es c c' \<Longrightarrow> (\<lambda>c c'. \<exists>e. send_step oid e c c')\<^sup>*\<^sup>* c c'"
proof (induction rule: send_run.induct)
  case (more es c c' e c'')
  then show ?case by (intro rtranclp.rtrancl_into_rtrancl [OF more.IH]) blast
qed simp

lemma settled_run: "send_run oid es c c' \<Longrightarrow> settled_send k c = Some d \<Longrightarrow> settled_send k c' = Some d"
  by (rule settled.keeps_many [OF send_run_steps])

lemma settled_runs_within: "runs_within oid L c c' \<Longrightarrow> settled_send k c = Some d \<Longrightarrow> settled_send k c' = Some d"
  unfolding runs_within_def using settled_run by blast

lemma settled_found: "settled_send k c = Some d \<Longrightarrow> findOne (\<lambda>d. os_sendKey d = k) c = Some d \<and> os_status d \<in> {Accepted, Blocked}"
  by (auto simp: settled_send_def split: option.splits if_splits)

lemma reserve_settled:
  assumes "settled_send (ri_sendKey inp) c = Some d" and "\<And>n x. runs_within oid L x (env n x)"
  shows "fst (reserve_send oid env i lease lease' inp c) \<in> {Inl InternalServerError, Inr (Duplicate d)}"
proof (cases "validate_reservation oid inp")
  case None
  then show ?thesis by (simp add: reserve_send_def)
next
  case (Some v)
  obtain u at where v: "v = (u, at)" by (cases v)
  have s: "findOne (\<lambda>d. os_sendKey d = ri_sendKey inp) c = Some d"
    "findOne (\<lambda>d. os_sendKey d = ri_sendKey inp) (env 0 c) = Some d" "os_status d \<in> {Accepted, Blocked}"
    using settled_found settled_runs_within assms by blast+
  have "insertOne os_sendKey (new_send i lease inp u at) c = None"
    using findOne_Some [OF s(1)] by (auto simp: insertOne_def new_send_def)
  then show ?thesis using Some v s(2,3)
    by (auto simp: reserve_send_def findBySendKey_def reserve_existing_def Let_def)
qed

text \<open>C22: An accepted or blocked email is final: whatever the workers do, its document stays as it is,
  and a later reservation of its key, interleaved with other workers, is told it is a duplicate (or
  fails for its own arguments) and is granted no lease.\<close>
theorem settled_send_is_final:
  assumes "send_run oid es c c'" and "settled_send k c = Some d"
    and "\<And>n x. runs_within oid L x (env n x)" and "ri_sendKey inp = k"
  shows "settled_send k c' = Some d \<and>
    fst (reserve_send oid env i lease lease' inp c') \<in> {Inl InternalServerError, Inr (Duplicate d)}"
  using settled_run [OF assms(1,2)] reserve_settled assms(3,4) by blast

section \<open>An undisturbed worker\<close>

lemma findOne_by_key:
  assumes "distinct (map key c)" and "d \<in> set c" and "p d" and "\<And>x. p x \<Longrightarrow> key x = key d"
  shows "findOne p c = Some d"
proof (cases "findOne p c")
  case None
  then show ?thesis using assms(2,3) findOne_None by metis
next
  case (Some x)
  then have "x \<in> set c" "key x = key d" using findOne_Some [OF Some] assms(4) by blast+
  then show ?thesis using Some assms(1,2) by (auto simp: distinct_map inj_on_def)
qed

definition grants :: "email_send \<Rightarrow> string \<Rightarrow> string \<Rightarrow> millis \<Rightarrow> email_send list \<Rightarrow> bool" where
  \<comment> \<open>the collection holds the reserved document, with a lease that starts now and may still be used\<close>
  "grants d k l at c \<longleftrightarrow> sendKey_ok k \<and> distinct (map os_sendKey c) \<and> d \<in> set c \<and> holds_lease Reserved k l d \<and>
     os_updatedAt d = at \<and> \<not> providerRetryExpired d at"

lemma reclaim_undisturbed:
  assumes r: "reclaim (\<lambda>n x. x) lease k at ex c = (Inr (ReservedSend d l), c')" and m: "may_reclaim ex at"
    and ex: "ex \<in> set c" "os_sendKey ex = k" "sendKey_ok k"
    and keys: "distinct (map os_sendKey c)" and ids: "distinct (map os_id c)"
  shows "grants d k l at c' \<and> l = lease"
proof -
  have hit: "findOne (reclaim_filter ex) c = Some ex"
    by (rule findOne_by_key [OF ids ex(1)]) (simp_all add: reclaim_filter_def)
  with r have d: "d = reclaim_send lease at ex" "l = lease" "c' = updateFirst (reclaim_filter ex) (reclaim_send lease at) c"
    by (auto simp: reclaim_def findOneAndUpdate_def)
  have "distinct (map os_sendKey c') \<and> d \<in> set c'"
    using updateFirst_key [OF keys hit, of "reclaim_send lease at"] by (simp add: d reclaim_send_def)
  then show ?thesis using m ex d(2)
    by (auto simp: grants_def d(1) reclaim_send_def holds_lease_def providerRetryExpired_def may_reclaim_def
        split: send_status.splits option.splits)
qed

lemma reserve_undisturbed:
  assumes r: "reserve_send oid (\<lambda>n x. x) i lease lease' inp c = (Inr (ReservedSend d l), c')"
    and at: "ri_at inp = Some at" and keys: "distinct (map os_sendKey c)" and ids: "distinct (map os_id c)"
  shows "grants d (ri_sendKey inp) l at c' \<and> l \<in> {lease, lease'}"
proof -
  obtain u where v: "validate_reservation oid inp = Some (u, at)" and ok: "sendKey_ok (ri_sendKey inp)"
    using r at by (auto simp: reserve_send_def validate_reservation_def split: option.splits if_splits)
  show ?thesis
  proof (cases "insertOne os_sendKey (new_send i lease inp u at) c")
    case (Some c1)
    then have "c' = c1" "d = new_send i lease inp u at" "l = lease" using r v by (auto simp: reserve_send_def)
    then show ?thesis using Some insertOne_distinct [OF Some keys] ok
      by (auto simp: grants_def insertOne_def holds_lease_def new_send_def providerRetryExpired_def split: if_splits)
  next
    case None
    obtain ex where f: "findBySendKey (ri_sendKey inp) c = Some ex"
      and e: "reserve_existing (\<lambda>n x. x) lease' (ri_sendKey inp) at ex c = (Inr (ReservedSend d l), c')"
      using r v None by (auto simp: reserve_send_def Let_def split: option.splits if_splits)
    have ex: "ex \<in> set c" "os_sendKey ex = ri_sendKey inp"
      using f findOne_Some [of _ c ex] by (auto simp: findBySendKey_def split: if_splits)
    have "may_reclaim ex at \<and> reclaim (\<lambda>n x. x) lease' (ri_sendKey inp) at ex c = (Inr (ReservedSend d l), c')"
      using e by (auto simp: reserve_existing_def may_reclaim_def split: if_splits)
    then show ?thesis using reclaim_undisturbed ex ok keys ids by blast
  qed
qed

text \<open>A granted reservation can be used: a worker that is not disturbed and comes back within five
  minutes, inside the idempotency window of a first attempt, marks its email in flight, and the
  document then counts one more attempt.\<close>
lemma reservation_is_usable:
  assumes "reserve_send oid (\<lambda>n x. x) i lease lease' inp c = (Inr (ReservedSend d l), c')"
    and "ri_at inp = Some at" and "distinct (map os_sendKey c)" and "distinct (map os_id c)"
    and "oid l = Some l" and "at \<le> now" and "now \<le> at + RESERVATION_LEASE_MS" and "\<not> providerRetryExpired d now"
  shows "\<exists>c''. markInFlight oid (ri_sendKey inp) l (Some now) c' = (True, c'') \<and>
    findBySendKey (ri_sendKey inp) c'' = Some (put_in_flight now d)"
proof -
  have g: "grants d (ri_sendKey inp) l at c'" using reserve_undisturbed assms(1-4) by blast
  let ?p = "in_flight_filter (ri_sendKey inp) l now"
  have p: "?p d" using g assms(6-8)
    by (auto simp: grants_def in_flight_filter_def holds_lease_def providerRetryExpired_def split: option.splits)
  have key: "?p x \<Longrightarrow> os_sendKey x = ri_sendKey inp" for x by (simp add: in_flight_filter_def holds_lease_def)
  have hit: "findOne ?p c' = Some d"
  proof (rule findOne_by_key [where key = os_sendKey])
    show "os_sendKey x = os_sendKey d" if "?p x" for x using key [OF that] key [OF p] by simp
  qed (use g p in \<open>simp_all only: grants_def\<close>)
  let ?c = "updateFirst ?p (put_in_flight now) c'"
  have "put_in_flight now d \<in> set ?c \<and> distinct (map os_sendKey ?c)"
    using updateFirst_key [of os_sendKey c' ?p d "put_in_flight now"] hit g by (simp add: grants_def put_in_flight_def)
  then have "findOne (\<lambda>x. os_sendKey x = os_sendKey (put_in_flight now d)) ?c = Some (put_in_flight now d)"
    by (elim conjE) (rule findOne_unique [where key = os_sendKey])
  then show ?thesis using g hit assms(5)
    by (simp add: markInFlight_def guarded_def findBySendKey_def grants_def holds_lease_def put_in_flight_def)
qed

section \<open>A run\<close>

definition demo_oid :: "string \<Rightarrow> string option" where
  "demo_oid s = (if s = [] then None else Some s)"

definition demo_reservation :: reservation_input where
  "demo_reservation = \<lparr>ri_sendKey = ''k'', ri_userId = ''u'', ri_campaignId = ''may'', ri_reminderKind = BridgeSetup,
     ri_at = Some 1000\<rparr>"

definition demo_failed :: "email_send list" where
  \<comment> \<open>after a first attempt that failed\<close>
  "demo_failed = [put_failed ''timeout'' 3000 (put_in_flight 2000 (new_send ''i'' ''l1'' demo_reservation ''u'' 1000))]"

definition demo_second :: "email_send list" where
  \<comment> \<open>after the second attempt\<close>
  "demo_second = map (put_in_flight 5000 \<circ> reclaim_send ''l2'' 4000) demo_failed"

lemmas demo_sends = demo_oid_def demo_reservation_def demo_failed_def demo_second_def put_failed_def put_in_flight_def
  new_send_def reclaim_send_def put_accepted_def

lemmas send_queries = markInFlight_def markFailed_def markAccepted_def guarded_def in_flight_filter_def holds_lease_def
  sendKey_ok_def failure_code_char_def insertOne_def findOneAndUpdate_def reclaim_filter_def

lemma demo_first_attempt:
  "send_run demo_oid [Granted ''l1'', Attempted ''k'' ''l1'' 2000, Recorded] [] demo_failed"
proof -
  let ?n = "new_send ''i'' ''l1'' demo_reservation ''u'' 1000"
  have a: "send_step demo_oid (Granted ''l1'') [] [?n]"
    by (rule send_step.insert) (simp add: insertOne_def)
  have b: "send_step demo_oid (Attempted ''k'' ''l1'' 2000) [?n] [put_in_flight 2000 ?n]"
    by (rule send_step.attempt [where leaseId = "''l1''"]) (simp_all add: demo_sends send_queries send_windows)
  have "snd (markFailed demo_oid ''k'' ''l1'' ''timeout'' (Some 3000) [put_in_flight 2000 ?n]) = demo_failed"
    by (simp add: demo_sends send_queries)
  then have c: "send_step demo_oid Recorded [put_in_flight 2000 ?n] demo_failed"
    using send_step.failed by metis
  show ?thesis
    using send_run.more [OF send_run.more [OF send_run_one [OF a] b] c] by simp
qed

lemma demo_second_attempt:
  "send_run demo_oid [Granted ''l2'', Attempted ''k'' ''l2'' 5000] demo_failed demo_second"
proof -
  let ?r = "map (reclaim_send ''l2'' 4000) demo_failed"
  have a: "send_step demo_oid (Granted ''l2'') demo_failed ?r"
    by (rule send_step.reclaimed [where existing = "hd demo_failed" and at = 4000])
      (simp_all add: demo_sends send_queries may_reclaim_def providerRetryExpired_def send_windows)
  have b: "send_step demo_oid (Attempted ''k'' ''l2'' 5000) ?r demo_second"
    by (rule send_step.attempt [where leaseId = "''l2''"]) (simp_all add: demo_sends send_queries send_windows)
  show ?thesis using send_run.more [OF send_run_one [OF a] b] by simp
qed

lemma demo_run:
  "send_run demo_oid [Granted ''l1'', Attempted ''k'' ''l1'' 2000, Recorded, Granted ''l2'', Attempted ''k'' ''l2'' 5000] [] demo_second"
  using send_run_append [OF demo_second_attempt demo_first_attempt] by simp

theorem provider_attempts_fenced_witness:
  "distinct [''l1'', ''l2''] \<and> 5000 - 2000 \<le> IDEMPOTENCY_SAFETY_WINDOW_MS"
  using provider_attempts_fenced [OF demo_run] by simp

definition demo_sent :: "email_send list" where
  "demo_sent = map (put_accepted ''e'' 6000) demo_second"

lemma demo_settled: "settled_send ''k'' demo_sent = Some (hd demo_sent)"
  by (simp add: settled_send_def demo_sent_def demo_sends)

theorem settled_send_is_final_witness:
  "fst (reserve_send demo_oid (\<lambda>n x. x) ''i2'' ''l3'' ''l4'' (demo_reservation\<lparr>ri_at := Some 900000\<rparr>) demo_sent)
     \<in> {Inl InternalServerError, Inr (Duplicate (hd demo_sent))}"
  using settled_send_is_final [OF send_run.idle demo_settled, of demo_oid "{}" "\<lambda>n x. x"
      "demo_reservation\<lparr>ri_at := Some 900000\<rparr>" "''i2''" "''l3''" "''l4''"] by (simp add: demo_reservation_def)

lemma demo_granted:
  "reserve_send demo_oid (\<lambda>n x. x) ''i'' ''l1'' ''l2'' demo_reservation [] =
     (Inr (ReservedSend (new_send ''i'' ''l1'' demo_reservation ''u'' 1000) ''l1''),
      [new_send ''i'' ''l1'' demo_reservation ''u'' 1000])"
  by (simp add: reserve_send_def validate_reservation_def demo_oid_def demo_reservation_def sendKey_ok_def key_char_def
      insertOne_def)

lemma reservation_is_usable_witness:
  "\<exists>c''. markInFlight demo_oid ''k'' ''l1'' (Some 2000) [new_send ''i'' ''l1'' demo_reservation ''u'' 1000] = (True, c'') \<and>
     findBySendKey ''k'' c'' = Some (put_in_flight 2000 (new_send ''i'' ''l1'' demo_reservation ''u'' 1000))"
  using reservation_is_usable [OF demo_granted, of 1000 2000]
  by (simp add: demo_reservation_def demo_oid_def providerRetryExpired_def new_send_def send_windows)

end
