(* ===== verification/OptionalEmailProps.thy ===== *)
theory OptionalEmailProps
  imports OptionalEmailServices OptionalEmailSendsProps "HOL-Library.Multiset"
begin

text \<open>
  What holds of the quota, the opt-out preference, the recipient, the dry run and
  the webhooks.
\<close>

section \<open>The daily quota\<close>

datatype quota_event = Reservation int int | NoReservation

inductive quota_step :: "quota_event \<Rightarrow> daily_quota list \<Rightarrow> daily_quota list \<Rightarrow> bool" where
  ensured: "quota_step NoReservation c (ensureDay None day at c)"
| taken: "take_quota day cap at c = (Some dd, c') \<Longrightarrow> quota_step (Reservation day cap) c c'"

inductive quota_run :: "quota_event list \<Rightarrow> daily_quota list \<Rightarrow> daily_quota list \<Rightarrow> bool" where
  idle: "quota_run [] c c"
| more: "quota_run es c c' \<Longrightarrow> quota_step e c' c'' \<Longrightarrow> quota_run (es @ [e]) c c''"

definition of_day :: "int \<Rightarrow> quota_event \<Rightarrow> bool" where
  "of_day day e = (case e of Reservation d _ \<Rightarrow> d = day | NoReservation \<Rightarrow> False)"

definition reserved_on :: "int \<Rightarrow> quota_event list \<Rightarrow> nat" where
  "reserved_on day es = length (filter (of_day day) es)"

definition capped :: "int \<Rightarrow> quota_event \<Rightarrow> bool" where
  "capped m e = (case e of Reservation _ cap \<Rightarrow> cap \<le> m | NoReservation \<Rightarrow> True)"

definition used_of :: "int \<Rightarrow> daily_quota list \<Rightarrow> int" where
  "used_of day c = (case findOne (\<lambda>d. dq_date d = day) c of None \<Rightarrow> 0 | Some d \<Rightarrow> dq_used d)"

lemma used_of_other:
  "day' \<noteq> day \<Longrightarrow> used_of day' (updateFirst (\<lambda>d. dq_date d = day \<and> q d) (\<lambda>d. d\<lparr>dq_used := dq_used d + 1, dq_updatedAt := at\<rparr>) c)
     = used_of day' c"
  unfolding used_of_def by (subst findOne_updateFirst_other) auto

lemma take_quota_effect:
  assumes "distinct (map dq_date c)" and "take_quota day cap at c = (Some dd, c')"
  shows "used_of day c < cap \<and> used_of day c' = used_of day c + 1 \<and> distinct (map dq_date c') \<and>
    (\<forall>day'. day' \<noteq> day \<longrightarrow> used_of day' c' = used_of day' c)"
proof -
  let ?p = "\<lambda>d. dq_date d = day \<and> dq_used d < cap" and ?f = "\<lambda>d. d\<lparr>dq_used := dq_used d + 1, dq_updatedAt := at\<rparr>"
  obtain d where hit: "findOne ?p c = Some d" and c': "c' = updateFirst ?p ?f c"
    using assms(2) by (auto simp: take_quota_def findOneAndUpdate_def split: option.splits)
  have d: "d \<in> set c" "dq_date d = day" "dq_used d < cap" using findOne_Some [OF hit] by auto
  have "findOne (\<lambda>x. dq_date x = day) c = Some d"
    by (rule findOne_by_key [OF assms(1) d(1)]) (simp_all add: d)
  then have u: "used_of day c = dq_used d" by (simp add: used_of_def)
  have k: "?f d \<in> set c'" "distinct (map dq_date c')"
    using updateFirst_key [OF assms(1) hit, of ?f] by (simp_all add: c')
  have "findOne (\<lambda>x. dq_date x = day) c' = Some (?f d)"
    by (rule findOne_by_key [OF k(2,1)]) (simp_all add: d)
  then have "used_of day c' = dq_used d + 1" by (simp add: used_of_def)
  then show ?thesis using u d(3) k(2) used_of_other unfolding c' by simp
qed

lemma ensureDay_effect:
  assumes "distinct (map dq_date c)"
  shows "distinct (map dq_date (ensureDay None day at c)) \<and> used_of day' (ensureDay None day at c) = used_of day' c"
  using assms by (auto simp: ensureDay_def used_of_def findOne_append findOne_None split: option.split
      dest!: findOne_Some)

lemma quota_run_counts:
  "quota_run es c c' \<Longrightarrow> c = [] \<Longrightarrow> list_all (capped m) es \<Longrightarrow> 0 \<le> m \<Longrightarrow>
   distinct (map dq_date c') \<and> (\<forall>day. used_of day c' = int (reserved_on day es) \<and> int (reserved_on day es) \<le> m)"
proof (induction rule: quota_run.induct)
  case (idle c)
  then show ?case by (simp add: used_of_def reserved_on_def)
next
  case (more es c c' e c'')
  then have ih: "distinct (map dq_date c')" "\<And>day. used_of day c' = int (reserved_on day es)"
    "\<And>day. int (reserved_on day es) \<le> m" and e: "capped m e" by simp_all
  from more.hyps(2) show ?case
  proof cases
    case (ensured day at)
    then show ?thesis using ih ensureDay_effect [OF ih(1)] by (simp add: reserved_on_def of_day_def)
  next
    case (taken day cap at dd)
    note t = take_quota_effect [OF ih(1) taken(2)]
    have "used_of day c' < m" using t e taken(1) by (simp add: capped_def)
    moreover have "reserved_on d (es @ [e]) = reserved_on d es + (if d = day then 1 else 0)" for d
      by (simp add: reserved_on_def of_day_def taken(1))
    ultimately show ?thesis using ih t by auto
  qed
qed

text \<open>However the senders interleave, a day's counter is exactly the number of reservations granted
  for it, so no more are granted on a day than the largest cap in use, at most eighty.\<close>
lemma quota_never_exceeded:
  assumes "quota_run es [] c" and "list_all (capped m) es" and "0 \<le> m" and "m \<le> OPTIONAL_EMAIL_MAX_DAILY_CAP"
  shows "int (reserved_on day es) \<le> m \<and> m \<le> 80 \<and>
    getUsage (Some at) (Integer 80) c =
      Inr \<lparr>qu_date = utc_day at, qu_used = int (reserved_on (utc_day at) es),
           qu_remaining = 80 - int (reserved_on (utc_day at) es)\<rparr>"
proof -
  have "used_of d c = int (reserved_on d es) \<and> int (reserved_on d es) \<le> m" for d
    using quota_run_counts [OF assms(1) refl assms(2,3)] by blast
  moreover from this have "int (reserved_on (utc_day at) es) \<le> 80"
    using assms(4) unfolding OPTIONAL_EMAIL_MAX_DAILY_CAP_def by (meson order_trans)
  ultimately show ?thesis using assms(4)
    by (simp add: getUsage_def validateAndDate_def OPTIONAL_EMAIL_MAX_DAILY_CAP_def used_of_def [symmetric] Let_def)
qed

lemma reserve_quota_run:
  \<comment> \<open>an undisturbed reservation is one or two of these steps, granted when the second happens\<close>
  assumes "reserve_quota None (\<lambda>n x. x) date dailyCap c = (Inr (ok, u), c')"
  shows "\<exists>day cap. cap \<le> OPTIONAL_EMAIL_MAX_DAILY_CAP \<and> qu_date u = day \<and>
    quota_run (NoReservation # (if ok then [Reservation day cap] else [])) c c'"
proof -
  obtain day at cap where v: "validateAndDate date dailyCap = Some (day, at, cap)"
    using assms by (auto simp: reserve_quota_def split: option.splits)
  have cap: "cap \<le> OPTIONAL_EMAIL_MAX_DAILY_CAP"
    using v by (auto simp: validateAndDate_def split: option.splits js_number.splits if_splits)
  have e: "quota_run [NoReservation] c (ensureDay None day at c)"
    using quota_run.more [OF quota_run.idle quota_step.ensured] by fastforce
  show ?thesis
  proof (cases "take_quota day cap at (ensureDay None day at c)")
    case (Pair dd c2)
    show ?thesis
    proof (cases dd)
      case None
      then have "c2 = ensureDay None day at c"
        using Pair by (auto simp: take_quota_def findOneAndUpdate_def split: option.splits)
      then show ?thesis using assms v Pair None e cap
        by (auto simp: reserve_quota_def getUsage_def Let_def)
    next
      case (Some d)
      then have "quota_run [NoReservation, Reservation day cap] c c2"
        using quota_run.more [OF e quota_step.taken] Pair by fastforce
      then show ?thesis using assms v Pair Some cap by (cases d) (auto simp: reserve_quota_def)
    qed
  qed
qed

section \<open>Opting out\<close>

definition pref_move :: "email_preference \<Rightarrow> email_preference \<Rightarrow> bool" where
  "pref_move d d' \<longleftrightarrow> ep_userId d' = ep_userId d \<and>
     (ep_unsubscribedAt d \<noteq> None \<longrightarrow> ep_unsubscribedAt d' = ep_unsubscribedAt d) \<and>
     (ep_suppressedAt d \<noteq> None \<longrightarrow> ep_suppressedAt d' = ep_suppressedAt d \<and> (ep_suppressionReason d \<noteq> None \<longrightarrow>
        ep_suppressionReason d' = ep_suppressionReason d))"

lemma pref_move_refl [simp]: "pref_move d d"
  by (simp add: pref_move_def)

lemma opt_out_move: "pref_move d (opt_out_update act at d)"
  by (cases act) (auto simp: pref_move_def if_unset_def split: option.splits)

definition opted_out :: "opt_out \<Rightarrow> email_preference \<Rightarrow> bool" where
  "opted_out act d \<longleftrightarrow> (case act of Unsubscribe \<Rightarrow> ep_unsubscribedAt d \<noteq> None | Suppress _ \<Rightarrow> ep_suppressedAt d \<noteq> None)"

lemma opt_out_update_opted: "opted_out act (opt_out_update act at d)"
  by (cases act) (auto simp: opted_out_def if_unset_def split: option.splits)

lemma opted_out_move: "opted_out act d \<Longrightarrow> pref_move d d' \<Longrightarrow> opted_out act d'"
  by (cases act) (auto simp: opted_out_def pref_move_def)

inductive pref_step :: "email_preference list \<Rightarrow> email_preference list \<Rightarrow> bool" where
  written: "pref_step c (updateFirst (\<lambda>d. ep_userId d = u) (opt_out_update act at) c)"
| inserted: "findOne (\<lambda>d. ep_userId d = ep_userId d') c = None \<Longrightarrow> pref_step c (c @ [d'])"

lemma pref_step_evolves: "pref_step c c' \<Longrightarrow> evolves_by pref_move c c'"
  by (induction rule: pref_step.induct) (auto intro: evolves_by_updateFirst opt_out_move evolves_by_append)

definition opt_out_of :: "string \<times> opt_out \<Rightarrow> email_preference list \<Rightarrow> unit option" where
  "opt_out_of ua c = (case findOne (\<lambda>d. ep_userId d = fst ua) c of
     None \<Rightarrow> None | Some d \<Rightarrow> if opted_out (snd ua) d then Some () else None)"

interpretation opted: write_once pref_step opt_out_of
proof unfold_locales
  fix c c' ua v
  assume s: "pref_step c c'" and o: "opt_out_of ua c = Some v"
  then obtain d where d: "findOne (\<lambda>d. ep_userId d = fst ua) c = Some d" "opted_out (snd ua) d"
    by (auto simp: opt_out_of_def split: option.splits if_splits)
  have "\<exists>d'. findOne (\<lambda>d. ep_userId d = fst ua) c' = Some d' \<and> pref_move d d'"
    by (rule evolves_by_find [OF pref_step_evolves [OF s] d(1)]) (simp add: pref_move_def)
  then show "opt_out_of ua c' = Some v" using d(2) opted_out_move by (auto simp: opt_out_of_def)
qed

lemma findOneAndUpdate_hit:
  "findOneAndUpdate p f c = (Some (d0, d), c') \<longleftrightarrow> findOne p c = Some d0 \<and> d = f d0 \<and> c' = updateFirst p f c"
  by (auto simp: findOneAndUpdate_def split: option.splits)

lemma findOneAndUpdate_miss: "findOneAndUpdate p f c = (None, c') \<longleftrightarrow> findOne p c = None \<and> c' = c"
  by (auto simp: findOneAndUpdate_def split: option.splits)

lemma opt_out_update_user [simp]: "ep_userId (opt_out_update act at d) = ep_userId d"
  by (cases act) simp_all

lemma written_opted:
  "findOne (\<lambda>d. ep_userId d = u) c = Some d0 \<Longrightarrow>
   opt_out_of (u, act) (updateFirst (\<lambda>d. ep_userId d = u) (opt_out_update act at) c) = Some ()"
proof -
  assume f: "findOne (\<lambda>d. ep_userId d = u) c = Some d0"
  then have "ep_userId d0 = u" using findOne_Some [OF f] by simp
  then have "findOne (\<lambda>d. ep_userId d = u) (updateFirst (\<lambda>d. ep_userId d = u) (opt_out_update act at) c) =
    Some (opt_out_update act at d0)" by (intro findOne_updateFirst [OF f]) simp
  then show ?thesis by (simp add: opt_out_of_def opt_out_update_opted)
qed

lemma upsertOnce_opts_out: "upsertOnce rival u at act c = (r, c') \<Longrightarrow> is_ok r \<Longrightarrow> opt_out_of (u, act) c' = Some ()"
proof (cases "findOne (\<lambda>d. ep_userId d = u) c")
  case None
  assume r: "upsertOnce rival u at act c = (r, c')"
  show ?thesis
  proof (cases rival)
    case None
    then show ?thesis using r \<open>findOne _ c = None\<close>
      by (auto simp: upsertOnce_def findOneAndUpdate_def opt_out_of_def findOne_append opt_out_update_opted
          blank_preference_def Let_def)
  next
    case (Some w)
    let ?c = "c @ [w\<lparr>ep_userId := u\<rparr>]"
    have f: "findOne (\<lambda>d. ep_userId d = u) ?c = Some (w\<lparr>ep_userId := u\<rparr>)"
      using \<open>findOne _ c = None\<close> by (simp add: findOne_append)
    have "c' = updateFirst (\<lambda>d. ep_userId d = u) (opt_out_update act at) ?c"
      using r \<open>findOne _ c = None\<close> Some f by (auto simp: upsertOnce_def findOneAndUpdate_def)
    then show ?thesis using written_opted [OF f] by simp
  qed
next
  case (Some d0)
  assume "upsertOnce rival u at act c = (r, c')"
  then have "c' = updateFirst (\<lambda>d. ep_userId d = u) (opt_out_update act at) c"
    using Some by (auto simp: upsertOnce_def findOneAndUpdate_def)
  then show ?thesis using written_opted [OF Some] by simp
qed

lemma opt_out_of_blocks:
  assumes "opt_out_of (u, act) c = Some ()" and "oid userId = Some u"
  shows "findBlockReason oid userId c \<noteq> None \<and> (act = Unsubscribe \<longrightarrow> findBlockReason oid userId c = Some Unsubscribed)"
  using assms by (auto simp: opt_out_of_def findBlockReason_def findPreferenceByUserId_def opted_out_def
      split: option.splits if_splits opt_out.splits)

lemma blocked_never_eligible:
  "block \<noteq> None \<Longrightarrow> evaluate_core pol enforce block snapshot kind \<in>
     {SendingDisabled, RecipientBasisUnapproved, UnsubscribedBlock, SuppressedBlock}"
  by (cases block) (auto simp: evaluate_core_def intro: email_block_reason.exhaust)

text \<open>C23: Opting out is permanent: once an unsubscribe or a suppression has returned, whatever other
  requests write, the user is blocked for good, an unsubscribe as unsubscribed, and every
  evaluation says so before it looks at any milestone.\<close>
theorem opt_out_is_permanent:
  assumes "opt_out_user oid rival userId date act c = (Inr d, c')" and "pref_step\<^sup>*\<^sup>* c' (er_prefs s)"
  shows "findBlockReason oid userId (er_prefs s) \<noteq> None \<and>
    evaluate_eligibility oid pol s userId kind \<in>
      {SendingDisabled, RecipientBasisUnapproved, UnsubscribedBlock, SuppressedBlock} \<and>
    (act = Unsubscribe \<longrightarrow> findBlockReason oid userId (er_prefs s) = Some Unsubscribed)"
proof -
  obtain u at where u: "oid userId = Some u" and up: "upsertOnce rival u at act c = (Inr d, c')"
    using assms(1) by (auto simp: opt_out_user_def split: option.splits)
  have "opt_out_of (u, act) c' = Some ()" using upsertOnce_opts_out [OF up] by simp
  then have "opt_out_of (u, act) (er_prefs s) = Some ()" by (rule opted.keeps_many [OF assms(2)])
  then show ?thesis using opt_out_of_blocks u blocked_never_eligible
    unfolding evaluate_eligibility_def by blast
qed

section \<open>Webhooks\<close>

lemma handle_suppressed:
  assumes h: "handleVerified oid rival env now now' eventId event s = (Inr (Processed SuppressedOutcome), s')"
    and env: "\<And>n t. pref_step\<^sup>*\<^sup>* (es_prefs t) (es_prefs (env n t))"
  obtains ev reason u userId where "webhookEventSchema event = Some ev" and "suppressionReason ev = Some reason"
    and "findUserIdByProviderEmailId (pe_emailId ev) (es_sends (env 0 s)) = Some userId"
    and "oid userId = Some u" and "opt_out_of (u, Suppress reason) (es_prefs s') = Some ()"
    and "list_ex (\<lambda>e. we_eventId e = eventId) (es_events s')"
proof -
  obtain ev reason userId c d where a: "webhookEventSchema event = Some ev" "suppressionReason ev = Some reason"
    "findUserIdByProviderEmailId (pe_emailId ev) (es_sends (env 0 s)) = Some userId"
    and o: "opt_out_user oid rival userId (Some now) (Suppress reason) (es_prefs (env 1 (env 0 s))) = (Inr d, c)"
    and r: "record_event eventId (pe_type ev) now' SuppressedOutcome (env 2 ((env 1 (env 0 s))\<lparr>es_prefs := c\<rparr>)) =
      (Inr (Processed SuppressedOutcome), s')"
    using h by (auto simp: handleVerified_def record_event_def Let_def split: sum.splits bool.splits option.splits if_splits prod.splits)
  obtain u at where u: "oid userId = Some u" and up: "upsertOnce rival u at (Suppress reason) (es_prefs (env 1 (env 0 s))) = (Inr d, c)"
    using o by (auto simp: opt_out_user_def split: option.splits)
  have "opt_out_of (u, Suppress reason) c = Some ()" using upsertOnce_opts_out [OF up] by simp
  then have "opt_out_of (u, Suppress reason) (es_prefs (env 2 ((env 1 (env 0 s))\<lparr>es_prefs := c\<rparr>))) = Some ()"
    using opted.keeps_many env by (metis email_state.select_convs(2) email_state.update_convs(2) email_state.surjective)
  moreover have "es_prefs s' = es_prefs (env 2 ((env 1 (env 0 s))\<lparr>es_prefs := c\<rparr>)) \<and> list_ex (\<lambda>e. we_eventId e = eventId) (es_events s')"
    using r by (auto simp: record_event_def recordProcessed_def insertOne_def list_ex_iff split: sum.splits prod.splits option.splits if_splits bool.splits)
  ultimately show thesis using that a u by metis
qed

lemma handle_bad_id: "\<not> event_id_ok eventId \<Longrightarrow> handleVerified oid rival env now now' eventId event s = (Inl InternalServerError, s)"
  by (simp add: handleVerified_def wasProcessed_def)

lemma handle_replay:
  "event_id_ok eventId \<Longrightarrow> list_ex (\<lambda>e. we_eventId e = eventId) (es_events s) \<Longrightarrow>
   handleVerified oid rival env now now' eventId event s = (Inr Replayed, s)"
  by (simp add: handleVerified_def wasProcessed_def list_ex_iff)


section \<open>The recipient\<close>

lemma name_inj: "kind_name k = kind_name k' \<longleftrightarrow> k = k'" "field_name f = field_name f' \<longleftrightarrow> f = f'"
  by (cases k; cases k'; simp) (cases f; cases f'; simp)

lemma provenance_key_inj: "inj provenance_key"
proof (rule injI)
  fix p q assume "provenance_key p = provenance_key q"
  then show "p = q" by (cases p, cases q) (simp add: provenance_key_def name_inj)
qed

lemma sort_provenance: "mset ps = mset qs \<Longrightarrow> sort_key provenance_key ps = sort_key provenance_key qs"
  by (rule sort_key_inj_key_eq) (auto intro: inj_on_subset [OF provenance_key_inj])

lemma remdups_single: "remdups xs = [a] \<longleftrightarrow> set xs = {a}"
proof
  assume x: "set xs = {a}"
  then have "length (remdups xs) = 1" by (simp add: length_remdups_card_conv)
  then obtain b where "remdups xs = [b]" by (cases "remdups xs") auto
  then show "remdups xs = [a]" using x set_remdups [of xs] by simp
next
  assume "remdups xs = [a]"
  then have "set (remdups xs) = {a}" by simp
  then show "set xs = {a}" by simp
qed

lemma one_address_case:
  "set xs = set ys \<Longrightarrow> (case remdups xs of [a] \<Rightarrow> f a | _ \<Rightarrow> z) = (case remdups ys of [a] \<Rightarrow> f a | _ \<Rightarrow> z)"
proof (cases "\<exists>a. set xs = {a}")
  case True
  assume "set xs = set ys"
  then show ?thesis using True remdups_single by (metis list.simps(5) list.simps(4))
next
  case False
  have "(case remdups zs of [a] \<Rightarrow> f a | _ \<Rightarrow> z) = z" if "\<nexists>a. set zs = {a}" for zs
    using that remdups_single [of zs] by (auto split: list.splits)
  moreover assume "set xs = set ys"
  ultimately show ?thesis using False by metis
qed

lemma concat_map_mset: "mset xs = mset ys \<Longrightarrow> mset (concat (map f xs)) = mset (concat (map f ys))"
proof -
  have "mset (concat (map f zs)) = (\<Sum>z \<in># mset zs. mset (f z))" for zs by (induction zs) simp_all
  then show "mset xs = mset ys \<Longrightarrow> ?thesis" by simp
qed

text \<open>Which address a user resolves to, and the provenance reported for it, does not depend on the
  order in which the database returns the user's identities.\<close>
lemma recipient_is_order_independent:
  assumes "mset oauth = mset oauth'" and "mset passwords = mset passwords'"
  shows "resolve_recipient oid parse userId oauth passwords = resolve_recipient oid parse userId oauth' passwords'"
proof (cases "oid userId")
  case None
  then show ?thesis by (simp add: resolve_recipient_def)
next
  case (Some u)
  let ?o = "filter (\<lambda>a. oa_userId a = u)" and ?p = "filter (\<lambda>a. pa_userId a = u)"
  have o: "mset (?o oauth) = mset (?o oauth')" and p: "mset (?p passwords) = mset (?p passwords')"
    using assms by simp_all
  define cs where "cs = concat (map oauth_candidates (?o oauth)) @ map password_candidate (?p passwords)"
  define cs' where "cs' = concat (map oauth_candidates (?o oauth')) @ map password_candidate (?p passwords')"
  have c: "mset cs = mset cs'"
    unfolding cs_def cs'_def using concat_map_mset [OF o] p by simp
  let ?f = "\<lambda>(v, p). (parse v, p)"
  have m: "mset (map ?f cs) = mset (map ?f cs')" using c by simp
  have l: "length (?p passwords) = length (?p passwords')" using p by (rule mset_eq_length)
  have b: "list_ex (\<lambda>a. blank (oa_provider a)) (?o oauth) = list_ex (\<lambda>a. blank (oa_provider a)) (?o oauth')"
    using mset_eq_setD [OF o] by (simp only: list_ex_iff)
  have n: "(cs = []) = (cs' = [])" using c by (metis mset_zero_iff)
  have e: "list_ex (\<lambda>(r, p). r = None) (map ?f cs) = list_ex (\<lambda>(r, p). r = None) (map ?f cs')"
    using mset_eq_setD [OF m] by (simp only: list_ex_iff)
  have s: "sort_key provenance_key (map snd (map ?f cs)) = sort_key provenance_key (map snd (map ?f cs'))"
    by (rule sort_provenance) (use m in \<open>metis mset_map\<close>)
  have a: "set (map (\<lambda>(r, p). the r) (map ?f cs)) = set (map (\<lambda>(r, p). the r) (map ?f cs'))"
    using mset_eq_setD [OF m] by (simp only: set_map)
  show ?thesis
    unfolding resolve_recipient_def Some option.case Let_def cs_def [symmetric] cs'_def [symmetric] l b n e s
    by (simp only: one_address_case [OF a])
qed

section \<open>The dry run\<close>

definition all_block_reasons :: "send_block_reason list" where
  "all_block_reasons = [SendingDisabled, RecipientBasisUnapproved, RecipientSafetyUnverified, MissingUser,
     MissingRecipient, AmbiguousRecipient, MilestoneCompleted, PrerequisiteIncomplete, UnsubscribedBlock, SuppressedBlock,
     TestSendingDisabled, TestRecipientNotAllowed, RetryWindowExpired]"

lemma all_block_reasons: "distinct all_block_reasons" "r \<in> set all_block_reasons"
  by (simp add: all_block_reasons_def) (cases r; simp add: all_block_reasons_def)

definition blocked_total :: "dry_run_report \<Rightarrow> nat" where
  "blocked_total r = sum_list (map (rp_blockedByReason r) all_block_reasons)"

definition report_ok :: "dry_run_report \<Rightarrow> bool" where
  "report_ok r \<longleftrightarrow> rp_candidates r \<le> rp_usersScanned r \<and>
     rp_segments r BridgeSetup + rp_segments r FirstSession = rp_candidates r \<and>
     blocked_total r = rp_candidates r \<and> rp_eligible r = 0"

lemma count_one: "distinct xs \<Longrightarrow> x \<in> set xs \<Longrightarrow> sum_list (map (f(x := f x + 1)) xs) = sum_list (map f xs) + (1 :: nat)"
proof (induction xs)
  case (Cons y ys)
  have "map (f(y := v)) ys = map f ys" for v using Cons.prems(1) by (intro map_cong) auto
  then show ?case using Cons by (cases "x = y") (simp_all del: fun_upd_apply, simp_all)
qed simp

lemma dry_run_user_ok:
  "report_ok r \<Longrightarrow> report_ok (dry_run_user oid pol s userId r) \<and>
     rp_usersScanned (dry_run_user oid pol s userId r) = rp_usersScanned r + 1"
  using count_one [OF all_block_reasons(1) all_block_reasons(2)]
  by (auto simp: dry_run_user_def report_ok_def blocked_total_def Let_def split: option.splits)

lemma dry_run_users_ok:
  "report_ok r \<Longrightarrow> report_ok (fold (dry_run_user oid pol s) ids r) \<and>
     rp_usersScanned (fold (dry_run_user oid pol s) ids r) = rp_usersScanned r + length ids"
  by (induction ids arbitrary: r) (use dry_run_user_ok in auto)

lemma findIdBatch_page:
  assumes "0 < n" and "n \<le> 1000" and "after = None \<or> oid (the after) = after"
  shows "findIdBatch oid after (Integer n) (Some at) c =
    Inr (map u_id (take (nat n) (beyond u_id after (\<lambda>d. u_createdAt d \<le> at) c)))"
  using assms by (cases after) (auto simp: findIdBatch_def cursor_def page_beyond MAX_SAFE_INTEGER_def)

lemma dry_run_loop_complete:
  assumes "distinct (map u_id (er_users s))" and "\<And>d. d \<in> set (er_users s) \<Longrightarrow> oid (u_id d) = Some (u_id d)"
    and "0 < n" and "n \<le> 1000"
  shows "length (beyond u_id after (\<lambda>d. u_createdAt d \<le> at) (er_users s)) < fuel \<Longrightarrow>
    after = None \<or> oid (the after) = after \<Longrightarrow>
    dry_run_loop fuel oid pol s n at after r =
      Some (Inr (fold (dry_run_user oid pol s) (map u_id (beyond u_id after (\<lambda>d. u_createdAt d \<le> at) (er_users s))) r))"
proof (induction fuel arbitrary: after r)
  case (Suc fuel)
  let ?B = "beyond u_id after (\<lambda>d. u_createdAt d \<le> at) (er_users s)"
  let ?b = "take (nat n) ?B" and ?r = "drop (nat n) ?B"
  have page: "findIdBatch oid after (Integer n) (Some at) (er_users s) = Inr (map u_id ?b)"
    using findIdBatch_page assms(3,4) Suc.prems(2) by blast
  show ?case
  proof (cases "?B = []")
    case True
    then show ?thesis using page by simp
  next
    case False
    then have b: "?b \<noteq> []" using assms(3) by simp
    show ?thesis
    proof (cases "int (length ?b) < n")
      case True
      then have "?b = ?B" by simp
      then show ?thesis using page b True by simp
    next
      case False
      have rest: "beyond u_id (Some (u_id (last ?b))) (\<lambda>d. u_createdAt d \<le> at) (er_users s) = ?r"
        by (rule beyond_drop [OF assms(1) _ b]) simp
      have "last ?b \<in> set ?B" using last_in_set [OF b] set_take_subset [of "nat n" ?B] by blast
      then have "last ?b \<in> set (er_users s)" by (simp add: beyond_set)
      then have after: "oid (u_id (last ?b)) = Some (u_id (last ?b))" by (rule assms(2))
      have "0 < length ?B" using b by fastforce
      moreover have "length ?r = length ?B - nat n" "0 < nat n" using assms(3) by simp_all
      ultimately have "length ?r < fuel" using Suc.prems(1) by linarith
      then have ih: "dry_run_loop fuel oid pol s n at (Some (u_id (last ?b))) r' =
          Some (Inr (fold (dry_run_user oid pol s) (map u_id ?r) r'))" for r'
        using Suc.IH [of "Some (u_id (last ?b))" r'] after unfolding rest by simp
      have "fold f (map u_id ?r) (fold f (map u_id ?b) x) = fold f (map u_id ?B) x" for f and x :: dry_run_report
        by (metis append_take_drop_id fold_append comp_apply map_append)
      then show ?thesis using page b False ih assms(3) by (simp add: last_map del: take_eq_Nil)
    qed
  qed
qed simp

text \<open>With undisturbed collections the dry run ends, after at most one batch more than there are
  users, and accounts for everybody: it scans each account that existed at the start once, every
  candidate is in one segment and blocked for one reason, and nobody is reported eligible.\<close>
lemma dry_run_accounts_for_everyone:
  assumes "distinct (map u_id (er_users s))"
    and "\<And>d. d \<in> set (er_users s) \<Longrightarrow> oid (u_id d) = Some (u_id d)"
    and "1 \<le> n" and "n \<le> 1000" and "length (er_users s) < fuel"
  shows "\<exists>r. run_dry fuel oid pol s (Integer n) at = Some (Inr (Inr r)) \<and>
    rp_usersScanned r = length (filter (\<lambda>d. u_createdAt d \<le> at) (er_users s)) \<and>
    rp_candidates r \<le> rp_usersScanned r \<and>
    rp_segments r BridgeSetup + rp_segments r FirstSession = rp_candidates r \<and>
    blocked_total r = rp_candidates r \<and> rp_eligible r = 0"
proof -
  let ?B = "beyond u_id None (\<lambda>d. u_createdAt d \<le> at) (er_users s)"
  let ?r = "fold (dry_run_user oid pol s) (map u_id ?B) empty_report"
  have len: "length ?B = length (filter (\<lambda>d. u_createdAt d \<le> at) (er_users s))" by (simp add: beyond_def)
  also have "\<dots> < fuel" using length_filter_le assms(5) by (rule le_less_trans)
  finally have "dry_run_loop fuel oid pol s n at None empty_report = Some (Inr ?r)"
    using dry_run_loop_complete [OF assms(1,2)] assms(3,4) by simp
  moreover have "isSafeInteger (Integer n)" using assms(3,4) by (simp add: MAX_SAFE_INTEGER_def)
  ultimately have "run_dry fuel oid pol s (Integer n) at = Some (Inr (Inr ?r))"
    using assms(3,4) by (simp add: run_dry_def del: isSafeInteger.simps)
  moreover have "report_ok empty_report" by (simp add: report_ok_def empty_report_def blocked_total_def)
  from dry_run_users_ok [OF this] have "report_ok ?r" "rp_usersScanned ?r = length ?B"
    by (simp_all add: empty_report_def)
  ultimately show ?thesis using len by (intro exI [of _ ?r]) (simp add: report_ok_def)
qed

section \<open>Concrete inputs\<close>

definition demo_quota :: "daily_quota list" where
  "demo_quota = [\<lparr>dq_date = 0, dq_used = 1, dq_createdAt = 5, dq_updatedAt = 6\<rparr>]"

lemma demo_quota_run: "quota_run [NoReservation, Reservation 0 1] [] demo_quota"
proof -
  have "quota_run [NoReservation] [] (ensureDay None 0 5 [])"
    using quota_run.more [OF quota_run.idle quota_step.ensured] by fastforce
  from quota_run.more [OF this quota_step.taken, of 0 1 6 _ demo_quota] show ?thesis
    by (simp add: take_quota_def findOneAndUpdate_def ensureDay_def demo_quota_def)
qed

lemma quota_never_exceeded_witness:
  "int (reserved_on 0 [NoReservation, Reservation 0 1]) \<le> 1 \<and>
   getUsage (Some 7) (Integer 80) demo_quota = Inr \<lparr>qu_date = 0, qu_used = 1, qu_remaining = 79\<rparr>"
  using quota_never_exceeded [OF demo_quota_run, of 1 0 7]
  by (simp add: capped_def OPTIONAL_EMAIL_MAX_DAILY_CAP_def utc_day_def reserved_on_def of_day_def)

definition demo_prefs :: "email_preference list" where
  "demo_prefs = [opt_out_update Unsubscribe 9 (blank_preference ''u'' 9)]"

definition demo_sources :: email_sources where
  "demo_sources = \<lparr>er_users = [], er_states = [], er_bridges = [], er_usage = [], er_prefs = demo_prefs\<rparr>"

definition demo_policy :: email_policy where
  "demo_policy = \<lparr>ey_sendingEnabled = True, ey_recipientBasis = AccountActivityApproved\<rparr>"

lemma demo_opt_out: "opt_out_user demo_oid None ''u'' (Some 9) Unsubscribe [] = (Inr (hd demo_prefs), er_prefs demo_sources)"
  by (simp add: opt_out_user_def demo_oid_def upsertOnce_def findOneAndUpdate_def demo_prefs_def demo_sources_def Let_def)

theorem opt_out_is_permanent_witness:
  "findBlockReason demo_oid ''u'' demo_prefs = Some Unsubscribed"
  using opt_out_is_permanent [OF demo_opt_out rtranclp.rtrancl_refl, of demo_policy BridgeSetup]
  by (simp add: demo_sources_def)

definition demo_bounce :: jvalue where
  "demo_bounce = JObj [(''type'', JStr ''email.complained''), (''data'', JObj [(''email_id'', JStr ''e''),
     (''tags'', JObj [(''category'', JStr ''optional_setup_reminder'')])])]"

definition demo_email_state :: email_state where
  "demo_email_state = \<lparr>es_sends = demo_sent, es_prefs = [], es_events = []\<rparr>"

lemma demo_webhook:
  "handleVerified demo_oid None (\<lambda>n t. t) 10 11 ''m'' demo_bounce demo_email_state =
     (Inr (Processed SuppressedOutcome),
      \<lparr>es_sends = demo_sent, es_prefs = [opt_out_update (Suppress Complaint) 10 (blank_preference ''u'' 10)],
       es_events = [\<lparr>we_eventId = ''m'', we_eventType = ''email.complained'', we_processedAt = 11\<rparr>]\<rparr>)"
proof -
  have "webhookEnvelopeSchema demo_bounce = Some ''email.complained''"
    by (simp add: webhookEnvelopeSchema_def demo_bounce_def is_object_def member_def text_between_def Let_def)
  moreover have "webhookEventSchema demo_bounce = Some \<lparr>pe_type = ''email.complained'', pe_emailId = ''e'',
      pe_bounceType = None, pe_category = Some ''optional_setup_reminder''\<rparr>"
    by (simp add: webhookEventSchema_def demo_bounce_def member_def text_between_def bounce_type_def tags_ok_def)
  moreover have "findUserIdByProviderEmailId ''e'' demo_sent = Some ''u''"
    by (simp add: findUserIdByProviderEmailId_def demo_sent_def demo_sends)
  ultimately show ?thesis
    by (simp add: handleVerified_def wasProcessed_def event_id_ok_def demo_email_state_def suppressionReason_def
        opt_out_user_def demo_oid_def upsertOnce_def findOneAndUpdate_def record_event_def recordProcessed_def
        insertOne_def Let_def)
qed


definition demo_identity :: "string \<Rightarrow> oauth_account" where
  "demo_identity prov = \<lparr>oa_userId = ''u'', oa_provider = prov, oa_providerUserId = ''p'', oa_providerUsername = None,
     oa_email = Some ''a@b.c'', oa_createdAt = 1, oa_updatedAt = 1\<rparr>"

lemma recipient_is_order_independent_witness:
  "resolve_recipient demo_oid Some ''u'' [demo_identity ''github'', demo_identity ''apple''] [] =
   resolve_recipient demo_oid Some ''u'' [demo_identity ''apple'', demo_identity ''github''] []"
  by (rule recipient_is_order_independent) simp_all

definition demo_user_doc :: "string \<Rightarrow> user" where
  "demo_user_doc i = \<lparr>u_id = i, u_tokenVersion = Some 0, u_createdAt = 1, u_updatedAt = 1, u_preference = Missing,
     u_preferenceUpdatedAt = Missing, u_preferenceRevision = Missing, u_lastOperationId = Missing,
     u_exportSuppressedAt = Missing\<rparr>"

definition demo_accounts :: email_sources where
  "demo_accounts = demo_sources\<lparr>er_users := [demo_user_doc ''u'', demo_user_doc ''v'']\<rparr>"

lemma demo_accounts_ok:
  "distinct (map u_id (er_users demo_accounts))" "d \<in> set (er_users demo_accounts) \<Longrightarrow> demo_oid (u_id d) = Some (u_id d)"
  "length (er_users demo_accounts) < 3" "length (filter (\<lambda>d. u_createdAt d \<le> 5) (er_users demo_accounts)) = 2"
  by (auto simp: demo_accounts_def demo_sources_def demo_user_doc_def demo_oid_def)

lemma dry_run_accounts_for_everyone_witness:
  "\<exists>r. run_dry 3 demo_oid demo_policy demo_accounts (Integer 1) 5 = Some (Inr (Inr r)) \<and> rp_usersScanned r = 2 \<and>
     blocked_total r = rp_candidates r"
  using dry_run_accounts_for_everyone [OF demo_accounts_ok(1,2) _ _ demo_accounts_ok(3), of 1 demo_policy 5]
  unfolding demo_accounts_ok(4) by fastforce

end
