(* ===== verification/OptionalEmailTokensProps.thy ===== *)
theory OptionalEmailTokensProps
  imports OptionalEmailTokens
begin

text \<open>
  What the signed texts guarantee: a created token verifies to its user, a
  verified token carries the one canonical signature over its own text, and the
  webhook verifier accepts exactly the fresh texts with a signature among the
  listed ones.
\<close>

section \<open>Canonical Base64\<close>

lemma no_pad: "base64_char url c \<Longrightarrow> c \<noteq> CHR ''=''"
  by (auto simp: base64_char_def split: if_splits)

lemma strip_digits:
  assumes "is_bytes bs"
  shows "strip_padding (base64_digits False bs @ replicate n (CHR ''='')) = base64_digits False bs"
proof -
  have "list_all (\<lambda>c. c \<noteq> CHR ''='') (base64_digits False bs)"
    using base64_digits_chars [OF assms, of False] no_pad by (auto simp: list_all_iff)
  then have "dropWhile (\<lambda>c. c = CHR ''='') (rev (base64_digits False bs)) = rev (base64_digits False bs)"
    by (cases "rev (base64_digits False bs)") (auto simp: list_all_iff dest: arg_cong [where f = set])
  moreover have "dropWhile (\<lambda>c. c = CHR ''='') (replicate n (CHR ''='') @ xs) = dropWhile (\<lambda>c. c = CHR ''='') xs" for xs
    by (induction n) simp_all
  ultimately show ?thesis by (simp add: strip_padding_def)
qed

lemma strip_base64 [simp]: "is_bytes bs \<Longrightarrow> strip_padding (to_base64 bs) = base64_digits False bs"
  unfolding to_base64_def padding_def by (rule strip_digits)

lemma strip_only_digits: "is_bytes bs \<Longrightarrow> strip_padding (base64_digits False bs) = base64_digits False bs"
  using strip_digits [of bs 0] by simp

lemma encoded_length: "(4 * n + 2) div 3 = 4 * (n div 3) + (4 * (n mod 3) + 2) div 3" for n :: nat
proof -
  have "4 * n + 2 = (4 * (n mod 3) + 2) + 3 * (4 * (n div 3))"
    using mult_div_mod_eq [of 3 n] by linarith
  then have "(4 * n + 2) div 3 = ((4 * (n mod 3) + 2) + 3 * (4 * (n div 3))) div 3" by (rule arg_cong)
  also have "\<dots> = 4 * (n div 3) + (4 * (n mod 3) + 2) div 3"
    by (rule div_mult_self2) simp
  finally show ?thesis .
qed

lemma mod_3_cases: "n mod 3 = 0 \<or> n mod 3 = 1 \<or> n mod 3 = (2 :: nat)"
  using mod_less_divisor [of 3 n] by arith

lemma four_mod: "(4 * k + m) mod 4 = m mod (4 :: nat)"
  by simp

lemma digits_mod: "(4 * n + 2) div 3 mod 4 \<noteq> (1 :: nat)"
proof -
  have "(4 * m + 2) div 3 mod 4 \<noteq> (1 :: nat)" if "m = 0 \<or> m = 1 \<or> m = 2" for m
    using that by (elim disjE) (hypsubst, simp)+
  from this [OF mod_3_cases [of n]] show ?thesis by (subst encoded_length) (simp only: four_mod not_False_eq_True)
qed

lemma padded_mod: "((4 * n + 2) div 3 + (3 - n mod 3) mod 3) mod 4 = (0 :: nat)"
proof -
  have "((4 * m + 2) div 3 + (3 - m) mod 3) mod 4 = (0 :: nat)" if "m = 0 \<or> m = 1 \<or> m = 2" for m
    using that by (elim disjE) (hypsubst, simp)+
  from this [OF mod_3_cases [of n]] show ?thesis by (subst encoded_length) (simp only: add.assoc four_mod)
qed

lemma digits_pattern:
  assumes "is_bytes bs" and "bs \<noteq> []"
  shows "base64_pattern (base64_digits False bs)" and "base64_pattern (to_base64 bs)"
proof -
  have "0 < length (base64_digits False bs)" using assms(2) by (cases bs) simp_all
  then have ne: "base64_digits False bs \<noteq> []" by blast
  have "(3 - length bs mod 3) mod 3 \<le> 2" by simp
  then show "base64_pattern (to_base64 bs)"
    using ne base64_digits_chars [OF assms(1)] assms(1)
    by (simp add: base64_pattern_def) (simp add: to_base64_def padding_def)
  show "base64_pattern (base64_digits False bs)"
    using ne base64_digits_chars [OF assms(1)] assms(1) by (simp add: base64_pattern_def strip_only_digits)
qed

lemma decode_canonical:
  assumes "is_bytes bs" and "bs \<noteq> []"
  shows "decodeCanonicalBase64 v = Some bs \<longleftrightarrow> v \<in> {to_base64 bs, base64_digits False bs}"
proof
  assume "decodeCanonicalBase64 v = Some bs"
  then show "v \<in> {to_base64 bs, base64_digits False bs}"
    using assms(1) by (auto simp: decodeCanonicalBase64_def Let_def split: if_splits)
next
  have "length (to_base64 bs) mod 4 \<noteq> 1"
    using padded_mod [of "length bs"] by (simp add: to_base64_def padding_def)
  moreover have "length (base64_digits False bs) mod 4 \<noteq> 1"
    using digits_mod by simp
  moreover assume "v \<in> {to_base64 bs, base64_digits False bs}"
  ultimately show "decodeCanonicalBase64 v = Some bs"
    using digits_pattern [OF assms] assms(1) by (auto simp: decodeCanonicalBase64_def Let_def)
qed

section \<open>Signed webhooks\<close>

definition webhook_request_ok :: "millis \<Rightarrow> string \<Rightarrow> string \<Rightarrow> bool" where
  \<comment> \<open>an event id of 1 to 256 characters and a timestamp within five minutes of the clock\<close>
  "webhook_request_ok now messageId timestamp \<longleftrightarrow>
     messageId \<noteq> [] \<and> length messageId \<le> 256 \<and> timestamp \<noteq> [] \<and> length timestamp \<le> 12 \<and> list_all is_digit timestamp \<and>
     \<bar>now div 1000 - digits_value timestamp\<bar> \<le> 300"

lemma matches_iff:
  assumes "is_bytes mac" and "mac \<noteq> []"
  shows "signature_matches mac cand \<longleftrightarrow> cand \<in> {''v1,'' @ to_base64 mac, ''v1,'' @ base64_digits False mac}"
proof -
  have "signature_matches mac cand \<longleftrightarrow>
    take 3 cand = ''v1,'' \<and> base64_pattern (drop 3 cand) \<and> decodeCanonicalBase64 (drop 3 cand) = Some mac"
    by (auto simp: signature_matches_def after_prefix_def numeral_3_eq_3)
  also have "\<dots> \<longleftrightarrow> take 3 cand = ''v1,'' \<and> drop 3 cand \<in> {to_base64 mac, base64_digits False mac}"
    using decode_canonical [OF assms] digits_pattern [OF assms] by auto
  also have "\<dots> \<longleftrightarrow> cand \<in> {''v1,'' @ to_base64 mac, ''v1,'' @ base64_digits False mac}"
  proof
    assume a: "take 3 cand = ''v1,'' \<and> drop 3 cand \<in> {to_base64 mac, base64_digits False mac}"
    then have "cand = ''v1,'' @ drop 3 cand" using append_take_drop_id [of 3 cand] by simp
    with a show "cand \<in> {''v1,'' @ to_base64 mac, ''v1,'' @ base64_digits False mac}" by (metis insert_iff singletonD)
  qed auto
  finally show ?thesis .
qed

text \<open>C25: The webhook verifier accepts a request exactly when its id and timestamp are well formed, the
  timestamp is within five minutes of the clock, one of the listed signatures is the keyed hash of
  id, timestamp and body in canonical Base64, padded or not, and the body is JSON.\<close>
theorem webhook_accepted_iff_signed:
  assumes "is_bytes (hmac secret (signed_content messageId timestamp rawBody))"
    and "hmac secret (signed_content messageId timestamp rawBody) \<noteq> []"
  shows "verify_webhook hmac parse secret now rawBody messageId timestamp signature = Inr v \<longleftrightarrow>
    webhook_request_ok now messageId timestamp \<and> parse rawBody = Some v \<and>
    list_ex (\<lambda>cand. cand \<in> {''v1,'' @ to_base64 (hmac secret (signed_content messageId timestamp rawBody)),
        ''v1,'' @ base64_digits False (hmac secret (signed_content messageId timestamp rawBody))}) (signature_fields signature)"
proof -
  have "list_ex (signature_matches (hmac secret (signed_content messageId timestamp rawBody))) =
    list_ex (\<lambda>cand. cand \<in> {''v1,'' @ to_base64 (hmac secret (signed_content messageId timestamp rawBody)),
        ''v1,'' @ base64_digits False (hmac secret (signed_content messageId timestamp rawBody))})"
    using matches_iff [OF assms] by presburger
  then show ?thesis
    by (auto simp: verify_webhook_def webhook_request_ok_def MAX_WEBHOOK_EVENT_ID_LENGTH_def WEBHOOK_TOLERANCE_SECONDS_def
        Suc_le_eq split: option.splits if_splits)
qed

section \<open>Unsubscribe tokens\<close>

lemma dot_not_base64: "list_all (base64_char url) s \<Longrightarrow> dot \<notin> set s"
  by (induction s) (auto simp: base64_char_def dot_def split: if_splits)

lemma base64url_chars: "is_bytes bs \<Longrightarrow> list_all (base64_char True) (to_base64url bs)"
  by (simp add: to_base64url_def base64_digits_chars)

lemma token_json_length: "user_id_pattern u \<Longrightarrow> length (token_json u) = 76"
  by (simp add: token_json_def quoted_def TOKEN_PURPOSE_def user_id_pattern_def)

definition token_payload :: "string \<Rightarrow> jvalue" where
  "token_payload u = JObj [(''purpose'', JStr TOKEN_PURPOSE), (''userId'', JStr u)]"

lemma token_payload_parses: "user_id_pattern u \<Longrightarrow> unsubscribeTokenPayloadSchema (token_payload u) = Some u"
  by (simp add: token_payload_def unsubscribeTokenPayloadSchema_def strict_keys_def member_def)

lemma token_round:
  assumes "user_id_pattern (map toLower userId)"
    and "\<And>text. is_bytes (hmac secret text) \<and> length (hmac secret text) = 32"
    and "parse (bytes_of (token_json (map toLower userId))) = Some (token_payload (map toLower userId))"
  shows "Option.bind (create_token hmac secret userId) (verify_token hmac parse secret) = Some (map toLower userId)"
proof -
  let ?u = "map toLower userId" and ?p = "to_base64url (bytes_of (token_json (map toLower userId)))"
  let ?un = "TOKEN_VERSION @ [dot] @ ?p"
  let ?sig = "to_base64url (hmac secret ?un)"
  have mac: "is_bytes (hmac secret ?un)" "length (hmac secret ?un) = 32" using assms(2) by blast+
  have sp: "split_on dot (?un @ [dot] @ ?sig) = [TOKEN_VERSION, ?p, ?sig]"
    using dot_not_base64 [OF base64url_chars [OF mac(1)]] dot_not_base64 [OF base64url_chars [OF is_bytes_of]]
    by (simp add: split_on_append split_on_none TOKEN_VERSION_def dot_def)
  have len: "length (?un @ [dot] @ ?sig) \<le> MAX_TOKEN_LENGTH"
    using token_json_length [OF assms(1)] mac(2)
    by (simp add: TOKEN_VERSION_def MAX_TOKEN_LENGTH_def bytes_of_def)
  have sg: "signature_pattern ?sig" using base64url_chars [OF mac(1)] mac(2) by (simp add: signature_pattern_def)
  have "verify_token hmac parse secret (?un @ [dot] @ ?sig) =
    Option.bind (parse (bytes_of (token_json ?u))) unsubscribeTokenPayloadSchema"
    unfolding verify_token_def sp using len sg mac(1) by (simp add: signatureFor_def Let_def)
  then show ?thesis using assms(1,3) token_payload_parses [OF assms(1)]
    by (simp add: create_token_def Let_def signatureFor_def)
qed

text \<open>A token created for a user is accepted and names that user, its id in lower case.\<close>
lemma unsubscribe_token_roundtrip:
  assumes "user_id_pattern (map toLower userId)"
    and "\<And>text. is_bytes (hmac secret text) \<and> length (hmac secret text) = 32"
    and "parse (bytes_of (token_json (map toLower userId))) = Some (token_payload (map toLower userId))"
  shows "Option.bind (create_token hmac secret userId) (verify_token hmac parse secret) = Some (map toLower userId)"
  by (rule token_round) (fact assms)+

text \<open>An accepted token is the canonical text of its payload: the version, a payload and the keyed
  hash of both. The signature cannot be respelled, and the payload was signed for this purpose and
  a well-formed user id.\<close>
lemma accepted_token_is_signed:
  assumes "verify_token hmac parse secret token = Some u" and "\<And>text. is_bytes (hmac secret text)"
  shows "\<exists>payload. token = TOKEN_VERSION @ [dot] @ payload @ [dot] @ signatureFor hmac secret (TOKEN_VERSION @ [dot] @ payload) \<and>
    Option.bind (parse (from_base64 payload)) unsubscribeTokenPayloadSchema = Some u \<and> user_id_pattern u"
proof -
  obtain payload sig where sp: "split_on dot token = [TOKEN_VERSION, payload, sig]"
    and sig: "to_base64url (from_base64 sig) = sig"
      "from_base64 sig = from_base64 (signatureFor hmac secret (TOKEN_VERSION @ [dot] @ payload))"
    and u: "Option.bind (parse (from_base64 payload)) unsubscribeTokenPayloadSchema = Some u"
    using assms(1) unfolding verify_token_def
    by (auto simp: Let_def split: list.splits if_splits)
  have "sig = signatureFor hmac secret (TOKEN_VERSION @ [dot] @ payload)"
    using sig assms(2) by (metis signatureFor_def from_to_base64url)
  moreover have "user_id_pattern u"
    using u by (auto simp: unsubscribeTokenPayloadSchema_def bind_eq_Some_conv split: if_splits option.splits jvalue.splits)
  ultimately show ?thesis using split_three [OF sp] u by auto
qed

section \<open>Concrete texts\<close>

definition demo_mac :: "nat list \<Rightarrow> string \<Rightarrow> nat list" where
  "demo_mac key text = length text mod 256 # replicate 31 (length key mod 256)"

lemma demo_mac_bytes [simp]: "is_bytes (demo_mac key text)" "length (demo_mac key text) = 32"
  by (simp_all add: demo_mac_def is_bytes_def list_all_iff)

lemma demo_mac_not_Nil [simp]: "demo_mac key text \<noteq> []"
  by (simp add: demo_mac_def)

lemma signature_field_single:
  assumes "list_all (\<lambda>c. \<not> white c) (c # s)"
  shows "signature_fields (c # s) = [c # s]"
proof -
  have "takeWhile (\<lambda>x. \<not> white x) s = s" "dropWhile (\<lambda>x. \<not> white x) s = []"
    using assms by (simp_all add: takeWhile_eq_all_conv dropWhile_eq_Nil_conv list_all_iff)
  moreover have "signature_fields [] = []" by (simp add: signature_fields.simps)
  moreover have "dropWhile white (c # s) = c # s" using assms by simp
  ultimately show ?thesis by (subst signature_fields.simps) (simp only: list.case)
qed

lemma base64_not_white: "base64_char url c \<Longrightarrow> \<not> white c"
  by (auto simp: base64_char_def white_def Let_def split: if_splits)

lemma signed_field: "is_bytes bs \<Longrightarrow> signature_fields (''v1,'' @ base64_digits False bs) = [''v1,'' @ base64_digits False bs]"
proof -
  assume "is_bytes bs"
  then have "list_all (\<lambda>c. \<not> white c) (base64_digits False bs)"
    using base64_digits_chars [of bs False] base64_not_white by (auto simp: list_all_iff)
  then have "list_all (\<lambda>c. \<not> white c) (CHR ''v'' # (''1,'' @ base64_digits False bs))" by (simp add: white_def)
  from signature_field_single [OF this] show ?thesis by simp
qed

theorem webhook_accepted_iff_signed_witness:
  "verify_webhook demo_mac (\<lambda>t. Some JNull) [1, 2] 1000000 ''{}'' ''m'' ''1000''
     (''v1,'' @ base64_digits False (demo_mac [1, 2] (signed_content ''m'' ''1000'' ''{}''))) = Inr JNull"
  by (rule iffD2 [OF webhook_accepted_iff_signed])
    (simp_all only: demo_mac_bytes demo_mac_not_Nil signed_field, simp_all add: webhook_request_ok_def is_digit_def digits_value_def)

definition demo_user_id :: string where
  "demo_user_id = ''0123456789ABCDEF01234567''"

lemma demo_user_id_ok: "user_id_pattern (map toLower demo_user_id)"
  by (simp add: demo_user_id_def user_id_pattern_def toLower_def)

definition demo_parse :: "nat list \<Rightarrow> jvalue option" where
  "demo_parse bs = (if bs = bytes_of (token_json (map toLower demo_user_id))
     then Some (token_payload (map toLower demo_user_id)) else None)"

lemma unsubscribe_token_roundtrip_witness:
  "Option.bind (create_token demo_mac [1] demo_user_id) (verify_token demo_mac demo_parse [1]) = Some (map toLower demo_user_id)"
  by (rule unsubscribe_token_roundtrip [OF demo_user_id_ok]) (simp_all add: demo_parse_def)

definition demo_token :: string where
  "demo_token = the (create_token demo_mac [1] demo_user_id)"

lemma demo_token_ok: "verify_token demo_mac demo_parse [1] demo_token = Some (map toLower demo_user_id)"
proof -
  have r: "Option.bind (create_token demo_mac [1] demo_user_id) (verify_token demo_mac demo_parse [1]) = Some (map toLower demo_user_id)"
    using token_round [OF demo_user_id_ok, of demo_mac "[1]" demo_parse] by (simp add: demo_parse_def)
  then show ?thesis by (auto simp: demo_token_def bind_eq_Some_conv)
qed

lemma accepted_token_is_signed_witness:
  "\<exists>payload. demo_token = TOKEN_VERSION @ [dot] @ payload @ [dot] @ signatureFor demo_mac [1] (TOKEN_VERSION @ [dot] @ payload)"
  using accepted_token_is_signed [OF demo_token_ok] by auto

end
