(* ===== verification/Presence.thy ===== *)
theory Presence
  imports Prelude
begin

text \<open>
  The presence of a user's app clients and the long poll that waits for the
  first one, \<open>src/services/app-client-presence-service.ts\<close>.  One process runs
  many calls, so the state holds every call with the place where it awaits.  A
  database read takes effect (\<open>read_db\<close>) before its answer is delivered, an
  upsert commits before its continuation wakes the waiters; between any two of
  these steps other calls run.  A race of promises is decided by the one that
  settles first.  A waiter is its promise with its outcome; settling it clears
  its timer and listener, so a settled waiter has no further events.
\<close>

section \<open>State\<close>

datatype wait_failure = InitialReadTimeout | ShuttingDown | ReadError

datatype wait_outcome = Resolved bool | ResolvedNull | Rejected wait_failure

record waiter =
  wt_user :: string
  wt_outcome :: "wait_outcome option"

datatype wait_phase =
  ImmediateRead "bool option"
| FirstRead "bool option"
| Racing nat "bool option"
| AwaitWaiter nat
| Done wait_outcome
  \<comment> \<open>a read carries what it saw, once it took effect\<close>

record wait_call =
  wc_user :: string
  wc_deadline :: millis
  wc_phase :: wait_phase
  wc_confirmed :: bool
  \<comment> \<open>whether one of its reads answered that there is no client\<close>

record presence =
  ps_db :: "string \<Rightarrow> bool"
  ps_due :: "string list"
  \<comment> \<open>committed upserts whose continuation has not run\<close>
  ps_waiters :: "nat \<rightharpoonup> waiter"
  ps_next :: nat
  ps_byUser :: "string \<Rightarrow> nat list"
  \<comment> \<open>\<open>#waitersByUserId\<close>; no waiters is no entry\<close>
  ps_released :: bool
  ps_calls :: "nat \<rightharpoonup> wait_call"

section \<open>Waiters\<close>

definition settleWaiter :: "nat \<Rightarrow> wait_outcome \<Rightarrow> presence \<Rightarrow> presence" where
  \<comment> \<open>the single-settlement gate, with the resolve or reject that follows it\<close>
  "settleWaiter w r s =
     (case ps_waiters s w of
        None \<Rightarrow> s
      | Some x \<Rightarrow>
          if wt_outcome x \<noteq> None then s
          else s\<lparr>ps_waiters := (ps_waiters s)(w \<mapsto> x\<lparr>wt_outcome := Some r\<rparr>),
                 ps_byUser := (ps_byUser s)(wt_user x := removeAll w (ps_byUser s (wt_user x)))\<rparr>)"

definition completeWaiter :: "nat \<Rightarrow> bool option \<Rightarrow> presence \<Rightarrow> presence" where
  "completeWaiter w registered s =
     settleWaiter w (case registered of None \<Rightarrow> ResolvedNull | Some b \<Rightarrow> Resolved b) s"

definition failWaiter :: "nat \<Rightarrow> wait_failure \<Rightarrow> presence \<Rightarrow> presence" where
  "failWaiter w e s = settleWaiter w (Rejected e) s"

definition createWaiter :: "string \<Rightarrow> presence \<Rightarrow> nat \<times> presence" where
  "createWaiter u s =
     (let w = ps_next s in
      (w, s\<lparr>ps_waiters := (ps_waiters s)(w \<mapsto> \<lparr>wt_user = u, wt_outcome = None\<rparr>), ps_next := w + 1,
            ps_byUser := (ps_byUser s)(u := ps_byUser s u @ [w])\<rparr>))"

section \<open>Registration and shutdown\<close>

definition commitToken :: "string \<Rightarrow> presence \<Rightarrow> presence" where
  \<comment> \<open>the upsert of \<open>registerToken\<close> takes effect; a failed one does nothing\<close>
  "commitToken u s = s\<lparr>ps_db := (ps_db s)(u := True), ps_due := ps_due s @ [u]\<rparr>"

definition wakeWaiters :: "string \<Rightarrow> presence \<Rightarrow> presence" where
  \<comment> \<open>the rest of \<open>registerToken\<close>\<close>
  "wakeWaiters u s =
     (if u \<notin> set (ps_due s) then s
      else fold (\<lambda>w. completeWaiter w (Some True)) (ps_byUser s u) (s\<lparr>ps_due := remove1 u (ps_due s)\<rparr>))"

definition removeTokens :: "string \<Rightarrow> presence \<Rightarrow> presence" where
  \<comment> \<open>the user's last token is deleted elsewhere\<close>
  "removeTokens u s = s\<lparr>ps_db := (ps_db s)(u := False)\<rparr>"

definition pending_waiters :: "presence \<Rightarrow> nat list" where
  "pending_waiters s =
     filter (\<lambda>w. case ps_waiters s w of None \<Rightarrow> False | Some x \<Rightarrow> w \<in> set (ps_byUser s (wt_user x))) [0..<ps_next s]"

definition releaseRegistrationWaiters :: "presence \<Rightarrow> presence" where
  "releaseRegistrationWaiters s =
     (if ps_released s then s
      else fold (\<lambda>w. failWaiter w ShuttingDown) (pending_waiters s) (s\<lparr>ps_released := True\<rparr>))"

section \<open>Waiting\<close>

definition phase :: "nat \<Rightarrow> wait_phase \<Rightarrow> wait_call \<Rightarrow> presence \<Rightarrow> presence" where
  "phase i p c s = s\<lparr>ps_calls := (ps_calls s)(i \<mapsto> c\<lparr>wc_phase := p\<rparr>)\<rparr>"

definition waitForRegistration :: "nat \<Rightarrow> string \<Rightarrow> millis \<Rightarrow> bool \<Rightarrow> millis \<Rightarrow> presence \<Rightarrow> presence" where
  \<comment> \<open>up to its first await\<close>
  "waitForRegistration i u timeoutMs aborted now s =
     phase i (if aborted then Done ResolvedNull
              else if ps_released s then Done (Rejected ShuttingDown)
              else if timeoutMs \<le> 0 then ImmediateRead None else FirstRead None)
       \<lparr>wc_user = u, wc_deadline = now + timeoutMs, wc_phase = FirstRead None, wc_confirmed = False\<rparr> s"

definition hasRegisteredClient :: "nat \<Rightarrow> string \<Rightarrow> presence \<Rightarrow> presence" where
  "hasRegisteredClient i u s =
     phase i (ImmediateRead None) \<lparr>wc_user = u, wc_deadline = 0, wc_phase = ImmediateRead None, wc_confirmed = False\<rparr> s"

definition read_db :: "nat \<Rightarrow> presence \<Rightarrow> presence" where
  "read_db i s =
     (case ps_calls s i of
        None \<Rightarrow> s
      | Some c \<Rightarrow>
          (case wc_phase c of
             ImmediateRead None \<Rightarrow> phase i (ImmediateRead (Some (ps_db s (wc_user c)))) c s
           | FirstRead None \<Rightarrow> phase i (FirstRead (Some (ps_db s (wc_user c)))) c s
           | Racing w None \<Rightarrow> phase i (Racing w (Some (ps_db s (wc_user c)))) c s
           | _ \<Rightarrow> s))"

definition after_absent :: "nat \<Rightarrow> millis \<Rightarrow> wait_call \<Rightarrow> presence \<Rightarrow> presence" where
  \<comment> \<open>the first read answered that there is no client\<close>
  "after_absent i now c s =
     (if ps_released s then phase i (Done (Resolved False)) c s
      else if wc_deadline c - now \<le> 0 then phase i (Done (Resolved False)) c s
      else case createWaiter (wc_user c) s of (w, s') \<Rightarrow> phase i (Racing w None) c s')"

definition outcome_of :: "nat \<Rightarrow> presence \<Rightarrow> wait_outcome option" where
  "outcome_of w s = Option.bind (ps_waiters s w) wt_outcome"

definition readAnswered :: "nat \<Rightarrow> millis \<Rightarrow> presence \<Rightarrow> presence" where
  "readAnswered i now s =
     (case ps_calls s i of
        None \<Rightarrow> s
      | Some c \<Rightarrow>
          (case wc_phase c of
             ImmediateRead (Some b) \<Rightarrow> phase i (Done (Resolved b)) (c\<lparr>wc_confirmed := \<not> b\<rparr>) s
           | FirstRead (Some b) \<Rightarrow>
               if b then phase i (Done (Resolved True)) c s
               else after_absent i now (c\<lparr>wc_confirmed := True\<rparr>) s
           | Racing w (Some b) \<Rightarrow>
               if outcome_of w s \<noteq> None then s
               else if b then phase i (Done (Resolved True)) c (completeWaiter w (Some True) s)
               else phase i (AwaitWaiter w) c s
           | _ \<Rightarrow> s))"

definition readFailed :: "nat \<Rightarrow> presence \<Rightarrow> presence" where
  "readFailed i s =
     (case ps_calls s i of
        None \<Rightarrow> s
      | Some c \<Rightarrow>
          (case wc_phase c of
             ImmediateRead _ \<Rightarrow> phase i (Done (Rejected ReadError)) c s
           | FirstRead _ \<Rightarrow> phase i (Done (Rejected ReadError)) c s
           | Racing w _ \<Rightarrow>
               if outcome_of w s \<noteq> None then s
               else phase i (Done (Rejected ReadError)) c (completeWaiter w None s)
           | _ \<Rightarrow> s))"

definition firstReadDeadline :: "nat \<Rightarrow> presence \<Rightarrow> presence" where
  "firstReadDeadline i s =
     (case ps_calls s i of
        None \<Rightarrow> s
      | Some c \<Rightarrow> (case wc_phase c of FirstRead _ \<Rightarrow> phase i (Done (Rejected InitialReadTimeout)) c s | _ \<Rightarrow> s))"

definition waiting_on :: "wait_phase \<Rightarrow> nat option" where
  "waiting_on p = (case p of Racing w _ \<Rightarrow> Some w | AwaitWaiter w \<Rightarrow> Some w | _ \<Rightarrow> None)"

definition abortSignal :: "nat \<Rightarrow> presence \<Rightarrow> presence" where
  \<comment> \<open>the client closed its connection\<close>
  "abortSignal i s =
     (case ps_calls s i of
        None \<Rightarrow> s
      | Some c \<Rightarrow>
          (case wc_phase c of
             FirstRead _ \<Rightarrow> phase i (Done ResolvedNull) c s
           | Racing w _ \<Rightarrow> completeWaiter w None s
           | AwaitWaiter w \<Rightarrow> completeWaiter w None s
           | _ \<Rightarrow> s))"

definition registrationTimeout :: "nat \<Rightarrow> presence \<Rightarrow> presence" where
  "registrationTimeout w s = completeWaiter w (Some False) s"

definition waiterSettled :: "nat \<Rightarrow> presence \<Rightarrow> presence" where
  \<comment> \<open>the call resumes with the outcome of its waiter\<close>
  "waiterSettled i s =
     (case ps_calls s i of
        None \<Rightarrow> s
      | Some c \<Rightarrow>
          (case Option.bind (waiting_on (wc_phase c)) (\<lambda>w. outcome_of w s) of
             None \<Rightarrow> s | Some r \<Rightarrow> phase i (Done r) c s))"

section \<open>The status route\<close>

datatype presence_reply = Registered bool | Hijacked | InternalServer500 | ServiceRestarting503

definition appClientStatus :: "bool \<Rightarrow> wait_outcome \<Rightarrow> presence_reply" where
  \<comment> \<open>\<open>routes/app-clients.ts\<close>: what the route makes of the outcome; \<open>connected\<close> is whether the client still is\<close>
  "appClientStatus connected r =
     (case r of
        Rejected ShuttingDown \<Rightarrow> ServiceRestarting503
      | Rejected _ \<Rightarrow> InternalServer500
      | ResolvedNull \<Rightarrow> Hijacked
      | Resolved b \<Rightarrow> if connected then Registered b else Hijacked)"

section \<open>Steps\<close>

inductive presence_step :: "presence \<Rightarrow> presence \<Rightarrow> bool" where
  wait: "ps_calls s i = None \<Longrightarrow> presence_step s (waitForRegistration i u timeoutMs aborted now s)"
| ask: "ps_calls s i = None \<Longrightarrow> presence_step s (hasRegisteredClient i u s)"
| read: "presence_step s (read_db i s)"
| answered: "presence_step s (readAnswered i now s)"
| read_failed: "presence_step s (readFailed i s)"
| first_deadline: "presence_step s (firstReadDeadline i s)"
| aborted: "presence_step s (abortSignal i s)"
| timed_out: "presence_step s (registrationTimeout w s)"
| resumed: "presence_step s (waiterSettled i s)"
| committed: "presence_step s (commitToken u s)"
| woken: "presence_step s (wakeWaiters u s)"
| removed: "presence_step s (removeTokens u s)"
| shut_down: "presence_step s (releaseRegistrationWaiters s)"

definition new_presence :: "(string \<Rightarrow> bool) \<Rightarrow> presence" where
  "new_presence db = \<lparr>ps_db = db, ps_due = [], ps_waiters = Map.empty, ps_next = 0, ps_byUser = (\<lambda>_. []),
     ps_released = False, ps_calls = Map.empty\<rparr>"

definition presence_reachable :: "presence \<Rightarrow> bool" where
  "presence_reachable s \<longleftrightarrow> (\<exists>db. presence_step\<^sup>*\<^sup>* (new_presence db) s)"

end
