(* ===== verification/PresenceProps.thy ===== *)
theory PresenceProps
  imports Presence Documents
begin

text \<open>
  No registration is missed between the first read and the storing of a waiter,
  absence is only reported when a read confirmed it, a waiter is settled once,
  and shutdown leaves none behind.
\<close>

section \<open>Settling\<close>

named_theorems settling \<open>what settling a waiter leaves alone\<close>

lemma settleWaiter_frame [settling]:
  "ps_db (settleWaiter w r s) = ps_db s" "ps_due (settleWaiter w r s) = ps_due s" "ps_next (settleWaiter w r s) = ps_next s"
  "ps_released (settleWaiter w r s) = ps_released s" "ps_calls (settleWaiter w r s) = ps_calls s"
  by (simp_all add: settleWaiter_def split: option.split)

lemma completeWaiter_frame [settling]:
  "ps_db (completeWaiter w b s) = ps_db s" "ps_due (completeWaiter w b s) = ps_due s"
  "ps_next (completeWaiter w b s) = ps_next s" "ps_released (completeWaiter w b s) = ps_released s"
  "ps_calls (completeWaiter w b s) = ps_calls s"
  by (simp_all add: completeWaiter_def settling)

definition settles :: "(nat \<Rightarrow> wait_outcome) \<Rightarrow> nat list \<Rightarrow> presence \<Rightarrow> presence" where
  "settles f ws s = fold (\<lambda>w. settleWaiter w (f w)) ws s"

lemma settles_frame [settling]:
  "ps_db (settles f ws s) = ps_db s" "ps_due (settles f ws s) = ps_due s" "ps_next (settles f ws s) = ps_next s"
  "ps_released (settles f ws s) = ps_released s" "ps_calls (settles f ws s) = ps_calls s"
  by (induction ws arbitrary: s) (simp_all add: settles_def settling)

definition unsettled :: "nat \<Rightarrow> presence \<Rightarrow> bool" where
  "unsettled w s \<longleftrightarrow> ps_waiters s w \<noteq> None \<and> outcome_of w s = None"

definition waiter_user :: "nat \<Rightarrow> presence \<Rightarrow> string option" where
  "waiter_user w s = map_option wt_user (ps_waiters s w)"

lemma waiter_user_settle [settling]: "waiter_user v (settleWaiter w r s) = waiter_user v s"
  by (auto simp: waiter_user_def settleWaiter_def split: option.split)

lemma outcome_of_settle:
  "outcome_of v (settleWaiter w r s) = (if v = w \<and> unsettled w s then Some r else outcome_of v s)"
  by (auto simp: outcome_of_def settleWaiter_def unsettled_def split: option.split)

lemma unsettled_settle [settling]: "unsettled v (settleWaiter w r s) \<longleftrightarrow> unsettled v s \<and> v \<noteq> w"
  by (auto simp: unsettled_def outcome_of_def settleWaiter_def split: option.split)

lemma waiter_user_settles [settling]: "waiter_user v (settles f ws s) = waiter_user v s"
  by (induction ws arbitrary: s) (simp_all add: settles_def settling)

lemma unsettled_settles [settling]: "unsettled v (settles f ws s) \<longleftrightarrow> unsettled v s \<and> v \<notin> set ws"
  by (induction ws arbitrary: s) (auto simp: settles_def settling)

lemma settles_outcome:
  "w \<in> set ws \<Longrightarrow> unsettled w s \<Longrightarrow> outcome_of w (settles (\<lambda>_. r) ws s) = Some r"
proof (induction ws arbitrary: s)
  case (Cons v ws)
  show ?case
  proof (cases "v = w")
    case True
    have "outcome_of w (settles (\<lambda>_. r) ws t) = Some r" if "outcome_of w t = Some r" for t
      using that by (induction ws arbitrary: t) (simp_all add: settles_def outcome_of_settle)
    then show ?thesis using True Cons.prems by (simp add: settles_def outcome_of_settle)
  next
    case False
    then show ?thesis using Cons by (simp add: settles_def settling)
  qed
qed simp

lemma settle_functions:
  "completeWaiter w (Some b) = settleWaiter w (Resolved b)" "failWaiter w e = settleWaiter w (Rejected e)"
  by (rule ext, simp add: completeWaiter_def failWaiter_def)+

lemma wake_settles:
  "u \<in> set (ps_due s) \<Longrightarrow> wakeWaiters u s = settles (\<lambda>_. Resolved True) (ps_byUser s u) (s\<lparr>ps_due := remove1 u (ps_due s)\<rparr>)"
  by (simp add: wakeWaiters_def settles_def settle_functions)

lemma release_settles:
  "\<not> ps_released s \<Longrightarrow> releaseRegistrationWaiters s = settles (\<lambda>_. Rejected ShuttingDown) (pending_waiters s) (s\<lparr>ps_released := True\<rparr>)"
  by (simp add: releaseRegistrationWaiters_def settles_def settle_functions)

section \<open>The invariant\<close>

definition indexed :: "presence \<Rightarrow> bool" where
  "indexed s \<longleftrightarrow>
     (\<forall>u w. w \<in> set (ps_byUser s u) \<longleftrightarrow> unsettled w s \<and> waiter_user w s = Some u) \<and>
     (\<forall>w. ps_waiters s w \<noteq> None \<longrightarrow> w < ps_next s)"

definition covered :: "presence \<Rightarrow> wait_call \<Rightarrow> bool" where
  \<comment> \<open>a call that still waits for a registered user has a wake-up or an answer coming\<close>
  "covered s c \<longleftrightarrow>
     (case wc_phase c of
        Racing w r \<Rightarrow> unsettled w s \<and> ps_db s (wc_user c) \<longrightarrow> wc_user c \<in> set (ps_due s) \<or> r \<noteq> Some False
      | AwaitWaiter w \<Rightarrow> unsettled w s \<and> ps_db s (wc_user c) \<longrightarrow> wc_user c \<in> set (ps_due s)
      | _ \<Rightarrow> True)"

definition call_ok :: "presence \<Rightarrow> wait_call \<Rightarrow> bool" where
  "call_ok s c \<longleftrightarrow> covered s c \<and>
     (\<forall>w. waiting_on (wc_phase c) = Some w \<longrightarrow> waiter_user w s = Some (wc_user c) \<and> wc_confirmed c) \<and>
     (wc_phase c = Done (Resolved False) \<longrightarrow> wc_confirmed c)"

definition presence_ok :: "presence \<Rightarrow> bool" where
  "presence_ok s \<longleftrightarrow> indexed s \<and> (\<forall>i c. ps_calls s i = Some c \<longrightarrow> call_ok s c) \<and>
     (ps_released s \<longrightarrow> (\<forall>w. \<not> unsettled w s))"

lemma presence_ok_new: "presence_ok (new_presence db)"
  by (simp add: presence_ok_def new_presence_def indexed_def unsettled_def)

lemma indexed_settle: "indexed s \<Longrightarrow> indexed (settleWaiter w r s)"
proof -
  assume i: "indexed s"
  have "w' \<in> set (ps_byUser (settleWaiter w r s) u) \<longleftrightarrow> unsettled w' s \<and> w' \<noteq> w \<and> waiter_user w' s = Some u" for w' u
    using i by (auto simp: indexed_def settleWaiter_def unsettled_def outcome_of_def waiter_user_def split: option.split)
  moreover have "ps_waiters (settleWaiter w r s) w' \<noteq> None \<longleftrightarrow> ps_waiters s w' \<noteq> None" for w'
    by (auto simp: settleWaiter_def split: option.split)
  ultimately show ?thesis using i by (auto simp: indexed_def settling)
qed

lemma call_ok_mono:
  assumes "call_ok s c" and "ps_db t = ps_db s" and "ps_due t = ps_due s" and "\<And>w u. unsettled w t \<Longrightarrow> waiter_user w s = Some u \<Longrightarrow> unsettled w s"
    and "\<And>w u. waiter_user w s = Some u \<Longrightarrow> waiter_user w t = Some u"
  shows "call_ok t c"
proof -
  have w: "waiter_user w s = Some (wc_user c)" if "waiting_on (wc_phase c) = Some w" for w
    using assms(1) that by (simp add: call_ok_def)
  have "covered t c"
    using assms(1) w assms(4) unfolding call_ok_def covered_def assms(2,3)
    by (auto simp: waiting_on_def split: wait_phase.splits)
  then show ?thesis using assms(1,5) by (simp add: call_ok_def)
qed

lemma presence_ok_settle: "presence_ok s \<Longrightarrow> presence_ok (settleWaiter w r s)"
  unfolding presence_ok_def
  by (auto simp: settling intro: indexed_settle call_ok_mono [where s = s])

lemma presence_ok_settles: "presence_ok s \<Longrightarrow> presence_ok (settles f ws s)"
  by (induction ws arbitrary: s) (simp_all add: settles_def presence_ok_settle)

lemma presence_ok_complete: "presence_ok s \<Longrightarrow> presence_ok (completeWaiter w b s)"
  by (simp add: completeWaiter_def presence_ok_settle)

lemma phase_frame [settling]:
  "ps_db (phase i p c s) = ps_db s" "ps_due (phase i p c s) = ps_due s" "ps_waiters (phase i p c s) = ps_waiters s"
  "ps_next (phase i p c s) = ps_next s" "ps_byUser (phase i p c s) = ps_byUser s" "ps_released (phase i p c s) = ps_released s"
  "unsettled w (phase i p c s) = unsettled w s" "waiter_user w (phase i p c s) = waiter_user w s"
  by (simp_all add: phase_def unsettled_def outcome_of_def waiter_user_def)

lemma phase_calls: "ps_calls (phase i p c s) = (ps_calls s)(i \<mapsto> c\<lparr>wc_phase := p\<rparr>)"
  by (simp add: phase_def)

lemma presence_ok_phase:
  assumes "presence_ok s" and "call_ok s (c\<lparr>wc_phase := p\<rparr>)"
  shows "presence_ok (phase i p c s)"
proof -
  have "call_ok (phase i p c s) c'" if "call_ok s c'" for c'
    by (rule call_ok_mono [OF that]) (simp_all add: settling)
  then show ?thesis using assms by (simp add: presence_ok_def indexed_def settling phase_calls)
qed

lemma call_ok_done: "r \<noteq> Resolved False \<or> wc_confirmed c \<Longrightarrow> call_ok s (c\<lparr>wc_phase := Done r\<rparr>)"
  by (auto simp: call_ok_def covered_def waiting_on_def)

lemma presence_ok_done: "presence_ok s \<Longrightarrow> r \<noteq> Resolved False \<or> wc_confirmed c \<Longrightarrow> presence_ok (phase i (Done r) c s)"
  by (intro presence_ok_phase call_ok_done)

lemma call_okD:
  "presence_ok s \<Longrightarrow> ps_calls s i = Some c \<Longrightarrow> call_ok s c"
  by (simp add: presence_ok_def)

section \<open>Every step\<close>

lemma ok_create:
  assumes ok: "presence_ok s" and c: "wc_confirmed c" and r: "\<not> ps_released s"
  shows "presence_ok (case createWaiter (wc_user c) s of (w, s') \<Rightarrow> phase i (Racing w None) c s')"
proof -
  obtain w t where cr: "createWaiter (wc_user c) s = (w, t)" by (cases "createWaiter (wc_user c) s")
  have w: "w = ps_next s" and t: "ps_db t = ps_db s" "ps_due t = ps_due s" "ps_calls t = ps_calls s" "ps_released t = ps_released s"
    "ps_next t = ps_next s + 1" and x: "ps_waiters t = (ps_waiters s)(w \<mapsto> \<lparr>wt_user = wc_user c, wt_outcome = None\<rparr>)"
    and y: "ps_byUser t = (ps_byUser s)(wc_user c := ps_byUser s (wc_user c) @ [w])"
    using cr by (auto simp: createWaiter_def Let_def)
  have new: "ps_waiters s w = None" using ok w by (auto simp: presence_ok_def indexed_def)
  have un: "unsettled v t \<longleftrightarrow> unsettled v s \<or> v = w" and us: "waiter_user v t = (if v = w then Some (wc_user c) else waiter_user v s)" for v
    using new by (auto simp: unsettled_def outcome_of_def waiter_user_def x)
  have ix: "indexed t"
    using ok new w unfolding presence_ok_def indexed_def un us y t(5) x
    by (auto simp: unsettled_def waiter_user_def less_Suc_eq)
  have "call_ok t c'" if "call_ok s c'" for c'
    by (rule call_ok_mono [OF that]) (use t un us new in \<open>auto simp: waiter_user_def\<close>)
  then have "presence_ok t" using ok ix r t by (simp add: presence_ok_def)
  moreover have "call_ok t (c\<lparr>wc_phase := Racing w None\<rparr>)"
    using c us by (simp add: call_ok_def covered_def waiting_on_def)
  ultimately show ?thesis unfolding cr prod.case by (rule presence_ok_phase)
qed

lemma ok_read: "presence_ok s \<Longrightarrow> presence_ok (read_db i s)"
  by (auto simp: read_db_def call_ok_def covered_def waiting_on_def dest: call_okD intro!: presence_ok_phase
      split: option.split wait_phase.split)

lemma ok_answered: "presence_ok s \<Longrightarrow> presence_ok (readAnswered i now s)"
proof -
  assume ok: "presence_ok s"
  show ?thesis
  proof (cases "ps_calls s i")
    case (Some c)
    have c: "call_ok s c" using call_okD [OF ok Some] .
    have f: "presence_ok (after_absent i now (c\<lparr>wc_confirmed := True\<rparr>) s)"
      using ok_create [OF ok, of "c\<lparr>wc_confirmed := True\<rparr>"] presence_ok_done [OF ok, of _ "c\<lparr>wc_confirmed := True\<rparr>"]
      by (auto simp: after_absent_def)
    have a: "presence_ok (phase i (AwaitWaiter w) c s)" if "wc_phase c = Racing w (Some False)" for w
      using c that by (intro presence_ok_phase [OF ok]) (auto simp: call_ok_def covered_def waiting_on_def)
    show ?thesis
      using ok f a presence_ok_done [OF presence_ok_complete [OF ok]]
      by (auto simp: readAnswered_def Some intro!: presence_ok_done split: wait_phase.split option.split)
  qed (simp add: readAnswered_def ok)
qed

lemma ok_simple:
  assumes "presence_ok s"
  shows "presence_ok (readFailed i s)" and "presence_ok (firstReadDeadline i s)" and "presence_ok (abortSignal i s)"
    and "presence_ok (registrationTimeout w s)"
  using assms
  by (auto simp: readFailed_def firstReadDeadline_def abortSignal_def registrationTimeout_def
      intro!: presence_ok_done presence_ok_complete split: option.split wait_phase.split)

lemma ok_resumed: "presence_ok s \<Longrightarrow> presence_ok (waiterSettled i s)"
proof -
  assume ok: "presence_ok s"
  show ?thesis
  proof (cases "ps_calls s i")
    case (Some c)
    then have "wc_confirmed c" if "waiting_on (wc_phase c) = Some w" for w
      using call_okD [OF ok Some] that by (simp add: call_ok_def)
    then show ?thesis using ok Some
      by (auto simp: waiterSettled_def bind_eq_Some_conv intro!: presence_ok_done split: option.split)
  qed (simp add: waiterSettled_def ok)
qed

lemma due_frame [simp]:
  "unsettled w (s\<lparr>ps_due := d\<rparr>) = unsettled w s" "waiter_user w (s\<lparr>ps_due := d\<rparr>) = waiter_user w s"
  "unsettled w (s\<lparr>ps_released := b\<rparr>) = unsettled w s" "waiter_user w (s\<lparr>ps_released := b\<rparr>) = waiter_user w s"
  "unsettled w (s\<lparr>ps_db := e\<rparr>) = unsettled w s" "waiter_user w (s\<lparr>ps_db := e\<rparr>) = waiter_user w s"
  "indexed (s\<lparr>ps_db := e\<rparr>) = indexed s" "indexed (s\<lparr>ps_due := d\<rparr>) = indexed s" "indexed (s\<lparr>ps_released := b\<rparr>) = indexed s"
  by (simp_all add: unsettled_def outcome_of_def waiter_user_def indexed_def cong: if_cong)

lemma ok_db:
  assumes "presence_ok s"
  shows "presence_ok (commitToken u s)" and "presence_ok (removeTokens u s)"
proof -
  have "call_ok (commitToken u s) c \<and> call_ok (removeTokens u s) c" if c: "call_ok s c" for c
    using c by (auto simp: call_ok_def covered_def commitToken_def removeTokens_def split: wait_phase.splits)
  then show "presence_ok (commitToken u s)" and "presence_ok (removeTokens u s)"
    using assms by (auto simp: presence_ok_def commitToken_def removeTokens_def)
qed

lemma indexed_settles: "indexed s \<Longrightarrow> indexed (settles f ws s)"
  by (induction ws arbitrary: s) (simp_all add: settles_def indexed_settle)

lemma ok_woken: "presence_ok s \<Longrightarrow> presence_ok (wakeWaiters u s)"
proof (cases "u \<in> set (ps_due s)")
  case True
  assume ok: "presence_ok s"
  let ?t = "settles (\<lambda>_. Resolved True) (ps_byUser s u) (s\<lparr>ps_due := remove1 u (ps_due s)\<rparr>)"
  have un: "unsettled v ?t \<longleftrightarrow> unsettled v s \<and> waiter_user v s \<noteq> Some u" for v
    using ok by (auto simp: settling presence_ok_def indexed_def)
  have us: "waiter_user v ?t = waiter_user v s" for v by (simp add: settling)
  have "call_ok ?t c" if c: "call_ok s c" for c
  proof -
    have "covered ?t c"
      using c unfolding call_ok_def covered_def un
      by (auto simp: settling waiting_on_def in_set_remove1 split: wait_phase.splits)
    then show ?thesis using c by (simp add: call_ok_def us)
  qed
  moreover have "indexed ?t" using ok by (simp add: indexed_settles presence_ok_def)
  ultimately have "presence_ok ?t" using ok un by (auto simp: presence_ok_def settling)
  then show ?thesis by (simp add: wake_settles [OF True])
qed (simp add: wakeWaiters_def)

lemma pending_iff: "indexed s \<Longrightarrow> w \<in> set (pending_waiters s) \<longleftrightarrow> unsettled w s"
  by (auto simp: pending_waiters_def indexed_def unsettled_def waiter_user_def split: option.splits)

lemma ok_released: "presence_ok s \<Longrightarrow> presence_ok (releaseRegistrationWaiters s)"
proof (cases "ps_released s")
  case False
  assume ok: "presence_ok s"
  let ?t = "settles (\<lambda>_. Rejected ShuttingDown) (pending_waiters s) (s\<lparr>ps_released := True\<rparr>)"
  have un: "\<not> unsettled v ?t" for v
    using ok pending_iff [of s v] by (simp add: settling presence_ok_def)
  have "call_ok ?t c" if c: "call_ok s c" for c
    using c un by (auto simp: call_ok_def covered_def settling split: wait_phase.splits)
  moreover have "indexed ?t" using ok by (simp add: indexed_settles presence_ok_def)
  ultimately have "presence_ok ?t" using ok un by (auto simp: presence_ok_def settling)
  then show ?thesis by (simp add: release_settles [OF False])
qed (simp add: releaseRegistrationWaiters_def)

lemma ok_begin:
  assumes "presence_ok s"
  shows "presence_ok (waitForRegistration i u timeoutMs b now s)" and "presence_ok (hasRegisteredClient i u s)"
  using assms unfolding waitForRegistration_def hasRegisteredClient_def
  by (auto simp: call_ok_def covered_def waiting_on_def intro!: presence_ok_phase)

lemma presence_step_ok: "presence_step s t \<Longrightarrow> presence_ok s \<Longrightarrow> presence_ok t"
  by (induction rule: presence_step.induct)
    (simp_all add: ok_begin ok_read ok_answered ok_simple ok_resumed ok_db ok_woken ok_released)

lemma reachable_ok: "presence_reachable s \<Longrightarrow> presence_ok s"
  unfolding presence_reachable_def
proof (elim exE)
  fix db assume "presence_step\<^sup>*\<^sup>* (new_presence db) s"
  then show "presence_ok s" by (induction rule: rtranclp_induct) (auto intro: presence_ok_new presence_step_ok)
qed

section \<open>The properties\<close>

definition resumable :: "wait_outcome \<Rightarrow> nat \<Rightarrow> presence \<Rightarrow> bool" where
  "resumable r i s \<longleftrightarrow> (case ps_calls s i of
     None \<Rightarrow> False | Some c \<Rightarrow> Option.bind (waiting_on (wc_phase c)) (\<lambda>w. outcome_of w s) = Some r)"

definition registration_coming :: "nat \<Rightarrow> presence \<Rightarrow> bool" where
  \<comment> \<open>call \<open>i\<close> has an outcome, or the continuation of an upsert is about to wake it, or its recheck has
     not answered with an absence\<close>
  "registration_coming i s \<longleftrightarrow> (case ps_calls s i of
     None \<Rightarrow> False
   | Some c \<Rightarrow> Option.bind (waiting_on (wc_phase c)) (\<lambda>w. outcome_of w s) \<noteq> None \<or> wc_user c \<in> set (ps_due s) \<or>
       (case wc_phase c of Racing w r \<Rightarrow> r \<noteq> Some False | _ \<Rightarrow> False))"

text \<open>C26: No registration is missed: in every reachable state a call that waits for a user who has a
  client has an outcome, or is about to be woken, or still has its recheck to answer; and when the
  wake-up runs, every waiter of the user that is not settled yet resolves to true.\<close>
theorem no_registration_missed:
  assumes "presence_reachable s" and "ps_calls s i = Some c" and "waiting_on (wc_phase c) = Some w"
  shows "(ps_db s (wc_user c) \<longrightarrow> registration_coming i s) \<and>
    (wc_user c \<in> set (ps_due s) \<and> unsettled w s \<longrightarrow> outcome_of w (wakeWaiters (wc_user c) s) = Some (Resolved True))"
proof -
  have ok: "presence_ok s" using reachable_ok [OF assms(1)] .
  have c: "call_ok s c" using call_okD [OF ok assms(2)] .
  then have u: "waiter_user w s = Some (wc_user c)" using assms(3) by (simp add: call_ok_def)
  then have n: "unsettled w s \<longleftrightarrow> outcome_of w s = None" by (auto simp: unsettled_def waiter_user_def)
  have "registration_coming i s" if "ps_db s (wc_user c)"
    using c that assms(2,3) n
    by (auto simp: registration_coming_def call_ok_def covered_def waiting_on_def split: wait_phase.splits option.splits)
  moreover have "outcome_of w (wakeWaiters (wc_user c) s) = Some (Resolved True)"
    if d: "wc_user c \<in> set (ps_due s)" and x: "unsettled w s"
  proof -
    have "w \<in> set (ps_byUser s (wc_user c))" using ok x u by (simp add: presence_ok_def indexed_def)
    then show ?thesis unfolding wake_settles [OF d] using x by (intro settles_outcome) simp_all
  qed
  ultimately show ?thesis by blast
qed

text \<open>Absence is never made up: a call answers that there is no client only after one of its own
  reads said so, whatever timeouts, aborts and shutdown do; and once shutdown has released the
  waiters none is left pending and none is added.\<close>
lemma absence_is_confirmed:
  assumes "presence_reachable s" and "ps_calls s i = Some c"
  shows "(wc_phase c = Done (Resolved False) \<or> resumable (Resolved False) i s \<longrightarrow> wc_confirmed c) \<and>
    (ps_released s \<longrightarrow> pending_waiters s = [])"
proof -
  have ok: "presence_ok s" using reachable_ok [OF assms(1)] .
  have c: "call_ok s c" using call_okD [OF ok assms(2)] .
  have "pending_waiters s = []" if "ps_released s"
    using ok that pending_iff [of s] unfolding presence_ok_def by (cases "pending_waiters s") auto
  moreover have "wc_confirmed c" if "resumable (Resolved False) i s"
    using c that assms(2) by (auto simp: resumable_def call_ok_def bind_eq_Some_conv)
  ultimately show ?thesis using c by (auto simp: call_ok_def)
qed

section \<open>A long poll\<close>

definition demo_poll :: presence where
  \<comment> \<open>a poll whose first read found nobody, when a token is committed before its waiter is stored\<close>
  "demo_poll = readAnswered 0 5 (commitToken ''u'' (read_db 0
     (waitForRegistration 0 ''u'' 100 False 0 (new_presence (\<lambda>_. False)))))"

definition demo_missed :: presence where
  \<comment> \<open>the same poll without the token, after its timer\<close>
  "demo_missed = waiterSettled 0 (registrationTimeout 0 (readAnswered 0 6 (read_db 0 (readAnswered 0 5 (read_db 0
     (waitForRegistration 0 ''u'' 100 False 0 (new_presence (\<lambda>_. False))))))))"

lemmas presence_defs = waitForRegistration_def phase_def new_presence_def read_db_def commitToken_def readAnswered_def
  after_absent_def createWaiter_def registrationTimeout_def completeWaiter_def settleWaiter_def waiterSettled_def waiting_on_def
  outcome_of_def Let_def

lemma demo_poll_reachable: "presence_reachable demo_poll"
  unfolding presence_reachable_def demo_poll_def
  by (rule exI, rule rtranclp.rtrancl_into_rtrancl [rotated], rule presence_step.answered,
      rule rtranclp.rtrancl_into_rtrancl [rotated], rule presence_step.committed,
      rule rtranclp.rtrancl_into_rtrancl [rotated], rule presence_step.read, rule r_into_rtranclp, rule presence_step.wait)
    (simp add: new_presence_def)

lemma demo_poll_call:
  "ps_calls demo_poll 0 = Some \<lparr>wc_user = ''u'', wc_deadline = 100, wc_phase = Racing 0 None, wc_confirmed = True\<rparr>"
  by (simp add: demo_poll_def presence_defs)

theorem no_registration_missed_witness:
  "registration_coming 0 demo_poll \<and> outcome_of 0 (wakeWaiters ''u'' demo_poll) = Some (Resolved True)"
proof -
  have "ps_db demo_poll ''u''" "''u'' \<in> set (ps_due demo_poll)" "unsettled 0 demo_poll"
    by (simp_all add: demo_poll_def presence_defs unsettled_def)
  with no_registration_missed [OF demo_poll_reachable demo_poll_call, of 0] show ?thesis by (simp add: waiting_on_def)
qed

lemma demo_missed_reachable: "presence_reachable demo_missed"
  unfolding presence_reachable_def demo_missed_def
  by (rule exI, rule rtranclp.rtrancl_into_rtrancl [rotated], rule presence_step.resumed,
      rule rtranclp.rtrancl_into_rtrancl [rotated], rule presence_step.timed_out,
      rule rtranclp.rtrancl_into_rtrancl [rotated], rule presence_step.answered,
      rule rtranclp.rtrancl_into_rtrancl [rotated], rule presence_step.read,
      rule rtranclp.rtrancl_into_rtrancl [rotated], rule presence_step.answered,
      rule rtranclp.rtrancl_into_rtrancl [rotated], rule presence_step.read, rule r_into_rtranclp, rule presence_step.wait)
    (simp add: new_presence_def)

lemma demo_missed_call:
  "ps_calls demo_missed 0 =
     Some \<lparr>wc_user = ''u'', wc_deadline = 100, wc_phase = Done (Resolved False), wc_confirmed = True\<rparr>"
  by (simp add: demo_missed_def presence_defs)

lemma absence_is_confirmed_witness: "wc_confirmed (the (ps_calls demo_missed 0))"
  using absence_is_confirmed [OF demo_missed_reachable demo_missed_call] demo_missed_call by simp

end
