(* ===== verification/AnalyticsWarehouse.thy ===== *)
theory AnalyticsWarehouse
  imports Errors
begin

text \<open>
  The BigQuery side of the daily analytics export,
  \<open>src/repositories/product-analytics-export-repo.ts\<close>.  A SQL script is a
  function of the warehouse's clock and its tables that answers or fails; a
  script that fails (a missing table, an \<open>ASSERT\<close>) leaves the tables as they were.
  Between two scripts of a run other runs act, and a script may not be sent or
  its answer may be lost.  A calendar date is its day number since the epoch.
\<close>

section \<open>Table schemas\<close>

record table_field =
  tf_name :: string
  tf_type :: string
  tf_mode :: "string option"

definition fields :: "string \<Rightarrow> string \<Rightarrow> string list \<Rightarrow> table_field list" where
  "fields type mode names = map (\<lambda>n. \<lparr>tf_name = n, tf_type = type, tf_mode = Some mode\<rparr>) names"

definition milestoneSchema :: "table_field list" where
  "milestoneSchema =
     fields ''STRING'' ''REQUIRED'' [''user_key''] @ fields ''TIMESTAMP'' ''REQUIRED'' [''account_created_at''] @
     fields ''TIMESTAMP'' ''NULLABLE''
       [''notification_registered_at'', ''bridge_registered_at'', ''legacy_first_metadata_request_at''] @
     fields ''TIMESTAMP'' ''REQUIRED'' [''exported_at'']"

definition cohortSchema :: "table_field list" where
  "cohortSchema =
     fields ''DATE'' ''REQUIRED'' [''cohort_week''] @
     fields ''INTEGER'' ''REQUIRED''
       [''total_accounts'', ''enabled_accounts'', ''notification_registered_within_1_day'',
        ''notification_registered_within_7_days'', ''notification_registered_within_30_days'',
        ''bridge_registered_within_1_day'', ''bridge_registered_within_7_days'', ''bridge_registered_within_30_days'',
        ''legacy_first_metadata_request_within_1_day'', ''legacy_first_metadata_request_within_7_days'',
        ''legacy_first_metadata_request_within_30_days''] @
     fields ''TIMESTAMP'' ''REQUIRED'' [''exported_at'']"

definition runMetadataSchema :: "table_field list" where
  "runMetadataSchema =
     fields ''STRING'' ''REQUIRED'' [''run_id''] @
     fields ''TIMESTAMP'' ''REQUIRED'' [''run_cutoff'', ''preference_scan_cutoff'', ''control_updated_at''] @
     fields ''INTEGER'' ''REQUIRED''
       [''users_scanned'', ''source_suppressed_users'', ''internal_users'', ''external_accounts'', ''enabled_accounts'',
        ''opted_out_accounts'', ''preference_after_cutoff_accounts'', ''late_preference_rows_removed'',
        ''milestone_rows_published'', ''cohort_rows_published''] @
     fields ''TIMESTAMP'' ''REQUIRED'' [''published_at''] @
     fields ''INTEGER'' ''NULLABLE'' [''pre_creation_milestones_dropped'']"

definition exportStateSchema :: "table_field list" where
  "exportStateSchema =
     fields ''STRING'' ''REQUIRED'' [''state_key''] @ fields ''STRING'' ''NULLABLE'' [''active_run_id''] @
     fields ''TIMESTAMP'' ''NULLABLE'' [''lease_expires_at''] @ fields ''STRING'' ''NULLABLE'' [''last_published_run_id''] @
     fields ''TIMESTAMP'' ''NULLABLE'' [''last_published_cutoff''] @ fields ''TIMESTAMP'' ''REQUIRED'' [''updated_at'']"

definition desktopEventParamColumns :: "string list" where
  "desktopEventParamColumns =
     [''activation_schema_version'', ''inventory_state'', ''activity_state'', ''submission_kind'', ''input_mode'',
      ''workspace_kind'', ''failure_reason'', ''decision'', ''change_state'', ''surface'', ''channel'', ''method'',
      ''os'', ''screen'', ''feedback_answer'', ''feedback_input'', ''feedback_source'']"

definition desktopEventColumnByRenamedParam :: "string \<rightharpoonup> string" where
  "desktopEventColumnByRenamedParam =
     map_of [(''answer'', ''feedback_answer''), (''input'', ''feedback_input''), (''source'', ''feedback_source'')]"

definition desktopEventSchema :: "table_field list" where
  "desktopEventSchema =
     fields ''STRING'' ''REQUIRED'' [''event_name''] @ fields ''DATE'' ''REQUIRED'' [''source_export_date''] @
     fields ''TIMESTAMP'' ''REQUIRED'' [''received_at''] @
     fields ''INTEGER'' ''REQUIRED'' [''occurred_at_micros'', ''schema_version''] @
     fields ''STRING'' ''REQUIRED'' [''user_key'', ''platform'', ''app_version''] @
     fields ''STRING'' ''NULLABLE'' desktopEventParamColumns"

definition productAnalyticsPermanentTableSchemas :: "(string \<times> table_field list) list" where
  "productAnalyticsPermanentTableSchemas =
     [(''auth_user_milestones'', milestoneSchema), (''auth_weekly_setup_cohorts'', cohortSchema),
      (''desktop_product_events'', desktopEventSchema), (''product_analytics_export_runs'', runMetadataSchema),
      (''product_analytics_export_state'', exportStateSchema)]"

definition toUpper :: "char \<Rightarrow> char" where
  "toUpper c = (let n = (of_char c :: nat) in if 97 \<le> n \<and> n \<le> 122 then char_of (n - 32) else c)"

definition normalizedSchema :: "table_field list \<Rightarrow> (string \<times> string \<times> string) list" where
  "normalizedSchema fs = map (\<lambda>f. (map toLower (tf_name f), map toUpper (tf_type f),
     map toUpper (case tf_mode f of None \<Rightarrow> ''NULLABLE'' | Some m \<Rightarrow> m))) fs"

section \<open>Rows and tables\<close>

record milestone_row =
  mr_userKey :: string
  mr_accountCreatedAt :: millis
  mr_notificationRegisteredAt :: "millis option"
  mr_bridgeRegisteredAt :: "millis option"
  mr_legacyFirstMetadataRequestAt :: "millis option"
  mr_exportedAt :: millis

record within =
  \<comment> \<open>the accounts of a cohort that reached a milestone within 1, 7 and 30 days\<close>
  wi_1 :: int
  wi_7 :: int
  wi_30 :: int

record cohort =
  co_cohortWeek :: int
  co_totalAccounts :: int
  co_enabledAccounts :: int
  co_notification :: within
  co_bridge :: within
  co_legacy :: within

record desktop_event =
  de_eventName :: string
  de_occurredAtMicros :: int
  de_receivedAt :: millis
  de_schemaVersion :: int
  de_userKey :: string
  de_platform :: string
  de_appVersion :: string
  de_params :: "(string \<times> string) list"

record desktop_row =
  dr_event :: desktop_event
  dr_sourceExportDate :: int
  dr_columns :: "string option list"

record run_metadata =
  md_runId :: string
  md_runCutoff :: "millis option"
  md_preferenceScanCutoff :: "millis option"
  md_controlUpdatedAt :: "millis option"
  md_usersScanned :: int
  md_sourceSuppressedUsers :: int
  md_internalUsers :: int
  md_externalAccounts :: int
  md_enabledAccounts :: int
  md_optedOutAccounts :: int
  md_preferenceAfterCutoffAccounts :: int
  md_latePreferenceRowsRemoved :: int
  md_milestoneRowsPublished :: int
  md_cohortRowsPublished :: int
  md_preCreationMilestonesDropped :: int

record export_state =
  xs_activeRunId :: "string option"
  xs_leaseExpiresAt :: "millis option"
  xs_lastPublishedRunId :: "string option"
  xs_lastPublishedCutoff :: "millis option"

record warehouse =
  wh_schema :: "string \<Rightarrow> table_field list"
  wh_state :: "export_state option"
  \<comment> \<open>the row with the key \<open>singleton\<close>\<close>
  wh_milestoneStaging :: "string \<rightharpoonup> milestone_row list"
  wh_cohortStaging :: "string \<rightharpoonup> (cohort \<times> millis) list"
  wh_desktopStaging :: "string \<rightharpoonup> desktop_row list"
  wh_milestones :: "milestone_row list"
  wh_cohorts :: "(cohort \<times> millis) list"
  wh_desktop :: "desktop_row list"
  wh_runs :: "run_metadata list"

type_synonym 'a script = "millis \<Rightarrow> warehouse \<Rightarrow> (api_error + 'a) \<times> warehouse"

definition MILLISECONDS_PER_DAY :: int where
  "MILLISECONDS_PER_DAY = 24 * 60 * 60 * 1000"

definition utcDateString :: "millis \<Rightarrow> int" where
  "utcDateString t = t div MILLISECONDS_PER_DAY"

definition lower_hex :: "char \<Rightarrow> bool" where
  "lower_hex c = (let n = (of_char c :: nat) in (48 \<le> n \<and> n \<le> 57) \<or> (97 \<le> n \<and> n \<le> 102))"

definition userKeyPattern :: "string \<Rightarrow> bool" where
  "userKeyPattern s = (length s = 64 \<and> list_all lower_hex s)"

section \<open>Runs and their lease\<close>

record export_run =
  er_runId :: string
  er_milestoneStagingTableId :: string
  er_cohortStagingTableId :: string
  er_desktopEventStagingTableId :: string

definition run_of :: "string \<Rightarrow> export_run" where
  "run_of r = \<lparr>er_runId = r, er_milestoneStagingTableId = ''auth_user_milestones_staging_'' @ r,
     er_cohortStagingTableId = ''auth_weekly_setup_cohorts_staging_'' @ r,
     er_desktopEventStagingTableId = ''desktop_product_events_staging_'' @ r\<rparr>"

definition runIdPattern :: "string \<Rightarrow> bool" where
  "runIdPattern s = (8 \<le> length s \<and> length s \<le> 80 \<and>
     list_all (\<lambda>c. let n = (of_char c :: nat) in (97 \<le> n \<and> n \<le> 122) \<or> (48 \<le> n \<and> n \<le> 57) \<or> n = 95) s)"

definition assertRun :: "export_run \<Rightarrow> bool" where
  "assertRun r \<longleftrightarrow> runIdPattern (er_runId r) \<and> r = run_of (er_runId r)"

definition acquireLease :: "export_run \<Rightarrow> millis \<Rightarrow> millis \<Rightarrow> unit script" where
  "acquireLease r runCutoff expiresAt now w =
     (let x = (case wh_state w of
                 None \<Rightarrow> \<lparr>xs_activeRunId = None, xs_leaseExpiresAt = None, xs_lastPublishedRunId = None,
                          xs_lastPublishedCutoff = None\<rparr>
               | Some x \<Rightarrow> x) in
      if (xs_activeRunId x = None \<or> (case xs_leaseExpiresAt x of None \<Rightarrow> False | Some e \<Rightarrow> e \<le> now)) \<and>
         (case xs_lastPublishedCutoff x of None \<Rightarrow> True | Some c \<Rightarrow> c < runCutoff)
      then (Inr (), w\<lparr>wh_state := Some (x\<lparr>xs_activeRunId := Some (er_runId r), xs_leaseExpiresAt := Some expiresAt\<rparr>)\<rparr>)
      else (Inl InternalServerError, w))"

definition releaseLease :: "export_run \<Rightarrow> unit script" where
  "releaseLease r now w =
     (case wh_state w of
        None \<Rightarrow> (Inr (), w)
      | Some x \<Rightarrow>
          if xs_activeRunId x = Some (er_runId r)
          then (Inr (), w\<lparr>wh_state := Some (x\<lparr>xs_activeRunId := None, xs_leaseExpiresAt := None\<rparr>)\<rparr>)
          else (Inr (), w))"

section \<open>Staging\<close>

definition createMilestones :: "export_run \<Rightarrow> unit script" where
  "createMilestones r now w =
     (if wh_milestoneStaging w (er_milestoneStagingTableId r) \<noteq> None then (Inl InternalServerError, w)
      else (Inr (), w\<lparr>wh_milestoneStaging := (wh_milestoneStaging w)(er_milestoneStagingTableId r \<mapsto> [])\<rparr>))"

definition createCohorts :: "export_run \<Rightarrow> unit script" where
  "createCohorts r now w =
     (if wh_cohortStaging w (er_cohortStagingTableId r) \<noteq> None then (Inl InternalServerError, w)
      else (Inr (), w\<lparr>wh_cohortStaging := (wh_cohortStaging w)(er_cohortStagingTableId r \<mapsto> [])\<rparr>))"

definition createDesktop :: "export_run \<Rightarrow> unit script" where
  "createDesktop r now w =
     (if wh_desktopStaging w (er_desktopEventStagingTableId r) \<noteq> None then (Inl InternalServerError, w)
      else (Inr (), w\<lparr>wh_desktopStaging := (wh_desktopStaging w)(er_desktopEventStagingTableId r \<mapsto> [])\<rparr>))"

definition dropMilestones :: "export_run \<Rightarrow> unit script" where
  "dropMilestones r now w = (Inr (), w\<lparr>wh_milestoneStaging := (wh_milestoneStaging w)(er_milestoneStagingTableId r := None)\<rparr>)"

definition dropCohorts :: "export_run \<Rightarrow> unit script" where
  "dropCohorts r now w = (Inr (), w\<lparr>wh_cohortStaging := (wh_cohortStaging w)(er_cohortStagingTableId r := None)\<rparr>)"

definition dropDesktop :: "export_run \<Rightarrow> unit script" where
  "dropDesktop r now w = (Inr (), w\<lparr>wh_desktopStaging := (wh_desktopStaging w)(er_desktopEventStagingTableId r := None)\<rparr>)"

definition insertMilestones :: "export_run \<Rightarrow> milestone_row list \<Rightarrow> unit script" where
  "insertMilestones r rows now w =
     (case wh_milestoneStaging w (er_milestoneStagingTableId r) of
        None \<Rightarrow> (Inl InternalServerError, w)
      | Some t \<Rightarrow> (Inr (), w\<lparr>wh_milestoneStaging := (wh_milestoneStaging w)(er_milestoneStagingTableId r \<mapsto> t @ rows)\<rparr>))"

definition column_of :: "string \<Rightarrow> string" where
  "column_of param = (case desktopEventColumnByRenamedParam param of None \<Rightarrow> param | Some c \<Rightarrow> c)"

definition desktop_row_of :: "desktop_event \<Rightarrow> desktop_row" where
  \<comment> \<open>the last of several entries with one key is the one an object keeps\<close>
  "desktop_row_of e =
     \<lparr>dr_event = e\<lparr>de_params := []\<rparr>, dr_sourceExportDate = utcDateString (de_receivedAt e),
      dr_columns = map (map_of (rev (map (apfst column_of) (de_params e)))) desktopEventParamColumns\<rparr>"

definition insertDesktop :: "export_run \<Rightarrow> desktop_row list \<Rightarrow> unit script" where
  "insertDesktop r rows now w =
     (case wh_desktopStaging w (er_desktopEventStagingTableId r) of
        None \<Rightarrow> (Inl InternalServerError, w)
      | Some t \<Rightarrow> (Inr (), w\<lparr>wh_desktopStaging := (wh_desktopStaging w)(er_desktopEventStagingTableId r \<mapsto> t @ rows)\<rparr>))"

definition insertCohorts :: "export_run \<Rightarrow> (cohort \<times> millis) list \<Rightarrow> unit script" where
  "insertCohorts r rows now w =
     (case wh_cohortStaging w (er_cohortStagingTableId r) of
        None \<Rightarrow> (Inl InternalServerError, w)
      | Some t \<Rightarrow> (Inr (), w\<lparr>wh_cohortStaging := (wh_cohortStaging w)(er_cohortStagingTableId r \<mapsto> t @ rows)\<rparr>))"

definition date_trunc_monday :: "int \<Rightarrow> int" where
  \<comment> \<open>\<open>DATE_TRUNC(d, WEEK(MONDAY))\<close>: the last Monday up to the day; day 4 was one\<close>
  "date_trunc_monday d = d - (d - 4) mod 7"

definition countUserKeys :: "export_run \<Rightarrow> string list \<Rightarrow> (int \<times> int) list script" where
  \<comment> \<open>the groups come in some order; the caller only puts them in a map\<close>
  "countUserKeys r ks now w =
     (case wh_milestoneStaging w (er_milestoneStagingTableId r) of
        None \<Rightarrow> (Inl InternalServerError, w)
      | Some t \<Rightarrow>
          let weeks = map (\<lambda>m. date_trunc_monday (utcDateString (mr_accountCreatedAt m))) (filter (\<lambda>m. mr_userKey m \<in> set ks) t)
          in (Inr (map (\<lambda>d. (d, int (count_list weeks d))) (remdups weeks)), w))"

definition deleteUserKeys :: "export_run \<Rightarrow> string list \<Rightarrow> unit script" where
  "deleteUserKeys r ks now w =
     (case wh_milestoneStaging w (er_milestoneStagingTableId r) of
        None \<Rightarrow> (Inl InternalServerError, w)
      | Some t \<Rightarrow> (Inr (), w\<lparr>wh_milestoneStaging :=
          (wh_milestoneStaging w)(er_milestoneStagingTableId r \<mapsto> filter (\<lambda>m. mr_userKey m \<notin> set ks) t)\<rparr>))"

section \<open>Validation and promotion\<close>

definition badly_timed :: "milestone_row \<Rightarrow> bool" where
  "badly_timed m \<longleftrightarrow> mr_exportedAt m < mr_accountCreatedAt m \<or>
     list_ex (\<lambda>x. case x of None \<Rightarrow> False | Some t \<Rightarrow> t < mr_accountCreatedAt m \<or> mr_exportedAt m < t)
       [mr_notificationRegisteredAt m, mr_bridgeRegisteredAt m, mr_legacyFirstMetadataRequestAt m]"

definition bad_within :: "int \<Rightarrow> within \<Rightarrow> bool" where
  "bad_within n x \<longleftrightarrow> wi_1 x < 0 \<or> wi_7 x < wi_1 x \<or> wi_30 x < wi_7 x \<or> n < wi_30 x"

definition bad_cohort :: "cohort \<Rightarrow> bool" where
  "bad_cohort c \<longleftrightarrow> co_totalAccounts c < 0 \<or> co_enabledAccounts c < 0 \<or> co_totalAccounts c < co_enabledAccounts c \<or>
     bad_within (co_totalAccounts c) (co_notification c) \<or> bad_within (co_totalAccounts c) (co_bridge c) \<or>
     bad_within (co_totalAccounts c) (co_legacy c)"

definition count_if :: "('a \<Rightarrow> bool) \<Rightarrow> 'a list \<Rightarrow> int" where
  "count_if p xs = int (length (filter p xs))"

definition validationQuery :: "export_run \<Rightarrow> int list script" where
  "validationQuery r now w =
     (case (wh_milestoneStaging w (er_milestoneStagingTableId r), wh_cohortStaging w (er_cohortStagingTableId r),
            wh_desktopStaging w (er_desktopEventStagingTableId r)) of
        (Some ms, Some cs, Some ds) \<Rightarrow>
          (Inr [int (length ms),
                int (length ms) - int (length (remdups (map mr_userKey ms))),
                count_if (\<lambda>m. \<not> userKeyPattern (mr_userKey m)) ms,
                count_if badly_timed ms,
                sum_list (map (co_totalAccounts \<circ> fst) cs),
                sum_list (map (co_enabledAccounts \<circ> fst) cs),
                count_if (bad_cohort \<circ> fst) cs,
                int (length ds)], w)
      | _ \<Rightarrow> (Inl InternalServerError, w))"

definition promote :: "export_run \<Rightarrow> millis \<Rightarrow> int \<times> int \<Rightarrow> run_metadata \<Rightarrow> unit script" where
  \<comment> \<open>the whole transaction: its assertions, the exchange of the tables, the release of the lease\<close>
  "promote r runCutoff window md now w =
     (case (wh_state w, wh_milestoneStaging w (er_milestoneStagingTableId r), wh_cohortStaging w (er_cohortStagingTableId r),
            wh_desktopStaging w (er_desktopEventStagingTableId r)) of
        (Some x, Some ms, Some cs, Some ds) \<Rightarrow>
          if xs_activeRunId x = Some (md_runId md) \<and>
             (case xs_leaseExpiresAt x of None \<Rightarrow> False | Some e \<Rightarrow> now < e) \<and>
             (case xs_lastPublishedCutoff x of None \<Rightarrow> True | Some c \<Rightarrow> c < runCutoff)
          then (Inr (), w\<lparr>wh_milestones := ms, wh_cohorts := cs,
                  wh_desktop := filter (\<lambda>d. \<not> (fst window \<le> dr_sourceExportDate d \<and> dr_sourceExportDate d < snd window)) (wh_desktop w) @ ds,
                  wh_runs := wh_runs w @ [md],
                  wh_state := Some \<lparr>xs_activeRunId = None, xs_leaseExpiresAt = None,
                                   xs_lastPublishedRunId = Some (md_runId md), xs_lastPublishedCutoff = Some runCutoff\<rparr>\<rparr>)
          else (Inl InternalServerError, w)
      | _ \<Rightarrow> (Inl InternalServerError, w))"

end
