(* ===== verification/AnalyticsExport.thy ===== *)
theory AnalyticsExport
  imports AnalyticsWarehouse UserRepo Activation
begin

text \<open>
  One run of the export, \<open>src/services/product-analytics-export-service.ts\<close>, with
  the methods of the export repository it calls, the internal-exclusion control
  (\<open>product-analytics-control-repo.ts\<close>) and the batches of stored events.  The
  awaits of a run are numbered; \<open>world\<close> says what the other processes did to the
  warehouse before the \<open>k\<close>-th one, whether its script was sent and its answer
  came back, and what each database read sees.
\<close>

section \<open>The world of a run\<close>

datatype fate = Answered | Reply_lost | Not_sent

record control_row =
  ct_userKey :: "string option"
  ct_controlUpdatedAt :: "millis option"

record world =
  wd_others :: "nat \<Rightarrow> warehouse \<Rightarrow> warehouse"
  wd_fate :: "nat \<Rightarrow> fate"
  wd_now :: "nat \<Rightarrow> millis"
  wd_users :: "nat \<Rightarrow> api_error + user list"
  wd_states :: "nat \<Rightarrow> api_error + activation_state list"
  wd_events :: "nat \<Rightarrow> api_error + desktop_event option list"
  \<comment> \<open>\<open>None\<close> is a document that does not parse\<close>
  wd_control :: "nat \<Rightarrow> api_error + control_row list"
  wd_clock :: "nat \<Rightarrow> millis option"

datatype stop = Thrown api_error | OutOfFuel

type_synonym session = "nat \<times> warehouse"
type_synonym 'a act = "session \<Rightarrow> (stop + 'a) \<times> session"

definition ask :: "world \<Rightarrow> 'a script \<Rightarrow> 'a act" where
  "ask wd q s =
     (let k = fst s; w = wd_others wd k (snd s); a = q (wd_now wd k) w in
      case wd_fate wd k of
        Not_sent \<Rightarrow> (Inl (Thrown InternalServerError), (Suc k, w))
      | Reply_lost \<Rightarrow> (Inl (Thrown InternalServerError), (Suc k, snd a))
      | Answered \<Rightarrow> (map_sum Thrown id (fst a), (Suc k, snd a)))"

definition look :: "(nat \<Rightarrow> 'b) \<Rightarrow> ('b \<Rightarrow> api_error + 'a) \<Rightarrow> 'a act" where
  \<comment> \<open>an await that does not go to the warehouse\<close>
  "look src f s = (map_sum Thrown id (f (src (fst s))), (Suc (fst s), snd s))"

definition give :: "'a \<Rightarrow> 'a act" where
  "give a s = (Inr a, s)"

definition fail :: "api_error \<Rightarrow> 'a act" where
  "fail e s = (Inl (Thrown e), s)"

definition andThen :: "'a act \<Rightarrow> ('a \<Rightarrow> 'b act) \<Rightarrow> 'b act" where
  "andThen m f s = (case m s of (Inl e, s') \<Rightarrow> (Inl e, s') | (Inr a, s') \<Rightarrow> f a s')"

definition settleBoth :: "'a act \<Rightarrow> 'b act \<Rightarrow> unit act" where
  \<comment> \<open>\<open>Promise.allSettled\<close>: both run, and it fails when one of them does\<close>
  "settleBoth m n s =
     (case m s of (a, s') \<Rightarrow> case n s' of (b, s'') \<Rightarrow>
        (case (a, b) of (Inl e, _) \<Rightarrow> Inl e | (Inr _, Inl e) \<Rightarrow> Inl e | _ \<Rightarrow> Inr (), s''))"

definition safely :: "(nat \<Rightarrow> api_error + 'b) \<Rightarrow> ('b \<Rightarrow> api_error + 'a) \<Rightarrow> 'a act" where
  \<comment> \<open>a database read and the mapping of what it sees\<close>
  "safely src f = look src (\<lambda>x. case x of Inl e \<Rightarrow> Inl e | Inr c \<Rightarrow> f c)"

section \<open>The export repository\<close>

definition guardRun :: "export_run \<Rightarrow> 'a act \<Rightarrow> 'a act" where
  "guardRun r m = (if assertRun r then m else fail InternalServerError)"

fun assertSchemas :: "world \<Rightarrow> (string \<times> table_field list) list \<Rightarrow> unit act" where
  \<comment> \<open>the reads of \<open>assertPermanentSchemas\<close> run at once; their order is free\<close>
  "assertSchemas wd [] = give ()"
| "assertSchemas wd ((t, fs) # ts) =
     andThen (ask wd (\<lambda>now w. (Inr (wh_schema w t), w))) (\<lambda>actual.
       andThen (assertSchemas wd ts) (\<lambda>_.
         if normalizedSchema actual \<noteq> normalizedSchema fs then fail InternalServerError else give ()))"

definition cleanup :: "world \<Rightarrow> export_run \<Rightarrow> unit act" where
  "cleanup wd r = guardRun r
     (settleBoth (ask wd (dropMilestones r)) (settleBoth (ask wd (dropCohorts r))
       (settleBoth (ask wd (dropDesktop r)) (ask wd (releaseLease r)))))"

definition createTables :: "world \<Rightarrow> export_run \<Rightarrow> unit act" where
  "createTables wd r =
     andThen (ask wd (createMilestones r)) (\<lambda>_. andThen (ask wd (createCohorts r)) (\<lambda>_. ask wd (createDesktop r)))"

definition beginRun :: "world \<Rightarrow> string \<Rightarrow> millis option \<Rightarrow> millis option \<Rightarrow> export_run act" where
  "beginRun wd runId runCutoff expiresAt =
     (case (runCutoff, expiresAt) of
        (Some c, Some e) \<Rightarrow>
          if \<not> runIdPattern runId \<or> e \<le> c then fail InternalServerError
          else let r = run_of runId in
            andThen (assertSchemas wd productAnalyticsPermanentTableSchemas) (\<lambda>_.
              andThen (ask wd (acquireLease r c e)) (\<lambda>_ s.
                case createTables wd r s of
                  (Inr _, s') \<Rightarrow> (Inr r, s')
                | (Inl x, s') \<Rightarrow> (Inl x, snd (cleanup wd r s'))))
      | _ \<Rightarrow> fail InternalServerError)"

definition appendMilestones :: "world \<Rightarrow> export_run \<Rightarrow> milestone_row list \<Rightarrow> unit act" where
  "appendMilestones wd r rows = guardRun r (if rows = [] then give () else ask wd (insertMilestones r rows))"

definition appendDesktopEvents :: "world \<Rightarrow> export_run \<Rightarrow> desktop_event list \<Rightarrow> unit act" where
  "appendDesktopEvents wd r events =
     guardRun r (if events = [] then give () else ask wd (insertDesktop r (map desktop_row_of events)))"

definition writeCohorts :: "world \<Rightarrow> export_run \<Rightarrow> (cohort \<times> millis) list \<Rightarrow> unit act" where
  "writeCohorts wd r rows = guardRun r (if rows = [] then give () else ask wd (insertCohorts r rows))"

definition removeUserKeys :: "world \<Rightarrow> export_run \<Rightarrow> string list \<Rightarrow> (int \<times> int) list act" where
  "removeUserKeys wd r ks = guardRun r
     (if list_ex (\<lambda>k. \<not> userKeyPattern k) ks then fail InternalServerError
      else if ks = [] then give []
      else andThen (ask wd (countUserKeys r ks)) (\<lambda>rows. andThen (ask wd (deleteUserKeys r ks)) (\<lambda>_. give rows)))"

record expected =
  ex_milestoneRows :: int
  ex_totalAccounts :: int
  ex_enabledAccounts :: int
  ex_desktopEventRows :: int

definition metadata_ok :: "export_run \<Rightarrow> expected \<Rightarrow> run_metadata \<Rightarrow> bool" where
  "metadata_ok r ex md \<longleftrightarrow>
     md_runId md = er_runId r \<and> md_enabledAccounts md = ex_enabledAccounts ex \<and>
     md_externalAccounts md = ex_totalAccounts ex \<and> md_milestoneRowsPublished md = ex_milestoneRows ex \<and>
     list_all (\<lambda>v. isSafeInteger (Integer v) \<and> 0 \<le> v)
       [ex_desktopEventRows ex, md_usersScanned md, md_sourceSuppressedUsers md, md_internalUsers md,
        md_externalAccounts md, md_enabledAccounts md, md_optedOutAccounts md, md_preferenceAfterCutoffAccounts md,
        md_latePreferenceRowsRemoved md, md_milestoneRowsPublished md, md_cohortRowsPublished md,
        md_preCreationMilestonesDropped md] \<and>
     list_all (\<lambda>t. t \<noteq> None) [md_runCutoff md, md_preferenceScanCutoff md, md_controlUpdatedAt md]"

definition expected_values :: "expected \<Rightarrow> int list" where
  "expected_values ex =
     [ex_milestoneRows ex, 0, 0, 0, ex_totalAccounts ex, ex_enabledAccounts ex, 0, ex_desktopEventRows ex]"

definition validateAndPromote ::
  "world \<Rightarrow> export_run \<Rightarrow> expected \<Rightarrow> int \<times> int \<Rightarrow> run_metadata \<Rightarrow> unit act" where
  \<comment> \<open>the window as the days it starts and ends with\<close>
  "validateAndPromote wd r ex window md = guardRun r
     (if \<not> metadata_ok r ex md then fail InternalServerError
      else andThen (ask wd (validationQuery r)) (\<lambda>values.
        if values \<noteq> expected_values ex then fail InternalServerError
        else ask wd (promote r (the (md_runCutoff md)) window md)))"

section \<open>The internal-exclusion control\<close>

definition loadActiveInternalUserKeys ::
  "world \<Rightarrow> nat \<Rightarrow> millis option \<Rightarrow> (string set \<times> millis) act" where
  \<comment> \<open>the view is read up to its limit; only rows of the permitted number are valid\<close>
  "loadActiveInternalUserKeys wd maxUserKeys loadedAt =
     (case loadedAt of
        None \<Rightarrow> fail InternalServerError
      | Some at \<Rightarrow> safely (wd_control wd) (\<lambda>view.
          let rows = take (maxUserKeys + 2) view; ks = List.map_filter ct_userKey rows in
          case rows of
            [] \<Rightarrow> Inl InternalServerError
          | x # _ \<Rightarrow>
              (case ct_controlUpdatedAt x of
                 None \<Rightarrow> Inl InternalServerError
               | Some t \<Rightarrow>
                   if length (filter (\<lambda>y. ct_userKey y = None) rows) \<noteq> 1 \<or> length rows > maxUserKeys + 1 \<or>
                      length ks > maxUserKeys \<or> list_ex (\<lambda>k. \<not> userKeyPattern k) ks \<or> \<not> distinct ks \<or>
                      list_ex (\<lambda>y. ct_controlUpdatedAt y \<noteq> Some t) rows \<or> t > at
                   then Inl InternalServerError else Inr (set ks, t))))"

section \<open>Aggregation\<close>

definition cohortWeekFor :: "millis \<Rightarrow> int" where
  \<comment> \<open>the day the week of the account starts; \<open>getUTCDay\<close> counts from Sunday and the epoch was a Thursday\<close>
  "cohortWeekFor accountCreatedAt =
     (let day = utcDateString accountCreatedAt; getUTCDay = (day + 4) mod 7; daysSinceMonday = (getUTCDay + 6) mod 7
      in day - daysSinceMonday)"

definition sanitize :: "millis \<Rightarrow> millis option \<Rightarrow> int \<times> millis option" where
  \<comment> \<open>how many were dropped, and what is left\<close>
  "sanitize accountCreatedAt milestoneAt =
     (case milestoneAt of
        Some t \<Rightarrow> if t < accountCreatedAt then (1, None) else (0, Some t)
      | None \<Rightarrow> (0, None))"

definition sanitizedMilestones :: "millis \<Rightarrow> analytics_milestones \<Rightarrow> int \<times> analytics_milestones" where
  "sanitizedMilestones at ms =
     (let n = sanitize at (am_notificationRegisteredAt ms); b = sanitize at (am_bridgeRegisteredAt ms);
          l = sanitize at (am_legacyFirstMetadataRequestAt ms)
      in (fst n + fst b + fst l,
          \<lparr>am_notificationRegisteredAt = snd n, am_bridgeRegisteredAt = snd b, am_legacyFirstMetadataRequestAt = snd l\<rparr>))"

definition occurredWithin :: "millis option \<Rightarrow> millis \<Rightarrow> int \<Rightarrow> bool" where
  "occurredWithin milestoneAt accountCreatedAt days =
     (case milestoneAt of
        None \<Rightarrow> False
      | Some t \<Rightarrow> 0 \<le> t - accountCreatedAt \<and> t - accountCreatedAt \<le> days * MILLISECONDS_PER_DAY)"

definition emptyCohort :: "int \<Rightarrow> cohort" where
  "emptyCohort week =
     \<lparr>co_cohortWeek = week, co_totalAccounts = 0, co_enabledAccounts = 0,
      co_notification = \<lparr>wi_1 = 0, wi_7 = 0, wi_30 = 0\<rparr>, co_bridge = \<lparr>wi_1 = 0, wi_7 = 0, wi_30 = 0\<rparr>,
      co_legacy = \<lparr>wi_1 = 0, wi_7 = 0, wi_30 = 0\<rparr>\<rparr>"

definition add_within :: "millis option \<Rightarrow> millis \<Rightarrow> within \<Rightarrow> within" where
  "add_within m at x =
     \<lparr>wi_1 = wi_1 x + of_bool (occurredWithin m at 1), wi_7 = wi_7 x + of_bool (occurredWithin m at 7),
      wi_30 = wi_30 x + of_bool (occurredWithin m at 30)\<rparr>"

definition incrementCohort :: "millis \<Rightarrow> analytics_milestones \<Rightarrow> bool \<Rightarrow> cohort \<Rightarrow> cohort" where
  "incrementCohort at ms enabled c =
     c\<lparr>co_totalAccounts := co_totalAccounts c + 1, co_enabledAccounts := co_enabledAccounts c + of_bool enabled,
       co_notification := add_within (am_notificationRegisteredAt ms) at (co_notification c),
       co_bridge := add_within (am_bridgeRegisteredAt ms) at (co_bridge c),
       co_legacy := add_within (am_legacyFirstMetadataRequestAt ms) at (co_legacy c)\<rparr>"

fun update_cohort :: "int \<Rightarrow> (cohort \<Rightarrow> cohort) \<Rightarrow> cohort list \<Rightarrow> cohort list" where
  \<comment> \<open>the map of the cohorts in insertion order; a missing one starts empty\<close>
  "update_cohort week f [] = [f (emptyCohort week)]"
| "update_cohort week f (c # cs) = (if co_cohortWeek c = week then f c # cs else c # update_cohort week f cs)"

section \<open>Phase 1: the scan of the users\<close>

record books =
  bk_usersScanned :: int
  bk_milestoneRowsStaged :: int
  bk_sourceSuppressedUsers :: int
  bk_internalUsers :: int
  bk_preCreationMilestonesDropped :: int
  bk_externalAccounts :: int
  bk_enabledAccounts :: int
  bk_optedOutAccounts :: int
  bk_preferenceAfterCutoffAccounts :: int
  bk_latePreferenceRowsRemoved :: int
  bk_cohorts :: "cohort list"

definition no_books :: books where
  "no_books = \<lparr>bk_usersScanned = 0, bk_milestoneRowsStaged = 0, bk_sourceSuppressedUsers = 0, bk_internalUsers = 0,
     bk_preCreationMilestonesDropped = 0, bk_externalAccounts = 0, bk_enabledAccounts = 0, bk_optedOutAccounts = 0,
     bk_preferenceAfterCutoffAccounts = 0, bk_latePreferenceRowsRemoved = 0, bk_cohorts = []\<rparr>"

definition no_milestones :: analytics_milestones where
  "no_milestones = \<lparr>am_notificationRegisteredAt = None, am_bridgeRegisteredAt = None, am_legacyFirstMetadataRequestAt = None\<rparr>"

definition scanUser ::
  "(string \<Rightarrow> api_error + string) \<Rightarrow> string set \<Rightarrow> millis \<Rightarrow> (string \<rightharpoonup> analytics_milestones) \<Rightarrow> export_user
   \<Rightarrow> books \<Rightarrow> api_error + books \<times> milestone_row list" where
  "scanUser key internal runCutoff milestonesByUserId user bk0 =
     (let bk = bk0\<lparr>bk_usersScanned := bk_usersScanned bk0 + 1\<rparr> in
      if eu_exportSuppressedAt user \<noteq> None
      then Inr (bk\<lparr>bk_sourceSuppressedUsers := bk_sourceSuppressedUsers bk + 1\<rparr>, [])
      else case key (eu_userId user) of
        Inl e \<Rightarrow> Inl e
      | Inr userKey \<Rightarrow>
          if userKey \<in> internal then Inr (bk\<lparr>bk_internalUsers := bk_internalUsers bk + 1\<rparr>, [])
          else
            let at = eu_accountCreatedAt user;
                san = sanitizedMilestones at (case milestonesByUserId (eu_userId user) of None \<Rightarrow> no_milestones | Some m \<Rightarrow> m);
                known = (eu_preferenceUpdatedAt user \<le> runCutoff);
                enabled = (known \<and> eu_preference user = Enabled)
            in Inr (bk\<lparr>bk_externalAccounts := bk_externalAccounts bk + 1,
                       bk_preCreationMilestonesDropped := bk_preCreationMilestonesDropped bk + fst san,
                       bk_preferenceAfterCutoffAccounts := bk_preferenceAfterCutoffAccounts bk + of_bool (\<not> known),
                       bk_optedOutAccounts := bk_optedOutAccounts bk + of_bool (known \<and> \<not> enabled),
                       bk_cohorts := update_cohort (cohortWeekFor at) (incrementCohort at (snd san) enabled) (bk_cohorts bk),
                       bk_enabledAccounts := bk_enabledAccounts bk + of_bool enabled\<rparr>,
                    if enabled
                    then [\<lparr>mr_userKey = userKey, mr_accountCreatedAt = at,
                           mr_notificationRegisteredAt = am_notificationRegisteredAt (snd san),
                           mr_bridgeRegisteredAt = am_bridgeRegisteredAt (snd san),
                           mr_legacyFirstMetadataRequestAt = am_legacyFirstMetadataRequestAt (snd san),
                           mr_exportedAt = runCutoff\<rparr>]
                    else []))"

fun scanUsers ::
  "(string \<Rightarrow> api_error + string) \<Rightarrow> string set \<Rightarrow> millis \<Rightarrow> (string \<rightharpoonup> analytics_milestones) \<Rightarrow> export_user list
   \<Rightarrow> books \<Rightarrow> api_error + books \<times> milestone_row list" where
  "scanUsers key internal runCutoff ms [] bk = Inr (bk, [])"
| "scanUsers key internal runCutoff ms (user # users) bk =
     (case scanUser key internal runCutoff ms user bk of
        Inl e \<Rightarrow> Inl e
      | Inr (bk', rows) \<Rightarrow> map_sum id (apsnd ((@) rows)) (scanUsers key internal runCutoff ms users bk'))"

definition lift :: "api_error + 'a \<Rightarrow> 'a act" where
  "lift x s = (map_sum Thrown id x, s)"

record export_config =
  cf_oid :: "string \<Rightarrow> string option"
  cf_key :: "string \<Rightarrow> api_error + string"
  \<comment> \<open>\<open>productAnalyticsUserKeyFor\<close> at the service's key\<close>
  cf_batchLimit :: int
  cf_maxUserKeys :: nat

fun scanPhase ::
  "nat \<Rightarrow> world \<Rightarrow> export_config \<Rightarrow> export_run \<Rightarrow> string set \<Rightarrow> millis \<Rightarrow> string option \<Rightarrow> books \<Rightarrow> books act" where
  "scanPhase 0 wd cf r internal runCutoff after bk = (\<lambda>s. (Inl OutOfFuel, s))"
| "scanPhase (Suc fuel) wd cf r internal runCutoff after bk =
     andThen (safely (wd_users wd) (findProductAnalyticsExportBatch (cf_oid cf) after (cf_batchLimit cf) (Some runCutoff))) (\<lambda>users.
       if users = [] then give bk
       else andThen (safely (wd_states wd) (findProductAnalyticsMilestonesByUserIds (cf_oid cf) (map eu_userId users) (Some runCutoff))) (\<lambda>ms.
         andThen (lift (scanUsers (cf_key cf) internal runCutoff ms users bk)) (\<lambda>(bk', rows).
           andThen (appendMilestones wd r rows) (\<lambda>_.
             scanPhase fuel wd cf r internal runCutoff (Some (eu_userId (last users)))
               (bk'\<lparr>bk_milestoneRowsStaged := bk_milestoneRowsStaged bk' + int (length rows)\<rparr>)))))"

section \<open>Phase 2: the closed days of desktop events\<close>

definition DESKTOP_EVENT_WINDOW_DAYS :: int where
  "DESKTOP_EVENT_WINDOW_DAYS = 7"

definition desktopEventWindow :: "millis \<Rightarrow> millis \<times> millis" where
  "desktopEventWindow runCutoff =
     (let e = utcDateString runCutoff * MILLISECONDS_PER_DAY in (e - DESKTOP_EVENT_WINDOW_DAYS * MILLISECONDS_PER_DAY, e))"

fun findExportBatches :: "nat \<Rightarrow> desktop_event option list \<Rightarrow> desktop_event list \<Rightarrow> (api_error + desktop_event list) list" where
  \<comment> \<open>what the generator yields, a throw last; the third argument is the batch being filled\<close>
  "findExportBatches n [] batch = (if batch = [] then [] else [Inr batch])"
| "findExportBatches n (None # ds) batch = [Inl InternalServerError]"
| "findExportBatches n (Some e # ds) batch =
     (if Suc (length batch) = n then Inr (batch @ [e]) # findExportBatches n ds []
      else findExportBatches n ds (batch @ [e]))"

fun desktopBatches :: "world \<Rightarrow> export_run \<Rightarrow> (api_error + desktop_event list) list \<Rightarrow> int \<Rightarrow> int act" where
  "desktopBatches wd r [] n = give n"
| "desktopBatches wd r (b # bs) n =
     andThen (lift b) (\<lambda>events. andThen (appendDesktopEvents wd r events) (\<lambda>_. desktopBatches wd r bs (n + int (length events))))"

definition desktopPhase :: "world \<Rightarrow> export_config \<Rightarrow> export_run \<Rightarrow> millis \<Rightarrow> int act" where
  "desktopPhase wd cf r runCutoff =
     (case desktopEventWindow runCutoff of (b, e) \<Rightarrow>
        andThen (safely (wd_events wd) (\<lambda>c. Inr (filter (\<lambda>d. case d of None \<Rightarrow> True | Some x \<Rightarrow> b \<le> de_receivedAt x \<and> de_receivedAt x < e) c)))
          (\<lambda>docs. desktopBatches wd r (findExportBatches (nat (cf_batchLimit cf)) docs []) 0))"

section \<open>Phase 3: late preference changes\<close>

fun reconcile :: "(int \<times> int) list \<Rightarrow> books \<Rightarrow> api_error + books" where
  "reconcile [] bk = Inr bk"
| "reconcile ((week, n) # rs) bk =
     (case List.find (\<lambda>c. co_cohortWeek c = week) (bk_cohorts bk) of
        None \<Rightarrow> Inl InternalServerError
      | Some c \<Rightarrow>
          if co_enabledAccounts c < n then Inl InternalServerError
          else reconcile rs (bk\<lparr>
            bk_cohorts := update_cohort week (\<lambda>x. x\<lparr>co_enabledAccounts := co_enabledAccounts x - n\<rparr>) (bk_cohorts bk),
            bk_enabledAccounts := bk_enabledAccounts bk - n,
            bk_milestoneRowsStaged := bk_milestoneRowsStaged bk - n,
            bk_latePreferenceRowsRemoved := bk_latePreferenceRowsRemoved bk + n\<rparr>))"

fun latePhase :: "nat \<Rightarrow> world \<Rightarrow> export_config \<Rightarrow> export_run \<Rightarrow> millis \<Rightarrow> string option \<Rightarrow> books \<Rightarrow> books act" where
  "latePhase 0 wd cf r runCutoff after bk = (\<lambda>s. (Inl OutOfFuel, s))"
| "latePhase (Suc fuel) wd cf r runCutoff after bk =
     andThen (safely (wd_users wd) (findProductAnalyticsPreferenceChangeBatch (cf_oid cf) after (cf_batchLimit cf) (Some runCutoff))) (\<lambda>changes.
       if changes = [] then give bk
       else if list_ex (\<lambda>c. pc_exportSuppressedAt c \<noteq> None) changes then fail InternalServerError
       else andThen (lift (sequence (map (cf_key cf \<circ> pc_userId) changes))) (\<lambda>ks.
         andThen (removeUserKeys wd r ks) (\<lambda>removed.
           andThen (lift (reconcile removed bk)) (\<lambda>bk'.
             latePhase fuel wd cf r runCutoff (Some (pc_userId (last changes))) bk'))))"

section \<open>A run\<close>

definition metadata_of :: "export_run \<Rightarrow> millis \<Rightarrow> millis option \<Rightarrow> millis \<Rightarrow> books \<Rightarrow> run_metadata" where
  "metadata_of r runCutoff scanCutoff controlUpdatedAt bk =
     \<lparr>md_runId = er_runId r, md_runCutoff = Some runCutoff, md_preferenceScanCutoff = scanCutoff,
      md_controlUpdatedAt = Some controlUpdatedAt, md_usersScanned = bk_usersScanned bk,
      md_sourceSuppressedUsers = bk_sourceSuppressedUsers bk, md_internalUsers = bk_internalUsers bk,
      md_externalAccounts = bk_externalAccounts bk, md_enabledAccounts = bk_enabledAccounts bk,
      md_optedOutAccounts = bk_optedOutAccounts bk, md_preferenceAfterCutoffAccounts = bk_preferenceAfterCutoffAccounts bk,
      md_latePreferenceRowsRemoved = bk_latePreferenceRowsRemoved bk,
      md_milestoneRowsPublished = bk_milestoneRowsStaged bk, md_cohortRowsPublished = int (length (bk_cohorts bk)),
      md_preCreationMilestonesDropped = bk_preCreationMilestonesDropped bk\<rparr>"

definition expected_of :: "books \<Rightarrow> int \<Rightarrow> expected" where
  "expected_of bk n = \<lparr>ex_milestoneRows = bk_milestoneRowsStaged bk, ex_totalAccounts = bk_externalAccounts bk,
     ex_enabledAccounts = bk_enabledAccounts bk, ex_desktopEventRows = n\<rparr>"

definition clock_at :: "world \<Rightarrow> (millis option \<Rightarrow> 'a act) \<Rightarrow> 'a act" where
  "clock_at wd f s = f (wd_clock wd (fst s)) s"

definition not_before :: "millis option \<Rightarrow> millis option \<Rightarrow> bool" where
  "not_before t u = (case (t, u) of (Some x, Some y) \<Rightarrow> y \<le> x | _ \<Rightarrow> False)"

definition stage ::
  "nat \<Rightarrow> world \<Rightarrow> export_config \<Rightarrow> export_run \<Rightarrow> string set \<Rightarrow> millis \<Rightarrow> (books \<times> int \<times> millis option) act" where
  \<comment> \<open>the first three phases: the books, the number of desktop rows and the time the third began\<close>
  "stage fuel wd cf r internal runCutoff =
     andThen (scanPhase fuel wd cf r internal runCutoff None no_books) (\<lambda>bk.
       andThen (desktopPhase wd cf r runCutoff) (\<lambda>n.
         clock_at wd (\<lambda>scanCutoff.
           if \<not> not_before scanCutoff (Some runCutoff) then fail InternalServerError
           else andThen (latePhase fuel wd cf r runCutoff None bk) (\<lambda>bk'. give (bk', n, scanCutoff)))))"

definition publish ::
  "world \<Rightarrow> export_config \<Rightarrow> export_run \<Rightarrow> string set \<times> millis \<Rightarrow> millis \<Rightarrow> books \<times> int \<times> millis option \<Rightarrow> run_metadata act" where
  \<comment> \<open>the fourth phase\<close>
  "publish wd cf r control runCutoff staged =
     (case staged of (bk, n, scanCutoff) \<Rightarrow>
        clock_at wd (\<lambda>loadedAt.
          if \<not> not_before loadedAt scanCutoff then fail InternalServerError
          else andThen (loadActiveInternalUserKeys wd (cf_maxUserKeys cf) loadedAt) (\<lambda>again.
            if again \<noteq> control then fail InternalServerError
            else let md = metadata_of r runCutoff scanCutoff (snd control) bk in
              andThen (writeCohorts wd r (map (\<lambda>c. (c, runCutoff)) (sort_key co_cohortWeek (bk_cohorts bk)))) (\<lambda>_.
                andThen (validateAndPromote wd r (expected_of bk n)
                    (map_prod utcDateString utcDateString (desktopEventWindow runCutoff)) md)
                  (\<lambda>_. give md)))))"

definition run_export :: "nat \<Rightarrow> world \<Rightarrow> export_config \<Rightarrow> string \<Rightarrow> millis option \<Rightarrow> run_metadata act" where
  "run_export fuel wd cf runId runCutoff =
     clock_at wd (\<lambda>startedAt.
       if \<not> not_before startedAt runCutoff then fail InternalServerError
       else andThen (loadActiveInternalUserKeys wd (cf_maxUserKeys cf) startedAt) (\<lambda>control.
         andThen (beginRun wd runId runCutoff (map_option (\<lambda>t. t + MILLISECONDS_PER_DAY) startedAt)) (\<lambda>r s.
           case andThen (stage fuel wd cf r (fst control) (the runCutoff)) (publish wd cf r control (the runCutoff)) s of
             (result, s') \<Rightarrow> (result, snd (cleanup wd r s')))))"

end
