(* ===== verification/AnalyticsExportInv.thy ===== *)
theory AnalyticsExportInv
  imports AnalyticsExport
begin

text \<open>
  What a run's awaits leave behind: a small calculus for its acts (\<open>yields\<close>), the
  effect of each script on the run's own staging tables when the other processes
  leave those alone, and the books that agree with the staged rows.
\<close>

section \<open>Acts\<close>

definition yields :: "'a act \<Rightarrow> session \<Rightarrow> ('a \<Rightarrow> session \<Rightarrow> bool) \<Rightarrow> bool" where
  \<comment> \<open>if the act returns, the result and the session satisfy \<open>P\<close>\<close>
  "yields m s P \<longleftrightarrow> (case m s of (Inl _, _) \<Rightarrow> True | (Inr a, s') \<Rightarrow> P a s')"

named_theorems acts \<open>what an act yields\<close>

lemma yields_andThen [acts]: "yields (andThen m f) s P \<longleftrightarrow> yields m s (\<lambda>a s'. yields (f a) s' P)"
  by (auto simp: yields_def andThen_def split: prod.split sum.split)

lemma yields_basic [acts]:
  "yields (give a) s P \<longleftrightarrow> P a s" "yields (fail e) s P" "yields (\<lambda>s. (Inl x, s)) s P"
  "yields (lift y) s P \<longleftrightarrow> (case y of Inl _ \<Rightarrow> True | Inr a \<Rightarrow> P a s)"
  by (auto simp: yields_def give_def fail_def lift_def split: sum.split)

lemma yields_guard [acts]: "yields (guardRun r m) s P \<longleftrightarrow> (assertRun r \<longrightarrow> yields m s P)"
  by (simp add: guardRun_def acts)

lemma yields_safely [acts]:
  "yields (safely src f) s P \<longleftrightarrow>
     (case src (fst s) of Inl _ \<Rightarrow> True | Inr c \<Rightarrow> (case f c of Inl _ \<Rightarrow> True | Inr a \<Rightarrow> P a (Suc (fst s), snd s)))"
  by (auto simp: yields_def safely_def look_def split: sum.split)

lemma yields_clock [acts]: "yields (clock_at wd f) s P \<longleftrightarrow> yields (f (wd_clock wd (fst s))) s P"
  by (simp add: yields_def clock_at_def)

lemma yields_if [acts]: "yields (if b then m else n) s P \<longleftrightarrow> (if b then yields m s P else yields n s P)"
  by simp

lemma yields_mono: "yields m s P \<Longrightarrow> (\<And>a s'. P a s' \<Longrightarrow> Q a s') \<Longrightarrow> yields m s Q"
  by (auto simp: yields_def split: prod.split sum.split)

lemma yieldsD: "yields m s P \<Longrightarrow> m s = (Inr a, s') \<Longrightarrow> P a s'"
  by (simp add: yields_def)

lemma yields_conj: "yields m s P \<Longrightarrow> yields m s Q \<Longrightarrow> yields m s (\<lambda>a s'. P a s' \<and> Q a s')"
  by (auto simp: yields_def split: prod.split sum.split)

lemma yields_ask:
  assumes "\<And>now w a w'. q now w = (Inr a, w') \<Longrightarrow> w = wd_others wd (fst s) (snd s) \<Longrightarrow> P a (Suc (fst s), w')"
  shows "yields (ask wd q) s P"
proof -
  obtain x w' where q: "q (wd_now wd (fst s)) (wd_others wd (fst s) (snd s)) = (x, w')" by (meson surj_pair)
  show ?thesis
    using q by (cases "wd_fate wd (fst s)"; cases x) (auto simp: yields_def ask_def Let_def intro: assms)
qed

section \<open>The staging tables of a run\<close>

definition mine :: "export_run \<Rightarrow> warehouse \<Rightarrow> milestone_row list option \<times> (cohort \<times> millis) list option \<times> desktop_row list option" where
  "mine r w = (wh_milestoneStaging w (er_milestoneStagingTableId r), wh_cohortStaging w (er_cohortStagingTableId r),
     wh_desktopStaging w (er_desktopEventStagingTableId r))"

definition undisturbed :: "export_run \<Rightarrow> world \<Rightarrow> bool" where
  \<comment> \<open>the staging tables carry the run's identifier; the other processes leave them alone\<close>
  "undisturbed r wd \<longleftrightarrow> (\<forall>k w. mine r (wd_others wd k w) = mine r w)"

definition staged :: "export_run \<Rightarrow> milestone_row list \<Rightarrow> (cohort \<times> millis) list \<Rightarrow> desktop_row list \<Rightarrow> session \<Rightarrow> bool" where
  "staged r ms cs ds s \<longleftrightarrow> mine r (snd s) = (Some ms, Some cs, Some ds)"

lemma staged_next: "staged r ms cs ds s \<Longrightarrow> staged r ms cs ds (Suc (fst s), snd s)"
  by (simp add: staged_def)

lemma staged_ask:
  assumes "undisturbed r wd" and "staged r ms cs ds s"
    and "\<And>now w a w'. mine r w = (Some ms, Some cs, Some ds) \<Longrightarrow> q now w = (Inr a, w') \<Longrightarrow> P a (Suc (fst s), w')"
  shows "yields (ask wd q) s P"
  by (rule yields_ask, rule assms(3)) (use assms(1,2) in \<open>simp_all add: undisturbed_def staged_def\<close>)

lemma append_milestones:
  assumes "undisturbed r wd" and "staged r ms cs ds s"
  shows "yields (appendMilestones wd r rows) s (\<lambda>_ s'. staged r (ms @ rows) cs ds s' \<and> fst s \<le> fst s')"
proof (cases "rows = []")
  case True
  then show ?thesis using assms(2) by (simp add: appendMilestones_def acts)
next
  case False
  have "yields (ask wd (insertMilestones r rows)) s (\<lambda>_ s'. staged r (ms @ rows) cs ds s' \<and> fst s \<le> fst s')"
    by (rule staged_ask [OF assms]) (auto simp: staged_def mine_def insertMilestones_def)
  then show ?thesis using False by (simp add: appendMilestones_def acts)
qed

lemma append_desktop:
  assumes "undisturbed r wd" and "staged r ms cs ds s"
  shows "yields (appendDesktopEvents wd r events) s
    (\<lambda>_ s'. staged r ms cs (ds @ map desktop_row_of events) s' \<and> fst s \<le> fst s')"
proof (cases "events = []")
  case True
  then show ?thesis using assms(2) by (simp add: appendDesktopEvents_def acts)
next
  case False
  have "yields (ask wd (insertDesktop r (map desktop_row_of events))) s
    (\<lambda>_ s'. staged r ms cs (ds @ map desktop_row_of events) s' \<and> fst s \<le> fst s')"
    by (rule staged_ask [OF assms]) (auto simp: staged_def mine_def insertDesktop_def)
  then show ?thesis using False by (simp add: appendDesktopEvents_def acts)
qed

lemma write_cohorts:
  assumes "undisturbed r wd" and "staged r ms cs ds s"
  shows "yields (writeCohorts wd r rows) s (\<lambda>_ s'. staged r ms (cs @ rows) ds s')"
proof (cases "rows = []")
  case True
  then show ?thesis using assms(2) by (simp add: writeCohorts_def acts)
next
  case False
  have "yields (ask wd (insertCohorts r rows)) s (\<lambda>_ s'. staged r ms (cs @ rows) ds s')"
    by (rule staged_ask [OF assms]) (auto simp: staged_def mine_def insertCohorts_def)
  then show ?thesis using False by (simp add: writeCohorts_def acts)
qed

definition week_of :: "milestone_row \<Rightarrow> int" where
  "week_of m = cohortWeekFor (mr_accountCreatedAt m)"

lemma week_trunc: "date_trunc_monday (utcDateString t) = cohortWeekFor t"
  unfolding date_trunc_monday_def cohortWeekFor_def Let_def by presburger

definition week_counts :: "milestone_row list \<Rightarrow> (int \<times> int) list" where
  "week_counts ms = map (\<lambda>d. (d, int (count_list (map week_of ms) d))) (remdups (map week_of ms))"

lemma remove_keys:
  assumes "undisturbed r wd" and "staged r ms cs ds s"
  shows "yields (removeUserKeys wd r ks) s
    (\<lambda>rows s'. rows = week_counts (filter (\<lambda>m. mr_userKey m \<in> set ks) ms) \<and>
       staged r (filter (\<lambda>m. mr_userKey m \<notin> set ks) ms) cs ds s' \<and> fst s \<le> fst s')"
proof -
  have count: "yields (ask wd (countUserKeys r ks)) s
      (\<lambda>rows s'. rows = week_counts (filter (\<lambda>m. mr_userKey m \<in> set ks) ms) \<and> staged r ms cs ds s' \<and> fst s \<le> fst s')"
    by (rule staged_ask [OF assms])
      (auto simp: staged_def mine_def countUserKeys_def week_counts_def week_trunc week_of_def Let_def cong: map_cong)
  have del: "yields (ask wd (deleteUserKeys r ks)) t
      (\<lambda>_ s'. staged r (filter (\<lambda>m. mr_userKey m \<notin> set ks) ms) cs ds s' \<and> fst t \<le> fst s')"
    if "staged r ms cs ds t" for t
    by (rule staged_ask [OF assms(1) that]) (auto simp: staged_def mine_def deleteUserKeys_def)
  have "yields (andThen (ask wd (countUserKeys r ks)) (\<lambda>rows. andThen (ask wd (deleteUserKeys r ks)) (\<lambda>_. give rows))) s
      (\<lambda>rows s'. rows = week_counts (filter (\<lambda>m. mr_userKey m \<in> set ks) ms) \<and>
         staged r (filter (\<lambda>m. mr_userKey m \<notin> set ks) ms) cs ds s' \<and> fst s \<le> fst s')"
    unfolding yields_andThen yields_basic
    by (rule yields_mono [OF count]) (rule yields_mono [OF del], auto)
  then show ?thesis using assms(2) by (auto simp: removeUserKeys_def acts week_counts_def)
qed

section \<open>Cohorts\<close>

definition cohort_at :: "int \<Rightarrow> cohort list \<Rightarrow> cohort" where
  "cohort_at week cs = (case List.find (\<lambda>c. co_cohortWeek c = week) cs of None \<Rightarrow> emptyCohort week | Some c \<Rightarrow> c)"

lemma cohort_at_Cons: "cohort_at week (c # cs) = (if co_cohortWeek c = week then c else cohort_at week cs)"
  by (simp add: cohort_at_def)

lemma cohort_at_week [simp]: "co_cohortWeek (cohort_at week cs) = week"
  by (induction cs) (auto simp: cohort_at_Cons, simp add: cohort_at_def emptyCohort_def)

lemma cohort_at_mem: "cohort_at week cs \<in> set cs \<or> cohort_at week cs = emptyCohort week \<and> week \<notin> co_cohortWeek ` set cs"
  by (induction cs) (auto simp: cohort_at_Cons, simp add: cohort_at_def)

lemma cohort_at_unique: "distinct (map co_cohortWeek cs) \<Longrightarrow> c \<in> set cs \<Longrightarrow> cohort_at (co_cohortWeek c) cs = c"
  by (induction cs) (auto simp: cohort_at_Cons)

lemma update_cohort_weeks:
  assumes "co_cohortWeek (f (cohort_at week cs)) = week"
  shows "map co_cohortWeek (update_cohort week f cs) =
    (if week \<in> set (map co_cohortWeek cs) then map co_cohortWeek cs else map co_cohortWeek cs @ [week])"
  using assms by (induction cs) (auto simp: cohort_at_Cons, simp_all add: cohort_at_def)

lemma update_cohort_sum:
  assumes "g (emptyCohort week) = (0::int)"
  shows "sum_list (map g (update_cohort week f cs)) =
    sum_list (map g cs) - g (cohort_at week cs) + g (f (cohort_at week cs))"
  using assms by (induction cs) (auto simp: cohort_at_Cons, simp add: cohort_at_def)

lemma update_cohort_mem:
  assumes "distinct (map co_cohortWeek cs)" and "c \<in> set (update_cohort week f cs)"
  shows "c = f (cohort_at week cs) \<or> c \<in> set cs \<and> co_cohortWeek c \<noteq> week"
  using assms
proof (induction cs)
  case (Cons x cs)
  then show ?case by (cases "co_cohortWeek x = week") (auto simp: cohort_at_Cons image_iff)
qed (simp add: cohort_at_def)

section \<open>The books\<close>

definition tallies :: "milestone_row list \<Rightarrow> cohort list \<Rightarrow> bool" where
  \<comment> \<open>every cohort is well-formed and counts the staged rows of its week\<close>
  "tallies ms cs \<longleftrightarrow> distinct (map co_cohortWeek cs) \<and> week_of ` set ms \<subseteq> co_cohortWeek ` set cs \<and>
     (\<forall>c \<in> set cs. \<not> bad_cohort c \<and> co_enabledAccounts c = int (count_list (map week_of ms) (co_cohortWeek c)))"

definition balanced :: "milestone_row list \<Rightarrow> books \<Rightarrow> bool" where
  "balanced ms bk \<longleftrightarrow> tallies ms (bk_cohorts bk) \<and>
     bk_externalAccounts bk = sum_list (map co_totalAccounts (bk_cohorts bk)) \<and>
     bk_enabledAccounts bk = int (length ms)"

lemma balanced_books: "balanced [] no_books"
  by (simp add: balanced_def no_books_def tallies_def)

lemma balanced_cong:
  "balanced ms bk \<Longrightarrow> bk_cohorts bk' = bk_cohorts bk \<Longrightarrow> bk_externalAccounts bk' = bk_externalAccounts bk \<Longrightarrow>
   bk_enabledAccounts bk' = bk_enabledAccounts bk \<Longrightarrow> balanced ms bk'"
  by (simp add: balanced_def)

lemma within_mono: "occurredWithin m t d \<Longrightarrow> d \<le> e \<Longrightarrow> occurredWithin m t e"
  by (auto simp: occurredWithin_def MILLISECONDS_PER_DAY_def split: option.splits)

lemma add_within_ok: "\<not> bad_within n x \<Longrightarrow> \<not> bad_within (n + 1) (add_within m t x)"
  using within_mono [of m t 1 7] within_mono [of m t 7 30] by (auto simp: bad_within_def add_within_def)

lemma increment_ok: "\<not> bad_cohort c \<Longrightarrow> \<not> bad_cohort (incrementCohort at ms b c)"
  by (auto simp: bad_cohort_def incrementCohort_def add_within_ok)

lemma empty_ok: "\<not> bad_cohort (emptyCohort w)"
  by (simp add: bad_cohort_def emptyCohort_def bad_within_def)

lemma cohort_at_ok:
  assumes "tallies ms cs"
  shows "\<not> bad_cohort (cohort_at week cs) \<and> co_enabledAccounts (cohort_at week cs) = int (count_list (map week_of ms) week)"
proof (cases "cohort_at week cs \<in> set cs")
  case True
  then show ?thesis using assms unfolding tallies_def by (metis cohort_at_week)
next
  case False
  then have e: "cohort_at week cs = emptyCohort week" "week \<notin> co_cohortWeek ` set cs" using cohort_at_mem by blast+
  then have "week \<notin> set (map week_of ms)" using assms by (auto simp: tallies_def)
  then show ?thesis by (simp add: e empty_ok count_list_0_iff) (simp add: emptyCohort_def count_list_0_iff)
qed

lemma tallies_update:
  assumes "tallies ms cs"
    and f: "co_cohortWeek (f (cohort_at week cs)) = week" "\<not> bad_cohort (f (cohort_at week cs))"
    and n: "co_enabledAccounts (f (cohort_at week cs)) = int (count_list (map week_of ms') week)"
    and other: "\<And>w. w \<noteq> week \<Longrightarrow> count_list (map week_of ms') w = count_list (map week_of ms) w"
    and sub: "week_of ` set ms' \<subseteq> insert week (week_of ` set ms)"
  shows "tallies ms' (update_cohort week f cs)"
proof -
  let ?u = "update_cohort week f cs"
  have d: "distinct (map co_cohortWeek cs)" and w: "week_of ` set ms \<subseteq> set (map co_cohortWeek cs)"
    using assms(1) by (auto simp: tallies_def)
  have m: "set (map co_cohortWeek ?u) = insert week (set (map co_cohortWeek cs))" "distinct (map co_cohortWeek ?u)"
    using d by (simp_all add: update_cohort_weeks [where f = f and week = week and cs = cs, OF f(1)] insert_absorb del: set_map)
  have "\<not> bad_cohort c \<and> co_enabledAccounts c = int (count_list (map week_of ms') (co_cohortWeek c))" if "c \<in> set ?u" for c
    using update_cohort_mem [OF d that]
  proof
    assume "c = f (cohort_at week cs)"
    then show ?thesis using f n by simp
  next
    assume "c \<in> set cs \<and> co_cohortWeek c \<noteq> week"
    then show ?thesis using assms(1) other by (simp add: tallies_def)
  qed
  moreover have "week_of ` set ms' \<subseteq> set (map co_cohortWeek ?u)"
    unfolding m(1) using sub w by (meson insert_mono order_trans)
  ultimately show ?thesis using m(2) by (simp add: tallies_def)
qed

lemma balanced_scan:
  assumes "balanced ms bk"
  shows "balanced (ms @ (if b then [m] else []))
    (bk\<lparr>bk_externalAccounts := bk_externalAccounts bk + 1,
       bk_cohorts := update_cohort (week_of m) (incrementCohort (mr_accountCreatedAt m) x b) (bk_cohorts bk),
       bk_enabledAccounts := bk_enabledAccounts bk + of_bool b\<rparr>)"
proof -
  let ?f = "incrementCohort (mr_accountCreatedAt m) x b" and ?cs = "bk_cohorts bk"
  have t: "tallies ms ?cs" using assms by (simp add: balanced_def)
  have sums: "sum_list (map co_totalAccounts (update_cohort (week_of m) ?f ?cs)) = sum_list (map co_totalAccounts ?cs) + 1"
    by (subst update_cohort_sum, simp_all add: emptyCohort_def incrementCohort_def)
  have "tallies (ms @ (if b then [m] else [])) (update_cohort (week_of m) ?f ?cs)"
    using cohort_at_ok [OF t, of "week_of m"]
    by (intro tallies_update [OF t]) (auto simp: increment_ok, auto simp: incrementCohort_def count_list_append)
  then show ?thesis using assms sums by (simp add: balanced_def)
qed


lemma sum_counts: "distinct ws \<Longrightarrow> set xs \<subseteq> set ws \<Longrightarrow> sum_list (map (\<lambda>w. int (count_list xs w)) ws) = int (length xs)"
  using sum_count_set [of xs "set ws"] by (simp add: sum_list_distinct_conv_sum_set flip: of_nat_sum)

lemma tallies_enabled: "tallies ms cs \<Longrightarrow> sum_list (map co_enabledAccounts cs) = int (length ms)"
proof -
  assume t: "tallies ms cs"
  then have e: "map co_enabledAccounts cs = map (\<lambda>w. int (count_list (map week_of ms) w)) (map co_cohortWeek cs)"
    by (simp add: tallies_def)
  show ?thesis unfolding e using t by (subst sum_counts) (auto simp: tallies_def)
qed

section \<open>Reconciliation\<close>

lemma find_cohort: "week \<in> set (map co_cohortWeek cs) \<Longrightarrow> List.find (\<lambda>c. co_cohortWeek c = week) cs = Some (cohort_at week cs)"
  by (auto simp: cohort_at_def find_None_iff split: option.split)

lemma cohort_at_update:
  assumes "co_cohortWeek (f (cohort_at week cs)) = week"
  shows "cohort_at w (update_cohort week f cs) = (if w = week then f (cohort_at week cs) else cohort_at w cs)"
  using assms by (induction cs) (auto simp: cohort_at_Cons, simp_all add: cohort_at_def)

definition less_enabled :: "(int \<Rightarrow> int) \<Rightarrow> int list \<Rightarrow> books \<Rightarrow> books \<Rightarrow> bool" where
  \<comment> \<open>the books after \<open>n d\<close> late changes in each of the weeks \<open>ds\<close>\<close>
  "less_enabled n ds bk bk' \<longleftrightarrow>
     map co_cohortWeek (bk_cohorts bk') = map co_cohortWeek (bk_cohorts bk) \<and>
     (\<forall>w. cohort_at w (bk_cohorts bk') = (cohort_at w (bk_cohorts bk))
        \<lparr>co_enabledAccounts := co_enabledAccounts (cohort_at w (bk_cohorts bk)) - (if w \<in> set ds then n w else 0)\<rparr>) \<and>
     bk_externalAccounts bk' = bk_externalAccounts bk \<and>
     bk_enabledAccounts bk' = bk_enabledAccounts bk - sum_list (map n ds) \<and>
     bk_milestoneRowsStaged bk' = bk_milestoneRowsStaged bk - sum_list (map n ds)"

lemma reconcile_less:
  assumes "distinct ds"
    and "\<forall>d \<in> set ds. d \<in> set (map co_cohortWeek (bk_cohorts bk)) \<and> n d \<le> co_enabledAccounts (cohort_at d (bk_cohorts bk))"
  shows "\<exists>bk'. reconcile (map (\<lambda>d. (d, n d)) ds) bk = Inr bk' \<and> less_enabled n ds bk bk'"
  using assms
proof (induction ds arbitrary: bk)
  case Nil
  then show ?case by (simp add: less_enabled_def)
next
  case (Cons d ds)
  let ?f = "\<lambda>x. x\<lparr>co_enabledAccounts := co_enabledAccounts x - n d\<rparr>"
  let ?bk = "bk\<lparr>bk_cohorts := update_cohort d ?f (bk_cohorts bk), bk_enabledAccounts := bk_enabledAccounts bk - n d,
    bk_milestoneRowsStaged := bk_milestoneRowsStaged bk - n d,
    bk_latePreferenceRowsRemoved := bk_latePreferenceRowsRemoved bk + n d\<rparr>"
  have at: "cohort_at w (bk_cohorts ?bk) = (if w = d then ?f (cohort_at d (bk_cohorts bk)) else cohort_at w (bk_cohorts bk))" for w
    by (simp add: cohort_at_update)
  have weeks: "map co_cohortWeek (bk_cohorts ?bk) = map co_cohortWeek (bk_cohorts bk)"
    using Cons.prems(2) update_cohort_weeks [of ?f d "bk_cohorts bk"] by simp
  have "\<exists>bk'. reconcile (map (\<lambda>d. (d, n d)) ds) ?bk = Inr bk' \<and> less_enabled n ds ?bk bk'"
    using Cons.prems weeks by (intro Cons.IH) (auto simp: at cohort_at_update simp del: set_map)
  then obtain bk' where r: "reconcile (map (\<lambda>d. (d, n d)) ds) ?bk = Inr bk'" and l: "less_enabled n ds ?bk bk'" by blast
  have "reconcile (map (\<lambda>d. (d, n d)) (d # ds)) bk = Inr bk'"
    using Cons.prems r by (simp add: find_cohort)
  moreover have "less_enabled n (d # ds) bk bk'"
    using l Cons.prems(1) weeks unfolding less_enabled_def at by auto
  ultimately show ?case by blast
qed

lemma cohorts_at: "distinct (map co_cohortWeek cs) \<Longrightarrow> map g cs = map (\<lambda>w. g (cohort_at w cs)) (map co_cohortWeek cs)"
  by (simp add: cohort_at_unique)

lemma bad_cohort_less:
  "\<not> bad_cohort c \<Longrightarrow> 0 \<le> e \<Longrightarrow> e \<le> co_enabledAccounts c \<Longrightarrow> \<not> bad_cohort (c\<lparr>co_enabledAccounts := e\<rparr>)"
  by (auto simp: bad_cohort_def)

lemma reconcile_balanced:
  assumes "balanced ms bk" and "bk_milestoneRowsStaged bk = int (length ms)"
  shows "\<exists>bk'. reconcile (week_counts (filter P ms)) bk = Inr bk' \<and> balanced (filter (\<lambda>m. \<not> P m) ms) bk' \<and>
    bk_milestoneRowsStaged bk' = int (length (filter (\<lambda>m. \<not> P m) ms))"
proof -
  let ?out = "filter P ms" and ?in = "filter (\<lambda>m. \<not> P m) ms"
  let ?n = "\<lambda>d. int (count_list (map week_of ?out) d)" and ?ds = "remdups (map week_of ?out)"
  have t: "tallies ms (bk_cohorts bk)" using assms by (simp add: balanced_def)
  have split: "count_list (map week_of ms) d = count_list (map week_of ?out) d + count_list (map week_of ?in) d" for d
    by (induction ms) auto
  have len: "length ms = length ?out + length ?in" by (induction ms) auto
  have sub: "set ?ds \<subseteq> set (map co_cohortWeek (bk_cohorts bk))" using t by (auto simp: tallies_def)
  have "\<exists>bk'. reconcile (map (\<lambda>d. (d, ?n d)) ?ds) bk = Inr bk' \<and> less_enabled ?n ?ds bk bk'"
    using sub cohort_at_ok [OF t] split by (intro reconcile_less) auto
  then obtain bk' where r: "reconcile (week_counts ?out) bk = Inr bk'" and l: "less_enabled ?n ?ds bk bk'"
    by (auto simp: week_counts_def)
  have sum: "sum_list (map ?n ?ds) = int (length ?out)" using sum_counts [of ?ds "map week_of ?out"] by simp
  have w: "map co_cohortWeek (bk_cohorts bk') = map co_cohortWeek (bk_cohorts bk)" using l by (simp add: less_enabled_def)
  have at: "cohort_at d (bk_cohorts bk') = (cohort_at d (bk_cohorts bk))
      \<lparr>co_enabledAccounts := int (count_list (map week_of ?in) d)\<rparr>" for d
    using l cohort_at_ok [OF t, of d] split [of d] by (auto simp: less_enabled_def count_list_0_iff)
  have dist: "distinct (map co_cohortWeek (bk_cohorts bk))" using t by (simp add: tallies_def)
  have c: "\<not> bad_cohort c \<and> co_enabledAccounts c = int (count_list (map week_of ?in) (co_cohortWeek c))"
    if "c \<in> set (bk_cohorts bk')" for c
  proof -
    have c: "cohort_at (co_cohortWeek c) (bk_cohorts bk') = c" using cohort_at_unique that w dist by metis
    have "\<not> bad_cohort (cohort_at (co_cohortWeek c) (bk_cohorts bk'))"
      unfolding at using cohort_at_ok [OF t, of "co_cohortWeek c"] split [of "co_cohortWeek c"]
      by (intro bad_cohort_less) auto
    moreover have "co_enabledAccounts (cohort_at (co_cohortWeek c) (bk_cohorts bk')) =
      int (count_list (map week_of ?in) (co_cohortWeek c))" unfolding at by simp
    ultimately show ?thesis unfolding c by (rule conjI)
  qed
  have "map co_totalAccounts (bk_cohorts bk') =
      map (\<lambda>d. co_totalAccounts (cohort_at d (bk_cohorts bk'))) (map co_cohortWeek (bk_cohorts bk'))"
    by (rule cohorts_at) (simp only: w dist)
  also have "\<dots> = map (\<lambda>d. co_totalAccounts (cohort_at d (bk_cohorts bk))) (map co_cohortWeek (bk_cohorts bk))"
    unfolding w by (simp add: at)
  also have "\<dots> = map co_totalAccounts (bk_cohorts bk)" by (rule cohorts_at [symmetric]) (rule dist)
  finally have "sum_list (map co_totalAccounts (bk_cohorts bk')) = sum_list (map co_totalAccounts (bk_cohorts bk))"
    by (rule arg_cong)
  moreover have "tallies ?in (bk_cohorts bk')"
  proof -
    have "co_cohortWeek ` set (bk_cohorts bk') = co_cohortWeek ` set (bk_cohorts bk)" using w by (metis set_map)
    then have "week_of ` set ?in \<subseteq> co_cohortWeek ` set (bk_cohorts bk')" using t by (auto simp: tallies_def)
    then show ?thesis using c w dist by (simp add: tallies_def)
  qed
  ultimately show ?thesis
    using r l assms sum len by (intro exI [of _ bk']) (simp add: balanced_def less_enabled_def)
qed

end
