(* ===== verification/AnalyticsExportProps.thy ===== *)
theory AnalyticsExportProps
  imports AnalyticsExportInv "HOL-Library.Multiset"
begin

text \<open>
  A run's own books always pass its validation, what it stages is withheld for
  everyone who may not be exported, and its promotion is fenced by the lease.
\<close>

section \<open>What the run relies on\<close>

definition well_keyed :: "export_config \<Rightarrow> bool" where
  \<comment> \<open>the driver reads an object id back as itself; a user key has the shape of an HMAC in hexadecimal
     and no two accounts share one\<close>
  "well_keyed cf \<longleftrightarrow>
     (\<forall>i. object_id_hex i \<longrightarrow> cf_oid cf i = Some i) \<and>
     (\<forall>i k. cf_key cf i = Inr k \<longrightarrow> userKeyPattern k) \<and>
     (\<forall>i j k. object_id_hex i \<longrightarrow> object_id_hex j \<longrightarrow> cf_key cf i = Inr k \<longrightarrow> cf_key cf j = Inr k \<longrightarrow> i = j)"

definition distinct_ids :: "world \<Rightarrow> bool" where
  "distinct_ids wd \<longleftrightarrow> (\<forall>k c. wd_users wd k = Inr c \<longrightarrow> distinct (map u_id c))"

definition consents :: "millis \<Rightarrow> user \<Rightarrow> bool" where
  \<comment> \<open>the user enabled the analytics before the cutoff, was created by then, and is not suppressed\<close>
  "consents cutoff d \<longleftrightarrow> u_preference d = Val ''enabled'' \<and> u_createdAt d \<le> cutoff \<and>
     (case u_preferenceUpdatedAt d of Val t \<Rightarrow> t \<le> cutoff | _ \<Rightarrow> False) \<and> is_null (u_exportSuppressedAt d)"

definition vouched :: "world \<Rightarrow> export_config \<Rightarrow> string set \<Rightarrow> millis \<Rightarrow> string \<Rightarrow> milestone_row \<Rightarrow> bool" where
  \<comment> \<open>the scan read a consenting account \<open>i\<close> whose row this is\<close>
  "vouched wd cf internal cutoff i m \<longleftrightarrow>
     object_id_hex i \<and> cf_key cf i = Inr (mr_userKey m) \<and> mr_userKey m \<notin> internal \<and> \<not> badly_timed m \<and>
     (\<exists>k c d. wd_users wd k = Inr c \<and> d \<in> set c \<and> u_id d = i \<and> consents cutoff d)"

section \<open>Batches of users\<close>

lemma sequence_Inr: "sequence xs = Inr ys \<longleftrightarrow> list_all2 (\<lambda>x y. x = Inr y) xs ys"
proof (induction xs arbitrary: ys)
  case (Cons x xs)
  then show ?case by (cases x; cases ys; cases "sequence xs") auto
qed auto

lemma sequence_map: "sequence (map f ds) = Inr ys \<longleftrightarrow> list_all2 (\<lambda>d y. f d = Inr y) ds ys"
  by (simp add: sequence_Inr list_all2_map1)

lemma export_user_from:
  assumes "productAnalyticsExportUserFrom d = Inr u"
  shows "eu_userId u = u_id d \<and> eu_accountCreatedAt u = u_createdAt d \<and> object_id_hex (u_id d) \<and>
    (eu_exportSuppressedAt u = None \<longleftrightarrow> is_null (u_exportSuppressedAt d)) \<and>
    (eu_preference u = Enabled \<longleftrightarrow> u_preference d = Val ''enabled'') \<and>
    u_preferenceUpdatedAt d = Val (eu_preferenceUpdatedAt u)"
  using assms
  by (cases "u_exportSuppressedAt d")
    (auto simp: productAnalyticsExportUserFrom_def preferenceSchema_def split: field.splits option.splits if_splits)

lemma all2_source: "list_all2 P xs ys \<Longrightarrow> y \<in> set ys \<Longrightarrow> \<exists>x \<in> set xs. P x y"
  by (induction rule: list_all2_induct) auto

definition read_as :: "world \<Rightarrow> export_user \<Rightarrow> bool" where
  "read_as wd u \<longleftrightarrow> (\<exists>k c d. wd_users wd k = Inr c \<and> d \<in> set c \<and> productAnalyticsExportUserFrom d = Inr u)"

lemma sorted_batch:
  assumes "list_all2 (\<lambda>d y. f d = Inr y) ds ys" and "sorted_wrt (\<lambda>x y. key x < key y) ds" and "\<And>d y. f d = Inr y \<Longrightarrow> g y = key d"
  shows "sorted_wrt (\<lambda>x y. g x < g y) ys \<and> map g ys = map key ds"
  using assms(1,2)
proof (induction rule: list_all2_induct)
  case (Cons d ds y ys)
  then have "map g ys = map key ds" by simp
  then have "g ` set ys = key ` set ds" by (metis set_map)
  then show ?case using Cons assms(3) by (force simp: image_iff)
qed simp

lemma export_batch:
  assumes "wd_users wd k = Inr c" and "distinct_ids wd"
    and "findProductAnalyticsExportBatch oid after n (Some cutoff) c = Inr users"
    and "\<And>a. after = Some a \<Longrightarrow> oid a = Some a"
  shows "sorted_wrt (\<lambda>x y. eu_userId x < eu_userId y) users" and
    "\<forall>u \<in> set users. read_as wd u \<and> eu_accountCreatedAt u \<le> cutoff \<and> object_id_hex (eu_userId u) \<and>
       (\<forall>a. after = Some a \<longrightarrow> a < eu_userId u)"
proof -
  have d: "distinct (map u_id c)" using assms(1,2) by (simp add: distinct_ids_def)
  let ?p = "\<lambda>d. u_createdAt d \<le> cutoff"
  have b: "list_all2 (\<lambda>d y. productAnalyticsExportUserFrom d = Inr y) (find_page u_id after ?p (nat n) c) users"
    using assms(3,4) by (cases after) (auto simp: findProductAnalyticsExportBatch_def cursor_def sequence_map split: if_splits)
  have s: "sorted_wrt (\<lambda>x y. u_id x < u_id y) (find_page u_id after ?p (nat n) c)"
    using beyond_sorted [OF d] by (simp add: page_beyond sorted_wrt_take)
  show "sorted_wrt (\<lambda>x y. eu_userId x < eu_userId y) users"
    using sorted_batch [OF b s, of eu_userId] export_user_from by blast
  show "\<forall>u \<in> set users. read_as wd u \<and> eu_accountCreatedAt u \<le> cutoff \<and> object_id_hex (eu_userId u) \<and>
       (\<forall>a. after = Some a \<longrightarrow> a < eu_userId u)"
  proof
    fix u assume "u \<in> set users"
    then obtain e where e: "e \<in> set (find_page u_id after ?p (nat n) c)" and f: "productAnalyticsExportUserFrom e = Inr u"
      using all2_source [OF b] by blast
    have "e \<in> set (beyond u_id after ?p c)" using e in_set_takeD by (simp add: page_beyond) fastforce
    then have "e \<in> set c \<and> u_createdAt e \<le> cutoff \<and> (case after of None \<Rightarrow> True | Some a \<Rightarrow> a < u_id e)"
      by (simp add: beyond_set)
    then show "read_as wd u \<and> eu_accountCreatedAt u \<le> cutoff \<and> object_id_hex (eu_userId u) \<and>
       (\<forall>a. after = Some a \<longrightarrow> a < eu_userId u)"
      using export_user_from [OF f] f assms(1) by (auto simp: read_as_def)
  qed
qed

section \<open>The scan\<close>

definition up_to_cutoff :: "millis \<Rightarrow> analytics_milestones \<Rightarrow> bool" where
  "up_to_cutoff cutoff x \<longleftrightarrow> (\<forall>y \<in> {am_notificationRegisteredAt x, am_bridgeRegisteredAt x, am_legacyFirstMetadataRequestAt x}.
     \<forall>t. y = Some t \<longrightarrow> t \<le> cutoff)"

lemma found_milestones:
  assumes "findProductAnalyticsMilestonesByUserIds oid ids (Some cutoff) c = Inr ms" and "ms i = Some x"
  shows "up_to_cutoff cutoff x"
proof -
  have "(i, x) \<in> set (rev (map (\<lambda>d. (as_userId d, analytics_milestones_of cutoff d))
      (filter (\<lambda>d. list_ex (\<lambda>u. oid u = Some (as_userId d)) ids) c)))"
    using assms by (intro map_of_SomeD) (auto simp: findProductAnalyticsMilestonesByUserIds_def split: if_splits)
  then show ?thesis
    by (auto simp: up_to_cutoff_def analytics_milestones_of_def up_to_def split: option.splits if_splits)
qed

definition clean :: "(string \<Rightarrow> milestone_row \<Rightarrow> bool) \<Rightarrow> milestone_row list \<Rightarrow> bool" where
  "clean P ms \<longleftrightarrow> distinct (map mr_userKey ms) \<and> (\<forall>m \<in> set ms. \<exists>i. P i m)"

lemma sanitize_bounds: "snd (sanitize at x) = Some t \<Longrightarrow> x = Some t \<and> at \<le> t"
  by (auto simp: sanitize_def split: option.splits if_splits)

lemma sanitized_timing:
  assumes "up_to_cutoff cutoff x" and "at \<le> cutoff"
  shows "\<not> badly_timed \<lparr>mr_userKey = k, mr_accountCreatedAt = at,
     mr_notificationRegisteredAt = am_notificationRegisteredAt (snd (sanitizedMilestones at x)),
     mr_bridgeRegisteredAt = am_bridgeRegisteredAt (snd (sanitizedMilestones at x)),
     mr_legacyFirstMetadataRequestAt = am_legacyFirstMetadataRequestAt (snd (sanitizedMilestones at x)),
     mr_exportedAt = cutoff\<rparr>"
proof -
  have s: "case snd (sanitize at y) of None \<Rightarrow> True | Some t \<Rightarrow> at \<le> t \<and> t \<le> cutoff"
    if "\<And>t. y = Some t \<Longrightarrow> t \<le> cutoff" for y
    using sanitize_bounds [of at y] that by (auto split: option.split)
  have "case snd (sanitize at (am_notificationRegisteredAt x)) of None \<Rightarrow> True | Some t \<Rightarrow> at \<le> t \<and> t \<le> cutoff"
    "case snd (sanitize at (am_bridgeRegisteredAt x)) of None \<Rightarrow> True | Some t \<Rightarrow> at \<le> t \<and> t \<le> cutoff"
    "case snd (sanitize at (am_legacyFirstMetadataRequestAt x)) of None \<Rightarrow> True | Some t \<Rightarrow> at \<le> t \<and> t \<le> cutoff"
    using assms(1) by (auto intro!: s simp: up_to_cutoff_def)
  then show ?thesis
    using assms(2) unfolding badly_timed_def sanitizedMilestones_def Let_def
    by (simp split: option.splits)
qed

definition row_for :: "(string \<Rightarrow> api_error + string) \<Rightarrow> string set \<Rightarrow> millis \<Rightarrow> export_user \<Rightarrow> milestone_row \<Rightarrow> bool" where
  "row_for key internal cutoff u m \<longleftrightarrow> key (eu_userId u) = Inr (mr_userKey m) \<and> mr_userKey m \<notin> internal \<and> \<not> badly_timed m \<and>
     eu_exportSuppressedAt u = None \<and> eu_preference u = Enabled \<and> eu_preferenceUpdatedAt u \<le> cutoff"

lemma scan_user:
  assumes "scanUser key internal cutoff f u bk = Inr (bk', rows)" and "balanced ms bk"
    and "\<And>i x. f i = Some x \<Longrightarrow> up_to_cutoff cutoff x" and "eu_accountCreatedAt u \<le> cutoff"
  shows "balanced (ms @ rows) bk' \<and> bk_milestoneRowsStaged bk' = bk_milestoneRowsStaged bk \<and>
    (rows = [] \<or> (\<exists>m. rows = [m] \<and> row_for key internal cutoff u m))"
proof (cases "eu_exportSuppressedAt u = None \<and> (\<exists>k. key (eu_userId u) = Inr k \<and> k \<notin> internal)")
  case False
  then show ?thesis
    using assms(1,2) by (auto simp: scanUser_def Let_def intro: balanced_cong split: sum.splits if_splits)
next
  case True
  then obtain k where k: "eu_exportSuppressedAt u = None" "key (eu_userId u) = Inr k" "k \<notin> internal" by blast
  let ?at = "eu_accountCreatedAt u" and ?x = "case f (eu_userId u) of None \<Rightarrow> no_milestones | Some m \<Rightarrow> m"
  let ?en = "eu_preferenceUpdatedAt u \<le> cutoff \<and> eu_preference u = Enabled"
  let ?row = "\<lparr>mr_userKey = k, mr_accountCreatedAt = ?at,
     mr_notificationRegisteredAt = am_notificationRegisteredAt (snd (sanitizedMilestones ?at ?x)),
     mr_bridgeRegisteredAt = am_bridgeRegisteredAt (snd (sanitizedMilestones ?at ?x)),
     mr_legacyFirstMetadataRequestAt = am_legacyFirstMetadataRequestAt (snd (sanitizedMilestones ?at ?x)),
     mr_exportedAt = cutoff\<rparr>"
  have rows: "rows = (if ?en then [?row] else [])" and
    bk: "bk_cohorts bk' = update_cohort (week_of ?row) (incrementCohort ?at (snd (sanitizedMilestones ?at ?x)) ?en) (bk_cohorts bk)"
      "bk_externalAccounts bk' = bk_externalAccounts bk + 1" "bk_enabledAccounts bk' = bk_enabledAccounts bk + of_bool ?en"
      "bk_milestoneRowsStaged bk' = bk_milestoneRowsStaged bk"
    using assms(1) k by (auto simp: scanUser_def Let_def week_of_def)
  have "up_to_cutoff cutoff ?x" using assms(3) by (auto simp: up_to_cutoff_def no_milestones_def split: option.split)
  then have "\<not> badly_timed ?row" by (rule sanitized_timing) (rule assms(4))
  moreover have "balanced (ms @ (if ?en then [?row] else [])) bk'"
    by (rule balanced_cong [OF balanced_scan [OF assms(2), of ?en ?row "snd (sanitizedMilestones ?at ?x)"]]) (simp_all add: bk)
  ultimately show ?thesis using rows bk k by (auto simp: row_for_def)
qed

lemma scan_users:
  assumes "scanUsers key internal cutoff f users bk = Inr (bk', rows)" and "balanced ms bk"
    and "\<And>i x. f i = Some x \<Longrightarrow> up_to_cutoff cutoff x" and "\<forall>u \<in> set users. eu_accountCreatedAt u \<le> cutoff"
  shows "balanced (ms @ rows) bk' \<and> bk_milestoneRowsStaged bk' = bk_milestoneRowsStaged bk \<and>
    (\<exists>us. subseq us users \<and> list_all2 (row_for key internal cutoff) us rows)"
  using assms(1,2,4)
proof (induction users arbitrary: bk ms rows)
  case Nil
  then show ?case by auto
next
  case (Cons u users)
  from Cons.prems(1) obtain bk1 r1 r2 where s: "scanUser key internal cutoff f u bk = Inr (bk1, r1)"
    and t: "scanUsers key internal cutoff f users bk1 = Inr (bk', r2)" and r: "rows = r1 @ r2"
    by (cases "scanUser key internal cutoff f u bk"; cases "scanUsers key internal cutoff f users (fst (projr (scanUser key internal cutoff f u bk)))")
      (auto split: prod.splits)
  have c: "eu_accountCreatedAt u \<le> cutoff" using Cons.prems(3) by simp
  have one: "balanced (ms @ r1) bk1 \<and> bk_milestoneRowsStaged bk1 = bk_milestoneRowsStaged bk \<and>
    (r1 = [] \<or> (\<exists>m. r1 = [m] \<and> row_for key internal cutoff u m))"
    by (rule scan_user [OF s Cons.prems(2) assms(3) c])
  have "\<forall>u \<in> set users. eu_accountCreatedAt u \<le> cutoff" using Cons.prems(3) by simp
  from Cons.IH [OF t _ this, of "ms @ r1"] one obtain us where us: "subseq us users" "list_all2 (row_for key internal cutoff) us r2"
    and rest: "balanced (ms @ rows) bk'" "bk_milestoneRowsStaged bk' = bk_milestoneRowsStaged bk1"
    unfolding r by auto
  show ?case
  proof (cases "r1 = []")
    case True
    then have "subseq us (u # users) \<and> list_all2 (row_for key internal cutoff) us rows" using us r by auto
    then show ?thesis using one rest by auto
  next
    case False
    then have "subseq (u # us) (u # users) \<and> list_all2 (row_for key internal cutoff) (u # us) rows" using one us r by auto
    then show ?thesis using one rest by auto
  qed
qed

lemma subseq_sorted: "subseq xs ys \<Longrightarrow> sorted_wrt P ys \<Longrightarrow> sorted_wrt P xs"
  by (induction rule: list_emb.induct) (auto dest: list_emb_set)

definition staged_up_to ::
  "world \<Rightarrow> export_config \<Rightarrow> string set \<Rightarrow> millis \<Rightarrow> string option \<Rightarrow> milestone_row list \<Rightarrow> bool" where
  \<comment> \<open>rows of accounts up to the cursor\<close>
  "staged_up_to wd cf internal cutoff after ms \<longleftrightarrow>
     clean (\<lambda>i m. vouched wd cf internal cutoff i m \<and> (\<exists>a. after = Some a \<and> i \<le> a)) ms"

lemma vouch:
  assumes "row_for (cf_key cf) internal cutoff u m" and "read_as wd u" and "eu_accountCreatedAt u \<le> cutoff" and "object_id_hex (eu_userId u)"
  shows "vouched wd cf internal cutoff (eu_userId u) m"
proof -
  obtain k c d where d: "wd_users wd k = Inr c" "d \<in> set c" "productAnalyticsExportUserFrom d = Inr u"
    using assms(2) by (auto simp: read_as_def)
  have "consents cutoff d" "u_id d = eu_userId u"
    using export_user_from [OF d(3)] assms(1,3) by (auto simp: consents_def row_for_def)
  then show ?thesis using assms d by (auto simp: vouched_def row_for_def)
qed

lemma staged_batch:
  assumes ok: "well_keyed cf" and st: "staged_up_to wd cf internal cutoff after ms"
    and s: "sorted_wrt (\<lambda>x y. eu_userId x < eu_userId y) users" "users \<noteq> []"
    and u: "\<forall>u \<in> set users. read_as wd u \<and> eu_accountCreatedAt u \<le> cutoff \<and> object_id_hex (eu_userId u) \<and>
       (\<forall>a. after = Some a \<longrightarrow> a < eu_userId u)"
    and r: "subseq us users" "list_all2 (row_for (cf_key cf) internal cutoff) us rows"
  shows "staged_up_to wd cf internal cutoff (Some (eu_userId (last users))) (ms @ rows)"
proof -
  let ?l = "eu_userId (last users)"
  have le: "eu_userId x \<le> ?l" if "x \<in> set users" for x
    using s that by (cases users rule: rev_cases) (auto simp: sorted_wrt_append less_imp_le)
  have sub: "set us \<subseteq> set users" using r(1) by (auto dest: list_emb_set)
  have v: "\<exists>x \<in> set us. vouched wd cf internal cutoff (eu_userId x) m \<and> cf_key cf (eu_userId x) = Inr (mr_userKey m)"
    if "m \<in> set rows" for m
    using all2_source [OF r(2) that] vouch u sub by (metis row_for_def subset_eq)
  have dist: "distinct (map mr_userKey rows)"
    using r(2) subseq_sorted [OF r(1) s(1)] sub
  proof (induction rule: list_all2_induct)
    case (Cons x us m rows)
    have "mr_userKey m \<noteq> mr_userKey n" if n: "n \<in> set rows" for n
    proof
      assume e: "mr_userKey m = mr_userKey n"
      obtain y where y: "y \<in> set us" "row_for (cf_key cf) internal cutoff y n" using all2_source [OF Cons(2) n] by blast
      then have "eu_userId x = eu_userId y"
        using ok e Cons(1) u Cons.prems(2) unfolding well_keyed_def row_for_def by (metis list.set_intros subsetD)
      moreover have "eu_userId x < eu_userId y" using Cons.prems(1) y(1) by simp
      ultimately show False by simp
    qed
    then show ?case using Cons by auto
  qed simp
  have old: "\<exists>i a. vouched wd cf internal cutoff i m \<and> after = Some a \<and> i \<le> a" if "m \<in> set ms" for m
    using st that by (auto simp: staged_up_to_def clean_def)
  have apart: "mr_userKey m \<noteq> mr_userKey n" if m: "m \<in> set ms" and n: "n \<in> set rows" for m n
  proof
    assume e: "mr_userKey m = mr_userKey n"
    obtain i a where i: "vouched wd cf internal cutoff i m" "after = Some a" "i \<le> a" using old [OF m] by blast
    obtain y where y: "y \<in> set us" "vouched wd cf internal cutoff (eu_userId y) n" using v [OF n] by blast
    have "i = eu_userId y" using ok e i(1) y(2) unfolding well_keyed_def vouched_def by metis
    moreover have "a < eu_userId y" using u y(1) sub i(2) by blast
    ultimately show False using i(3) by simp
  qed
  have "\<exists>i. vouched wd cf internal cutoff i m \<and> i \<le> ?l" if "m \<in> set (ms @ rows)" for m
  proof (cases "m \<in> set ms")
    case True
    then obtain i a where "vouched wd cf internal cutoff i m" "after = Some a" "i \<le> a" using old by blast
    moreover have "a \<le> ?l" using \<open>after = Some a\<close> u last_in_set [OF s(2)] by (auto intro: less_imp_le)
    ultimately show ?thesis by force
  next
    case False
    then show ?thesis using that v sub le by fastforce
  qed
  then show ?thesis
    using st dist apart by (auto simp: staged_up_to_def clean_def)
qed


lemma scan_phase:
  assumes ok: "well_keyed cf" "distinct_ids wd" "undisturbed r wd"
    and "staged r ms cs ds s" and "staged_up_to wd cf internal cutoff after ms" and "\<forall>a. after = Some a \<longrightarrow> object_id_hex a"
    and "balanced ms bk" and "bk_milestoneRowsStaged bk = int (length ms)"
  shows "yields (scanPhase fuel wd cf r internal cutoff after bk) s
    (\<lambda>bk' s'. \<exists>ms'. staged r ms' cs ds s' \<and> clean (vouched wd cf internal cutoff) ms' \<and> balanced ms' bk' \<and>
       bk_milestoneRowsStaged bk' = int (length ms') \<and> fst s \<le> fst s')"
  using assms(4-)
proof (induction fuel arbitrary: after bk ms s)
  case 0
  then show ?case by (simp add: acts)
next
  case (Suc fuel)
  let ?Q = "\<lambda>bk' s'. \<exists>ms'. staged r ms' cs ds s' \<and> clean (vouched wd cf internal cutoff) ms' \<and> balanced ms' bk' \<and>
       bk_milestoneRowsStaged bk' = int (length ms') \<and> fst s \<le> fst s'"
  have oid: "\<And>a. after = Some a \<Longrightarrow> cf_oid cf a = Some a" using ok(1) Suc.prems(3) by (simp add: well_keyed_def)
  have cl: "clean (vouched wd cf internal cutoff) ms" using Suc.prems(2) by (auto simp: staged_up_to_def clean_def)
  have next_batch: "yields (andThen (appendMilestones wd r rows) (\<lambda>_. scanPhase fuel wd cf r internal cutoff
        (Some (eu_userId (last users))) (bk'\<lparr>bk_milestoneRowsStaged := bk_milestoneRowsStaged bk' + int (length rows)\<rparr>))) t ?Q"
    if c: "wd_users wd k = Inr c"
      and b: "findProductAnalyticsExportBatch (cf_oid cf) after (cf_batchLimit cf) (Some cutoff) c = Inr users" "users \<noteq> []"
      and f: "findProductAnalyticsMilestonesByUserIds (cf_oid cf) (map eu_userId users) (Some cutoff) c' = Inr f"
      and sc: "scanUsers (cf_key cf) internal cutoff f users bk = Inr (bk', rows)"
      and t: "staged r ms cs ds t" "fst s \<le> fst t"
    for k c users c' f bk' rows t
  proof -
    note batch = export_batch [OF c ok(2) b(1) oid]
    have "\<forall>u \<in> set users. eu_accountCreatedAt u \<le> cutoff" using batch(2) by blast
    moreover have "\<And>i x. f i = Some x \<Longrightarrow> up_to_cutoff cutoff x" by (rule found_milestones [OF f])
    ultimately obtain us
      where n: "balanced (ms @ rows) bk'" "bk_milestoneRowsStaged bk' = bk_milestoneRowsStaged bk"
        and us: "subseq us users" "list_all2 (row_for (cf_key cf) internal cutoff) us rows"
      using scan_users [OF sc Suc.prems(4)] by blast
    have st: "staged_up_to wd cf internal cutoff (Some (eu_userId (last users))) (ms @ rows)"
      by (rule staged_batch [OF ok(1) Suc.prems(2) batch(1) b(2) batch(2) us])
    have hex: "object_id_hex (eu_userId (last users))" using batch(2) last_in_set [OF b(2)] by blast
    show ?thesis
      unfolding yields_andThen
    proof (rule yields_mono [OF append_milestones [OF ok(3) t(1)]], elim conjE)
      fix x t' assume t': "staged r (ms @ rows) cs ds t'" "fst t \<le> fst t'"
      have "balanced (ms @ rows) (bk'\<lparr>bk_milestoneRowsStaged := bk_milestoneRowsStaged bk' + int (length rows)\<rparr>)"
        by (rule balanced_cong [OF n(1)]) simp_all
      then show "yields (scanPhase fuel wd cf r internal cutoff (Some (eu_userId (last users)))
          (bk'\<lparr>bk_milestoneRowsStaged := bk_milestoneRowsStaged bk' + int (length rows)\<rparr>)) t' ?Q"
        using Suc.IH [OF t'(1) st, of "bk'\<lparr>bk_milestoneRowsStaged := bk_milestoneRowsStaged bk' + int (length rows)\<rparr>"]
          hex n Suc.prems(5) t(2) t'(2)
        by (auto elim!: yields_mono)
    qed
  qed
  show ?case
    unfolding scanPhase.simps yields_andThen yields_safely
    using next_batch Suc.prems cl
    by (auto simp: acts staged_def split: sum.split prod.split)
qed

section \<open>Desktop events\<close>

lemma desktop_batches:
  assumes "undisturbed r wd" and "staged r ms cs ds s" and "n = int (length ds)"
  shows "yields (desktopBatches wd r bs n) s
    (\<lambda>n' s'. \<exists>ds'. staged r ms cs ds' s' \<and> n' = int (length ds') \<and> fst s \<le> fst s')"
  using assms(2,3)
proof (induction bs arbitrary: n s ds)
  case Nil
  then show ?case by (auto simp: acts)
next
  case (Cons b bs)
  show ?case
  proof (cases b)
    case (Inr events)
    have "yields (appendDesktopEvents wd r events) s
      (\<lambda>_ s1. yields (desktopBatches wd r bs (n + int (length events))) s1
         (\<lambda>n' s'. \<exists>ds'. staged r ms cs ds' s' \<and> n' = int (length ds') \<and> fst s \<le> fst s'))"
    proof (rule yields_mono [OF append_desktop [OF assms(1) Cons.prems(1), of events]], elim conjE)
      fix x s1 assume "staged r ms cs (ds @ map desktop_row_of events) s1" "fst s \<le> fst s1"
      then show "yields (desktopBatches wd r bs (n + int (length events))) s1
         (\<lambda>n' s'. \<exists>ds'. staged r ms cs ds' s' \<and> n' = int (length ds') \<and> fst s \<le> fst s')"
        using Cons.prems(2) by (intro yields_mono [OF Cons.IH]) auto
    qed
    then show ?thesis by (simp add: Inr acts)
  qed (simp add: acts)
qed

lemma desktop_phase:
  assumes "undisturbed r wd" and "staged r ms cs [] s"
  shows "yields (desktopPhase wd cf r cutoff) s
    (\<lambda>n s'. \<exists>ds. staged r ms cs ds s' \<and> n = int (length ds) \<and> fst s \<le> fst s')"
proof -
  have "yields (desktopBatches wd r bs 0) (Suc (fst s), snd s)
    (\<lambda>n s'. \<exists>ds. staged r ms cs ds s' \<and> n = int (length ds) \<and> fst s \<le> fst s')" for bs
    by (rule yields_mono [OF desktop_batches [OF assms(1) staged_next [OF assms(2)]]]) auto
  then show ?thesis by (auto simp: desktopPhase_def acts split: prod.split sum.split)
qed

section \<open>Late changes\<close>

lemma clean_filter: "clean P ms \<Longrightarrow> clean P (filter Q ms)"
  by (auto simp: clean_def distinct_map_filter)

lemma late_phase:
  assumes und: "undisturbed r wd"
    and "staged r ms cs ds s" and "clean P ms" and "balanced ms bk" and "bk_milestoneRowsStaged bk = int (length ms)"
  shows "yields (latePhase fuel wd cf r cutoff after bk) s
    (\<lambda>bk' s'. \<exists>ms'. staged r ms' cs ds s' \<and> set ms' \<subseteq> set ms \<and> clean P ms' \<and> balanced ms' bk' \<and>
       bk_milestoneRowsStaged bk' = int (length ms') \<and> fst s \<le> fst s')"
  using assms(2-)
proof (induction fuel arbitrary: after bk ms s)
  case 0
  then show ?case by (simp add: acts)
next
  case (Suc fuel)
  let ?Q = "\<lambda>bk' s'. \<exists>ms'. staged r ms' cs ds s' \<and> set ms' \<subseteq> set ms \<and> clean P ms' \<and> balanced ms' bk' \<and>
       bk_milestoneRowsStaged bk' = int (length ms') \<and> fst s \<le> fst s'"
  have next_batch: "yields (andThen (removeUserKeys wd r ks) (\<lambda>removed. andThen (lift (reconcile removed bk)) (\<lambda>bk'.
      latePhase fuel wd cf r cutoff a bk'))) t ?Q" if t: "staged r ms cs ds t" "fst s \<le> fst t" for ks a t
    unfolding yields_andThen
  proof (rule yields_mono [OF remove_keys [OF und t(1), of ks]], elim conjE)
    fix removed t'
    assume rem: "removed = week_counts (filter (\<lambda>m. mr_userKey m \<in> set ks) ms)"
      and t': "staged r (filter (\<lambda>m. mr_userKey m \<notin> set ks) ms) cs ds t'" "fst t \<le> fst t'"
    obtain bk' where b: "reconcile removed bk = Inr bk'" "balanced (filter (\<lambda>m. mr_userKey m \<notin> set ks) ms) bk'"
      "bk_milestoneRowsStaged bk' = int (length (filter (\<lambda>m. mr_userKey m \<notin> set ks) ms))"
      using reconcile_balanced [OF Suc.prems(3,4), of "\<lambda>m. mr_userKey m \<in> set ks"] rem by blast
    show "yields (lift (reconcile removed bk)) t' (\<lambda>b s'. yields (latePhase fuel wd cf r cutoff a b) s' ?Q)"
      using Suc.IH [OF t'(1) clean_filter [OF Suc.prems(2)] b(2,3), of a] t(2) t'(2)
      by (auto simp: b acts elim!: yields_mono)
  qed
  show ?case
    unfolding latePhase.simps yields_andThen yields_safely
    using next_batch Suc.prems
    by (auto simp: acts staged_def split: sum.split)
qed


definition late_change :: "millis \<Rightarrow> user \<Rightarrow> bool" where
  "late_change cutoff d \<longleftrightarrow> (case u_preferenceUpdatedAt d of Val x \<Rightarrow> cutoff < x | _ \<Rightarrow> False)"

definition changed_from :: "world \<Rightarrow> millis \<Rightarrow> nat \<Rightarrow> string \<Rightarrow> bool" where
  \<comment> \<open>from the \<open>k\<close>-th await on every read shows that account \<open>i\<close> changed its preference after the cutoff\<close>
  "changed_from wd cutoff k i \<longleftrightarrow>
     (\<forall>j \<ge> k. \<forall>c. wd_users wd j = Inr c \<longrightarrow> (\<exists>d \<in> set c. u_id d = i \<and> late_change cutoff d))"

lemma change_batch:
  assumes "findProductAnalyticsPreferenceChangeBatch oid after n (Some cutoff) c = Inr changes"
    and "\<And>a. after = Some a \<Longrightarrow> oid a = Some a"
  shows "0 < nat n" and "list_all2 (\<lambda>d y. productAnalyticsPreferenceChangeFrom d = Inr y)
    (find_page u_id after (late_change cutoff) (nat n) c) changes"
  using assms by (cases after; auto simp: findProductAnalyticsPreferenceChangeBatch_def cursor_def sequence_map late_change_def [abs_def]
      split: if_splits bool.splits option.splits)+

lemma change_from:
  "productAnalyticsPreferenceChangeFrom d = Inr y \<Longrightarrow> pc_userId y = u_id d \<and> object_id_hex (u_id d)"
  by (auto simp: productAnalyticsPreferenceChangeFrom_def split: field.splits if_splits)

lemma page_reaches:
  assumes "distinct (map key c)" and "0 < n" and "d \<in> set c" and "p d" and "\<And>a. after = Some a \<Longrightarrow> a < key d"
  shows "find_page key after p n c \<noteq> [] \<and> (d \<in> set (find_page key after p n c) \<or> key (last (find_page key after p n c)) < key d)"
proof -
  let ?b = "beyond key after p c"
  have d: "d \<in> set ?b" using assms(3-5) by (auto simp: beyond_set split: option.split)
  then have n: "take n ?b \<noteq> []" using assms(2) by auto
  have "d \<in> set (take n ?b) \<or> d \<in> set (drop n ?b)" using d by (metis Un_iff append_take_drop_id set_append)
  moreover have "\<forall>x \<in> set (take n ?b). \<forall>y \<in> set (drop n ?b). key x < key y"
    using beyond_sorted [OF assms(1), of after p] by (metis append_take_drop_id sorted_wrt_append)
  ultimately show ?thesis using n by (auto simp: page_beyond)
qed

lemma all2_target: "list_all2 P xs ys \<Longrightarrow> x \<in> set xs \<Longrightarrow> \<exists>y \<in> set ys. P x y"
  by (induction rule: list_all2_induct) auto

lemma changed_later: "changed_from wd cutoff k i \<Longrightarrow> k \<le> j \<Longrightarrow> changed_from wd cutoff j i"
  unfolding changed_from_def by (meson le_trans)

lemma late_rows_go:
  assumes ok: "well_keyed cf" "distinct_ids wd" "undisturbed r wd"
    and "staged r ms cs ds s" and "clean P ms" and "balanced ms bk" and "bk_milestoneRowsStaged bk = int (length ms)"
    and "changed_from wd cutoff (fst s) i" and "cf_key cf i = Inr k"
    and "\<And>a. after = Some a \<Longrightarrow> object_id_hex a \<and> a < i"
  shows "yields (latePhase fuel wd cf r cutoff after bk) s
    (\<lambda>_ s'. \<forall>ms'. staged r ms' cs ds s' \<longrightarrow> k \<notin> mr_userKey ` set ms')"
  using assms(4-8,10)
proof (induction fuel arbitrary: after bk ms s)
  case 0
  then show ?case by (simp add: acts)
next
  case (Suc fuel)
  let ?Q = "\<lambda>_ s'. \<forall>ms'. staged r ms' cs ds s' \<longrightarrow> k \<notin> mr_userKey ` set ms'"
  have oid: "\<And>a. after = Some a \<Longrightarrow> cf_oid cf a = Some a" using ok(1) Suc.prems(6) by (simp add: well_keyed_def)
  have next_batch: "changes \<noteq> [] \<and> yields (andThen (removeUserKeys wd r ks) (\<lambda>removed. andThen (lift (reconcile removed bk)) (\<lambda>bk'.
      latePhase fuel wd cf r cutoff (Some (pc_userId (last changes))) bk'))) (Suc (fst s), snd s) ?Q"
    if c: "wd_users wd (fst s) = Inr c"
      and b: "findProductAnalyticsPreferenceChangeBatch (cf_oid cf) after (cf_batchLimit cf) (Some cutoff) c = Inr changes"
      and ks: "changes \<noteq> [] \<Longrightarrow> sequence (map (cf_key cf \<circ> pc_userId) changes) = Inr ks" for c changes ks
  proof -
    let ?t = "(Suc (fst s), snd s)" and ?page = "find_page u_id after (late_change cutoff) (nat (cf_batchLimit cf)) c"
    have n: "0 < nat (cf_batchLimit cf)" by (rule change_batch(1) [OF b]) (rule oid)
    have pages: "list_all2 (\<lambda>d y. productAnalyticsPreferenceChangeFrom d = Inr y) ?page changes"
      by (rule change_batch(2) [OF b]) (rule oid)
    obtain d where d: "d \<in> set c" "u_id d = i" "late_change cutoff d"
      using Suc.prems(5) c by (auto simp: changed_from_def)
    have "distinct (map u_id c)" using ok(2) c by (simp add: distinct_ids_def)
    then have pg: "?page \<noteq> []" "d \<in> set ?page \<or> u_id (last ?page) < i"
      using page_reaches [where key = u_id and c = c and d = d and after = after and n = "nat (cf_batchLimit cf)"
          and p = "late_change cutoff"] n d Suc.prems(6) by auto
    have ne: "changes \<noteq> []" using pages pg(1) by auto
    have ids: "map pc_userId changes = map u_id ?page"
      using pages by (induction rule: list_all2_induct) (auto dest: change_from)
    have last: "pc_userId (last changes) = u_id (last ?page)"
      using ids ne pg(1) by (metis last_map)
    have hex: "object_id_hex (pc_userId (last changes))"
      using all2_source [OF pages last_in_set [OF ne]] by (auto dest: change_from)
    have keys: "k \<in> set ks" if "d \<in> set ?page"
    proof -
      have "i \<in> pc_userId ` set changes" using that d(2) ids by (metis image_eqI set_map)
      then obtain y where y: "y \<in> set changes" "pc_userId y = i" by blast
      have "list_all2 (\<lambda>y z. cf_key cf (pc_userId y) = Inr z) changes ks"
        using ks [OF ne] by (simp add: sequence_map)
      from all2_target [OF this y(1)] show ?thesis using assms(9) y(2) by auto
    qed
    have t: "staged r ms cs ds ?t" using Suc.prems(1) by (rule staged_next)
    have "yields (removeUserKeys wd r ks) ?t (\<lambda>removed t'. yields (lift (reconcile removed bk)) t'
      (\<lambda>b s'. yields (latePhase fuel wd cf r cutoff (Some (pc_userId (last changes))) b) s' ?Q))"
    proof (rule yields_mono [OF remove_keys [OF ok(3) t, of ks]], elim conjE)
      fix removed t'
      let ?ms = "filter (\<lambda>m. mr_userKey m \<notin> set ks) ms"
      assume rem: "removed = week_counts (filter (\<lambda>m. mr_userKey m \<in> set ks) ms)"
        and t': "staged r ?ms cs ds t'" "fst ?t \<le> fst t'"
      obtain bk' where bk': "reconcile removed bk = Inr bk'" "balanced ?ms bk'" "bk_milestoneRowsStaged bk' = int (length ?ms)"
        using reconcile_balanced [OF Suc.prems(3,4), of "\<lambda>m. mr_userKey m \<in> set ks"] rem by blast
      have ch: "changed_from wd cutoff (fst t') i" using Suc.prems(5) t'(2) by (auto intro: changed_later)
      have "yields (latePhase fuel wd cf r cutoff (Some (pc_userId (last changes))) bk') t' ?Q"
      proof (cases "d \<in> set ?page")
        case True
        have "yields (latePhase fuel wd cf r cutoff (Some (pc_userId (last changes))) bk') t'
            (\<lambda>bk' s'. \<exists>ms'. staged r ms' cs ds s' \<and> set ms' \<subseteq> set ?ms \<and> clean P ms' \<and> balanced ms' bk' \<and>
               bk_milestoneRowsStaged bk' = int (length ms') \<and> fst t' \<le> fst s')"
          by (rule late_phase [OF ok(3) t'(1) clean_filter [OF Suc.prems(2)] bk'(2,3)])
        then show ?thesis
          by (rule yields_mono) (use keys [OF True] in \<open>auto simp: staged_def\<close>)
      next
        case False
        then show ?thesis
          using Suc.IH [OF t'(1) clean_filter [OF Suc.prems(2)] bk'(2,3) ch, of "Some (pc_userId (last changes))"] pg(2) last hex
          by auto
      qed
      then show "yields (lift (reconcile removed bk)) t'
        (\<lambda>b s'. yields (latePhase fuel wd cf r cutoff (Some (pc_userId (last changes))) b) s' ?Q)"
        by (simp add: bk' acts)
    qed
    then show ?thesis using ne by (simp add: yields_andThen)
  qed
  show ?case
    unfolding latePhase.simps yields_andThen yields_safely
    using next_batch by (auto simp: acts split: sum.split)
qed


section \<open>The properties of a run\<close>

lemma staged_sums: "sum_list (map g (sort_key k xs)) = (sum_list (map g xs) :: int)"
  by (metis mset_map mset_sort sum_mset_sum_list)

lemma no_duplicates: "distinct (map mr_userKey ms) \<Longrightarrow> length (remdups (map mr_userKey ms)) = length ms"
  by (simp add: distinct_remdups_id)

text \<open>C28: The export's own books always pass its validation: whatever the other processes do to other
  tables and to the accounts while the run scans, copies the events and reconciles late changes, the
  validation query finds in its staging tables exactly the counts the run expects, no key twice, no
  key of a wrong shape, no timestamp out of order and no cohort out of bounds.\<close>
theorem export_books_match_staging:
  assumes "well_keyed cf" and "distinct_ids wd" and "undisturbed r wd" and "staged r [] [] [] s"
    and "stage fuel wd cf r internal cutoff s = (Inr (bk, n, t), s1)"
    and "writeCohorts wd r (map (\<lambda>c. (c, cutoff)) (sort_key co_cohortWeek (bk_cohorts bk))) s1 = (Inr (), s2)"
  shows "fst (validationQuery r now (snd s2)) = Inr (expected_values (expected_of bk n))"
proof -
  have "yields (stage fuel wd cf r internal cutoff) s (\<lambda>(bk, n, t) s1.
    \<exists>ms ds. staged r ms [] ds s1 \<and> clean (vouched wd cf internal cutoff) ms \<and> balanced ms bk \<and>
      bk_milestoneRowsStaged bk = int (length ms) \<and> n = int (length ds))"
    unfolding stage_def yields_andThen
  proof (rule yields_mono [OF scan_phase [OF assms(1-4)]])
    show "staged_up_to wd cf internal cutoff None []" by (simp add: staged_up_to_def clean_def)
    show "balanced [] no_books" by (rule balanced_books)
  next
    fix bk s1 assume "\<exists>ms'. staged r ms' [] [] s1 \<and> clean (vouched wd cf internal cutoff) ms' \<and> balanced ms' bk \<and>
       bk_milestoneRowsStaged bk = int (length ms') \<and> fst s \<le> fst s1"
    then obtain ms where m: "staged r ms [] [] s1" "clean (vouched wd cf internal cutoff) ms" "balanced ms bk"
      "bk_milestoneRowsStaged bk = int (length ms)" by blast
    show "yields (desktopPhase wd cf r cutoff) s1 (\<lambda>n s2. yields (clock_at wd (\<lambda>scanCutoff.
        if \<not> not_before scanCutoff (Some cutoff) then fail InternalServerError
        else andThen (latePhase fuel wd cf r cutoff None bk) (\<lambda>bk'. give (bk', n, scanCutoff)))) s2
      (\<lambda>(bk, n, t) s1. \<exists>ms ds. staged r ms [] ds s1 \<and> clean (vouched wd cf internal cutoff) ms \<and> balanced ms bk \<and>
        bk_milestoneRowsStaged bk = int (length ms) \<and> n = int (length ds)))"
    proof (rule yields_mono [OF desktop_phase [OF assms(3) m(1)]], elim exE conjE)
      fix n s2 ds assume d: "staged r ms [] ds s2" "n = int (length ds)"
      have "yields (latePhase fuel wd cf r cutoff None bk) s2 (\<lambda>bk' s'. \<exists>ms ds. staged r ms [] ds s' \<and>
          clean (vouched wd cf internal cutoff) ms \<and> balanced ms bk' \<and> bk_milestoneRowsStaged bk' = int (length ms) \<and> n = int (length ds))"
        by (rule yields_mono [OF late_phase [OF assms(3) d(1) m(2-4)]]) (use d(2) in blast)
      then show "yields (clock_at wd (\<lambda>scanCutoff.
          if \<not> not_before scanCutoff (Some cutoff) then fail InternalServerError
          else andThen (latePhase fuel wd cf r cutoff None bk) (\<lambda>bk'. give (bk', n, scanCutoff)))) s2
        (\<lambda>(bk, n, t) s1. \<exists>ms ds. staged r ms [] ds s1 \<and> clean (vouched wd cf internal cutoff) ms \<and> balanced ms bk \<and>
          bk_milestoneRowsStaged bk = int (length ms) \<and> n = int (length ds))"
        by (simp add: acts)
    qed
  qed (simp_all add: no_books_def)
  from yieldsD [OF this assms(5)] obtain ms ds where m: "staged r ms [] ds s1" "clean (vouched wd cf internal cutoff) ms"
    "balanced ms bk" "bk_milestoneRowsStaged bk = int (length ms)" "n = int (length ds)" by auto
  let ?cs = "map (\<lambda>c. (c, cutoff)) (sort_key co_cohortWeek (bk_cohorts bk))"
  have w: "staged r ms ?cs ds s2" using yieldsD [OF write_cohorts [OF assms(3) m(1)] assms(6)] by simp
  have t: "tallies ms (bk_cohorts bk)" using m(3) by (simp add: balanced_def)
  have none: "filter (\<lambda>x. \<not> userKeyPattern (mr_userKey x)) ms = []" "filter badly_timed ms = []"
    using m(2) assms(1) by (fastforce simp: clean_def vouched_def well_keyed_def filter_empty_conv)+
  have bad: "filter (bad_cohort \<circ> fst) ?cs = []" using t by (auto simp: tallies_def filter_empty_conv)
  have dist: "distinct (map mr_userKey ms)" using m(2) by (simp add: clean_def)
  have sums: "sum_list (map (co_totalAccounts \<circ> fst) ?cs) = bk_externalAccounts bk"
    "sum_list (map (co_enabledAccounts \<circ> fst) ?cs) = bk_enabledAccounts bk"
    using m(3) tallies_enabled [OF t] by (simp_all add: balanced_def staged_sums comp_def)
  show ?thesis
    using w none bad sums no_duplicates [OF dist] m(4,5)
    by (simp add: staged_def mine_def validationQuery_def count_if_def expected_values_def expected_of_def)
qed

text \<open>C29: What the export stages is withheld for everyone who must not appear in it: every staged row
  belongs to an account that the scan read as enabled before the cutoff, not suppressed and not
  internal, and whose preference change after the cutoff was not yet visible when the
  reconciliation began.\<close>
theorem export_withholds_late_changes:
  assumes "well_keyed cf" and "distinct_ids wd" and "undisturbed r wd" and "staged r [] [] [] s"
    and "scanPhase fuel wd cf r internal cutoff None no_books s = (Inr bk0, s1)"
    and "desktopPhase wd cf r cutoff s1 = (Inr n, s2)"
    and "latePhase fuel wd cf r cutoff None bk0 s2 = (Inr bk, s3)"
    and "staged r ms [] ds s3" and "m \<in> set ms"
  shows "\<exists>i. vouched wd cf internal cutoff i m \<and> \<not> changed_from wd cutoff (fst s2) i"
proof -
  have "staged_up_to wd cf internal cutoff None []" by (simp add: staged_up_to_def clean_def)
  from yieldsD [OF scan_phase [OF assms(1-4) this _ balanced_books] assms(5)]
  obtain ms0 where a: "staged r ms0 [] [] s1" "clean (vouched wd cf internal cutoff) ms0" "balanced ms0 bk0"
    "bk_milestoneRowsStaged bk0 = int (length ms0)" by (auto simp: no_books_def)
  from yieldsD [OF desktop_phase [OF assms(3) a(1)] assms(6)] obtain ds0 where b: "staged r ms0 [] ds0 s2" by blast
  from yieldsD [OF late_phase [OF assms(3) b a(2-4)] assms(7)] obtain ms1
    where c: "staged r ms1 [] ds0 s3" "clean (vouched wd cf internal cutoff) ms1" by blast
  then have e: "ms1 = ms" "ds0 = ds" using assms(8) by (simp_all add: staged_def)
  obtain i where i: "vouched wd cf internal cutoff i m" using c(2) assms(9) e by (auto simp: clean_def)
  have "\<not> changed_from wd cutoff (fst s2) i"
  proof
    assume "changed_from wd cutoff (fst s2) i"
    moreover have "cf_key cf i = Inr (mr_userKey m)" using i by (simp add: vouched_def)
    ultimately have "yields (latePhase fuel wd cf r cutoff None bk0) s2
        (\<lambda>_ s'. \<forall>ms'. staged r ms' [] ds0 s' \<longrightarrow> mr_userKey m \<notin> mr_userKey ` set ms')"
      by (intro late_rows_go [OF assms(1-3) b a(2-4)]) simp_all
    from yieldsD [OF this assms(7)] show False using assms(8,9) e by auto
  qed
  then show ?thesis using i by blast
qed


section \<open>A run with a late opt-out\<close>

definition demo_id :: "char \<Rightarrow> string" where
  "demo_id c = replicate 23 CHR ''0'' @ [c]"

definition demo_key :: "string \<Rightarrow> api_error + string" where
  "demo_key i = (if object_id_hex i then Inr (i @ i @ take 16 i) else Inl InternalServerError)"

definition demo_account :: "char \<Rightarrow> string \<Rightarrow> millis \<Rightarrow> user" where
  "demo_account c p t = \<lparr>u_id = demo_id c, u_tokenVersion = Some 1, u_createdAt = 5, u_updatedAt = t, u_preference = Val p,
     u_preferenceUpdatedAt = Val t, u_preferenceRevision = Val 1, u_lastOperationId = Missing, u_exportSuppressedAt = Missing\<rparr>"

definition demo_world :: world where
  \<comment> \<open>the second of three accounts opts out after the cutoff, while the events are copied\<close>
  "demo_world = \<lparr>wd_others = (\<lambda>k w. w), wd_fate = (\<lambda>k. Answered), wd_now = int,
     wd_users = (\<lambda>k. Inr [demo_account CHR ''a'' ''enabled'' 10,
       if k < 5 then demo_account CHR ''b'' ''enabled'' 10 else demo_account CHR ''b'' ''disabled'' 150,
       demo_account CHR ''c'' ''disabled'' 10]),
     wd_states = (\<lambda>k. Inr []), wd_events = (\<lambda>k. Inr []),
     wd_control = (\<lambda>k. Inr [\<lparr>ct_userKey = None, ct_controlUpdatedAt = Some 1\<rparr>]), wd_clock = (\<lambda>k. Some (200 + int k))\<rparr>"

definition demo_config :: export_config where
  "demo_config = \<lparr>cf_oid = Some, cf_key = demo_key, cf_batchLimit = 10, cf_maxUserKeys = 5\<rparr>"

definition demo_tables :: warehouse where
  "demo_tables = \<lparr>wh_schema = (\<lambda>_. []), wh_state = None,
     wh_milestoneStaging = [''auth_user_milestones_staging_run00001'' \<mapsto> []],
     wh_cohortStaging = [''auth_weekly_setup_cohorts_staging_run00001'' \<mapsto> []],
     wh_desktopStaging = [''desktop_product_events_staging_run00001'' \<mapsto> []],
     wh_milestones = [], wh_cohorts = [], wh_desktop = [], wh_runs = []\<rparr>"

definition demo_row :: milestone_row where
  "demo_row = \<lparr>mr_userKey = projr (demo_key (demo_id CHR ''a'')), mr_accountCreatedAt = 5, mr_notificationRegisteredAt = None,
     mr_bridgeRegisteredAt = None, mr_legacyFirstMetadataRequestAt = None, mr_exportedAt = 100\<rparr>"

definition demo_scanned where
  "demo_scanned = scanPhase 2 demo_world demo_config (run_of ''run00001'') {} 100 None no_books (0, demo_tables)"

definition demo_copied where
  "demo_copied = desktopPhase demo_world demo_config (run_of ''run00001'') 100 (snd demo_scanned)"

definition demo_reconciled where
  "demo_reconciled = latePhase 2 demo_world demo_config (run_of ''run00001'') 100 None (projr (fst demo_scanned)) (snd demo_copied)"

definition demo_staged where
  "demo_staged = stage 2 demo_world demo_config (run_of ''run00001'') {} 100 (0, demo_tables)"

definition demo_books :: books where
  "demo_books = fst (projr (fst demo_staged))"

definition demo_written where
  "demo_written = writeCohorts demo_world (run_of ''run00001'')
     (map (\<lambda>c. (c, 100)) (sort_key co_cohortWeek (bk_cohorts demo_books))) (snd demo_staged)"

lemma demo_key_take: "demo_key i = Inr k \<Longrightarrow> object_id_hex i \<Longrightarrow> take 24 k = i"
  by (auto simp: demo_key_def object_id_hex_def)

lemma demo_key_shape: "demo_key i = Inr k \<Longrightarrow> userKeyPattern k"
proof -
  assume k: "demo_key i = Inr k"
  then have h: "object_id_hex i" "k = i @ i @ take 16 i" by (auto simp: demo_key_def split: if_splits)
  then have "list_all lower_hex i" "length i = 24" by (simp_all add: object_id_hex_def lower_hex_def [abs_def])
  moreover from this(1) have "list_all lower_hex (take 16 i)" by (auto simp: list_all_iff dest: in_set_takeD)
  ultimately show ?thesis by (simp add: h(2) userKeyPattern_def)
qed

lemma demo_well_keyed: "well_keyed demo_config"
  unfolding well_keyed_def demo_config_def export_config.simps
  using demo_key_take demo_key_shape by metis

lemma demo_ids: "distinct_ids demo_world"
  by (simp add: distinct_ids_def demo_world_def demo_account_def demo_id_def)

lemma demo_alone: "undisturbed r demo_world"
  by (simp add: undisturbed_def demo_world_def)

lemma demo_empty: "staged (run_of ''run00001'') [] [] [] (0, demo_tables)"
  by (simp add: staged_def mine_def demo_tables_def run_of_def)

lemma Inr_pair: "\<not> isl (fst x) \<Longrightarrow> x = (Inr (projr (fst x)), snd x)"
  by (cases x) (auto simp: sum.expand)

theorem export_withholds_late_changes_witness:
  "(\<exists>i. vouched demo_world demo_config {} 100 i demo_row \<and> \<not> changed_from demo_world 100 5 i) \<and>
   mine (run_of ''run00001'') (snd (snd demo_reconciled)) = (Some [demo_row], Some [], Some [])"
proof -
  have k: "fst (snd demo_copied) = 5" by code_simp
  have ok: "\<not> isl (fst demo_scanned)" "\<not> isl (fst demo_copied)" "\<not> isl (fst demo_reconciled)" by code_simp+
  have m: "mine (run_of ''run00001'') (snd (snd demo_reconciled)) = (Some [demo_row], Some [], Some [])" by code_simp
  then have s: "staged (run_of ''run00001'') [demo_row] [] [] (snd demo_reconciled)" by (simp add: staged_def)
  have sc: "scanPhase 2 demo_world demo_config (run_of ''run00001'') {} 100 None no_books (0, demo_tables) =
      (Inr (projr (fst demo_scanned)), snd demo_scanned)"
    by (fold demo_scanned_def) (rule Inr_pair [OF ok(1)])
  have de: "desktopPhase demo_world demo_config (run_of ''run00001'') 100 (snd demo_scanned) =
      (Inr (projr (fst demo_copied)), snd demo_copied)"
    by (fold demo_copied_def) (rule Inr_pair [OF ok(2)])
  have la: "latePhase 2 demo_world demo_config (run_of ''run00001'') 100 None (projr (fst demo_scanned)) (snd demo_copied) =
      (Inr (projr (fst demo_reconciled)), snd demo_reconciled)"
    by (fold demo_reconciled_def) (rule Inr_pair [OF ok(3)])
  have "\<exists>i. vouched demo_world demo_config {} 100 i demo_row \<and> \<not> changed_from demo_world 100 (fst (snd demo_copied)) i"
    by (rule export_withholds_late_changes [OF demo_well_keyed demo_ids demo_alone demo_empty sc de la s]) simp
  then show ?thesis using m by (simp add: k)
qed

theorem export_books_match_staging_witness:
  "fst (validationQuery (run_of ''run00001'') 0 (snd (snd demo_written))) = Inr [1, 0, 0, 0, 3, 1, 0, 0]"
proof -
  have ok: "\<not> isl (fst demo_staged)" "\<not> isl (fst demo_written)" by code_simp+
  have s: "stage 2 demo_world demo_config (run_of ''run00001'') {} 100 (0, demo_tables) =
      (Inr (demo_books, fst (snd (projr (fst demo_staged))), snd (snd (projr (fst demo_staged)))), snd demo_staged)"
    using Inr_pair [OF ok(1)] by (simp add: demo_staged_def demo_books_def)
  have w: "writeCohorts demo_world (run_of ''run00001'') (map (\<lambda>c. (c, 100)) (sort_key co_cohortWeek (bk_cohorts demo_books)))
      (snd demo_staged) = (Inr (), snd demo_written)"
    using Inr_pair [OF ok(2)] by (simp add: demo_written_def)
  have e: "expected_values (expected_of demo_books (fst (snd (projr (fst demo_staged))))) = [1, 0, 0, 0, 3, 1, 0, 0]" by code_simp
  show ?thesis
    using export_books_match_staging [OF demo_well_keyed demo_ids demo_alone demo_empty s w] by (simp only: e)
qed

end
