(* ===== verification/AnalyticsLeaseProps.thy ===== *)
theory AnalyticsLeaseProps
  imports AnalyticsWarehouse
begin

text \<open>
  The lease and the promotion among the runs of all processes: a step is one
  script of some run, or the warehouse's clock moving on.  A promotion that
  succeeds found the run's lease alive, no other snapshot was published since the
  lease was taken, and the published cutoffs only move forward.
\<close>

section \<open>Steps\<close>

inductive staging_step :: "export_run \<Rightarrow> warehouse \<Rightarrow> warehouse \<Rightarrow> bool" for r where
  "staging_step r w (snd (createMilestones r now w))"
| "staging_step r w (snd (createCohorts r now w))"
| "staging_step r w (snd (createDesktop r now w))"
| "staging_step r w (snd (dropMilestones r now w))"
| "staging_step r w (snd (dropCohorts r now w))"
| "staging_step r w (snd (dropDesktop r now w))"
| "staging_step r w (snd (insertMilestones r ms now w))"
| "staging_step r w (snd (insertCohorts r cs now w))"
| "staging_step r w (snd (insertDesktop r ds now w))"
| "staging_step r w (snd (deleteUserKeys r ks now w))"

inductive lease_step :: "string \<Rightarrow> millis \<times> warehouse \<Rightarrow> millis \<times> warehouse \<Rightarrow> bool" for i where
  acquire: "lease_step i (now, w) (now, snd (acquireLease (run_of i) cutoff expires now w))"
| release: "lease_step i (now, w) (now, snd (releaseLease (run_of i) now w))"
| promote: "md_runId md = i \<Longrightarrow> md_runCutoff md = Some cutoff \<Longrightarrow>
    lease_step i (now, w) (now, snd (promote (run_of i) cutoff window md now w))"

inductive warehouse_step :: "(string \<Rightarrow> bool) \<Rightarrow> millis \<times> warehouse \<Rightarrow> millis \<times> warehouse \<Rightarrow> bool" for leasing where
  \<comment> \<open>only the runs in \<open>leasing\<close> touch the lease and the published tables\<close>
  clock: "now \<le> now' \<Longrightarrow> warehouse_step leasing (now, w) (now', w)"
| staging: "staging_step (run_of j) w w' \<Longrightarrow> warehouse_step leasing (now, w) (now, w')"
| lease: "leasing j \<Longrightarrow> lease_step j s s' \<Longrightarrow> warehouse_step leasing s s'"

definition published :: "warehouse \<Rightarrow> milestone_row list \<times> (cohort \<times> millis) list \<times> desktop_row list \<times> run_metadata list" where
  "published w = (wh_milestones w, wh_cohorts w, wh_desktop w, wh_runs w)"

definition holder :: "warehouse \<Rightarrow> string option" where
  "holder w = Option.bind (wh_state w) xs_activeRunId"

lemmas staging_scripts =
  createMilestones_def createCohorts_def createDesktop_def dropMilestones_def dropCohorts_def dropDesktop_def
  insertMilestones_def insertCohorts_def insertDesktop_def deleteUserKeys_def

lemma staging_frame: "staging_step r w w' \<Longrightarrow> wh_state w' = wh_state w \<and> published w' = published w"
  by (induction rule: staging_step.induct) (auto simp: staging_scripts published_def split: option.split)

lemma lease_acquire_frame: "published (snd (acquireLease r c e now w)) = published w"
  by (simp add: acquireLease_def published_def Let_def)

lemma lease_release_frame: "published (snd (releaseLease r now w)) = published w"
  by (simp add: releaseLease_def published_def split: option.split)

lemma promote_cases:
  obtains (promoted) x ms cs ds where "promote r cutoff window md now w = (Inr (), snd (promote r cutoff window md now w))"
    and "wh_state w = Some x" and "xs_activeRunId x = Some (md_runId md)"
    and "\<exists>e. xs_leaseExpiresAt x = Some e \<and> now < e" and "\<forall>c. xs_lastPublishedCutoff x = Some c \<longrightarrow> c < cutoff"
    and "wh_milestoneStaging w (er_milestoneStagingTableId r) = Some ms"
    and "wh_cohortStaging w (er_cohortStagingTableId r) = Some cs"
    and "wh_desktopStaging w (er_desktopEventStagingTableId r) = Some ds"
  | (refused) "promote r cutoff window md now w = (Inl InternalServerError, w)"
proof (cases "fst (promote r cutoff window md now w)")
  case (Inl e)
  then have "promote r cutoff window md now w = (Inl InternalServerError, w)"
    by (auto simp: promote_def split: option.splits if_splits)
  then show ?thesis by (rule refused)
next
  case (Inr u)
  then show ?thesis
    by (intro promoted [of "the (wh_state w)" "the (wh_milestoneStaging w (er_milestoneStagingTableId r))"
          "the (wh_cohortStaging w (er_cohortStagingTableId r))" "the (wh_desktopStaging w (er_desktopEventStagingTableId r))"])
      (auto simp: promote_def split: option.splits if_splits)
qed

section \<open>Nobody else publishes while a run holds the lease\<close>

definition fenced :: "string \<Rightarrow> millis \<Rightarrow> warehouse \<Rightarrow> warehouse \<Rightarrow> bool" where
  \<comment> \<open>if run \<open>i\<close> still holds the lease of \<open>w\<close>, that lease and everything published is as in \<open>w\<close>\<close>
  "fenced i e w w' \<longleftrightarrow> (holder w' = Some i \<longrightarrow> published w' = published w \<and>
     map_option xs_leaseExpiresAt (wh_state w') = Some (Some e))"

lemma fenced_step:
  assumes "warehouse_step (\<lambda>j. j \<noteq> i) s s'" and "fenced i e w (snd s)"
  shows "fenced i e w (snd s')"
  using assms
proof (induction rule: warehouse_step.induct)
  case (clock now now' w)
  then show ?case by simp
next
  case (staging j w' w'' now)
  then show ?case using staging_frame by (auto simp: fenced_def holder_def)
next
  case (lease j s s')
  from lease(2,1,3) show ?case
  proof (induction rule: lease_step.induct)
    case (acquire now w' cutoff expires)
    then show ?case by (auto simp: fenced_def holder_def acquireLease_def run_of_def published_def Let_def split: option.splits)
  next
    case (release now w')
    then show ?case by (auto simp: fenced_def holder_def releaseLease_def published_def split: option.splits)
  next
    case (promote md cutoff now w' window)
    then show ?case by (cases rule: promote_cases [of "run_of j" cutoff window md now w'])
      (auto simp: fenced_def holder_def promote_def split: option.splits if_splits)
  qed
qed

lemma fenced_steps: "(warehouse_step (\<lambda>j. j \<noteq> i))\<^sup>*\<^sup>* s s' \<Longrightarrow> fenced i e w (snd s) \<Longrightarrow> fenced i e w (snd s')"
  by (induction rule: rtranclp_induct) (auto intro: fenced_step)

text \<open>C27: The lease fences publication: between a run's acquisition and its promotion any scripts of any
  other runs may happen, takeovers of an expired lease included.  If the promotion succeeds, its
  lease had not expired, nothing was published in between, and what is published is the run's own
  staging with a cutoff later than the last one; otherwise the promotion changes nothing.\<close>
theorem promotion_is_fenced:
  assumes "acquireLease (run_of i) cutoff e t0 w0 = (Inr (), w1)"
    and "(warehouse_step (\<lambda>j. j \<noteq> i))\<^sup>*\<^sup>* (t0, w1) (t, w2)"
    and "promote (run_of i) cutoff window md t w2 = (result, w3)" and "md_runId md = i"
  shows "if result = Inr ()
    then t < e \<and> published w2 = published w0 \<and> wh_runs w3 = wh_runs w0 @ [md] \<and>
      Some (wh_milestones w3) = wh_milestoneStaging w2 (er_milestoneStagingTableId (run_of i)) \<and>
      Some (wh_cohorts w3) = wh_cohortStaging w2 (er_cohortStagingTableId (run_of i)) \<and> holder w3 = None
    else w3 = w2"
proof -
  have a: "published w1 = published w0" using assms(1) lease_acquire_frame [of "run_of i" cutoff e t0 w0] by simp
  have "fenced i e w1 w1"
    using assms(1) by (auto simp: fenced_def acquireLease_def Let_def split: if_splits)
  then have f: "fenced i e w1 w2" using fenced_steps [OF assms(2), of e w1] by simp
  show ?thesis
  proof (cases rule: promote_cases [of "run_of i" cutoff window md t w2])
    case (promoted x ms cs ds)
    have "holder w2 = Some i" using promoted assms(4) by (simp add: holder_def)
    then have p: "published w2 = published w1" "map_option xs_leaseExpiresAt (wh_state w2) = Some (Some e)"
      using f by (simp_all add: fenced_def)
    have r: "result = Inr ()" "w3 = snd (promote (run_of i) cutoff window md t w2)" using promoted(1) assms(3) by auto
    have "t < e" using promoted p(2) by auto
    then show ?thesis
      using p a r promoted assms(4) by (auto simp: promote_def published_def holder_def split: if_splits option.splits)
  next
    case refused
    then show ?thesis using assms(3) by auto
  qed
qed

section \<open>Published cutoffs only move forward\<close>

definition cutoffs_ok :: "warehouse \<Rightarrow> bool" where
  "cutoffs_ok w \<longleftrightarrow> (case wh_state w of
     None \<Rightarrow> wh_runs w = []
   | Some x \<Rightarrow> (wh_runs w = [] \<longleftrightarrow> xs_lastPublishedCutoff x = None) \<and>
       (wh_runs w \<noteq> [] \<longrightarrow> md_runCutoff (last (wh_runs w)) = xs_lastPublishedCutoff x) \<and>
       sorted_wrt (\<lambda>a b. \<exists>s t. md_runCutoff a = Some s \<and> md_runCutoff b = Some t \<and> s < t) (wh_runs w))"

lemma published_cutoffs_increase:
  assumes "warehouse_step (\<lambda>_. True) s s'" and "cutoffs_ok (snd s)"
  shows "cutoffs_ok (snd s')"
  using assms
proof (induction rule: warehouse_step.induct)
  case (staging j w w' now)
  then show ?case using staging_frame [OF staging(1)] by (auto simp: cutoffs_ok_def published_def split: option.splits)
next
  case (lease j s s')
  from lease(2,3) show ?case
  proof (induction rule: lease_step.induct)
    case (acquire now w cutoff expires)
    then show ?case by (auto simp: cutoffs_ok_def acquireLease_def Let_def split: option.splits)
  next
    case (release now w)
    then show ?case by (auto simp: cutoffs_ok_def releaseLease_def split: option.splits)
  next
    case (promote md cutoff now w window)
    show ?case
    proof (cases rule: promote_cases [of "run_of j" cutoff window md now w])
      case (promoted x ms cs ds)
      have s: "sorted_wrt (\<lambda>a b. \<exists>s t. md_runCutoff a = Some s \<and> md_runCutoff b = Some t \<and> s < t) (wh_runs w)"
        and l: "wh_runs w \<noteq> [] \<Longrightarrow> \<exists>c. md_runCutoff (last (wh_runs w)) = Some c \<and> c < cutoff"
        using promote(3) promoted by (auto simp: cutoffs_ok_def)
      have "\<exists>c. md_runCutoff a = Some c \<and> c < cutoff" if "a \<in> set (wh_runs w)" for a
        using s l that by (cases "wh_runs w" rule: rev_cases) (auto simp: sorted_wrt_append)
      then have "sorted_wrt (\<lambda>a b. \<exists>s t. md_runCutoff a = Some s \<and> md_runCutoff b = Some t \<and> s < t) (wh_runs w @ [md])"
        using s promote(2) by (auto simp: sorted_wrt_append)
      then show ?thesis
        using promoted promote(2) by (simp add: promote_def cutoffs_ok_def split: if_splits)
    next
      case refused
      then show ?thesis using promote(3) by simp
    qed
  qed
qed simp

section \<open>A takeover\<close>

definition demo_warehouse :: warehouse where
  "demo_warehouse = \<lparr>wh_schema = (\<lambda>_. []), wh_state = None, wh_milestoneStaging = Map.empty, wh_cohortStaging = Map.empty,
     wh_desktopStaging = Map.empty, wh_milestones = [], wh_cohorts = [], wh_desktop = [], wh_runs = []\<rparr>"

definition demo_metadata :: "string \<Rightarrow> run_metadata" where
  "demo_metadata i = \<lparr>md_runId = i, md_runCutoff = Some 50, md_preferenceScanCutoff = Some 60, md_controlUpdatedAt = Some 1,
     md_usersScanned = 0, md_sourceSuppressedUsers = 0, md_internalUsers = 0, md_externalAccounts = 0, md_enabledAccounts = 0,
     md_optedOutAccounts = 0, md_preferenceAfterCutoffAccounts = 0, md_latePreferenceRowsRemoved = 0,
     md_milestoneRowsPublished = 0, md_cohortRowsPublished = 0, md_preCreationMilestonesDropped = 0\<rparr>"

definition demo_leased :: warehouse where
  "demo_leased = snd (acquireLease (run_of ''run00001'') 50 100 10 demo_warehouse)"

definition demo_taken :: warehouse where
  \<comment> \<open>after the lease ran out another run took it\<close>
  "demo_taken = snd (acquireLease (run_of ''run00002'') 60 300 150 demo_leased)"

lemma demo_taken_steps: "(warehouse_step (\<lambda>j. j \<noteq> ''run00001''))\<^sup>*\<^sup>* (10, demo_leased) (150, demo_taken)"
  unfolding demo_taken_def
  by (rule rtranclp.rtrancl_into_rtrancl, rule r_into_rtranclp, rule warehouse_step.clock [where now' = 150], simp,
      rule warehouse_step.lease [where j = "''run00002''"], simp, rule lease_step.acquire)

definition demo_ready :: warehouse where
  \<comment> \<open>the run created its staging tables while it held the lease\<close>
  "demo_ready = snd (createDesktop (run_of ''run00001'') 20 (snd (createCohorts (run_of ''run00001'') 20
     (snd (createMilestones (run_of ''run00001'') 20 demo_leased)))))"

lemma demo_ready_steps: "(warehouse_step (\<lambda>j. j \<noteq> ''run00001''))\<^sup>*\<^sup>* (10, demo_leased) (20, demo_ready)"
  unfolding demo_ready_def
  by (rule rtranclp.rtrancl_into_rtrancl [rotated], rule warehouse_step.staging, rule staging_step.intros(3),
      rule rtranclp.rtrancl_into_rtrancl [rotated], rule warehouse_step.staging, rule staging_step.intros(2),
      rule rtranclp.rtrancl_into_rtrancl [rotated], rule warehouse_step.staging, rule staging_step.intros(1),
      rule r_into_rtranclp, rule warehouse_step.clock, simp)

lemmas demo_defs = demo_ready_def demo_taken_def demo_leased_def acquireLease_def demo_warehouse_def run_of_def
  createMilestones_def createCohorts_def createDesktop_def demo_metadata_def

theorem promotion_is_fenced_witness:
  "promote (run_of ''run00001'') 50 (0, 7) (demo_metadata ''run00001'') 150 demo_taken = (Inl InternalServerError, demo_taken) \<and>
   wh_runs (snd (promote (run_of ''run00001'') 50 (0, 7) (demo_metadata ''run00001'') 20 demo_ready)) = [demo_metadata ''run00001'']"
proof -
  let ?p = "promote (run_of ''run00001'') 50 (0, 7) (demo_metadata ''run00001'')"
  have a: "acquireLease (run_of ''run00001'') 50 100 10 demo_warehouse = (Inr (), demo_leased)"
    by (simp add: demo_leased_def acquireLease_def demo_warehouse_def)
  have m: "md_runId (demo_metadata ''run00001'') = ''run00001''" by (simp add: demo_metadata_def)
  note fenced = promotion_is_fenced [OF a _ prod.collapse [symmetric] m, of _ _ "(0, 7)"]
  have "fst (?p 150 demo_taken) = Inl InternalServerError" "fst (?p 20 demo_ready) = Inr ()"
    by (simp_all add: promote_def demo_defs)
  moreover have "wh_runs demo_warehouse = []" by (simp add: demo_warehouse_def)
  ultimately show ?thesis
    using fenced [OF demo_taken_steps] fenced [OF demo_ready_steps] by (simp add: prod_eq_iff)
qed

end
