(* ===== verification/AnalyticsFailureProps.thy ===== *)
theory AnalyticsFailureProps
  imports AnalyticsExportProps AnalyticsLeaseProps
begin

text \<open>
  A run that fails anywhere leaves the published snapshot as it was, and every run
  gives back its lease and its staging tables.
\<close>

section \<open>Acts that do not publish\<close>

definition keeps :: "(warehouse \<Rightarrow> bool) \<Rightarrow> 'a act \<Rightarrow> bool" where
  "keeps I m \<longleftrightarrow> (\<forall>s. I (snd s) \<longrightarrow> I (snd (snd (m s))))"

named_theorems keeping \<open>acts that keep a predicate of the warehouse\<close>

lemma keepsD: "keeps I m \<Longrightarrow> m s = (a, s') \<Longrightarrow> I (snd s) \<Longrightarrow> I (snd s')"
  by (metis keeps_def snd_conv)

lemma keeps_basic [keeping, intro]:
  "keeps I (give a)" "keeps I (fail e)" "keeps I (lift x)" "keeps I (\<lambda>s. (Inl y, s))" "keeps I (safely src f)"
  by (simp_all add: keeps_def give_def fail_def lift_def safely_def look_def)

lemma keeps_andThen [keeping, intro]: "keeps I m \<Longrightarrow> (\<And>a. keeps I (f a)) \<Longrightarrow> keeps I (andThen m f)"
  by (auto simp: keeps_def andThen_def split: prod.split sum.split) (metis snd_conv)+

lemma keeps_if [keeping, intro]: "keeps I m \<Longrightarrow> keeps I n \<Longrightarrow> keeps I (if b then m else n)"
  by simp

lemma keeps_guard [keeping, intro]: "keeps I m \<Longrightarrow> keeps I (guardRun r m)"
  by (simp add: guardRun_def keeping)

lemma keeps_clock [keeping, intro]: "(\<And>t. keeps I (f t)) \<Longrightarrow> keeps I (clock_at wd f)"
  by (simp add: keeps_def clock_at_def)

lemma keeps_settleBoth [keeping, intro]: "keeps I m \<Longrightarrow> keeps I n \<Longrightarrow> keeps I (settleBoth m n)"
  by (simp add: keeps_def settleBoth_def split: prod.split) (metis snd_conv)

lemma keeps_ask:
  assumes "\<And>k w. I w \<Longrightarrow> I (wd_others wd k w)" and "\<And>now w. I w \<Longrightarrow> I (snd (q now w))"
  shows "keeps I (ask wd q)"
  using assms by (simp add: keeps_def ask_def Let_def split: fate.split)

definition showing :: "milestone_row list \<times> (cohort \<times> millis) list \<times> desktop_row list \<times> run_metadata list \<Rightarrow> warehouse \<Rightarrow> bool" where
  "showing p w \<longleftrightarrow> published w = p"

definition quiet :: "world \<Rightarrow> bool" where
  \<comment> \<open>no other run publishes meanwhile\<close>
  "quiet wd \<longleftrightarrow> (\<forall>k w. published (wd_others wd k w) = published w)"

lemma scripts_show [keeping]:
  assumes "quiet wd"
  shows "keeps (showing p) (ask wd (insertMilestones r ms))" "keeps (showing p) (ask wd (insertCohorts r cs))"
    "keeps (showing p) (ask wd (insertDesktop r ds))" "keeps (showing p) (ask wd (countUserKeys r ks))"
    "keeps (showing p) (ask wd (deleteUserKeys r ks))" "keeps (showing p) (ask wd (validationQuery r))"
    "keeps (showing p) (ask wd (createMilestones r))" "keeps (showing p) (ask wd (createCohorts r))"
    "keeps (showing p) (ask wd (createDesktop r))" "keeps (showing p) (ask wd (dropMilestones r))"
    "keeps (showing p) (ask wd (dropCohorts r))" "keeps (showing p) (ask wd (dropDesktop r))"
    "keeps (showing p) (ask wd (releaseLease r))" "keeps (showing p) (ask wd (acquireLease r c e))"
    "keeps (showing p) (ask wd (\<lambda>now w. (Inr (g w), w)))"
  using assms
  by (auto intro!: keeps_ask simp: quiet_def showing_def staging_scripts countUserKeys_def validationQuery_def acquireLease_def
      releaseLease_def published_def Let_def split: option.split)

lemma keeps_parts [keeping]:
  assumes "quiet wd"
  shows "keeps (showing p) (appendMilestones wd r rows)" "keeps (showing p) (appendDesktopEvents wd r events)"
    "keeps (showing p) (writeCohorts wd r cs)" "keeps (showing p) (removeUserKeys wd r ks)"
    "keeps (showing p) (createTables wd r)" "keeps (showing p) (cleanup wd r)"
  unfolding appendMilestones_def appendDesktopEvents_def writeCohorts_def removeUserKeys_def createTables_def cleanup_def
  by (intro keeping keeps_andThen assms)+

lemma keeps_schemas [keeping]: "quiet wd \<Longrightarrow> keeps (showing p) (assertSchemas wd ts)"
  by (induction ts) (auto intro!: keeping)

lemma keeps_scan [keeping]: "quiet wd \<Longrightarrow> keeps (showing p) (scanPhase fuel wd cf r internal cutoff after bk)"
  by (induction fuel arbitrary: after bk) (auto intro!: keeping keeps_andThen split: prod.split)

lemma keeps_batches [keeping]: "quiet wd \<Longrightarrow> keeps (showing p) (desktopBatches wd r bs n)"
  by (induction bs arbitrary: n) (auto intro!: keeping keeps_andThen)

lemma keeps_late [keeping]: "quiet wd \<Longrightarrow> keeps (showing p) (latePhase fuel wd cf r cutoff after bk)"
  by (induction fuel arbitrary: after bk) (auto intro!: keeping keeps_andThen)

lemma keeps_control [keeping]: "keeps I (loadActiveInternalUserKeys wd n t)"
  by (auto simp: loadActiveInternalUserKeys_def intro!: keeping split: option.split)

lemma keeps_stage [keeping]: "quiet wd \<Longrightarrow> keeps (showing p) (stage fuel wd cf r internal cutoff)"
  unfolding stage_def desktopPhase_def by (auto intro!: keeping keeps_andThen split: prod.split)

section \<open>The act that does\<close>

definition all_or_nothing :: "run_metadata act \<Rightarrow> bool" where
  "all_or_nothing m \<longleftrightarrow> (\<forall>s. case m s of
     (Inl _, s') \<Rightarrow> published (snd s') = published (snd s)
   | (Inr md, s') \<Rightarrow> wh_runs (snd s') = wh_runs (snd s) @ [md])"

lemma all_or_nothing_fail: "all_or_nothing (fail e)"
  by (simp add: all_or_nothing_def fail_def)

lemma all_or_nothing_after:
  assumes "\<And>p. keeps (showing p) m" and "\<And>a. all_or_nothing (f a)"
  shows "all_or_nothing (andThen m f)"
  unfolding all_or_nothing_def
proof
  fix s
  obtain r s1 where m: "m s = (r, s1)" by (cases "m s")
  have p: "published (snd s1) = published (snd s)"
    using keepsD [OF assms(1) m, of "published (snd s)"] by (simp add: showing_def)
  show "case andThen m f s of (Inl _, s') \<Rightarrow> published (snd s') = published (snd s)
      | (Inr md, s') \<Rightarrow> wh_runs (snd s') = wh_runs (snd s) @ [md]"
  proof (cases r)
    case (Inl e)
    then show ?thesis using m p by (simp add: andThen_def)
  next
    case (Inr a)
    have "case f a s1 of (Inl _, s') \<Rightarrow> published (snd s') = published (snd s1)
      | (Inr md, s') \<Rightarrow> wh_runs (snd s') = wh_runs (snd s1) @ [md]"
      using assms(2) [of a, unfolded all_or_nothing_def] by (rule spec)
    then show ?thesis using m p Inr by (auto simp: andThen_def published_def split: prod.splits sum.splits)
  qed
qed

lemma all_or_nothing_promote:
  assumes "quiet wd" and "\<And>k. wd_fate wd k = Answered"
  shows "all_or_nothing (andThen (ask wd (promote r cutoff window md)) (\<lambda>_. give md))"
  unfolding all_or_nothing_def
proof
  fix s
  let ?w = "wd_others wd (fst s) (snd s)" and ?n = "wd_now wd (fst s)"
  have p: "published ?w = published (snd s)" using assms(1) by (simp add: quiet_def)
  show "case andThen (ask wd (promote r cutoff window md)) (\<lambda>_. give md) s of
      (Inl _, s') \<Rightarrow> published (snd s') = published (snd s) | (Inr md, s') \<Rightarrow> wh_runs (snd s') = wh_runs (snd s) @ [md]"
  proof (cases rule: promote_cases [of r cutoff window md ?n ?w])
    case (promoted x ms cs ds)
    obtain w' where w': "promote r cutoff window md ?n ?w = (Inr (), w')" using promoted(1) by blast
    then have "wh_runs w' = wh_runs ?w @ [md]"
      using promoted by (auto simp: promote_def split: if_splits)
    moreover have "wh_runs ?w = wh_runs (snd s)" using p by (simp add: published_def)
    ultimately show ?thesis
      by (simp add: andThen_def ask_def give_def Let_def assms(2) w')
  next
    case refused
    then show ?thesis using p by (simp add: andThen_def ask_def Let_def assms(2))
  qed
qed

lemma andThen_assoc: "andThen (andThen m f) g = andThen m (\<lambda>a. andThen (f a) g)"
  by (rule ext) (auto simp: andThen_def split: prod.split sum.split)

lemma andThen_fail: "andThen (fail e) f = fail e"
  by (rule ext) (simp add: andThen_def fail_def)

lemma all_or_nothing_validate:
  assumes "quiet wd" and "\<And>k. wd_fate wd k = Answered"
  shows "all_or_nothing (andThen (validateAndPromote wd r ex window md) (\<lambda>_. give md))"
proof (cases "assertRun r \<and> metadata_ok r ex md")
  case True
  have v: "validateAndPromote wd r ex window md = andThen (ask wd (validationQuery r)) (\<lambda>values.
      if values \<noteq> expected_values ex then fail InternalServerError else ask wd (promote r (the (md_runCutoff md)) window md))"
    using True by (simp add: validateAndPromote_def guardRun_def)
  have "all_or_nothing (andThen (if values \<noteq> expected_values ex then fail InternalServerError
      else ask wd (promote r (the (md_runCutoff md)) window md)) (\<lambda>_. give md))" for "values"
    using all_or_nothing_promote [OF assms] all_or_nothing_fail by (simp add: andThen_fail)
  then show ?thesis
    unfolding v by (subst andThen_assoc) (rule all_or_nothing_after [OF scripts_show(6) [OF assms(1)]])
next
  case False
  then have "validateAndPromote wd r ex window md = fail InternalServerError"
    by (auto simp: validateAndPromote_def guardRun_def)
  then show ?thesis by (simp add: andThen_fail all_or_nothing_fail)
qed

lemma all_or_nothing_publish:
  assumes "quiet wd" and "\<And>k. wd_fate wd k = Answered"
  shows "all_or_nothing (publish wd cf r control cutoff x)"
proof -
  have c: "all_or_nothing (clock_at wd f)" if "\<And>t. all_or_nothing (f t)" for f
    using that by (simp add: all_or_nothing_def clock_at_def)
  show ?thesis
    unfolding publish_def Let_def
    by (auto split: prod.split intro!: c all_or_nothing_after all_or_nothing_validate all_or_nothing_fail keeping assms)
qed


section \<open>The run gives back what it took\<close>

definition apart :: "string \<Rightarrow> world \<Rightarrow> bool" where
  \<comment> \<open>the other processes neither touch the staging tables of run \<open>i\<close> nor take a lease in its name\<close>
  "apart i wd \<longleftrightarrow> (\<forall>k w. mine (run_of i) (wd_others wd k w) = mine (run_of i) w \<and>
     (holder (wd_others wd k w) = Some i \<longrightarrow> holder w = Some i))"

definition idle :: "string \<Rightarrow> warehouse \<Rightarrow> bool" where
  "idle i w \<longleftrightarrow> mine (run_of i) w = (None, None, None) \<and> holder w \<noteq> Some i"

definition leaves :: "(warehouse \<Rightarrow> bool) \<Rightarrow> 'a act \<Rightarrow> bool" where
  "leaves I m \<longleftrightarrow> (\<forall>s. I (snd (snd (m s))))"

lemma leavesD: "leaves I m \<Longrightarrow> I (snd (snd (m s)))"
  by (simp only: leaves_def)

lemma leaves_settleBoth:
  assumes "leaves I m" and "keeps I n" and "leaves J n"
  shows "leaves (\<lambda>w. I w \<and> J w) (settleBoth m n)"
  using assms by (auto simp: leaves_def keeps_def settleBoth_def split: prod.split) (metis snd_conv)+

lemma leaves_ask:
  "(\<And>k. wd_fate wd k = Answered) \<Longrightarrow> (\<And>now w. I (snd (q now w))) \<Longrightarrow> leaves I (ask wd q)"
  by (simp add: leaves_def ask_def Let_def)

lemma cleanup_idle:
  assumes "apart i wd" and "\<And>k. wd_fate wd k = Answered" and "runIdPattern i"
  shows "leaves (idle i) (cleanup wd (run_of i))"
proof -
  let ?r = "run_of i"
  have r: "er_runId ?r = i" by (simp add: run_of_def)
  have o1: "wh_milestoneStaging (wd_others wd k w) (er_milestoneStagingTableId ?r) = wh_milestoneStaging w (er_milestoneStagingTableId ?r)"
    and o2: "wh_cohortStaging (wd_others wd k w) (er_cohortStagingTableId ?r) = wh_cohortStaging w (er_cohortStagingTableId ?r)"
    and o3: "wh_desktopStaging (wd_others wd k w) (er_desktopEventStagingTableId ?r) = wh_desktopStaging w (er_desktopEventStagingTableId ?r)" for k w
    using assms(1) by (simp_all add: apart_def mine_def)
  have c3: "leaves (\<lambda>w. wh_desktopStaging w (er_desktopEventStagingTableId ?r) = None \<and> holder w \<noteq> Some i)
      (settleBoth (ask wd (dropDesktop ?r)) (ask wd (releaseLease ?r)))"
    by (intro leaves_settleBoth leaves_ask keeps_ask assms(2))
      (auto simp: o3 r dropDesktop_def releaseLease_def holder_def split: option.split)
  have c2: "leaves (\<lambda>w. wh_cohortStaging w (er_cohortStagingTableId ?r) = None \<and>
      (wh_desktopStaging w (er_desktopEventStagingTableId ?r) = None \<and> holder w \<noteq> Some i))
      (settleBoth (ask wd (dropCohorts ?r)) (settleBoth (ask wd (dropDesktop ?r)) (ask wd (releaseLease ?r))))"
    by (rule leaves_settleBoth [OF _ _ c3]; (intro leaves_ask keeps_settleBoth keeps_ask assms(2))?)
      (auto simp: o2 dropCohorts_def dropDesktop_def releaseLease_def split: option.split)
  have "leaves (\<lambda>w. wh_milestoneStaging w (er_milestoneStagingTableId ?r) = None \<and>
      (wh_cohortStaging w (er_cohortStagingTableId ?r) = None \<and>
      (wh_desktopStaging w (er_desktopEventStagingTableId ?r) = None \<and> holder w \<noteq> Some i)))
      (settleBoth (ask wd (dropMilestones ?r)) (settleBoth (ask wd (dropCohorts ?r))
         (settleBoth (ask wd (dropDesktop ?r)) (ask wd (releaseLease ?r)))))"
    by (rule leaves_settleBoth [OF _ _ c2]; (intro leaves_ask keeps_settleBoth keeps_ask assms(2))?)
      (auto simp: o1 dropMilestones_def dropCohorts_def dropDesktop_def releaseLease_def split: option.split)
  then show ?thesis
    using assms(3) r by (simp add: cleanup_def guardRun_def assertRun_def leaves_def idle_def mine_def)
qed

definition fine :: "string \<Rightarrow> warehouse \<Rightarrow> (stop + run_metadata) \<times> session \<Rightarrow> bool" where
  \<comment> \<open>how a run that found the warehouse \<open>w\<close> may end\<close>
  "fine i w x \<longleftrightarrow> idle i (snd (snd x)) \<and> (case fst x of
     Inl _ \<Rightarrow> published (snd (snd x)) = published w
   | Inr md \<Rightarrow> wh_runs (snd (snd x)) = wh_runs w @ [md])"

lemma fine_cong: "published w = published w' \<Longrightarrow> fine i w x = fine i w' x"
  by (auto simp: fine_def published_def split: sum.split)

lemma fine_fail: "idle i (snd s) \<Longrightarrow> fine i (snd s) (fail e s)"
  by (simp add: fine_def fail_def)

lemma fine_after:
  assumes "keeps (idle i) m" and "\<And>p. keeps (showing p) m" and "idle i (snd s)"
    and "\<And>a s'. idle i (snd s') \<Longrightarrow> fine i (snd s') (f a s')"
  shows "fine i (snd s) (andThen m f s)"
proof -
  obtain a s1 where m: "m s = (a, s1)" by (cases "m s")
  have i: "idle i (snd s1)" using keepsD [OF assms(1) m] assms(3) by simp
  have p: "published (snd s1) = published (snd s)"
    using keepsD [OF assms(2) m, of "published (snd s)"] by (simp add: showing_def)
  show ?thesis
    using i p assms(4) [OF i] fine_cong [OF p] by (cases a) (simp_all add: andThen_def m, simp add: fine_def)
qed

lemma keeps_idle_schemas: "apart i wd \<Longrightarrow> keeps (idle i) (assertSchemas wd ts)"
  by (induction ts) (auto intro!: keeping keeps_andThen keeps_ask simp: idle_def apart_def)

lemma cleanup_shows: "quiet wd \<Longrightarrow> published (snd (snd (cleanup wd r s))) = published (snd s)"
  using keeps_parts(6) [of wd "published (snd s)" r] by (simp only: keeps_def showing_def)

lemma run_after_begin:
  assumes "apart i wd" and "quiet wd" and "\<And>k. wd_fate wd k = Answered" and "runIdPattern i" and "\<And>s. all_or_nothing (f (run_of i))"
  shows "fine i (snd s) (case f (run_of i) s of (result, s') \<Rightarrow> (result, snd (cleanup wd (run_of i) s')))"
proof -
  obtain x s1 where f: "f (run_of i) s = (x, s1)" by (cases "f (run_of i) s")
  have "published (snd (snd (cleanup wd (run_of i) s1))) = published (snd s1)"
    by (rule cleanup_shows [OF assms(2)])
  moreover have "idle i (snd (snd (cleanup wd (run_of i) s1)))"
    by (rule leavesD [OF cleanup_idle [OF assms(1,3,4)]])
  moreover have "case (x, s1) of (Inl _, s') \<Rightarrow> published (snd s') = published (snd s)
      | (Inr md, s') \<Rightarrow> wh_runs (snd s') = wh_runs (snd s) @ [md]"
    using assms(5) unfolding all_or_nothing_def f [symmetric] by (rule spec)
  ultimately show ?thesis by (auto simp: f fine_def published_def split: sum.splits)
qed

lemma begun_run:
  assumes a: "apart i wd" and q: "quiet wd" and f: "\<And>k. wd_fate wd k = Answered" and i: "idle i (snd s)"
    and g: "all_or_nothing (g (run_of i))"
  shows "fine i (snd s) (andThen (beginRun wd i c e) (\<lambda>r s. case g r s of (result, s') \<Rightarrow> (result, snd (cleanup wd r s'))) s)"
proof -
  let ?h = "\<lambda>r s. case g r s of (result, s') \<Rightarrow> (result, snd (cleanup wd r s'))"
  consider (bad) "beginRun wd i c e = fail InternalServerError"
    | (good) c' e' where "runIdPattern i" "beginRun wd i c e =
        andThen (assertSchemas wd productAnalyticsPermanentTableSchemas) (\<lambda>_.
          andThen (ask wd (acquireLease (run_of i) c' e')) (\<lambda>_ s.
            case createTables wd (run_of i) s of
              (Inr _, s') \<Rightarrow> (Inr (run_of i), s') | (Inl x, s') \<Rightarrow> (Inl x, snd (cleanup wd (run_of i) s'))))"
    by (cases "runIdPattern i"; cases c; cases e; cases "the e \<le> the c") (auto simp: beginRun_def Let_def)
  then show ?thesis
  proof cases
    case bad
    then show ?thesis using fine_fail [OF i] by (simp add: andThen_fail)
  next
    case good
    let ?create = "\<lambda>s. case createTables wd (run_of i) s of
        (Inr _, s') \<Rightarrow> (Inr (run_of i), s') | (Inl x, s') \<Rightarrow> (Inl x, snd (cleanup wd (run_of i) s'))"
    have create: "fine i (snd s) (andThen ?create ?h s)" for s
    proof -
      obtain x s1 where t: "createTables wd (run_of i) s = (x, s1)" by (cases "createTables wd (run_of i) s")
      have p: "published (snd s1) = published (snd s)"
        using keepsD [OF keeps_parts(5) [OF q] t, of "published (snd s)"] by (simp add: showing_def)
      show ?thesis
      proof (cases x)
        case (Inl y)
        have "published (snd (snd (cleanup wd (run_of i) s1))) = published (snd s1)"
          by (rule cleanup_shows [OF q])
        then show ?thesis
          using leavesD [OF cleanup_idle [OF a f good(1)]] p by (simp add: andThen_def t Inl fine_def)
      next
        case (Inr u)
        have "fine i (snd s1) (?h (run_of i) s1)" by (rule run_after_begin [where f = g, OF a q f good(1) g])
        then show ?thesis using fine_cong [OF p] by (simp add: andThen_def t Inr)
      qed
    qed
    have acquire: "fine i (snd s) (andThen (andThen (ask wd (acquireLease (run_of i) c' e')) (\<lambda>_. ?create)) ?h s)"
      if i: "idle i (snd s)" for s
    proof -
      obtain x s1 where t: "ask wd (acquireLease (run_of i) c' e') s = (x, s1)" by (cases "ask wd (acquireLease (run_of i) c' e') s")
      have p: "published (snd s1) = published (snd s)"
        using keepsD [OF scripts_show(14) [OF q] t, of "published (snd s)"] by (simp add: showing_def)
      show ?thesis
      proof (cases x)
        case (Inl y)
        then have "snd s1 = wd_others wd (fst s) (snd s)"
          using t by (auto simp: ask_def f Let_def acquireLease_def split: if_splits)
        then have "idle i (snd s1)" using i a by (auto simp: idle_def apart_def)
        then show ?thesis using p by (simp add: andThen_def t Inl fine_def)
      next
        case (Inr u)
        then show ?thesis using create [of s1] fine_cong [OF p] by (simp add: andThen_def t Inr)
      qed
    qed
    show ?thesis
      unfolding good(2) andThen_assoc
      by (rule fine_after [OF keeps_idle_schemas [OF a] keeps_schemas [OF q] i]) (use acquire in \<open>simp add: andThen_assoc\<close>)
  qed
qed

section \<open>The property\<close>



section \<open>A run that ends well and one that does not\<close>

definition demo_live :: warehouse where
  "demo_live = demo_warehouse\<lparr>wh_schema := (\<lambda>t. the (map_of productAnalyticsPermanentTableSchemas t))\<rparr>"

definition demo_malformed :: world where
  \<comment> \<open>one of the stored events does not parse\<close>
  "demo_malformed = demo_world\<lparr>wd_events := (\<lambda>k. Inr [None])\<rparr>"

definition demo_run :: "world \<Rightarrow> (stop + run_metadata) \<times> session" where
  "demo_run wd = run_export 2 wd demo_config ''run00001'' (Some 100) (0, demo_live)"

lemma demo_worlds:
  "apart ''run00001'' demo_world" "quiet demo_world" "wd_fate demo_world k = Answered"
  "apart ''run00001'' demo_malformed" "quiet demo_malformed" "wd_fate demo_malformed k = Answered"
  by (simp_all add: apart_def quiet_def demo_world_def demo_malformed_def)

lemma demo_idle: "idle ''run00001'' (snd (0, demo_live))"
  by (simp add: idle_def mine_def holder_def demo_live_def demo_warehouse_def)

lemma schemas_match:
  assumes "wd_others wd = (\<lambda>k w. w)" and "wd_fate wd = (\<lambda>k. Answered)" and "\<forall>(t, fs) \<in> set ts. wh_schema w t = fs"
  shows "assertSchemas wd ts (k, w) = (Inr (), (k + length ts, w))"
  using assms(3)
proof (induction ts arbitrary: k)
  case (Cons x ts)
  then show ?case by (cases x) (simp add: andThen_def ask_def Let_def assms(1,2) give_def)
qed (simp add: give_def)

definition demo_begun :: warehouse where
  "demo_begun = snd (createDesktop (run_of ''run00001'') 9 (snd (createCohorts (run_of ''run00001'') 8
     (snd (createMilestones (run_of ''run00001'') 7 (snd (acquireLease (run_of ''run00001'') 100 (200 + MILLISECONDS_PER_DAY) 6 demo_live)))))))"

lemma demo_begins:
  assumes "wd_others wd = (\<lambda>k w. w)" and "wd_fate wd = (\<lambda>k. Answered)" and "wd_now wd = int"
  shows "beginRun wd ''run00001'' (Some 100) (Some (200 + MILLISECONDS_PER_DAY)) (1, demo_live) = (Inr (run_of ''run00001''), (10, demo_begun))"
proof -
  have s: "\<forall>(t, fs) \<in> set productAnalyticsPermanentTableSchemas. wh_schema demo_live t = fs"
    by (simp add: demo_live_def productAnalyticsPermanentTableSchemas_def)
  have a: "assertSchemas wd productAnalyticsPermanentTableSchemas (1, demo_live) = (Inr (), (6, demo_live))"
    unfolding schemas_match [OF assms(1,2) s] by (simp add: productAnalyticsPermanentTableSchemas_def)
  have r: "runIdPattern ''run00001''" "\<not> 200 + MILLISECONDS_PER_DAY \<le> 100" by code_simp+
  let ?r = "run_of ''run00001''"
  define w1 where "w1 = snd (acquireLease ?r 100 (200 + MILLISECONDS_PER_DAY) 6 demo_live)"
  define w2 where "w2 = snd (createMilestones ?r 7 w1)"
  define w3 where "w3 = snd (createCohorts ?r 8 w2)"
  have step: "ask wd q (k, w) = (map_sum Thrown id (fst (q (int k) w)), (Suc k, snd (q (int k) w)))" for q :: "'b script" and k w
    by (simp add: ask_def Let_def assms)
  have q: "fst (acquireLease ?r 100 (200 + MILLISECONDS_PER_DAY) 6 demo_live) = Inr ()" "fst (createMilestones ?r 7 w1) = Inr ()"
    "fst (createCohorts ?r 8 w2) = Inr ()" "fst (createDesktop ?r 9 w3) = Inr ()"
    by (simp_all add: w1_def w2_def w3_def acquireLease_def createMilestones_def createCohorts_def createDesktop_def
        demo_live_def demo_warehouse_def)
  have tables: "createTables wd ?r (7, w1) = (Inr (), (10, demo_begun))"
    by (simp add: createTables_def andThen_def step q flip: w2_def w3_def) (simp add: demo_begun_def w1_def w2_def w3_def)
  show ?thesis
    using r by (simp add: beginRun_def Let_def andThen_def a [simplified] step q tables flip: w1_def)
qed

definition demo_rest :: "world \<Rightarrow> (stop + run_metadata) \<times> session" where
  "demo_rest wd = (case andThen (stage 2 wd demo_config (run_of ''run00001'') {} 100)
     (publish wd demo_config (run_of ''run00001'') ({}, 1) 100) (10, demo_begun) of
       (result, s') \<Rightarrow> (result, snd (cleanup wd (run_of ''run00001'') s')))"

lemma demo_run_rest:
  assumes "wd_others wd = (\<lambda>k w. w)" and "wd_fate wd = (\<lambda>k. Answered)" and "wd_now wd = int"
    and "wd_control wd = (\<lambda>k. Inr [\<lparr>ct_userKey = None, ct_controlUpdatedAt = Some 1\<rparr>])" and "wd_clock wd = (\<lambda>k. Some (200 + int k))"
  shows "demo_run wd = demo_rest wd"
proof -
  have c: "loadActiveInternalUserKeys wd 5 (Some 200) (0, demo_live) = (Inr ({}, 1), (1, demo_live))"
    by (simp add: loadActiveInternalUserKeys_def safely_def look_def assms(4) Let_def map_filter_def)
  have m: "cf_maxUserKeys demo_config = 5" by (simp add: demo_config_def)
  have b: "beginRun wd ''run00001'' (Some 100) (Some (200 + MILLISECONDS_PER_DAY)) (1, demo_live) = (Inr (run_of ''run00001''), (10, demo_begun))"
    by (rule demo_begins [OF assms(1-3)])
  show ?thesis
    unfolding demo_run_def run_export_def clock_at_def demo_rest_def m
    by (simp add: assms(5) not_before_def andThen_def [of "loadActiveInternalUserKeys wd 5 (Some 200)"] c
        andThen_def [of "beginRun wd ''run00001'' (Some 100) (Some (200 + MILLISECONDS_PER_DAY))"] b [simplified])
qed

lemma demo_runs: "demo_run demo_world = demo_rest demo_world" "demo_run demo_malformed = demo_rest demo_malformed"
  by (rule demo_run_rest; simp add: demo_world_def demo_malformed_def)+


end
