(* ===== verification/AnalyticsEvents.thy ===== *)
theory AnalyticsEvents
  imports AnalyticsWarehouse UserRepo
begin

text \<open>
  Desktop product events: the closed wire schema of \<open>src/types/product-analytics.ts\<close>,
  the event store (\<open>product-analytics-event-repo.ts\<close>), the service that records
  an event (\<open>product-analytics-event-service.ts\<close>), and the suppression of an
  account with its handoff (\<open>product-analytics-deletion-service.ts\<close> and
  \<open>product-analytics-deletion-target-repo.ts\<close>).  Recordings and suppressions of
  many requests interleave at their awaits.
\<close>

section \<open>The wire schema\<close>

definition ProductAnalyticsEventPlatform :: "string list" where
  "ProductAnalyticsEventPlatform = [''MACOS'', ''LINUX'', ''WINDOWS'']"

definition ProductAnalyticsContentState :: "string list" where
  "ProductAnalyticsContentState = [''empty'', ''non_empty'']"

definition ProductAnalyticsWorkspaceKind :: "string list" where
  "ProductAnalyticsWorkspaceKind = [''project'', ''dedicated_worktree'', ''no_project'']"

definition ProductAnalyticsSessionFailureReason :: "string list" where
  "ProductAnalyticsSessionFailureReason =
     [''not_authenticated'', ''server_rejected'', ''network_down'', ''bad_response'', ''unknown'']"

definition ProductAnalyticsPermissionDecision :: "string list" where
  "ProductAnalyticsPermissionDecision = [''once'', ''always'', ''reject'']"

definition ProductAnalyticsFeedbackAnswer :: "string list" where
  "ProductAnalyticsFeedbackAnswer = [''love_review_requested'', ''love_no_review'', ''could_be_better'', ''dismissed'']"

definition ProductAnalyticsFeedbackInput :: "string list" where
  "ProductAnalyticsFeedbackInput = [''typed'', ''voice_assisted'', ''issues_only'', ''empty'']"

definition ProductAnalyticsFeedbackSource :: "string list" where
  "ProductAnalyticsFeedbackSource = [''automatic'', ''settings'']"

definition ProductAnalyticsOnboardingSurface :: "string list" where
  "ProductAnalyticsOnboardingSurface = [''connect_setup'', ''connected_empty'', ''bridge_offline'']"

definition ProductAnalyticsSupportChannel :: "string list" where
  "ProductAnalyticsSupportChannel = [''email'', ''discord'', ''x'']"

definition ProductAnalyticsInstallMethod :: "string list" where
  "ProductAnalyticsInstallMethod = [''curl'', ''powershell'', ''npm'', ''bun'']"

definition ProductAnalyticsInstallOs :: "string list" where
  "ProductAnalyticsInstallOs = [''unix'', ''windows'']"

definition ProductAnalyticsScreen :: "string list" where
  "ProductAnalyticsScreen =
     [''login'', ''projects'', ''settings'', ''settings_default_input'', ''settings_notifications'', ''settings_profile'',
      ''sessions'', ''new_session'', ''session_detail'', ''session_diffs'']"

type_synonym params_shape = "(string \<times> string list) list"

definition messageSubmissionShape :: params_shape where
  "messageSubmissionShape =
     [(''submission_kind'', [''text'', ''command'']), (''input_mode'', [''typed'', ''voice_assisted''])]"

definition installCommandParamsSchema :: params_shape where
  "installCommandParamsSchema = [(''surface'', ProductAnalyticsOnboardingSurface),
     (''method'', ProductAnalyticsInstallMethod), (''os'', ProductAnalyticsInstallOs)]"

definition surfaceParamsSchema :: params_shape where
  "surfaceParamsSchema = [(''surface'', ProductAnalyticsOnboardingSurface)]"

definition event_shapes :: "(string \<times> params_shape) list" where
  \<comment> \<open>the members of the union, each with its strict object of closed enums\<close>
  "event_shapes =
     [(''analytics_schema_ready'', []),
      (''analytics_activation_ready'', [(''activation_schema_version'', [''1''])]),
      (''project_inventory_loaded'', [(''inventory_state'', ProductAnalyticsContentState)]),
      (''session_activity_viewed'', [(''activity_state'', ProductAnalyticsContentState)]),
      (''session_message_sent'', messageSubmissionShape),
      (''session_created_with_message'', messageSubmissionShape @ [(''workspace_kind'', ProductAnalyticsWorkspaceKind)]),
      (''session_creation_failed'', [(''failure_reason'', ProductAnalyticsSessionFailureReason),
         (''workspace_kind'', ProductAnalyticsWorkspaceKind)]),
      (''voice_transcription_completed'', []),
      (''session_question_answered'', []),
      (''session_question_rejected'', []),
      (''session_permission_answered'', [(''decision'', ProductAnalyticsPermissionDecision)]),
      (''session_abort_succeeded'', []),
      (''session_diff_viewed'', [(''change_state'', ProductAnalyticsContentState)]),
      (''feedback_prompt_answered'', [(''answer'', ProductAnalyticsFeedbackAnswer), (''source'', ProductAnalyticsFeedbackSource)]),
      (''private_feedback_sent'', [(''input'', ProductAnalyticsFeedbackInput), (''source'', ProductAnalyticsFeedbackSource)]),
      (''onboarding_need_help_opened'', surfaceParamsSchema),
      (''onboarding_support_link_opened'', [(''surface'', ProductAnalyticsOnboardingSurface), (''channel'', ProductAnalyticsSupportChannel)]),
      (''onboarding_why_bridge_opened'', surfaceParamsSchema),
      (''bridge_install_command_copied'', installCommandParamsSchema),
      (''bridge_install_command_shared'', installCommandParamsSchema),
      (''bridge_run_command_copied'', surfaceParamsSchema),
      (''bridge_run_command_shared'', surfaceParamsSchema),
      (''product_screen_viewed'', [(''screen'', ProductAnalyticsScreen)])]"

definition commandIsTyped :: "(string \<times> string) list \<Rightarrow> bool" where
  "commandIsTyped ps \<longleftrightarrow> map_of ps ''submission_kind'' \<noteq> Some ''command'' \<or> map_of ps ''input_mode'' = Some ''typed''"

definition digit :: "char \<Rightarrow> bool" where
  "digit c = (48 \<le> (of_char c :: nat) \<and> (of_char c :: nat) \<le> 57)"

fun digit_groups :: "nat list \<Rightarrow> string \<Rightarrow> bool" where
  \<comment> \<open>groups of at least one digit, separated by dots, with the most digits each may have\<close>
  "digit_groups [] s = False"
| "digit_groups [n] s = (list_all digit s \<and> 1 \<le> length s \<and> length s \<le> n)"
| "digit_groups (n # ns) s =
     (let g = takeWhile digit s; t = dropWhile digit s in
      1 \<le> length g \<and> length g \<le> n \<and> t \<noteq> [] \<and> hd t = CHR ''.'' \<and> digit_groups ns (tl t))"

record event_body =
  eb_schemaVersion :: int
  eb_platform :: string
  eb_appVersion :: string
  eb_name :: string
  eb_occurredAtMicros :: int
  eb_params :: "(string \<times> string) list"

fun parse_params :: "params_shape \<Rightarrow> jvalue \<Rightarrow> (string \<times> string) list option" where
  "parse_params [] v = Some []"
| "parse_params ((k, allowed) # shape) v =
     (case member k v of
        Some (JStr x) \<Rightarrow> if x \<in> set allowed then map_option (Cons (k, x)) (parse_params shape v) else None
      | _ \<Rightarrow> None)"

definition strict_params :: "string \<Rightarrow> params_shape \<Rightarrow> jvalue \<Rightarrow> (string \<times> string) list option" where
  "strict_params name shape v =
     (if \<not> strict_keys (map fst shape) v then None
      else case parse_params shape v of
        None \<Rightarrow> None
      | Some ps \<Rightarrow>
          if name \<in> {''session_message_sent'', ''session_created_with_message''} \<and> \<not> commandIsTyped ps then None else Some ps)"

definition productAnalyticsEventBodySchema :: "jvalue \<Rightarrow> event_body option" where
  "productAnalyticsEventBodySchema v =
     (if \<not> strict_keys [''schemaVersion'', ''platform'', ''appVersion'', ''name'', ''occurredAtMicros'', ''params''] v then None
      else case (member ''schemaVersion'' v, member ''platform'' v, member ''appVersion'' v, member ''name'' v,
                 member ''occurredAtMicros'' v, member ''params'' v) of
        (Some (JNum sv), Some (JStr pf), Some (JStr av), Some (JStr name), Some (JNum t), Some pv) \<Rightarrow>
          (case map_of event_shapes name of
             None \<Rightarrow> None
           | Some shape \<Rightarrow>
               if sv = 1 \<and> pf \<in> set ProductAnalyticsEventPlatform \<and> digit_groups [4, 4, 6] av \<and> 0 < t \<and> t \<le> MAX_SAFE_INTEGER
               then map_option (\<lambda>ps. \<lparr>eb_schemaVersion = sv, eb_platform = pf, eb_appVersion = av, eb_name = name,
                      eb_occurredAtMicros = t, eb_params = ps\<rparr>) (strict_params name shape pv)
               else None)
      | _ \<Rightarrow> None)"

section \<open>The event store\<close>

definition event_key :: "desktop_event \<Rightarrow> string \<times> string \<times> int" where
  \<comment> \<open>the unique index\<close>
  "event_key e = (de_userKey e, de_eventName e, de_occurredAtMicros e)"

definition event_of :: "string \<Rightarrow> event_body \<Rightarrow> millis \<Rightarrow> desktop_event" where
  "event_of userKey b receivedAt =
     \<lparr>de_eventName = eb_name b, de_occurredAtMicros = eb_occurredAtMicros b, de_receivedAt = receivedAt,
      de_schemaVersion = eb_schemaVersion b, de_userKey = userKey, de_platform = eb_platform b,
      de_appVersion = eb_appVersion b, de_params = eb_params b\<rparr>"

definition insertEvent :: "string \<Rightarrow> event_body \<Rightarrow> millis \<Rightarrow> desktop_event list \<Rightarrow> desktop_event list" where
  \<comment> \<open>a duplicate key is success\<close>
  "insertEvent userKey b receivedAt c =
     (let e = event_of userKey b receivedAt in
      if \<exists>x \<in> set c. event_key x = event_key e then c else c @ [e])"

definition deleteForUserKey :: "string \<Rightarrow> desktop_event list \<Rightarrow> api_error + desktop_event list" where
  "deleteForUserKey userKey c =
     (if \<not> userKeyPattern userKey then Inl InternalServerError else Inr (filter (\<lambda>e. de_userKey e \<noteq> userKey) c))"

section \<open>Recording an event\<close>

definition MAX_EVENT_AGE_MICROS :: int where
  "MAX_EVENT_AGE_MICROS = 72 * 60 * 60 * 1000000"

definition MAX_EVENT_FUTURE_MICROS :: int where
  "MAX_EVENT_FUTURE_MICROS = 300 * 1000000"

datatype record_phase =
  ReadPreference
| InsertInto string
| Recheck string
| DeleteAgain string
| Recorded "api_error option"
| Broken "string option"
  \<comment> \<open>a database error ended it; the key if its event may be stored\<close>

record record_call =
  rc_userId :: string
  rc_body :: event_body
  rc_receivedAt :: millis
  rc_phase :: record_phase

section \<open>Suppression and handoff\<close>

datatype target_status = Pending | Processing | Completed | Retryable

record deletion_target =
  tg_requestId :: string
  tg_userKey :: string
  tg_legacyFirebaseUserId :: string
  tg_suppressedAt :: millis
  tg_status :: target_status

definition deletionRequestIdSchema :: "string \<Rightarrow> bool" where
  "deletionRequestIdSchema s \<longleftrightarrow> 8 \<le> length s \<and> length s \<le> 128 \<and> list_all key_char s"

definition findByRequestId :: "string \<Rightarrow> deletion_target list \<Rightarrow> deletion_target option" where
  "findByRequestId r c = List.find (\<lambda>t. tg_requestId t = r) c"

definition upsertTarget :: "deletion_target \<Rightarrow> deletion_target list \<Rightarrow> deletion_target list" where
  \<comment> \<open>\<open>MERGE\<close>: only inserts\<close>
  "upsertTarget t c = (if findByRequestId (tg_requestId t) c = None then c @ [t] else c)"

definition same_target :: "deletion_target \<Rightarrow> deletion_target \<Rightarrow> bool" where
  "same_target t u \<longleftrightarrow> tg_userKey t = tg_userKey u \<and> tg_legacyFirebaseUserId t = tg_legacyFirebaseUserId u \<and>
     tg_suppressedAt t = tg_suppressedAt u"

definition handoff ::
  "(deletion_target list \<Rightarrow> deletion_target list) \<Rightarrow> (deletion_target list \<Rightarrow> deletion_target list)
   \<Rightarrow> string \<Rightarrow> string \<Rightarrow> string \<Rightarrow> millis \<Rightarrow> deletion_target list \<Rightarrow> (api_error + deletion_target) \<times> deletion_target list" where
  \<comment> \<open>\<open>env1\<close> and \<open>env2\<close> are what others do before the upsert and before the last read\<close>
  "handoff env1 env2 requestId userKey legacy suppressedAt c =
     (if \<not> deletionRequestIdSchema requestId \<or> \<not> userKeyPattern userKey \<or> \<not> userKeyPattern legacy
      then (Inl InternalServerError, c)
      else
        let t = \<lparr>tg_requestId = requestId, tg_userKey = userKey, tg_legacyFirebaseUserId = legacy,
                 tg_suppressedAt = suppressedAt, tg_status = Pending\<rparr> in
        case findByRequestId requestId c of
          Some existing \<Rightarrow> (if same_target existing t then Inr existing else Inl InternalServerError, c)
        | None \<Rightarrow>
            let c' = env2 (upsertTarget t (env1 c)) in
            (case findByRequestId requestId c' of
               Some committed \<Rightarrow> if same_target committed t then Inr committed else Inl InternalServerError
             | None \<Rightarrow> Inl InternalServerError, c'))"

definition findStatus :: "string \<Rightarrow> deletion_target list \<Rightarrow> api_error + target_status option" where
  "findStatus requestId c =
     (if \<not> deletionRequestIdSchema requestId then Inl InternalServerError
      else Inr (map_option tg_status (findByRequestId requestId c)))"

datatype job_phase =
  Suppressing
| DeletingEvents string string millis
| HandingOff string string millis
| HandedOff deletion_target
| JobFailed api_error

record deletion_job =
  dj_userId :: string
  dj_requestId :: string
  dj_requestedAt :: "millis option"
  dj_phase :: job_phase

section \<open>Requests side by side\<close>

record analytics =
  an_users :: "user list"
  an_events :: "desktop_event list"
  an_targets :: "deletion_target list"
  an_calls :: "nat \<rightharpoonup> record_call"
  an_jobs :: "nat \<rightharpoonup> deletion_job"

record analytics_config =
  ac_oid :: "string \<Rightarrow> string option"
  ac_key :: "string \<Rightarrow> api_error + string"
  ac_legacy :: "string \<Rightarrow> api_error + string"

definition call_phase :: "nat \<Rightarrow> record_call \<Rightarrow> record_phase \<Rightarrow> analytics \<Rightarrow> analytics" where
  "call_phase i c p s = s\<lparr>an_calls := (an_calls s)(i \<mapsto> c\<lparr>rc_phase := p\<rparr>)\<rparr>"

definition job_phase :: "nat \<Rightarrow> deletion_job \<Rightarrow> job_phase \<Rightarrow> analytics \<Rightarrow> analytics" where
  "job_phase i j p s = s\<lparr>an_jobs := (an_jobs s)(i \<mapsto> j\<lparr>dj_phase := p\<rparr>)\<rparr>"

definition recordEvent :: "nat \<Rightarrow> string \<Rightarrow> event_body \<Rightarrow> millis \<Rightarrow> analytics \<Rightarrow> analytics" where
  \<comment> \<open>\<open>record\<close> up to its first await\<close>
  "recordEvent i userId b receivedAt s =
     (let micros = receivedAt * 1000; t = eb_occurredAtMicros b in
      call_phase i \<lparr>rc_userId = userId, rc_body = b, rc_receivedAt = receivedAt, rc_phase = ReadPreference\<rparr>
        (if t < micros - MAX_EVENT_AGE_MICROS \<or> t > micros + MAX_EVENT_FUTURE_MICROS
         then Recorded (Some BadRequestError) else ReadPreference) s)"

definition preferenceRead :: "analytics_config \<Rightarrow> nat \<Rightarrow> analytics \<Rightarrow> analytics" where
  "preferenceRead cf i s =
     (case an_calls s i of
        None \<Rightarrow> s
      | Some c \<Rightarrow>
          if rc_phase c \<noteq> ReadPreference then s
          else case getPreference (ac_oid cf) (ac_key cf) (rc_userId c) (an_users s) of
            Inl e \<Rightarrow> call_phase i c (Recorded (Some e)) s
          | Inr (r, k) \<Rightarrow> call_phase i c (if pr_preference r \<noteq> Enabled then Recorded None else InsertInto k) s)"

definition eventInserted :: "nat \<Rightarrow> analytics \<Rightarrow> analytics" where
  "eventInserted i s =
     (case an_calls s i of
        None \<Rightarrow> s
      | Some c \<Rightarrow>
          (case rc_phase c of
             InsertInto k \<Rightarrow> call_phase i c (Recheck k) (s\<lparr>an_events := insertEvent k (rc_body c) (rc_receivedAt c) (an_events s)\<rparr>)
           | _ \<Rightarrow> s))"

definition rechecked :: "analytics_config \<Rightarrow> nat \<Rightarrow> analytics \<Rightarrow> analytics" where
  "rechecked cf i s =
     (case an_calls s i of
        None \<Rightarrow> s
      | Some c \<Rightarrow>
          (case rc_phase c of
             Recheck k \<Rightarrow>
               call_phase i c (if isProductAnalyticsExportSuppressedOnPrimary (ac_oid cf) (rc_userId c) (an_users s)
                               then DeleteAgain k else Recorded None) s
           | _ \<Rightarrow> s))"

definition deletedAgain :: "nat \<Rightarrow> analytics \<Rightarrow> analytics" where
  "deletedAgain i s =
     (case an_calls s i of
        None \<Rightarrow> s
      | Some c \<Rightarrow>
          (case rc_phase c of
             DeleteAgain k \<Rightarrow>
               (case deleteForUserKey k (an_events s) of
                  Inl e \<Rightarrow> call_phase i c (Broken (Some k)) s
                | Inr c' \<Rightarrow> call_phase i c (Recorded None) (s\<lparr>an_events := c'\<rparr>))
           | _ \<Rightarrow> s))"

definition recordFails :: "nat \<Rightarrow> bool \<Rightarrow> analytics \<Rightarrow> analytics" where
  \<comment> \<open>a database error; an insert may have taken effect (\<open>committed\<close>)\<close>
  "recordFails i committed s =
     (case an_calls s i of
        None \<Rightarrow> s
      | Some c \<Rightarrow>
          (case rc_phase c of
             ReadPreference \<Rightarrow> call_phase i c (Broken None) s
           | InsertInto k \<Rightarrow>
               if committed
               then call_phase i c (Broken (Some k)) (s\<lparr>an_events := insertEvent k (rc_body c) (rc_receivedAt c) (an_events s)\<rparr>)
               else call_phase i c (Broken None) s
           | Recheck k \<Rightarrow> call_phase i c (Broken (Some k)) s
           | DeleteAgain k \<Rightarrow> call_phase i c (Broken (Some k)) s
           | _ \<Rightarrow> s))"

definition suppressAndHandoff :: "nat \<Rightarrow> string \<Rightarrow> string \<Rightarrow> millis option \<Rightarrow> analytics \<Rightarrow> analytics" where
  \<comment> \<open>up to its first await\<close>
  "suppressAndHandoff i userId requestId requestedAt s =
     job_phase i \<lparr>dj_userId = userId, dj_requestId = requestId, dj_requestedAt = requestedAt, dj_phase = Suppressing\<rparr>
       (if \<not> deletionRequestIdSchema requestId \<or> requestedAt = None then JobFailed InternalServerError else Suppressing) s"

definition suppressed ::
  "analytics_config \<Rightarrow> (user list \<Rightarrow> user list) \<Rightarrow> (user list \<Rightarrow> user list) \<Rightarrow> nat \<Rightarrow> analytics \<Rightarrow> analytics" where
  \<comment> \<open>\<open>suppressExport\<close>; \<open>env1\<close> and \<open>env2\<close> are what others do to the users between its awaits\<close>
  "suppressed cf env1 env2 i s =
     (case an_jobs s i of
        None \<Rightarrow> s
      | Some j \<Rightarrow>
          (case dj_phase j of
             Suppressing \<Rightarrow>
               (case suppressExport (ac_oid cf) (ac_key cf) (ac_legacy cf) env1 env2 (dj_userId j) (dj_requestedAt j) (an_users s) of
                  (Inl e, us) \<Rightarrow> job_phase i j (JobFailed e) (s\<lparr>an_users := us\<rparr>)
                | (Inr ((r, at), k, l), us) \<Rightarrow> job_phase i j (DeletingEvents k l at) (s\<lparr>an_users := us\<rparr>))
           | _ \<Rightarrow> s))"

definition eventsDeleted :: "nat \<Rightarrow> analytics \<Rightarrow> analytics" where
  "eventsDeleted i s =
     (case an_jobs s i of
        None \<Rightarrow> s
      | Some j \<Rightarrow>
          (case dj_phase j of
             DeletingEvents k l at \<Rightarrow>
               (case deleteForUserKey k (an_events s) of
                  Inl e \<Rightarrow> job_phase i j (JobFailed e) s
                | Inr c \<Rightarrow> job_phase i j (HandingOff k l at) (s\<lparr>an_events := c\<rparr>))
           | _ \<Rightarrow> s))"

definition handedOff ::
  "(deletion_target list \<Rightarrow> deletion_target list) \<Rightarrow> (deletion_target list \<Rightarrow> deletion_target list) \<Rightarrow> nat \<Rightarrow> analytics \<Rightarrow> analytics" where
  "handedOff env1 env2 i s =
     (case an_jobs s i of
        None \<Rightarrow> s
      | Some j \<Rightarrow>
          (case dj_phase j of
             HandingOff k l at \<Rightarrow>
               (case handoff env1 env2 (dj_requestId j) k l at (an_targets s) of
                  (r, ts) \<Rightarrow> job_phase i j (case r of Inl e \<Rightarrow> JobFailed e | Inr t \<Rightarrow> HandedOff t) (s\<lparr>an_targets := ts\<rparr>))
           | _ \<Rightarrow> s))"

end
