(* ===== verification/AnalyticsEventsProps.thy ===== *)
theory AnalyticsEventsProps
  imports AnalyticsEvents UserProps
begin

text \<open>
  No event of a suppressed account outlives its suppression, whatever requests run
  beside it; a handoff is idempotent; and the wire schema only lets through
  parameters of closed enums that each have a column of the warehouse.
\<close>

section \<open>Steps\<close>

inductive analytics_step :: "analytics_config \<Rightarrow> analytics \<Rightarrow> analytics \<Rightarrow> bool" for cf where
  users: "user_step (ac_oid cf) (an_users s) us \<Longrightarrow> analytics_step cf s (s\<lparr>an_users := us\<rparr>)"
| expired: "analytics_step cf s (s\<lparr>an_events := filter p (an_events s)\<rparr>)"
| begun: "an_calls s i = None \<Longrightarrow> analytics_step cf s (recordEvent i userId b receivedAt s)"
| read: "analytics_step cf s (preferenceRead cf i s)"
| inserted: "analytics_step cf s (eventInserted i s)"
| recheck: "analytics_step cf s (rechecked cf i s)"
| deleted: "analytics_step cf s (deletedAgain i s)"
| fails: "analytics_step cf s (recordFails i committed s)"
| suppress: "an_jobs s i = None \<Longrightarrow> analytics_step cf s (suppressAndHandoff i userId requestId requestedAt s)"
| suppressed: "(\<And>c. (user_step (ac_oid cf))\<^sup>*\<^sup>* c (env1 c)) \<Longrightarrow> (\<And>c. (user_step (ac_oid cf))\<^sup>*\<^sup>* c (env2 c)) \<Longrightarrow>
    analytics_step cf s (suppressed cf env1 env2 i s)"
| purged: "analytics_step cf s (eventsDeleted i s)"
| handed: "analytics_step cf s (handedOff env1 env2 i s)"

definition new_analytics :: "user list \<Rightarrow> analytics" where
  "new_analytics us = \<lparr>an_users = us, an_events = [], an_targets = [], an_calls = Map.empty, an_jobs = Map.empty\<rparr>"

section \<open>The invariant\<close>

fun key_of_call :: "record_phase \<Rightarrow> string option" where
  "key_of_call (InsertInto k) = Some k"
| "key_of_call (Recheck k) = Some k"
| "key_of_call (DeleteAgain k) = Some k"
| "key_of_call (Broken k) = k"
| "key_of_call _ = None"

fun stored_by :: "record_phase \<Rightarrow> string option" where
  \<comment> \<open>the key of an event that the call has inserted and not yet settled\<close>
  "stored_by (Recheck k) = Some k"
| "stored_by (DeleteAgain k) = Some k"
| "stored_by (Broken k) = k"
| "stored_by _ = None"

fun key_of_job :: "job_phase \<Rightarrow> string option" where
  "key_of_job (DeletingEvents k l at) = Some k"
| "key_of_job (HandingOff k l at) = Some k"
| "key_of_job (HandedOff t) = Some (tg_userKey t)"
| "key_of_job _ = None"

fun purged_by :: "job_phase \<Rightarrow> string option" where
  \<comment> \<open>the key whose events the job has deleted\<close>
  "purged_by (HandingOff k l at) = Some k"
| "purged_by (HandedOff t) = Some (tg_userKey t)"
| "purged_by _ = None"

lemma stored_key: "stored_by p = Some k \<Longrightarrow> key_of_call p = Some k"
  by (cases p) auto

lemma purged_key: "purged_by p = Some k \<Longrightarrow> key_of_job p = Some k"
  by (cases p) auto

definition awaits_cleanup :: "string \<Rightarrow> analytics \<Rightarrow> bool" where
  \<comment> \<open>a recording between its insert and its end, or one that broke there\<close>
  "awaits_cleanup k s \<longleftrightarrow> (\<exists>i c. an_calls s i = Some c \<and> stored_by (rc_phase c) = Some k)"

definition holds_events :: "string \<Rightarrow> analytics \<Rightarrow> bool" where
  "holds_events k s \<longleftrightarrow> (\<exists>e \<in> set (an_events s). de_userKey e = k)"

definition call_ok :: "analytics_config \<Rightarrow> record_call \<Rightarrow> bool" where
  "call_ok cf c \<longleftrightarrow> (\<forall>k. key_of_call (rc_phase c) = Some k \<longrightarrow>
     ac_key cf (rc_userId c) = Inr k \<and> ac_oid cf (rc_userId c) \<noteq> None)"

definition job_ok :: "analytics_config \<Rightarrow> analytics \<Rightarrow> deletion_job \<Rightarrow> bool" where
  "job_ok cf s j \<longleftrightarrow> (\<forall>k. key_of_job (dj_phase j) = Some k \<longrightarrow> ac_key cf (dj_userId j) = Inr k \<and>
     (\<exists>u. ac_oid cf (dj_userId j) = Some u \<and> suppressed_since u (an_users s) \<noteq> None)) \<and>
     (\<forall>k. purged_by (dj_phase j) = Some k \<longrightarrow> holds_events k s \<longrightarrow> awaits_cleanup k s)"

definition analytics_ok :: "analytics_config \<Rightarrow> analytics \<Rightarrow> bool" where
  "analytics_ok cf s \<longleftrightarrow> distinct (map u_id (an_users s)) \<and> (\<forall>i c. an_calls s i = Some c \<longrightarrow> call_ok cf c) \<and>
     (\<forall>i j. an_jobs s i = Some j \<longrightarrow> job_ok cf s j)"

definition one_key_each :: "analytics_config \<Rightarrow> bool" where
  \<comment> \<open>the keyed hash does not collide: two ids with one key are spellings of one account\<close>
  "one_key_each cf \<longleftrightarrow> (\<forall>u v i j k. ac_oid cf u = Some i \<longrightarrow> ac_oid cf v = Some j \<longrightarrow>
     ac_key cf u = Inr k \<longrightarrow> ac_key cf v = Inr k \<longrightarrow> i = j)"

lemma event_frames [simp]:
  "holds_events k (s\<lparr>an_targets := ts\<rparr>) = holds_events k s" "awaits_cleanup k (s\<lparr>an_targets := ts\<rparr>) = awaits_cleanup k s"
  "awaits_cleanup k (s\<lparr>an_events := es\<rparr>) = awaits_cleanup k s"
  by (simp_all add: holds_events_def awaits_cleanup_def)

lemma job_ok_mono:
  assumes "job_ok cf s j" and "\<And>u. suppressed_since u (an_users s) \<noteq> None \<Longrightarrow> suppressed_since u (an_users t) \<noteq> None"
    and "\<And>k. purged_by (dj_phase j) = Some k \<Longrightarrow> holds_events k t \<Longrightarrow> holds_events k s \<and> awaits_cleanup k s \<longrightarrow> awaits_cleanup k t"
    and "\<And>k. purged_by (dj_phase j) = Some k \<Longrightarrow> holds_events k t \<Longrightarrow> \<not> holds_events k s \<Longrightarrow> awaits_cleanup k t"
  shows "job_ok cf t j"
  using assms unfolding job_ok_def by blast

lemma users_moved:
  assumes "(user_step (ac_oid cf))\<^sup>*\<^sup>* (an_users s) us" and "analytics_ok cf s"
  shows "analytics_ok cf (s\<lparr>an_users := us\<rparr>)"
proof -
  have "suppressed_since u us \<noteq> None" if "suppressed_since u (an_users s) \<noteq> None" for u
    using that tombstone.keeps_many [OF assms(1)] by blast
  moreover have "distinct (map u_id us)"
    using user_steps_distinct [OF assms(1)] assms(2) by (simp add: analytics_ok_def)
  ultimately show ?thesis
    using assms(2) unfolding analytics_ok_def
    by (auto simp: holds_events_def awaits_cleanup_def intro: job_ok_mono [where s = s])
qed

lemma call_moved:
  assumes ok: "analytics_ok cf s" and c: "call_ok cf (c\<lparr>rc_phase := p\<rparr>)" and i: "an_calls s i = Some c \<or> an_calls s i = None"
    and n: "\<And>k. holds_events k (s\<lparr>an_events := es\<rparr>) \<Longrightarrow> holds_events k s \<or> stored_by p = Some k"
    and x: "\<And>k j l. an_calls s i = Some c \<Longrightarrow> stored_by (rc_phase c) = Some k \<Longrightarrow> stored_by p \<noteq> Some k \<Longrightarrow>
      an_jobs s l = Some j \<Longrightarrow> purged_by (dj_phase j) = Some k \<Longrightarrow> \<not> holds_events k (s\<lparr>an_events := es\<rparr>)"
  shows "analytics_ok cf (call_phase i c p (s\<lparr>an_events := es\<rparr>))"
proof -
  let ?t = "call_phase i c p (s\<lparr>an_events := es\<rparr>)"
  have h: "holds_events k ?t = holds_events k (s\<lparr>an_events := es\<rparr>)" for k by (simp add: holds_events_def call_phase_def)
  have new: "awaits_cleanup k ?t" if "stored_by p = Some k" for k
    using that by (auto simp: awaits_cleanup_def call_phase_def intro!: exI [of _ i])
  have keep: "awaits_cleanup k ?t" if a: "awaits_cleanup k s" and b: "\<not> (an_calls s i = Some c \<and> stored_by (rc_phase c) = Some k \<and> stored_by p \<noteq> Some k)" for k
  proof -
    obtain l d where l: "an_calls s l = Some d" "stored_by (rc_phase d) = Some k" using a unfolding awaits_cleanup_def by blast
    show ?thesis
    proof (cases "l = i")
      case True
      then show ?thesis using b l i new by auto
    next
      case False
      then show ?thesis using l by (auto simp: awaits_cleanup_def call_phase_def intro!: exI [of _ l])
    qed
  qed
  have "job_ok cf ?t j" if j: "an_jobs s l = Some j" for l j
  proof -
    have "awaits_cleanup k ?t" if k: "purged_by (dj_phase j) = Some k" "holds_events k ?t" for k
    proof (cases "stored_by p = Some k")
      case False
      then have "holds_events k s" using n k(2) h by blast
      then have a: "awaits_cleanup k s" using ok j k(1) by (auto simp: analytics_ok_def job_ok_def)
      then show ?thesis using keep x [OF _ _ False j k(1)] k(2) h by blast
    qed (rule new)
    then show ?thesis using ok j by (auto simp: analytics_ok_def job_ok_def call_phase_def)
  qed
  moreover have "call_ok cf d" if "an_calls ?t l = Some d" for l d
    using that c ok by (auto simp: call_phase_def analytics_ok_def split: if_splits)
  ultimately show ?thesis using ok by (simp add: analytics_ok_def call_phase_def)
qed

lemma call_moved_only:
  assumes "analytics_ok cf s" and "call_ok cf (c\<lparr>rc_phase := p\<rparr>)" and "an_calls s i = Some c \<or> an_calls s i = None"
    and "\<And>k j l. an_calls s i = Some c \<Longrightarrow> stored_by (rc_phase c) = Some k \<Longrightarrow> stored_by p \<noteq> Some k \<Longrightarrow>
      an_jobs s l = Some j \<Longrightarrow> purged_by (dj_phase j) = Some k \<Longrightarrow> \<not> holds_events k s"
  shows "analytics_ok cf (call_phase i c p s)"
  using call_moved [where es = "an_events s" and s = s, OF assms(1-3)] assms(4) by simp

lemma record_ok: "an_calls s i = None \<Longrightarrow> analytics_ok cf s \<Longrightarrow> analytics_ok cf (recordEvent i userId b receivedAt s)"
  unfolding recordEvent_def Let_def
  by (rule call_moved_only [where s = s]) (auto simp: call_ok_def)

lemma read_ok: "analytics_ok cf s \<Longrightarrow> analytics_ok cf (preferenceRead cf i s)"
proof -
  assume ok: "analytics_ok cf s"
  have step: "analytics_ok cf (call_phase i c p s)"
    if c: "an_calls s i = Some c" "rc_phase c = ReadPreference" and p: "stored_by p = None"
      and k: "\<And>k. key_of_call p = Some k \<Longrightarrow> ac_key cf (rc_userId c) = Inr k \<and> ac_oid cf (rc_userId c) \<noteq> None" for c p
    by (rule call_moved_only [where s = s, OF ok]) (use c p k in \<open>auto simp: call_ok_def\<close>)
  show ?thesis
  proof (cases "an_calls s i")
    case (Some c)
    show ?thesis
    proof (cases "rc_phase c = ReadPreference")
      case True
      show ?thesis
      proof (cases "getPreference (ac_oid cf) (ac_key cf) (rc_userId c) (an_users s)")
        case (Inl e)
        then show ?thesis using step [OF Some True, of "Recorded (Some e)"] by (simp add: preferenceRead_def Some True)
      next
        case (Inr x)
        obtain r k where x: "x = (r, k)" by (cases x)
        have "ac_key cf (rc_userId c) = Inr k \<and> ac_oid cf (rc_userId c) \<noteq> None"
          using Inr x by (cases "ac_key cf (rc_userId c)")
            (auto simp: getPreference_def findProductAnalyticsPreference_def findById_def split: sum.splits option.splits)
        then show ?thesis
          using step [OF Some True, of "Recorded None"] step [OF Some True, of "InsertInto k"] Inr x
          by (simp add: preferenceRead_def Some True)
      qed
    qed (simp add: preferenceRead_def Some ok)
  qed (simp add: preferenceRead_def ok)
qed

lemma insert_holds: "holds_events k (s\<lparr>an_events := insertEvent k' b t (an_events s)\<rparr>) \<Longrightarrow> holds_events k s \<or> k = k'"
  by (auto simp: holds_events_def insertEvent_def event_of_def Let_def split: if_splits)

lemma inserted_ok:
  assumes "analytics_ok cf s" and "an_calls s i = Some c" and "rc_phase c = InsertInto k" and "p \<in> {Recheck k, Broken (Some k)}"
  shows "analytics_ok cf (call_phase i c p (s\<lparr>an_events := insertEvent k (rc_body c) (rc_receivedAt c) (an_events s)\<rparr>))"
proof (rule call_moved [OF assms(1)])
  have "call_ok cf c" using assms(1,2) by (simp add: analytics_ok_def)
  then show "call_ok cf (c\<lparr>rc_phase := p\<rparr>)" using assms(3,4) by (auto simp: call_ok_def)
  show "\<And>k'. holds_events k' (s\<lparr>an_events := insertEvent k (rc_body c) (rc_receivedAt c) (an_events s)\<rparr>) \<Longrightarrow>
      holds_events k' s \<or> stored_by p = Some k'"
    using insert_holds assms(4) by fastforce
qed (use assms(2,3) in auto)

lemma eventInserted_ok: "analytics_ok cf s \<Longrightarrow> analytics_ok cf (eventInserted i s)"
  by (auto simp: eventInserted_def split: option.split record_phase.split intro: inserted_ok)

lemma stays_ok:
  assumes "analytics_ok cf s" and "an_calls s i = Some c" and "key_of_call p = None \<or> key_of_call p = key_of_call (rc_phase c)"
    and "stored_by (rc_phase c) = None \<or> stored_by p = stored_by (rc_phase c)"
  shows "analytics_ok cf (call_phase i c p s)"
proof (rule call_moved_only [OF assms(1)])
  have "call_ok cf c" using assms(1,2) by (simp add: analytics_ok_def)
  then show "call_ok cf (c\<lparr>rc_phase := p\<rparr>)" using assms(3) by (auto simp: call_ok_def)
qed (use assms(2,4) in auto)

lemma fails_ok: "analytics_ok cf s \<Longrightarrow> analytics_ok cf (recordFails i committed s)"
  by (auto simp: recordFails_def split: option.split record_phase.split intro: inserted_ok stays_ok)

lemma suppressed_read:
  "ac_oid cf u = Some i \<Longrightarrow> suppressed_since i us \<noteq> None \<Longrightarrow>
   isProductAnalyticsExportSuppressedOnPrimary (ac_oid cf) u us"
  by (auto simp: suppressed_since_def isProductAnalyticsExportSuppressedOnPrimary_def findById_def user_of_def bind_eq_Some_conv val_Some)

lemma job_key:
  assumes "analytics_ok cf s" and "an_jobs s l = Some j" and "purged_by (dj_phase j) = Some k"
  obtains i where "ac_key cf (dj_userId j) = Inr k" and "ac_oid cf (dj_userId j) = Some i" and "suppressed_since i (an_users s) \<noteq> None"
  using assms purged_key unfolding analytics_ok_def job_ok_def by metis

lemma recheck_ok:
  assumes keys: "one_key_each cf" and ok: "analytics_ok cf s"
  shows "analytics_ok cf (rechecked cf i s)"
proof (cases "\<exists>c k. an_calls s i = Some c \<and> rc_phase c = Recheck k")
  case True
  then obtain c k where c: "an_calls s i = Some c" "rc_phase c = Recheck k" by blast
  have co: "call_ok cf c" using ok c(1) by (simp add: analytics_ok_def)
  show ?thesis
  proof (cases "isProductAnalyticsExportSuppressedOnPrimary (ac_oid cf) (rc_userId c) (an_users s)")
    case True
    then show ?thesis using stays_ok [OF ok c(1), of "DeleteAgain k"] c by (simp add: rechecked_def)
  next
    case False
    have "analytics_ok cf (call_phase i c (Recorded None) s)"
    proof (rule call_moved_only [OF ok])
      fix k' j l assume k': "stored_by (rc_phase c) = Some k'" and j: "an_jobs s l = Some j" "purged_by (dj_phase j) = Some k'"
      obtain u where u: "ac_key cf (dj_userId j) = Inr k'" "ac_oid cf (dj_userId j) = Some u" "suppressed_since u (an_users s) \<noteq> None"
        using job_key [OF ok j] .
      obtain v where v: "ac_key cf (rc_userId c) = Inr k'" "ac_oid cf (rc_userId c) = Some v"
        using co k' stored_key by (auto simp: call_ok_def)
      have "u = v" using keys u v unfolding one_key_each_def by blast
      then show "\<not> holds_events k' s" using False suppressed_read v(2) u(3) by blast
    qed (use c in \<open>auto simp: call_ok_def\<close>)
    then show ?thesis using False c by (simp add: rechecked_def)
  qed
next
  case False
  then show ?thesis using ok by (auto simp: rechecked_def split: option.split record_phase.split)
qed

lemma deleted_events: "deleteForUserKey k c = Inr c' \<Longrightarrow> c' = filter (\<lambda>e. de_userKey e \<noteq> k) c"
  by (simp add: deleteForUserKey_def split: if_splits)

lemma deletedAgain_ok: "analytics_ok cf s \<Longrightarrow> analytics_ok cf (deletedAgain i s)"
proof -
  assume ok: "analytics_ok cf s"
  have "analytics_ok cf (call_phase i c (Recorded None) (s\<lparr>an_events := filter (\<lambda>e. de_userKey e \<noteq> k) (an_events s)\<rparr>))"
    if "an_calls s i = Some c" "rc_phase c = DeleteAgain k" for c k
    by (rule call_moved [OF ok]) (use that in \<open>auto simp: call_ok_def holds_events_def\<close>)
  moreover have "analytics_ok cf (call_phase i c (Broken (Some k)) s)" if "an_calls s i = Some c" "rc_phase c = DeleteAgain k" for c k
    by (rule stays_ok [OF ok that(1)]) (use that in auto)
  ultimately show ?thesis
    using ok by (auto simp: deletedAgain_def dest: deleted_events split: option.split record_phase.split sum.split)
qed

section \<open>Suppression jobs\<close>

lemma job_moved:
  assumes ok: "analytics_ok cf s" and j: "job_ok cf s (j\<lparr>dj_phase := p\<rparr>)"
  shows "analytics_ok cf (job_phase i j p s)"
proof -
  have "job_ok cf (job_phase i j p s) d" if "job_ok cf s d" for d
    using that by (simp add: job_ok_def job_phase_def holds_events_def awaits_cleanup_def)
  then show ?thesis using assms by (simp add: analytics_ok_def) (simp add: job_phase_def)
qed

lemma suppress_moves:
  assumes "\<And>c. (user_step oid)\<^sup>*\<^sup>* c (env1 c)" and "\<And>c. (user_step oid)\<^sup>*\<^sup>* c (env2 c)"
  shows "(user_step oid)\<^sup>*\<^sup>* c (snd (suppressProductAnalyticsExport oid env1 env2 userId at c))"
proof -
  have u: "(user_step oid)\<^sup>*\<^sup>* c (updateFirst (\<lambda>d. u_id d = i \<and> is_null (u_exportSuppressedAt d)) (suppression_update t) (env1 c))" for i t
    using assms(1) [of c] user_step.suppress by (rule rtranclp.rtrancl_into_rtrancl)
  have v: "(user_step oid)\<^sup>*\<^sup>* c (env2 (env1 c))" using assms by (rule rtranclp_trans)
  show ?thesis
    using u v by (auto simp: suppressProductAnalyticsExport_def findOneAndUpdate_def Let_def split: option.split sum.split)
qed

lemma suppressed_ok:
  assumes ok: "analytics_ok cf s"
    and e: "\<And>c. (user_step (ac_oid cf))\<^sup>*\<^sup>* c (env1 c)" "\<And>c. (user_step (ac_oid cf))\<^sup>*\<^sup>* c (env2 c)"
  shows "analytics_ok cf (suppressed cf env1 env2 i s)"
proof (cases "\<exists>j. an_jobs s i = Some j \<and> dj_phase j = Suppressing")
  case True
  then obtain j where j: "an_jobs s i = Some j" "dj_phase j = Suppressing" by blast
  let ?r = "suppressProductAnalyticsExport (ac_oid cf) env1 env2 (dj_userId j) (dj_requestedAt j) (an_users s)"
  have ok': "analytics_ok cf (s\<lparr>an_users := snd ?r\<rparr>)" by (rule users_moved [OF suppress_moves [OF e] ok])
  have d: "distinct (map u_id (env1 (an_users s)))" using user_steps_distinct [OF e(1)] ok by (simp add: analytics_ok_def)
  have fails: "analytics_ok cf (job_phase i j (JobFailed x) (s\<lparr>an_users := snd ?r\<rparr>))" for x
    by (rule job_moved [OF ok']) (simp add: job_ok_def)
  have goes_on: "analytics_ok cf (job_phase i j (DeletingEvents k l at) (s\<lparr>an_users := snd ?r\<rparr>))"
    if r: "fst ?r = Inr (Some (pr, at))" and k: "ac_key cf (dj_userId j) = Inr k" for k l at pr
  proof (rule job_moved [OF ok'])
    obtain t where t: "dj_requestedAt j = Some t"
      using r by (cases "dj_requestedAt j") (auto simp: suppressProductAnalyticsExport_def split: option.splits)
    have "suppressProductAnalyticsExport (ac_oid cf) env1 env2 (dj_userId j) (Some t) (an_users s) = (Inr (Some (pr, at)), snd ?r)"
      using r t by (simp add: prod_eq_iff)
    from suppress_result [OF this d] obtain u d
      where "ac_oid cf (dj_userId j) = Some u" "user_of u (snd ?r) = Some d" "u_exportSuppressedAt d = Val at"
      by metis
    then show "job_ok cf (s\<lparr>an_users := snd ?r\<rparr>) (j\<lparr>dj_phase := DeletingEvents k l at\<rparr>)"
      using k by (auto simp: job_ok_def suppressed_since_def)
  qed
  show ?thesis
  proof (cases ?r)
    case (Pair a us)
    then show ?thesis
      using fails goes_on j
      by (cases "ac_legacy cf (dj_userId j)") (auto simp: suppressed_def suppressExport_def split: sum.split option.split prod.split)
  qed
next
  case False
  then show ?thesis using ok by (auto simp: suppressed_def split: option.split job_phase.split)
qed


lemma purged_ok: "analytics_ok cf s \<Longrightarrow> analytics_ok cf (eventsDeleted i s)"
proof -
  assume ok: "analytics_ok cf s"
  have gone: "analytics_ok cf (job_phase i j (HandingOff k l at) (s\<lparr>an_events := filter (\<lambda>e. de_userKey e \<noteq> k) (an_events s)\<rparr>))"
    if j: "an_jobs s i = Some j" "dj_phase j = DeletingEvents k l at" for j k l at
  proof (rule job_moved)
    let ?t = "s\<lparr>an_events := filter (\<lambda>e. de_userKey e \<noteq> k) (an_events s)\<rparr>"
    have "job_ok cf ?t d" if "job_ok cf s d" for d
      using that by (auto simp: job_ok_def holds_events_def awaits_cleanup_def)
    then show "analytics_ok cf ?t" using ok by (simp add: analytics_ok_def)
    have "job_ok cf s j" using ok j(1) by (simp add: analytics_ok_def)
    then show "job_ok cf ?t (j\<lparr>dj_phase := HandingOff k l at\<rparr>)" using j(2) by (simp add: job_ok_def holds_events_def)
  qed
  have "analytics_ok cf (job_phase i j (JobFailed e) s)" for j e
    by (rule job_moved [OF ok]) (simp add: job_ok_def)
  then show ?thesis
    using ok gone by (auto simp: eventsDeleted_def dest: deleted_events split: option.split job_phase.split sum.split)
qed

lemma handoff_key: "handoff env1 env2 r k l at c = (Inr t, c') \<Longrightarrow> tg_userKey t = k \<and> tg_suppressedAt t = at"
  by (auto simp: handoff_def same_target_def Let_def split: option.splits if_splits)

lemma handed_ok: "analytics_ok cf s \<Longrightarrow> analytics_ok cf (handedOff env1 env2 i s)"
proof -
  assume ok: "analytics_ok cf s"
  have t: "analytics_ok cf (s\<lparr>an_targets := ts\<rparr>)" for ts
    using ok by (simp add: analytics_ok_def job_ok_def holds_events_def awaits_cleanup_def)
  have "analytics_ok cf (job_phase i j p (s\<lparr>an_targets := ts\<rparr>))"
    if j: "an_jobs s i = Some j" "dj_phase j = HandingOff k l at" and p: "p = JobFailed e \<or> p = HandedOff tg \<and> tg_userKey tg = k"
    for j k l at p e tg ts
  proof (rule job_moved [OF t])
    have "job_ok cf s j" using ok j(1) by (simp add: analytics_ok_def)
    then show "job_ok cf (s\<lparr>an_targets := ts\<rparr>) (j\<lparr>dj_phase := p\<rparr>)"
      using j(2) p by (auto simp: job_ok_def)
  qed
  then show ?thesis
    using ok by (auto simp: handedOff_def dest: handoff_key split: option.split job_phase.split sum.split prod.split)
qed

lemma suppressAndHandoff_ok: "analytics_ok cf s \<Longrightarrow> analytics_ok cf (suppressAndHandoff i userId requestId requestedAt s)"
  unfolding suppressAndHandoff_def by (rule job_moved) (auto simp: job_ok_def)

lemma expired_ok: "analytics_ok cf s \<Longrightarrow> analytics_ok cf (s\<lparr>an_events := filter p (an_events s)\<rparr>)"
proof -
  have "holds_events k (s\<lparr>an_events := filter p (an_events s)\<rparr>) \<Longrightarrow> holds_events k s" for k
    by (auto simp: holds_events_def)
  then show "analytics_ok cf s \<Longrightarrow> analytics_ok cf (s\<lparr>an_events := filter p (an_events s)\<rparr>)"
    unfolding analytics_ok_def job_ok_def by simp
qed

lemma analytics_step_ok: "analytics_step cf s t \<Longrightarrow> one_key_each cf \<Longrightarrow> analytics_ok cf s \<Longrightarrow> analytics_ok cf t"
proof (induction rule: analytics_step.induct)
  case (users s us)
  then show ?case by (blast intro: users_moved r_into_rtranclp)
qed (simp_all add: expired_ok record_ok read_ok eventInserted_ok recheck_ok deletedAgain_ok fails_ok suppressAndHandoff_ok
      suppressed_ok purged_ok handed_ok)

lemma analytics_steps_ok:
  assumes "(analytics_step cf)\<^sup>*\<^sup>* (new_analytics us) s" and "one_key_each cf" and "distinct (map u_id us)"
  shows "analytics_ok cf s"
  using assms(1)
proof (induction rule: rtranclp_induct)
  case base
  then show ?case using assms(3) by (simp add: analytics_ok_def new_analytics_def)
qed (use assms(2) in \<open>blast intro: analytics_step_ok\<close>)

text \<open>C31: No event outlives the suppression of its account: however recordings, suppressions, preference
  changes and account changes interleave, once a suppression has deleted the account's events, every
  read of the account on the primary says suppressed, and an event with its key is stored only while
  a recording that inserted it has still to check and delete again, or if a database error broke that
  recording.\<close>
theorem suppressed_events_do_not_survive:
  assumes "(analytics_step cf)\<^sup>*\<^sup>* (new_analytics us) s" and "one_key_each cf" and "distinct (map u_id us)"
    and "an_jobs s l = Some j" and "purged_by (dj_phase j) = Some k"
  shows "isProductAnalyticsExportSuppressedOnPrimary (ac_oid cf) (dj_userId j) (an_users s) \<and>
    (holds_events k s \<longrightarrow> awaits_cleanup k s)"
proof -
  have ok: "analytics_ok cf s" by (rule analytics_steps_ok [OF assms(1-3)])
  obtain i where i: "ac_oid cf (dj_userId j) = Some i" "suppressed_since i (an_users s) \<noteq> None"
    using job_key [OF ok assms(4,5)] by metis
  have "job_ok cf s j" using ok assms(4) by (simp add: analytics_ok_def)
  then show ?thesis using suppressed_read [OF i] assms(5) by (simp add: job_ok_def)
qed

section \<open>The handoff\<close>

lemma handoff_idempotent:
  assumes "handoff env1 env2 r k l at c = (Inr t, c')" and "\<And>c. findByRequestId r c = Some t \<Longrightarrow> findByRequestId r (f c) = Some t"
    and "findByRequestId r c' = Some t"
  shows "handoff env1' env2' r k l at (f c') = (Inr t, f c')"
proof -
  have v: "deletionRequestIdSchema r \<and> userKeyPattern k \<and> userKeyPattern l"
    and s: "same_target t \<lparr>tg_requestId = r, tg_userKey = k, tg_legacyFirebaseUserId = l, tg_suppressedAt = at, tg_status = Pending\<rparr>"
    using assms(1) by (auto simp: handoff_def Let_def split: option.splits if_splits)
  show ?thesis using v s assms(2) [OF assms(3)] by (simp add: handoff_def Let_def)
qed

section \<open>The closed schema and the columns\<close>

definition shape_fits :: "params_shape \<Rightarrow> bool" where
  "shape_fits shape \<longleftrightarrow> distinct (map (column_of \<circ> fst) shape) \<and> list_all (\<lambda>p. column_of (fst p) \<in> set desktopEventParamColumns) shape"

lemma all_shapes_fit: "list_all (\<lambda>x. shape_fits (snd x)) event_shapes"
  by code_simp

lemma parse_params_keys: "parse_params shape v = Some ps \<Longrightarrow> map fst ps = map fst shape \<and>
    (\<forall>(k, x) \<in> set ps. \<exists>allowed. (k, allowed) \<in> set shape \<and> x \<in> set allowed)"
proof (induction shape arbitrary: ps)
  case (Cons p shape)
  obtain k allowed where p: "p = (k, allowed)" by (cases p)
  from Cons.prems obtain x qs where x: "x \<in> set allowed" "parse_params shape v = Some qs" "ps = (k, x) # qs"
    by (auto simp: p split: option.splits jvalue.splits if_splits)
  then show ?case using Cons.IH [OF x(2)] p by fastforce
qed simp

lemma map_fst_apfst: "map fst (map (apfst f) ps) = map f (map fst ps)"
  by (induction ps) auto

lemma parsed_body:
  assumes "productAnalyticsEventBodySchema v = Some b"
  obtains shape pv where "map_of event_shapes (eb_name b) = Some shape" and "parse_params shape pv = Some (eb_params b)"
proof -
  from assms obtain name pv shape ps where
    "map_of event_shapes name = Some shape" "strict_params name shape pv = Some ps" "eb_name b = name" "eb_params b = ps"
    by (auto simp: productAnalyticsEventBodySchema_def split: option.splits jvalue.splits if_splits)
  moreover from this(2) have "parse_params shape pv = Some ps"
    by (auto simp: strict_params_def split: option.splits if_splits)
  ultimately show ?thesis by (intro that) auto
qed

lemma zip_map_same: "(c, y) \<in> set (zip cs (map f cs)) \<longleftrightarrow> c \<in> set cs \<and> y = f c"
  by (induction cs) auto

text \<open>C32: The wire schema is the privacy boundary and nothing accepted is lost behind it: every parameter
  of an accepted event carries a value of the closed enum its event declares, and the exported row
  holds each parameter in the column of its own, and no other column is filled.\<close>
theorem accepted_params_reach_their_columns:
  assumes "productAnalyticsEventBodySchema v = Some b"
  shows "(\<forall>(p, x) \<in> set (eb_params b). \<exists>shape allowed. map_of event_shapes (eb_name b) = Some shape \<and> (p, allowed) \<in> set shape \<and> x \<in> set allowed) \<and>
    {(c, x). (c, Some x) \<in> set (zip desktopEventParamColumns (dr_columns (desktop_row_of (event_of k b t))))} = apfst column_of ` set (eb_params b)"
proof -
  obtain shape pv where s: "map_of event_shapes (eb_name b) = Some shape" "parse_params shape pv = Some (eb_params b)"
    using parsed_body [OF assms] .
  note keys = parse_params_keys [OF s(2)]
  have "(eb_name b, shape) \<in> set event_shapes" using s(1) by (rule map_of_SomeD)
  then have fits: "shape_fits shape" using all_shapes_fit by (force simp: list_all_iff)
  let ?m = "map (apfst column_of) (eb_params b)"
  have fst: "map fst ?m = map column_of (map fst shape)" using keys map_fst_apfst [of column_of "eb_params b"] by simp
  have dist: "distinct (map fst ?m)" unfolding fst using fits by (simp add: shape_fits_def comp_def)
  have sub: "set (map fst ?m) \<subseteq> set desktopEventParamColumns" unfolding fst using fits by (auto simp: shape_fits_def list_all_iff)
  have at: "map_of (rev ?m) c = Some x \<longleftrightarrow> (c, x) \<in> set ?m" for c x
    using dist by (metis distinct_rev map_of_eq_Some_iff rev_map set_rev)
  have cols: "dr_columns (desktop_row_of (event_of k b t)) = map (map_of (rev ?m)) desktopEventParamColumns"
    by (simp add: desktop_row_of_def event_of_def)
  have "(c, Some x) \<in> set (zip desktopEventParamColumns (map (map_of (rev ?m)) desktopEventParamColumns)) \<longleftrightarrow> (c, x) \<in> set ?m" for c x
  proof -
    have "(c, x) \<in> set ?m \<Longrightarrow> c \<in> set desktopEventParamColumns" using sub by (metis fst_conv image_eqI set_map subsetD)
    then show ?thesis using at [of c x] by (auto simp: zip_map_same)
  qed
  then have c: "{(c, x). (c, Some x) \<in> set (zip desktopEventParamColumns (dr_columns (desktop_row_of (event_of k b t))))} = apfst column_of ` set (eb_params b)"
    unfolding cols set_map [symmetric] by auto
  have "\<exists>shape allowed. map_of event_shapes (eb_name b) = Some shape \<and> (p, allowed) \<in> set shape \<and> x \<in> set allowed"
    if "(p, x) \<in> set (eb_params b)" for p x
    using keys s(1) that by fast
  then show ?thesis using c by blast
qed


section \<open>A recording that a suppression overtakes\<close>

definition demo_body :: event_body where
  "demo_body = \<lparr>eb_schemaVersion = 1, eb_platform = ''LINUX'', eb_appVersion = ''1.12.3'', eb_name = ''feedback_prompt_answered'',
     eb_occurredAtMicros = 1000000, eb_params = [(''answer'', ''dismissed''), (''source'', ''settings'')]\<rparr>"

definition demo_wire :: jvalue where
  "demo_wire = JObj [(''name'', JStr ''feedback_prompt_answered''), (''schemaVersion'', JNum 1), (''platform'', JStr ''LINUX''),
     (''appVersion'', JStr ''1.12.3''), (''occurredAtMicros'', JNum 1000000),
     (''params'', JObj [(''source'', JStr ''settings''), (''answer'', JStr ''dismissed'')])]"

theorem accepted_params_reach_their_columns_witness:
  "{(c, x). (c, Some x) \<in> set (zip desktopEventParamColumns (dr_columns (desktop_row_of (event_of ''k'' demo_body 0))))} =
     {(''feedback_answer'', ''dismissed''), (''feedback_source'', ''settings'')}"
proof -
  have b: "productAnalyticsEventBodySchema demo_wire = Some demo_body" by code_simp
  have i: "apfst column_of ` set (eb_params demo_body) = {(''feedback_answer'', ''dismissed''), (''feedback_source'', ''settings'')}"
    by (simp add: demo_body_def column_of_def desktopEventColumnByRenamedParam_def)
  show ?thesis using accepted_params_reach_their_columns [OF b, of "''k''" 0] unfolding i by (rule conjunct2)
qed

definition demo_account_key :: string where
  "demo_account_key = replicate 64 CHR ''a''"

definition demo_analytics :: analytics_config where
  "demo_analytics = \<lparr>ac_oid = Some,
     ac_key = (\<lambda>i. if i = ''u'' then Inr demo_account_key else Inl InternalServerError),
     ac_legacy = (\<lambda>i. Inr (replicate 64 CHR ''0''))\<rparr>"

definition demo_enabled :: user where
  "demo_enabled = \<lparr>u_id = ''u'', u_tokenVersion = Some 1, u_createdAt = 5, u_updatedAt = 5, u_preference = Val ''enabled'',
     u_preferenceUpdatedAt = Val 5, u_preferenceRevision = Val 1, u_lastOperationId = Null, u_exportSuppressedAt = Missing\<rparr>"

definition demo_read :: analytics where
  "demo_read = preferenceRead demo_analytics 0 (recordEvent 0 ''u'' demo_body 1000 (new_analytics [demo_enabled]))"

definition demo_purged :: analytics where
  "demo_purged = eventsDeleted 0 (suppressed demo_analytics id id 0
     (suppressAndHandoff 0 ''u'' ''request-1'' (Some 2000) demo_read))"

definition demo_inserted :: analytics where
  "demo_inserted = eventInserted 0 demo_purged"

definition demo_settled :: analytics where
  "demo_settled = deletedAgain 0 (rechecked demo_analytics 0 demo_inserted)"

lemma demo_one_key: "one_key_each demo_analytics"
  by (simp add: one_key_each_def demo_analytics_def)

lemma demo_key_ok: "userKeyPattern demo_account_key"
  by (simp add: userKeyPattern_def demo_account_key_def lower_hex_def list_all_iff)

lemma demo_inserted_reachable: "(analytics_step demo_analytics)\<^sup>*\<^sup>* (new_analytics [demo_enabled]) demo_inserted"
proof -
  have j: "an_jobs demo_read 0 = None" by code_simp
  show ?thesis
    unfolding demo_inserted_def demo_purged_def
    by (rule rtranclp.rtrancl_into_rtrancl [rotated], rule analytics_step.inserted,
        rule rtranclp.rtrancl_into_rtrancl [rotated], rule analytics_step.purged,
        rule rtranclp.rtrancl_into_rtrancl [rotated], rule analytics_step.suppressed, simp, simp,
        rule rtranclp.rtrancl_into_rtrancl [rotated], rule analytics_step.suppress, rule j,
        unfold demo_read_def,
        rule rtranclp.rtrancl_into_rtrancl [rotated], rule analytics_step.read,
        rule r_into_rtranclp, rule analytics_step.begun) (simp add: new_analytics_def)
qed

lemma demo_preference:
  "getPreference Some (ac_key demo_analytics) ''u'' [demo_enabled] =
     Inr (\<lparr>pr_preference = Enabled, pr_updatedAt = 5, pr_revision = 1\<rparr>, demo_account_key)"
proof -
  have "findProductAnalyticsPreference Some ''u'' [demo_enabled] = Inr (Some \<lparr>pr_preference = Enabled, pr_updatedAt = 5, pr_revision = 1\<rparr>)"
    by code_simp
  then show ?thesis by (simp add: getPreference_def demo_analytics_def)
qed

definition demo_tombstoned :: user where
  "demo_tombstoned = suppression_update 2000 demo_enabled"

lemma demo_suppression:
  "suppressExport Some (ac_key demo_analytics) (ac_legacy demo_analytics) id id ''u'' (Some 2000) [demo_enabled] =
     (Inr ((\<lparr>pr_preference = Disabled, pr_updatedAt = 2000, pr_revision = 2\<rparr>, 2000), demo_account_key, replicate 64 CHR ''0''),
      [demo_tombstoned])"
proof -
  have "suppressProductAnalyticsExport Some id id ''u'' (Some 2000) [demo_enabled] =
      (Inr (Some (\<lparr>pr_preference = Disabled, pr_updatedAt = 2000, pr_revision = 2\<rparr>, 2000)), [demo_tombstoned])"
    by code_simp
  then show ?thesis by (simp add: suppressExport_def demo_analytics_def)
qed

lemma demo_read_run:
  "demo_read = \<lparr>an_users = [demo_enabled], an_events = [], an_targets = [],
     an_calls = [0 \<mapsto> \<lparr>rc_userId = ''u'', rc_body = demo_body, rc_receivedAt = 1000, rc_phase = InsertInto demo_account_key\<rparr>],
     an_jobs = Map.empty\<rparr>"
proof -
  have [simp]: "ac_oid demo_analytics = Some" by (simp add: demo_analytics_def)
  have t: "eb_occurredAtMicros demo_body = 1000000" by (simp add: demo_body_def)
  show ?thesis
    by (simp add: demo_read_def preferenceRead_def recordEvent_def call_phase_def new_analytics_def Let_def t
        MAX_EVENT_AGE_MICROS_def MAX_EVENT_FUTURE_MICROS_def demo_preference)
qed

lemma demo_purged_run:
  "demo_purged = \<lparr>an_users = [demo_tombstoned], an_events = [], an_targets = [],
     an_calls = [0 \<mapsto> \<lparr>rc_userId = ''u'', rc_body = demo_body, rc_receivedAt = 1000, rc_phase = InsertInto demo_account_key\<rparr>],
     an_jobs = [0 \<mapsto> \<lparr>dj_userId = ''u'', dj_requestId = ''request-1'', dj_requestedAt = Some 2000,
       dj_phase = HandingOff demo_account_key (replicate 64 CHR ''0'') 2000\<rparr>]\<rparr>"
proof -
  have r: "deletionRequestIdSchema ''request-1''" by code_simp
  have [simp]: "ac_oid demo_analytics = Some" by (simp add: demo_analytics_def)
  have "suppressed demo_analytics id id 0 (suppressAndHandoff 0 ''u'' ''request-1'' (Some 2000) demo_read) =
      demo_read\<lparr>an_users := [demo_tombstoned], an_jobs := [0 \<mapsto> \<lparr>dj_userId = ''u'', dj_requestId = ''request-1'', dj_requestedAt = Some 2000,
       dj_phase = DeletingEvents demo_account_key (replicate 64 CHR ''0'') 2000\<rparr>]\<rparr>"
    by (simp add: suppressed_def suppressAndHandoff_def job_phase_def r demo_read_run demo_suppression)
  then show ?thesis
    by (simp
        add: demo_purged_def eventsDeleted_def job_phase_def deleteForUserKey_def demo_key_ok demo_read_run)
qed

lemma demo_inserted_run:
  "demo_inserted = demo_purged\<lparr>an_events := [event_of demo_account_key demo_body 1000],
     an_calls := [0 \<mapsto> \<lparr>rc_userId = ''u'', rc_body = demo_body, rc_receivedAt = 1000, rc_phase = Recheck demo_account_key\<rparr>]\<rparr>"
  by (simp
      add: demo_inserted_def eventInserted_def demo_purged_run call_phase_def insertEvent_def Let_def)

lemma demo_settled_run: "an_events demo_settled = []"
proof -
  have s: "isProductAnalyticsExportSuppressedOnPrimary Some ''u'' [demo_tombstoned]" by code_simp
  have o: "ac_oid demo_analytics = Some" by (simp add: demo_analytics_def)
  have "de_userKey (event_of demo_account_key demo_body 1000) = demo_account_key" by (simp add: event_of_def)
  then show ?thesis
    by (simp
        add: demo_settled_def deletedAgain_def rechecked_def demo_inserted_run demo_purged_run call_phase_def o s
          deleteForUserKey_def demo_key_ok)
qed

theorem suppressed_events_do_not_survive_witness:
  "holds_events demo_account_key demo_inserted \<and> awaits_cleanup demo_account_key demo_inserted \<and>
   \<not> holds_events demo_account_key demo_settled"
proof -
  have h: "holds_events demo_account_key demo_inserted" "\<not> holds_events demo_account_key demo_settled"
    by (simp_all add: holds_events_def demo_inserted_run demo_settled_run event_of_def)
  obtain j where j: "an_jobs demo_inserted 0 = Some j" "purged_by (dj_phase j) = Some demo_account_key"
    by (simp add: demo_inserted_run demo_purged_run)
  have d: "distinct (map u_id [demo_enabled])" by simp
  show ?thesis using suppressed_events_do_not_survive [OF demo_inserted_reachable demo_one_key d j] h by simp
qed

end
