(* ===== verification/Transcription.thy ===== *)
theory Transcription
  imports Glossary DailyUsage Complex_Main
begin

text \<open>
  Transcription of one uploaded recording: the validation boundary for the values of
  the Soniox SDK (\<open>src/api/soniox-transcription-api.ts\<close>), the client that uploads,
  creates a job, waits and cleans up (\<open>src/clients/soniox-transcription-client.ts\<close>),
  the service that meters it (\<open>src/services/voice-service.ts\<close>) and the operator's
  purge command (\<open>src/scripts/purge-soniox-transcription.ts\<close>).  The SDK is a
  parameter: functions from the provider's state to an answer and the state after
  it.  Text is a list of UTF-16 code units; a finite number is a rational, so the
  rounding of a division is not modelled; the conversion of a header to a number is
  the parameter \<open>number\<close>.
\<close>

section \<open>Failures\<close>

datatype failure_reason =
  InvalidInput | UnusableAudio | QuotaExhausted | Capacity | Unavailable | Timeout
| ProviderRejected | MalformedOutput | Cancelled | Internal

record failure =
  fl_reason :: failure_reason
  fl_retryAfterSeconds :: "js_number option"

definition fails :: "failure_reason \<Rightarrow> failure" where
  "fails r = \<lparr>fl_reason = r, fl_retryAfterSeconds = None\<rparr>"

datatype pvalue =
  \<comment> \<open>a value of the SDK, whose declared types are not trusted\<close>
  PStr word
| PNum rat
| PBool bool
| PNull
| PUndefined
| PArr "pvalue list"
| PObj "(string \<times> pvalue) list"
| POther

definition field_of :: "string \<Rightarrow> pvalue \<Rightarrow> pvalue option" where
  "field_of k v = (case v of PObj ms \<Rightarrow> map_of ms k | _ \<Rightarrow> None)"

section \<open>The validation boundary\<close>

definition transcriptionStatusSchema :: "word list" where
  "transcriptionStatusSchema = [utf ''queued'', utf ''processing'', utf ''completed'', utf ''error'']"

definition maxTranscriptCharacters :: nat where "maxTranscriptCharacters = 1000000"

definition maxAudioDurationMs :: rat where "maxAudioDurationMs = 86400000"

definition audioRejectionErrorTypes :: "word list" where
  "audioRejectionErrorTypes = [utf ''bad_audio'', utf ''invalid_audio'', utf ''unsupported_audio'',
     utf ''audio_too_short'', utf ''audio_too_long'']"

definition quotaExhaustionErrorTypes :: "word list" where
  "quotaExhaustionErrorTypes = [utf ''organization_balance_exhausted'',
     utf ''organization_monthly_budget_exhausted'', utf ''project_monthly_budget_exhausted'']"

definition isAudioRejection :: "word option \<Rightarrow> bool" where
  "isAudioRejection t = (case t of None \<Rightarrow> False | Some x \<Rightarrow> x \<in> set audioRejectionErrorTypes)"

definition isQuotaExhaustion :: "word option \<Rightarrow> bool" where
  "isQuotaExhaustion t = (case t of None \<Rightarrow> False | Some x \<Rightarrow> x \<in> set quotaExhaustionErrorTypes)"

definition id_of :: "pvalue \<Rightarrow> word option" where
  \<comment> \<open>an object with a nonempty id\<close>
  "id_of v = (case field_of ''id'' v of Some (PStr i) \<Rightarrow> if i \<noteq> [] then Some i else None | _ \<Rightarrow> None)"

definition nullish :: "(pvalue \<Rightarrow> 'a option) \<Rightarrow> pvalue option \<Rightarrow> 'a option option" where
  \<comment> \<open>\<open>.nullish()\<close>: absent, undefined, null, or what the schema accepts\<close>
  "nullish f m = (case m of None \<Rightarrow> Some None | Some PNull \<Rightarrow> Some None | Some PUndefined \<Rightarrow> Some None | Some v \<Rightarrow> map_option Some (f v))"

definition as_text :: "pvalue \<Rightarrow> word option" where
  "as_text v = (case v of PStr s \<Rightarrow> Some s | _ \<Rightarrow> None)"

definition as_number :: "pvalue \<Rightarrow> rat option" where
  "as_number v = (case v of PNum q \<Rightarrow> Some q | _ \<Rightarrow> None)"

definition parseUploadedFileId :: "pvalue \<Rightarrow> failure + word" where
  "parseUploadedFileId v = (case id_of v of None \<Rightarrow> Inl (fails MalformedOutput) | Some i \<Rightarrow> Inr i)"

definition parseCreatedTranscriptionId :: "pvalue \<Rightarrow> failure + word" where
  "parseCreatedTranscriptionId v = (case id_of v of None \<Rightarrow> Inl (fails MalformedOutput) | Some i \<Rightarrow> Inr i)"

definition completedTranscriptionSchema :: "pvalue \<Rightarrow> (word \<times> word \<times> rat option \<times> word option) option" where
  \<comment> \<open>id, status, audio duration and error type\<close>
  "completedTranscriptionSchema v =
     (case (id_of v, field_of ''status'' v, nullish as_number (field_of ''audio_duration_ms'' v),
            nullish as_text (field_of ''error_type'' v), nullish as_text (field_of ''error_message'' v)) of
        (Some i, Some (PStr st), Some d, Some t, Some _) \<Rightarrow>
          if st \<in> set transcriptionStatusSchema then Some (i, st, d, t) else None
      | _ \<Rightarrow> None)"

definition parseTranscription :: "pvalue \<Rightarrow> word \<Rightarrow> failure + rat" where
  \<comment> \<open>the billable duration; the id is the expected one and the status completed\<close>
  "parseTranscription v expectedId =
     (case completedTranscriptionSchema v of
        None \<Rightarrow> Inl (fails MalformedOutput)
      | Some (i, st, d, t) \<Rightarrow>
          if i \<noteq> expectedId then Inl (fails MalformedOutput)
          else if st = utf ''error'' then
            (if isQuotaExhaustion t then Inl (fails QuotaExhausted)
             else Inl (fails (if isAudioRejection t then InvalidInput else ProviderRejected)))
          else if st \<noteq> utf ''completed'' then Inl (fails Timeout)
          else case d of
            None \<Rightarrow> Inl (fails MalformedOutput)
          | Some ms \<Rightarrow> if ms \<le> 0 \<or> ms > maxAudioDurationMs then Inl (fails MalformedOutput) else Inr ms)"

definition parseTranscriptText :: "pvalue \<Rightarrow> failure + word" where
  "parseTranscriptText v =
     (case field_of ''text'' v of
        Some (PStr t) \<Rightarrow>
          if length t > maxTranscriptCharacters then Inl (fails MalformedOutput)
          else if trim t = [] then Inl (fails UnusableAudio) else Inr t
      | _ \<Rightarrow> Inl (fails MalformedOutput))"

definition toBillableSeconds :: "rat \<Rightarrow> failure + int" where
  "toBillableSeconds ms = (if ms \<le> 0 then Inl (fails MalformedOutput) else Inr (max 1 \<lceil>ms / 1000\<rceil>))"

section \<open>Thrown values\<close>

datatype thrown_value =
  ThrownFailure failure
| ThrownError "(string \<times> pvalue) list"
  \<comment> \<open>an \<open>Error\<close> with its properties\<close>
| ThrownObject "(string \<times> pvalue) list"
| ThrownPrimitive

fun readOwn :: "string \<Rightarrow> thrown_value \<Rightarrow> pvalue option" where
  "readOwn k (ThrownError ps) = map_of ps k"
| "readOwn k (ThrownObject ps) = map_of ps k"
| "readOwn k _ = None"

definition readMessage :: "thrown_value \<Rightarrow> word option" where
  "readMessage e = (case e of ThrownError ps \<Rightarrow> Option.bind (map_of ps ''message'') as_text | _ \<Rightarrow> None)"

definition readName :: "thrown_value \<Rightarrow> word option" where
  "readName e = (case e of ThrownError ps \<Rightarrow> Option.bind (map_of ps ''name'') as_text | _ \<Rightarrow> None)"

definition readCode :: "thrown_value \<Rightarrow> word option" where
  "readCode e = Option.bind (readOwn ''code'' e) as_text"

definition readStatusCode :: "thrown_value \<Rightarrow> int option" where
  "readStatusCode e =
     (case readOwn ''statusCode'' e of
        Some (PNum q) \<Rightarrow> if snd (quotient_of q) = 1 then Some (fst (quotient_of q)) else None
      | _ \<Rightarrow> None)"

definition isAbortLike :: "thrown_value \<Rightarrow> bool" where
  "isAbortLike e \<longleftrightarrow> readName e = Some (utf ''AbortError'') \<or> readCode e = Some (utf ''ABORT_ERR'') \<or>
     readCode e = Some (utf ''aborted'') \<or> readMessage e = Some (utf ''Transcription wait aborted'')"

definition isTimeoutLike :: "thrown_value \<Rightarrow> bool" where
  "isTimeoutLike e \<longleftrightarrow> readName e = Some (utf ''TimeoutError'') \<or> readCode e = Some (utf ''timeout'')"

definition toFailureReason :: "thrown_value \<Rightarrow> failure_reason" where
  "toFailureReason e =
     (case e of ThrownFailure f \<Rightarrow> fl_reason f
      | _ \<Rightarrow>
        if isAbortLike e then Unavailable
        else if isTimeoutLike e then Timeout
        else if readCode e = Some (utf ''quota_exceeded'') then QuotaExhausted
        else case readStatusCode e of
          None \<Rightarrow> Unavailable
        | Some c \<Rightarrow>
            if c = 402 then QuotaExhausted
            else if c = 429 then Capacity
            else if c = 400 \<or> c = 413 \<or> c = 415 \<or> c = 422 then InvalidInput
            else if c = 401 \<or> c = 403 \<or> c = 404 then ProviderRejected
            else if c \<ge> 500 then Unavailable
            else Internal)"

definition readProviderRetryAfterSeconds :: "(word \<Rightarrow> js_number) \<Rightarrow> thrown_value \<Rightarrow> js_number option" where
  "readProviderRetryAfterSeconds number e =
     (case readOwn ''headers'' e of
        Some (PObj hs) \<Rightarrow>
          (case (case map_of hs ''retry-after'' of
                   None \<Rightarrow> map_of hs ''Retry-After'' | Some PNull \<Rightarrow> map_of hs ''Retry-After''
                 | Some PUndefined \<Rightarrow> map_of hs ''Retry-After'' | Some v \<Rightarrow> Some v) of
             Some (PStr raw) \<Rightarrow>
               (case number (trim raw) of
                  Integer s \<Rightarrow> if \<not> isSafeInteger (Integer s) \<or> s \<le> 0 then None else Some (Integer s)
                | NotAnInteger \<Rightarrow> None)
           | _ \<Rightarrow> None)
      | _ \<Rightarrow> None)"

section \<open>The client\<close>

record provider =
  pv_files :: "word set"
  pv_jobs :: "(word \<times> word) set"
  \<comment> \<open>a job and the file it reads\<close>

record soniox_context =
  sx_general :: "(string \<times> string) list"
  sx_terms :: "word list option"

definition toSonioxContext :: "word list \<Rightarrow> soniox_context" where
  "toSonioxContext terms =
     \<lparr>sx_general = [(''topic'', ''Dictating instructions to an AI assistant'')],
      sx_terms = (if 0 < length terms then Some terms else None)\<rparr>"

record create_options =
  co_model :: string
  co_file_id :: word
  co_language_hints :: "string list"
  co_context :: soniox_context

record soniox_sdk =
  sdk_upload :: "provider \<Rightarrow> (thrown_value + pvalue) \<times> provider"
  sdk_create :: "create_options \<Rightarrow> provider \<Rightarrow> (thrown_value + pvalue) \<times> provider"
  sdk_wait :: "word \<Rightarrow> provider \<Rightarrow> (thrown_value + pvalue) \<times> provider"
  sdk_getTranscript :: "word \<Rightarrow> provider \<Rightarrow> (thrown_value + pvalue) \<times> provider"
  sdk_deleteJob :: "word \<Rightarrow> provider \<Rightarrow> (thrown_value + unit) \<times> provider"
  sdk_deleteFile :: "word \<Rightarrow> provider \<Rightarrow> (thrown_value + unit) \<times> provider"

record attempt =
  at_fileId :: "word option"
  at_transcriptionId :: "word option"
  at_createAttempted :: bool

definition finishJob :: "soniox_sdk \<Rightarrow> word \<Rightarrow> provider \<Rightarrow> (thrown_value + word \<times> int) \<times> provider" where
  \<comment> \<open>wait for the job and fetch its transcript\<close>
  "finishJob sdk job p =
     (case sdk_wait sdk job p of
        (Inl e, p1) \<Rightarrow> (Inl e, p1)
      | (Inr v, p1) \<Rightarrow>
          (case parseTranscription v job of
             Inl f \<Rightarrow> (Inl (ThrownFailure f), p1)
           | Inr ms \<Rightarrow>
               (case sdk_getTranscript sdk job p1 of
                  (Inl e, p2) \<Rightarrow> (Inl e, p2)
                | (Inr w, p2) \<Rightarrow>
                    (case parseTranscriptText w of
                       Inl f \<Rightarrow> (Inl (ThrownFailure f), p2)
                     | Inr t \<Rightarrow> (map_sum ThrownFailure (Pair t) (toBillableSeconds ms), p2)))))"

definition runJob :: "soniox_sdk \<Rightarrow> string \<Rightarrow> word list \<Rightarrow> provider \<Rightarrow> (thrown_value + word \<times> int) \<times> attempt \<times> provider" where
  \<comment> \<open>the \<open>try\<close> block, with the ids it has learnt\<close>
  "runJob sdk model terms p =
     (case sdk_upload sdk p of
        (Inl e, p1) \<Rightarrow> (Inl e, \<lparr>at_fileId = None, at_transcriptionId = None, at_createAttempted = False\<rparr>, p1)
      | (Inr v, p1) \<Rightarrow>
          (case parseUploadedFileId v of
             Inl f \<Rightarrow> (Inl (ThrownFailure f), \<lparr>at_fileId = None, at_transcriptionId = None, at_createAttempted = False\<rparr>, p1)
           | Inr file \<Rightarrow>
               (case sdk_create sdk \<lparr>co_model = model, co_file_id = file, co_language_hints = [''en''], co_context = toSonioxContext terms\<rparr> p1 of
                  (Inl e, p2) \<Rightarrow> (Inl e, \<lparr>at_fileId = Some file, at_transcriptionId = None, at_createAttempted = True\<rparr>, p2)
                | (Inr w, p2) \<Rightarrow>
                    (case parseCreatedTranscriptionId w of
                       Inl f \<Rightarrow> (Inl (ThrownFailure f),
                         \<lparr>at_fileId = Some file, at_transcriptionId = None, at_createAttempted = True\<rparr>, p2)
                     | Inr job \<Rightarrow>
                         (case finishJob sdk job p2 of
                            (r, p3) \<Rightarrow> (r, \<lparr>at_fileId = Some file, at_transcriptionId = Some job, at_createAttempted = True\<rparr>, p3))))))"

definition cleanupJob :: "soniox_sdk \<Rightarrow> attempt \<Rightarrow> provider \<Rightarrow> provider" where
  "cleanupJob sdk a p =
     (if at_createAttempted a \<and> at_transcriptionId a = None then p
      else
        let (deleted, p1) = (case at_transcriptionId a of
              None \<Rightarrow> (True, p)
            | Some j \<Rightarrow> (case sdk_deleteJob sdk j p of (r, p1) \<Rightarrow> (is_ok r, p1))) in
        if \<not> deleted then p1
        else case at_fileId a of None \<Rightarrow> p1 | Some f \<Rightarrow> snd (sdk_deleteFile sdk f p1))"

definition caught :: "(word \<Rightarrow> js_number) \<Rightarrow> bool \<Rightarrow> bool \<Rightarrow> thrown_value \<Rightarrow> failure" where
  \<comment> \<open>the \<open>catch\<close> block; the flags are the two abort signals it reads\<close>
  "caught number callerAborted timedOut e =
     (case e of ThrownFailure f \<Rightarrow> f
      | _ \<Rightarrow> \<lparr>fl_reason = (if callerAborted then Cancelled else if timedOut then Timeout else toFailureReason e),
             fl_retryAfterSeconds = readProviderRetryAfterSeconds number e\<rparr>)"

definition transcribeSoniox ::
  "soniox_sdk \<Rightarrow> (word \<Rightarrow> js_number) \<Rightarrow> string \<Rightarrow> bool \<Rightarrow> bool \<Rightarrow> word list \<Rightarrow> provider
   \<Rightarrow> (thrown_value + word \<times> int) \<times> provider" where
  "transcribeSoniox sdk number model callerAborted timedOut terms p =
     (case runJob sdk model terms p of
        (r, a, p1) \<Rightarrow> (map_sum (\<lambda>e. ThrownFailure (caught number callerAborted timedOut e)) id r, cleanupJob sdk a p1))"

section \<open>The service\<close>

definition CAPACITY_FALLBACK_RETRY_AFTER_SECONDS :: int where
  "CAPACITY_FALLBACK_RETRY_AFTER_SECONDS = 5"

datatype error_policy = LegacyOpenAiV1 | DetailedV1

datatype voice_error = VoiceApi api_error | TranscriptionCancelledError

fun isRetryable :: "failure_reason \<Rightarrow> bool" where
  "isRetryable Capacity = True"
| "isRetryable Unavailable = True"
| "isRetryable Timeout = True"
| "isRetryable MalformedOutput = True"
| "isRetryable _ = False"

definition toDetailedApiError :: "failure \<Rightarrow> voice_error" where
  "toDetailedApiError f =
     (case fl_reason f of
        InvalidInput \<Rightarrow> VoiceApi TranscriptionInvalidInputError
      | UnusableAudio \<Rightarrow> VoiceApi TranscriptionUnusableAudioError
      | QuotaExhausted \<Rightarrow> VoiceApi TranscriptionQuotaExhaustedError
      | Capacity \<Rightarrow> VoiceApi (TranscriptionUnavailableError
          (case fl_retryAfterSeconds f of None \<Rightarrow> Some (Integer CAPACITY_FALLBACK_RETRY_AFTER_SECONDS) | Some s \<Rightarrow> Some s))
      | Unavailable \<Rightarrow> VoiceApi (TranscriptionUnavailableError (fl_retryAfterSeconds f))
      | Timeout \<Rightarrow> VoiceApi (TranscriptionTimeoutError (fl_retryAfterSeconds f))
      | ProviderRejected \<Rightarrow> VoiceApi TranscriptionConfigurationError
      | MalformedOutput \<Rightarrow> VoiceApi (TranscriptionProviderError (fl_retryAfterSeconds f))
      | Internal \<Rightarrow> VoiceApi TranscriptionInternalError
      | Cancelled \<Rightarrow> TranscriptionCancelledError)"

definition toApiError :: "error_policy \<Rightarrow> thrown_value \<Rightarrow> voice_error" where
  "toApiError policy e =
     (case e of
        ThrownFailure f \<Rightarrow>
          if fl_reason f = Cancelled then TranscriptionCancelledError
          else (case policy of
                  LegacyOpenAiV1 \<Rightarrow> VoiceApi (LegacyTranscriptionError (isRetryable (fl_reason f)))
                | DetailedV1 \<Rightarrow> toDetailedApiError f)
      | _ \<Rightarrow> VoiceApi TranscriptionInternalError)"

datatype write_fate = Written | NotWritten bool
  \<comment> \<open>a failed write may have taken effect\<close>

definition transcribe ::
  "int \<Rightarrow> error_policy \<Rightarrow> (word list \<Rightarrow> 'p \<Rightarrow> (thrown_value + word \<times> int) \<times> 'p)
   \<Rightarrow> (daily_usage list \<Rightarrow> daily_usage list) \<Rightarrow> write_fate \<Rightarrow> millis \<Rightarrow> string \<Rightarrow> string \<Rightarrow> string \<Rightarrow> project_key option
   \<Rightarrow> glossary_entry list \<Rightarrow> daily_usage list \<Rightarrow> 'p \<Rightarrow> (voice_error + word \<times> int) \<times> daily_usage list \<times> 'p" where
  \<comment> \<open>\<open>env\<close> is what other requests do to the counters while the provider works; the day may turn meanwhile\<close>
  "transcribe dailyLimitSeconds policy client env fate now today today' userId projectKey glossary usage p =
     (let usedSeconds = getDailyTranscriptionSeconds userId today usage in
      if usedSeconds \<ge> dailyLimitSeconds then (Inl (VoiceApi (QuotaExceededError ''transcription'' (Some False))), usage, p)
      else
        case client (getContextWords userId projectKey glossary) p of
          (Inl e, p1) \<Rightarrow> (Inl (toApiError policy e), env usage, p1)
        | (Inr (text, durationSeconds), p1) \<Rightarrow>
            (case (fate, incrementTranscriptionSeconds now userId today' durationSeconds (env usage)) of
               (Written, b, usage1) \<Rightarrow>
                 (Inr (text, if previousTotal b \<ge> dailyLimitSeconds then 0 else max 0 (dailyLimitSeconds - newTotal b)), usage1, p1)
             | (NotWritten committed, b, usage1) \<Rightarrow>
                 (Inr (text, max 0 (dailyLimitSeconds - usedSeconds - durationSeconds)),
                  if committed then usage1 else env usage, p1)))"

end
