(* ===== verification/VoiceRoute.thy ===== *)
theory VoiceRoute
  imports Transcription
begin

text \<open>
  The HTTP side of transcription: the multipart reader and the transcribe route of
  \<open>src/routes/voice.ts\<close>, the close signal of \<open>src/lib/request-close-signal.ts\<close>, the
  redaction of provider errors in \<open>src/services/voice-service.ts\<close>, and the purge
  command of \<open>src/scripts/purge-soniox-transcription.ts\<close>.  The multipart parser is
  what the reader takes its parts from.
\<close>

section \<open>The multipart request\<close>

definition AUDIO_FIELD_NAME :: string where "AUDIO_FIELD_NAME = ''audio''"

definition ALLOWED_AUDIO_MIMES :: "string list" where
  "ALLOWED_AUDIO_MIMES = [''audio/mpeg'', ''audio/mp4'', ''audio/m4a'', ''audio/x-m4a'', ''audio/wav'',
     ''audio/webm'', ''audio/ogg'', ''audio/flac'']"

datatype parser_error = FileTooLarge string | ParserError
  \<comment> \<open>\<open>FST_REQ_FILE_TOO_LARGE\<close> with its message, or any other\<close>

datatype multipart_part =
  FilePart string string string "parser_error + nat list"
  \<comment> \<open>field name, MIME type, file name and what \<open>toBuffer\<close> gives\<close>
| TextPart string "string option" bool
  \<comment> \<open>field name, its value if it is a string, and whether it was cut\<close>

record audio_upload =
  au_buffer :: "nat list"
  au_filename :: string
  au_mimetype :: string

datatype read_error = ReadApi api_error | ReadTooLarge string

type_synonym form = "audio_upload option \<times> (string \<times> string) list"

fun readPart :: "multipart_part \<Rightarrow> form \<Rightarrow> read_error + form" where
  "readPart (FilePart name mime filename body) (audio, fs) =
     (if name \<noteq> AUDIO_FIELD_NAME \<or> audio \<noteq> None then Inl (ReadApi BadRequestError)
      else if mime \<notin> set ALLOWED_AUDIO_MIMES then Inl (ReadApi BadRequestError)
      else case body of
        Inl (FileTooLarge m) \<Rightarrow> Inl (ReadTooLarge m)
      | Inl ParserError \<Rightarrow> Inl (ReadApi BadRequestError)
      | Inr bytes \<Rightarrow> Inr (Some \<lparr>au_buffer = bytes, au_filename = filename, au_mimetype = mime\<rparr>, fs))"
| "readPart (TextPart name v truncated) (audio, fs) =
     (if name \<in> fst ` set fs \<or> truncated then Inl (ReadApi BadRequestError)
      else case v of None \<Rightarrow> Inl (ReadApi BadRequestError) | Some s \<Rightarrow> Inr (audio, fs @ [(name, s)]))"

fun readParts :: "multipart_part list \<Rightarrow> parser_error option \<Rightarrow> form \<Rightarrow> read_error + form" where
  \<comment> \<open>the parts that arrive, and the error the parser ends with\<close>
  "readParts [] None f = Inr f"
| "readParts [] (Some (FileTooLarge m)) f = Inl (ReadTooLarge m)"
| "readParts [] (Some ParserError) f = Inl (ReadApi BadRequestError)"
| "readParts (p # ps) err f = (case readPart p f of Inl e \<Rightarrow> Inl e | Inr g \<Rightarrow> readParts ps err g)"

definition transcribeMultipartSchema :: "(string \<times> string) list \<Rightarrow> project_key option option" where
  "transcribeMultipartSchema fs =
     (if \<not> list_all (\<lambda>(k, _). k = ''projectKey'') fs then None
      else case map_of fs ''projectKey'' of
        None \<Rightarrow> Some None
      | Some k \<Rightarrow> if projectKeySchema k then Some (Some k) else None)"

definition readTranscribeRequest ::
  "multipart_part list \<Rightarrow> parser_error option \<Rightarrow> read_error + audio_upload \<times> project_key option" where
  "readTranscribeRequest parts err =
     (case readParts parts err (None, []) of
        Inl e \<Rightarrow> Inl e
      | Inr (None, _) \<Rightarrow> Inl (ReadApi BadRequestError)
      | Inr (Some audio, fs) \<Rightarrow>
          if au_buffer audio = [] then Inl (ReadApi BadRequestError)
          else case transcribeMultipartSchema fs of
            None \<Rightarrow> Inl (ReadApi BadRequestError)
          | Some k \<Rightarrow> Inr (audio, k))"

section \<open>The client's connection\<close>

record connection =
  cn_socketDestroyed :: bool
  cn_responseDestroyed :: bool
  cn_writableEnded :: bool

definition isClientConnectionOpen :: "connection \<Rightarrow> bool" where
  "isClientConnectionOpen c \<longleftrightarrow> \<not> cn_socketDestroyed c \<and> \<not> cn_responseDestroyed c \<and> \<not> cn_writableEnded c"

record close_signal =
  cs_aborted :: bool
  cs_listening :: bool

datatype connection_event = SocketClose | ResponseClose | ResponseFinish

definition createRequestCloseSignal :: "connection \<Rightarrow> close_signal" where
  "createRequestCloseSignal c =
     (if \<not> isClientConnectionOpen c then \<lparr>cs_aborted = True, cs_listening = False\<rparr>
      else \<lparr>cs_aborted = False, cs_listening = True\<rparr>)"

definition signalEvent :: "connection_event \<Rightarrow> connection \<Rightarrow> close_signal \<Rightarrow> close_signal" where
  \<comment> \<open>\<open>c\<close> is the connection when the event fires\<close>
  "signalEvent ev c s =
     (if \<not> cs_listening s then s
      else case ev of
        ResponseFinish \<Rightarrow> s\<lparr>cs_listening := False\<rparr>
      | _ \<Rightarrow> \<lparr>cs_aborted = (cs_aborted s \<or> \<not> cn_writableEnded c), cs_listening = False\<rparr>)"

section \<open>The route\<close>

datatype transcribe_reply =
  Transcribed word int
| ReplyError api_error
| Hijacked
  \<comment> \<open>the client is gone and nothing is written\<close>

definition routeError :: "connection \<Rightarrow> read_error + voice_error \<Rightarrow> transcribe_reply" where
  "routeError c e =
     (case e of
        Inr TranscriptionCancelledError \<Rightarrow>
          if \<not> isClientConnectionOpen c then Hijacked else ReplyError TranscriptionInvalidInputError
      | Inr (VoiceApi BadRequestError) \<Rightarrow> ReplyError TranscriptionInvalidInputError
      | Inr (VoiceApi x) \<Rightarrow> ReplyError x
      | Inl (ReadApi BadRequestError) \<Rightarrow> ReplyError TranscriptionInvalidInputError
      | Inl (ReadApi x) \<Rightarrow> ReplyError x
      | Inl (ReadTooLarge m) \<Rightarrow> ReplyError (TranscriptionRequestError m 413))"

definition postTranscribe ::
  "(project_key option \<Rightarrow> 's \<Rightarrow> (voice_error + word \<times> int) \<times> 's) \<Rightarrow> connection
   \<Rightarrow> multipart_part list \<Rightarrow> parser_error option \<Rightarrow> 's \<Rightarrow> transcribe_reply \<times> 's" where
  \<comment> \<open>the service for the signed-in user, and the connection when the handler ends\<close>
  "postTranscribe service c parts err s =
     (case readTranscribeRequest parts err of
        Inl e \<Rightarrow> (routeError c (Inl e), s)
      | Inr (audio, projectKey) \<Rightarrow>
          (case service projectKey s of
             (Inl e, s1) \<Rightarrow> (routeError c (Inr e), s1)
           | (Inr (text, remaining), s1) \<Rightarrow>
               (if text = [] \<or> trim text = [] then ReplyError TranscriptionInternalError else Transcribed text remaining, s1)))"

section \<open>Redaction of provider errors\<close>

definition REDACTED_HEADER_VALUE :: word where
  "REDACTED_HEADER_VALUE = utf ''[redacted]''"

definition SENSITIVE_HEADER_NAMES :: "string list" where
  "SENSITIVE_HEADER_NAMES = [''authorization'', ''cookie'', ''proxy-authorization'']"

datatype property_key = Name string | Symbol nat

type_synonym header_list = "(property_key \<times> word) list"

datatype cause =
  CausePrimitive word
| CauseError string word "(string \<times> word) list" "header_list option" cause
  \<comment> \<open>name, message, other own properties, headers if they are an object, and its own cause\<close>
| CauseObject "(string \<times> word) list" "header_list option"

definition isSensitiveHeaderName :: "property_key \<Rightarrow> bool" where
  "isSensitiveHeaderName k = (case k of Name n \<Rightarrow> List.map toLower n \<in> set SENSITIVE_HEADER_NAMES | Symbol _ \<Rightarrow> False)"

definition redactHeaders :: "header_list \<Rightarrow> header_list" where
  "redactHeaders hs = List.map (\<lambda>(k, v). (k, if isSensitiveHeaderName k then REDACTED_HEADER_VALUE else v)) hs"

fun redactProviderCause :: "cause \<Rightarrow> cause" where
  "redactProviderCause (CausePrimitive v) = CausePrimitive v"
| "redactProviderCause (CauseError n m ps hs c) = CauseError n m ps (map_option redactHeaders hs) (redactProviderCause c)"
| "redactProviderCause (CauseObject ps hs) = CauseObject ps (map_option redactHeaders hs)"

section \<open>The purge command\<close>

datatype purge_mode = Audit | Apply

fun parseSonioxPurgeArgs :: "string list \<Rightarrow> purge_mode \<Rightarrow> bool \<Rightarrow> (purge_mode \<times> bool) option" where
  \<comment> \<open>the mode and the help flag so far; \<open>None\<close> is the error\<close>
  "parseSonioxPurgeArgs [] mode help = Some (mode, help)"
| "parseSonioxPurgeArgs (a # as) mode help =
     (if a = ''--help'' \<or> a = ''-h'' then parseSonioxPurgeArgs as mode True
      else if a = ''--apply'' \<and> mode = Audit then parseSonioxPurgeArgs as Apply help
      else None)"

definition DELETE_CONCURRENCY :: nat where "DELETE_CONCURRENCY = 5"

record purge_sdk =
  ps_listJobs :: "provider \<Rightarrow> pvalue list \<times> bool"
  \<comment> \<open>the items the iteration yields, and whether it ends with an error\<close>
  ps_listFiles :: "provider \<Rightarrow> pvalue list \<times> bool"
  ps_deleteJob :: "word \<Rightarrow> provider \<Rightarrow> bool \<times> provider"
  ps_deleteFile :: "word \<Rightarrow> provider \<Rightarrow> bool \<times> provider"

record sweep =
  sw_failed :: bool
  sw_count :: nat
  sw_deleted :: nat
  sw_pending :: "word list"
  sw_cleared :: bool

fun deleteBatch :: "(word \<Rightarrow> provider \<Rightarrow> bool \<times> provider) \<Rightarrow> word list \<Rightarrow> provider \<Rightarrow> nat \<times> provider" where
  \<comment> \<open>how many succeeded\<close>
  "deleteBatch remove [] p = (0, p)"
| "deleteBatch remove (i # is) p =
     (let (done1, p1) = remove i p; (n, p2) = deleteBatch remove is p1 in ((if done1 then 1 else 0) + n, p2))"

definition flushBatch :: "(word \<Rightarrow> provider \<Rightarrow> bool \<times> provider) \<Rightarrow> sweep \<Rightarrow> provider \<Rightarrow> sweep \<times> provider" where
  "flushBatch remove s p =
     (if sw_pending s = [] then (s, p)
      else let (n, p1) = deleteBatch remove (sw_pending s) p; all = (n = length (sw_pending s)) in
        (s\<lparr>sw_pending := [], sw_deleted := sw_deleted s + n, sw_failed := sw_failed s \<or> \<not> all,
           sw_cleared := sw_cleared s \<and> all\<rparr>, p1))"

fun sweepItems :: "(word \<Rightarrow> provider \<Rightarrow> bool \<times> provider) \<Rightarrow> bool \<Rightarrow> pvalue list \<Rightarrow> sweep \<Rightarrow> provider \<Rightarrow> sweep \<times> provider" where
  \<comment> \<open>the loop over the listed items; \<open>collect\<close> says whether it deletes\<close>
  "sweepItems remove collect [] s p = (s, p)"
| "sweepItems remove collect (v # vs) s p =
     (case id_of v of
        None \<Rightarrow> sweepItems remove collect vs (s\<lparr>sw_failed := True, sw_cleared := False\<rparr>) p
      | Some i \<Rightarrow>
          let s1 = s\<lparr>sw_count := sw_count s + 1\<rparr> in
          if \<not> collect then sweepItems remove collect vs s1 p
          else let s2 = s1\<lparr>sw_pending := sw_pending s1 @ [i]\<rparr> in
            if length (sw_pending s2) \<ge> DELETE_CONCURRENCY
            then (case flushBatch remove s2 p of (s3, p1) \<Rightarrow> sweepItems remove collect vs s3 p1)
            else sweepItems remove collect vs s2 p)"

definition sweepPhase ::
  "(word \<Rightarrow> provider \<Rightarrow> bool \<times> provider) \<Rightarrow> bool \<Rightarrow> pvalue list \<times> bool \<Rightarrow> provider \<Rightarrow> sweep \<times> provider" where
  "sweepPhase remove collect listing p =
     (case sweepItems remove collect (fst listing)
             \<lparr>sw_failed = False, sw_count = 0, sw_deleted = 0, sw_pending = [], sw_cleared = True\<rparr> p of
        (s, p1) \<Rightarrow>
          flushBatch remove (if snd listing then s\<lparr>sw_failed := True, sw_cleared := False\<rparr> else s) p1)"

record purge_report =
  pr_completed :: bool
  pr_fileCount :: nat
  pr_transcriptionCount :: nat
  pr_deletedFileCount :: nat
  pr_deletedTranscriptionCount :: nat

definition runSonioxPurge :: "purge_sdk \<Rightarrow> purge_mode \<Rightarrow> provider \<Rightarrow> purge_report \<times> provider" where
  "runSonioxPurge sdk mode p =
     (case sweepPhase (ps_deleteJob sdk) (mode = Apply) (ps_listJobs sdk p) p of
        (t, p1) \<Rightarrow>
          (case sweepPhase (ps_deleteFile sdk) (mode = Apply \<and> sw_cleared t) (ps_listFiles sdk p1) p1 of
             (f, p2) \<Rightarrow>
               (\<lparr>pr_completed = (\<not> sw_failed t \<and> \<not> sw_failed f), pr_fileCount = sw_count f,
                 pr_transcriptionCount = sw_count t, pr_deletedFileCount = sw_deleted f,
                 pr_deletedTranscriptionCount = sw_deleted t\<rparr>, p2)))"

definition runSonioxPurgeCli :: "purge_sdk \<Rightarrow> string list \<Rightarrow> provider \<Rightarrow> nat \<times> provider" where
  \<comment> \<open>the exit code\<close>
  "runSonioxPurgeCli sdk argv p =
     (case parseSonioxPurgeArgs argv Audit False of
        None \<Rightarrow> (1, p)
      | Some (mode, help) \<Rightarrow>
          if help then (0, p)
          else (case runSonioxPurge sdk mode p of (r, p1) \<Rightarrow> (if pr_completed r then 0 else 1, p1)))"

end
