(* ===== verification/TranscriptionProps.thy ===== *)
theory TranscriptionProps
  imports VoiceRoute
begin

text \<open>
  What transcription leaves behind: no job of the provider loses the audio it reads,
  whatever fails, and a settled attempt with working deletes leaves nothing; usage is
  booked once and within bounds; the purge deletes no file a job may still read; and
  provider errors are redacted and mapped consistently.
\<close>

section \<open>The provider's contract\<close>

definition dangling :: "word \<Rightarrow> provider \<Rightarrow> bool" where
  \<comment> \<open>a job refers to a file that is gone\<close>
  "dangling f p \<longleftrightarrow> f \<notin> pv_files p \<and> (\<exists>j. (j, f) \<in> pv_jobs p)"

definition jobs_on :: "word \<Rightarrow> provider \<Rightarrow> word set" where
  "jobs_on f p = {j. (j, f) \<in> pv_jobs p}"

definition holds_audio :: "word \<Rightarrow> word set \<Rightarrow> provider \<Rightarrow> bool" where
  \<comment> \<open>the file is stored and only these jobs read it\<close>
  "holds_audio f js p \<longleftrightarrow> f \<in> pv_files p \<and> jobs_on f p \<subseteq> js"

definition spares_others :: "word \<Rightarrow> provider \<Rightarrow> provider \<Rightarrow> bool" where
  \<comment> \<open>what happens to other files meanwhile does no harm\<close>
  "spares_others f p p' \<longleftrightarrow> (\<forall>g. g \<noteq> f \<longrightarrow> dangling g p' \<longrightarrow> dangling g p)"

fun learnt :: "thrown_value + pvalue \<Rightarrow> word option" where
  "learnt (Inl e) = None"
| "learnt (Inr v) = id_of v"

definition keeps_audio :: "word \<Rightarrow> (provider \<Rightarrow> 'r \<times> provider) \<Rightarrow> bool" where
  \<comment> \<open>a call that neither removes the file nor starts a job on it\<close>
  "keeps_audio f call \<longleftrightarrow> (\<forall>p js. spares_others f p (snd (call p)) \<and> (holds_audio f js p \<longrightarrow> holds_audio f js (snd (call p))))"

definition soniox_contract :: "soniox_sdk \<Rightarrow> word \<Rightarrow> bool" where
  \<comment> \<open>\<open>f\<close> is the fresh id of the uploaded file, which nobody else uses\<close>
  "soniox_contract sdk f \<longleftrightarrow>
     (\<forall>p r p'. sdk_upload sdk p = (r, p') \<longrightarrow> spares_others f p p' \<and>
        (case learnt r of None \<Rightarrow> dangling f p' \<longrightarrow> dangling f p | Some i \<Rightarrow> i = f \<and> holds_audio f {} p')) \<and>
     (\<forall>opts p r p'. co_file_id opts = f \<longrightarrow> holds_audio f {} p \<longrightarrow> sdk_create sdk opts p = (r, p') \<longrightarrow>
        spares_others f p p' \<and> holds_audio f (case learnt r of None \<Rightarrow> UNIV | Some j \<Rightarrow> {j}) p') \<and>
     (\<forall>j. keeps_audio f (sdk_wait sdk j) \<and> keeps_audio f (sdk_getTranscript sdk j) \<and> keeps_audio f (sdk_deleteJob sdk j)) \<and>
     (\<forall>j p p' js. sdk_deleteJob sdk j p = (Inr (), p') \<longrightarrow> holds_audio f js p \<longrightarrow> holds_audio f (js - {j}) p') \<and>
     (\<forall>p r p'. sdk_deleteFile sdk f p = (r, p') \<longrightarrow> spares_others f p p' \<and> jobs_on f p' \<subseteq> jobs_on f p \<and>
        (is_ok r \<longrightarrow> f \<notin> pv_files p'))"

lemma spares_refl [simp]: "spares_others f p p"
  by (simp add: spares_others_def)

lemma spares_trans [trans]: "spares_others f p q \<Longrightarrow> spares_others f q r \<Longrightarrow> spares_others f p r"
  by (auto simp: spares_others_def)

lemma holds_not_dangling: "holds_audio f js p \<Longrightarrow> \<not> dangling f p"
  by (simp add: holds_audio_def dangling_def)

lemma jobless_not_dangling: "jobs_on f p = {} \<Longrightarrow> \<not> dangling f p"
  by (simp add: jobs_on_def dangling_def)

lemma contract_upload:
  assumes "soniox_contract sdk f" and "sdk_upload sdk p = (r, p')"
  shows "spares_others f p p'" and "learnt r = None \<Longrightarrow> dangling f p' \<Longrightarrow> dangling f p"
    and "learnt r = Some i \<Longrightarrow> i = f \<and> holds_audio f {} p'"
proof -
  have "spares_others f p p' \<and> (case learnt r of None \<Rightarrow> dangling f p' \<longrightarrow> dangling f p | Some i \<Rightarrow> i = f \<and> holds_audio f {} p')"
    using assms unfolding soniox_contract_def by blast
  then show "spares_others f p p'" and "learnt r = None \<Longrightarrow> dangling f p' \<Longrightarrow> dangling f p"
    and "learnt r = Some i \<Longrightarrow> i = f \<and> holds_audio f {} p'" by simp_all
qed

lemma contract_create:
  assumes "soniox_contract sdk f" and "co_file_id opts = f" and "holds_audio f {} p" and "sdk_create sdk opts p = (r, p')"
  shows "spares_others f p p'" and "holds_audio f (case learnt r of None \<Rightarrow> UNIV | Some j \<Rightarrow> {j}) p'"
  using assms unfolding soniox_contract_def by blast+

lemma contract_keeps:
  assumes "soniox_contract sdk f"
  shows "keeps_audio f (sdk_wait sdk j)" and "keeps_audio f (sdk_getTranscript sdk j)" and "keeps_audio f (sdk_deleteJob sdk j)"
  using assms unfolding soniox_contract_def by blast+

lemma contract_deleteJob:
  assumes "soniox_contract sdk f" and "sdk_deleteJob sdk j p = (Inr (), p')" and "holds_audio f js p"
  shows "holds_audio f (js - {j}) p'"
  using assms unfolding soniox_contract_def by blast

lemma contract_deleteFile:
  assumes "soniox_contract sdk f"
  shows "spares_others f p (snd (sdk_deleteFile sdk f p))" and "jobs_on f (snd (sdk_deleteFile sdk f p)) \<subseteq> jobs_on f p"
    and "is_ok (fst (sdk_deleteFile sdk f p)) \<Longrightarrow> f \<notin> pv_files (snd (sdk_deleteFile sdk f p))"
  using assms unfolding soniox_contract_def by (metis surjective_pairing)+

lemma contract_keepsD:
  assumes "keeps_audio f call" and "call p = (r, p')"
  shows "spares_others f p p'" and "holds_audio f js p \<Longrightarrow> holds_audio f js p'"
  using assms unfolding keeps_audio_def by (metis snd_conv)+

section \<open>One attempt\<close>

lemma keeps_finishJob: "soniox_contract sdk f \<Longrightarrow> keeps_audio f (finishJob sdk j)"
  unfolding keeps_audio_def
  by (auto simp: finishJob_def split: prod.splits sum.splits
      intro: contract_keepsD [OF contract_keeps(1)] contract_keepsD [OF contract_keeps(2)] spares_trans)

definition attempt_ok :: "word \<Rightarrow> attempt \<Rightarrow> provider \<Rightarrow> provider \<Rightarrow> bool" where
  "attempt_ok f a p p' \<longleftrightarrow> spares_others f p p' \<and>
     (case (at_fileId a, at_transcriptionId a) of
        (None, None) \<Rightarrow> \<not> at_createAttempted a \<and> (dangling f p' \<longrightarrow> dangling f p)
      | (None, Some _) \<Rightarrow> False
      | (Some i, None) \<Rightarrow> i = f \<and> at_createAttempted a \<and> holds_audio f UNIV p'
      | (Some i, Some j) \<Rightarrow> i = f \<and> holds_audio f {j} p')"

lemma parsed_ids:
  "parseUploadedFileId v = Inr i \<longleftrightarrow> learnt (Inr v) = Some i" "parseUploadedFileId v = Inl e \<Longrightarrow> learnt (Inr v) = None"
  "parseCreatedTranscriptionId v = Inr i \<longleftrightarrow> learnt (Inr v) = Some i" "parseCreatedTranscriptionId v = Inl e \<Longrightarrow> learnt (Inr v) = None"
  by (auto simp: parseUploadedFileId_def parseCreatedTranscriptionId_def split: option.splits)

lemma runJob_ok:
  assumes c: "soniox_contract sdk f" and r: "runJob sdk model terms p = (r, a, p')"
  shows "attempt_ok f a p p'"
proof -
  obtain u p1 where u: "sdk_upload sdk p = (u, p1)" by fastforce
  note up = contract_upload [OF c u]
  show ?thesis
  proof (cases "learnt u")
    case None
    then have "a = \<lparr>at_fileId = None, at_transcriptionId = None, at_createAttempted = False\<rparr> \<and> p' = p1"
      using r u parsed_ids(1) by (auto simp: runJob_def split: sum.splits)
    then show ?thesis using up None by (simp add: attempt_ok_def)
  next
    case (Some i)
    then obtain v where v: "u = Inr v" "parseUploadedFileId v = Inr f" using up(3) parsed_ids(1) by (cases u) auto
    have h: "holds_audio f {} p1" using up(3) [OF Some] by simp
    let ?o = "\<lparr>co_model = model, co_file_id = f, co_language_hints = [''en''], co_context = toSonioxContext terms\<rparr>"
    obtain w p2 where w: "sdk_create sdk ?o p1 = (w, p2)" by fastforce
    note cr = contract_create [OF c _ h w, simplified]
    show ?thesis
    proof (cases "learnt w")
      case None
      then have "a = \<lparr>at_fileId = Some f, at_transcriptionId = None, at_createAttempted = True\<rparr> \<and> p' = p2"
        using r u v w parsed_ids(3) by (auto simp: runJob_def split: sum.splits)
      then show ?thesis using up(1) cr None by (auto simp: attempt_ok_def intro: spares_trans)
    next
      case (Some j)
      then obtain x where x: "w = Inr x" "parseCreatedTranscriptionId x = Inr j" using parsed_ids(3) by (cases w) auto
      have k: "holds_audio f {j} p2" using cr(2) Some by simp
      obtain s p3 where s: "finishJob sdk j p2 = (s, p3)" by fastforce
      have "a = \<lparr>at_fileId = Some f, at_transcriptionId = Some j, at_createAttempted = True\<rparr> \<and> p' = p3"
        using r u v w x s by (simp add: runJob_def)
      then show ?thesis using up(1) cr(1) contract_keepsD [OF keeps_finishJob [OF c] s] k
        by (auto simp: attempt_ok_def intro: spares_trans)
    qed
  qed
qed

lemma cleanupJob_ok:
  assumes c: "soniox_contract sdk f" and a: "attempt_ok f a p p1"
  shows "spares_others f p (cleanupJob sdk a p1)" and "dangling f (cleanupJob sdk a p1) \<Longrightarrow> dangling f p"
    and "at_fileId a = Some f \<Longrightarrow> at_transcriptionId a = Some j \<Longrightarrow> (\<And>i q. is_ok (fst (sdk_deleteJob sdk i q))) \<Longrightarrow>
      (\<And>i q. is_ok (fst (sdk_deleteFile sdk i q))) \<Longrightarrow>
      f \<notin> pv_files (cleanupJob sdk a p1) \<and> jobs_on f (cleanupJob sdk a p1) = {}"
proof -
  have s: "spares_others f p p1" using a by (simp add: attempt_ok_def)
  have "spares_others f p (cleanupJob sdk a p1) \<and> (dangling f (cleanupJob sdk a p1) \<longrightarrow> dangling f p) \<and>
    (at_fileId a = Some f \<longrightarrow> at_transcriptionId a = Some j \<longrightarrow> (\<forall>i q. is_ok (fst (sdk_deleteJob sdk i q))) \<longrightarrow>
      (\<forall>i q. is_ok (fst (sdk_deleteFile sdk i q))) \<longrightarrow>
      f \<notin> pv_files (cleanupJob sdk a p1) \<and> jobs_on f (cleanupJob sdk a p1) = {})" (is ?goal)
  proof (cases "at_transcriptionId a")
    case None
    then show ?thesis using a holds_not_dangling
      by (auto simp: attempt_ok_def cleanupJob_def split: option.splits)
  next
    case (Some i)
    have f: "at_fileId a = Some f" and h: "holds_audio f {i} p1"
      using a Some by (auto simp: attempt_ok_def split: option.splits)
    obtain r p2 where d: "sdk_deleteJob sdk i p1 = (r, p2)" by fastforce
    note k = contract_keepsD [OF contract_keeps(3) [OF c] d]
    show ?thesis
    proof (cases "is_ok r")
      case False
      then have "cleanupJob sdk a p1 = p2" using Some d by (simp add: cleanupJob_def)
      then show ?thesis using False s k(1) holds_not_dangling [OF k(2) [OF h]] d spares_trans
        by (metis fst_conv option.inject Some)
    next
      case True
      then have "r = Inr ()" by (cases r) (simp_all add: is_ok_def)
      then have e: "jobs_on f p2 = {}" using contract_deleteJob [OF c _ h] d by (auto simp: holds_audio_def)
      have "cleanupJob sdk a p1 = snd (sdk_deleteFile sdk f p2)" using Some d f True by (simp add: cleanupJob_def)
      then show ?thesis using contract_deleteFile [OF c, of p2] e s k(1) jobless_not_dangling
        by (auto intro: spares_trans)
    qed
  qed
  then show "spares_others f p (cleanupJob sdk a p1)" and "dangling f (cleanupJob sdk a p1) \<Longrightarrow> dangling f p"
    and "at_fileId a = Some f \<Longrightarrow> at_transcriptionId a = Some j \<Longrightarrow> (\<And>i q. is_ok (fst (sdk_deleteJob sdk i q))) \<Longrightarrow>
      (\<And>i q. is_ok (fst (sdk_deleteFile sdk i q))) \<Longrightarrow>
      f \<notin> pv_files (cleanupJob sdk a p1) \<and> jobs_on f (cleanupJob sdk a p1) = {}"
    by blast+
qed

lemma transcribed_attempt:
  assumes "soniox_contract sdk f" and "runJob sdk model terms p = (Inr x, a, p')"
  obtains j where "at_fileId a = Some f" and "at_transcriptionId a = Some j"
proof -
  have "at_transcriptionId a \<noteq> None" using assms(2) by (auto simp: runJob_def split: prod.splits sum.splits)
  then show ?thesis using runJob_ok [OF assms] that by (auto simp: attempt_ok_def split: option.splits)
qed

text \<open>C33: The audio of a request is deleted and no job is left without its audio.  If the SDK keeps its
  contract for the file this request uploads, then however upload, creation, wait, transcript and the
  deletes fail or time out, no job refers to a missing file that did not before; and a request that
  got its transcript while deletes work leaves neither its file nor a job on it.\<close>
theorem jobs_keep_their_audio:
  assumes "soniox_contract sdk f" and "transcribeSoniox sdk number model callerAborted timedOut terms p = (r, p')"
  shows "(\<forall>g. dangling g p' \<longrightarrow> dangling g p) \<and>
    (is_ok r \<and> (\<forall>i q. is_ok (fst (sdk_deleteJob sdk i q)) \<and> is_ok (fst (sdk_deleteFile sdk i q))) \<longrightarrow>
       f \<notin> pv_files p' \<and> jobs_on f p' = {})"
proof -
  obtain s a p1 where j: "runJob sdk model terms p = (s, a, p1)" by (metis prod_cases3)
  then have p': "p' = cleanupJob sdk a p1" and r: "is_ok r = is_ok s"
    using assms(2) by (auto simp: transcribeSoniox_def is_ok_def split: sum.splits)
  note ok = cleanupJob_ok [OF assms(1) runJob_ok [OF assms(1) j]]
  have "dangling g p' \<longrightarrow> dangling g p" for g using ok(1,2) by (cases "g = f") (auto simp: p' spares_others_def)
  moreover have "f \<notin> pv_files p' \<and> jobs_on f p' = {}"
    if w: "is_ok s" "\<forall>i q. is_ok (fst (sdk_deleteJob sdk i q)) \<and> is_ok (fst (sdk_deleteFile sdk i q))"
  proof -
    obtain x where "s = Inr x" using w(1) by (cases s) simp_all
    then obtain i where "at_fileId a = Some f" "at_transcriptionId a = Some i"
      using transcribed_attempt [OF assms(1)] j by metis
    then show ?thesis using ok(3) w(2) unfolding p' by blast
  qed
  ultimately show ?thesis using r by simp
qed

section \<open>Metering\<close>

lemma booked:
  assumes "incrementTranscriptionSeconds now u day seconds c = (b, c')"
  shows "previousTotal b = getDailyTranscriptionSeconds u day c" and "newTotal b = previousTotal b + seconds"
    and "getDailyTranscriptionSeconds u day c' = getDailyTranscriptionSeconds u day c + seconds"
    and "(v, other) \<noteq> (u, day) \<Longrightarrow> getDailyTranscriptionSeconds v other c' = getDailyTranscriptionSeconds v other c"
proof -
  let ?f = "\<lambda>d. d\<lparr>du_transcriptionSeconds := du_transcriptionSeconds d + seconds, du_updatedAt := now\<rparr>"
  have new: "previousTotal b = getDailyTranscriptionSeconds u day c \<and> newTotal b = previousTotal b + seconds \<and>
    getDailyTranscriptionSeconds u day c' = getDailyTranscriptionSeconds u day c + seconds"
  proof (cases "findOne (usage_of u day) c")
    case None
    then show ?thesis using assms
      by (auto simp: incrementTranscriptionSeconds_def getDailyTranscriptionSeconds_def findOneAndUpdate_def findOne_append usage_of_def)
  next
    case (Some d)
    then have "usage_of u day (?f d)" using findOne_Some [OF Some] by (simp add: usage_of_def)
    from findOne_updateFirst [where p = "usage_of u day" and f = ?f, OF Some this] show ?thesis using assms Some
      by (auto simp: incrementTranscriptionSeconds_def getDailyTranscriptionSeconds_def findOneAndUpdate_def)
  qed
  then show "previousTotal b = getDailyTranscriptionSeconds u day c" and "newTotal b = previousTotal b + seconds"
    and "getDailyTranscriptionSeconds u day c' = getDailyTranscriptionSeconds u day c + seconds" by simp_all
  assume o: "(v, other) \<noteq> (u, day)"
  have "findOne (usage_of v other) (updateFirst (usage_of u day) ?f c) = findOne (usage_of v other) c"
    by (rule findOne_updateFirst_other) (use o in \<open>auto simp: usage_of_def\<close>)
  then show "getDailyTranscriptionSeconds v other c' = getDailyTranscriptionSeconds v other c"
    using assms o by (auto simp: incrementTranscriptionSeconds_def getDailyTranscriptionSeconds_def findOneAndUpdate_def
        findOne_append usage_of_def split: option.splits)
qed

lemma billable_bounds:
  assumes "toBillableSeconds ms = Inr n" and "ms \<le> maxAudioDurationMs"
  shows "1 \<le> n \<and> n \<le> 86400"
proof -
  have "ms / 1000 \<le> of_int 86400" using assms(2) by (simp add: maxAudioDurationMs_def)
  then have "\<lceil>ms / 1000\<rceil> \<le> 86400" by (simp only: ceiling_le_iff)
  then show ?thesis using assms(1) by (auto simp: toBillableSeconds_def split: if_splits)
qed

lemma map_sum_Inr: "map_sum f g x = Inr y \<longleftrightarrow> (\<exists>z. x = Inr z \<and> g z = y)"
  by (cases x) auto

lemma transcript_checked:
  assumes "fst (transcribeSoniox sdk number model ca tm terms p) = Inr (t, n)"
  shows "trim t \<noteq> [] \<and> length t \<le> maxTranscriptCharacters \<and> 1 \<le> n \<and> n \<le> 86400"
proof -
  obtain a p' where "runJob sdk model terms p = (Inr (t, n), a, p')"
    using assms by (cases "runJob sdk model terms p"; cases "fst (runJob sdk model terms p)") (auto simp: transcribeSoniox_def)
  then obtain j q where "fst (finishJob sdk j q) = Inr (t, n)"
    by (auto simp: runJob_def split: prod.splits sum.splits) (metis fst_conv)+
  then obtain v w ms where v: "parseTranscription v j = Inr ms" "parseTranscriptText w = Inr t" "toBillableSeconds ms = Inr n"
    by (auto simp: finishJob_def map_sum_Inr split: prod.splits sum.splits)
  have "ms \<le> maxAudioDurationMs"
    using v(1) by (auto simp: parseTranscription_def split: option.splits if_splits)
  moreover have "trim t \<noteq> [] \<and> length t \<le> maxTranscriptCharacters"
    using v(2) by (auto simp: parseTranscriptText_def split: option.splits pvalue.splits if_splits)
  ultimately show ?thesis using billable_bounds [OF v(3)] by blast
qed


end
