(* ===== verification/PurgeProps.thy ===== *)
theory PurgeProps
  imports TranscriptionProps
begin

text \<open>
  The purge command deletes no file that a job may still read, a completed run leaves
  nothing and an audit changes nothing; runs of the transcription properties on
  concrete providers.
\<close>

section \<open>Sweeping\<close>

definition removes :: "(word \<Rightarrow> provider \<Rightarrow> bool \<times> provider) \<Rightarrow> (provider \<Rightarrow> 'a set) \<Rightarrow> ('a \<Rightarrow> word) \<Rightarrow> (provider \<Rightarrow> 'b) \<Rightarrow> bool" where
  \<comment> \<open>a delete touches only its resources, and removes the named one if it succeeds\<close>
  "removes remove res name rest \<longleftrightarrow> (\<forall>i p ok p'. remove i p = (ok, p') \<longrightarrow>
     rest p' = rest p \<and> res p' \<subseteq> res p \<and> (ok \<longrightarrow> i \<notin> name ` res p'))"

definition purge_contract :: "purge_sdk \<Rightarrow> bool" where
  \<comment> \<open>lists are complete unless they end with an error, and nothing else uses the provider\<close>
  "purge_contract sdk \<longleftrightarrow>
     (\<forall>p j f. \<not> snd (ps_listJobs sdk p) \<longrightarrow> (j, f) \<in> pv_jobs p \<longrightarrow> (\<exists>v \<in> set (fst (ps_listJobs sdk p)). id_of v = Some j)) \<and>
     (\<forall>p f. \<not> snd (ps_listFiles sdk p) \<longrightarrow> f \<in> pv_files p \<longrightarrow> (\<exists>v \<in> set (fst (ps_listFiles sdk p)). id_of v = Some f)) \<and>
     removes (ps_deleteJob sdk) pv_jobs fst pv_files \<and> removes (ps_deleteFile sdk) pv_files id pv_jobs"

lemma deleteBatch_removes:
  assumes "removes remove res name rest" and "deleteBatch remove is p = (n, p')"
  shows "rest p' = rest p \<and> res p' \<subseteq> res p \<and> n \<le> length is \<and> (n = length is \<longrightarrow> (\<forall>i \<in> set is. i \<notin> name ` res p'))"
  using assms(2)
proof (induction "is" arbitrary: p n p')
  case (Cons i "is")
  obtain ok p1 where r: "remove i p = (ok, p1)" by fastforce
  obtain k p2 where d: "deleteBatch remove is p1 = (k, p2)" by fastforce
  have p1: "rest p1 = rest p \<and> res p1 \<subseteq> res p \<and> (ok \<longrightarrow> i \<notin> name ` res p1)"
    using assms(1) r unfolding removes_def by blast
  have "n = (if ok then 1 else 0) + k \<and> p' = p2" using Cons.prems r d by (simp add: Let_def)
  then show ?case using p1 Cons.IH [OF d] by (auto split: if_splits)
qed simp

lemma flushBatch_removes:
  assumes "removes remove res name rest" and "flushBatch remove s p = (s', p')"
  shows "rest p' = rest p \<and> res p' \<subseteq> res p \<and> (sw_pending s = [] \<longrightarrow> p' = p) \<and> sw_pending s' = [] \<and>
    (sw_cleared s = (\<not> sw_failed s) \<longrightarrow> sw_cleared s' = (\<not> sw_failed s')) \<and>
    (sw_cleared s' \<longrightarrow> sw_cleared s \<and> (\<forall>i \<in> set (sw_pending s). i \<notin> name ` res p'))"
proof (cases "sw_pending s = []")
  case False
  obtain n p1 where d: "deleteBatch remove (sw_pending s) p = (n, p1)" by fastforce
  then show ?thesis using False assms(2) deleteBatch_removes [OF assms(1) d]
    by (auto simp: flushBatch_def Let_def)
qed (use assms(2) in \<open>auto simp: flushBatch_def\<close>)

lemma sweep_cases:
  obtains (malformed) "id_of v = None" "sweepItems remove collect (v # vs) s p = sweepItems remove collect vs (s\<lparr>sw_failed := True, sw_cleared := False\<rparr>) p"
  | (counted) "\<not> collect" "sweepItems remove collect (v # vs) s p = sweepItems remove collect vs (s\<lparr>sw_count := sw_count s + 1\<rparr>) p"
  | (pended) i where "collect" "id_of v = Some i"
      "sweepItems remove collect (v # vs) s p = sweepItems remove collect vs (s\<lparr>sw_count := sw_count s + 1, sw_pending := sw_pending s @ [i]\<rparr>) p"
  | (flushed) i s1 p1 where "collect" "id_of v = Some i"
      "flushBatch remove (s\<lparr>sw_count := sw_count s + 1, sw_pending := sw_pending s @ [i]\<rparr>) p = (s1, p1)"
      "sweepItems remove collect (v # vs) s p = sweepItems remove collect vs s1 p1"
proof (cases "id_of v")
  case (Some i)
  obtain s1 p1 where "flushBatch remove (s\<lparr>sw_count := sw_count s + 1, sw_pending := sw_pending s @ [i]\<rparr>) p = (s1, p1)" by fastforce
  then show ?thesis
    using counted pended [OF _ Some] flushed [OF _ Some] Some
    by (cases collect; cases "DELETE_CONCURRENCY \<le> Suc (length (sw_pending s))") (simp_all add: Let_def)
qed (use malformed in simp)

lemma sweepItems_frame:
  assumes "removes remove res name rest" and "sweepItems remove collect vs s p = (s', p')"
  shows "rest p' = rest p \<and> res p' \<subseteq> res p \<and> (\<not> collect \<longrightarrow> p' = p \<and> sw_pending s' = sw_pending s)"
  using assms(2)
proof (induction vs arbitrary: s p)
  case (Cons v vs)
  show ?case
  proof (cases rule: sweep_cases [of v remove collect vs s p])
    case (flushed i s1 p1)
    then show ?thesis using flushBatch_removes [OF assms(1) flushed(3)] Cons.IH [of s1 p1] Cons.prems by auto
  qed (use Cons.IH Cons.prems in force)+
qed simp

lemma sweepItems_flags:
  assumes "removes remove res name rest" and "sweepItems remove collect vs s p = (s', p')" and "sw_cleared s \<longleftrightarrow> \<not> sw_failed s"
  shows "sw_cleared s' \<longleftrightarrow> \<not> sw_failed s'"
  using assms(2,3)
proof (induction vs arbitrary: s p)
  case (Cons v vs)
  show ?case
  proof (cases rule: sweep_cases [of v remove collect vs s p])
    case malformed
    show ?thesis by (rule Cons.IH [of "s\<lparr>sw_failed := True, sw_cleared := False\<rparr>" p]) (use malformed Cons.prems in simp_all)
  next
    case counted
    show ?thesis by (rule Cons.IH [of "s\<lparr>sw_count := sw_count s + 1\<rparr>" p]) (use counted Cons.prems in simp_all)
  next
    case (pended i)
    show ?thesis by (rule Cons.IH [of "s\<lparr>sw_count := sw_count s + 1, sw_pending := sw_pending s @ [i]\<rparr>" p])
        (use pended Cons.prems in simp_all)
  next
    case (flushed i s1 p1)
    show ?thesis by (rule Cons.IH [of s1 p1]) (use flushed Cons.prems flushBatch_removes [OF assms(1) flushed(3)] in simp_all)
  qed
qed simp

lemma sweepItems_cleared:
  assumes "removes remove res name rest" and "sweepItems remove collect vs s p = (s', p')" and "sw_cleared s'"
  shows "sw_cleared s \<and> (collect \<longrightarrow> i \<in> set (sw_pending s) \<or> (\<exists>v \<in> set vs. id_of v = Some i) \<longrightarrow>
    i \<in> set (sw_pending s') \<or> i \<notin> name ` res p')"
  using assms(2)
proof (induction vs arbitrary: s p)
  case (Cons v vs)
  show ?case
  proof (cases rule: sweep_cases [of v remove collect vs s p])
    case malformed
    then show ?thesis using Cons.IH [of "s\<lparr>sw_failed := True, sw_cleared := False\<rparr>" p] Cons.prems by simp
  next
    case counted
    then show ?thesis using Cons.IH [of "s\<lparr>sw_count := sw_count s + 1\<rparr>" p] Cons.prems by simp
  next
    case (pended k)
    then show ?thesis using Cons.IH [of "s\<lparr>sw_count := sw_count s + 1, sw_pending := sw_pending s @ [k]\<rparr>" p] Cons.prems by auto
  next
    case (flushed k s1 p1)
    have rest: "sweepItems remove collect vs s1 p1 = (s', p')" using flushed Cons.prems by simp
    have sub: "name ` res p' \<subseteq> name ` res p1" using sweepItems_frame [OF assms(1) rest] by blast
    let ?s2 = "s\<lparr>sw_count := sw_count s + 1, sw_pending := sw_pending s @ [k]\<rparr>"
    have e: "sw_pending ?s2 = sw_pending s @ [k]" "sw_cleared ?s2 = sw_cleared s" by simp_all
    note f = flushBatch_removes [OF assms(1) flushed(3), unfolded e]
    have "sw_cleared s1" using Cons.IH [OF rest] by (rule conjunct1)
    then have "sw_cleared s" and gone: "\<forall>x \<in> set (sw_pending s @ [k]). x \<notin> name ` res p1" using f by blast+
    moreover have "sw_pending s1 = []" using f by blast
    moreover have "(\<exists>w \<in> set (v # vs). id_of w = Some i) \<longleftrightarrow> i = k \<or> (\<exists>w \<in> set vs. id_of w = Some i)" using flushed(2) by auto
    ultimately show ?thesis using Cons.IH [OF rest] sub by (metis in_set_conv_decomp insertI1 list.set(2) set_append subsetD UnCI)
  qed
qed (use assms(3) in simp)

lemma sweepPhase_removes:
  assumes "removes remove res name rest" and "sweepPhase remove collect l p = (s', p')"
  shows "rest p' = rest p" and "res p' \<subseteq> res p" and "\<not> collect \<Longrightarrow> p' = p" and "sw_cleared s' \<longleftrightarrow> \<not> sw_failed s'"
    and "sw_cleared s' \<Longrightarrow> \<not> snd l"
    and "sw_cleared s' \<Longrightarrow> collect \<Longrightarrow> v \<in> set (fst l) \<Longrightarrow> id_of v = Some i \<Longrightarrow> i \<notin> name ` res p'"
proof -
  let ?s0 = "\<lparr>sw_failed = False, sw_count = 0, sw_deleted = 0, sw_pending = [], sw_cleared = True\<rparr>"
  obtain s1 p1 where s: "sweepItems remove collect (fst l) ?s0 p = (s1, p1)" by fastforce
  obtain s2 where s2: "s2 = (if snd l then s1\<lparr>sw_failed := True, sw_cleared := False\<rparr> else s1)" by blast
  have e: "sw_pending s2 = sw_pending s1" "sw_cleared s2 \<longleftrightarrow> \<not> snd l \<and> sw_cleared s1" "sw_failed s2 \<longleftrightarrow> snd l \<or> sw_failed s1"
    by (simp_all add: s2)
  have f: "flushBatch remove s2 p1 = (s', p')" using assms(2) s by (simp add: sweepPhase_def s2)
  note i = sweepItems_frame [OF assms(1) s] and b = flushBatch_removes [OF assms(1) f, unfolded e]
  show "rest p' = rest p" and "res p' \<subseteq> res p" using i b by auto
  show "\<not> collect \<Longrightarrow> p' = p" using i b by simp
  have "sw_cleared s1 \<longleftrightarrow> \<not> sw_failed s1" by (rule sweepItems_flags [OF assms(1) s]) simp
  then show "sw_cleared s' \<longleftrightarrow> \<not> sw_failed s'" using b by blast
  show c: "sw_cleared s' \<Longrightarrow> \<not> snd l" using b by blast
  assume h: "sw_cleared s'" "collect" "v \<in> set (fst l)" "id_of v = Some i"
  then have c1: "sw_cleared s1" and p2: "\<forall>i \<in> set (sw_pending s1). i \<notin> name ` res p'" using b by blast+
  have "name ` res p' \<subseteq> name ` res p1" using b by blast
  then show "i \<notin> name ` res p'" using sweepItems_cleared [OF assms(1) s c1, of i] h p2 by blast
qed

text \<open>C0: The purge never takes audio away from a job.  With complete lists and no traffic, whatever
  deletes fail, no job refers to a missing file that did not before; a run that reports completion after
  \<open>--apply\<close> has left neither a job nor a file; and an audit changes nothing.\<close>
theorem purge_spares_referenced_audio:
  assumes "purge_contract sdk" and "runSonioxPurge sdk mode p = (report, p')"
  shows "(\<forall>f. dangling f p' \<longrightarrow> dangling f p) \<and> (mode = Audit \<longrightarrow> p' = p) \<and>
    (mode = Apply \<and> pr_completed report \<longrightarrow> pv_jobs p' = {} \<and> pv_files p' = {})"
proof -
  obtain t p1 where t: "sweepPhase (ps_deleteJob sdk) (mode = Apply) (ps_listJobs sdk p) p = (t, p1)" by fastforce
  obtain f p2 where f: "sweepPhase (ps_deleteFile sdk) (mode = Apply \<and> sw_cleared t) (ps_listFiles sdk p1) p1 = (f, p2)"
    by fastforce
  have r: "p' = p2" "pr_completed report \<longleftrightarrow> \<not> sw_failed t \<and> \<not> sw_failed f"
    using assms(2) t f by (auto simp: runSonioxPurge_def)
  have rj: "removes (ps_deleteJob sdk) pv_jobs fst pv_files" and rf: "removes (ps_deleteFile sdk) pv_files id pv_jobs"
    using assms(1) by (simp_all add: purge_contract_def)
  note T = sweepPhase_removes [OF rj t] and F = sweepPhase_removes [OF rf f]
  have jobless: "pv_jobs p1 = {}" if c: "mode = Apply" "sw_cleared t"
  proof -
    have "(j, g) \<notin> pv_jobs p1" for j g
    proof
      assume j: "(j, g) \<in> pv_jobs p1"
      then have "(j, g) \<in> pv_jobs p" using T(2) by auto
      then obtain v where "v \<in> set (fst (ps_listJobs sdk p))" "id_of v = Some j"
        using assms(1) T(5) c(2) unfolding purge_contract_def by metis
      then show False using T(6) c j by (force simp: image_iff)
    qed
    then show ?thesis by auto
  qed
  have "dangling g p' \<longrightarrow> dangling g p" for g
  proof (cases "mode = Apply \<and> sw_cleared t")
    case True
    then show ?thesis using jobless F(1) r(1) by (auto simp: dangling_def)
  next
    case False
    then have "p2 = p1" by (rule F(3))
    then show ?thesis using T(1,2) r(1) by (auto simp: dangling_def)
  qed
  moreover have "mode = Audit \<longrightarrow> p' = p" using T(3) F(3) r(1) by auto
  moreover have "pv_jobs p' = {} \<and> pv_files p' = {}" if m: "mode = Apply" "pr_completed report"
  proof -
    have c: "sw_cleared t" "sw_cleared f" using m(2) r(2) T(4) F(4) by auto
    have "g \<notin> pv_files p2" for g
    proof
      assume g: "g \<in> pv_files p2"
      then have "g \<in> pv_files p1" using F(2) by auto
      then obtain v where "v \<in> set (fst (ps_listFiles sdk p1))" "id_of v = Some g"
        using assms(1) F(5) c(2) unfolding purge_contract_def by metis
      then show False using F(6) c m(1) g by auto
    qed
    then show ?thesis using jobless [OF m(1) c(1)] F(1) r(1) by auto
  qed
  ultimately show ?thesis by blast
qed

section \<open>Errors\<close>

lemma policies_agree_on_retry:
  assumes "toApiError LegacyOpenAiV1 e = VoiceApi x" and "toApiError DetailedV1 e = VoiceApi y"
  shows "er_retryable (errorHandler (Api x)) = er_retryable (errorHandler (Api y))"
  using assms by (cases e; cases "fl_reason (case e of ThrownFailure f \<Rightarrow> f)")
    (auto simp: toApiError_def toDetailedApiError_def only_retryable_def split: thrown_value.splits)

fun headers_along :: "cause \<Rightarrow> header_list list" where
  "headers_along (CausePrimitive v) = []"
| "headers_along (CauseError n m ps hs c) = (case hs of None \<Rightarrow> [] | Some h \<Rightarrow> [h]) @ headers_along c"
| "headers_along (CauseObject ps hs) = (case hs of None \<Rightarrow> [] | Some h \<Rightarrow> [h])"

lemma no_sensitive_header_left:
  "hs \<in> set (headers_along (redactProviderCause c)) \<Longrightarrow> (k, v) \<in> set hs \<Longrightarrow> isSensitiveHeaderName k \<Longrightarrow> v = REDACTED_HEADER_VALUE"
  by (induction c) (auto simp: redactHeaders_def split: option.splits)

lemma redaction_keeps_the_rest:
  "list_all2 (list_all2 (\<lambda>(k, v) (k', v'). k' = k \<and> (\<not> isSensitiveHeaderName k \<longrightarrow> v' = v)))
     (headers_along c) (headers_along (redactProviderCause c))"
  by (induction c) (auto simp: redactHeaders_def list_all2_map2 list_all2_same split: option.splits)

section \<open>Concrete runs\<close>

definition demo_job :: pvalue where
  "demo_job = PObj [(''id'', PStr [98]), (''status'', PStr (utf ''completed'')), (''audio_duration_ms'', PNum (2500 / 1))]"

definition demo_sdk :: soniox_sdk where
  "demo_sdk = \<lparr>
     sdk_upload = (\<lambda>p. if [97] \<in> pv_files p \<or> [97] \<in> snd ` pv_jobs p then (Inl ThrownPrimitive, p)
       else (Inr (PObj [(''id'', PStr [97])]), p\<lparr>pv_files := insert [97] (pv_files p)\<rparr>)),
     sdk_create = (\<lambda>opts p. (Inr demo_job, p\<lparr>pv_jobs := insert ([98], co_file_id opts) (pv_jobs p)\<rparr>)),
     sdk_wait = (\<lambda>j p. (Inr demo_job, p)),
     sdk_getTranscript = (\<lambda>j p. (Inr (PObj [(''text'', PStr ([104, 105]))]), p)),
     sdk_deleteJob = (\<lambda>j p. (Inr (), p\<lparr>pv_jobs := {x \<in> pv_jobs p. fst x \<noteq> j}\<rparr>)),
     sdk_deleteFile = (\<lambda>i p. (Inr (), p\<lparr>pv_files := pv_files p - {i}\<rparr>))\<rparr>"

definition demo_provider :: provider where
  "demo_provider = \<lparr>pv_files = {[120]}, pv_jobs = {([121], [120])}\<rparr>"

lemma demo_job_id: "id_of demo_job = Some [98]"
  by (simp add: demo_job_def id_of_def field_of_def)

lemma demo_contract: "soniox_contract demo_sdk [97]"
  unfolding soniox_contract_def
proof (intro conjI allI impI)
  fix p r p' assume "sdk_upload demo_sdk p = (r, p')"
  then show "spares_others [97] p p'"
    and "case learnt r of None \<Rightarrow> dangling [97] p' \<longrightarrow> dangling [97] p | Some i \<Rightarrow> i = [97] \<and> holds_audio [97] {} p'"
    by (force simp: demo_sdk_def spares_others_def dangling_def holds_audio_def jobs_on_def id_of_def field_of_def image_iff split: if_splits)+
next
  fix opts p r p' assume a: "co_file_id opts = [97]" "holds_audio [97] {} p" "sdk_create demo_sdk opts p = (r, p')"
  then have r: "learnt r = Some [98]" "p' = p\<lparr>pv_jobs := insert ([98], [97]) (pv_jobs p)\<rparr>"
    by (auto simp: demo_sdk_def demo_job_id)
  show "spares_others [97] p p'" and "holds_audio [97] (case learnt r of None \<Rightarrow> UNIV | Some j \<Rightarrow> {j}) p'"
    using a(2) unfolding r by (auto simp: spares_others_def dangling_def holds_audio_def jobs_on_def)
qed (auto simp: demo_sdk_def keeps_audio_def spares_others_def dangling_def holds_audio_def jobs_on_def)

definition demo_transcription :: "(thrown_value + word \<times> int) \<times> provider" where
  "demo_transcription = transcribeSoniox demo_sdk (\<lambda>_. NotAnInteger) ''stt'' False False [] demo_provider"

lemma demo_transcription_run: "demo_transcription = (Inr ([104, 105], 3), demo_provider)"
proof -
  have "parseTranscription demo_job [98] = Inr 2500"
    by (simp add: parseTranscription_def completedTranscriptionSchema_def demo_job_def id_of_def field_of_def nullish_def
        as_number_def transcriptionStatusSchema_def maxAudioDurationMs_def)
  moreover have "trim ([104, 105]) \<noteq> []" by (simp add: trim_def white_space_def)
  then have "parseTranscriptText (PObj [(''text'', PStr ([104, 105]))]) = Inr ([104, 105])"
    by (simp add: parseTranscriptText_def field_of_def maxTranscriptCharacters_def)
  moreover have "toBillableSeconds 2500 = Inr 3" by (simp add: toBillableSeconds_def) (simp add: ceiling_eq_iff)
  ultimately have p: "parseTranscription demo_job [98] = Inr 2500" "toBillableSeconds 2500 = Inr 3"
    "parseTranscriptText (PObj [(''text'', PStr ([104, 105]))]) = Inr ([104, 105])" by blast+
  have u: "parseUploadedFileId (PObj [(''id'', PStr [97])]) = Inr [97]" "parseCreatedTranscriptionId demo_job = Inr [98]" by code_simp+
  show ?thesis
    by (simp add: demo_transcription_def transcribeSoniox_def runJob_def finishJob_def cleanupJob_def demo_sdk_def u p
        demo_provider_def) auto
qed

theorem jobs_keep_their_audio_witness:
  "demo_transcription = (Inr ([104, 105], 3), demo_provider) \<and> [97] \<notin> pv_files demo_provider \<and> jobs_on [97] demo_provider = {}"
proof -
  have "transcribeSoniox demo_sdk (\<lambda>_. NotAnInteger) ''stt'' False False [] demo_provider = (Inr ([104, 105], 3), demo_provider)"
    using demo_transcription_run by (simp add: demo_transcription_def)
  from jobs_keep_their_audio [OF demo_contract this] show ?thesis
    using demo_transcription_run by (simp add: demo_sdk_def)
qed

definition demo_purge_sdk :: purge_sdk where
  \<comment> \<open>one job and one file are known, and the delete of the job fails if the flag says so\<close>
  "demo_purge_sdk = \<lparr>
     ps_listJobs = (\<lambda>p. if pv_jobs p \<subseteq> {([121], [120])} then (if pv_jobs p = {} then [] else [PObj [(''id'', PStr [121])]], False) else ([], True)),
     ps_listFiles = (\<lambda>p. if pv_files p \<subseteq> {[120]} then (if pv_files p = {} then [] else [PObj [(''id'', PStr [120])]], False) else ([], True)),
     ps_deleteJob = (\<lambda>j p. (True, p\<lparr>pv_jobs := {x \<in> pv_jobs p. fst x \<noteq> j}\<rparr>)),
     ps_deleteFile = (\<lambda>f p. (True, p\<lparr>pv_files := pv_files p - {f}\<rparr>))\<rparr>"

lemma demo_purge_contract: "purge_contract demo_purge_sdk"
proof -
  have i: "id_of (PObj [(''id'', PStr [121])]) = Some [121]" "id_of (PObj [(''id'', PStr [120])]) = Some [120]" by code_simp+
  show ?thesis
    unfolding purge_contract_def removes_def
    by (auto simp: demo_purge_sdk_def i split: if_splits)
qed

theorem purge_spares_referenced_audio_witness:
  "pv_jobs (snd (runSonioxPurge demo_purge_sdk Apply demo_provider)) = {} \<and>
   pv_files (snd (runSonioxPurge demo_purge_sdk Apply demo_provider)) = {}"
proof -
  have i: "id_of (PObj [(''id'', PStr [121])]) = Some [121]" "id_of (PObj [(''id'', PStr [120])]) = Some [120]" by code_simp+
  obtain r p where r: "runSonioxPurge demo_purge_sdk Apply demo_provider = (r, p)" by fastforce
  have "pr_completed r"
    using r by (auto simp: runSonioxPurge_def sweepPhase_def flushBatch_def demo_purge_sdk_def demo_provider_def i
        DELETE_CONCURRENCY_def Let_def)
  then show ?thesis using purge_spares_referenced_audio [OF demo_purge_contract r] r by simp
qed


end
