(* ===== verification/ProviderClients.thy ===== *)
theory ProviderClients
  imports Auth
begin

text \<open>
  The clients of the sign-in providers: \<open>src/clients/auth/oauth-client.ts\<close>,
  \<open>google-client.ts\<close>, \<open>github-client.ts\<close>, \<open>apple-client.ts\<close>, and the verifier of
  Apple's native tokens, \<open>src/services/apple-native-verifier.ts\<close>, with its route.
  The network, the verification of a signed token (\<open>jose\<close>), the signing of Apple's
  client secret, SHA-256 and the syntax of an email address are parameters.
\<close>

section \<open>Exchanging the code\<close>

record exchange_params =
  xp_code :: string
  xp_codeVerifier :: string
  xp_redirectUri :: string
  xp_clientId :: string
  xp_clientSecret :: "string option"

datatype http_answer = NetworkError | HttpAnswer bool "jvalue option"
  \<comment> \<open>\<open>ok\<close>, and the body if it is JSON\<close>

type_synonym token_endpoint = "(string \<times> string) list \<Rightarrow> (string \<times> string) list \<Rightarrow> http_answer"
  \<comment> \<open>the answer to a form body and extra headers\<close>

fun set_member :: "string \<Rightarrow> 'v \<Rightarrow> (string \<times> 'v) list \<Rightarrow> (string \<times> 'v) list" where
  \<comment> \<open>assigning a property: an existing key keeps its place\<close>
  "set_member k v [] = [(k, v)]"
| "set_member k v ((j, w) # ms) = (if j = k then (k, v) # ms else (j, w) # set_member k v ms)"

definition bodyParams :: "exchange_params \<Rightarrow> (string \<times> string) list \<Rightarrow> (string \<times> string) list" where
  "bodyParams p extra =
     (let b = fold (\<lambda>(k, v). set_member k v) extra
                [(''code'', xp_code p), (''client_id'', xp_clientId p), (''redirect_uri'', xp_redirectUri p),
                 (''code_verifier'', xp_codeVerifier p)] in
      case xp_clientSecret p of None \<Rightarrow> b | Some x \<Rightarrow> set_member ''client_secret'' x b)"

fun truthy :: "jvalue \<Rightarrow> bool" where
  "truthy (JStr s) = (s \<noteq> [])"
| "truthy (JNum n) = (n \<noteq> 0)"
| "truthy JNull = False"
| "truthy _ = True"

definition json_body :: "http_answer \<Rightarrow> thrown + jvalue" where
  "json_body a =
     (case a of
        NetworkError \<Rightarrow> Inl Unknown
      | HttpAnswer ok body \<Rightarrow>
          if \<not> ok then Inl (Api BadGatewayError)
          else (case body of None \<Rightarrow> Inl Unknown | Some v \<Rightarrow> Inr v))"

definition fetchTokenEndpoint ::
  "token_endpoint \<Rightarrow> exchange_params \<Rightarrow> (string \<times> string) list \<Rightarrow> (string \<times> string) list \<Rightarrow> thrown + jvalue" where
  "fetchTokenEndpoint post p extra headers =
     (case json_body (post (bodyParams p extra) headers) of
        Inl e \<Rightarrow> Inl e
      | Inr JNull \<Rightarrow> Inl Unknown
      | Inr v \<Rightarrow>
          (case member ''error'' v of
             Some x \<Rightarrow> if truthy x then Inl (Api BadGatewayError) else Inr v
           | None \<Rightarrow> Inr v))"

definition nonempty_string :: "string \<Rightarrow> jvalue \<Rightarrow> string option" where
  \<comment> \<open>a required member \<open>z.string().min(1)\<close>\<close>
  "nonempty_string k v = (case member k v of Some (JStr s) \<Rightarrow> if s \<noteq> [] then Some s else None | _ \<Rightarrow> None)"

definition optional_string :: "(string \<Rightarrow> bool) \<Rightarrow> string \<Rightarrow> jvalue \<Rightarrow> string option option" where
  \<comment> \<open>an \<open>optional()\<close> member that satisfies the check\<close>
  "optional_string ok k v =
     (case member k v of None \<Rightarrow> Some None | Some (JStr s) \<Rightarrow> if ok s then Some (Some s) else None | _ \<Rightarrow> None)"

definition nullish_string :: "(string \<Rightarrow> bool) \<Rightarrow> string \<Rightarrow> jvalue \<Rightarrow> string option option" where
  \<comment> \<open>a \<open>nullable().optional()\<close> member\<close>
  "nullish_string ok k v = (if member k v = Some JNull then Some None else optional_string ok k v)"

definition exchangeCode :: "token_endpoint \<Rightarrow> string \<Rightarrow> (string \<times> string) list \<Rightarrow> (string \<times> string) list \<Rightarrow> exchange_params \<Rightarrow> thrown + string" where
  \<comment> \<open>the clients differ in the member they read, the extra parameters and headers\<close>
  "exchangeCode post token extra headers p =
     (case fetchTokenEndpoint post p extra headers of
        Inl e \<Rightarrow> Inl e
      | Inr v \<Rightarrow> (case nonempty_string token v of None \<Rightarrow> Inl (Api BadGatewayError) | Some t \<Rightarrow> Inr t))"

section \<open>Google\<close>

type_synonym token_verifier = "string \<Rightarrow> string list \<Rightarrow> string \<Rightarrow> thrown + jvalue"
  \<comment> \<open>\<open>jwtVerify\<close>: token, accepted issuers and audience to the payload\<close>

definition GOOGLE_ISSUERS :: "string list" where
  "GOOGLE_ISSUERS = [''accounts.google.com'', ''https://accounts.google.com'']"

definition googleIdTokenPayload :: "(string \<Rightarrow> bool) \<Rightarrow> jvalue \<Rightarrow> (string \<times> string option \<times> string option) option" where
  \<comment> \<open>\<open>sub\<close>, the name or given name, and the email\<close>
  "googleIdTokenPayload email_ok v =
     (case (nonempty_string ''iss'' v, nonempty_string ''aud'' v, nonempty_string ''sub'' v,
            optional_string (\<lambda>_. True) ''name'' v, optional_string (\<lambda>_. True) ''given_name'' v,
            optional_string email_ok ''email'' v) of
        (Some iss, Some _, Some sub, Some name, Some given, Some email) \<Rightarrow>
          if iss \<in> set GOOGLE_ISSUERS then Some (sub, case name of None \<Rightarrow> given | Some n \<Rightarrow> Some n, email) else None
      | _ \<Rightarrow> None)"

definition googleAuthenticate ::
  "token_endpoint \<Rightarrow> token_verifier \<Rightarrow> (string \<Rightarrow> bool) \<Rightarrow> exchange_params \<Rightarrow> thrown + oauth_identity" where
  "googleAuthenticate post verify email_ok p =
     (case exchangeCode post ''id_token'' [(''grant_type'', ''authorization_code'')] [] p of
        Inl e \<Rightarrow> Inl e
      | Inr token \<Rightarrow>
          (case verify token GOOGLE_ISSUERS (xp_clientId p) of
             Inl e \<Rightarrow> Inl e
           | Inr payload \<Rightarrow>
               (case googleIdTokenPayload email_ok payload of
                  None \<Rightarrow> Inl (Api BadGatewayError)
                | Some (sub, name, email) \<Rightarrow>
                    Inr \<lparr>oi_providerUserId = sub, oi_providerUsername = name, oi_email = email\<rparr>)))"

section \<open>GitHub\<close>

fun decimal :: "nat \<Rightarrow> string" where
  "decimal n = (if n < 10 then [char_of (48 + n)] else decimal (n div 10) @ [char_of (48 + n mod 10)])"

declare decimal.simps [simp del]

definition stringOfInt :: "int \<Rightarrow> string" where
  "stringOfInt i = (if i < 0 then ''-'' @ decimal (nat (- i)) else decimal (nat i))"

definition githubUser :: "(string \<Rightarrow> bool) \<Rightarrow> jvalue \<Rightarrow> (int \<times> string option \<times> string option) option" where
  "githubUser email_ok v =
     (case (member ''id'' v, nullish_string (\<lambda>_. True) ''login'' v, nullish_string email_ok ''email'' v) of
        (Some (JNum i), Some login, Some email) \<Rightarrow> Some (i, login, email)
      | _ \<Rightarrow> None)"

definition fetchUser :: "(string \<Rightarrow> http_answer) \<Rightarrow> (string \<Rightarrow> bool) \<Rightarrow> string \<Rightarrow> thrown + oauth_identity" where
  "fetchUser get email_ok accessToken =
     (case json_body (get accessToken) of
        Inl e \<Rightarrow> Inl e
      | Inr v \<Rightarrow>
          (case githubUser email_ok v of
             None \<Rightarrow> Inl (Api BadGatewayError)
           | Some (i, login, email) \<Rightarrow>
               Inr \<lparr>oi_providerUserId = stringOfInt i, oi_providerUsername = login, oi_email = email\<rparr>))"

definition githubAuthenticate ::
  "token_endpoint \<Rightarrow> (string \<Rightarrow> http_answer) \<Rightarrow> (string \<Rightarrow> bool) \<Rightarrow> exchange_params \<Rightarrow> thrown + oauth_identity" where
  "githubAuthenticate post get email_ok p =
     (case exchangeCode post ''access_token'' [] [(''Accept'', ''application/json'')] p of
        Inl e \<Rightarrow> Inl e
      | Inr token \<Rightarrow> fetchUser get email_ok token)"

section \<open>Apple\<close>

definition APPLE_ISSUER :: string where
  "APPLE_ISSUER = ''https://appleid.apple.com''"

record client_secret_claims =
  cc_iss :: string
  cc_iat :: int
  cc_exp :: int
  cc_aud :: string
  cc_sub :: string

definition createClientSecret :: "(client_secret_claims \<Rightarrow> string) \<Rightarrow> string \<Rightarrow> millis \<Rightarrow> string \<Rightarrow> string" where
  \<comment> \<open>\<open>sign\<close> is the ES256 signature with the configured key\<close>
  "createClientSecret sign teamId clock clientId =
     (let now = clock div 1000 in
      sign \<lparr>cc_iss = teamId, cc_iat = now, cc_exp = now + 300, cc_aud = APPLE_ISSUER, cc_sub = clientId\<rparr>)"

definition audience_ok :: "(jvalue \<Rightarrow> string list option) \<Rightarrow> jvalue \<Rightarrow> bool" where
  \<comment> \<open>a nonempty string or a nonempty array of such; \<open>strings\<close> reads an array of strings\<close>
  "audience_ok strings v =
     (case member ''aud'' v of
        None \<Rightarrow> False
      | Some (JStr s) \<Rightarrow> s \<noteq> []
      | Some a \<Rightarrow> (case strings a of None \<Rightarrow> False | Some xs \<Rightarrow> xs \<noteq> [] \<and> list_all (\<lambda>x. x \<noteq> []) xs))"

definition appleIdTokenPayload ::
  "(jvalue \<Rightarrow> string list option) \<Rightarrow> (string \<Rightarrow> bool) \<Rightarrow> jvalue \<Rightarrow> (string \<times> string option) option" where
  "appleIdTokenPayload strings email_ok v =
     (case (nonempty_string ''iss'' v, nonempty_string ''sub'' v, optional_string email_ok ''email'' v, member ''exp'' v) of
        (Some iss, Some sub, Some email, Some (JNum e)) \<Rightarrow>
          if iss = APPLE_ISSUER \<and> audience_ok strings v \<and> 0 < e \<and> e \<le> MAX_SAFE_INTEGER then Some (sub, email) else None
      | _ \<Rightarrow> None)"

definition apple_identity :: "string \<times> string option \<Rightarrow> oauth_identity" where
  "apple_identity x = \<lparr>oi_providerUserId = fst x, oi_providerUsername = snd x, oi_email = snd x\<rparr>"

definition appleAuthenticate ::
  "token_endpoint \<Rightarrow> token_verifier \<Rightarrow> (string \<Rightarrow> string) \<Rightarrow> (jvalue \<Rightarrow> string list option) \<Rightarrow> (string \<Rightarrow> bool)
   \<Rightarrow> exchange_params \<Rightarrow> thrown + oauth_identity" where
  \<comment> \<open>\<open>clientSecret\<close> is \<open>createClientSecret\<close> for this client\<close>
  "appleAuthenticate post verify clientSecret strings email_ok p =
     (case exchangeCode post ''id_token''
             [(''grant_type'', ''authorization_code''), (''client_secret'', clientSecret (xp_clientId p))] [] p of
        Inl e \<Rightarrow> Inl e
      | Inr token \<Rightarrow>
          (case verify token [APPLE_ISSUER] (xp_clientId p) of
             Inl e \<Rightarrow> Inl e
           | Inr payload \<Rightarrow>
               (case appleIdTokenPayload strings email_ok payload of
                  None \<Rightarrow> Inl (Api BadGatewayError)
                | Some x \<Rightarrow> Inr (apple_identity x))))"

section \<open>Apple's native tokens\<close>

datatype jose_error = JoseError | NotJose
  \<comment> \<open>an error of the \<open>jose\<close> library about the token, or any other\<close>

definition nativePayload :: "jvalue \<Rightarrow> (string \<times> string option \<times> string) option" where
  \<comment> \<open>\<open>sub\<close>, email and nonce\<close>
  "nativePayload v =
     (case (nonempty_string ''iss'' v, nonempty_string ''aud'' v, nonempty_string ''sub'' v,
            optional_string (\<lambda>s. s \<noteq> []) ''email'' v, nonempty_string ''nonce'' v) of
        (Some iss, Some _, Some sub, Some email, Some nonce) \<Rightarrow>
          if iss = APPLE_ISSUER then Some (sub, email, nonce) else None
      | _ \<Rightarrow> None)"

definition verifyIdToken ::
  "(string \<Rightarrow> string list \<Rightarrow> string \<Rightarrow> jose_error + jvalue) \<Rightarrow> (string \<Rightarrow> string) \<Rightarrow> string list
   \<Rightarrow> string \<Rightarrow> string \<Rightarrow> string \<Rightarrow> api_error + oauth_identity" where
  \<comment> \<open>\<open>sha256\<close> is the hexadecimal digest; the client ids are the configured two\<close>
  "verifyIdToken verify sha256 clientIds idToken clientId nonce =
     (if clientId \<notin> set clientIds then Inl BadGatewayError
      else case verify idToken [APPLE_ISSUER] clientId of
        Inl JoseError \<Rightarrow> Inl UnauthenticatedError
      | Inl NotJose \<Rightarrow> Inl BadGatewayError
      | Inr payload \<Rightarrow>
          (case nativePayload payload of
             None \<Rightarrow> Inl BadGatewayError
           | Some (sub, email, tokenNonce) \<Rightarrow>
               if length tokenNonce \<noteq> length (sha256 nonce) then Inl UnauthenticatedError
               else if tokenNonce \<noteq> sha256 nonce then Inl UnauthenticatedError
               else Inr (apple_identity (sub, email))))"

definition postAppleNative ::
  "(string \<Rightarrow> string list \<Rightarrow> string \<Rightarrow> jose_error + jvalue) \<Rightarrow> (string \<Rightarrow> string) \<Rightarrow> string \<Rightarrow> string
   \<Rightarrow> (string \<Rightarrow> string option) \<Rightarrow> (payload \<Rightarrow> string) \<Rightarrow> (auth_state \<Rightarrow> auth_state) \<Rightarrow> millis \<Rightarrow> string
   \<Rightarrow> jvalue \<Rightarrow> auth_state \<Rightarrow> (thrown + auth_tokens \<times> account_status) \<times> auth_state" where
  "postAppleNative verify sha256 webClientId iosClientId oid sign env now potentialUserId body s =
     (case (nonempty_string ''idToken'' body, nonempty_string ''nonce'' body) of
        (Some idToken, Some nonce) \<Rightarrow>
          (case verifyIdToken verify sha256 [webClientId, iosClientId] idToken iosClientId nonce of
             Inl e \<Rightarrow> (Inl (Api e), s)
           | Inr i \<Rightarrow> authenticateAppleNative oid sign env now potentialUserId i s)
      | _ \<Rightarrow> (Inl (Api BadRequestError), s))"

end
