(* ===== verification/FormEncoding.thy ===== *)
theory FormEncoding
  imports Prelude
begin

text \<open>
  \<open>application/x-www-form-urlencoded\<close> as \<open>URLSearchParams\<close> writes and reads it: the
  query of an authorization URL and the body of Apple's form post.  A string is a
  list of bytes.  What is written is read back unchanged.
\<close>

definition upper_hex :: "nat \<Rightarrow> char" where
  "upper_hex n = (if n < 10 then char_of (48 + n) else char_of (55 + n))"

definition hex_value :: "char \<Rightarrow> nat option" where
  "hex_value c = (let n = (of_char c :: nat) in
     if 48 \<le> n \<and> n \<le> 57 then Some (n - 48)
     else if 65 \<le> n \<and> n \<le> 70 then Some (n - 55)
     else if 97 \<le> n \<and> n \<le> 102 then Some (n - 87) else None)"

definition form_literal :: "char \<Rightarrow> bool" where
  \<comment> \<open>\<open>[A-Za-z0-9*._-]\<close>\<close>
  "form_literal c = (key_char c \<or> c = CHR ''*'' \<or> c = CHR ''.'')"

definition encode_char :: "char \<Rightarrow> string" where
  "encode_char c =
     (if form_literal c then [c] else if c = CHR '' '' then ''+''
      else [CHR ''%'', upper_hex ((of_char c :: nat) div 16), upper_hex ((of_char c :: nat) mod 16)])"

definition form_encode :: "string \<Rightarrow> string" where
  "form_encode s = concat (map encode_char s)"

fun serialize_params :: "(string \<times> string) list \<Rightarrow> string" where
  "serialize_params [] = []"
| "serialize_params [(k, v)] = form_encode k @ ''='' @ form_encode v"
| "serialize_params ((k, v) # q # qs) = form_encode k @ ''='' @ form_encode v @ ''&'' @ serialize_params (q # qs)"

fun form_decode :: "string \<Rightarrow> string" where
  "form_decode [] = []"
| "form_decode (c # s) =
     (if c = CHR ''+'' then CHR '' '' # form_decode s
      else if c = CHR ''%'' then
        (case s of
           h # l # t \<Rightarrow>
             (case (hex_value h, hex_value l) of
                (Some m, Some n) \<Rightarrow> char_of (16 * m + n) # form_decode t
              | _ \<Rightarrow> c # form_decode s)
         | _ \<Rightarrow> c # form_decode s)
      else c # form_decode s)"

definition parse_field :: "string \<Rightarrow> string \<times> string" where
  "parse_field s =
     (let k = takeWhile (\<lambda>c. c \<noteq> CHR ''='') s; v = dropWhile (\<lambda>c. c \<noteq> CHR ''='') s in
      (form_decode k, form_decode (tl v)))"

definition parse_form :: "string \<Rightarrow> (string \<times> string) list" where
  "parse_form s = map parse_field (filter (\<lambda>x. x \<noteq> []) (split_on CHR ''&'' s))"

section \<open>Reading what was written\<close>

lemma hex_value_upper: "n < 16 \<Longrightarrow> hex_value (upper_hex n) = Some n"
  by (auto simp: hex_value_def upper_hex_def Let_def)

lemma of_char_less: "(of_char c :: nat) < 256"
  by (rule nat_of_char_less_256)

lemma literal_not_special:
  "form_literal c \<Longrightarrow> c \<noteq> CHR ''+'' \<and> c \<noteq> CHR ''%'' \<and> c \<noteq> CHR ''&'' \<and> c \<noteq> CHR ''=''"
  by (auto simp: form_literal_def key_char_def Let_def)

lemma form_decode_char: "form_decode (encode_char c @ s) = c # form_decode s"
proof (cases "form_literal c \<or> c = CHR '' ''")
  case True
  then show ?thesis using literal_not_special [of c] by (auto simp: encode_char_def)
next
  case False
  let ?n = "of_char c :: nat"
  have "?n div 16 < 16" "?n mod 16 < 16" using of_char_less [of c] by (simp_all add: less_mult_imp_div_less)
  moreover have "char_of (16 * (?n div 16) + ?n mod 16) = c" by simp
  ultimately show ?thesis using False by (simp add: encode_char_def hex_value_upper)
qed

lemma form_decode_encode [simp]: "form_decode (form_encode s) = s"
  by (induction s) (simp_all add: form_encode_def form_decode_char)

lemma upper_hex_plain:
  assumes "n < 16" shows "upper_hex n \<noteq> CHR ''&'' \<and> upper_hex n \<noteq> CHR ''=''"
proof -
  have "hex_value (upper_hex n) = Some n" using assms by (rule hex_value_upper)
  moreover have "hex_value CHR ''&'' = None" "hex_value CHR ''='' = None" by (simp_all add: hex_value_def)
  ultimately show ?thesis by fastforce
qed

lemma encoded_plain: "c \<in> set (form_encode s) \<Longrightarrow> c \<noteq> CHR ''&'' \<and> c \<noteq> CHR ''=''"
proof -
  have "c \<noteq> CHR ''&'' \<and> c \<noteq> CHR ''=''" if "c \<in> set (encode_char x)" for x
  proof -
    have "(of_char x :: nat) div 16 < 16" "(of_char x :: nat) mod 16 < 16" using of_char_less [of x] by (simp_all add: less_mult_imp_div_less)
    then show ?thesis using that literal_not_special [of x] upper_hex_plain
      by (auto simp: encode_char_def split: if_splits)
  qed
  then show "c \<in> set (form_encode s) \<Longrightarrow> ?thesis" by (auto simp: form_encode_def)
qed

lemma parse_field_encoded: "parse_field (form_encode k @ ''='' @ form_encode v) = (k, v)"
proof -
  have "takeWhile (\<lambda>c. c \<noteq> CHR ''='') (form_encode k @ CHR ''='' # form_encode v) = form_encode k"
    "dropWhile (\<lambda>c. c \<noteq> CHR ''='') (form_encode k @ CHR ''='' # form_encode v) = CHR ''='' # form_encode v"
    using encoded_plain [of _ k] by (simp_all add: takeWhile_append dropWhile_append)
  then show ?thesis by (simp add: parse_field_def)
qed

theorem params_roundtrip: "parse_form (serialize_params ps) = ps"
proof (induction ps rule: serialize_params.induct)
  case (2 k v)
  have "CHR ''&'' \<notin> set (form_encode k @ ''='' @ form_encode v)" using encoded_plain by auto
  then show ?case using split_on_none [of "CHR ''&''"] parse_field_encoded [of k v] by (simp add: parse_form_def)
next
  case (3 k v q qs)
  let ?x = "form_encode k @ ''='' @ form_encode v"
  have "CHR ''&'' \<notin> set ?x" using encoded_plain by auto
  then have "split_on CHR ''&'' (?x @ CHR ''&'' # serialize_params (q # qs)) = ?x # split_on CHR ''&'' (serialize_params (q # qs))"
    by (rule split_on_append)
  then show ?case using 3 parse_field_encoded [of k v] by (simp add: parse_form_def)
qed (simp add: parse_form_def)

end
