(* ===== verification/ProviderRoutes.thy ===== *)
theory ProviderRoutes
  imports OAuthFlow ProviderClients FormEncoding
begin

text \<open>
  The sign-in routes of the three providers, \<open>src/routes/auth/github.ts\<close>,
  \<open>google.ts\<close> and \<open>apple.ts\<close>: the direct flow, in which the client brings its own
  PKCE verifier and redirect URI, with its state store \<open>src/lib/state-store.ts\<close> and
  \<open>src/lib/redirect-uri.ts\<close>, and the start of the pending flow.  The LRU cache of the
  store, the parser of a URL and random bytes are parameters.
\<close>

section \<open>Redirect URIs\<close>

type_synonym url_parser = "string \<Rightarrow> (string \<times> string) option"
  \<comment> \<open>protocol and host name, if it is a URL\<close>

definition isLocalhostRedirectUri :: "url_parser \<Rightarrow> string \<Rightarrow> bool" where
  "isLocalhostRedirectUri parse redirectUri =
     (case parse redirectUri of
        None \<Rightarrow> False
      | Some (protocol, hostname) \<Rightarrow>
          protocol = ''http:'' \<and> (hostname = ''localhost'' \<or> hostname = ''127.0.0.1'' \<or> hostname = ''[::1]''))"

definition isAllowedRedirectUri :: "url_parser \<Rightarrow> string \<Rightarrow> string list \<Rightarrow> bool" where
  "isAllowedRedirectUri parse redirectUri allowedRedirectUris =
     (if redirectUri \<in> set allowedRedirectUris then True else isLocalhostRedirectUri parse redirectUri)"

section \<open>The state store\<close>

definition STATE_TTL_MS :: millis where "STATE_TTL_MS = 10 * 60 * 1000"

definition MAX_STATES :: nat where "MAX_STATES = 10000"

record 'c lru_cache =
  lc_set :: "millis \<Rightarrow> string \<Rightarrow> 'c \<Rightarrow> 'c"
  lc_has :: "millis \<Rightarrow> string \<Rightarrow> 'c \<Rightarrow> bool"
  lc_delete :: "string \<Rightarrow> 'c \<Rightarrow> 'c"

definition createState :: "'c lru_cache \<Rightarrow> millis \<Rightarrow> string \<Rightarrow> 'c \<Rightarrow> string \<times> 'c" where
  \<comment> \<open>\<open>st\<close> is the hexadecimal text of 32 random bytes\<close>
  "createState cache now st states = (st, lc_set cache now st states)"

definition validateState :: "'c lru_cache \<Rightarrow> millis \<Rightarrow> string \<Rightarrow> 'c \<Rightarrow> bool \<times> 'c" where
  "validateState cache now st states =
     (if \<not> lc_has cache now st states then (False, states) else (True, lc_delete cache st states))"

section \<open>Authorization URLs\<close>

fun authorize_endpoint :: "oauth_provider \<Rightarrow> string" where
  "authorize_endpoint Github = ''https://github.com/login/oauth/authorize''"
| "authorize_endpoint Google = ''https://accounts.google.com/o/oauth2/v2/auth''"
| "authorize_endpoint Apple = ''https://appleid.apple.com/auth/authorize''"

fun authorize_params :: "oauth_provider \<Rightarrow> string \<Rightarrow> string \<Rightarrow> string \<Rightarrow> string \<Rightarrow> (string \<times> string) list" where
  \<comment> \<open>client id, redirect URI, state and challenge, in the order they are set; the method is S256\<close>
  "authorize_params Github cid uri st challenge =
     [(''client_id'', cid), (''redirect_uri'', uri), (''scope'', ''read:user''), (''state'', st),
      (''code_challenge'', challenge), (''code_challenge_method'', ''S256'')]"
| "authorize_params Google cid uri st challenge =
     [(''client_id'', cid), (''redirect_uri'', uri), (''response_type'', ''code''),
      (''scope'', ''openid profile email''), (''state'', st), (''code_challenge'', challenge),
      (''code_challenge_method'', ''S256''), (''access_type'', ''offline''), (''prompt'', ''consent'')]"
| "authorize_params Apple cid uri st challenge =
     [(''client_id'', cid), (''redirect_uri'', uri), (''response_type'', ''code''), (''scope'', ''name email''),
      (''state'', st), (''code_challenge'', challenge), (''code_challenge_method'', ''S256''),
      (''response_mode'', ''form_post'')]"

definition authUrl :: "oauth_provider \<Rightarrow> string \<Rightarrow> string \<Rightarrow> string \<Rightarrow> string \<Rightarrow> string" where
  "authUrl prov cid uri st challenge =
     authorize_endpoint prov @ ''?'' @ serialize_params (authorize_params prov cid uri st challenge)"

section \<open>The direct flow\<close>

record oauth_config =
  of_clientId :: "oauth_provider \<Rightarrow> string"
  of_clientSecret :: "oauth_provider \<Rightarrow> string option"
  of_allowedRedirectUris :: "string list"
  of_callbackRedirectUri :: "oauth_provider \<Rightarrow> string"
  \<comment> \<open>\<open>getProviderCallbackRedirectUri(AUTH_BASE_URL, provider)\<close>\<close>

record init_query =
  iq_redirect_uri :: "char raw"
  iq_code_challenge :: "char raw"
  iq_code_challenge_method :: "char raw"

definition challenge_char :: "char \<Rightarrow> bool" where
  \<comment> \<open>\<open>[A-Za-z0-9\-._~]\<close>\<close>
  "challenge_char c \<longleftrightarrow> key_char c \<or> c = CHR ''.'' \<or> c = CHR ''~''"

definition initQuerySchema :: "init_query \<Rightarrow> (string \<times> string) option" where
  "initQuerySchema q =
     (case (iq_redirect_uri q, iq_code_challenge q) of
        (Str uri, Str ch) \<Rightarrow>
          if uri \<noteq> [] \<and> 43 \<le> length ch \<and> length ch \<le> 128 \<and> list_all challenge_char ch \<and>
             (iq_code_challenge_method q = Undefined \<or> iq_code_challenge_method q = Str ''S256'')
          then Some (uri, ch) else None
      | _ \<Rightarrow> None)"

definition getInit ::
  "'c lru_cache \<Rightarrow> url_parser \<Rightarrow> oauth_config \<Rightarrow> oauth_provider \<Rightarrow> millis \<Rightarrow> string \<Rightarrow> init_query \<Rightarrow> 'c
   \<Rightarrow> (http_error + string \<times> string) \<times> 'c" where
  \<comment> \<open>\<open>GET /auth/<provider>\<close>: the authorization URL and the state\<close>
  "getInit cache parse cfg prov now random q states =
     (case initQuerySchema q of
        None \<Rightarrow> (Inl BadRequest, states)
      | Some (uri, challenge) \<Rightarrow>
          if \<not> isAllowedRedirectUri parse uri (of_allowedRedirectUris cfg) then (Inl BadRequest, states)
          else if prov = Apple \<and> take 8 uri \<noteq> ''https://'' \<and> \<not> isLocalhostRedirectUri parse uri then (Inl BadRequest, states)
          else (case createState cache now random states of
                  (st, states') \<Rightarrow> (Inr (authUrl prov (of_clientId cfg prov) uri st challenge, st), states')))"

record callback_body =
  cb_codeRaw :: "char raw"
  cb_codeVerifierRaw :: "char raw"
  cb_stateRaw :: "char raw"
  cb_redirectUriRaw :: "char raw"

fun required_string :: "'a raw \<Rightarrow> 'a list option" where
  "required_string (Str s) = (if s = [] then None else Some s)"
| "required_string _ = None"

definition callbackBodySchema :: "callback_body \<Rightarrow> (string \<times> string \<times> string \<times> string) option" where
  \<comment> \<open>code, verifier, state and redirect URI\<close>
  "callbackBodySchema b =
     (case (required_string (cb_codeRaw b), required_string (cb_codeVerifierRaw b), required_string (cb_stateRaw b),
            required_string (cb_redirectUriRaw b)) of
        (Some c, Some v, Some st, Some uri) \<Rightarrow> Some (c, v, st, uri)
      | _ \<Rightarrow> None)"

definition postCallback ::
  "'c lru_cache \<Rightarrow> url_parser \<Rightarrow> oauth_config \<Rightarrow> oauth_provider \<Rightarrow> millis \<Rightarrow> string \<times> string \<times> string \<times> string \<Rightarrow> 'c
   \<Rightarrow> (http_error + exchange_params) \<times> 'c" where
  \<comment> \<open>the JSON callback up to the exchange: its parameters\<close>
  "postCallback cache parse cfg prov now body states =
     (case body of (code, codeVerifier, st, redirectUri) \<Rightarrow>
        if \<not> isAllowedRedirectUri parse redirectUri (of_allowedRedirectUris cfg) then (Inl BadRequest, states)
        else (case validateState cache now st states of
                (False, states') \<Rightarrow> (Inl BadRequest, states')
              | (True, states') \<Rightarrow>
                  (Inr \<lparr>xp_code = code, xp_codeVerifier = codeVerifier, xp_redirectUri = redirectUri,
                        xp_clientId = of_clientId cfg prov,
                        xp_clientSecret = (if prov = Apple then None else of_clientSecret cfg prov)\<rparr>, states')))"

definition postJsonCallback ::
  "'c lru_cache \<Rightarrow> url_parser \<Rightarrow> oauth_config \<Rightarrow> oauth_provider \<Rightarrow> millis \<Rightarrow> callback_body \<Rightarrow> 'c
   \<Rightarrow> (http_error + exchange_params) \<times> 'c" where
  \<comment> \<open>\<open>POST /auth/github/callback\<close> and \<open>/auth/google/callback\<close> up to the exchange\<close>
  "postJsonCallback cache parse cfg prov now b states =
     (case callbackBodySchema b of
        None \<Rightarrow> (Inl BadRequest, states)
      | Some body \<Rightarrow> postCallback cache parse cfg prov now body states)"

definition directSignIn ::
  "(exchange_params \<Rightarrow> thrown + oauth_identity) \<Rightarrow> (string \<Rightarrow> string option) \<Rightarrow> (payload \<Rightarrow> string)
   \<Rightarrow> (auth_state \<Rightarrow> auth_state) \<Rightarrow> millis \<Rightarrow> string \<Rightarrow> oauth_provider \<Rightarrow> exchange_params \<Rightarrow> auth_state
   \<Rightarrow> (thrown + auth_tokens \<times> account_status) \<times> auth_state" where
  \<comment> \<open>the exchange with the provider's client and the sign-in it gives\<close>
  "directSignIn client oid sign env now potentialUserId prov p s =
     authenticateOAuth oid sign env now potentialUserId (provider_name prov) (client p) s"

section \<open>Apple's form post\<close>

record apple_form =
  af_code :: "char raw"
  af_state :: "char raw"
  af_error :: "nat raw"
  af_error_description :: "nat raw"
  af_id_token :: "char raw"
  af_user :: "char raw"

definition form_object :: "string \<Rightarrow> (string \<times> string) list" where
  \<comment> \<open>the parser of the form body: a later value replaces an earlier one\<close>
  "form_object body = fold (\<lambda>(k, v). set_member k v) (parse_form body) []"

definition appleFormPostSchema ::
  "apple_form \<Rightarrow> (string option \<times> string \<times> utext option \<times> utext option \<times> string option) option" where
  "appleFormPostSchema f =
     (case (optional_nonempty (af_code f), required_string (af_state f), optional_nonempty (af_error f),
            optional_nonempty (af_error_description f), optional_nonempty (af_id_token f), optional_nonempty (af_user f)) of
        (Some c, Some st, Some e, Some ed, Some t, Some _) \<Rightarrow> Some (c, st, e, ed, t)
      | _ \<Rightarrow> None)"

definition to_raw :: "'a list option \<Rightarrow> 'a raw" where
  "to_raw m = (case m of None \<Rightarrow> Undefined | Some s \<Rightarrow> Str s)"

datatype apple_callback =
  AppleExchange exchange_params
| AppleRejected http_error
| ApplePage page
| AppleRedirect callback_query
  \<comment> \<open>handed to the pending flow\<close>

definition postAppleCallback ::
  "'c lru_cache \<Rightarrow> url_parser \<Rightarrow> oauth_config \<Rightarrow> millis \<Rightarrow> callback_body \<Rightarrow> apple_form \<Rightarrow> 'c \<Rightarrow> apple_callback \<times> 'c" where
  \<comment> \<open>\<open>POST /auth/apple/callback\<close>; the body read as either schema reads it\<close>
  "postAppleCallback cache parse cfg now b f states =
     (case callbackBodySchema b of
        Some body \<Rightarrow>
          (case postCallback cache parse cfg Apple now body states of
             (Inl e, states') \<Rightarrow> (AppleRejected e, states')
           | (Inr p, states') \<Rightarrow> (AppleExchange p, states'))
      | None \<Rightarrow>
          (case appleFormPostSchema f of
             None \<Rightarrow> (ApplePage (ErrorPage 400 (utf ''Invalid sign-in callback'')
                        (utf ''The Apple callback was missing required information.'')), states)
           | Some (code, st, e, ed, id_token) \<Rightarrow>
               if code = None \<and> id_token \<noteq> None
               then (ApplePage (ErrorPage 400 (utf ''Unsupported Apple response'')
                      (utf ''This Apple sign-in configuration is not supported. Please try again.'')), states)
               else (AppleRedirect \<lparr>q_code = to_raw code, q_state = Str st, q_error = to_raw e,
                       q_error_description = to_raw ed\<rparr>, states)))"

section \<open>Starting the pending flow\<close>

definition client_type_names :: "(string \<times> oauth_client_type) list" where
  "client_type_names = [(''bridge'', ClientBridge), (''app'', ClientApp), (''bridge_macos'', BridgeMacOS),
     (''bridge_windows'', BridgeWindows), (''bridge_linux'', BridgeLinux), (''app_ios'', AppIOS),
     (''app_android'', AppAndroid), (''app_macos'', AppMacOS), (''app_windows'', AppWindows), (''app_linux'', AppLinux)]"

fun replace_separators :: "bool \<Rightarrow> utext \<Rightarrow> utext" where
  \<comment> \<open>\<open>replace(/[-\s]+/g, "_")\<close>; the flag says that a run has begun\<close>
  "replace_separators run [] = []"
| "replace_separators run (c # s) =
     (if c = 45 \<or> white_space c then (if run then replace_separators True s else 95 # replace_separators True s)
      else c # replace_separators False s)"

definition lower_ascii :: "nat \<Rightarrow> nat" where
  "lower_ascii c = (if 65 \<le> c \<and> c \<le> 90 then c + 32 else c)"

datatype version_field = NullVersion | VersionField "nat raw"

datatype device_field = NoDevice | DeviceObject "nat raw" version_field version_field | BadDevice
  \<comment> \<open>name, OS version and app version\<close>

definition versionSchema :: "version_field \<Rightarrow> utext option option" where
  "versionSchema v =
     (case v of
        NullVersion \<Rightarrow> Some None
      | VersionField Undefined \<Rightarrow> Some None
      | VersionField (Str s) \<Rightarrow> if utf16_length (trim s) \<le> 40 then Some (Some (trim s)) else None
      | VersionField NotString \<Rightarrow> None)"

definition deviceInfoSchema :: "nat raw \<Rightarrow> version_field \<Rightarrow> version_field \<Rightarrow> device_info option" where
  "deviceInfoSchema name os app =
     (case (name, versionSchema os, versionSchema app) of
        (Str n, Some o', Some a) \<Rightarrow>
          if trim n \<noteq> [] \<and> utf16_length (trim n) \<le> 120
          then Some \<lparr>device_name = trim n, device_osVersion = o', device_appVersion = a\<rparr> else None
      | _ \<Rightarrow> None)"

definition oauthInitBodySchema ::
  "nat raw \<Rightarrow> device_field \<Rightarrow> (oauth_client_type \<times> device_info option) option" where
  \<comment> \<open>lower-casing is that of ASCII: no other letter becomes one of a client type's name\<close>
  "oauthInitBodySchema ct dev =
     (case (ct, dev) of
        (Str v, _) \<Rightarrow>
          if v = [] then None
          else (case map_of (map (apfst utf) client_type_names) (replace_separators False (map lower_ascii (trim v))) of
                  None \<Rightarrow> None
                | Some t \<Rightarrow>
                    (case dev of
                       NoDevice \<Rightarrow> Some (t, None)
                     | BadDevice \<Rightarrow> None
                     | DeviceObject n os app \<Rightarrow> map_option (\<lambda>d. (t, Some d)) (deviceInfoSchema n os app)))
      | _ \<Rightarrow> None)"

definition postInit ::
  "(string \<Rightarrow> string) \<Rightarrow> (string \<Rightarrow> string) \<Rightarrow> oauth_config \<Rightarrow> oauth_provider \<Rightarrow> millis \<Rightarrow> millis \<Rightarrow> millis
   \<Rightarrow> (nat \<Rightarrow> string) \<Rightarrow> string list \<Rightarrow> string \<Rightarrow> string \<Rightarrow> header \<Rightarrow> nat raw \<Rightarrow> device_field \<Rightarrow> pending_auth_store
   \<Rightarrow> (store_error + http_error + oauth_pending_init_reply) \<times> pending_auth_store" where
  \<comment> \<open>\<open>POST /auth/<provider>/init\<close>\<close>
  "postInit hash challenge cfg prov ttl now now' gen victims verifier random tokenHeader ct dev s =
     (case oauthInitBodySchema ct dev of
        None \<Rightarrow> (Inr (Inl BadRequest), s)
      | Some (t, d) \<Rightarrow>
          (case parseSessionTokenHeader tokenHeader of
             Inl e \<Rightarrow> (Inr (Inl e), s)
           | Inr sessionToken \<Rightarrow>
               (case createPendingOAuthInit hash challenge ttl now gen victims verifier random prov sessionToken (Some t) d s of
                  Inl e \<Rightarrow> (Inl e, s)
                | Inr ((se, codeChallenge), s') \<Rightarrow>
                    (Inr (Inr (createOAuthPendingInitReply now'
                       (authUrl prov (of_clientId cfg prov) (of_callbackRedirectUri cfg prov) (oauthState se) codeChallenge) se)), s'))))"

end
