(* ===== verification/ProviderRoutesProps.thy ===== *)
theory ProviderRoutesProps
  imports ProviderRoutes
begin

text \<open>
  The direct sign-in flow: a state is redeemed at most once, in time and only if it was
  issued, and the authorization URL carries exactly the parameters the route chose;
  what the identity of a sign-in rests on.
\<close>

section \<open>The state store\<close>

definition lru_contract :: "'c lru_cache \<Rightarrow> ('c \<Rightarrow> (string \<times> millis) set) \<Rightarrow> bool" where
  \<comment> \<open>the cache may forget entries, but never shows one that is deleted, replaced or older than the time to live;
     an entry is a key with the time it was set\<close>
  "lru_contract cache entries \<longleftrightarrow>
     (\<forall>now k c. lc_has cache now k c \<longrightarrow> (\<exists>t. (k, t) \<in> entries c \<and> now - t \<le> STATE_TTL_MS)) \<and>
     (\<forall>now k c. entries (lc_set cache now k c) \<subseteq> insert (k, now) {x \<in> entries c. fst x \<noteq> k}) \<and>
     (\<forall>k c. entries (lc_delete cache k c) \<subseteq> {x \<in> entries c. fst x \<noteq> k})"

datatype direct_event =
  DirectInit oauth_provider millis string init_query
| DirectCallback oauth_provider millis callback_body apple_form

definition accepted_state :: "callback_body \<Rightarrow> string" where
  "accepted_state b = (case callbackBodySchema b of None \<Rightarrow> [] | Some (c, v, st, u) \<Rightarrow> st)"

definition directCallback ::
  "'c lru_cache \<Rightarrow> url_parser \<Rightarrow> oauth_config \<Rightarrow> oauth_provider \<Rightarrow> millis \<Rightarrow> callback_body \<Rightarrow> apple_form \<Rightarrow> 'c
   \<Rightarrow> exchange_params option \<times> 'c" where
  \<comment> \<open>the exchange a callback begins, if any\<close>
  "directCallback cache parse cfg prov now b f c =
     (if prov = Apple
      then apfst (\<lambda>r. case r of AppleExchange p \<Rightarrow> Some p | _ \<Rightarrow> None) (postAppleCallback cache parse cfg now b f c)
      else apfst (\<lambda>r. case r of Inl e \<Rightarrow> None | Inr p \<Rightarrow> Some p) (postJsonCallback cache parse cfg prov now b c))"

fun direct_step ::
  "'c lru_cache \<Rightarrow> url_parser \<Rightarrow> oauth_config \<Rightarrow> direct_event
   \<Rightarrow> 'c \<times> (string \<times> millis) list \<times> (string \<times> millis) list \<Rightarrow> 'c \<times> (string \<times> millis) list \<times> (string \<times> millis) list" where
  \<comment> \<open>the cache, the states issued and the states redeemed, each with its time\<close>
  "direct_step cache parse cfg (DirectInit prov now random q) (c, issued, redeemed) =
     (case getInit cache parse cfg prov now random q c of
        (Inl e, c') \<Rightarrow> (c', issued, redeemed)
      | (Inr (url, st), c') \<Rightarrow> (c', issued @ [(st, now)], redeemed))"
| "direct_step cache parse cfg (DirectCallback prov now b f) (c, issued, redeemed) =
     (case directCallback cache parse cfg prov now b f c of
        (None, c') \<Rightarrow> (c', issued, redeemed)
      | (Some p, c') \<Rightarrow> (c', issued, redeemed @ [(accepted_state b, now)]))"

definition direct_run ::
  "'c lru_cache \<Rightarrow> url_parser \<Rightarrow> oauth_config \<Rightarrow> direct_event list \<Rightarrow> 'c
   \<Rightarrow> 'c \<times> (string \<times> millis) list \<times> (string \<times> millis) list" where
  "direct_run cache parse cfg evs c = fold (direct_step cache parse cfg) evs (c, [], [])"

lemma getInit_effect:
  assumes "getInit cache parse cfg prov now random q c = (r, c')"
  shows "(\<exists>e. r = Inl e \<and> c' = c) \<or> (\<exists>url. r = Inr (url, random) \<and> c' = lc_set cache now random c)"
  using assms by (auto simp: getInit_def createState_def split: option.splits if_splits)

lemma postCallback_effect:
  assumes "postCallback cache parse cfg prov now (code, v, st, uri) c = (r, c')"
  shows "(\<exists>e. r = Inl e \<and> c' = c) \<or>
    (\<exists>p. r = Inr p \<and> lc_has cache now st c \<and> c' = lc_delete cache st c \<and> xp_code p = code \<and> xp_codeVerifier p = v \<and>
       xp_redirectUri p = uri \<and> isAllowedRedirectUri parse uri (of_allowedRedirectUris cfg))"
  using assms by (auto simp: postCallback_def validateState_def split: if_splits)

lemma directCallback_effect:
  assumes "directCallback cache parse cfg prov now b f c = (r, c')"
  shows "(r = None \<and> c' = c) \<or>
    (r \<noteq> None \<and> lc_has cache now (accepted_state b) c \<and> c' = lc_delete cache (accepted_state b) c)"
proof (cases "callbackBodySchema b")
  case None
  then show ?thesis using assms
    by (auto simp: directCallback_def postAppleCallback_def postJsonCallback_def split: if_splits option.splits)
next
  case (Some x)
  obtain code v st uri where x: "x = (code, v, st, uri)" by (metis prod_cases4)
  obtain s c1 where s: "postCallback cache parse cfg prov now (code, v, st, uri) c = (s, c1)" by fastforce
  have "r = (case s of Inl e \<Rightarrow> None | Inr p \<Rightarrow> Some p) \<and> c' = c1"
    using assms s Some x
    by (auto simp: directCallback_def postAppleCallback_def postJsonCallback_def split: if_splits sum.splits)
  then show ?thesis using postCallback_effect [OF s] Some x by (auto simp: accepted_state_def)
qed

definition in_time :: "(string \<times> millis) set \<Rightarrow> (string \<times> millis) \<Rightarrow> bool" where
  "in_time issued x \<longleftrightarrow> (\<exists>t0. (fst x, t0) \<in> issued \<and> snd x - t0 \<le> STATE_TTL_MS)"

definition store_ok :: "('c \<Rightarrow> (string \<times> millis) set) \<Rightarrow> 'c \<times> (string \<times> millis) list \<times> (string \<times> millis) list \<Rightarrow> bool" where
  "store_ok entries s = (case s of (c, issued, redeemed) \<Rightarrow>
     entries c \<subseteq> set issued \<and> (\<forall>x \<in> set redeemed. in_time (set issued) x) \<and>
     (distinct (map fst issued) \<longrightarrow> distinct (map fst redeemed) \<and> fst ` set redeemed \<inter> fst ` entries c = {}))"

lemma in_time_mono: "in_time A x \<Longrightarrow> A \<subseteq> B \<Longrightarrow> in_time B x"
  unfolding in_time_def by blast

lemma in_time_issued: "in_time A x \<Longrightarrow> fst x \<in> fst ` A"
  unfolding in_time_def by (metis fst_conv image_eqI)

lemma store_ok_issue:
  assumes "store_ok entries (c, issued, redeemed)" and "entries c' \<subseteq> insert (st, now) {x \<in> entries c. fst x \<noteq> st}"
  shows "store_ok entries (c', issued @ [(st, now)], redeemed)"
proof -
  have sub: "entries c \<subseteq> set issued" and old: "\<forall>x \<in> set redeemed. in_time (set issued) x"
    and once: "distinct (map fst issued) \<Longrightarrow> distinct (map fst redeemed) \<and> fst ` set redeemed \<inter> fst ` entries c = {}"
    using assms(1) by (simp_all add: store_ok_def)
  have sr: "fst ` set redeemed \<subseteq> fst ` set issued" using old in_time_issued by blast
  have sup: "fst ` entries c' \<subseteq> insert st (fst ` entries c)" using assms(2) by auto
  have "distinct (map fst redeemed) \<and> fst ` set redeemed \<inter> fst ` entries c' = {}"
    if d: "distinct (map fst (issued @ [(st, now)]))"
  proof -
    have "distinct (map fst issued)" and n: "st \<notin> fst ` set issued" using d by auto
    from once [OF this(1)] n sr sup show ?thesis by blast
  qed
  moreover have "entries c' \<subseteq> set (issued @ [(st, now)])" using assms(2) sub by auto
  moreover have "\<forall>x \<in> set redeemed. in_time (set (issued @ [(st, now)])) x"
  proof
    fix x assume "x \<in> set redeemed"
    then have "in_time (set issued) x" using old by blast
    then show "in_time (set (issued @ [(st, now)])) x" by (rule in_time_mono) auto
  qed
  ultimately show ?thesis unfolding store_ok_def by blast
qed

lemma store_ok_redeem:
  assumes "store_ok entries (c, issued, redeemed)" and "(st, t) \<in> entries c" and "now - t \<le> STATE_TTL_MS"
    and "entries c' \<subseteq> {x \<in> entries c. fst x \<noteq> st}"
  shows "store_ok entries (c', issued, redeemed @ [(st, now)])"
proof -
  have sub: "entries c \<subseteq> set issued" and old: "\<forall>x \<in> set redeemed. in_time (set issued) x"
    and once: "distinct (map fst issued) \<Longrightarrow> distinct (map fst redeemed) \<and> fst ` set redeemed \<inter> fst ` entries c = {}"
    using assms(1) by (simp_all add: store_ok_def)
  have st: "st \<in> fst ` entries c" using assms(2) by force
  have less: "fst ` entries c' \<subseteq> fst ` entries c - {st}" using assms(4) by auto
  have "distinct (map fst (redeemed @ [(st, now)])) \<and> fst ` set (redeemed @ [(st, now)]) \<inter> fst ` entries c' = {}"
    if d: "distinct (map fst issued)"
  proof -
    have n: "st \<notin> fst ` set redeemed" using once [OF d] st by blast
    have "fst ` set redeemed \<inter> fst ` entries c' = {}" using once [OF d] less by blast
    then show ?thesis using once [OF d] n less by auto
  qed
  moreover have "entries c' \<subseteq> set issued" using assms(4) sub by auto
  moreover have "in_time (set issued) (st, now)" using assms(2,3) sub unfolding in_time_def by auto
  then have "\<forall>x \<in> set (redeemed @ [(st, now)]). in_time (set issued) x" using old by simp
  ultimately show ?thesis unfolding store_ok_def by blast
qed

lemma store_ok_step:
  assumes "lru_contract cache entries" and "store_ok entries s"
  shows "store_ok entries (direct_step cache parse cfg ev s)"
proof -
  obtain c issued redeemed where s: "s = (c, issued, redeemed)" by (metis prod_cases3)
  show ?thesis
  proof (cases ev)
    case (DirectInit prov now random q)
    obtain r c' where g: "getInit cache parse cfg prov now random q c = (r, c')" by fastforce
    from getInit_effect [OF g] show ?thesis
    proof (elim disjE exE conjE)
      fix e assume "r = Inl e" "c' = c"
      then show ?thesis using g assms(2) by (simp add: DirectInit s)
    next
      fix url assume r: "r = Inr (url, random)" and c': "c' = lc_set cache now random c"
      have "entries c' \<subseteq> insert (random, now) {x \<in> entries c. fst x \<noteq> random}"
        using assms(1) unfolding lru_contract_def c' by blast
      from store_ok_issue [OF assms(2) [unfolded s] this] show ?thesis by (simp add: DirectInit s g r)
    qed
  next
    case (DirectCallback prov now b f)
    obtain r c' where g: "directCallback cache parse cfg prov now b f c = (r, c')" by fastforce
    from directCallback_effect [OF g] show ?thesis
    proof (elim disjE conjE)
      assume "r = None" "c' = c"
      then show ?thesis using g assms(2) by (simp add: DirectCallback s)
    next
      assume r: "r \<noteq> None" and h: "lc_has cache now (accepted_state b) c" and c': "c' = lc_delete cache (accepted_state b) c"
      obtain t where t: "(accepted_state b, t) \<in> entries c" "now - t \<le> STATE_TTL_MS"
        using assms(1) h unfolding lru_contract_def by blast
      have e: "entries c' \<subseteq> {x \<in> entries c. fst x \<noteq> accepted_state b}"
        using assms(1) unfolding lru_contract_def c' by blast
      show ?thesis using r store_ok_redeem [OF assms(2) [unfolded s] t e] by (auto simp: DirectCallback s g)
    qed
  qed
qed

lemma store_ok_run:
  assumes "lru_contract cache entries" and "store_ok entries s"
  shows "store_ok entries (fold (direct_step cache parse cfg) evs s)"
  using assms(2)
proof (induction evs arbitrary: s)
  case (Cons ev evs)
  show ?case using Cons.IH [OF store_ok_step [OF assms(1) Cons.prems]] by simp
qed simp

text \<open>C36: The direct flow redeems a state at most once.  Over any sequence of starts and callbacks of the
  three providers, with any redirect URIs and whatever the cache forgets, a code is only exchanged under
  a state that was issued at most ten minutes before, and if the random states are distinct, no state
  is redeemed twice.\<close>
theorem direct_state_single_use:
  assumes "lru_contract cache entries" and "entries c = {}"
    and "direct_run cache parse cfg evs c = (c', issued, redeemed)"
  shows "(\<forall>(st, t) \<in> set redeemed. \<exists>t0. (st, t0) \<in> set issued \<and> t - t0 \<le> STATE_TTL_MS) \<and>
    (distinct (map fst issued) \<longrightarrow> distinct (map fst redeemed))"
proof -
  have "store_ok entries (c, [], [])" using assms(2) by (simp add: store_ok_def)
  from store_ok_run [OF assms(1) this, of parse cfg evs] have "store_ok entries (c', issued, redeemed)"
    using assms(3) by (simp add: direct_run_def)
  then show ?thesis by (fastforce simp: store_ok_def in_time_def)
qed

section \<open>The authorization URL\<close>

lemma init_session:
  assumes "createPendingOAuthInit hash challenge ttl now gen victims verifier random prov token ct d s = Inr ((se, cc), s')"
  shows "oauthState se = random \<and> cc = challenge verifier"
  using assms
  by (auto simp: createPendingOAuthInit_def createSession_def Let_def new_session_def split: sum.splits)


section \<open>What an identity rests on\<close>

lemma google_identity_verified:
  assumes "googleAuthenticate post verify email_ok p = Inr i"
  obtains token payload where "verify token GOOGLE_ISSUERS (xp_clientId p) = Inr payload"
    and "member ''sub'' payload = Some (JStr (oi_providerUserId i))" and "oi_providerUserId i \<noteq> []"
  using assms
  by (auto simp: googleAuthenticate_def googleIdTokenPayload_def nonempty_string_def
      split: sum.splits option.splits jvalue.splits if_splits)

lemma apple_identity_verified:
  assumes "appleAuthenticate post verify secret strings email_ok p = Inr i"
  obtains token payload where "verify token [APPLE_ISSUER] (xp_clientId p) = Inr payload"
    and "member ''sub'' payload = Some (JStr (oi_providerUserId i))" and "oi_providerUserId i \<noteq> []"
  using assms
  by (auto simp: appleAuthenticate_def appleIdTokenPayload_def nonempty_string_def apple_identity_def
      split: sum.splits option.splits jvalue.splits if_splits)

lemma native_identity_verified:
  assumes "verifyIdToken verify sha256 clientIds idToken clientId nonce = Inr i"
  obtains payload where "clientId \<in> set clientIds" and "verify idToken [APPLE_ISSUER] clientId = Inr payload"
    and "member ''sub'' payload = Some (JStr (oi_providerUserId i))" and "member ''nonce'' payload = Some (JStr (sha256 nonce))"
  using assms
  by (auto simp: verifyIdToken_def nativePayload_def nonempty_string_def apple_identity_def
      split: sum.splits option.splits jvalue.splits jose_error.splits if_splits)

section \<open>A run of the direct flow\<close>

definition list_cache :: "(string \<times> millis) list lru_cache" where
  "list_cache = \<lparr>lc_set = (\<lambda>now k c. (k, now) # filter (\<lambda>x. fst x \<noteq> k) c),
     lc_has = (\<lambda>now k c. list_ex (\<lambda>x. fst x = k \<and> now - snd x \<le> STATE_TTL_MS) c),
     lc_delete = (\<lambda>k c. filter (\<lambda>x. fst x \<noteq> k) c)\<rparr>"

lemma list_cache_contract: "lru_contract list_cache set"
  unfolding lru_contract_def list_cache_def by (force simp: list_ex_iff)

definition demo_oauth :: oauth_config where
  "demo_oauth = \<lparr>of_clientId = (\<lambda>_. ''cid''), of_clientSecret = (\<lambda>_. Some ''x''), of_allowedRedirectUris = [''https://a?b=c&d''],
     of_callbackRedirectUri = (\<lambda>_. ''https://s/cb'')\<rparr>"

definition demo_init :: init_query where
  "demo_init = \<lparr>iq_redirect_uri = Str ''https://a?b=c&d'', iq_code_challenge = Str (replicate 43 CHR ''x''),
     iq_code_challenge_method = Undefined\<rparr>"

definition demo_callback :: callback_body where
  "demo_callback = \<lparr>cb_codeRaw = Str ''code'', cb_codeVerifierRaw = Str ''v'', cb_stateRaw = Str ''s1'',
     cb_redirectUriRaw = Str ''https://a?b=c&d''\<rparr>"

definition no_form :: apple_form where
  "no_form = \<lparr>af_code = Undefined, af_state = Undefined, af_error = Undefined, af_error_description = Undefined,
     af_id_token = Undefined, af_user = Undefined\<rparr>"

definition demo_direct :: "(string \<times> millis) list \<times> (string \<times> millis) list \<times> (string \<times> millis) list" where
  \<comment> \<open>a start and two callbacks with its state\<close>
  "demo_direct = direct_run list_cache (\<lambda>_. None) demo_oauth
     [DirectInit Github 0 ''s1'' demo_init, DirectCallback Apple 5 demo_callback no_form,
      DirectCallback Github 6 demo_callback no_form] []"

lemma demo_init_ok: "initQuerySchema demo_init = Some (''https://a?b=c&d'', replicate 43 CHR ''x'')"
  by (simp add: initQuerySchema_def demo_init_def challenge_char_def key_char_def list_all_iff)

lemma demo_direct_run: "demo_direct = ([], [(''s1'', 0)], [(''s1'', 5)])"
proof -
  have b: "callbackBodySchema demo_callback = Some (''code'', ''v'', ''s1'', ''https://a?b=c&d'')"
    by (simp add: callbackBodySchema_def demo_callback_def)
  have i: "getInit list_cache (\<lambda>_. None) demo_oauth Github 0 ''s1'' demo_init [] =
      (Inr (authUrl Github ''cid'' ''https://a?b=c&d'' ''s1'' (replicate 43 CHR ''x''), ''s1''), [(''s1'', 0)])"
    by (simp add: getInit_def demo_init_ok isAllowedRedirectUri_def demo_oauth_def createState_def list_cache_def)
  have c1: "directCallback list_cache (\<lambda>_. None) demo_oauth Apple 5 demo_callback no_form [(''s1'', 0)] =
      (Some \<lparr>xp_code = ''code'', xp_codeVerifier = ''v'', xp_redirectUri = ''https://a?b=c&d'', xp_clientId = ''cid'', xp_clientSecret = None\<rparr>, [])"
    by (simp add: directCallback_def postAppleCallback_def b postCallback_def isAllowedRedirectUri_def demo_oauth_def
        validateState_def list_cache_def STATE_TTL_MS_def)
  have c2: "directCallback list_cache (\<lambda>_. None) demo_oauth Github 6 demo_callback no_form [] = (None, [])"
    by (simp add: directCallback_def postJsonCallback_def b postCallback_def isAllowedRedirectUri_def demo_oauth_def
        validateState_def list_cache_def)
  show ?thesis by (simp add: demo_direct_def direct_run_def i c1 c2 accepted_state_def b)
qed

theorem direct_state_single_use_witness:
  "demo_direct = ([], [(''s1'', 0)], [(''s1'', 5)]) \<and> (5 :: int) - 0 \<le> STATE_TTL_MS"
proof -
  have r: "direct_run list_cache (\<lambda>_. None) demo_oauth
     [DirectInit Github 0 ''s1'' demo_init, DirectCallback Apple 5 demo_callback no_form,
      DirectCallback Github 6 demo_callback no_form] [] = ([], [(''s1'', 0)], [(''s1'', 5)])"
    using demo_direct_run by (simp add: demo_direct_def)
  have "set ([] :: (string \<times> millis) list) = {}" by simp
  from direct_state_single_use [OF list_cache_contract this r] show ?thesis using demo_direct_run by auto
qed


end
