(* ===== verification/InstallScripts.thy ===== *)
theory InstallScripts
  imports Errors FormEncoding
begin

text \<open>
  The install scripts, \<open>src/services/install-script-service.ts\<close>: the newest stable
  release over all pages of the release list, and the cache with its single refresh
  in flight, which keeps serving the last scripts while GitHub is down.  What GitHub
  answers, \<open>Date\<close> parsing and \<open>localeCompare\<close> are parameters.
\<close>

section \<open>Releases\<close>

record github_release =
  gr_tag_name :: string
  gr_draft :: bool
  gr_prerelease :: bool
  gr_published_at :: string

record eligible_release =
  el_tagName :: string
  el_publishedAt :: millis

definition INSTALL_SCRIPT_TAG_PREFIX :: string where "INSTALL_SCRIPT_TAG_PREFIX = ''v''"

definition INSTALL_SCRIPT_CACHE_TTL_MS :: millis where "INSTALL_SCRIPT_CACHE_TTL_MS = 5 * 60 * 1000"

definition decimal_digit :: "char \<Rightarrow> bool" where
  "decimal_digit c = (48 \<le> (of_char c :: nat) \<and> (of_char c :: nat) \<le> 57)"

definition STABLE_VERSION_PATTERN :: "string \<Rightarrow> bool" where
  "STABLE_VERSION_PATTERN s =
     (let parts = split_on CHR ''.'' s in length parts = 3 \<and> list_all (\<lambda>p. p \<noteq> [] \<and> list_all decimal_digit p) parts)"

definition isStableVersionTag :: "string \<Rightarrow> bool" where
  "isStableVersionTag tag =
     (take 1 tag = INSTALL_SCRIPT_TAG_PREFIX \<and> STABLE_VERSION_PATTERN (drop 1 tag))"

definition toVersion :: "string \<Rightarrow> string" where
  "toVersion tag = (if take 1 tag = INSTALL_SCRIPT_TAG_PREFIX then drop 1 tag else tag)"

definition toEligibleRelease :: "(string \<Rightarrow> millis option) \<Rightarrow> github_release \<Rightarrow> eligible_release option" where
  "toEligibleRelease date r =
     (if gr_draft r \<or> gr_prerelease r then None
      else if \<not> isStableVersionTag (gr_tag_name r) then None
      else map_option (\<lambda>t. \<lparr>el_tagName = gr_tag_name r, el_publishedAt = t\<rparr>) (date (gr_published_at r)))"

definition compareEligibleReleases :: "(string \<Rightarrow> string \<Rightarrow> int) \<Rightarrow> eligible_release \<Rightarrow> eligible_release \<Rightarrow> int" where
  "compareEligibleReleases localeCompare l r =
     (let publishedAtDiff = el_publishedAt r - el_publishedAt l in
      if publishedAtDiff \<noteq> 0 then publishedAtDiff else localeCompare (el_tagName r) (el_tagName l))"

fun insert_sorted :: "('a \<Rightarrow> 'a \<Rightarrow> int) \<Rightarrow> 'a \<Rightarrow> 'a list \<Rightarrow> 'a list" where
  "insert_sorted cmp x [] = [x]"
| "insert_sorted cmp x (y # ys) = (if cmp x y \<le> 0 then x # y # ys else y # insert_sorted cmp x ys)"

definition sort_by :: "('a \<Rightarrow> 'a \<Rightarrow> int) \<Rightarrow> 'a list \<Rightarrow> 'a list" where
  \<comment> \<open>\<open>sort\<close> is stable\<close>
  "sort_by cmp xs = foldr (insert_sorted cmp) xs []"

definition findLatestEligibleRelease ::
  "(string \<Rightarrow> millis option) \<Rightarrow> (string \<Rightarrow> string \<Rightarrow> int) \<Rightarrow> github_release list \<Rightarrow> eligible_release option" where
  "findLatestEligibleRelease date lc releases =
     (case sort_by (compareEligibleReleases lc) (List.map_filter (toEligibleRelease date) releases) of
        [] \<Rightarrow> None | r # _ \<Rightarrow> Some r)"

definition selectLatestRelease ::
  "(string \<Rightarrow> millis option) \<Rightarrow> (string \<Rightarrow> string \<Rightarrow> int) \<Rightarrow> github_release list option \<Rightarrow> api_error + eligible_release" where
  \<comment> \<open>\<open>None\<close> is a payload that is not a list of releases\<close>
  "selectLatestRelease date lc payload =
     (case payload of
        None \<Rightarrow> Inl BadGatewayError
      | Some rs \<Rightarrow> (case findLatestEligibleRelease date lc rs of None \<Rightarrow> Inl BadGatewayError | Some r \<Rightarrow> Inr r))"

definition selectMoreRecentRelease ::
  "(string \<Rightarrow> string \<Rightarrow> int) \<Rightarrow> eligible_release option \<Rightarrow> eligible_release option \<Rightarrow> eligible_release option" where
  "selectMoreRecentRelease lc current candidate =
     (case (candidate, current) of
        (None, _) \<Rightarrow> current
      | (Some c, None) \<Rightarrow> Some c
      | (Some c, Some r) \<Rightarrow> if compareEligibleReleases lc r c \<le> 0 then Some r else Some c)"

definition hasNextPage :: "string option \<Rightarrow> bool" where
  "hasNextPage link =
     (case link of
        None \<Rightarrow> False
      | Some l \<Rightarrow> l \<noteq> [] \<and> list_ex (\<lambda>v. sublist ''rel=\"next\"'' v) (split_on CHR '','' l))"

datatype release_page =
  PageFailed
  \<comment> \<open>no answer, an error status, or not JSON\<close>
| ReleasePage "github_release list option" "string option"
  \<comment> \<open>the payload if it is a list of releases, and the link header\<close>

partial_function (option) fetchPages ::
  "(string \<Rightarrow> millis option) \<Rightarrow> (string \<Rightarrow> string \<Rightarrow> int) \<Rightarrow> (nat \<Rightarrow> release_page) \<Rightarrow> nat \<Rightarrow> eligible_release option
   \<Rightarrow> (api_error + eligible_release option) option" where
  \<comment> \<open>the loop over the pages; \<open>None\<close> if it never ends\<close>
  "fetchPages date lc pages page latest =
     (case pages page of
        PageFailed \<Rightarrow> Some (Inl BadGatewayError)
      | ReleasePage None link \<Rightarrow> Some (Inl BadGatewayError)
      | ReleasePage (Some rs) link \<Rightarrow>
          (if hasNextPage link
           then fetchPages date lc pages (page + 1) (selectMoreRecentRelease lc latest (findLatestEligibleRelease date lc rs))
           else Some (Inr (selectMoreRecentRelease lc latest (findLatestEligibleRelease date lc rs)))))"

definition fetchLatestRelease ::
  "(string \<Rightarrow> millis option) \<Rightarrow> (string \<Rightarrow> string \<Rightarrow> int) \<Rightarrow> (nat \<Rightarrow> release_page) \<Rightarrow> (api_error + eligible_release) option" where
  "fetchLatestRelease date lc pages =
     map_option (\<lambda>r. case r of Inl e \<Rightarrow> Inl e | Inr None \<Rightarrow> Inl BadGatewayError | Inr (Some x) \<Rightarrow> Inr x)
       (fetchPages date lc pages 1 None)"

section \<open>The cache\<close>

record cache_entry =
  ce_tag :: string
  ce_installSh :: string
  ce_installPs1 :: string
  ce_expiresAt :: millis

datatype refresh_phase =
  ListingReleases
| FetchingBodies string
  \<comment> \<open>both scripts of the tag are under way\<close>

record refresh =
  rf_existing :: "cache_entry option"
  rf_phase :: refresh_phase
  rf_waiters :: "nat list"

record install_service =
  in_cache :: "cache_entry option"
  in_refresh :: "refresh option"
  in_answers :: "nat \<rightharpoonup> api_error + cache_entry"
  \<comment> \<open>what each request has been answered\<close>

definition isCacheFresh :: "millis \<Rightarrow> cache_entry \<Rightarrow> bool" where
  "isCacheFresh now e \<longleftrightarrow> now < ce_expiresAt e"

definition answer_all :: "nat list \<Rightarrow> api_error + cache_entry \<Rightarrow> install_service \<Rightarrow> install_service" where
  "answer_all ws r s = s\<lparr>in_answers := (\<lambda>i. if i \<in> set ws then Some r else in_answers s i)\<rparr>"

definition getCacheEntry :: "nat \<Rightarrow> millis \<Rightarrow> install_service \<Rightarrow> install_service" where
  \<comment> \<open>a request; it is answered from a fresh cache or waits for the one refresh\<close>
  "getCacheEntry i now s =
     (case in_cache s of
        Some e \<Rightarrow> if isCacheFresh now e then answer_all [i] (Inr e) s
          else (case in_refresh s of
                  Some r \<Rightarrow> s\<lparr>in_refresh := Some (r\<lparr>rf_waiters := rf_waiters r @ [i]\<rparr>)\<rparr>
                | None \<Rightarrow> s\<lparr>in_refresh := Some \<lparr>rf_existing = Some e, rf_phase = ListingReleases, rf_waiters = [i]\<rparr>\<rparr>)
      | None \<Rightarrow>
          (case in_refresh s of
             Some r \<Rightarrow> s\<lparr>in_refresh := Some (r\<lparr>rf_waiters := rf_waiters r @ [i]\<rparr>)\<rparr>
           | None \<Rightarrow> s\<lparr>in_refresh := Some \<lparr>rf_existing = None, rf_phase = ListingReleases, rf_waiters = [i]\<rparr>\<rparr>))"

definition settleRefresh :: "millis \<Rightarrow> api_error + string \<times> string \<times> string \<Rightarrow> refresh \<Rightarrow> install_service \<Rightarrow> install_service" where
  \<comment> \<open>\<open>loadAndCacheScripts\<close> once the load is over, and the \<open>finally\<close> that clears the refresh\<close>
  "settleRefresh now result r s =
     (case result of
        Inr (tag, sh, ps1) \<Rightarrow>
          let e = \<lparr>ce_tag = tag, ce_installSh = sh, ce_installPs1 = ps1, ce_expiresAt = now + INSTALL_SCRIPT_CACHE_TTL_MS\<rparr> in
          answer_all (rf_waiters r) (Inr e) (s\<lparr>in_cache := Some e, in_refresh := None\<rparr>)
      | Inl err \<Rightarrow>
          (case rf_existing r of
             None \<Rightarrow> answer_all (rf_waiters r) (Inl BadGatewayError) (s\<lparr>in_refresh := None\<rparr>)
           | Some old \<Rightarrow>
               let e = old\<lparr>ce_expiresAt := now + INSTALL_SCRIPT_CACHE_TTL_MS\<rparr> in
               answer_all (rf_waiters r) (Inr e) (s\<lparr>in_cache := Some e, in_refresh := None\<rparr>)))"

definition releaseListed :: "millis \<Rightarrow> api_error + eligible_release \<Rightarrow> install_service \<Rightarrow> install_service" where
  \<comment> \<open>\<open>fetchLatestRelease\<close> has settled\<close>
  "releaseListed now result s =
     (case in_refresh s of
        Some r \<Rightarrow>
          if rf_phase r \<noteq> ListingReleases then s
          else (case result of
            Inl e \<Rightarrow> settleRefresh now (Inl e) r s
          | Inr release \<Rightarrow>
              (case rf_existing r of
                 Some old \<Rightarrow>
                   if ce_tag old = el_tagName release
                   then settleRefresh now (Inr (ce_tag old, ce_installSh old, ce_installPs1 old)) r s
                   else s\<lparr>in_refresh := Some (r\<lparr>rf_phase := FetchingBodies (el_tagName release)\<rparr>)\<rparr>
               | None \<Rightarrow> s\<lparr>in_refresh := Some (r\<lparr>rf_phase := FetchingBodies (el_tagName release)\<rparr>)\<rparr>))
      | None \<Rightarrow> s)"

definition fetchScriptBody :: "string option \<Rightarrow> api_error + string" where
  \<comment> \<open>the text of an \<open>ok\<close> answer; an empty one is an error\<close>
  "fetchScriptBody answer =
     (case answer of None \<Rightarrow> Inl BadGatewayError | Some c \<Rightarrow> if c = [] then Inl BadGatewayError else Inr c)"

definition bodiesFetched :: "millis \<Rightarrow> string option \<Rightarrow> string option \<Rightarrow> install_service \<Rightarrow> install_service" where
  "bodiesFetched now sh ps1 s =
     (case in_refresh s of
        Some r \<Rightarrow>
          (case rf_phase r of
             ListingReleases \<Rightarrow> s
           | FetchingBodies tag \<Rightarrow>
               (case (fetchScriptBody sh, fetchScriptBody ps1) of
                  (Inr a, Inr b) \<Rightarrow> settleRefresh now (Inr (tag, a, b)) r s
                | _ \<Rightarrow> settleRefresh now (Inl BadGatewayError) r s))
      | None \<Rightarrow> s)"

definition getInstallSh :: "api_error + cache_entry \<Rightarrow> api_error + string \<times> string" where
  \<comment> \<open>version and body\<close>
  "getInstallSh r = map_sum id (\<lambda>e. (toVersion (ce_tag e), ce_installSh e)) r"

definition getInstallPs1 :: "api_error + cache_entry \<Rightarrow> api_error + string \<times> string" where
  "getInstallPs1 r = map_sum id (\<lambda>e. (toVersion (ce_tag e), ce_installPs1 e)) r"

end
