(* ===== verification/InstallScriptsProps.thy ===== *)
theory InstallScriptsProps
  imports InstallScripts
begin

text \<open>
  The release that is served is the newest stable one of all pages; a served pair of
  scripts was fetched together for one tag; and once scripts have been served, no
  request fails however long GitHub is down.
\<close>

section \<open>Sorting\<close>

definition total_preorder :: "('a \<Rightarrow> 'a \<Rightarrow> int) \<Rightarrow> bool" where
  \<comment> \<open>what a comparison function promises\<close>
  "total_preorder cmp \<longleftrightarrow> (\<forall>x y. sgn (cmp x y) = - sgn (cmp y x)) \<and>
     (\<forall>x y z. cmp x y \<le> 0 \<longrightarrow> cmp y z \<le> 0 \<longrightarrow> cmp x z \<le> 0)"

lemma preorder_refl: assumes "total_preorder cmp" shows "cmp x x \<le> 0"
proof -
  have "sgn (cmp x x) = - sgn (cmp x x)" using assms unfolding total_preorder_def by blast
  then show ?thesis by (simp add: sgn_if split: if_splits)
qed

lemma preorder_total: assumes "total_preorder cmp" and "\<not> cmp x y \<le> 0" shows "cmp y x \<le> 0"
proof -
  have "sgn (cmp x y) = - sgn (cmp y x)" using assms(1) unfolding total_preorder_def by blast
  then show ?thesis using assms(2) by (simp add: sgn_if split: if_splits)
qed

lemma preorder_trans: "total_preorder cmp \<Longrightarrow> cmp x y \<le> 0 \<Longrightarrow> cmp y z \<le> 0 \<Longrightarrow> cmp x z \<le> 0"
  unfolding total_preorder_def by blast

lemma set_insert_sorted [simp]: "set (insert_sorted cmp x xs) = insert x (set xs)"
  by (induction xs) auto

lemma set_sort_by: "set (sort_by cmp xs) = set xs"
  by (induction xs) (simp_all add: sort_by_def)

lemma insert_sorted_sorted:
  assumes "total_preorder cmp"
  shows "sorted_wrt (\<lambda>x y. cmp x y \<le> 0) xs \<Longrightarrow> sorted_wrt (\<lambda>x y. cmp x y \<le> 0) (insert_sorted cmp x xs)"
  by (induction xs) (auto intro: preorder_trans [OF assms] preorder_total [OF assms])

lemma sort_by_sorted: "total_preorder cmp \<Longrightarrow> sorted_wrt (\<lambda>x y. cmp x y \<le> 0) (sort_by cmp xs)"
  by (induction xs) (simp_all add: sort_by_def insert_sorted_sorted)

definition best :: "('a \<Rightarrow> 'a \<Rightarrow> int) \<Rightarrow> 'a option \<Rightarrow> 'a set \<Rightarrow> bool" where
  "best cmp m A \<longleftrightarrow> (case m of None \<Rightarrow> A = {} | Some r \<Rightarrow> r \<in> A \<and> (\<forall>x \<in> A. cmp r x \<le> 0))"

lemma best_first:
  assumes "total_preorder cmp"
  shows "best cmp (case sort_by cmp xs of [] \<Rightarrow> None | r # _ \<Rightarrow> Some r) (set xs)"
proof (cases "sort_by cmp xs")
  case Nil
  then show ?thesis using set_sort_by [of cmp xs] by (simp add: best_def)
next
  case (Cons r rs)
  then show ?thesis using set_sort_by [of cmp xs] sort_by_sorted [OF assms, of xs] preorder_refl [OF assms, of r]
    by (auto simp: best_def)
qed

section \<open>The newest release\<close>

lemma compare_preorder:
  assumes "total_preorder lc"
  shows "total_preorder (compareEligibleReleases lc)"
proof -
  have s: "sgn (lc a b) = - sgn (lc b a)" for a b using assms unfolding total_preorder_def by blast
  show ?thesis
    unfolding total_preorder_def
  proof (intro conjI allI impI)
    fix x y show "sgn (compareEligibleReleases lc x y) = - sgn (compareEligibleReleases lc y x)"
      using s [of "el_tagName y" "el_tagName x"]
      by (cases "el_publishedAt x = el_publishedAt y") (simp_all add: compareEligibleReleases_def Let_def sgn_if)
  next
    fix x y z assume "compareEligibleReleases lc x y \<le> 0" "compareEligibleReleases lc y z \<le> 0"
    then show "compareEligibleReleases lc x z \<le> 0"
      using preorder_trans [OF assms, of "el_tagName z" "el_tagName y" "el_tagName x"]
      by (auto simp: compareEligibleReleases_def Let_def split: if_splits)
  qed
qed

definition eligible_on :: "(string \<Rightarrow> millis option) \<Rightarrow> release_page \<Rightarrow> eligible_release set" where
  "eligible_on date p = (case p of ReleasePage (Some rs) link \<Rightarrow> set (List.map_filter (toEligibleRelease date) rs) | _ \<Rightarrow> {})"

definition goes_on :: "release_page \<Rightarrow> bool" where
  "goes_on p = (case p of ReleasePage (Some rs) link \<Rightarrow> hasNextPage link | _ \<Rightarrow> False)"

definition readable :: "release_page \<Rightarrow> bool" where
  "readable p = (case p of ReleasePage (Some rs) link \<Rightarrow> True | _ \<Rightarrow> False)"

lemma best_page:
  assumes "total_preorder lc"
  shows "best (compareEligibleReleases lc) (findLatestEligibleRelease date lc rs) (eligible_on date (ReleasePage (Some rs) link))"
  using best_first [OF compare_preorder [OF assms]] by (simp add: findLatestEligibleRelease_def eligible_on_def)

lemma best_union:
  assumes "total_preorder lc" and "best (compareEligibleReleases lc) m A" and "best (compareEligibleReleases lc) n B"
  shows "best (compareEligibleReleases lc) (selectMoreRecentRelease lc m n) (A \<union> B)"
proof -
  note p = compare_preorder [OF assms(1)]
  show ?thesis using assms(2,3)
    by (auto simp: best_def selectMoreRecentRelease_def split: option.splits
        intro: preorder_trans [OF p] preorder_total [OF p] dest: preorder_total [OF p])
qed

lemma fetch_from:
  assumes lc: "total_preorder lc" and "k \<le> n" and "\<And>j. k \<le> j \<Longrightarrow> j < n \<Longrightarrow> goes_on (pages j)" and last: "\<not> goes_on (pages n)"
    and "best (compareEligibleReleases lc) m A"
  shows "\<exists>r. fetchPages date lc pages k m = Some (if readable (pages n) then Inr r else Inl BadGatewayError) \<and>
    (readable (pages n) \<longrightarrow> best (compareEligibleReleases lc) r (A \<union> (\<Union>j \<in> {k..n}. eligible_on date (pages j))))"
  using assms(2,3,5)
proof (induction "n - k" arbitrary: k m A)
  case 0
  then have k: "k = n" by simp
  show ?case
  proof (cases "readable (pages n)")
    case True
    then obtain rs link where p: "pages n = ReleasePage (Some rs) link" by (auto simp: readable_def split: release_page.splits option.splits)
    have nx: "\<not> hasNextPage link" using last by (simp add: goes_on_def p)
    then have "fetchPages date lc pages n m = Some (Inr (selectMoreRecentRelease lc m (findLatestEligibleRelease date lc rs)))"
      by (subst fetchPages.simps) (simp add: p)
    then show ?thesis using best_union [OF lc 0(4) best_page [OF lc]] True by (simp add: k p)
  next
    case False
    then have "fetchPages date lc pages n m = Some (Inl BadGatewayError)"
      by (subst fetchPages.simps) (auto simp: readable_def split: release_page.splits option.splits)
    then show ?thesis using False by (simp add: k)
  qed
next
  case (Suc d)
  then have k: "k < n" by simp
  then have "goes_on (pages k)" using Suc.prems(2) by simp
  then obtain rs link where p: "pages k = ReleasePage (Some rs) link" "hasNextPage link"
    by (auto simp: goes_on_def split: release_page.splits option.splits)
  let ?m = "selectMoreRecentRelease lc m (findLatestEligibleRelease date lc rs)"
  have step: "fetchPages date lc pages k m = fetchPages date lc pages (k + 1) ?m"
    by (subst fetchPages.simps) (simp add: p)
  have b: "best (compareEligibleReleases lc) ?m (A \<union> eligible_on date (pages k))"
    using best_union [OF lc Suc.prems(3) best_page [OF lc]] by (simp add: p)
  have "{k..n} = insert k {k + 1..n}" using k by auto
  then have u: "A \<union> (\<Union>j \<in> {k..n}. eligible_on date (pages j)) =
      (A \<union> eligible_on date (pages k)) \<union> (\<Union>j \<in> {k + 1..n}. eligible_on date (pages j))" by auto
  show ?case unfolding step u
    by (rule Suc.hyps(1)) (use Suc.hyps(2) Suc.prems(2) k b in auto)
qed

lemma eligible_stable: "r \<in> eligible_on date p \<Longrightarrow> isStableVersionTag (el_tagName r)"
  by (auto simp: eligible_on_def toEligibleRelease_def List.map_filter_def split: release_page.splits option.splits if_splits)

lemma best_newest:
  assumes "best (compareEligibleReleases lc) (Some r) S"
  shows "r \<in> S \<and> (\<forall>x \<in> S. el_publishedAt x \<le> el_publishedAt r \<and>
     (el_publishedAt x = el_publishedAt r \<longrightarrow> lc (el_tagName x) (el_tagName r) \<le> 0))"
proof -
  have "el_publishedAt x \<le> el_publishedAt r \<and> (el_publishedAt x = el_publishedAt r \<longrightarrow> lc (el_tagName x) (el_tagName r) \<le> 0)"
    if "x \<in> S" for x
  proof -
    have "compareEligibleReleases lc r x \<le> 0" using assms that by (simp add: best_def)
    then show ?thesis by (simp add: compareEligibleReleases_def Let_def split: if_splits)
  qed
  then show ?thesis using assms by (simp add: best_def)
qed

text \<open>C38: The newest stable release wins, and the search returns.  If some page has no next link or cannot
  be read, the search over the pages ends; it fails exactly if the last page it reads cannot be read or
  no page has an eligible release, and otherwise gives a release with a clean three-part version tag
  that no eligible release of any page postdates, the greatest tag among those published at once with it.\<close>
theorem newest_stable_release_wins:
  assumes "total_preorder lc" and "1 \<le> n" and "\<not> goes_on (pages n)" and "\<And>j. 1 \<le> j \<Longrightarrow> j < n \<Longrightarrow> goes_on (pages j)"
  shows "\<exists>res. fetchLatestRelease date lc pages = Some res \<and>
    (let found = (\<Union>j \<in> {1..n}. eligible_on date (pages j)) in
     case res of
       Inl e \<Rightarrow> e = BadGatewayError \<and> (\<not> readable (pages n) \<or> found = {})
     | Inr r \<Rightarrow> readable (pages n) \<and> r \<in> found \<and> isStableVersionTag (el_tagName r) \<and>
         (\<forall>x \<in> found. el_publishedAt x \<le> el_publishedAt r \<and>
           (el_publishedAt x = el_publishedAt r \<longrightarrow> lc (el_tagName x) (el_tagName r) \<le> 0)))"
proof -
  have "best (compareEligibleReleases lc) None {}" by (simp add: best_def)
  from fetch_from [where k = 1 and n = n and pages = pages and date = date, OF assms(1,2,4,3) this] obtain r where
    r: "fetchPages date lc pages 1 None = Some (if readable (pages n) then Inr r else Inl BadGatewayError)"
      "readable (pages n) \<Longrightarrow> best (compareEligibleReleases lc) r (\<Union>j \<in> {1..n}. eligible_on date (pages j))" by auto
  show ?thesis
  proof (cases "readable (pages n)")
    case True
    show ?thesis
    proof (cases r)
      case None
      then show ?thesis using r True by (simp add: fetchLatestRelease_def best_def)
    next
      case (Some a)
      note newest = best_newest [OF r(2) [OF True, unfolded Some]]
      then have "isStableVersionTag (el_tagName a)" using eligible_stable by blast
      then show ?thesis using r(1) True Some newest by (simp add: fetchLatestRelease_def Let_def)
    qed
  next
    case False
    then show ?thesis using r(1) by (simp add: fetchLatestRelease_def)
  qed
qed

section \<open>Runs of the service\<close>

inductive install_step ::
  "install_service \<times> (string \<times> string \<times> string) set \<Rightarrow> install_service \<times> (string \<times> string \<times> string) set \<Rightarrow> bool" where
  \<comment> \<open>the set holds the scripts that were fetched together for a tag\<close>
  request: "install_step (s, L) (getCacheEntry i now s, L)"
| listed: "(\<And>r. result = Inr r \<Longrightarrow> isStableVersionTag (el_tagName r)) \<Longrightarrow> install_step (s, L) (releaseListed now result s, L)"
| bodies: "in_refresh s = Some r \<Longrightarrow> rf_phase r = FetchingBodies tag \<Longrightarrow>
    install_step (s, L) (bodiesFetched now sh ps1 s, (case (sh, ps1) of (Some a, Some b) \<Rightarrow> insert (tag, a, b) L | _ \<Rightarrow> L))"

definition new_install_service :: install_service where
  "new_install_service = \<lparr>in_cache = None, in_refresh = None, in_answers = Map.empty\<rparr>"

definition entry_ok :: "(string \<times> string \<times> string) set \<Rightarrow> cache_entry \<Rightarrow> bool" where
  "entry_ok L e \<longleftrightarrow> (ce_tag e, ce_installSh e, ce_installPs1 e) \<in> L \<and> isStableVersionTag (ce_tag e) \<and>
     ce_installSh e \<noteq> [] \<and> ce_installPs1 e \<noteq> []"

definition install_ok :: "install_service \<times> (string \<times> string \<times> string) set \<Rightarrow> bool" where
  "install_ok x \<longleftrightarrow> (case x of (s, L) \<Rightarrow>
     (\<forall>e. in_cache s = Some e \<longrightarrow> entry_ok L e) \<and>
     (\<forall>i e. in_answers s i = Some (Inr e) \<longrightarrow> entry_ok L e) \<and>
     (\<forall>r. in_refresh s = Some r \<longrightarrow> rf_existing r = in_cache s \<and>
        (\<forall>tag. rf_phase r = FetchingBodies tag \<longrightarrow> isStableVersionTag tag)))"

lemma entry_ok_mono: "entry_ok L e \<Longrightarrow> L \<subseteq> M \<Longrightarrow> entry_ok M e"
  by (auto simp: entry_ok_def)

lemma entry_ok_expiry [simp]: "entry_ok L (e\<lparr>ce_expiresAt := t\<rparr>) = entry_ok L e"
  by (simp add: entry_ok_def)

lemma answer_all_fields [simp]:
  "in_cache (answer_all ws r s) = in_cache s" "in_refresh (answer_all ws r s) = in_refresh s"
  "in_answers (answer_all ws r s) i = (if i \<in> set ws then Some r else in_answers s i)"
  by (simp_all add: answer_all_def)

lemma settle_ok:
  assumes "install_ok (s, L)" and "in_refresh s = Some r"
    and "\<And>tag a b. result = Inr (tag, a, b) \<Longrightarrow> (tag, a, b) \<in> L \<and> isStableVersionTag tag \<and> a \<noteq> [] \<and> b \<noteq> []"
  shows "install_ok (settleRefresh now result r s, L)"
proof (cases result)
  case (Inl e)
  then show ?thesis using assms(1,2)
    by (cases "in_cache s") (auto simp: settleRefresh_def install_ok_def Let_def split: if_splits)
next
  case (Inr x)
  obtain tag a b where x: "x = (tag, a, b)" by (metis prod_cases3)
  then show ?thesis using assms(1,3) Inr
    by (auto simp: settleRefresh_def install_ok_def Let_def entry_ok_def split: if_splits)
qed

lemma listed_ok:
  assumes "install_ok (s, L)" and "\<And>r. result = Inr r \<Longrightarrow> isStableVersionTag (el_tagName r)"
  shows "install_ok (releaseListed now result s, L)"
proof (cases "in_refresh s")
  case (Some r)
  show ?thesis
  proof (cases "rf_phase r = ListingReleases")
    case listing: True
    show ?thesis
    proof (cases result)
      case (Inl e)
      then show ?thesis using settle_ok [OF assms(1) Some, of "Inl e" now] Some listing by (simp add: releaseListed_def)
    next
      case (Inr rel)
      then have st: "isStableVersionTag (el_tagName rel)" using assms(2) by blast
      have next_phase: "install_ok (s\<lparr>in_refresh := Some (r\<lparr>rf_phase := FetchingBodies (el_tagName rel)\<rparr>)\<rparr>, L)"
        using assms(1) Some st by (simp add: install_ok_def)
      show ?thesis
      proof (cases "rf_existing r")
        case None
        then show ?thesis using next_phase Some listing Inr by (simp add: releaseListed_def)
      next
        case (Some old)
        have "entry_ok L old" using assms(1) \<open>in_refresh s = Some r\<close> Some by (auto simp: install_ok_def)
        then have "install_ok (settleRefresh now (Inr (ce_tag old, ce_installSh old, ce_installPs1 old)) r s, L)"
          by (intro settle_ok [OF assms(1) \<open>in_refresh s = Some r\<close>]) (simp add: entry_ok_def)
        then show ?thesis using next_phase Some listing Inr \<open>in_refresh s = Some r\<close>
          by (cases "ce_tag old = el_tagName rel") (auto simp: releaseListed_def)
      qed
    qed
  next
    case False
    then show ?thesis using assms(1) Some by (simp add: releaseListed_def)
  qed
qed (use assms(1) in \<open>simp add: releaseListed_def\<close>)

lemma bodies_ok:
  assumes "install_ok (s, L)" and "in_refresh s = Some r" and "rf_phase r = FetchingBodies tag"
  shows "install_ok (bodiesFetched now sh ps1 s, (case (sh, ps1) of (Some a, Some b) \<Rightarrow> insert (tag, a, b) L | _ \<Rightarrow> L))" (is "install_ok (_, ?M)")
proof -
  obtain result where r: "result = (case (fetchScriptBody sh, fetchScriptBody ps1) of (Inr a, Inr b) \<Rightarrow> Inr (tag, a, b) | _ \<Rightarrow> Inl BadGatewayError)"
    by blast
  have e: "bodiesFetched now sh ps1 s = settleRefresh now result r s"
    using assms(2,3) by (simp add: bodiesFetched_def r split: sum.split)
  have "L \<subseteq> ?M" by (auto split: option.splits)
  then have ok: "install_ok (s, ?M)" using assms(1) entry_ok_mono unfolding install_ok_def by auto blast+
  have st: "isStableVersionTag tag" using assms by (simp add: install_ok_def)
  have "(tg, a, b) \<in> ?M \<and> isStableVersionTag tg \<and> a \<noteq> [] \<and> b \<noteq> []" if "result = Inr (tg, a, b)" for tg a b
    using that st by (cases sh; cases ps1) (auto simp: r fetchScriptBody_def split: if_splits)
  from settle_ok [OF ok assms(2) this] show ?thesis unfolding e .
qed

lemma request_ok: "install_ok (s, L) \<Longrightarrow> install_ok (getCacheEntry i now s, L)"
  by (cases "in_cache s"; cases "in_refresh s") (auto simp: getCacheEntry_def install_ok_def split: if_splits)

lemma install_ok_step: "install_step x y \<Longrightarrow> install_ok x \<Longrightarrow> install_ok y"
proof (induction rule: install_step.induct)
  case (request s L i now)
  then show ?case by (rule request_ok)
next
  case (listed result s L now)
  show ?case by (rule listed_ok [OF listed(2)]) (rule listed(1))
next
  case (bodies s r tag L now sh ps1)
  show ?case by (rule bodies_ok [OF bodies(3,1,2)])
qed

lemma install_ok_reachable:
  assumes "install_step\<^sup>*\<^sup>* (new_install_service, {}) x"
  shows "install_ok x"
  using assms
proof (induction rule: rtranclp_induct)
  case base
  show ?case by (simp add: install_ok_def new_install_service_def)
qed (rule install_ok_step)

lemma cached_step:
  assumes "install_step (s, L) (t, M)" and "install_ok (s, L)" and "in_cache s \<noteq> None"
  shows "in_cache t \<noteq> None \<and> (\<forall>i e. in_answers t i = Some (Inl e) \<longrightarrow> in_answers s i = Some (Inl e))"
  using assms
proof (cases rule: install_step.cases)
  case (request i now)
  then show ?thesis using assms(3) by (auto simp: getCacheEntry_def split: option.splits if_splits)
next
  case (listed result now)
  then show ?thesis using assms(2,3)
    by (auto simp: releaseListed_def settleRefresh_def Let_def install_ok_def split: option.splits if_splits sum.splits)
next
  case (bodies r tag now sh ps1)
  then show ?thesis using assms(2,3)
    by (auto simp: bodiesFetched_def settleRefresh_def Let_def install_ok_def split: option.splits if_splits sum.splits)
qed

lemma cached_run:
  assumes "install_step\<^sup>*\<^sup>* x y" and "install_ok x" and "in_cache (fst x) \<noteq> None"
  shows "in_cache (fst y) \<noteq> None \<and> (\<forall>i e. in_answers (fst y) i = Some (Inl e) \<longrightarrow> in_answers (fst x) i = Some (Inl e))"
  using assms
proof (induction rule: rtranclp_induct)
  case (step y z)
  have "install_ok y" using step.hyps(1) step.prems(1) by (induction rule: rtranclp_induct) (auto intro: install_ok_step)
  moreover obtain s L t M where "y = (s, L)" "z = (t, M)" by (cases y; cases z) auto
  ultimately show ?case using cached_step [of s L t M] step by fastforce
qed simp

text \<open>C39: An outage never serves mixed scripts and, once scripts have been cached, never an error.  In every
  run of requests and refreshes, what a request is answered with is a pair of nonempty scripts that were
  fetched together for one stable tag; and after the cache has been filled, no request is answered
  with an error, whatever GitHub does.\<close>
theorem install_scripts_survive_outages:
  assumes "install_step\<^sup>*\<^sup>* (new_install_service, {}) (s, L)" and "install_step\<^sup>*\<^sup>* (s, L) (t, M)"
  shows "(\<forall>i e. in_answers t i = Some (Inr e) \<longrightarrow> (ce_tag e, ce_installSh e, ce_installPs1 e) \<in> M \<and>
      isStableVersionTag (ce_tag e) \<and> ce_installSh e \<noteq> [] \<and> ce_installPs1 e \<noteq> []) \<and>
    (in_cache s \<noteq> None \<longrightarrow> (\<forall>i e. in_answers t i = Some (Inl e) \<longrightarrow> in_answers s i = Some (Inl e)))"
proof -
  have s: "install_ok (s, L)" by (rule install_ok_reachable [OF assms(1)])
  have "install_ok (t, M)" by (rule install_ok_reachable [OF rtranclp_trans [OF assms]])
  then have "\<forall>i e. in_answers t i = Some (Inr e) \<longrightarrow> entry_ok M e" by (simp add: install_ok_def)
  then show ?thesis using cached_run [OF assms(2) s] unfolding entry_ok_def by auto
qed

section \<open>Concrete runs\<close>

definition demo_release :: "string \<Rightarrow> string \<Rightarrow> github_release" where
  "demo_release tag at = \<lparr>gr_tag_name = tag, gr_draft = False, gr_prerelease = False, gr_published_at = at\<rparr>"

definition demo_date :: "string \<Rightarrow> millis option" where
  "demo_date s = Some (int (length s))"

definition demo_compare :: "string \<Rightarrow> string \<Rightarrow> int" where
  "demo_compare a b = int (length a) - int (length b)"

definition demo_pages :: "nat \<Rightarrow> release_page" where
  "demo_pages n = (if n = 1 then ReleasePage (Some [demo_release ''v1.0.0'' ''x'']) (Some ''<u>; rel=\"next\"'')
     else ReleasePage (Some [demo_release ''v1.10.0'' ''xxx'', demo_release ''v2.0.0-rc'' ''xxxx'']) None)"

lemma demo_compare_preorder: "total_preorder demo_compare"
  by (auto simp: total_preorder_def demo_compare_def sgn_if)

theorem newest_stable_release_wins_witness:
  "fetchLatestRelease demo_date demo_compare demo_pages = Some (Inr \<lparr>el_tagName = ''v1.10.0'', el_publishedAt = 3\<rparr>)"
proof -
  have e1: "eligible_on demo_date (demo_pages 1) = {\<lparr>el_tagName = ''v1.0.0'', el_publishedAt = 1\<rparr>}" by code_simp
  have e2: "eligible_on demo_date (demo_pages 2) = {\<lparr>el_tagName = ''v1.10.0'', el_publishedAt = 3\<rparr>}" by code_simp
  have g: "goes_on (demo_pages 1)" "\<not> goes_on (demo_pages 2)" "readable (demo_pages 2)" by code_simp+
  have j: "goes_on (demo_pages j)" if "1 \<le> j" "j < 2" for j using that g(1) by (cases "j = 1") auto
  have u: "(\<Union>j \<in> {1..2}. eligible_on demo_date (demo_pages j)) =
      {\<lparr>el_tagName = ''v1.0.0'', el_publishedAt = 1\<rparr>, \<lparr>el_tagName = ''v1.10.0'', el_publishedAt = 3\<rparr>}"
  proof -
    have "{1..2 :: nat} = {1, 2}" by auto
    then show ?thesis using e1 e2 by auto
  qed
  have one: "1 \<le> (2 :: nat)" by simp
  note w = newest_stable_release_wins [where n = 2 and pages = demo_pages and lc = demo_compare and date = demo_date,
      OF demo_compare_preorder one g(2) j, unfolded Let_def u]
  then obtain res where f: "fetchLatestRelease demo_date demo_compare demo_pages = Some res" by blast
  with w g(3) show ?thesis by (cases res) (auto simp: compareEligibleReleases_def)
qed

definition demo_filled :: install_service where
  "demo_filled = bodiesFetched 10 (Some ''sh'') (Some ''ps'') (releaseListed 5 (Inr \<lparr>el_tagName = ''v1.10.0'', el_publishedAt = 3\<rparr>)
     (getCacheEntry 0 0 new_install_service))"

definition demo_outage :: install_service where
  "demo_outage = releaseListed 400005 (Inl BadGatewayError) (getCacheEntry 1 400000 demo_filled)"

lemma demo_filled_run:
  "demo_filled = \<lparr>in_cache = Some \<lparr>ce_tag = ''v1.10.0'', ce_installSh = ''sh'', ce_installPs1 = ''ps'', ce_expiresAt = 300010\<rparr>, in_refresh = None,
     in_answers = [0 \<mapsto> Inr \<lparr>ce_tag = ''v1.10.0'', ce_installSh = ''sh'', ce_installPs1 = ''ps'', ce_expiresAt = 300010\<rparr>]\<rparr>"
  by (auto simp: demo_filled_def new_install_service_def getCacheEntry_def releaseListed_def bodiesFetched_def fetchScriptBody_def
      settleRefresh_def Let_def answer_all_def INSTALL_SCRIPT_CACHE_TTL_MS_def)

lemma demo_filled_reachable: "install_step\<^sup>*\<^sup>* (new_install_service, {}) (demo_filled, {(''v1.10.0'', ''sh'', ''ps'')})"
proof -
  let ?s1 = "getCacheEntry 0 0 new_install_service"
  let ?s2 = "releaseListed 5 (Inr \<lparr>el_tagName = ''v1.10.0'', el_publishedAt = 3\<rparr>) ?s1"
  have v: "isStableVersionTag ''v1.10.0''" by code_simp
  have s2: "in_refresh ?s2 = Some \<lparr>rf_existing = None, rf_phase = FetchingBodies ''v1.10.0'', rf_waiters = [0]\<rparr>"
    by (simp add: releaseListed_def getCacheEntry_def new_install_service_def)
  have "install_step (new_install_service, {}) (?s1, {})" by (rule install_step.request)
  moreover have "install_step (?s1, {}) (?s2, {})" by (rule install_step.listed) (use v in auto)
  moreover have "install_step (?s2, {}) (demo_filled, {(''v1.10.0'', ''sh'', ''ps'')})"
    using install_step.bodies [OF s2, of "''v1.10.0''" "{}" 10 "Some ''sh''" "Some ''ps''"] by (simp add: demo_filled_def)
  ultimately show ?thesis by (meson rtranclp.rtrancl_into_rtrancl r_into_rtranclp)
qed

theorem install_scripts_survive_outages_witness:
  "in_answers demo_outage 1 = Some (Inr \<lparr>ce_tag = ''v1.10.0'', ce_installSh = ''sh'', ce_installPs1 = ''ps'', ce_expiresAt = 700005\<rparr>) \<and>
   isStableVersionTag ''v1.10.0''"
proof -
  let ?L = "{(''v1.10.0'', ''sh'', ''ps'')}"
  have "install_step (demo_filled, ?L) (getCacheEntry 1 400000 demo_filled, ?L)" by (rule install_step.request)
  moreover have "install_step (getCacheEntry 1 400000 demo_filled, ?L) (demo_outage, ?L)"
    unfolding demo_outage_def by (rule install_step.listed) simp
  ultimately have r: "install_step\<^sup>*\<^sup>* (demo_filled, ?L) (demo_outage, ?L)" by (meson rtranclp.rtrancl_into_rtrancl r_into_rtranclp)
  have a: "in_answers demo_outage 1 = Some (Inr \<lparr>ce_tag = ''v1.10.0'', ce_installSh = ''sh'', ce_installPs1 = ''ps'', ce_expiresAt = 700005\<rparr>)"
    by (simp add: demo_outage_def demo_filled_run getCacheEntry_def isCacheFresh_def releaseListed_def settleRefresh_def Let_def
        INSTALL_SCRIPT_CACHE_TTL_MS_def)
  show ?thesis using conjunct1 [OF install_scripts_survive_outages [OF demo_filled_reachable r], rule_format, OF a] a by simp
qed

end
