(* ===== verification/Shutdown.thy ===== *)
theory Shutdown
  imports Prelude
begin

text \<open>
  The ordered shutdown, \<open>src/shutdown.ts\<close>: waiters are released, the producers'
  disposals start, realtime sessions are disposed before the listener closes, reads are
  drained and MongoDB closes last, under one deadline and with one exit.  How and when
  a component settles is an event.  A waiter's release and \<open>beginShutdown\<close> do not throw.
\<close>

record shutdown_config =
  sc_waiters :: nat
  sc_producers :: nat
  sc_drainers :: nat
  sc_realtime :: bool

datatype shutdown_act =
  ReleaseWaiter nat
| BeginRealtime
| StartDisposal nat
| DisposeRealtime
| CloseApp
| DrainReads nat
| CloseMongo

datatype shutdown_phase =
  Running
| DrainingRealtime
| ClosingApp
| DrainingProducers
| DrainingReads nat
| ClosingMongo
| Ended bool
  \<comment> \<open>whether it succeeded\<close>

record shutdown =
  sh_phase :: shutdown_phase
  sh_pending :: "nat set"
  \<comment> \<open>the producers that have not settled\<close>
  sh_deadline :: bool
  \<comment> \<open>whether the timer is set\<close>
  sh_exits :: "nat list"
  \<comment> \<open>the calls of \<open>exit\<close>\<close>
  sh_acts :: "shutdown_act list"

definition new_shutdown :: shutdown where
  "new_shutdown = \<lparr>sh_phase = Running, sh_pending = {}, sh_deadline = False, sh_exits = [], sh_acts = []\<rparr>"

definition exitOnce :: "nat \<Rightarrow> shutdown \<Rightarrow> shutdown" where
  "exitOnce code s = (if sh_exits s \<noteq> [] then s else s\<lparr>sh_exits := [code]\<rparr>)"

definition finishShutdown :: "bool \<Rightarrow> shutdown \<Rightarrow> shutdown" where
  \<comment> \<open>the ordered shutdown has settled; the timer is cleared\<close>
  "finishShutdown ok s =
     exitOnce (if ok then 0 else 1) (s\<lparr>sh_phase := Ended ok, sh_deadline := False\<rparr>)"

definition closeApp :: "shutdown \<Rightarrow> shutdown" where
  "closeApp s = s\<lparr>sh_phase := ClosingApp, sh_acts := sh_acts s @ [CloseApp]\<rparr>"

definition drainReads :: "shutdown_config \<Rightarrow> nat \<Rightarrow> shutdown \<Rightarrow> shutdown" where
  \<comment> \<open>the loop over the drainers from the \<open>i\<close>-th on, then MongoDB\<close>
  "drainReads cfg i s =
     (if i < sc_drainers cfg then s\<lparr>sh_phase := DrainingReads i, sh_acts := sh_acts s @ [DrainReads i]\<rparr>
      else s\<lparr>sh_phase := ClosingMongo, sh_acts := sh_acts s @ [CloseMongo]\<rparr>)"

definition awaitProducers :: "shutdown_config \<Rightarrow> shutdown \<Rightarrow> shutdown" where
  "awaitProducers cfg s = (if sh_pending s = {} then drainReads cfg 0 s else s\<lparr>sh_phase := DrainingProducers\<rparr>)"

definition requestShutdown :: "shutdown_config \<Rightarrow> shutdown \<Rightarrow> shutdown" where
  \<comment> \<open>a signal; only the first one starts it\<close>
  "requestShutdown cfg s =
     (if sh_phase s \<noteq> Running then s
      else
        let s1 = s\<lparr>sh_pending := {0..<sc_producers cfg}, sh_deadline := True,
                   sh_acts := sh_acts s @ map ReleaseWaiter [0..<sc_waiters cfg] @
                     (if sc_realtime cfg then [BeginRealtime] else []) @ map StartDisposal [0..<sc_producers cfg]\<rparr> in
        if sc_realtime cfg then s1\<lparr>sh_phase := DrainingRealtime, sh_acts := sh_acts s1 @ [DisposeRealtime]\<rparr>
        else closeApp s1)"

definition realtimeSettled :: "shutdown \<Rightarrow> shutdown" where
  \<comment> \<open>a failed disposal is only logged\<close>
  "realtimeSettled s = (if sh_phase s = DrainingRealtime then closeApp s else s)"

definition appClosed :: "shutdown_config \<Rightarrow> bool \<Rightarrow> shutdown \<Rightarrow> shutdown" where
  "appClosed cfg ok s =
     (if sh_phase s \<noteq> ClosingApp then s else if ok then awaitProducers cfg s else finishShutdown False s)"

definition producerSettled :: "shutdown_config \<Rightarrow> nat \<Rightarrow> shutdown \<Rightarrow> shutdown" where
  \<comment> \<open>resolved, rejected or thrown: the drain never rejects\<close>
  "producerSettled cfg i s =
     (let s1 = s\<lparr>sh_pending := sh_pending s - {i}\<rparr> in
      if sh_phase s = DrainingProducers then awaitProducers cfg s1 else s1)"

definition readsDrained :: "shutdown_config \<Rightarrow> bool \<Rightarrow> shutdown \<Rightarrow> shutdown" where
  "readsDrained cfg ok s =
     (case sh_phase s of
        DrainingReads i \<Rightarrow> if ok then drainReads cfg (i + 1) s else finishShutdown False s
      | _ \<Rightarrow> s)"

definition mongoClosed :: "bool \<Rightarrow> shutdown \<Rightarrow> shutdown" where
  "mongoClosed ok s = (if sh_phase s = ClosingMongo then finishShutdown ok s else s)"

definition deadlineExceeded :: "shutdown \<Rightarrow> shutdown" where
  "deadlineExceeded s = (if sh_deadline s then exitOnce 1 (s\<lparr>sh_deadline := False\<rparr>) else s)"

section \<open>Runs\<close>

datatype shutdown_event =
  Signal
| RealtimeSettled
| AppClosed bool
| ProducerSettled nat
| ReadsDrained bool
| MongoClosed bool
| Deadline

fun shutdown_step :: "shutdown_config \<Rightarrow> shutdown_event \<Rightarrow> shutdown \<Rightarrow> shutdown" where
  "shutdown_step cfg Signal s = requestShutdown cfg s"
| "shutdown_step cfg RealtimeSettled s = realtimeSettled s"
| "shutdown_step cfg (AppClosed ok) s = appClosed cfg ok s"
| "shutdown_step cfg (ProducerSettled i) s = producerSettled cfg i s"
| "shutdown_step cfg (ReadsDrained ok) s = readsDrained cfg ok s"
| "shutdown_step cfg (MongoClosed ok) s = mongoClosed ok s"
| "shutdown_step cfg Deadline s = deadlineExceeded s"

definition shutdown_run :: "shutdown_config \<Rightarrow> shutdown_event list \<Rightarrow> shutdown" where
  "shutdown_run cfg evs = fold (shutdown_step cfg) evs new_shutdown"

section \<open>The plan\<close>

definition prologue :: "shutdown_config \<Rightarrow> shutdown_act list" where
  "prologue cfg = map ReleaseWaiter [0..<sc_waiters cfg] @ (if sc_realtime cfg then [BeginRealtime] else []) @
     map StartDisposal [0..<sc_producers cfg] @ (if sc_realtime cfg then [DisposeRealtime] else [])"

definition plan :: "shutdown_config \<Rightarrow> shutdown_act list" where
  \<comment> \<open>what a complete shutdown does, in order\<close>
  "plan cfg = prologue cfg @ [CloseApp] @ map DrainReads [0..<sc_drainers cfg] @ [CloseMongo]"

fun acts_at :: "shutdown_config \<Rightarrow> shutdown_phase \<Rightarrow> shutdown_act list \<Rightarrow> bool" where
  \<comment> \<open>what has been done in a phase\<close>
  "acts_at cfg Running acts = (acts = [])"
| "acts_at cfg DrainingRealtime acts = (sc_realtime cfg \<and> acts = prologue cfg)"
| "acts_at cfg ClosingApp acts = (acts = prologue cfg @ [CloseApp])"
| "acts_at cfg DrainingProducers acts = (acts = prologue cfg @ [CloseApp])"
| "acts_at cfg (DrainingReads i) acts = (i < sc_drainers cfg \<and> acts = prologue cfg @ [CloseApp] @ map DrainReads [0..<i + 1])"
| "acts_at cfg ClosingMongo acts = (acts = plan cfg)"
| "acts_at cfg (Ended True) acts = (acts = plan cfg)"
| "acts_at cfg (Ended False) acts = prefix acts (plan cfg)"

lemma prefix_plan: "acts_at cfg p acts \<Longrightarrow> prefix acts (plan cfg)"
proof (cases p)
  case (DrainingReads i)
  moreover assume "acts_at cfg p acts"
  ultimately have i: "i < sc_drainers cfg" and acts: "acts = prologue cfg @ [CloseApp] @ map DrainReads [0..<i + 1]" by simp_all
  have "[0..<sc_drainers cfg] = [0..<i + 1] @ [i + 1..<sc_drainers cfg]"
    using upt_add_eq_append [of 0 "i + 1" "sc_drainers cfg - (i + 1)"] i by simp
  then have "map DrainReads [0..<sc_drainers cfg] = map DrainReads [0..<i + 1] @ map DrainReads [i + 1..<sc_drainers cfg]"
    by (metis map_append)
  then show ?thesis by (simp add: plan_def acts)
next
  case (Ended ok)
  moreover assume "acts_at cfg p acts"
  ultimately show ?thesis by (cases ok) simp_all
qed (simp_all add: plan_def)

definition exits_ok :: "shutdown \<Rightarrow> bool" where
  "exits_ok s \<longleftrightarrow>
     (case sh_phase s of
        Running \<Rightarrow> \<not> sh_deadline s \<and> sh_exits s = []
      | Ended ok \<Rightarrow> \<not> sh_deadline s \<and> (sh_exits s = [if ok then 0 else 1] \<or> sh_exits s = [1])
      | _ \<Rightarrow> sh_deadline s \<and> sh_exits s = [] \<or> \<not> sh_deadline s \<and> sh_exits s = [1])"

definition pending_ok :: "shutdown \<Rightarrow> bool" where
  "pending_ok s \<longleftrightarrow> (CloseMongo \<in> set (sh_acts s) \<or> (\<exists>i. sh_phase s = DrainingReads i) \<longrightarrow> sh_pending s = {})"

definition shutdown_ok :: "shutdown_config \<Rightarrow> shutdown \<Rightarrow> bool" where
  "shutdown_ok cfg s \<longleftrightarrow> acts_at cfg (sh_phase s) (sh_acts s) \<and> exits_ok s \<and> pending_ok s"

lemma no_mongo_early: "CloseMongo \<notin> set (prologue cfg)"
  by (auto simp: prologue_def)

lemma finish_ok:
  assumes "shutdown_ok cfg s" and "sh_phase s \<noteq> Running" and "\<forall>x. sh_phase s \<noteq> Ended x"
    and "acts_at cfg (Ended ok) (sh_acts s)"
  shows "shutdown_ok cfg (finishShutdown ok s)"
proof -
  have e: "sh_deadline s \<and> sh_exits s = [] \<or> \<not> sh_deadline s \<and> sh_exits s = [1]"
    using assms(1-3) by (cases "sh_phase s") (auto simp: shutdown_ok_def exits_ok_def)
  have f: "sh_phase (finishShutdown ok s) = Ended ok" "sh_acts (finishShutdown ok s) = sh_acts s"
    "sh_pending (finishShutdown ok s) = sh_pending s" "\<not> sh_deadline (finishShutdown ok s)"
    "sh_exits (finishShutdown ok s) = (if sh_exits s = [] then [if ok then 0 else 1] else sh_exits s)"
    by (simp_all add: finishShutdown_def exitOnce_def)
  have "exits_ok (finishShutdown ok s)" using e f by (auto simp: exits_ok_def)
  moreover have "pending_ok (finishShutdown ok s)" using assms(1) f by (simp add: shutdown_ok_def pending_ok_def)
  ultimately show ?thesis using assms(4) f by (simp add: shutdown_ok_def)
qed

lemma reads_ok:
  assumes "exits_ok s" and "sh_phase s \<noteq> Running" and "\<forall>x. sh_phase s \<noteq> Ended x" and "sh_pending s = {}"
    and "i \<le> sc_drainers cfg" and "sh_acts s = prologue cfg @ [CloseApp] @ map DrainReads [0..<i]"
  shows "shutdown_ok cfg (drainReads cfg i s)"
proof -
  have "sh_deadline s \<and> sh_exits s = [] \<or> \<not> sh_deadline s \<and> sh_exits s = [1]"
    using assms(1-3) by (cases "sh_phase s") (auto simp: exits_ok_def)
  then show ?thesis using assms(4-6)
    by (cases "i < sc_drainers cfg") (simp_all add: shutdown_ok_def drainReads_def plan_def exits_ok_def pending_ok_def)
qed

lemma producers_ok:
  assumes "shutdown_ok cfg s" and "sh_phase s = ClosingApp \<or> sh_phase s = DrainingProducers"
  shows "shutdown_ok cfg (awaitProducers cfg s)"
proof (cases "sh_pending s = {}")
  case True
  have "shutdown_ok cfg (drainReads cfg 0 s)"
    by (rule reads_ok) (use assms True in \<open>auto simp: shutdown_ok_def\<close>)
  then show ?thesis using True by (simp add: awaitProducers_def)
next
  case False
  have "CloseMongo \<notin> set (sh_acts s)" using assms no_mongo_early [of cfg] by (auto simp: shutdown_ok_def)
  then show ?thesis using assms False by (auto simp: awaitProducers_def shutdown_ok_def exits_ok_def pending_ok_def)
qed

lemma pending_less: "shutdown_ok cfg s \<Longrightarrow> shutdown_ok cfg (s\<lparr>sh_pending := sh_pending s - A\<rparr>)"
  by (cases "sh_phase s") (simp_all add: shutdown_ok_def exits_ok_def pending_ok_def)

lemma signal_ok:
  assumes "shutdown_ok cfg s"
  shows "shutdown_ok cfg (requestShutdown cfg s)"
proof (cases "sh_phase s = Running")
  case True
  then have "sh_acts s = []" "sh_exits s = []" using assms by (simp_all add: shutdown_ok_def exits_ok_def)
  moreover have "CloseMongo \<notin> ReleaseWaiter ` A" "CloseMongo \<notin> StartDisposal ` A" for A by auto
  ultimately show ?thesis using True
    by (simp add: requestShutdown_def Let_def closeApp_def shutdown_ok_def prologue_def exits_ok_def pending_ok_def)
qed (use assms in \<open>simp add: requestShutdown_def\<close>)

lemma realtime_ok: "shutdown_ok cfg s \<Longrightarrow> shutdown_ok cfg (realtimeSettled s)"
  by (cases "sh_phase s = DrainingRealtime")
    (simp_all add: realtimeSettled_def closeApp_def shutdown_ok_def exits_ok_def pending_ok_def)

lemma deadline_ok: "shutdown_ok cfg s \<Longrightarrow> shutdown_ok cfg (deadlineExceeded s)"
  by (cases "sh_phase s") (auto simp: deadlineExceeded_def exitOnce_def shutdown_ok_def exits_ok_def pending_ok_def)

lemma app_ok:
  assumes "shutdown_ok cfg s"
  shows "shutdown_ok cfg (appClosed cfg ok s)"
proof (cases "sh_phase s = ClosingApp")
  case True
  then have "acts_at cfg (Ended False) (sh_acts s)" using assms prefix_plan [of cfg ClosingApp] by (simp add: shutdown_ok_def)
  then show ?thesis using True finish_ok [OF assms, of False] producers_ok [OF assms] by (simp add: appClosed_def)
qed (use assms in \<open>simp add: appClosed_def\<close>)

lemma drained_ok:
  assumes "shutdown_ok cfg s"
  shows "shutdown_ok cfg (readsDrained cfg ok s)"
proof (cases "sh_phase s")
  case (DrainingReads i)
  then have i: "i < sc_drainers cfg" "sh_acts s = prologue cfg @ [CloseApp] @ map DrainReads [0..<i + 1]" "sh_pending s = {}" "exits_ok s"
    using assms by (simp_all add: shutdown_ok_def pending_ok_def)
  show ?thesis
  proof (cases ok)
    case True
    have "shutdown_ok cfg (drainReads cfg (i + 1) s)"
      by (rule reads_ok) (use i DrainingReads in auto)
    then show ?thesis using True DrainingReads by (simp add: readsDrained_def)
  next
    case False
    have "acts_at cfg (Ended False) (sh_acts s)"
      using assms prefix_plan [of cfg "sh_phase s"] by (simp add: shutdown_ok_def)
    then have "shutdown_ok cfg (finishShutdown False s)" using finish_ok [OF assms, of False] DrainingReads by simp
    then show ?thesis using False DrainingReads by (simp add: readsDrained_def)
  qed
qed (use assms in \<open>simp_all add: readsDrained_def\<close>)

lemma mongo_ok:
  assumes "shutdown_ok cfg s"
  shows "shutdown_ok cfg (mongoClosed ok s)"
proof (cases "sh_phase s = ClosingMongo")
  case True
  then have "acts_at cfg (Ended ok) (sh_acts s)" using assms by (cases ok) (simp_all add: shutdown_ok_def)
  then show ?thesis using True finish_ok [OF assms, of ok] by (simp add: mongoClosed_def)
qed (use assms in \<open>simp add: mongoClosed_def\<close>)

lemma producer_ok: "shutdown_ok cfg s \<Longrightarrow> shutdown_ok cfg (producerSettled cfg i s)"
  using pending_less [of cfg s "{i}"] producers_ok [of cfg "s\<lparr>sh_pending := sh_pending s - {i}\<rparr>"]
  by (simp add: producerSettled_def Let_def)

lemma shutdown_step_ok: "shutdown_ok cfg s \<Longrightarrow> shutdown_ok cfg (shutdown_step cfg ev s)"
  by (cases ev) (simp_all add: signal_ok realtime_ok app_ok producer_ok drained_ok mongo_ok deadline_ok)

lemma shutdown_run_ok: "shutdown_ok cfg (shutdown_run cfg evs)"
proof -
  have "shutdown_ok cfg s \<Longrightarrow> shutdown_ok cfg (fold (shutdown_step cfg) evs s)" for s
    by (induction evs arbitrary: s) (simp_all add: shutdown_step_ok)
  moreover have "shutdown_ok cfg new_shutdown" by (simp add: shutdown_ok_def new_shutdown_def exits_ok_def pending_ok_def)
  ultimately show ?thesis by (simp add: shutdown_run_def)
qed

lemma failure_needs_cause:
  assumes "1 \<in> set (sh_exits (shutdown_run cfg evs))"
  shows "Deadline \<in> set evs \<or> AppClosed False \<in> set evs \<or> ReadsDrained False \<in> set evs \<or> MongoClosed False \<in> set evs"
proof -
  have "1 \<in> set (sh_exits s) \<or> Deadline \<in> set evs \<or> AppClosed False \<in> set evs \<or> ReadsDrained False \<in> set evs \<or> MongoClosed False \<in> set evs"
    if "1 \<in> set (sh_exits (fold (shutdown_step cfg) evs s))" for s
    using that
  proof (induction evs arbitrary: s)
    case (Cons ev evs)
    have "1 \<in> set (sh_exits s) \<or> ev \<in> {Deadline, AppClosed False, ReadsDrained False, MongoClosed False}"
      if "1 \<in> set (sh_exits (shutdown_step cfg ev s))"
      using that
      by (cases ev)
        (auto simp: requestShutdown_def Let_def closeApp_def realtimeSettled_def appClosed_def awaitProducers_def drainReads_def
          producerSettled_def readsDrained_def mongoClosed_def finishShutdown_def exitOnce_def deadlineExceeded_def
          split: if_splits shutdown_phase.splits)
    then show ?case using Cons.IH [of "shutdown_step cfg ev s"] Cons.prems by auto
  qed simp
  from this [of new_shutdown] show ?thesis using assms by (simp add: shutdown_run_def new_shutdown_def)
qed

text \<open>C40: The shutdown is ordered, happens once and reports truthfully.  Whatever order signals, settlements and
  the deadline come in: what has been done is a prefix of the one plan (waiters, producers, realtime,
  listener, reads, MongoDB), so nothing is done twice and MongoDB closes only after the listener, every
  producer and every read; the process exits at most once, with 0 only after the whole plan, and with
  1 only if the deadline passed or the listener, a read drain or MongoDB failed, never because a
  producer's disposal did.\<close>
theorem shutdown_is_ordered:
  "(let s = shutdown_run cfg evs in
     prefix (sh_acts s) (plan cfg) \<and> length (sh_exits s) \<le> 1 \<and>
     (CloseMongo \<in> set (sh_acts s) \<longrightarrow> sh_pending s = {}) \<and>
     (0 \<in> set (sh_exits s) \<longrightarrow> sh_acts s = plan cfg \<and> sh_phase s = Ended True) \<and>
     (1 \<in> set (sh_exits s) \<longrightarrow>
        Deadline \<in> set evs \<or> AppClosed False \<in> set evs \<or> ReadsDrained False \<in> set evs \<or> MongoClosed False \<in> set evs))"
proof -
  note ok = shutdown_run_ok [of cfg evs]
  have "prefix (sh_acts (shutdown_run cfg evs)) (plan cfg)" using ok by (auto simp: shutdown_ok_def intro: prefix_plan)
  moreover have e: "exits_ok (shutdown_run cfg evs)" using ok by (simp add: shutdown_ok_def)
  then have "length (sh_exits (shutdown_run cfg evs)) \<le> 1"
    and ended: "0 \<in> set (sh_exits (shutdown_run cfg evs)) \<Longrightarrow> sh_phase (shutdown_run cfg evs) = Ended True"
    by (cases "sh_phase (shutdown_run cfg evs)"; auto simp: exits_ok_def split: if_splits)+
  moreover have "sh_acts (shutdown_run cfg evs) = plan cfg" if "0 \<in> set (sh_exits (shutdown_run cfg evs))"
    using ok ended [OF that] by (simp add: shutdown_ok_def)
  ultimately show ?thesis using ok failure_needs_cause [of cfg evs] by (simp add: Let_def shutdown_ok_def pending_ok_def)
qed

definition demo_shutdown_config :: shutdown_config where
  "demo_shutdown_config = \<lparr>sc_waiters = 1, sc_producers = 2, sc_drainers = 1, sc_realtime = True\<rparr>"

definition demo_shutdown :: "shutdown_event list" where
  "demo_shutdown = [Signal, Signal, RealtimeSettled, ProducerSettled 1, AppClosed True, ProducerSettled 0, ReadsDrained True, MongoClosed True, Deadline]"

theorem shutdown_is_ordered_witness:
  "sh_exits (shutdown_run demo_shutdown_config demo_shutdown) = [0] \<and>
   sh_acts (shutdown_run demo_shutdown_config demo_shutdown) = plan demo_shutdown_config"
proof -
  have "sh_exits (shutdown_run demo_shutdown_config demo_shutdown) = [0]" by code_simp
  moreover from this have "0 \<in> set (sh_exits (shutdown_run demo_shutdown_config demo_shutdown))" by simp
  ultimately show ?thesis
    using shutdown_is_ordered [of demo_shutdown_config demo_shutdown] by (auto simp: Let_def)
qed

end
