(* ===== verification/Spec2Isabelle.thy ===== *)
theory Spec2Isabelle
  imports OAuthFlowProps OAuthPagesProps UserProps DevicesProps BridgeTrackerProps BridgeServiceProps GlossaryProps AuthProps BackfillProps RealtimeSocketProps
    OptionalEmailProps OptionalEmailTokensProps PresenceProps AnalyticsFailureProps AnalyticsEventsProps PurgeProps
    ProviderRoutesProps InstallScriptsProps Shutdown
begin
text \<open>skeleton\<close>
end
